(* ===== verification/Prelude.thy ===== *)
theory Prelude
  imports Complex_Main "HOL-Library.Word" "HOL-Library.Char_ord" "HOL-Library.List_Lexorder" "HOL-Library.Multiset"
begin

text \<open>
  Shared vocabulary of the development: Go's strings, times and slices as the components
  use them.

  A Go \<open>string\<close> is a sequence of bytes, so it is a HOL \<^typ>\<open>string\<close> (a list of 8-bit
  characters); \<open>List_Lexorder\<close> and \<open>Char_ord\<close> give it Go's bytewise order. The functions of
  the standard library the code calls (\<open>strings.TrimSpace\<close>, \<open>strings.Cut\<close>,
  \<open>strings.Split\<close>, \<open>slices.BinarySearch\<close>, \<open>time.Time.Sub\<close>, ...) are written out here
  once, with the facts the components need about them.

  The only approximation is \<open>go_to_lower\<close>: it maps the ASCII letters and the two other runes
  whose lower case is an ASCII letter, and leaves the remaining non-ASCII runes as they are;
  every caller compares the result with ASCII text only.
\<close>

named_theorems trim_simps \<open>facts about trimmed strings\<close>
named_theorems go_defs \<open>small definitions that proofs unfold freely\<close>

section \<open>Times and durations\<close>

text \<open>
  A \<open>time.Time\<close> is the number of nanoseconds since Go's zero time, so the zero value is 0;
  a \<open>time.Duration\<close> is a number of nanoseconds. \<open>Sub\<close> saturates at the ends of the 64-bit
  range, as \<open>time.Time.Sub\<close> does: the difference between the clock and the zero time is
  the maximal duration.
\<close>

type_synonym go_time = int
type_synonym go_duration = int

definition max_duration :: go_duration where
  "max_duration = 9223372036854775807"

definition min_duration :: go_duration where
  "min_duration = - 9223372036854775808"

definition time_sub :: "go_time \<Rightarrow> go_time \<Rightarrow> go_duration" where
  "time_sub t u = max min_duration (min max_duration (t - u))"

definition second :: go_duration where
  "second = 1000000000"

lemma time_sub_mono: "t \<le> t' \<Longrightarrow> time_sub t u \<le> time_sub t' u"
  by (simp add: time_sub_def)

lemma time_sub_exact:
  "min_duration \<le> t - u \<Longrightarrow> t - u \<le> max_duration \<Longrightarrow> time_sub t u = t - u"
  by (simp add: time_sub_def)

lemma time_sub_less_iff:
  "min_duration < d \<Longrightarrow> d \<le> max_duration \<Longrightarrow> time_sub t u < d \<longleftrightarrow> t - u < d"
  by (auto simp: time_sub_def max_duration_def min_duration_def)

lemma time_sub_greater_iff:
  "min_duration \<le> d \<Longrightarrow> d < max_duration \<Longrightarrow> d < time_sub t u \<longleftrightarrow> d < t - u"
  by (auto simp: time_sub_def max_duration_def min_duration_def)

section \<open>Prefixes, cutting and joining\<close>

text \<open>\<open>strings.HasPrefix\<close>, \<open>strings.Cut(s, c)\<close>, \<open>strings.Split(s, c)\<close> and
  \<open>strings.Join(ss, c)\<close> for a one-byte separator \<open>c\<close>.\<close>

fun has_prefix :: "'a list \<Rightarrow> 'a list \<Rightarrow> bool" where
  "has_prefix s [] = True"
| "has_prefix [] (p # ps) = False"
| "has_prefix (c # s) (p # ps) = (c = p \<and> has_prefix s ps)"

lemma has_prefix_iff: "has_prefix s p \<longleftrightarrow> (\<exists>t. s = p @ t)"
  by (induction s p rule: has_prefix.induct) auto

lemma has_prefix_take: "has_prefix s p \<longleftrightarrow> take (length p) s = p"
  by (induction s p rule: has_prefix.induct) auto

lemma has_prefix_append [simp]: "has_prefix (p @ t) p"
  by (auto simp: has_prefix_iff)

lemma has_prefix_length: "has_prefix s p \<Longrightarrow> length p \<le> length s"
  by (auto simp: has_prefix_iff)

lemma has_prefix_append_mono: "has_prefix s p \<Longrightarrow> has_prefix (s @ t) p"
  by (auto simp: has_prefix_iff)

text \<open>\<open>strings.HasSuffix\<close>, \<open>strings.TrimPrefix\<close> and \<open>strings.TrimSuffix\<close>.\<close>

definition has_suffix :: "'a list \<Rightarrow> 'a list \<Rightarrow> bool" where
  "has_suffix s suf \<longleftrightarrow> length suf \<le> length s \<and> drop (length s - length suf) s = suf"

definition trim_prefix :: "'a list \<Rightarrow> 'a list \<Rightarrow> 'a list" where
  "trim_prefix s p = (if has_prefix s p then drop (length p) s else s)"

definition trim_suffix :: "'a list \<Rightarrow> 'a list \<Rightarrow> 'a list" where
  "trim_suffix s suf = (if has_suffix s suf then take (length s - length suf) s else s)"

fun cut :: "char \<Rightarrow> string \<Rightarrow> (string \<times> string) option" where
  "cut c [] = None"
| "cut c (x # s) =
     (if x = c then Some ([], s)
      else case cut c s of None \<Rightarrow> None | Some (a, b) \<Rightarrow> Some (x # a, b))"

lemma cut_Some_iff: "cut c s = Some (a, b) \<longleftrightarrow> s = a @ c # b \<and> c \<notin> set a"
proof (induction s arbitrary: a)
  case Nil
  then show ?case by simp
next
  case (Cons x s)
  show ?case
  proof (cases "x = c")
    case True
    then show ?thesis by (cases a) auto
  next
    case False
    show ?thesis
    proof (cases a)
      case Nil
      with False show ?thesis by (simp split: option.split)
    next
      case (Cons y a')
      have "cut c (x # s) = Some (y # a', b) \<longleftrightarrow> x = y \<and> cut c s = Some (a', b)"
        using False by (cases "cut c s") auto
      with Cons.IH False Cons show ?thesis by simp blast
    qed
  qed
qed

lemma cut_None_iff: "cut c s = None \<longleftrightarrow> c \<notin> set s"
  by (induction s) (auto split: option.splits)

lemma cut_append: "c \<notin> set a \<Longrightarrow> cut c (a @ c # b) = Some (a, b)"
  by (simp add: cut_Some_iff)

fun split_on :: "char \<Rightarrow> string \<Rightarrow> string list" where
  "split_on c [] = [[]]"
| "split_on c (x # s) =
     (if x = c then [] # split_on c s
      else case split_on c s of [] \<Rightarrow> [[x]] | a # as \<Rightarrow> (x # a) # as)"

lemma split_on_nonempty [simp]: "split_on c s \<noteq> []"
  by (induction s) (auto split: list.splits)

lemma split_on_no_sep: "c \<notin> set s \<Longrightarrow> split_on c s = [s]"
  by (induction s) auto

lemma split_on_append: "c \<notin> set a \<Longrightarrow> split_on c (a @ c # s) = a # split_on c s"
  by (induction a) auto

lemma split_on_members: "a \<in> set (split_on c s) \<Longrightarrow> c \<notin> set a"
  by (induction s arbitrary: a) (fastforce split: if_splits list.splits)+

fun join_with :: "char \<Rightarrow> string list \<Rightarrow> string" where
  "join_with c [] = []"
| "join_with c [a] = a"
| "join_with c (a # as) = a @ c # join_with c as"

lemma split_join:
  "as \<noteq> [] \<Longrightarrow> (\<forall>a\<in>set as. c \<notin> set a) \<Longrightarrow> split_on c (join_with c as) = as"
  by (induction c as rule: join_with.induct) (auto simp: split_on_no_sep split_on_append)

lemma join_with_snoc:
  "as \<noteq> [] \<Longrightarrow> join_with c (as @ [a]) = join_with c as @ c # a"
  by (induction c as rule: join_with.induct) auto

section \<open>White space\<close>

text \<open>
  \<open>strings.TrimSpace\<close> removes the leading and trailing runes for which
  \<open>unicode.IsSpace\<close> holds. These are the runes below, as UTF-8 byte sequences: the ASCII
  white space, U+0085, U+00A0, U+1680, U+2000 to U+200A, U+2028, U+2029, U+202F, U+205F and
  U+3000. No other rune and no invalid byte is removed.
\<close>

definition space_runes :: "string list" where
  "space_runes =
     [[CHR 0x20], [CHR 0x09], [CHR 0x0A], [CHR 0x0B], [CHR 0x0C], [CHR 0x0D],
      [CHR 0xC2, CHR 0x85], [CHR 0xC2, CHR 0xA0], [CHR 0xE1, CHR 0x9A, CHR 0x80],
      [CHR 0xE2, CHR 0x80, CHR 0x80], [CHR 0xE2, CHR 0x80, CHR 0x81],
      [CHR 0xE2, CHR 0x80, CHR 0x82], [CHR 0xE2, CHR 0x80, CHR 0x83],
      [CHR 0xE2, CHR 0x80, CHR 0x84], [CHR 0xE2, CHR 0x80, CHR 0x85],
      [CHR 0xE2, CHR 0x80, CHR 0x86], [CHR 0xE2, CHR 0x80, CHR 0x87],
      [CHR 0xE2, CHR 0x80, CHR 0x88], [CHR 0xE2, CHR 0x80, CHR 0x89],
      [CHR 0xE2, CHR 0x80, CHR 0x8A], [CHR 0xE2, CHR 0x80, CHR 0xA8],
      [CHR 0xE2, CHR 0x80, CHR 0xA9], [CHR 0xE2, CHR 0x80, CHR 0xAF],
      [CHR 0xE2, CHR 0x81, CHR 0x9F], [CHR 0xE3, CHR 0x80, CHR 0x80]]"

function drop_runes :: "string list \<Rightarrow> string \<Rightarrow> string" where
  "drop_runes R s =
     (case find (\<lambda>r. r \<noteq> [] \<and> has_prefix s r) R of
        None \<Rightarrow> s
      | Some r \<Rightarrow> drop_runes R (drop (length r) s))"
  by pat_completeness auto
termination
proof (relation "measure (\<lambda>(R, s). length s)")
  fix R :: "string list" and s r
  assume "find (\<lambda>r. r \<noteq> [] \<and> has_prefix s r) R = Some r"
  then have "r \<noteq> []" and "has_prefix s r" by (auto simp: find_Some_iff)
  then have "0 < length r" and "length r \<le> length s" by (auto dest: has_prefix_length)
  then have "length (drop (length r) s) < length s" by (simp only: length_drop)
  then show "((R, drop (length r) s), R, s) \<in> measure (\<lambda>(R, s). length s)" by simp
qed simp

declare drop_runes.simps [simp del]

definition go_trim :: "string \<Rightarrow> string" where
  "go_trim s = rev (drop_runes (map rev space_runes) (rev (drop_runes space_runes s)))"

text \<open>No white space at the front (read with \<open>R\<close>).\<close>

definition clean_front :: "string list \<Rightarrow> string \<Rightarrow> bool" where
  "clean_front R s \<longleftrightarrow> (\<forall>r\<in>set R. r \<noteq> [] \<longrightarrow> \<not> has_prefix s r)"

lemma drop_runes_clean: "clean_front R (drop_runes R s)"
proof (induction R s rule: drop_runes.induct)
  case (1 R s)
  show ?case
  proof (cases "find (\<lambda>r. r \<noteq> [] \<and> has_prefix s r) R")
    case None
    then have "drop_runes R s = s" by (simp add: drop_runes.simps [of R s])
    with None show ?thesis by (auto simp: clean_front_def find_None_iff)
  next
    case (Some r)
    with "1.IH" show ?thesis by (simp add: drop_runes.simps [of R s])
  qed
qed

lemma drop_runes_id: "clean_front R s \<Longrightarrow> drop_runes R s = s"
proof -
  assume "clean_front R s"
  then have "find (\<lambda>r. r \<noteq> [] \<and> has_prefix s r) R = None"
    by (auto simp: clean_front_def find_None_iff)
  then show ?thesis by (simp add: drop_runes.simps)
qed

lemma drop_runes_suffix: "\<exists>p. s = p @ drop_runes R s"
proof (induction R s rule: drop_runes.induct)
  case (1 R s)
  show ?case
  proof (cases "find (\<lambda>r. r \<noteq> [] \<and> has_prefix s r) R")
    case None
    then show ?thesis by (simp add: drop_runes.simps [of R s])
  next
    case (Some r)
    then obtain t where t: "s = r @ t"
      by (auto simp: find_Some_iff has_prefix_iff)
    from "1.IH" [OF Some] obtain p where "t = p @ drop_runes R t"
      using t by auto
    moreover have "drop_runes R s = drop_runes R t"
      using Some t by (subst drop_runes.simps) simp
    ultimately show ?thesis using t by (metis append.assoc)
  qed
qed

lemma clean_front_Nil: "clean_front R []"
  by (auto simp: clean_front_def neq_Nil_conv)

lemma clean_front_prefix: "clean_front R (s @ t) \<Longrightarrow> clean_front R s"
  by (auto simp: clean_front_def dest: has_prefix_append_mono)

text \<open>A string is trimmed when neither end carries white space; \<open>go_trim\<close> produces exactly
  the trimmed strings.\<close>

definition trimmed :: "string \<Rightarrow> bool" where
  "trimmed s \<longleftrightarrow> clean_front space_runes s \<and> clean_front (map rev space_runes) (rev s)"

lemma trimmed_go_trim [simp, trim_simps]: "trimmed (go_trim s)"
proof -
  let ?l = "drop_runes space_runes s"
  obtain p where "rev ?l = p @ drop_runes (map rev space_runes) (rev ?l)"
    using drop_runes_suffix by blast
  then have "?l = go_trim s @ rev p"
    by (metis go_trim_def rev_append rev_rev_ident)
  then have "clean_front space_runes (go_trim s)"
    using drop_runes_clean [of space_runes s] clean_front_prefix by metis
  then show ?thesis
    by (simp add: trimmed_def go_trim_def drop_runes_clean)
qed

lemma go_trim_id [simp, trim_simps]: "trimmed s \<Longrightarrow> go_trim s = s"
  by (simp add: trimmed_def go_trim_def drop_runes_id)

lemma trimmed_iff: "trimmed s \<longleftrightarrow> go_trim s = s"
  by (metis go_trim_id trimmed_go_trim)

lemma go_trim_idem: "go_trim (go_trim s) = go_trim s"
  by simp

lemma trimmed_Nil [simp, trim_simps]: "trimmed []"
  by (simp add: trimmed_def clean_front_Nil)

lemma go_trim_Nil [simp]: "go_trim [] = []"
  by simp

lemma go_trim_set: "set (go_trim s) \<subseteq> set s"
proof -
  obtain p where p: "s = p @ drop_runes space_runes s"
    using drop_runes_suffix by blast
  obtain q where q: "rev (drop_runes space_runes s)
      = q @ drop_runes (map rev space_runes) (rev (drop_runes space_runes s))"
    using drop_runes_suffix by blast
  have "set (go_trim s) \<subseteq> set (rev (drop_runes space_runes s))"
    unfolding go_trim_def by (metis q set_append set_rev sup_ge2)
  also have "\<dots> \<subseteq> set s"
    by (metis p set_append set_rev sup_ge2)
  finally show ?thesis .
qed

lemma space_runes_slash: "r \<in> set space_runes \<Longrightarrow> CHR ''/'' \<notin> set r \<and> r \<noteq> []"
  by (auto simp: space_runes_def)

lemma clean_front_slash:
  assumes "clean_front R p" and "\<forall>r\<in>set R. CHR ''/'' \<notin> set r" and "p \<noteq> []"
  shows "clean_front R (p @ CHR ''/'' # m)"
  unfolding clean_front_def
proof (intro ballI impI notI)
  fix r assume r: "r \<in> set R" "r \<noteq> []" and "has_prefix (p @ CHR ''/'' # m) r"
  then obtain t where t: "p @ CHR ''/'' # m = r @ t"
    by (auto simp: has_prefix_iff)
  have "length r \<le> length p"
  proof (rule ccontr)
    assume "\<not> length r \<le> length p"
    then have "CHR ''/'' \<in> set r"
      using t by (auto simp: append_eq_append_conv2 Cons_eq_append_conv)
    with r(1) assms(2) show False by blast
  qed
  with t obtain u where "p = r @ u"
    by (auto simp: append_eq_append_conv2)
  with r assms(1) show False by (auto simp: clean_front_def)
qed

lemma clean_front_slash_only:
  assumes "\<forall>r\<in>set R. CHR ''/'' \<notin> set r"
  shows "clean_front R (CHR ''/'' # m)"
  using assms by (auto simp: clean_front_def has_prefix_iff Cons_eq_append_conv)

lemma rev_space_runes_slash: "\<forall>r\<in>set (map rev space_runes). CHR ''/'' \<notin> set r"
  using space_runes_slash by auto

text \<open>Two trimmed parts joined by a slash are trimmed: a white-space rune never holds a slash.\<close>

lemma trimmed_slash [trim_simps]:
  assumes "trimmed p" and "trimmed m"
  shows "trimmed (p @ CHR ''/'' # m)"
proof -
  have sl: "\<forall>r\<in>set space_runes. CHR ''/'' \<notin> set r" using space_runes_slash by blast
  have "clean_front space_runes (p @ CHR ''/'' # m)"
    using assms(1) sl clean_front_slash clean_front_slash_only
    by (cases "p = []") (auto simp: trimmed_def)
  moreover have "clean_front (map rev space_runes) (rev m @ CHR ''/'' # rev p)"
    using assms(2) rev_space_runes_slash clean_front_slash clean_front_slash_only
    by (cases "m = []") (auto simp: trimmed_def)
  ultimately show ?thesis by (simp add: trimmed_def)
qed

section \<open>Lower case and substrings\<close>

text \<open>\<open>strings.ToLower\<close>. Besides the ASCII letters, U+0130 (bytes C4 B0) and the Kelvin sign
  U+212A (bytes E2 84 AA) are the runes whose lower case is ASCII.\<close>

definition lower_byte :: "char \<Rightarrow> char" where
  "lower_byte c =
     (if 65 \<le> (of_char c :: nat) \<and> (of_char c :: nat) \<le> 90
      then char_of ((of_char c :: nat) + 32) else c)"

fun go_to_lower :: "string \<Rightarrow> string" where
  "go_to_lower [] = []"
| "go_to_lower (a # s) =
     (if a = CHR 0xC4 \<and> has_prefix s [CHR 0xB0] then CHR ''i'' # go_to_lower (drop 1 s)
      else if a = CHR 0xE2 \<and> has_prefix s [CHR 0x84, CHR 0xAA]
      then CHR ''k'' # go_to_lower (drop 2 s)
      else lower_byte a # go_to_lower s)"

fun index_of :: "'a list \<Rightarrow> 'a list \<Rightarrow> nat option" where
  \<comment> \<open>\<open>bytes.Index\<close> and \<open>strings.Index\<close>: the first offset at which the pattern stands.\<close>
  "index_of p s =
     (if has_prefix s p then Some 0
      else case s of [] \<Rightarrow> None | c # s' \<Rightarrow> map_option Suc (index_of p s'))"

declare index_of.simps [simp del]

definition go_contains :: "string \<Rightarrow> string \<Rightarrow> bool" where
  "go_contains s p = (index_of p s \<noteq> None)"

lemma index_of_Some: "index_of p s = Some i \<Longrightarrow> i \<le> length s \<and> has_prefix (drop i s) p"
proof (induction p s arbitrary: i rule: index_of.induct)
  case (1 p s)
  show ?case
  proof (cases "has_prefix s p")
    case True
    with "1.prems" show ?thesis by (simp add: index_of.simps [of p s])
  next
    case False
    with "1.prems" obtain c s' j where "s = c # s'" "index_of p s' = Some j" "i = Suc j"
      by (auto simp: index_of.simps [of p s] split: list.splits)
    with "1.IH" False show ?thesis by simp
  qed
qed

lemma index_of_least: "index_of p s = Some i \<Longrightarrow> j < i \<Longrightarrow> \<not> has_prefix (drop j s) p"
proof (induction p s arbitrary: i j rule: index_of.induct)
  case (1 p s)
  show ?case
  proof (cases "has_prefix s p")
    case True
    with "1.prems" show ?thesis by (simp add: index_of.simps [of p s])
  next
    case False
    with "1.prems" obtain c s' k where s: "s = c # s'" "index_of p s' = Some k" "i = Suc k"
      by (auto simp: index_of.simps [of p s] split: list.splits)
    with "1.IH" "1.prems" False show ?thesis by (cases j) auto
  qed
qed

lemma index_of_None: "index_of p s = None \<Longrightarrow> \<not> has_prefix (drop j s) p"
proof (induction p s arbitrary: j rule: index_of.induct)
  case (1 p s)
  then have np: "\<not> has_prefix s p" by (auto simp: index_of.simps [of p s] split: if_splits)
  show ?case
  proof (cases s)
    case Nil
    with np show ?thesis by simp
  next
    case (Cons c s')
    with "1.prems" np have "index_of p s' = None"
      by (subst (asm) index_of.simps) simp
    then have "\<not> has_prefix (drop i s') p" for i
      using "1.IH" [OF np Cons] by blast
    with Cons np show ?thesis by (cases j) auto
  qed
qed

lemma index_of_Some_iff:
  "index_of p s = Some i \<longleftrightarrow>
     i \<le> length s \<and> has_prefix (drop i s) p \<and> (\<forall>j<i. \<not> has_prefix (drop j s) p)"
proof (cases "index_of p s")
  case None
  then have "\<not> has_prefix (drop i s) p" by (rule index_of_None)
  with None show ?thesis by simp
next
  case (Some k)
  have "has_prefix (drop k s) p" and "\<forall>j<k. \<not> has_prefix (drop j s) p"
    using Some index_of_Some index_of_least by blast+
  moreover have "k \<le> length s" using Some index_of_Some by blast
  ultimately show ?thesis
    using Some by (metis linorder_neqE_nat option.inject)
qed

lemma index_of_None_iff: "index_of p s = None \<longleftrightarrow> (\<forall>j\<le>length s. \<not> has_prefix (drop j s) p)"
  by (metis index_of_None index_of_Some not_Some_eq)

lemma go_contains_iff: "go_contains s p \<longleftrightarrow> (\<exists>a b. s = a @ p @ b)"
proof
  assume "go_contains s p"
  then obtain i where "has_prefix (drop i s) p"
    by (auto simp: go_contains_def dest: index_of_Some)
  then show "\<exists>a b. s = a @ p @ b"
    by (metis append_take_drop_id has_prefix_iff)
next
  assume "\<exists>a b. s = a @ p @ b"
  then obtain a b where "s = a @ p @ b" by blast
  then have "has_prefix (drop (length a) s) p" by simp
  then show "go_contains s p"
    using index_of_None by (fastforce simp: go_contains_def)
qed

text \<open>\<open>strings.LastIndex(s, c)\<close> for a one-byte pattern; \<open>None\<close> is the result -1.\<close>

fun last_index :: "'a \<Rightarrow> 'a list \<Rightarrow> nat option" where
  "last_index c [] = None"
| "last_index c (x # s) =
     (case last_index c s of
        Some i \<Rightarrow> Some (Suc i)
      | None \<Rightarrow> if x = c then Some 0 else None)"

lemma last_index_None_iff: "last_index c s = None \<longleftrightarrow> c \<notin> set s"
  by (induction s) (auto split: option.splits)

lemma last_index_append:
  "c \<notin> set b \<Longrightarrow> last_index c (a @ c # b) = Some (length a)"
  by (induction a) (auto simp: last_index_None_iff split: option.split)

lemma last_index_less: "last_index c s = Some i \<Longrightarrow> i < length s"
  by (induction s arbitrary: i) (auto split: option.splits if_splits)

section \<open>Binary search\<close>

text \<open>\<open>slices.BinarySearch\<close>, as the standard library writes it: the halving loop over
  \<open>[i, j)\<close>, then one comparison. On a sorted slice it decides membership; on an unsorted
  one it need not.\<close>

function bsearch_pos :: "'a::linorder list \<Rightarrow> 'a \<Rightarrow> nat \<Rightarrow> nat \<Rightarrow> nat" where
  "bsearch_pos xs x i j =
     (if i < j then
        (let h = (i + j) div 2
         in if xs ! h < x then bsearch_pos xs x (Suc h) j else bsearch_pos xs x i h)
      else i)"
  by pat_completeness auto
termination
  by (relation "measure (\<lambda>(xs, x, i, j). j - i)") auto

declare bsearch_pos.simps [simp del]

definition binary_search :: "'a::linorder list \<Rightarrow> 'a \<Rightarrow> bool" where
  "binary_search xs x =
     (let i = bsearch_pos xs x 0 (length xs) in i < length xs \<and> xs ! i = x)"

lemma bsearch_pos_bounds:
  "sorted xs \<Longrightarrow> i \<le> j \<Longrightarrow> j \<le> length xs \<Longrightarrow> (\<forall>k<i. xs ! k < x) \<Longrightarrow>
   (\<forall>k. j \<le> k \<longrightarrow> k < length xs \<longrightarrow> x \<le> xs ! k) \<Longrightarrow>
   (let p = bsearch_pos xs x i j in
      p \<le> length xs \<and> (\<forall>k<p. xs ! k < x) \<and> (\<forall>k. p \<le> k \<longrightarrow> k < length xs \<longrightarrow> x \<le> xs ! k))"
proof (induction xs x i j rule: bsearch_pos.induct)
  case (1 xs x i j)
  show ?case
  proof (cases "i < j")
    case False
    with "1.prems" have "i = j" by simp
    moreover have "bsearch_pos xs x i j = i" using False by (subst bsearch_pos.simps) simp
    ultimately show ?thesis using "1.prems" by (simp add: Let_def)
  next
    case True
    let ?h = "(i + j) div 2"
    have h: "i \<le> ?h" "?h < j" "?h < length xs" using True "1.prems"(3) by auto
    show ?thesis
    proof (cases "xs ! ?h < x")
      case True
      have "xs ! k < x" if "k < Suc ?h" for k
        using that True h "1.prems"(1)
        by (metis less_Suc_eq_le order_le_less_trans sorted_nth_mono)
      with "1.IH"(1) [OF \<open>i < j\<close> refl True] "1.prems" h show ?thesis
        by (simp add: bsearch_pos.simps [of xs x i j] \<open>i < j\<close> True)
    next
      case False
      have "x \<le> xs ! k" if "?h \<le> k" "k < length xs" for k
        using that False h "1.prems"(1)
        by (meson linorder_not_less order_trans sorted_nth_mono)
      with "1.IH"(2) [OF \<open>i < j\<close> refl False] "1.prems" h show ?thesis
        by (simp add: bsearch_pos.simps [of xs x i j] \<open>i < j\<close> False)
    qed
  qed
qed

lemma binary_search_sorted: "sorted xs \<Longrightarrow> binary_search xs x \<longleftrightarrow> x \<in> set xs"
proof -
  assume "sorted xs"
  then have p: "let p = bsearch_pos xs x 0 (length xs) in
      p \<le> length xs \<and> (\<forall>k<p. xs ! k < x) \<and> (\<forall>k. p \<le> k \<longrightarrow> k < length xs \<longrightarrow> x \<le> xs ! k)"
    by (intro bsearch_pos_bounds) auto
  show ?thesis
  proof
    assume "x \<in> set xs"
    then obtain k where k: "k < length xs" "xs ! k = x" by (auto simp: in_set_conv_nth)
    let ?p = "bsearch_pos xs x 0 (length xs)"
    from p k have "?p \<le> k" by (metis less_irrefl linorder_not_less)
    with k have "?p < length xs" by simp
    with p have "x \<le> xs ! ?p" by (simp add: Let_def)
    moreover have "xs ! ?p \<le> x"
      using sorted_nth_mono [OF \<open>sorted xs\<close> \<open>?p \<le> k\<close> k(1)] k(2) by simp
    ultimately show "binary_search xs x"
      using \<open>?p < length xs\<close> by (simp add: binary_search_def Let_def)
  qed (auto simp: binary_search_def Let_def in_set_conv_nth)
qed

section \<open>Lists without repetition, in order of first occurrence\<close>

text \<open>The code's idiom of a \<open>seen\<close> set beside the slice it fills: keep an element the first
  time it appears.\<close>

fun keep_first :: "'a list \<Rightarrow> 'a list \<Rightarrow> 'a list" where
  "keep_first seen [] = []"
| "keep_first seen (x # xs) =
     (if x \<in> set seen then keep_first seen xs else x # keep_first (x # seen) xs)"

lemma set_keep_first: "set (keep_first seen xs) = set xs - set seen"
  by (induction seen xs rule: keep_first.induct) auto

lemma distinct_keep_first: "distinct (keep_first seen xs)"
  by (induction seen xs rule: keep_first.induct) (auto simp: set_keep_first)

lemma keep_first_id: "distinct xs \<Longrightarrow> set xs \<inter> set seen = {} \<Longrightarrow> keep_first seen xs = xs"
  by (induction seen xs rule: keep_first.induct) auto

section \<open>Decimal numbers\<close>

definition decimal_digit :: "nat \<Rightarrow> char" where
  "decimal_digit n = char_of (48 + n mod 10)"

fun decimal :: "nat \<Rightarrow> string" where
  \<comment> \<open>\<open>%d\<close>\<close>
  "decimal n = (if n < 10 then [decimal_digit n] else decimal (n div 10) @ [decimal_digit n])"

declare decimal.simps [simp del]

definition decimal_int :: "int \<Rightarrow> string" where
  "decimal_int i = (if i < 0 then CHR 0x2D # decimal (nat (- i)) else decimal (nat i))"

section \<open>Conversion of numbers\<close>

text \<open>Conversion of a \<open>float64\<close> to an integer, towards zero.\<close>

definition truncate_rat :: "rat \<Rightarrow> int" where
  "truncate_rat x = (if 0 \<le> x then \<lfloor>x\<rfloor> else \<lceil>x\<rceil>)"

section \<open>Bounded quantifiers over an index\<close>

lemma ex_less_Suc_split: "(\<exists>k<Suc n. P k) \<longleftrightarrow> P 0 \<or> (\<exists>k<n. P (Suc k))"
  by (metis Suc_less_eq gr0_conv_Suc less_Suc_eq_0_disj)

lemma all_less_Suc_split: "(\<forall>k<Suc n. P k) \<longleftrightarrow> P 0 \<and> (\<forall>k<n. P (Suc k))"
  by (metis Suc_less_eq gr0_conv_Suc less_Suc_eq_0_disj)

lemma all_le_Suc_split: "(\<forall>k\<le>Suc n. P k) \<longleftrightarrow> P 0 \<and> (\<forall>k\<le>n. P (Suc k))"
  by (metis Suc_le_mono bot_nat_0.extremum not0_implies_Suc)

end
