(* ===== verification/GatewayErrors.thy ===== *)
theory GatewayErrors
  imports Prelude
begin

text \<open>
  The gateway's error type (\<open>internal/core/errors.go\<close>) and the error tests of the HTTP client
  (\<open>internal/llmclient/client.go\<close>).

  A Go \<open>error\<close> is a chain of wrapped values. \<open>go_error\<close> has a constructor for each kind of link
  the code can tell apart: the two context errors, a \<open>net.Error\<close> (which \<open>*url.Error\<close> is), an
  opaque error, \<open>fmt.Errorf("...%w")\<close>, and \<open>*core.GatewayError\<close> with its fields. \<open>errors.Is\<close>
  and \<open>errors.As\<close> walk the chain from the outside in.

  The upstream error body is JSON; decoding it belongs to a third-party package, so
  \<open>ParseProviderError\<close> takes the decoded details as the function \<open>details\<close>.
\<close>

section \<open>The error type\<close>

datatype error_type =
    ErrorTypeProvider
  | ErrorTypeRateLimit
  | ErrorTypeInvalidRequest
  | ErrorTypeAuthentication
  | ErrorTypeNotFound

datatype go_error =
    ContextCanceled
  | ContextDeadlineExceeded
  | NetError (net_timeout: bool) (net_message: string) (net_inner: "go_error option")
  | PlainError (plain_message: string)
  | WrappedError (wrap_message: string) (wrap_inner: go_error)
  | GatewayError (ge_type: error_type) (ge_message: string) (ge_status: int)
      (ge_provider: string) (ge_param: "string option") (ge_code: "string option")
      (ge_err: "go_error option") (ge_body: string)

fun error_type_string :: "error_type \<Rightarrow> string" where
  "error_type_string ErrorTypeProvider = ''provider_error''"
| "error_type_string ErrorTypeRateLimit = ''rate_limit_error''"
| "error_type_string ErrorTypeInvalidRequest = ''invalid_request_error''"
| "error_type_string ErrorTypeAuthentication = ''authentication_error''"
| "error_type_string ErrorTypeNotFound = ''not_found_error''"

fun error_string :: "go_error \<Rightarrow> string" where
  "error_string ContextCanceled = ''context canceled''"
| "error_string ContextDeadlineExceeded = ''context deadline exceeded''"
| "error_string (NetError t m i) = m"
| "error_string (PlainError m) = m"
| "error_string (WrappedError m i) = m"
| "error_string (GatewayError ty m st pr pa co er bo) =
     (if pr \<noteq> [] then ''['' @ pr @ ''] '' @ error_type_string ty @ '': '' @ m
      else error_type_string ty @ '': '' @ m)"

text \<open>\<open>GatewayError.HTTPStatusCode\<close>: the stored status, or the default of the type.\<close>

fun HTTPStatusCode :: "go_error \<Rightarrow> int" where
  "HTTPStatusCode (GatewayError ty m st pr pa co er bo) =
     (if st \<noteq> 0 then st
      else case ty of
          ErrorTypeRateLimit \<Rightarrow> 429
        | ErrorTypeInvalidRequest \<Rightarrow> 400
        | ErrorTypeAuthentication \<Rightarrow> 401
        | ErrorTypeNotFound \<Rightarrow> 404
        | ErrorTypeProvider \<Rightarrow> 502)"
| "HTTPStatusCode _ = 500"

section \<open>Constructors\<close>

definition NewProviderError :: "string \<Rightarrow> int \<Rightarrow> string \<Rightarrow> go_error option \<Rightarrow> go_error" where
  "NewProviderError provider statusCode message err =
     GatewayError ErrorTypeProvider message statusCode provider None None err []"

definition NewRateLimitError :: "string \<Rightarrow> string \<Rightarrow> go_error" where
  "NewRateLimitError provider message =
     GatewayError ErrorTypeRateLimit message 429 provider None None None []"

definition NewInvalidRequestErrorWithStatus :: "int \<Rightarrow> string \<Rightarrow> go_error option \<Rightarrow> go_error" where
  "NewInvalidRequestErrorWithStatus statusCode message err =
     GatewayError ErrorTypeInvalidRequest message statusCode [] None None err []"

definition NewInvalidRequestError :: "string \<Rightarrow> go_error option \<Rightarrow> go_error" where
  "NewInvalidRequestError message err = NewInvalidRequestErrorWithStatus 400 message err"

definition NewAuthenticationError :: "string \<Rightarrow> string \<Rightarrow> go_error" where
  "NewAuthenticationError provider message =
     GatewayError ErrorTypeAuthentication message 401 provider None None None []"

definition NewNotFoundError :: "string \<Rightarrow> go_error" where
  "NewNotFoundError message = GatewayError ErrorTypeNotFound message 404 [] None None None []"

fun WithCode :: "string \<Rightarrow> go_error \<Rightarrow> go_error" where
  "WithCode code (GatewayError ty m st pr pa co er bo) = GatewayError ty m st pr pa (Some code) er bo"
| "WithCode code e = e"

fun WithParam :: "string \<Rightarrow> go_error \<Rightarrow> go_error" where
  "WithParam param (GatewayError ty m st pr pa co er bo) = GatewayError ty m st pr (Some param) co er bo"
| "WithParam param e = e"

definition NewModelNotFoundError :: "string \<Rightarrow> go_error" where
  "NewModelNotFoundError model =
     WithCode ''model_not_found'' (NewNotFoundError (''unsupported model: '' @ model))"

lemmas new_error_defs =
  NewProviderError_def NewRateLimitError_def NewInvalidRequestErrorWithStatus_def
  NewInvalidRequestError_def NewAuthenticationError_def NewNotFoundError_def
  NewModelNotFoundError_def

section \<open>Walking the chain\<close>

fun unwrap :: "go_error \<Rightarrow> go_error option" where
  "unwrap (NetError t m i) = i"
| "unwrap (WrappedError m i) = Some i"
| "unwrap (GatewayError ty m st pr pa co er bo) = er"
| "unwrap _ = None"

fun error_chain :: "go_error \<Rightarrow> go_error list" where
  "error_chain (NetError t m (Some i)) = NetError t m (Some i) # error_chain i"
| "error_chain (WrappedError m i) = WrappedError m i # error_chain i"
| "error_chain (GatewayError ty m st pr pa co (Some i) bo) =
     GatewayError ty m st pr pa co (Some i) bo # error_chain i"
| "error_chain e = [e]"

text \<open>\<open>errors.Is(err, target)\<close> for the two context errors, and \<open>errors.As\<close> for
  \<open>*core.GatewayError\<close> and \<open>net.Error\<close> (which \<open>context.DeadlineExceeded\<close> also
  implements).\<close>

definition is_canceled :: "go_error \<Rightarrow> bool" where
  "is_canceled e = (ContextCanceled \<in> set (error_chain e))"

definition is_deadline :: "go_error \<Rightarrow> bool" where
  "is_deadline e = (ContextDeadlineExceeded \<in> set (error_chain e))"

fun is_gateway :: "go_error \<Rightarrow> bool" where
  "is_gateway (GatewayError ty m st pr pa co er bo) = True"
| "is_gateway _ = False"

definition as_gateway :: "go_error \<Rightarrow> go_error option" where
  "as_gateway e = find is_gateway (error_chain e)"

fun is_net :: "go_error \<Rightarrow> bool" where
  "is_net (NetError t m i) = True"
| "is_net ContextDeadlineExceeded = True"
| "is_net _ = False"

fun net_timed_out :: "go_error \<Rightarrow> bool" where
  "net_timed_out (NetError t m i) = t"
| "net_timed_out ContextDeadlineExceeded = True"
| "net_timed_out _ = False"

lemma as_gateway_self [simp]: "is_gateway e \<Longrightarrow> as_gateway e = Some e"
  by (cases e rule: error_chain.cases) (auto simp: as_gateway_def)

lemma as_gateway_is_gateway: "as_gateway e = Some g \<Longrightarrow> is_gateway g"
  by (auto simp: as_gateway_def find_Some_iff)

section \<open>Classifying an upstream response\<close>

record provider_error_details =
  ped_message :: string
  ped_param :: string
  ped_code :: string

definition maxGatewayErrorBodyBytes :: nat where
  "maxGatewayErrorBodyBytes = 64 * 1024"

definition captureGatewayErrorBody :: "string \<Rightarrow> string" where
  "captureGatewayErrorBody body = take maxGatewayErrorBodyBytes body"

fun with_body :: "string \<Rightarrow> go_error \<Rightarrow> go_error" where
  "with_body body (GatewayError ty m st pr pa co er bo) = GatewayError ty m st pr pa co er body"
| "with_body body e = e"

fun with_provider_err :: "string \<Rightarrow> go_error option \<Rightarrow> go_error \<Rightarrow> go_error" where
  "with_provider_err provider err (GatewayError ty m st pr pa co er bo) =
     GatewayError ty m st provider pa co err bo"
| "with_provider_err provider err e = e"

definition classify_status ::
  "string \<Rightarrow> int \<Rightarrow> string \<Rightarrow> go_error option \<Rightarrow> go_error" where
  "classify_status provider statusCode message originalErr =
     (if statusCode = 401 then
        GatewayError ErrorTypeAuthentication message 401 provider None None originalErr []
      else if statusCode = 403 then
        GatewayError ErrorTypeAuthentication message 403 provider None None originalErr []
      else if statusCode = 429 then
        GatewayError ErrorTypeRateLimit message 429 provider None None originalErr []
      else if statusCode = 404 then
        with_provider_err provider originalErr (NewNotFoundError message)
      else if 400 \<le> statusCode \<and> statusCode < 500 then
        with_provider_err provider originalErr
          (NewInvalidRequestErrorWithStatus statusCode message originalErr)
      else if 500 \<le> statusCode then NewProviderError provider statusCode message originalErr
      else NewProviderError provider 502 message originalErr)"

definition ParseProviderError ::
  "(string \<Rightarrow> provider_error_details) \<Rightarrow> string \<Rightarrow> int \<Rightarrow> string \<Rightarrow> go_error option \<Rightarrow> go_error" where
  "ParseProviderError details provider statusCode body originalErr =
     (let d = details body;
          message = (if ped_message d \<noteq> [] then ped_message d else body);
          e = classify_status provider statusCode message originalErr;
          e = (if ped_param d \<noteq> [] then WithParam (ped_param d) e else e);
          e = (if ped_code d \<noteq> [] then WithCode (ped_code d) e else e)
      in with_body (captureGatewayErrorBody body) e)"

text \<open>\<open>shouldPreferProviderRaw\<close>: the wrapper message of a relaying provider gives way to the
  detail below it.\<close>

definition shouldPreferProviderRaw :: "string \<Rightarrow> string \<Rightarrow> bool" where
  "shouldPreferProviderRaw message raw =
     (if go_trim raw = [] then False
      else let m = go_to_lower (go_trim message)
           in m = [] \<or> has_prefix m ''provider returned'')"

lemma classify_status_gateway [simp]: "is_gateway (classify_status p s m e)"
  by (simp add: classify_status_def new_error_defs)

lemma WithCode_fields [simp]:
  "is_gateway (WithCode c e) = is_gateway e"
  "HTTPStatusCode (WithCode c e) = HTTPStatusCode e"
  by (cases e; simp)+

lemma WithParam_fields [simp]:
  "is_gateway (WithParam c e) = is_gateway e"
  "HTTPStatusCode (WithParam c e) = HTTPStatusCode e"
  by (cases e; simp)+

lemma with_body_fields [simp]:
  "is_gateway (with_body b e) = is_gateway e"
  "HTTPStatusCode (with_body b e) = HTTPStatusCode e"
  by (cases e; simp)+

lemma WithCode_type [simp]: "is_gateway e \<Longrightarrow> ge_type (WithCode c e) = ge_type e"
  by (cases e) auto

lemma WithParam_type [simp]: "is_gateway e \<Longrightarrow> ge_type (WithParam c e) = ge_type e"
  by (cases e) auto

lemma with_body_type [simp]: "is_gateway e \<Longrightarrow> ge_type (with_body b e) = ge_type e"
  by (cases e) auto

lemma with_body_body [simp]: "is_gateway e \<Longrightarrow> ge_body (with_body b e) = b"
  by (cases e) auto

lemma ParseProviderError_gateway [simp]:
  "is_gateway (ParseProviderError details p s b e)"
  by (simp add: ParseProviderError_def Let_def)

lemma ParseProviderError_status:
  "HTTPStatusCode (ParseProviderError details p s b e) = (if 400 \<le> s then s else 502)"
  by (simp add: ParseProviderError_def Let_def classify_status_def new_error_defs)

lemma ParseProviderError_type:
  "ge_type (ParseProviderError details p s b e) =
     (if s = 401 \<or> s = 403 then ErrorTypeAuthentication
      else if s = 429 then ErrorTypeRateLimit
      else if s = 404 then ErrorTypeNotFound
      else if 400 \<le> s \<and> s < 500 then ErrorTypeInvalidRequest
      else ErrorTypeProvider)"
  by (simp add: ParseProviderError_def Let_def)
     (simp add: classify_status_def new_error_defs)

lemma ParseProviderError_body:
  "ge_body (ParseProviderError details p s b e) = take maxGatewayErrorBodyBytes b"
  by (simp add: ParseProviderError_def Let_def captureGatewayErrorBody_def)

text \<open>
  C7. What an upstream error status becomes. Every error status of a provider is relayed
  unchanged, every other status becomes 502; the type follows the status; and the body kept for
  the audit log is the upstream body cut at 64 KiB.
\<close>

theorem provider_error_faithful:
  "HTTPStatusCode (ParseProviderError details p s b e) = (if 400 \<le> s then s else 502)
   \<and> (ge_type (ParseProviderError details p s b e) = ErrorTypeRateLimit) = (s = 429)
   \<and> (ge_type (ParseProviderError details p s b e) = ErrorTypeAuthentication) = (s \<in> {401, 403})
   \<and> (ge_type (ParseProviderError details p s b e) = ErrorTypeNotFound) = (s = 404)
   \<and> (ge_type (ParseProviderError details p s b e) = ErrorTypeProvider) = (s < 400 \<or> 500 \<le> s)
   \<and> ge_body (ParseProviderError details p s b e) = take 65536 b"
  unfolding ParseProviderError_status ParseProviderError_type ParseProviderError_body
  by (auto simp: maxGatewayErrorBodyBytes_def)

section \<open>The client's error tests\<close>

definition extractStatusCode :: "go_error \<Rightarrow> int" where
  "extractStatusCode err = (case as_gateway err of Some g \<Rightarrow> ge_status g | None \<Rightarrow> 0)"

definition isTimeoutError :: "go_error option \<Rightarrow> bool" where
  "isTimeoutError err =
     (case err of
        None \<Rightarrow> False
      | Some e \<Rightarrow>
          if is_deadline e then True
          else case find is_net (error_chain e) of
              Some n \<Rightarrow>
                if net_timed_out n then True
                else go_contains (go_to_lower (error_string e)) ''client.timeout exceeded'' \<or>
                     go_contains (go_to_lower (error_string e)) ''timeout awaiting response headers''
            | None \<Rightarrow>
                go_contains (go_to_lower (error_string e)) ''client.timeout exceeded'' \<or>
                go_contains (go_to_lower (error_string e)) ''timeout awaiting response headers'')"

definition providerErrorStatusCode :: "go_error \<Rightarrow> int" where
  "providerErrorStatusCode err = (if isTimeoutError (Some err) then 504 else 502)"

definition isLocalRequestBuildError :: "go_error \<Rightarrow> bool" where
  "isLocalRequestBuildError err =
     (case as_gateway err of
        None \<Rightarrow> False
      | Some g \<Rightarrow> ge_type g = ErrorTypeInvalidRequest)"

definition isClientTimeoutGatewayError :: "go_error \<Rightarrow> bool" where
  "isClientTimeoutGatewayError err =
     (case as_gateway err of
        None \<Rightarrow> isTimeoutError (Some err)
      | Some g \<Rightarrow>
          if ge_status g \<noteq> 504 then False
          else if isTimeoutError (ge_err g) then True
          else isTimeoutError (Some g))"

end
