(* ===== verification/CircuitBreaker.thy ===== *)
theory CircuitBreaker
  imports Prelude
begin

text \<open>
  The circuit breaker of the provider client (\<open>internal/llmclient/circuit_breaker.go\<close>): its
  record, one function per method, the invariant between its fields, and what a run of
  outcomes does to it. Each method holds the breaker's mutex from entry to return, so a method
  is one atomic step; the clock reading a method takes is its argument \<open>now\<close>.

  The locale \<open>breaker_contract\<close> is what the client relies on: a consumed probe slot is only ever
  given back by a verdict or a release, and every verdict or release gives it back.
\<close>

datatype circuit_state = CircuitClosed | CircuitOpen | CircuitHalfOpen

record circuit_breaker =
  cb_state :: circuit_state
  cb_failures :: int
  cb_successes :: int
  failureThreshold :: int
  successThreshold :: int
  cb_timeout :: go_duration
  lastFailure :: go_time
  halfOpenAllowed :: bool

definition newCircuitBreaker :: "int \<Rightarrow> int \<Rightarrow> go_duration \<Rightarrow> circuit_breaker" where
  "newCircuitBreaker failThreshold succThreshold timeout =
     \<lparr>cb_state = CircuitClosed, cb_failures = 0, cb_successes = 0,
      failureThreshold = failThreshold, successThreshold = succThreshold,
      cb_timeout = timeout, lastFailure = 0, halfOpenAllowed = True\<rparr>"

text \<open>The half-open case of \<open>acquire\<close>, which the open case falls through to.\<close>

definition acquire_half_open :: "circuit_breaker \<Rightarrow> circuit_breaker \<times> bool \<times> bool" where
  "acquire_half_open cb =
     (if halfOpenAllowed cb then (cb\<lparr>halfOpenAllowed := False\<rparr>, True, True)
      else (cb, False, False))"

definition acquire :: "go_time \<Rightarrow> circuit_breaker \<Rightarrow> circuit_breaker \<times> bool \<times> bool" where
  "acquire now cb =
     (case cb_state cb of
        CircuitClosed \<Rightarrow> (cb, True, False)
      | CircuitOpen \<Rightarrow>
          if cb_timeout cb < time_sub now (lastFailure cb)
          then acquire_half_open
                 (cb\<lparr>cb_state := CircuitHalfOpen, cb_successes := 0, halfOpenAllowed := True\<rparr>)
          else (cb, False, False)
      | CircuitHalfOpen \<Rightarrow> acquire_half_open cb)"

definition releaseProbe :: "circuit_breaker \<Rightarrow> circuit_breaker" where
  "releaseProbe cb =
     (if cb_state cb = CircuitHalfOpen then cb\<lparr>halfOpenAllowed := True\<rparr> else cb)"

definition RecordSuccess :: "circuit_breaker \<Rightarrow> circuit_breaker" where
  "RecordSuccess cb =
     (case cb_state cb of
        CircuitHalfOpen \<Rightarrow>
          let cb' = cb\<lparr>cb_successes := cb_successes cb + 1, halfOpenAllowed := True\<rparr>
          in if successThreshold cb' \<le> cb_successes cb'
             then cb'\<lparr>cb_state := CircuitClosed, cb_failures := 0\<rparr> else cb'
      | CircuitClosed \<Rightarrow> cb\<lparr>cb_failures := 0\<rparr>
      | CircuitOpen \<Rightarrow> cb)"

definition RecordFailure :: "go_time \<Rightarrow> circuit_breaker \<Rightarrow> circuit_breaker" where
  "RecordFailure now cb =
     (let cb' = cb\<lparr>cb_failures := cb_failures cb + 1, lastFailure := now\<rparr>
      in case cb_state cb' of
           CircuitClosed \<Rightarrow>
             if failureThreshold cb' \<le> cb_failures cb'
             then cb'\<lparr>cb_state := CircuitOpen\<rparr> else cb'
         | CircuitHalfOpen \<Rightarrow>
             cb'\<lparr>cb_state := CircuitOpen, cb_successes := 0, halfOpenAllowed := True\<rparr>
         | CircuitOpen \<Rightarrow> cb')"

fun circuit_state_string :: "circuit_state \<Rightarrow> string" where
  "circuit_state_string CircuitClosed = ''closed''"
| "circuit_state_string CircuitOpen = ''open''"
| "circuit_state_string CircuitHalfOpen = ''half-open''"

definition State :: "circuit_breaker \<Rightarrow> string" where
  "State cb = circuit_state_string (cb_state cb)"

definition IsHalfOpen :: "circuit_breaker \<Rightarrow> bool" where
  "IsHalfOpen cb = (cb_state cb = CircuitHalfOpen)"

lemmas breaker_defs =
  acquire_def acquire_half_open_def releaseProbe_def RecordSuccess_def RecordFailure_def
  IsHalfOpen_def

section \<open>The invariant between the fields\<close>

text \<open>Outside the half-open state the slot is free; a closed breaker is below its failure
  threshold and a half-open one below its success threshold (when these are positive, as
  \<open>llmclient.New\<close> ensures for the first); the counters are never negative.\<close>

definition breaker_inv :: "circuit_breaker \<Rightarrow> bool" where
  "breaker_inv cb \<longleftrightarrow>
     0 \<le> cb_failures cb \<and> 0 \<le> cb_successes cb
     \<and> (cb_state cb \<noteq> CircuitHalfOpen \<longrightarrow> halfOpenAllowed cb)
     \<and> (cb_state cb = CircuitClosed \<longrightarrow> 0 < failureThreshold cb \<longrightarrow>
          cb_failures cb < failureThreshold cb)
     \<and> (cb_state cb = CircuitHalfOpen \<longrightarrow> 0 < successThreshold cb \<longrightarrow>
          cb_successes cb < successThreshold cb)"

lemma breaker_inv_new: "breaker_inv (newCircuitBreaker f s t)"
  by (simp add: breaker_inv_def newCircuitBreaker_def)

lemma breaker_inv_acquire: "breaker_inv cb \<Longrightarrow> breaker_inv (fst (acquire now cb))"
  by (auto simp: breaker_inv_def breaker_defs split: circuit_state.split)

lemma breaker_inv_releaseProbe: "breaker_inv cb \<Longrightarrow> breaker_inv (releaseProbe cb)"
  by (auto simp: breaker_inv_def breaker_defs)

lemma breaker_inv_RecordSuccess: "breaker_inv cb \<Longrightarrow> breaker_inv (RecordSuccess cb)"
  by (cases "cb_state cb") (auto simp: breaker_inv_def RecordSuccess_def Let_def)

lemma breaker_inv_RecordFailure: "breaker_inv cb \<Longrightarrow> breaker_inv (RecordFailure now cb)"
  by (cases "cb_state cb") (auto simp: breaker_inv_def RecordFailure_def Let_def)

lemmas breaker_inv_ops =
  breaker_inv_acquire breaker_inv_releaseProbe breaker_inv_RecordSuccess breaker_inv_RecordFailure

section \<open>What each method does to the probe slot\<close>

definition slot_taken :: "circuit_breaker \<Rightarrow> bool" where
  "slot_taken cb \<longleftrightarrow> cb_state cb = CircuitHalfOpen \<and> \<not> halfOpenAllowed cb"

lemma slot_RecordSuccess: "\<not> slot_taken (RecordSuccess cb)"
  by (auto simp: slot_taken_def RecordSuccess_def Let_def split: circuit_state.split)

lemma slot_RecordFailure: "\<not> slot_taken (RecordFailure now cb)"
  by (auto simp: slot_taken_def RecordFailure_def Let_def split: circuit_state.split)

lemma slot_releaseProbe: "\<not> slot_taken (releaseProbe cb)"
  by (simp add: slot_taken_def releaseProbe_def)

lemma slot_acquire:
  "acquire now cb = (cb', allowed, probe) \<Longrightarrow>
     slot_taken cb' \<longleftrightarrow> (allowed \<and> probe) \<or> slot_taken cb"
  by (auto simp: slot_taken_def breaker_defs split: circuit_state.splits if_splits)

lemma acquire_closed: "cb_state cb = CircuitClosed \<Longrightarrow> acquire now cb = (cb, True, False)"
  by (simp add: acquire_def)

lemma acquire_rejected:
  "acquire now cb = (cb', False, probe) \<Longrightarrow> cb' = cb \<and> \<not> probe"
  by (auto simp: breaker_defs split: circuit_state.splits if_splits)

lemma acquire_rejected_iff:
  "breaker_inv cb \<Longrightarrow>
     \<not> fst (snd (acquire now cb)) \<longleftrightarrow>
       (cb_state cb = CircuitOpen \<and> time_sub now (lastFailure cb) \<le> cb_timeout cb)
       \<or> slot_taken cb"
  by (auto simp: breaker_inv_def slot_taken_def breaker_defs split: circuit_state.splits)

text \<open>What a client of the breaker relies on, as an interface.\<close>

locale breaker_contract =
  fixes acq :: "go_time \<Rightarrow> 'b \<Rightarrow> 'b \<times> bool \<times> bool"
    and succ :: "'b \<Rightarrow> 'b"
    and fail :: "go_time \<Rightarrow> 'b \<Rightarrow> 'b"
    and rel :: "'b \<Rightarrow> 'b"
    and taken :: "'b \<Rightarrow> bool"
    and inv :: "'b \<Rightarrow> bool"
  assumes acq_inv: "inv b \<Longrightarrow> inv (fst (acq now b))"
    and succ_inv: "inv b \<Longrightarrow> inv (succ b)"
    and fail_inv: "inv b \<Longrightarrow> inv (fail now b)"
    and rel_inv: "inv b \<Longrightarrow> inv (rel b)"
    and acq_taken: "acq now b = (b', allowed, probe) \<Longrightarrow>
          taken b' \<longleftrightarrow> (allowed \<and> probe) \<or> taken b"
    and succ_frees: "\<not> taken (succ b)"
    and fail_frees: "\<not> taken (fail now b)"
    and rel_frees: "\<not> taken (rel b)"
begin

text \<open>The two ways a request ends without a verdict on the provider, and with one.\<close>

definition settled :: "'b \<Rightarrow> 'b \<Rightarrow> bool" where
  "settled b b' \<longleftrightarrow> b' = succ b \<or> (\<exists>now. b' = fail now b) \<or> b' = rel b"

lemma settled_frees: "settled b b' \<Longrightarrow> \<not> taken b'"
  by (auto simp: settled_def succ_frees fail_frees rel_frees)

lemma settled_inv: "inv b \<Longrightarrow> settled b b' \<Longrightarrow> inv b'"
  by (auto simp: settled_def succ_inv fail_inv rel_inv)

lemma acq_keeps_free:
  "\<not> taken b \<Longrightarrow> acq now b = (b', allowed, False) \<Longrightarrow> \<not> taken b'"
  by (auto simp: acq_taken)

end

interpretation cb: breaker_contract acquire RecordSuccess RecordFailure releaseProbe
    slot_taken breaker_inv
  by unfold_locales
     (auto simp: slot_acquire slot_RecordSuccess slot_RecordFailure slot_releaseProbe
           intro: breaker_inv_ops)

section \<open>Opening\<close>

text \<open>\<open>n\<close> failures in a row, at the times \<open>ts\<close>.\<close>

definition record_failures :: "go_time list \<Rightarrow> circuit_breaker \<Rightarrow> circuit_breaker" where
  "record_failures ts cb = fold RecordFailure ts cb"

lemma RecordFailure_simps [simp]:
  "cb_failures (RecordFailure now cb) = cb_failures cb + 1"
  "failureThreshold (RecordFailure now cb) = failureThreshold cb"
  "successThreshold (RecordFailure now cb) = successThreshold cb"
  "cb_timeout (RecordFailure now cb) = cb_timeout cb"
  "lastFailure (RecordFailure now cb) = now"
  by (auto simp: RecordFailure_def Let_def split: circuit_state.split)

lemma RecordFailure_closed:
  "cb_state cb = CircuitClosed \<Longrightarrow>
     cb_state (RecordFailure now cb) =
       (if failureThreshold cb \<le> cb_failures cb + 1 then CircuitOpen else CircuitClosed)"
  by (simp add: RecordFailure_def Let_def)

lemma RecordFailure_open:
  "cb_state cb = CircuitOpen \<Longrightarrow> cb_state (RecordFailure now cb) = CircuitOpen"
  by (simp add: RecordFailure_def Let_def)

lemma record_failures_open:
  "cb_state cb = CircuitOpen \<Longrightarrow> cb_state (record_failures ts cb) = CircuitOpen"
  unfolding record_failures_def
  by (induction ts arbitrary: cb) (simp_all add: RecordFailure_open)

lemma record_failures_state:
  "cb_state cb = CircuitClosed \<Longrightarrow> cb_failures cb < failureThreshold cb \<Longrightarrow>
     cb_state (record_failures ts cb) =
       (if failureThreshold cb \<le> cb_failures cb + int (length ts)
        then CircuitOpen else CircuitClosed)"
proof (induction ts arbitrary: cb)
  case Nil
  then show ?case by (simp add: record_failures_def)
next
  case (Cons t ts)
  show ?case
  proof (cases "failureThreshold cb \<le> cb_failures cb + 1")
    case True
    with Cons.prems have "cb_state (RecordFailure t cb) = CircuitOpen"
      by (simp add: RecordFailure_closed)
    then have "cb_state (record_failures ts (RecordFailure t cb)) = CircuitOpen"
      by (rule record_failures_open)
    with True show ?thesis by (simp add: record_failures_def)
  next
    case False
    with Cons.prems Cons.IH [of "RecordFailure t cb"] show ?thesis
      by (simp add: RecordFailure_closed record_failures_def add.assoc)
  qed
qed

lemma record_failures_last:
  "ts \<noteq> [] \<Longrightarrow> lastFailure (record_failures ts b) = last ts"
  by (induction ts rule: rev_induct) (simp_all add: record_failures_def)

lemma record_failures_timeout: "cb_timeout (record_failures ts b) = cb_timeout b"
  by (induction ts arbitrary: b) (simp_all add: record_failures_def)

text \<open>
  C1. A closed breaker opens exactly at its failure threshold: after a success (or at the start)
  the breaker stays closed and admits requests for fewer than \<open>failureThreshold\<close> failures in a
  row, and is open from the threshold on, rejecting every request until strictly more than the
  timeout has passed since the last of them.
\<close>

theorem breaker_opens_at_threshold:
  assumes "0 < failureThreshold cb" and "cb_state cb = CircuitClosed"
  shows "cb_state (record_failures ts (RecordSuccess cb)) =
           (if failureThreshold cb \<le> int (length ts) then CircuitOpen else CircuitClosed)
         \<and> fst (snd (acquire now (record_failures ts (RecordSuccess cb)))) =
           (int (length ts) < failureThreshold cb \<or> cb_timeout cb < time_sub now (last ts))"
proof -
  have s: "cb_state (RecordSuccess cb) = CircuitClosed" "cb_failures (RecordSuccess cb) = 0"
    "failureThreshold (RecordSuccess cb) = failureThreshold cb"
    "cb_timeout (RecordSuccess cb) = cb_timeout cb"
    using assms(2) by (simp_all add: RecordSuccess_def)
  then have st: "cb_state (record_failures ts (RecordSuccess cb)) =
           (if failureThreshold cb \<le> int (length ts) then CircuitOpen else CircuitClosed)"
    using assms(1) by (simp add: record_failures_state)
  moreover have "ts \<noteq> [] \<Longrightarrow> lastFailure (record_failures ts (RecordSuccess cb)) = last ts"
    by (rule record_failures_last)
  moreover have "ts \<noteq> []" if "failureThreshold cb \<le> int (length ts)"
    using that assms(1) by auto
  ultimately show ?thesis
    using s(4) by (auto simp: acquire_def acquire_half_open_def record_failures_timeout)
qed

theorem breaker_opens_at_threshold_witness:
  "cb_state (record_failures [10, 20] (RecordSuccess (newCircuitBreaker 2 1 30))) = CircuitOpen
   \<and> \<not> fst (snd (acquire 50 (record_failures [10, 20] (RecordSuccess (newCircuitBreaker 2 1 30)))))"
proof -
  have h: "0 < failureThreshold (newCircuitBreaker 2 1 30)"
      "cb_state (newCircuitBreaker 2 1 30) = CircuitClosed"
      "failureThreshold (newCircuitBreaker 2 1 30) = 2" "cb_timeout (newCircuitBreaker 2 1 30) = 30"
    by (simp_all add: newCircuitBreaker_def)
  show ?thesis
    using breaker_opens_at_threshold [OF h(1,2), of "[10, 20]" 50] h(3,4)
    by (simp add: time_sub_def max_duration_def min_duration_def)
qed

section \<open>Recovering\<close>

lemma RecordSuccess_half_open:
  assumes "cb_state cb = CircuitHalfOpen"
  shows "cb_state (RecordSuccess cb) =
           (if successThreshold cb \<le> cb_successes cb + 1 then CircuitClosed else CircuitHalfOpen)"
    and "cb_successes (RecordSuccess cb) = cb_successes cb + 1"
    and "successThreshold (RecordSuccess cb) = successThreshold cb"
    and "halfOpenAllowed (RecordSuccess cb)"
    and "cb_state (RecordSuccess cb) = CircuitClosed \<Longrightarrow> cb_failures (RecordSuccess cb) = 0"
  using assms by (simp_all add: RecordSuccess_def Let_def split: if_splits)

text \<open>\<open>n\<close> probes in a row, each admitted by \<open>acquire\<close> and each successful.\<close>

fun probe_run :: "go_time list \<Rightarrow> circuit_breaker \<Rightarrow> circuit_breaker option" where
  "probe_run [] cb = Some cb"
| "probe_run (t # ts) cb =
     (case acquire t cb of
        (cb', True, True) \<Rightarrow> probe_run ts (RecordSuccess cb')
      | _ \<Rightarrow> None)"

lemma probe_run_half_open:
  "cb_state cb = CircuitHalfOpen \<Longrightarrow> halfOpenAllowed cb \<Longrightarrow>
     cb_successes cb + int (length ts) = successThreshold cb \<Longrightarrow> ts \<noteq> [] \<Longrightarrow>
     \<exists>cb'. probe_run ts cb = Some cb' \<and> cb_state cb' = CircuitClosed \<and> cb_failures cb' = 0"
proof (induction ts arbitrary: cb)
  case Nil
  then show ?case by simp
next
  case (Cons t ts)
  let ?b = "cb\<lparr>halfOpenAllowed := False\<rparr>"
  have acq: "acquire t cb = (?b, True, True)"
    using Cons.prems by (simp add: acquire_def acquire_half_open_def)
  have h: "cb_state ?b = CircuitHalfOpen" using Cons.prems by simp
  note rs = RecordSuccess_half_open [OF h]
  show ?case
  proof (cases "ts = []")
    case True
    with Cons.prems acq rs show ?thesis by simp
  next
    case False
    then have "0 < length ts" by simp
    with Cons.prems rs have "cb_state (RecordSuccess ?b) = CircuitHalfOpen" by simp
    with Cons.IH [of "RecordSuccess ?b"] Cons.prems rs acq False show ?thesis by simp
  qed
qed

text \<open>
  An open breaker recovers: once the timeout has passed, \<open>successThreshold\<close> probes in a row,
  each admitted and each successful, close it again with a cleared failure count. (With a
  threshold below one, the first success closes it.)
\<close>

lemma breaker_recovers:
  assumes "cb_state cb = CircuitOpen" and "cb_timeout cb < time_sub t (lastFailure cb)"
    and "int (length ts) + 1 = max 1 (successThreshold cb)"
  shows "\<exists>cb'. probe_run (t # ts) cb = Some cb' \<and> cb_state cb' = CircuitClosed
               \<and> cb_failures cb' = 0 \<and> fst (snd (acquire now cb'))"
proof -
  let ?b = "cb\<lparr>cb_state := CircuitHalfOpen, cb_successes := 0, halfOpenAllowed := False\<rparr>"
  have acq: "acquire t cb = (?b, True, True)"
    using assms(1,2) by (simp add: acquire_def acquire_half_open_def)
  have h: "cb_state ?b = CircuitHalfOpen" by simp
  note rs = RecordSuccess_half_open [OF h]
  have "\<exists>cb'. probe_run (t # ts) cb = Some cb' \<and> cb_state cb' = CircuitClosed \<and> cb_failures cb' = 0"
  proof (cases "ts = []")
    case True
    with assms(3) acq rs show ?thesis by simp
  next
    case False
    then have "0 < length ts" by simp
    with assms(3) have "1 + int (length ts) = successThreshold cb" by linarith
    with False rs acq probe_run_half_open [of "RecordSuccess ?b" ts] show ?thesis
      using \<open>0 < length ts\<close> by simp
  qed
  then show ?thesis using acquire_closed by fastforce
qed

theorem breaker_recovers_witness:
  "\<exists>cb'. probe_run [100, 101] (record_failures [10, 20] (newCircuitBreaker 2 2 30)) = Some cb'
     \<and> cb_state cb' = CircuitClosed \<and> cb_failures cb' = 0 \<and> fst (snd (acquire 102 cb'))"
proof -
  let ?cb = "record_failures [10, 20] (newCircuitBreaker 2 2 30)"
  have "cb_state ?cb = CircuitOpen" "cb_timeout ?cb < time_sub 100 (lastFailure ?cb)"
    "int (length [101 :: go_time]) + 1 = max 1 (successThreshold ?cb)"
    by (simp_all add: record_failures_def newCircuitBreaker_def RecordFailure_def time_sub_def
        max_duration_def min_duration_def)
  from breaker_recovers [OF this, of 102] show ?thesis .
qed

end
