(* ===== verification/LLMClient.thy ===== *)
theory LLMClient
  imports GatewayErrors CircuitBreaker
begin

text \<open>
  The base client of the providers (\<open>internal/llmclient/client.go\<close>): building a request,
  retrying it, charging the circuit breaker and observing the outcome.

  The network is a parameter: \<open>transport n r\<close> is what the \<open>n\<close>-th call of \<open>http.Client.Do\<close>
  with the request \<open>r\<close> gives, \<open>wait n\<close> is the context error that ended the back-off before
  attempt \<open>n\<close>, if one did. \<open>json.Marshal\<close>, \<open>http.NewRequestWithContext\<close>, the decoded error
  body and the random jitter are parameters too. Response headers are attached to errors for
  the audit log only and are not modelled.

  A call runs in three parts, as in the code: \<open>beginRequest\<close> consults the breaker, the attempt
  loop (which never touches the breaker) produces a result and says how the scope ends
  (\<open>scope_end\<close>), and \<open>finish_scope\<close> charges the breaker and emits the one observation.
\<close>

section \<open>Configuration and requests\<close>

record retry_config =
  MaxRetries :: int
  InitialBackoff :: go_duration
  MaxBackoff :: go_duration
  BackoffFactor :: rat
  JitterFactor :: rat

definition DefaultRetryConfig :: retry_config where
  "DefaultRetryConfig =
     \<lparr>MaxRetries = 3, InitialBackoff = second, MaxBackoff = 30 * second,
      BackoffFactor = 2, JitterFactor = 1 / 10\<rparr>"

record llm_request =
  rq_method :: string
  rq_endpoint :: string
  rq_body :: "string option"
  rq_raw_body :: "string option"
  rq_raw_reader :: bool
  rq_headers :: "(string \<times> string list) list"

record llm_response =
  rs_status :: int
  rs_content_type :: string
  rs_body :: string

record http_response =
  hr_status :: int
  hr_content_type :: string
  hr_stream :: "string \<times> go_error option"

datatype http_body = NoBody | BytesBody string | StreamBody

record http_request =
  ht_method :: string
  ht_url :: string
  ht_body :: http_body
  ht_header :: "string \<Rightarrow> string list option"

section \<open>Headers\<close>

text \<open>\<open>textproto.CanonicalMIMEHeaderKey\<close>: a key with a byte outside the token set is returned as
  it is, otherwise the first letter and each letter after a hyphen become upper case and the
  others lower case.\<close>

definition is_lower_ascii :: "char \<Rightarrow> bool" where
  "is_lower_ascii c = (97 \<le> (of_char c :: nat) \<and> (of_char c :: nat) \<le> 122)"

definition is_upper_ascii :: "char \<Rightarrow> bool" where
  "is_upper_ascii c = (65 \<le> (of_char c :: nat) \<and> (of_char c :: nat) \<le> 90)"

definition upper_byte :: "char \<Rightarrow> char" where
  "upper_byte c = (if is_lower_ascii c then char_of ((of_char c :: nat) - 32) else c)"

definition token_byte :: "char \<Rightarrow> bool" where
  "token_byte c =
     (is_lower_ascii c \<or> is_upper_ascii c
      \<or> (48 \<le> (of_char c :: nat) \<and> (of_char c :: nat) \<le> 57)
      \<or> (of_char c :: nat) \<in> {33, 35, 36, 37, 38, 39, 42, 43, 45, 46, 94, 95, 96, 124, 126})"

fun canonical_from :: "bool \<Rightarrow> string \<Rightarrow> string" where
  "canonical_from upper [] = []"
| "canonical_from upper (c # s) =
     (if upper then upper_byte c else lower_byte c) # canonical_from (c = CHR ''-'') s"

definition CanonicalHeaderKey :: "string \<Rightarrow> string" where
  "CanonicalHeaderKey s = (if list_all token_byte s then canonical_from True s else s)"

definition header_set :: "string \<Rightarrow> string \<Rightarrow> (string \<Rightarrow> string list option) \<Rightarrow> string \<Rightarrow> string list option" where
  "header_set k v h = h(CanonicalHeaderKey k \<mapsto> [v])"

definition header_del :: "string \<Rightarrow> (string \<Rightarrow> string list option) \<Rightarrow> string \<Rightarrow> string list option" where
  "header_del k h = h(CanonicalHeaderKey k := None)"

definition header_add :: "string \<Rightarrow> string \<Rightarrow> (string \<Rightarrow> string list option) \<Rightarrow> string \<Rightarrow> string list option" where
  "header_add k v h =
     h(CanonicalHeaderKey k \<mapsto>
         (case h (CanonicalHeaderKey k) of None \<Rightarrow> [] | Some vs \<Rightarrow> vs) @ [v])"

definition override_header ::
  "string \<times> string list \<Rightarrow> (string \<Rightarrow> string list option) \<Rightarrow> string \<Rightarrow> string list option" where
  "override_header kv h = fold (header_add (fst kv)) (snd kv) (header_del (fst kv) h)"

text \<open>\<open>strings.ToUpper\<close>; U+0131 and U+017F are the non-ASCII runes whose upper case is ASCII.\<close>

fun go_to_upper :: "string \<Rightarrow> string" where
  "go_to_upper [] = []"
| "go_to_upper (a # s) =
     (if a = CHR 0xC4 \<and> has_prefix s [CHR 0xB1] then CHR ''I'' # go_to_upper (drop 1 s)
      else if a = CHR 0xC5 \<and> has_prefix s [CHR 0xBF] then CHR ''S'' # go_to_upper (drop 1 s)
      else upper_byte a # go_to_upper s)"

definition hasIdempotencyKey :: "(string \<times> string list) list \<Rightarrow> bool" where
  "hasIdempotencyKey headers =
     (\<exists>(key, values)\<in>set headers.
        CanonicalHeaderKey (go_trim key) = ''Idempotency-Key'' \<and>
        (\<exists>value\<in>set values. go_trim value \<noteq> []))"

definition canRetryPassthrough :: "llm_request \<Rightarrow> bool" where
  "canRetryPassthrough req =
     (if rq_raw_reader req then False
      else if hasIdempotencyKey (rq_headers req) then True
      else go_to_upper (go_trim (rq_method req)) \<in> {''GET'', ''HEAD'', ''OPTIONS'', ''PUT''})"

section \<open>The client\<close>

record observation =
  ob_status :: int
  ob_error :: "go_error option"
  ob_circuit :: string

record llm_client =
  cl_provider :: string
  cl_base_url :: string
  cl_retry :: retry_config
  cl_breaker :: "circuit_breaker option"
  cl_hook :: bool
  cl_observed :: "observation list"

definition New :: "string \<Rightarrow> string \<Rightarrow> retry_config \<Rightarrow> int \<Rightarrow> int \<Rightarrow> go_duration \<Rightarrow> bool \<Rightarrow> llm_client" where
  "New provider url retry failThreshold succThreshold timeout hook =
     \<lparr>cl_provider = provider, cl_base_url = url, cl_retry = retry,
      cl_breaker = (if 0 < failThreshold
                    then Some (newCircuitBreaker failThreshold succThreshold timeout) else None),
      cl_hook = hook, cl_observed = []\<rparr>"

definition finishRequest :: "int \<Rightarrow> go_error option \<Rightarrow> llm_client \<Rightarrow> llm_client" where
  "finishRequest statusCode err c =
     (if \<not> cl_hook c then c
      else c\<lparr>cl_observed := cl_observed c @
               [\<lparr>ob_status = statusCode, ob_error = err,
                 ob_circuit = (case cl_breaker c of None \<Rightarrow> [] | Some b \<Rightarrow> State b)\<rparr>]\<rparr>)"

definition circuit_open_error :: "llm_client \<Rightarrow> go_error" where
  "circuit_open_error c =
     NewProviderError (cl_provider c) 503
       ''circuit breaker is open - provider temporarily unavailable'' None"

text \<open>\<open>Inl\<close> is the rejection, \<open>Inr probe\<close> the admitted scope with its \<open>halfOpenProbe\<close> flag.\<close>

definition beginRequest :: "go_time \<Rightarrow> llm_client \<Rightarrow> llm_client \<times> (go_error + bool)" where
  "beginRequest now c =
     (case cl_breaker c of
        None \<Rightarrow> (c, Inr False)
      | Some b \<Rightarrow>
          (case acquire now b of
             (b', allowed, probe) \<Rightarrow>
               let c' = c\<lparr>cl_breaker := Some b'\<rparr>
               in if \<not> allowed
                  then (finishRequest 503 (Some (circuit_open_error c)) c', Inl (circuit_open_error c))
                  else (c', Inr probe)))"

definition releaseHalfOpenProbe :: "bool \<Rightarrow> circuit_breaker \<Rightarrow> circuit_breaker" where
  "releaseHalfOpenProbe probe b = (if probe then releaseProbe b else b)"

definition isRetryable :: "int \<Rightarrow> bool" where
  "isRetryable statusCode =
     (statusCode = 429 \<or> statusCode = 503 \<or> statusCode = 502 \<or> statusCode = 504)"

definition shouldTripCircuitBreaker :: "int \<Rightarrow> bool" where
  "shouldTripCircuitBreaker statusCode =
     (if statusCode = 429 then False else isRetryable statusCode \<or> 500 \<le> statusCode)"

text \<open>\<open>recordCircuitBreakerCompletion\<close> on the breaker. The 429 branch tests \<open>IsHalfOpen\<close> and
  records in two locked sections; \<open>Network\<close> splits them, here they run back to back.\<close>

definition recordCircuitBreakerCompletion ::
  "go_time \<Rightarrow> bool \<Rightarrow> int \<Rightarrow> go_error option \<Rightarrow> circuit_breaker \<Rightarrow> circuit_breaker" where
  "recordCircuitBreakerCompletion now probe statusCode err b =
     (case err of
        Some e \<Rightarrow>
          if is_canceled e then releaseHalfOpenProbe probe b else RecordFailure now b
      | None \<Rightarrow>
          if statusCode = 429 then (if IsHalfOpen b then RecordFailure now b else b)
          else if shouldTripCircuitBreaker statusCode then RecordFailure now b
          else RecordSuccess b)"

text \<open>How a scope ends: \<open>completeScope\<close> (status, reported error, breaker error),
  \<open>finishRequestWithoutBreaker\<close> or a bare \<open>finishRequest\<close>.\<close>

datatype scope_end =
    CompleteScope int "go_error option" "go_error option"
  | FinishWithoutBreaker int "go_error option"
  | FinishOnly int "go_error option"

fun breaker_after :: "go_time \<Rightarrow> bool \<Rightarrow> scope_end \<Rightarrow> circuit_breaker \<Rightarrow> circuit_breaker" where
  "breaker_after now probe (CompleteScope st err cbErr) b =
     recordCircuitBreakerCompletion now probe st cbErr b"
| "breaker_after now probe (FinishWithoutBreaker st err) b = releaseHalfOpenProbe probe b"
| "breaker_after now probe (FinishOnly st err) b = b"

fun reported :: "scope_end \<Rightarrow> int \<times> go_error option" where
  "reported (CompleteScope st err cbErr) = (st, err)"
| "reported (FinishWithoutBreaker st err) = (st, err)"
| "reported (FinishOnly st err) = (st, err)"

definition finish_scope :: "go_time \<Rightarrow> bool \<Rightarrow> scope_end \<Rightarrow> llm_client \<Rightarrow> llm_client" where
  "finish_scope now probe se c =
     (let c' = c\<lparr>cl_breaker := map_option (breaker_after now probe se) (cl_breaker c)\<rparr>
      in finishRequest (fst (reported se)) (snd (reported se)) c')"

section \<open>Building and sending one request\<close>

definition valid_methods :: "string list" where
  "valid_methods = [''GET'', ''POST'', ''PUT'', ''PATCH'', ''DELETE'', ''HEAD'', ''OPTIONS'']"

definition body_sources :: "llm_request \<Rightarrow> nat" where
  "body_sources req =
     (if rq_body req \<noteq> None then 1 else 0) + (if rq_raw_body req \<noteq> None then 1 else 0) +
     (if rq_raw_reader req then 1 else 0)"

record http_lib =
  marshal :: "string \<Rightarrow> string option"
  new_request_ok :: "string \<Rightarrow> string \<Rightarrow> bool"
  header_setter :: "(string \<Rightarrow> string list option) \<Rightarrow> string \<Rightarrow> string list option"
  error_details :: "string \<Rightarrow> provider_error_details"

definition request_body :: "http_lib \<Rightarrow> llm_request \<Rightarrow> go_error + http_body" where
  "request_body lib req =
     (if rq_raw_reader req then Inr StreamBody
      else case rq_raw_body req of
          Some raw \<Rightarrow> Inr (BytesBody raw)
        | None \<Rightarrow>
            (case rq_body req of
               None \<Rightarrow> Inr NoBody
             | Some v \<Rightarrow>
                 (case marshal lib v of
                    None \<Rightarrow> Inl (NewInvalidRequestError ''failed to marshal request'' None)
                  | Some b \<Rightarrow> Inr (BytesBody b))))"

definition request_headers :: "http_lib \<Rightarrow> llm_request \<Rightarrow> string \<Rightarrow> string list option" where
  "request_headers lib req =
     (let h = (\<lambda>_. None);
          h = (if rq_body req \<noteq> None then header_set ''Content-Type'' ''application/json'' h else h);
          h = header_setter lib h
      in fold override_header (rq_headers req) h)"

definition buildRequest :: "http_lib \<Rightarrow> llm_client \<Rightarrow> llm_request \<Rightarrow> go_error + http_request" where
  "buildRequest lib c req =
     (if rq_method req = [] then Inl (NewInvalidRequestError ''HTTP method is required'' None)
      else if rq_endpoint req = [] then Inl (NewInvalidRequestError ''endpoint is required'' None)
      else if rq_method req \<notin> set valid_methods then
        Inl (NewInvalidRequestError (''invalid HTTP method: '' @ rq_method req) None)
      else if 1 < body_sources req then
        Inl (NewInvalidRequestError ''Body, RawBody, and RawBodyReader are mutually exclusive'' None)
      else case request_body lib req of
          Inl e \<Rightarrow> Inl e
        | Inr body \<Rightarrow>
            let url = cl_base_url c @ rq_endpoint req
            in if \<not> new_request_ok lib (rq_method req) url
               then Inl (NewInvalidRequestError ''failed to create request'' None)
               else Inr \<lparr>ht_method = rq_method req, ht_url = url, ht_body = body,
                         ht_header = request_headers lib req\<rparr>)"

type_synonym transport = "nat \<Rightarrow> http_request \<Rightarrow> go_error + http_response"

definition doHTTPRequest ::
  "http_lib \<Rightarrow> transport \<Rightarrow> llm_client \<Rightarrow> llm_request \<Rightarrow> nat \<Rightarrow> go_error + http_response" where
  "doHTTPRequest lib transport c req n =
     (case buildRequest lib c req of
        Inl e \<Rightarrow> Inl e
      | Inr r \<Rightarrow>
          (case transport n r of
             Inl e \<Rightarrow> Inl (NewProviderError (cl_provider c) (providerErrorStatusCode e)
                            (''failed to send request: '' @ error_string e) (Some e))
           | Inr resp \<Rightarrow> Inr resp))"

definition maxErrorBodyBytes :: nat where
  "maxErrorBodyBytes = 64 * 1024"

text \<open>\<open>io.ReadAll\<close> of a body that yields the bytes \<open>fst s\<close> and then fails with \<open>snd s\<close> or ends,
  and the same behind \<open>io.LimitReader\<close>.\<close>

definition read_all :: "string \<times> go_error option \<Rightarrow> go_error + string" where
  "read_all s = (case snd s of Some e \<Rightarrow> Inl e | None \<Rightarrow> Inr (fst s))"

definition read_limited :: "nat \<Rightarrow> string \<times> go_error option \<Rightarrow> go_error + string" where
  "read_limited n s = (if n \<le> length (fst s) then Inr (take n (fst s)) else read_all s)"

definition doRequest ::
  "http_lib \<Rightarrow> transport \<Rightarrow> llm_client \<Rightarrow> llm_request \<Rightarrow> nat \<Rightarrow> go_error + llm_response" where
  "doRequest lib transport c req n =
     (case doHTTPRequest lib transport c req n of
        Inl e \<Rightarrow> Inl e
      | Inr resp \<Rightarrow>
          (case (if 400 \<le> hr_status resp then read_limited maxErrorBodyBytes (hr_stream resp)
                 else read_all (hr_stream resp)) of
             Inl e \<Rightarrow> Inl (NewProviderError (cl_provider c) (providerErrorStatusCode e)
                            (''failed to read response: '' @ error_string e) (Some e))
           | Inr body \<Rightarrow> Inr \<lparr>rs_status = hr_status resp,
                             rs_content_type = hr_content_type resp, rs_body = body\<rparr>))"

section \<open>Retrying\<close>

definition maxAttempts :: "llm_client \<Rightarrow> nat" where
  "maxAttempts c = (let m = MaxRetries (cl_retry c) + 1 in if m < 1 then 1 else nat m)"

definition calculateBackoff :: "retry_config \<Rightarrow> rat \<Rightarrow> nat \<Rightarrow> go_duration" where
  "calculateBackoff retry draw attempt =
     (let b = of_int (InitialBackoff retry) * BackoffFactor retry ^ (attempt - 1);
          b = (if of_int (MaxBackoff retry) < b then of_int (MaxBackoff retry) else b);
          b = (if 0 < JitterFactor retry
               then (let jitter = b * JitterFactor retry in b - jitter + draw * 2 * jitter)
               else b)
      in truncate_rat b)"

definition waitForRetry :: "(nat \<Rightarrow> go_error option) \<Rightarrow> nat \<Rightarrow> go_error option" where
  "waitForRetry wait attempt = (if attempt = 0 then None else wait attempt)"

definition retries_exhausted_error :: "llm_client \<Rightarrow> go_error" where
  "retries_exhausted_error c =
     NewProviderError (cl_provider c) 502 ''request failed after retries'' None"

text \<open>The loop of \<open>DoRaw\<close>: \<open>left\<close> attempts remain, \<open>n\<close> have been made, \<open>prev\<close> holds
  \<open>lastErr\<close>, \<open>lastStatusCode\<close> and \<open>lastErrFromTransport\<close>. The last component of the result
  counts the calls of \<open>doRequest\<close>.\<close>

fun doRaw_loop ::
  "http_lib \<Rightarrow> transport \<Rightarrow> (nat \<Rightarrow> go_error option) \<Rightarrow> llm_client \<Rightarrow> llm_request \<Rightarrow> bool \<Rightarrow>
   nat \<Rightarrow> nat \<Rightarrow> (go_error \<times> int \<times> bool) option \<Rightarrow>
   (go_error + llm_response) \<times> scope_end \<times> nat" where
  "doRaw_loop lib transport wait c req probe 0 n prev =
     (case prev of
        Some (e, st, fromTransport) \<Rightarrow>
          (Inl e, CompleteScope st (Some e) (if fromTransport then Some e else None), n)
      | None \<Rightarrow>
          (Inl (retries_exhausted_error c),
           CompleteScope 502 (Some (retries_exhausted_error c)) (Some (retries_exhausted_error c)), n))"
| "doRaw_loop lib transport wait c req probe (Suc left) n prev =
     (case waitForRetry wait n of
        Some e \<Rightarrow> (Inl e, FinishOnly 0 (Some e), n)
      | None \<Rightarrow>
          (case doRequest lib transport c req n of
             Inl err \<Rightarrow>
               let st = extractStatusCode err
               in if isLocalRequestBuildError err
                  then (Inl err, FinishWithoutBreaker st (Some err), Suc n)
                  else if probe \<or> isClientTimeoutGatewayError err
                  then (Inl err, CompleteScope st (Some err) (Some err), Suc n)
                  else doRaw_loop lib transport wait c req probe left (Suc n) (Some (err, st, True))
           | Inr resp \<Rightarrow>
               let st = rs_status resp;
                   e = ParseProviderError (error_details lib) (cl_provider c) st (rs_body resp) None
               in if isRetryable st
                  then (if probe then (Inl e, CompleteScope st (Some e) None, Suc n)
                        else doRaw_loop lib transport wait c req probe left (Suc n) (Some (e, st, False)))
                  else if st \<noteq> 200 then (Inl e, CompleteScope st (Some e) None, Suc n)
                  else (Inr resp, CompleteScope st None None, Suc n)))"

definition doRaw_attempts ::
  "http_lib \<Rightarrow> transport \<Rightarrow> (nat \<Rightarrow> go_error option) \<Rightarrow> llm_client \<Rightarrow> llm_request \<Rightarrow> bool \<Rightarrow>
   (go_error + llm_response) \<times> scope_end \<times> nat" where
  "doRaw_attempts lib transport wait c req probe =
     doRaw_loop lib transport wait c req probe
       (if rq_raw_reader req then 1 else maxAttempts c) 0 None"

text \<open>\<open>DoRaw\<close> for one caller: \<open>now\<close> and \<open>later\<close> are the clock at \<open>acquire\<close> and at completion.\<close>

definition DoRaw ::
  "http_lib \<Rightarrow> transport \<Rightarrow> (nat \<Rightarrow> go_error option) \<Rightarrow> go_time \<Rightarrow> go_time \<Rightarrow> llm_request \<Rightarrow>
   llm_client \<Rightarrow> llm_client \<times> (go_error + llm_response)" where
  "DoRaw lib transport wait now later req c =
     (case beginRequest now c of
        (c', Inl e) \<Rightarrow> (c', Inl e)
      | (c', Inr probe) \<Rightarrow>
          (case doRaw_attempts lib transport wait c' req probe of
             (result, se, n) \<Rightarrow> (finish_scope later probe se c', result)))"

text \<open>The body of \<open>DoStream\<close> after \<open>beginRequest\<close>: one attempt, no retry.\<close>

definition doStream_attempt ::
  "http_lib \<Rightarrow> transport \<Rightarrow> llm_client \<Rightarrow> llm_request \<Rightarrow> (go_error + http_response) \<times> scope_end" where
  "doStream_attempt lib transport c req =
     (case doHTTPRequest lib transport c req 0 of
        Inl err \<Rightarrow>
          let st = extractStatusCode err
          in if isLocalRequestBuildError err then (Inl err, FinishWithoutBreaker st (Some err))
             else (Inl err, CompleteScope st (Some err) (Some err))
      | Inr resp \<Rightarrow>
          if hr_status resp \<noteq> 200 then
            let body = (case read_limited maxErrorBodyBytes (hr_stream resp) of
                          Inl e \<Rightarrow> ''failed to read error response'' | Inr b \<Rightarrow> b);
                e = ParseProviderError (error_details lib) (cl_provider c) (hr_status resp) body None
            in (Inl e, CompleteScope (hr_status resp) (Some e) None)
          else (Inr resp, CompleteScope (hr_status resp) None None))"

fun doPassthrough_loop ::
  "http_lib \<Rightarrow> transport \<Rightarrow> (nat \<Rightarrow> go_error option) \<Rightarrow> llm_client \<Rightarrow> llm_request \<Rightarrow> bool \<Rightarrow>
   nat \<Rightarrow> nat \<Rightarrow> (go_error + http_response) \<times> scope_end \<times> nat" where
  "doPassthrough_loop lib transport wait c req probe 0 n =
     (Inl (retries_exhausted_error c),
      CompleteScope 502 (Some (retries_exhausted_error c)) (Some (retries_exhausted_error c)), n)"
| "doPassthrough_loop lib transport wait c req probe (Suc left) n =
     (case waitForRetry wait n of
        Some e \<Rightarrow> (Inl e, FinishOnly 0 (Some e), n)
      | None \<Rightarrow>
          (case doHTTPRequest lib transport c req n of
             Inl err \<Rightarrow>
               let st = extractStatusCode err
               in if isLocalRequestBuildError err
                  then (Inl err, FinishWithoutBreaker st (Some err), Suc n)
                  else if probe \<or> isClientTimeoutGatewayError err \<or> left = 0
                  then (Inl err, CompleteScope st (Some err) (Some err), Suc n)
                  else doPassthrough_loop lib transport wait c req probe left (Suc n)
           | Inr resp \<Rightarrow>
               if isRetryable (hr_status resp) \<and> \<not> (probe \<or> left = 0)
               then doPassthrough_loop lib transport wait c req probe left (Suc n)
               else (Inr resp, CompleteScope (hr_status resp) None None, Suc n)))"

definition doPassthrough_attempts ::
  "http_lib \<Rightarrow> transport \<Rightarrow> (nat \<Rightarrow> go_error option) \<Rightarrow> llm_client \<Rightarrow> llm_request \<Rightarrow> bool \<Rightarrow>
   (go_error + http_response) \<times> scope_end \<times> nat" where
  "doPassthrough_attempts lib transport wait c req probe =
     doPassthrough_loop lib transport wait c req probe
       (if canRetryPassthrough req then maxAttempts c else 1) 0"

text \<open>A concrete library and request, for the witnesses.\<close>

definition demo_lib :: http_lib where
  "demo_lib = \<lparr>marshal = Some, new_request_ok = (\<lambda>_ _. True), header_setter = (\<lambda>h. h),
              error_details = (\<lambda>_. \<lparr>ped_message = [], ped_param = [], ped_code = []\<rparr>)\<rparr>"

definition demo_request :: llm_request where
  "demo_request = \<lparr>rq_method = ''POST'', rq_endpoint = ''/chat'', rq_body = None,
     rq_raw_body = None, rq_raw_reader = False, rq_headers = []\<rparr>"

lemma demo_buildRequest: "\<exists>r. buildRequest demo_lib c demo_request = Inr r"
  by (simp add: buildRequest_def demo_request_def demo_lib_def valid_methods_def body_sources_def
      request_body_def Let_def)

section \<open>What the attempt loop does\<close>

text \<open>An attempt after which \<open>DoRaw\<close> tries again.\<close>

definition retried ::
  "http_lib \<Rightarrow> transport \<Rightarrow> llm_client \<Rightarrow> llm_request \<Rightarrow> bool \<Rightarrow> nat \<Rightarrow> bool" where
  "retried lib transport c req probe n \<longleftrightarrow>
     \<not> probe \<and>
     (case doRequest lib transport c req n of
        Inl e \<Rightarrow> \<not> isLocalRequestBuildError e \<and> \<not> isClientTimeoutGatewayError e
      | Inr resp \<Rightarrow> isRetryable (rs_status resp))"

lemma doRaw_loop_sends:
  "snd (snd (doRaw_loop lib transport wait c req probe left n prev)) \<le> n + left"
proof (induction left arbitrary: n prev)
  case 0
  then show ?case by (simp split: option.split)
next
  case (Suc left)
  have "snd (snd (doRaw_loop lib transport wait c req probe left (Suc n) l)) \<le> n + Suc left" for l
    using Suc.IH [of "Suc n" l] by simp
  then show ?case by (cases probe) (simp_all add: Let_def split: option.split sum.split)
qed

lemma doRaw_loop_spends:
  assumes "\<forall>j. retried lib transport c req probe j" "\<forall>j. waitForRetry wait j = None"
  shows "snd (snd (doRaw_loop lib transport wait c req probe left n prev)) = n + left"
  using assms
proof (induction left arbitrary: n prev)
  case 0
  then show ?case by (simp split: option.split)
next
  case (Suc left)
  then have "retried lib transport c req probe n" "waitForRetry wait n = None" by blast+
  then show ?case
    using Suc.IH [OF Suc.prems]
    by (cases "doRequest lib transport c req n") (auto simp: Let_def retried_def isRetryable_def)
qed

lemma doRaw_loop_reports:
  assumes "doRaw_loop lib transport wait c req probe left n prev = (result, se, k)"
  shows "snd (reported se) = (case result of Inl e \<Rightarrow> Some e | Inr r \<Rightarrow> None)"
  using assms
proof (induction left arbitrary: n prev)
  case 0
  then show ?case by (auto split: option.splits)
next
  case (Suc left)
  then show ?case
    by (auto simp: Let_def split: option.splits sum.splits if_splits)
qed

lemma doRaw_loop_probe:
  assumes "doRaw_loop lib transport wait c req True (Suc left) 0 prev = (result, se, k)"
  shows "k = 1 \<and> (\<forall>st e. se \<noteq> FinishOnly st e)"
  using assms
  by (auto simp: Let_def waitForRetry_def split: option.splits sum.splits if_splits)

lemma doRaw_loop_success:
  "fst (doRaw_loop lib transport wait c req probe left n prev) = Inr resp \<longleftrightarrow>
     (\<exists>k<left. (\<forall>j<k. retried lib transport c req probe (n + j)) \<and>
               (\<forall>j\<le>k. waitForRetry wait (n + j) = None) \<and>
               doRequest lib transport c req (n + k) = Inr resp \<and> rs_status resp = 200)"
proof (induction left arbitrary: n prev)
  case 0
  then show ?case by (simp split: option.split)
next
  case (Suc left)
  let ?R = "retried lib transport c req probe" and ?W = "waitForRetry wait"
    and ?D = "doRequest lib transport c req"
  have ex: "(\<exists>k<Suc left. (\<forall>j<k. ?R (n + j)) \<and> (\<forall>j\<le>k. ?W (n + j) = None) \<and>
               ?D (n + k) = Inr resp \<and> rs_status resp = 200) \<longleftrightarrow>
      ?W n = None \<and>
      ((?D n = Inr resp \<and> rs_status resp = 200) \<or>
       (?R n \<and> (\<exists>k<left. (\<forall>j<k. ?R (Suc n + j)) \<and> (\<forall>j\<le>k. ?W (Suc n + j) = None) \<and>
               ?D (Suc n + k) = Inr resp \<and> rs_status resp = 200)))"
    (is "?L = ?Rhs")
    by (simp add: ex_less_Suc_split all_less_Suc_split all_le_Suc_split) blast
  show ?case
  proof (cases "?W n")
    case (Some e)
    then show ?thesis unfolding ex by simp
  next
    case None
    show ?thesis
    proof (cases "?D n")
      case (Inl err)
      have "fst (doRaw_loop lib transport wait c req probe (Suc left) n prev) = Inr resp \<longleftrightarrow>
            ?R n \<and> fst (doRaw_loop lib transport wait c req probe left (Suc n)
                         (Some (err, extractStatusCode err, True))) = Inr resp"
        using None Inl by (simp add: Let_def retried_def)
      with None Inl show ?thesis unfolding ex Suc.IH by simp
    next
      case (Inr r)
      let ?e = "ParseProviderError (error_details lib) (cl_provider c) (rs_status r) (rs_body r) None"
      have "fst (doRaw_loop lib transport wait c req probe (Suc left) n prev) = Inr resp \<longleftrightarrow>
            (r = resp \<and> rs_status resp = 200) \<or>
            (?R n \<and> fst (doRaw_loop lib transport wait c req probe left (Suc n)
                         (Some (?e, rs_status r, False))) = Inr resp)"
        using None Inr by (auto simp: Let_def retried_def isRetryable_def)
      with None Inr show ?thesis unfolding ex Suc.IH by auto
    qed
  qed
qed

lemma maxAttempts_pos: "0 < maxAttempts c"
  by (simp add: maxAttempts_def Let_def)

lemma maxAttempts_budget: "int (maxAttempts c) = max 1 (MaxRetries (cl_retry c) + 1)"
  by (simp add: maxAttempts_def Let_def max_def)

lemma doRaw_limit_pos: "0 < (if rq_raw_reader req then 1 else maxAttempts c)"
  by (simp add: maxAttempts_pos)

lemma doRaw_attempts_probe:
  assumes "doRaw_attempts lib transport wait c req True = (result, se, k)"
  shows "k = 1 \<and> (\<forall>st e. se \<noteq> FinishOnly st e)"
proof -
  obtain l where l: "(if rq_raw_reader req then 1 else maxAttempts c) = Suc l"
    using doRaw_limit_pos gr0_conv_Suc by blast
  show ?thesis
    using assms unfolding doRaw_attempts_def l by (rule doRaw_loop_probe)
qed

text \<open>
  C3. The retry budget of \<open>DoRaw\<close>. A call makes at most \<open>MaxRetries + 1\<close> attempts (one when that is
  not positive), and all of them when every attempt is one to retry and no back-off is cut short;
  at most one when its body is a stream that cannot be replayed, and exactly one when it is the
  half-open probe of the breaker; whatever it returns is what it reports to the observer.
\<close>

theorem doRaw_bounded:
  "int (snd (snd (doRaw_attempts lib transport wait c req probe))) \<le> max 1 (MaxRetries (cl_retry c) + 1)
   \<and> (\<not> rq_raw_reader req \<and> (\<forall>j. retried lib transport c req probe j) \<and> (\<forall>j. waitForRetry wait j = None)
       \<longrightarrow> int (snd (snd (doRaw_attempts lib transport wait c req probe))) = max 1 (MaxRetries (cl_retry c) + 1))
   \<and> (rq_raw_reader req \<longrightarrow> snd (snd (doRaw_attempts lib transport wait c req probe)) \<le> 1)
   \<and> (probe \<longrightarrow> snd (snd (doRaw_attempts lib transport wait c req probe)) = 1)
   \<and> snd (reported (fst (snd (doRaw_attempts lib transport wait c req probe)))) =
       (case fst (doRaw_attempts lib transport wait c req probe) of
          Inl e \<Rightarrow> Some e | Inr r \<Rightarrow> None)"
proof -
  obtain result se k where out: "doRaw_attempts lib transport wait c req probe = (result, se, k)"
    by (metis prod_cases3)
  have "k \<le> (if rq_raw_reader req then 1 else maxAttempts c)"
    using doRaw_loop_sends [of lib transport wait c req probe _ 0 None] out
    unfolding doRaw_attempts_def by (metis add_0 snd_conv)
  moreover have "snd (reported se) = (case result of Inl e \<Rightarrow> Some e | Inr r \<Rightarrow> None)"
    using out unfolding doRaw_attempts_def by (rule doRaw_loop_reports)
  moreover have "int k = int (maxAttempts c)"
    if "\<not> rq_raw_reader req" "\<forall>j. retried lib transport c req probe j" "\<forall>j. waitForRetry wait j = None"
    using doRaw_loop_spends [OF that(2,3), of "maxAttempts c" 0 None] out that(1)
    by (simp add: doRaw_attempts_def)
  ultimately show ?thesis
    using out doRaw_attempts_probe maxAttempts_pos [of c]
    unfolding maxAttempts_budget [symmetric] by (auto split: if_splits)
qed

theorem doRaw_bounded_witness:
  "snd (snd (doRaw_attempts demo_lib
      (\<lambda>n r. Inr \<lparr>hr_status = 503, hr_content_type = [], hr_stream = ([], None)\<rparr>)
      (\<lambda>_. None) (New ''openai'' ''http://x'' DefaultRetryConfig 5 2 30 True) demo_request True)) = 1
   \<and> snd (snd (doRaw_attempts demo_lib
      (\<lambda>n r. Inr \<lparr>hr_status = 503, hr_content_type = [], hr_stream = ([], None)\<rparr>)
      (\<lambda>_. None) (New ''openai'' ''http://x'' DefaultRetryConfig 5 2 30 True) demo_request False)) = 4"
proof -
  let ?tr = "\<lambda>n r. Inr \<lparr>hr_status = 503, hr_content_type = [], hr_stream = ([], None)\<rparr>"
  let ?c = "New ''openai'' ''http://x'' DefaultRetryConfig 5 2 30 True"
  obtain r where "buildRequest demo_lib ?c demo_request = Inr r" using demo_buildRequest by blast
  then have "\<forall>j. retried demo_lib ?tr ?c demo_request False j"
    by (simp add: retried_def doRequest_def doHTTPRequest_def read_limited_def read_all_def
        maxErrorBodyBytes_def isRetryable_def)
  moreover have "\<forall>j. waitForRetry (\<lambda>_. None) j = None" by (simp add: waitForRetry_def)
  moreover have "\<not> rq_raw_reader demo_request" by (simp add: demo_request_def)
  moreover have "max 1 (MaxRetries (cl_retry ?c) + 1) = 4" by (simp add: New_def DefaultRetryConfig_def)
  ultimately show ?thesis
    using doRaw_bounded [of demo_lib ?tr "\<lambda>_. None" ?c demo_request True]
      doRaw_bounded [of demo_lib ?tr "\<lambda>_. None" ?c demo_request False] by simp
qed

text \<open>
  C4. When \<open>DoRaw\<close> succeeds. It returns a response exactly when some attempt within the budget
  answers 200, every attempt before it was one to retry, and no back-off was cut short by the
  context; the response returned is that attempt's.
\<close>

theorem doRaw_succeeds_iff:
  "fst (doRaw_attempts lib transport wait c req probe) = Inr resp \<longleftrightarrow>
     (\<exists>k < (if rq_raw_reader req then 1 else maxAttempts c).
        (\<forall>j<k. retried lib transport c req probe j) \<and>
        (\<forall>j\<le>k. waitForRetry wait j = None) \<and>
        doRequest lib transport c req k = Inr resp \<and> rs_status resp = 200)"
  unfolding doRaw_attempts_def using doRaw_loop_success [where n = 0] by simp

theorem doRaw_succeeds_iff_witness:
  "fst (doRaw_attempts demo_lib
      (\<lambda>n r. Inr \<lparr>hr_status = (if n = 0 then 503 else 200), hr_content_type = [],
                 hr_stream = (''ok'', None)\<rparr>)
      (\<lambda>_. None) (New ''openai'' ''http://x'' DefaultRetryConfig 5 2 30 True) demo_request False)
   = Inr \<lparr>rs_status = 200, rs_content_type = [], rs_body = ''ok''\<rparr>"
proof -
  let ?t = "\<lambda>n r. Inr \<lparr>hr_status = (if n = 0 then 503 else 200), hr_content_type = [],
                 hr_stream = (''ok'', None)\<rparr>"
  let ?c = "New ''openai'' ''http://x'' DefaultRetryConfig 5 2 30 True"
  let ?resp = "\<lparr>rs_status = 200, rs_content_type = [], rs_body = ''ok''\<rparr>"
  obtain r where r: "buildRequest demo_lib ?c demo_request = Inr r" using demo_buildRequest by blast
  then have "doRequest demo_lib ?t ?c demo_request 1 = Inr ?resp"
    by (simp add: doRequest_def doHTTPRequest_def read_all_def)
  moreover have "retried demo_lib ?t ?c demo_request False 0"
    using r by (simp add: retried_def doRequest_def doHTTPRequest_def read_limited_def read_all_def
        maxErrorBodyBytes_def isRetryable_def)
  moreover have "maxAttempts ?c = 4"
    by (simp add: maxAttempts_def New_def DefaultRetryConfig_def)
  ultimately show ?thesis
    unfolding doRaw_succeeds_iff
    by (intro exI [of _ 1]) (simp add: waitForRetry_def demo_request_def)
qed

section \<open>Passthrough requests\<close>

lemma doPassthrough_loop_sends:
  "snd (snd (doPassthrough_loop lib transport wait c req probe left n)) \<le> n + left"
proof (induction left arbitrary: n)
  case 0
  then show ?case by simp
next
  case (Suc left)
  have "snd (snd (doPassthrough_loop lib transport wait c req probe left (Suc n))) \<le> n + Suc left"
    using Suc.IH [of "Suc n"] by simp
  then show ?case by (cases probe) (simp_all add: Let_def split: option.split sum.split)
qed

lemma doPassthrough_loop_result:
  assumes "doPassthrough_loop lib transport wait c req probe (Suc left) n = (result, se, k)"
  shows "(\<exists>j. n \<le> j \<and> j < k \<and> result = doHTTPRequest lib transport c req j)
         \<or> (\<exists>e. wait k = Some e \<and> result = Inl e)"
  using assms
proof (induction left arbitrary: n)
  case 0
  then show ?case
    by (fastforce simp: Let_def waitForRetry_def split: option.splits sum.splits if_splits)
next
  case (Suc left)
  show ?case
  proof (cases "doPassthrough_loop lib transport wait c req probe (Suc left) (Suc n) = (result, se, k)")
    case True
    from Suc.IH [OF this] show ?thesis using Suc_leD by blast
  next
    case False
    with Suc.prems show ?thesis
      unfolding doPassthrough_loop.simps(2) [of lib transport wait c req probe "Suc left" n]
      by (fastforce simp: Let_def waitForRetry_def simp del: doPassthrough_loop.simps
          split: option.splits sum.splits if_splits)
  qed
qed

lemma doPassthrough_attempts_probe:
  assumes "doPassthrough_attempts lib transport wait c req True = (result, se, k)"
  shows "k = 1 \<and> (\<forall>st e. se \<noteq> FinishOnly st e)"
proof -
  obtain l where l: "(if canRetryPassthrough req then maxAttempts c else 1) = Suc l"
    using maxAttempts_pos gr0_conv_Suc by (metis zero_less_one)
  show ?thesis
    using assms unfolding doPassthrough_attempts_def l
    by (auto simp: Let_def waitForRetry_def split: option.splits sum.splits if_splits)
qed

text \<open>
  C5. Passthrough requests are replayed only when that is safe. A request that is not a GET, HEAD,
  OPTIONS or PUT and carries no idempotency key, or whose body is a stream, is sent at most once;
  and the fall-back error after the loop is never what the caller gets: the result is the outcome
  of an attempt that was made, or the context error that ended a back-off.
\<close>

theorem passthrough_no_replay:
  assumes "doPassthrough_attempts lib transport wait c req probe = (result, se, k)"
  shows "(k \<le> 1 \<or> (\<not> rq_raw_reader req \<and>
            (hasIdempotencyKey (rq_headers req) \<or>
             go_to_upper (go_trim (rq_method req)) \<in> {''GET'', ''HEAD'', ''OPTIONS'', ''PUT''})))
         \<and> k \<le> maxAttempts c
         \<and> ((\<exists>j<k. result = doHTTPRequest lib transport c req j)
            \<or> (\<exists>e. wait k = Some e \<and> result = Inl e))"
proof -
  obtain l where l: "(if canRetryPassthrough req then maxAttempts c else 1) = Suc l"
    using maxAttempts_pos gr0_conv_Suc by (metis zero_less_one)
  have "k \<le> (if canRetryPassthrough req then maxAttempts c else 1)"
    using doPassthrough_loop_sends [of lib transport wait c req probe _ 0] assms
    unfolding doPassthrough_attempts_def by (metis add_0 snd_conv)
  moreover have "(\<exists>j. 0 \<le> j \<and> j < k \<and> result = doHTTPRequest lib transport c req j)
         \<or> (\<exists>e. wait k = Some e \<and> result = Inl e)"
    using assms unfolding doPassthrough_attempts_def l by (rule doPassthrough_loop_result)
  ultimately show ?thesis
    using maxAttempts_pos [of c] by (auto simp: canRetryPassthrough_def split: if_splits)
qed

theorem passthrough_no_replay_witness:
  "snd (snd (doPassthrough_attempts demo_lib
      (\<lambda>n r. Inr \<lparr>hr_status = 503, hr_content_type = [], hr_stream = ([], None)\<rparr>)
      (\<lambda>_. None) (New ''openai'' ''http://x'' DefaultRetryConfig 5 2 30 True) demo_request False)) \<le> 1"
proof -
  let ?p = "doPassthrough_attempts demo_lib
      (\<lambda>n r. Inr \<lparr>hr_status = 503, hr_content_type = [], hr_stream = ([], None)\<rparr>)
      (\<lambda>_. None) (New ''openai'' ''http://x'' DefaultRetryConfig 5 2 30 True) demo_request False"
  have "go_to_upper (go_trim ''POST'') = ''POST''" by code_simp
  then have "\<not> go_to_upper (go_trim (rq_method demo_request)) \<in> {''GET'', ''HEAD'', ''OPTIONS'', ''PUT''}"
    "\<not> hasIdempotencyKey (rq_headers demo_request)"
    by (simp_all add: demo_request_def hasIdempotencyKey_def)
  then show ?thesis
    using passthrough_no_replay [of demo_lib _ _ _ demo_request False "fst ?p" "fst (snd ?p)"
        "snd (snd ?p)"] by (metis prod.collapse)
qed

section \<open>Back-off\<close>

lemma truncate_rat_bounds:
  "0 \<le> x \<Longrightarrow> x \<le> y \<Longrightarrow> 0 \<le> truncate_rat x \<and> of_int (truncate_rat x) \<le> y"
  by (auto simp: truncate_rat_def intro: order_trans [OF of_int_floor_le])

text \<open>
  The back-off before a retry is never negative, never above \<open>MaxBackoff\<close> by more than the
  jitter share, and without jitter it is the exponential delay cut at \<open>MaxBackoff\<close>.
\<close>

lemma backoff_bounded:
  assumes "0 \<le> InitialBackoff r" and "0 \<le> MaxBackoff r" and "0 \<le> BackoffFactor r"
    and "JitterFactor r \<le> 1" and "0 \<le> draw" and "draw < 1"
  shows "0 \<le> calculateBackoff r draw n
         \<and> of_int (calculateBackoff r draw n) \<le> of_int (MaxBackoff r) * (1 + max 0 (JitterFactor r))
         \<and> (JitterFactor r \<le> 0 \<longrightarrow>
              calculateBackoff r draw n =
                min (MaxBackoff r) \<lfloor>of_int (InitialBackoff r) * BackoffFactor r ^ (n - 1)\<rfloor>)"
proof -
  let ?m = "of_int (MaxBackoff r) :: rat"
  let ?e = "of_int (InitialBackoff r) * BackoffFactor r ^ (n - 1)"
  let ?b = "if ?m < ?e then ?m else ?e"
  let ?j = "?b * JitterFactor r"
  have b: "0 \<le> ?b" "?b \<le> ?m" using assms(1-3) by auto
  have "calculateBackoff r draw n =
      truncate_rat (if 0 < JitterFactor r then ?b - ?j + draw * 2 * ?j else ?b)"
    by (simp add: calculateBackoff_def Let_def)
  moreover have "0 \<le> ?b - ?j + draw * 2 * ?j \<and> ?b - ?j + draw * 2 * ?j \<le> ?m * (1 + JitterFactor r)"
    if "0 < JitterFactor r"
  proof -
    have j: "0 \<le> ?j" "?j \<le> ?b" using that assms(4) b mult_left_le [of "JitterFactor r" ?b] by auto
    have d: "0 \<le> draw * 2 * ?j" "draw * 2 * ?j \<le> 2 * ?j"
      using assms(5,6) j(1) mult_right_mono [of "draw * 2" 2 ?j] by auto
    have "?b * (1 + JitterFactor r) \<le> ?m * (1 + JitterFactor r)"
      using b that by (intro mult_right_mono) auto
    moreover have "?b * (1 + JitterFactor r) = ?b + ?j" by (simp add: distrib_left)
    ultimately show ?thesis using j d by linarith
  qed
  moreover have "truncate_rat ?b = min (MaxBackoff r) \<lfloor>?e\<rfloor>"
  proof (cases "?m < ?e")
    case True
    then show ?thesis by (simp add: truncate_rat_def assms(2) min_def le_floor_iff)
  next
    case False
    then have "\<lfloor>?e\<rfloor> \<le> MaxBackoff r" by (simp add: floor_le_iff)
    moreover have "0 \<le> ?e" using assms(1,3) by simp
    ultimately show ?thesis using False by (simp add: truncate_rat_def)
  qed
  ultimately show ?thesis
    using b truncate_rat_bounds [of ?b ?m]
      truncate_rat_bounds [of "?b - ?j + draw * 2 * ?j" "?m * (1 + JitterFactor r)"]
    by (cases "0 < JitterFactor r") (simp_all add: max_def)
qed

theorem backoff_bounded_witness:
  "0 \<le> calculateBackoff DefaultRetryConfig (1/2) 3
   \<and> (of_int (calculateBackoff DefaultRetryConfig (1/2) 3) :: rat) \<le> 30000000000 * (1 + 1/10)"
proof -
  have h: "0 \<le> InitialBackoff DefaultRetryConfig" "0 \<le> MaxBackoff DefaultRetryConfig"
    "0 \<le> BackoffFactor DefaultRetryConfig" "JitterFactor DefaultRetryConfig \<le> 1"
    "(0::rat) \<le> 1/2" "(1/2 :: rat) < 1"
    "MaxBackoff DefaultRetryConfig = 30000000000" "JitterFactor DefaultRetryConfig = 1/10"
    by (simp_all add: DefaultRetryConfig_def second_def)
  show ?thesis
    using backoff_bounded [OF h(1-6), of 3] h(7,8) by (simp add: max_def)
qed

end
