(* ===== verification/Network.thy ===== *)
theory Network
  imports LLMClient
begin

text \<open>
  Concurrent requests over one circuit breaker. One client serves every request of a provider, so
  any number of \<open>Do*\<close> calls run at once and their breaker operations interleave; each operation is
  atomic (the breaker's mutex), the attempt loop between them touches nothing shared.

  A state holds the breaker, the clock and, per caller, where its request is: in flight (with its
  probe flag), or between the two locked sections of the 429 branch of
  \<open>recordCircuitBreakerCompletion\<close> (\<open>IsHalfOpen\<close> has answered true, \<open>RecordFailure\<close> is still to
  come). \<open>net_step\<close> has one rule per step; \<open>request_end\<close> ties the end of a request to what the
  attempt loops of \<open>LLMClient\<close> can produce for its probe flag, for any network and any request.
\<close>

inductive request_end :: "bool \<Rightarrow> scope_end \<Rightarrow> bool" where
  raw: "doRaw_attempts lib transport wait c req probe = (result, se, n) \<Longrightarrow> request_end probe se"
| stream: "doStream_attempt lib transport c req = (result', se) \<Longrightarrow> request_end probe se"
| passthrough: "doPassthrough_attempts lib transport wait c req probe = (result', se, n) \<Longrightarrow>
    request_end probe se"

datatype request_pc = InFlight bool | RecordingFailure

record net_state =
  ns_breaker :: circuit_breaker
  ns_clock :: go_time
  ns_pcs :: "nat \<Rightarrow> request_pc option"

text \<open>The first locked section of \<open>completeScope\<close> (or of its variants), and what is left to do.\<close>

fun end_section ::
  "go_time \<Rightarrow> bool \<Rightarrow> scope_end \<Rightarrow> circuit_breaker \<Rightarrow> circuit_breaker \<times> request_pc option" where
  "end_section now probe (CompleteScope st err None) b =
     (if st = 429 then (b, if IsHalfOpen b then Some RecordingFailure else None)
      else (recordCircuitBreakerCompletion now probe st None b, None))"
| "end_section now probe se b = (breaker_after now probe se b, None)"

inductive net_step :: "net_state \<Rightarrow> net_state \<Rightarrow> bool" where
  tick: "ns_clock s \<le> t \<Longrightarrow> net_step s (s\<lparr>ns_clock := t\<rparr>)"
| admit: "ns_pcs s i = None \<Longrightarrow> acquire (ns_clock s) (ns_breaker s) = (b, True, probe) \<Longrightarrow>
    net_step s (s\<lparr>ns_breaker := b, ns_pcs := (ns_pcs s)(i \<mapsto> InFlight probe)\<rparr>)"
| reject: "ns_pcs s i = None \<Longrightarrow> acquire (ns_clock s) (ns_breaker s) = (b, False, probe) \<Longrightarrow>
    net_step s (s\<lparr>ns_breaker := b\<rparr>)"
| finish: "ns_pcs s i = Some (InFlight probe) \<Longrightarrow> request_end probe se \<Longrightarrow>
    end_section (ns_clock s) probe se (ns_breaker s) = (b, pc) \<Longrightarrow>
    net_step s (s\<lparr>ns_breaker := b, ns_pcs := (ns_pcs s)(i := pc)\<rparr>)"
| record_failure: "ns_pcs s i = Some RecordingFailure \<Longrightarrow>
    net_step s (s\<lparr>ns_breaker := RecordFailure (ns_clock s) (ns_breaker s),
                  ns_pcs := (ns_pcs s)(i := None)\<rparr>)"

inductive net_reachable :: "int \<Rightarrow> int \<Rightarrow> go_duration \<Rightarrow> net_state \<Rightarrow> bool"
  for failThreshold succThreshold timeout where
  start: "net_reachable failThreshold succThreshold timeout
     \<lparr>ns_breaker = newCircuitBreaker failThreshold succThreshold timeout, ns_clock = t,
      ns_pcs = (\<lambda>_. None)\<rparr>"
| step: "net_reachable failThreshold succThreshold timeout s \<Longrightarrow> net_step s s' \<Longrightarrow>
    net_reachable failThreshold succThreshold timeout s'"

inductive_cases net_stepE: "net_step s s'"

section \<open>How a probe ends\<close>

lemma doStream_attempt_end:
  "doStream_attempt lib transport c req = (result, se) \<Longrightarrow> se \<noteq> FinishOnly st e"
  by (auto simp: doStream_attempt_def Let_def split: sum.splits if_splits)

lemma probe_end: "request_end True se \<Longrightarrow> se \<noteq> FinishOnly st e"
  by (erule request_end.cases)
     (simp_all add: doRaw_attempts_probe doStream_attempt_end doPassthrough_attempts_probe)

lemma not_half_open_free: "\<not> IsHalfOpen b \<Longrightarrow> \<not> slot_taken b"
  by (simp add: IsHalfOpen_def slot_taken_def)

text \<open>Every other way of ending gives the slot back, or goes on to record a failure.\<close>

lemma end_section_frees:
  assumes "request_end True se" and "end_section now True se b = (b', pc)"
  shows "\<not> slot_taken b' \<or> pc = Some RecordingFailure"
proof (cases se)
  case (CompleteScope st err cbErr)
  with assms(2) show ?thesis
    by (cases cbErr)
       (auto simp: recordCircuitBreakerCompletion_def releaseHalfOpenProbe_def cb.rel_frees
          cb.succ_frees cb.fail_frees not_half_open_free split: if_splits)
next
  case (FinishWithoutBreaker st err)
  with assms(2) show ?thesis by (auto simp: releaseHalfOpenProbe_def cb.rel_frees)
next
  case (FinishOnly st err)
  with probe_end [OF assms(1)] show ?thesis by blast
qed

lemma end_section_inv:
  "end_section now probe se b = (b', pc) \<Longrightarrow> breaker_inv b \<Longrightarrow> breaker_inv b'"
  by (cases "(now, probe, se, b)" rule: end_section.cases)
     (auto simp: recordCircuitBreakerCompletion_def releaseHalfOpenProbe_def
       intro: breaker_inv_ops split: if_splits)

lemma end_section_slot:
  "end_section now False se b = (b', pc) \<Longrightarrow> slot_taken b' \<Longrightarrow> slot_taken b"
  by (cases "(now, False, se, b)" rule: end_section.cases)
     (auto simp: recordCircuitBreakerCompletion_def releaseHalfOpenProbe_def cb.rel_frees
          cb.succ_frees cb.fail_frees split: if_splits)

section \<open>The slot is never lost\<close>

text \<open>A taken slot has an owner: a probe in flight, or a request about to record a failure.\<close>

definition slot_owned :: "net_state \<Rightarrow> bool" where
  "slot_owned s \<longleftrightarrow>
     breaker_inv (ns_breaker s) \<and>
     (slot_taken (ns_breaker s) \<longrightarrow>
        (\<exists>i. ns_pcs s i = Some (InFlight True) \<or> ns_pcs s i = Some RecordingFailure))"

lemma slot_owned_step:
  assumes "net_step s s'" and "slot_owned s"
  shows "slot_owned s'"
  using assms(1)
proof cases
  case (tick t)
  with assms(2) show ?thesis by (simp add: slot_owned_def)
next
  case (admit i b probe)
  have "breaker_inv b"
    using cb.acq_inv [of "ns_breaker s" "ns_clock s"] admit(3) assms(2) by (simp add: slot_owned_def)
  moreover have "slot_taken b \<Longrightarrow> probe \<or> slot_taken (ns_breaker s)"
    using slot_acquire [OF admit(3)] by blast
  moreover have "\<exists>j. ns_pcs s' j = Some (InFlight True) \<or> ns_pcs s' j = Some RecordingFailure"
    if taken: "slot_taken (ns_breaker s)"
  proof -
    obtain j where j: "ns_pcs s j = Some (InFlight True) \<or> ns_pcs s j = Some RecordingFailure"
      using taken assms(2) by (auto simp: slot_owned_def)
    with admit(2) have "j \<noteq> i" by auto
    with j admit(1) show ?thesis by (intro exI [of _ j]) simp
  qed
  moreover have "probe \<Longrightarrow> ns_pcs s' i = Some (InFlight True)" using admit(1) by simp
  moreover have "ns_breaker s' = b" using admit(1) by simp
  ultimately show ?thesis unfolding slot_owned_def by blast
next
  case (reject i b probe)
  then have "b = ns_breaker s" using acquire_rejected by blast
  with reject assms(2) show ?thesis by (simp add: slot_owned_def)
next
  case (finish i probe se b pc)
  have inv: "breaker_inv b"
    using finish(4) assms(2) end_section_inv by (simp add: slot_owned_def)
  show ?thesis
  proof (cases probe)
    case True
    have "\<not> slot_taken b \<or> pc = Some RecordingFailure"
      using finish(3,4) unfolding eqTrueI [OF True] by (rule end_section_frees)
    with inv finish(1) show ?thesis by (auto simp: slot_owned_def)
  next
    case False
    show ?thesis
    proof (cases "slot_taken b")
      case True
      with finish(4) have "slot_taken (ns_breaker s)"
        unfolding eq_False [THEN iffD2, OF False] by (rule end_section_slot)
      with assms(2) obtain j where
        j: "ns_pcs s j = Some (InFlight True) \<or> ns_pcs s j = Some RecordingFailure"
        by (auto simp: slot_owned_def)
      with False finish(2) have "j \<noteq> i" by auto
      with j inv finish(1) show ?thesis by (auto simp: slot_owned_def)
    qed (use inv finish(1) in \<open>simp add: slot_owned_def\<close>)
  qed
next
  case (record_failure i)
  with assms(2) show ?thesis
    by (simp add: slot_owned_def cb.fail_frees cb.fail_inv)
qed

lemma net_reachable_slot_owned: "net_reachable f n t s \<Longrightarrow> slot_owned s"
proof (induction rule: net_reachable.induct)
  case (start t)
  show ?case
    by (simp add: slot_owned_def breaker_inv_new) (simp add: slot_taken_def newCircuitBreaker_def)
next
  case (step s s')
  then show ?case by (blast intro: slot_owned_step)
qed

text \<open>
  C2. The breaker cannot wedge. In every reachable state of any number of concurrent requests, if
  the breaker rejects a caller then either it is open and its timeout has not passed, or it is
  half-open and some request still holds the probe slot; once no request is in flight and the
  timeout has passed, the next caller is admitted.
\<close>

theorem breaker_never_wedges:
  assumes "net_reachable failThreshold succThreshold timeout s"
    and "\<not> fst (snd (acquire (ns_clock s) (ns_breaker s)))"
  shows "(cb_state (ns_breaker s) = CircuitOpen \<and>
            time_sub (ns_clock s) (lastFailure (ns_breaker s)) \<le> cb_timeout (ns_breaker s))
         \<or> (cb_state (ns_breaker s) = CircuitHalfOpen \<and>
            (\<exists>i. ns_pcs s i = Some (InFlight True) \<or> ns_pcs s i = Some RecordingFailure))"
  using net_reachable_slot_owned [OF assms(1)] acquire_rejected_iff [of "ns_breaker s"] assms(2)
  by (auto simp: slot_owned_def slot_taken_def)

section \<open>One probe at a time\<close>

text \<open>Runs in which the breaker is never closed.\<close>

inductive trips :: "net_state \<Rightarrow> net_state \<Rightarrow> bool" where
  refl: "trips s s"
| more: "trips s s' \<Longrightarrow> net_step s' s'' \<Longrightarrow> cb_state (ns_breaker s'') \<noteq> CircuitClosed \<Longrightarrow>
    trips s s''"

text \<open>At most one caller is busy, and while one is, the slot is taken.\<close>

definition single_probe :: "net_state \<Rightarrow> bool" where
  "single_probe s \<longleftrightarrow>
     cb_state (ns_breaker s) \<noteq> CircuitClosed \<and>
     (\<forall>i j. ns_pcs s i \<noteq> None \<longrightarrow> ns_pcs s j \<noteq> None \<longrightarrow> i = j) \<and>
     (\<forall>i. ns_pcs s i \<noteq> Some (InFlight False)) \<and>
     (\<forall>i. ns_pcs s i \<noteq> None \<longrightarrow> slot_taken (ns_breaker s))"

lemma acquire_not_closed:
  assumes "acquire now b = (b', True, probe)" and "cb_state b \<noteq> CircuitClosed"
  shows "probe" and "\<not> slot_taken b" and "slot_taken b'"
  using assms
  by (auto simp: breaker_defs slot_taken_def split: circuit_state.splits if_splits)

lemma single_probe_step:
  assumes "net_step s s'" and "single_probe s" and "cb_state (ns_breaker s') \<noteq> CircuitClosed"
  shows "single_probe s'"
  using assms(1)
proof cases
  case (tick t)
  with assms(2) show ?thesis by (simp add: single_probe_def)
next
  case (admit i b probe)
  have "cb_state (ns_breaker s) \<noteq> CircuitClosed" using assms(2) by (simp add: single_probe_def)
  from acquire_not_closed [OF admit(3) this] admit(1) assms(2,3) show ?thesis
    by (auto simp: single_probe_def)
next
  case (reject i b probe)
  then have "b = ns_breaker s" using acquire_rejected by blast
  with reject assms(2) show ?thesis by (simp add: single_probe_def)
next
  case (finish i probe se b pc)
  have probe using finish(2) assms(2) unfolding single_probe_def by (metis (full_types))
  have others: "ns_pcs s j = None" if "j \<noteq> i" for j
    using finish(2) assms(2) that by (auto simp: single_probe_def)
  have pc: "pc = None \<or> (pc = Some RecordingFailure \<and> b = ns_breaker s)"
    using finish(4) by (cases "(ns_clock s, probe, se, ns_breaker s)" rule: end_section.cases)
      (auto split: if_splits)
  have "slot_taken (ns_breaker s)" using finish(2) assms(2) by (auto simp: single_probe_def)
  with pc others finish(1) assms(3) show ?thesis by (auto simp: single_probe_def)
next
  case (record_failure i)
  have "ns_pcs s j = None" if "j \<noteq> i" for j
    using record_failure(2) assms(2) that by (auto simp: single_probe_def)
  with record_failure assms(3) show ?thesis by (auto simp: single_probe_def)
qed

text \<open>
  C6. No thundering herd. Starting from an open breaker with no request in flight, as long as the
  breaker has not closed again there is never more than one request at work, and it is a probe.
\<close>

theorem half_open_single_probe:
  assumes "trips s s'" and "cb_state (ns_breaker s) = CircuitOpen" and "\<forall>i. ns_pcs s i = None"
    and "ns_pcs s' i \<noteq> None" and "ns_pcs s' j \<noteq> None"
  shows "i = j \<and> ns_pcs s' i \<noteq> Some (InFlight False)"
proof -
  have "single_probe s" using assms(2,3) by (simp add: single_probe_def)
  with assms(1) have "single_probe s'"
    by (induction rule: trips.induct) (auto intro: single_probe_step)
  with assms(4,5) show ?thesis by (auto simp: single_probe_def)
qed

section \<open>Concrete runs\<close>

text \<open>Requests that end with a 200 and with a 500, for the runs below.\<close>

lemma request_end_success: "request_end probe (CompleteScope 200 None None)"
proof -
  obtain c :: llm_client where True by blast
  obtain r where "buildRequest demo_lib c demo_request = Inr r" using demo_buildRequest by blast
  then have "doStream_attempt demo_lib
      (\<lambda>_ _. Inr \<lparr>hr_status = 200, hr_content_type = [], hr_stream = ([], None)\<rparr>) c demo_request =
      (Inr \<lparr>hr_status = 200, hr_content_type = [], hr_stream = ([], None)\<rparr>,
       CompleteScope 200 None None)"
    by (simp add: doStream_attempt_def doHTTPRequest_def)
  then show ?thesis by (rule request_end.stream)
qed

lemma request_end_server_error: "\<exists>e. request_end probe (CompleteScope 500 (Some e) None)"
proof -
  obtain c :: llm_client where True by blast
  obtain r where "buildRequest demo_lib c demo_request = Inr r" using demo_buildRequest by blast
  then have "\<exists>e. doStream_attempt demo_lib
      (\<lambda>_ _. Inr \<lparr>hr_status = 500, hr_content_type = [], hr_stream = ([], None)\<rparr>) c demo_request =
      (Inl e, CompleteScope 500 (Some e) None)"
    by (simp add: doStream_attempt_def doHTTPRequest_def Let_def)
  then show ?thesis by (blast intro: request_end.stream)
qed

lemma net_admit:
  assumes "net_reachable f n d s" and "ns_pcs s i = None"
    and "acquire (ns_clock s) (ns_breaker s) = (b, True, probe)"
  shows "net_reachable f n d (s\<lparr>ns_breaker := b, ns_pcs := (ns_pcs s)(i \<mapsto> InFlight probe)\<rparr>)"
  using assms by (blast intro: net_reachable.step net_step.admit)

lemma net_tick:
  assumes "net_reachable f n d s" and "ns_clock s \<le> t"
  shows "net_reachable f n d (s\<lparr>ns_clock := t\<rparr>)"
  using assms by (blast intro: net_reachable.step net_step.tick)

lemma net_server_error:
  assumes "net_reachable f n d s" and "ns_pcs s i = Some (InFlight probe)"
  shows "net_reachable f n d (s\<lparr>ns_breaker := RecordFailure (ns_clock s) (ns_breaker s),
                          ns_pcs := (ns_pcs s)(i := None)\<rparr>)"
proof -
  obtain e where "request_end probe (CompleteScope 500 (Some e) None)"
    using request_end_server_error by blast
  moreover have "end_section (ns_clock s) probe (CompleteScope 500 (Some e) None) (ns_breaker s)
      = (RecordFailure (ns_clock s) (ns_breaker s), None)"
    by (simp add: recordCircuitBreakerCompletion_def shouldTripCircuitBreaker_def)
  ultimately show ?thesis
    using assms by (blast intro: net_reachable.step net_step.finish)
qed

lemma net_success:
  assumes "net_reachable f n d s" and "ns_pcs s i = Some (InFlight probe)"
  shows "net_reachable f n d (s\<lparr>ns_breaker := RecordSuccess (ns_breaker s),
                          ns_pcs := (ns_pcs s)(i := None)\<rparr>)"
proof -
  have "end_section (ns_clock s) probe (CompleteScope 200 None None) (ns_breaker s)
      = (RecordSuccess (ns_breaker s), None)"
    by (simp add: recordCircuitBreakerCompletion_def shouldTripCircuitBreaker_def isRetryable_def)
  then show ?thesis
    using assms request_end_success by (blast intro: net_reachable.step net_step.finish)
qed

text \<open>A run of one caller into the open state, with failure threshold 1 and timeout 30.\<close>

definition opened_state :: net_state where
  "opened_state = \<lparr>ns_breaker = RecordFailure 10 (newCircuitBreaker 1 2 30), ns_clock = 10,
                   ns_pcs = (\<lambda>_. None)\<rparr>"

lemma opened_state_reachable: "net_reachable 1 2 30 opened_state"
proof -
  have "net_reachable 1 2 30
      \<lparr>ns_breaker = newCircuitBreaker 1 2 30, ns_clock = 10, ns_pcs = (\<lambda>_. None)\<rparr>"
    by (rule net_reachable.start)
  from net_admit [OF this, where i = 0 and probe = False] have "net_reachable 1 2 30
      \<lparr>ns_breaker = newCircuitBreaker 1 2 30, ns_clock = 10, ns_pcs = [0 \<mapsto> InFlight False]\<rparr>"
    by (simp add: acquire_def newCircuitBreaker_def)
  from net_server_error [OF this, of 0 False] show ?thesis
    by (simp add: opened_state_def)
qed

theorem breaker_never_wedges_witness:
  "cb_state (ns_breaker opened_state) = CircuitOpen
   \<and> time_sub (ns_clock opened_state) (lastFailure (ns_breaker opened_state))
       \<le> cb_timeout (ns_breaker opened_state)"
proof -
  have open_state: "cb_state (ns_breaker opened_state) = CircuitOpen"
    by (simp add: opened_state_def RecordFailure_def newCircuitBreaker_def)
  have "\<not> fst (snd (acquire (ns_clock opened_state) (ns_breaker opened_state)))"
    by (simp add: opened_state_def RecordFailure_def newCircuitBreaker_def acquire_def
        time_sub_def max_duration_def min_duration_def)
  from breaker_never_wedges [OF opened_state_reachable this] open_state show ?thesis by simp
qed

definition probing_state :: net_state where
  "probing_state = opened_state
     \<lparr>ns_clock := 50,
      ns_breaker := (ns_breaker opened_state)
        \<lparr>cb_state := CircuitHalfOpen, cb_successes := 0, halfOpenAllowed := False\<rparr>,
      ns_pcs := [7 \<mapsto> InFlight True]\<rparr>"

lemma opened_trips_probing: "trips opened_state probing_state"
proof -
  have open_state: "cb_state (ns_breaker opened_state) = CircuitOpen"
    by (simp add: opened_state_def RecordFailure_def newCircuitBreaker_def)
  have acq: "acquire 50 (ns_breaker opened_state) =
      ((ns_breaker opened_state)
        \<lparr>cb_state := CircuitHalfOpen, cb_successes := 0, halfOpenAllowed := False\<rparr>, True, True)"
    by (simp add: opened_state_def RecordFailure_def newCircuitBreaker_def acquire_def
        acquire_half_open_def time_sub_def max_duration_def min_duration_def)
  have "trips opened_state (opened_state\<lparr>ns_clock := 50\<rparr>)"
    using open_state by (intro trips.more [OF trips.refl] net_step.tick)
      (simp_all add: opened_state_def)
  moreover have "net_step (opened_state\<lparr>ns_clock := 50\<rparr>) probing_state"
    using net_step.admit [of "opened_state\<lparr>ns_clock := 50\<rparr>" 7 _ True] acq
    by (simp add: probing_state_def opened_state_def)
  ultimately show ?thesis
    by (rule trips.more) (simp add: probing_state_def)
qed

theorem half_open_single_probe_witness:
  "ns_pcs probing_state 7 \<noteq> Some (InFlight False)"
proof -
  have "cb_state (ns_breaker opened_state) = CircuitOpen" "\<forall>i. ns_pcs opened_state i = None"
    "ns_pcs probing_state 7 \<noteq> None"
    by (simp_all add: opened_state_def probing_state_def RecordFailure_def newCircuitBreaker_def)
  from half_open_single_probe [OF opened_trips_probing this this(3)] show ?thesis by simp
qed

text \<open>
  Without the hypothesis that nothing is in flight the bound on probes fails: a request admitted
  while the breaker was closed may succeed during the half-open state, which counts as a probe
  success and frees the slot of the probe that is still running.
\<close>

lemma stale_success_second_probe:
  "\<exists>s. net_reachable 1 2 30 s \<and> ns_pcs s 2 = Some (InFlight True) \<and> ns_pcs s 3 = Some (InFlight True)"
proof -
  let ?b0 = "newCircuitBreaker 1 2 30"
  let ?b1 = "RecordFailure 10 ?b0"
  let ?b2 = "?b1\<lparr>cb_state := CircuitHalfOpen, cb_successes := 0, halfOpenAllowed := False\<rparr>"
  let ?b3 = "RecordSuccess ?b2"
  have "net_reachable 1 2 30 \<lparr>ns_breaker = ?b0, ns_clock = 10, ns_pcs = (\<lambda>_. None)\<rparr>"
    by (rule net_reachable.start)
  from net_admit [OF this, where i = 0 and probe = False] have "net_reachable 1 2 30
      \<lparr>ns_breaker = ?b0, ns_clock = 10, ns_pcs = [0 \<mapsto> InFlight False]\<rparr>"
    by (simp add: acquire_def newCircuitBreaker_def)
  from net_admit [OF this, where i = 1 and probe = False] have "net_reachable 1 2 30
      \<lparr>ns_breaker = ?b0, ns_clock = 10, ns_pcs = [0 \<mapsto> InFlight False, 1 \<mapsto> InFlight False]\<rparr>"
    by (simp add: acquire_def newCircuitBreaker_def)
  from net_server_error [OF this, of 1 False] have "net_reachable 1 2 30
      \<lparr>ns_breaker = ?b1, ns_clock = 10, ns_pcs = [0 \<mapsto> InFlight False]\<rparr>"
    by (simp add: fun_upd_idem_iff)
  from net_tick [OF this, of 50] have "net_reachable 1 2 30
      \<lparr>ns_breaker = ?b1, ns_clock = 50, ns_pcs = [0 \<mapsto> InFlight False]\<rparr>"
    by simp
  from net_admit [OF this, where i = 2 and b = ?b2 and probe = True] have "net_reachable 1 2 30
      \<lparr>ns_breaker = ?b2, ns_clock = 50, ns_pcs = [0 \<mapsto> InFlight False, 2 \<mapsto> InFlight True]\<rparr>"
    by (simp add: acquire_def acquire_half_open_def newCircuitBreaker_def RecordFailure_def
        time_sub_def max_duration_def min_duration_def)
  from net_success [OF this, of 0 False] have "net_reachable 1 2 30
      \<lparr>ns_breaker = ?b3, ns_clock = 50, ns_pcs = [2 \<mapsto> InFlight True]\<rparr>"
    by (simp add: fun_upd_twist)
  from net_admit [OF this, where i = 3 and probe = True] have "net_reachable 1 2 30
      \<lparr>ns_breaker = ?b3\<lparr>halfOpenAllowed := False\<rparr>, ns_clock = 50,
       ns_pcs = [2 \<mapsto> InFlight True, 3 \<mapsto> InFlight True]\<rparr>"
    by (simp add: acquire_def acquire_half_open_def RecordSuccess_def newCircuitBreaker_def Let_def
        RecordFailure_def)
  then show ?thesis by (intro exI conjI) (assumption, simp_all)
qed

end
