(* ===== verification/Selectors.thy ===== *)
theory Selectors
  imports GatewayErrors
begin

text \<open>
  Model selectors, user paths and labels: \<open>internal/core/model_selector.go\<close>,
  \<open>requested_model_selector.go\<close>, \<open>request_model_resolution.go\<close>, \<open>user_path.go\<close>,
  \<open>labels.go\<close>, \<open>internal/modelselectors/selectors.go\<close> and \<open>internal/validation/error.go\<close>.

  These are the parsers every routing decision starts from. A routing selector is a record
  of a provider and a raw model; the administrative selector adds the stored string. The
  lemmas are the normal-form and round-trip laws the rest of the gateway relies on: what was
  parsed and printed parses back to the same value.
\<close>

section \<open>Validation errors\<close>

text \<open>\<open>validation.Error\<close>: a message for the client and an optional wrapped cause.\<close>

datatype validation_error = ValidationError (ve_message: string) (ve_err: "go_error option")

definition validation_Error :: "validation_error option \<Rightarrow> string" where
  "validation_Error e = (case e of None \<Rightarrow> [] | Some v \<Rightarrow> ve_message v)"

definition validation_Unwrap :: "validation_error option \<Rightarrow> go_error option" where
  "validation_Unwrap e = (case e of None \<Rightarrow> None | Some v \<Rightarrow> ve_err v)"

definition NewError :: "string \<Rightarrow> go_error option \<Rightarrow> validation_error" where
  "NewError m e = ValidationError m e"

section \<open>Routing selectors\<close>

record model_selector =
  ms_Model :: string
  ms_Provider :: string

definition QualifiedModel :: "model_selector \<Rightarrow> string" where
  "QualifiedModel s =
     (if ms_Provider s = [] then ms_Model s
      else ms_Provider s @ ''/'' @ ms_Model s)"

definition splitQualifiedModel :: "string \<Rightarrow> (string \<times> string) option" where
  "splitQualifiedModel model =
     (case cut (CHR ''/'') model of
        None \<Rightarrow> None
      | Some (a, b) \<Rightarrow>
          (let prefix = go_trim a; rest = go_trim b
           in if prefix = [] \<or> rest = [] then None else Some (prefix, rest)))"

definition ParseModelSelector :: "string \<Rightarrow> string \<Rightarrow> go_error + model_selector" where
  "ParseModelSelector model0 provider0 =
     (let model = go_trim model0; provider = go_trim provider0
      in if model = [] then Inl (PlainError ''model is required'')
         else
           let (model', provider') =
             (if provider \<noteq> []
              then (case splitQualifiedModel model of
                      Some (prefix, rest) \<Rightarrow>
                        if prefix = provider then (rest, provider) else (model, provider)
                    | None \<Rightarrow> (model, provider))
              else (case splitQualifiedModel model of
                      Some (prefix, rest) \<Rightarrow> (rest, prefix)
                    | None \<Rightarrow> (model, provider)))
           in if model' = [] then Inl (PlainError ''model is required'')
              else Inr \<lparr>ms_Model = model', ms_Provider = provider'\<rparr>)"

lemma splitQualifiedModel_Some:
  assumes "splitQualifiedModel m = Some (p, r)"
  shows "trimmed p" "trimmed r" "p \<noteq> []" "r \<noteq> []" "CHR ''/'' \<notin> set p"
proof -
  obtain a b where c: "cut (CHR ''/'') m = Some (a, b)" and p: "p = go_trim a"
    and r: "r = go_trim b" and ne: "p \<noteq> []" "r \<noteq> []"
    using assms unfolding splitQualifiedModel_def
    by (auto split: option.splits if_splits simp: Let_def)
  have "CHR ''/'' \<notin> set a" using c by (simp add: cut_Some_iff)
  then show "CHR ''/'' \<notin> set p" using p go_trim_set by blast
  show "trimmed p" "trimmed r" "p \<noteq> []" "r \<noteq> []" using p r ne by simp_all
qed

lemma splitQualifiedModel_qualified:
  assumes "trimmed p" "trimmed r" "p \<noteq> []" "r \<noteq> []" "CHR ''/'' \<notin> set p"
  shows "splitQualifiedModel (p @ CHR ''/'' # r) = Some (p, r)"
  using assms by (simp add: splitQualifiedModel_def cut_append)

text \<open>The selectors that parsing can produce when the provider field has no slash.\<close>

definition wf_selector :: "model_selector \<Rightarrow> bool" where
  "wf_selector s \<longleftrightarrow>
     trimmed (ms_Model s) \<and> ms_Model s \<noteq> [] \<and> trimmed (ms_Provider s) \<and>
     CHR ''/'' \<notin> set (ms_Provider s) \<and>
     (ms_Provider s = [] \<longrightarrow> splitQualifiedModel (ms_Model s) = None)"

lemma parse_explicit:
  assumes "go_trim p \<noteq> []"
  shows "ParseModelSelector m p =
     (if go_trim m = [] then Inl (PlainError ''model is required'')
      else Inr \<lparr>ms_Model = (case splitQualifiedModel (go_trim m) of
                               Some (a, b) \<Rightarrow> if a = go_trim p then b else go_trim m
                             | None \<Rightarrow> go_trim m),
                 ms_Provider = go_trim p\<rparr>)"
  using assms
  by (auto simp: ParseModelSelector_def Let_def split: option.splits
      dest: splitQualifiedModel_Some)

lemma parse_implicit:
  "ParseModelSelector m [] =
     (if go_trim m = [] then Inl (PlainError ''model is required'')
      else Inr (case splitQualifiedModel (go_trim m) of
                  Some (a, b) \<Rightarrow> \<lparr>ms_Model = b, ms_Provider = a\<rparr>
                | None \<Rightarrow> \<lparr>ms_Model = go_trim m, ms_Provider = []\<rparr>))"
  by (auto simp: ParseModelSelector_def Let_def split: option.splits
      dest: splitQualifiedModel_Some)

lemma parse_trim: "ParseModelSelector (go_trim m) (go_trim p) = ParseModelSelector m p"
  by (simp add: ParseModelSelector_def)

lemma parse_wf:
  assumes "ParseModelSelector m p = Inr s" and "CHR ''/'' \<notin> set p"
  shows "wf_selector s"
proof (cases "go_trim p = []")
  case True
  then have "ParseModelSelector m [] = Inr s"
    using assms(1) parse_trim [of m p] parse_trim [of m "[]"] by simp
  then show ?thesis
    by (auto simp: parse_implicit wf_selector_def split: if_splits option.splits
        dest: splitQualifiedModel_Some)
next
  case False
  have "CHR ''/'' \<notin> set (go_trim p)" using assms(2) go_trim_set by blast
  with False assms(1) show ?thesis
    by (auto simp: parse_explicit wf_selector_def split: if_splits option.splits
        dest: splitQualifiedModel_Some)
qed

lemma parse_qualified:
  assumes "wf_selector s"
  shows "ParseModelSelector (QualifiedModel s) [] = Inr s"
    and "ParseModelSelector (QualifiedModel s) (ms_Provider s) = Inr s"
proof -
  show one: "ParseModelSelector (QualifiedModel s) [] = Inr s"
  proof (cases "ms_Provider s = []")
    case True
    with assms show ?thesis
      by (simp add: parse_implicit QualifiedModel_def wf_selector_def)
  next
    case False
    with assms have "splitQualifiedModel (QualifiedModel s) = Some (ms_Provider s, ms_Model s)"
      and "trimmed (QualifiedModel s)" "QualifiedModel s \<noteq> []"
      by (simp_all add: QualifiedModel_def wf_selector_def splitQualifiedModel_qualified
          trimmed_slash)
    then show ?thesis by (simp add: parse_implicit)
  qed
  show "ParseModelSelector (QualifiedModel s) (ms_Provider s) = Inr s"
  proof (cases "ms_Provider s = []")
    case True
    with one show ?thesis by simp
  next
    case False
    with assms have "splitQualifiedModel (QualifiedModel s) = Some (ms_Provider s, ms_Model s)"
      and "trimmed (QualifiedModel s)" "QualifiedModel s \<noteq> []"
      by (simp_all add: QualifiedModel_def wf_selector_def splitQualifiedModel_qualified
          trimmed_slash)
    with False assms show ?thesis by (simp add: parse_explicit wf_selector_def)
  qed
qed

text \<open>
  Parsing a model selector and printing it in its qualified form loses nothing: the
  printed form parses back to the same selector, with or without the provider field, unless
  the explicit provider itself contains a slash.
\<close>

lemma selector_round_trip:
  assumes "ParseModelSelector m p = Inr s" and "CHR ''/'' \<notin> set p"
  shows "ParseModelSelector (QualifiedModel s) [] = Inr s \<and>
         ParseModelSelector (QualifiedModel s) (ms_Provider s) = Inr s"
  using parse_qualified [OF parse_wf [OF assms]] by blast

theorem selector_round_trip_witness:
  "ParseModelSelector (QualifiedModel \<lparr>ms_Model = ''openai/gpt'', ms_Provider = ''groq''\<rparr>) []
     = Inr \<lparr>ms_Model = ''openai/gpt'', ms_Provider = ''groq''\<rparr>"
proof -
  have "ParseModelSelector '' openai/gpt'' ''groq''
      = Inr \<lparr>ms_Model = ''openai/gpt'', ms_Provider = ''groq''\<rparr>"
    by code_simp
  from selector_round_trip [OF this] show ?thesis by simp
qed

section \<open>Requested selectors\<close>

record requested_selector =
  rs_Model :: string
  rs_ProviderHint :: string
  rs_ExplicitProvider :: bool

definition NewRequestedModelSelector :: "string \<Rightarrow> string \<Rightarrow> requested_selector" where
  "NewRequestedModelSelector model providerHint =
     \<lparr>rs_Model = go_trim model, rs_ProviderHint = go_trim providerHint,
      rs_ExplicitProvider = (go_trim providerHint \<noteq> [])\<rparr>"

definition Normalize :: "requested_selector \<Rightarrow> go_error + model_selector" where
  "Normalize s = ParseModelSelector (rs_Model s) (rs_ProviderHint s)"

definition RequestedQualifiedModel :: "requested_selector \<Rightarrow> string" where
  "RequestedQualifiedModel s =
     (if \<not> rs_ExplicitProvider s then rs_Model s
      else case Normalize s of
          Inr sel \<Rightarrow> QualifiedModel sel
        | Inl _ \<Rightarrow> if rs_ProviderHint s = [] then rs_Model s
                  else rs_ProviderHint s @ ''/'' @ rs_Model s)"

record model_resolution =
  mr_Requested :: requested_selector
  mr_ResolvedSelector :: model_selector
  mr_ProviderType :: string
  mr_ProviderName :: string
  mr_AliasApplied :: bool

definition res_RequestedQualifiedModel :: "model_resolution option \<Rightarrow> string" where
  "res_RequestedQualifiedModel r =
     (case r of None \<Rightarrow> [] | Some x \<Rightarrow> RequestedQualifiedModel (mr_Requested x))"

definition res_ResolvedQualifiedModel :: "model_resolution option \<Rightarrow> string" where
  "res_ResolvedQualifiedModel r =
     (case r of None \<Rightarrow> [] | Some x \<Rightarrow> QualifiedModel (mr_ResolvedSelector x))"

section \<open>Administrative selectors\<close>

text \<open>
  \<open>modelselectors\<close>: the selectors of model-level features. \<open>"/"\<close> is everything,
  \<open>"provider/"\<close> all models of a provider, \<open>"provider/model"\<close> one model there and
  \<open>"model"\<close> that model anywhere.
\<close>

record selector =
  sel_Selector :: string
  sel_ProviderName :: string
  sel_Model :: string

datatype scope_kind = ScopeGlobal | ScopeModel | ScopeProvider | ScopeProviderModel

definition splitFirst :: "string \<Rightarrow> (string \<times> string) option" where
  "splitFirst value =
     (case cut (CHR ''/'') value of
        None \<Rightarrow> None | Some (a, b) \<Rightarrow> Some (go_trim a, go_trim b))"

definition sel_String :: "string \<Rightarrow> string \<Rightarrow> string" where
  "sel_String providerName model =
     (let p = go_trim providerName; m = go_trim model
      in if p \<noteq> [] \<and> m \<noteq> [] then p @ ''/'' @ m
         else if p \<noteq> [] then p @ ''/''
         else if m \<noteq> [] then m else [])"

definition IsGlobal :: "string \<Rightarrow> bool" where
  "IsGlobal raw \<longleftrightarrow> go_trim raw = ''/''"

definition ScopeKindFor :: "string \<Rightarrow> string \<Rightarrow> string \<Rightarrow> scope_kind" where
  "ScopeKindFor sel providerName model =
     (if IsGlobal sel then ScopeGlobal
      else if go_trim providerName \<noteq> [] \<and> go_trim model \<noteq> [] then ScopeProviderModel
      else if go_trim providerName \<noteq> [] then ScopeProvider
      else ScopeModel)"

definition ExactMatchKey :: "string \<Rightarrow> string \<Rightarrow> string" where
  "ExactMatchKey providerName model =
     (let p = go_trim providerName; m = go_trim model
      in if p = [] \<or> m = [] then [] else p @ ''/'' @ m)"

definition ParseStoredParts :: "string \<Rightarrow> string \<times> string" where
  "ParseStoredParts sel0 =
     (let sel = go_trim sel0
      in if IsGlobal sel then ([], [])
         else case splitFirst sel of Some pm \<Rightarrow> pm | None \<Rightarrow> ([], sel))"

definition selector_required :: validation_error where
  "selector_required = NewError ''selector is required'' None"

definition NormalizeInput :: "string list \<Rightarrow> string \<Rightarrow> validation_error + selector" where
  "NormalizeInput providerNames raw0 =
     (let raw = go_trim raw0
      in if raw = [] then Inl selector_required
         else if IsGlobal raw
         then Inr \<lparr>sel_Selector = ''/'', sel_ProviderName = [], sel_Model = []\<rparr>
         else
           let names = filter (\<lambda>n. n \<noteq> []) (map go_trim providerNames);
               (providerName, model) =
                 (case splitFirst raw of
                    Some (prefix, rest) \<Rightarrow>
                      if prefix \<in> set names then (prefix, rest) else ([], raw)
                  | None \<Rightarrow> ([], raw))
           in if providerName = [] \<and> model = [] then Inl selector_required
              else if providerName \<noteq> [] \<and> providerName \<notin> set names
              then Inl (NewError (''unknown provider_name: '' @ providerName) None)
              else Inr \<lparr>sel_Selector = sel_String providerName model,
                        sel_ProviderName = providerName, sel_Model = model\<rparr>)"

definition NormalizeStored ::
  "string \<Rightarrow> string \<Rightarrow> string \<Rightarrow> validation_error + selector" where
  "NormalizeStored sel0 providerName0 model0 =
     (let sel = go_trim sel0; providerName = go_trim providerName0; model = go_trim model0;
          globalSelector = IsGlobal sel;
          sel' = (if sel = [] then sel_String providerName model else sel)
      in if sel' = [] then Inl selector_required
         else
           let (p, m) = (if providerName = [] \<and> model = [] \<and> \<not> globalSelector
                         then ParseStoredParts sel' else (providerName, model))
           in if p = [] \<and> m = [] \<and> \<not> globalSelector then Inl selector_required
              else let normalized = sel_String p m
                   in Inr \<lparr>sel_Selector = (if normalized \<noteq> [] then normalized else sel'),
                           sel_ProviderName = p, sel_Model = m\<rparr>)"

definition ProviderNames :: "string list option \<Rightarrow> string list" where
  "ProviderNames catalog = (case catalog of None \<Rightarrow> [] | Some names \<Rightarrow> names)"

lemma trimmed_slash_Nil: "trimmed p \<Longrightarrow> trimmed (p @ ''/'')"
  using trimmed_slash [of p "[]"] by simp

lemma splitFirst_Some:
  "splitFirst v = Some (p, r) \<Longrightarrow> trimmed p \<and> trimmed r \<and> CHR ''/'' \<notin> set p"
  by (auto simp: splitFirst_def cut_Some_iff split: option.splits
      dest: subsetD [OF go_trim_set])

lemmas splitFirst_facts = splitFirst_Some [THEN conjunct1]
  splitFirst_Some [THEN conjunct2, THEN conjunct1] splitFirst_Some [THEN conjunct2, THEN conjunct2]

lemma splitFirst_qualified:
  "trimmed p \<Longrightarrow> trimmed r \<Longrightarrow> CHR ''/'' \<notin> set p \<Longrightarrow>
   splitFirst (p @ CHR ''/'' # r) = Some (p, r)"
  by (simp add: splitFirst_def cut_append)

lemma not_global_qualified:
  "trimmed p \<Longrightarrow> trimmed r \<Longrightarrow> p \<noteq> [] \<Longrightarrow> \<not> IsGlobal (p @ CHR ''/'' # r)"
  by (simp add: IsGlobal_def trimmed_slash Cons_eq_append_conv append_eq_Cons_conv)

text \<open>The selectors \<open>NormalizeInput\<close> accepts, one disjunct per scope.\<close>

definition norm_selector :: "string list \<Rightarrow> selector \<Rightarrow> bool" where
  "norm_selector names s \<longleftrightarrow>
     trimmed (sel_ProviderName s) \<and> trimmed (sel_Model s) \<and> CHR ''/'' \<notin> set (sel_ProviderName s) \<and>
     (if sel_ProviderName s = [] \<and> sel_Model s = [] then sel_Selector s = ''/''
      else sel_Selector s = sel_String (sel_ProviderName s) (sel_Model s) \<and>
           (if sel_ProviderName s = []
            then \<not> IsGlobal (sel_Model s) \<and>
                 (\<forall>p r. splitFirst (sel_Model s) = Some (p, r) \<longrightarrow>
                        p = [] \<or> p \<notin> go_trim ` set names)
            else sel_ProviderName s \<in> go_trim ` set names))"

lemma NormalizeInput_norm: "NormalizeInput names raw = Inr s \<Longrightarrow> norm_selector names s"
proof (cases "splitFirst (go_trim raw)")
  case None
  assume "NormalizeInput names raw = Inr s"
  with None show ?thesis
    by (auto simp: NormalizeInput_def norm_selector_def Let_def split: if_splits)
next
  case (Some pr)
  obtain p r where pr: "pr = (p, r)" by fastforce
  assume "NormalizeInput names raw = Inr s"
  with Some pr splitFirst_facts [of "go_trim raw" p r] show ?thesis
    by (auto simp: NormalizeInput_def norm_selector_def Let_def split: if_splits)
qed

lemma norm_selector_cases:
  assumes "norm_selector names s"
  obtains (global) "s = \<lparr>sel_Selector = ''/'', sel_ProviderName = [], sel_Model = []\<rparr>"
    | (model) m where "m \<noteq> []" "trimmed m" "\<not> IsGlobal m"
        "\<And>p r. splitFirst m = Some (p, r) \<Longrightarrow> p = [] \<or> p \<notin> go_trim ` set names"
        "s = \<lparr>sel_Selector = m, sel_ProviderName = [], sel_Model = m\<rparr>"
    | (provider) p m where "p \<noteq> []" "trimmed p" "trimmed m" "CHR ''/'' \<notin> set p"
        "p \<in> go_trim ` set names"
        "s = \<lparr>sel_Selector = p @ CHR ''/'' # m, sel_ProviderName = p, sel_Model = m\<rparr>"
proof (cases "sel_ProviderName s = []")
  case True
  show ?thesis
  proof (cases "sel_Model s = []")
    case True
    with assms \<open>sel_ProviderName s = []\<close> show ?thesis
      by (intro global) (simp add: norm_selector_def)
  next
    case False
    with assms \<open>sel_ProviderName s = []\<close> show ?thesis
      by (intro model [of "sel_Model s"]) (auto simp: norm_selector_def sel_String_def)
  qed
next
  case False
  with assms show ?thesis
    by (intro provider [of "sel_ProviderName s" "sel_Model s"])
      (cases s; simp add: norm_selector_def sel_String_def)+
qed

lemma norm_selector_input:
  assumes "norm_selector names s"
  shows "NormalizeInput names (sel_Selector s) = Inr s"
  using assms
proof (cases rule: norm_selector_cases)
  case global
  have "trimmed ''/''" using trimmed_slash [of "[]" "[]"] by simp
  with global show ?thesis by (simp add: NormalizeInput_def IsGlobal_def)
next
  case (model m)
  then show ?thesis
    by (auto simp: NormalizeInput_def Let_def sel_String_def split: option.splits)
next
  case (provider p m)
  then show ?thesis
    by (auto simp: NormalizeInput_def Let_def sel_String_def trimmed_slash trimmed_slash_Nil
        not_global_qualified splitFirst_qualified)
qed

lemma norm_selector_stored:
  assumes "norm_selector names s"
  shows "NormalizeStored (sel_Selector s) (sel_ProviderName s) (sel_Model s) = Inr s"
  using assms
proof (cases rule: norm_selector_cases)
  case global
  have "trimmed ''/''" using trimmed_slash [of "[]" "[]"] by simp
  with global show ?thesis by (simp add: NormalizeStored_def IsGlobal_def sel_String_def)
next
  case (model m)
  then show ?thesis by (simp add: NormalizeStored_def Let_def sel_String_def)
next
  case (provider p m)
  then show ?thesis
    by (auto simp: NormalizeStored_def Let_def sel_String_def trimmed_slash)
qed

text \<open>
  An administrative selector accepted from a user is in normal form: the string it is
  stored under is accepted again with the same meaning, the three stored columns load back
  to it, and its scope is the one its parts say.
\<close>

lemma admin_selector_round_trip:
  assumes "NormalizeInput names raw = Inr s"
  shows "NormalizeInput names (sel_Selector s) = Inr s \<and>
         NormalizeStored (sel_Selector s) (sel_ProviderName s) (sel_Model s) = Inr s \<and>
         ScopeKindFor (sel_Selector s) (sel_ProviderName s) (sel_Model s) =
           (if sel_ProviderName s = [] \<and> sel_Model s = [] then ScopeGlobal
            else if sel_ProviderName s = [] then ScopeModel
            else if sel_Model s = [] then ScopeProvider else ScopeProviderModel)"
proof (intro conjI)
  have n: "norm_selector names s" by (rule NormalizeInput_norm [OF assms])
  show "NormalizeInput names (sel_Selector s) = Inr s" by (rule norm_selector_input [OF n])
  show "NormalizeStored (sel_Selector s) (sel_ProviderName s) (sel_Model s) = Inr s"
    by (rule norm_selector_stored [OF n])
  have "trimmed ''/''" using trimmed_slash [of "[]" "[]"] by simp
  with n show "ScopeKindFor (sel_Selector s) (sel_ProviderName s) (sel_Model s) =
      (if sel_ProviderName s = [] \<and> sel_Model s = [] then ScopeGlobal
       else if sel_ProviderName s = [] then ScopeModel
       else if sel_Model s = [] then ScopeProvider else ScopeProviderModel)"
    by (cases rule: norm_selector_cases)
      (auto simp: ScopeKindFor_def IsGlobal_def not_global_qualified [unfolded IsGlobal_def])
qed

theorem admin_selector_round_trip_witness:
  "ScopeKindFor ''openai/'' ''openai'' [] = ScopeProvider"
proof -
  have "NormalizeInput [''openai''] '' openai / ''
      = Inr \<lparr>sel_Selector = ''openai/'', sel_ProviderName = ''openai'', sel_Model = []\<rparr>"
    by code_simp
  from admin_selector_round_trip [OF this] show ?thesis by simp
qed

end
