(* ===== verification/UserPath.thy ===== *)
theory UserPath
  imports Selectors
begin

text \<open>
  User paths and request labels: \<open>internal/core/user_path.go\<close> and \<open>labels.go\<close>.

  A user path names a place in the hierarchy of users. It is normalised once at ingress and
  then compared as a string, so the normal form has to be unique; policies look a path up by
  walking from it to the root, and \<open>user_path_ancestors\<close> states that the walk visits exactly
  the prefixes of its segments, deepest first.
\<close>

section \<open>Normalisation\<close>

definition quoted :: "string \<Rightarrow> string" where
  "quoted s = [CHR 0x27] @ s @ [CHR 0x27]"

definition dot_segment_error :: go_error where
  "dot_segment_error =
     PlainError (''user path cannot contain '' @ quoted ''.'' @ '' or '' @ quoted ''..'' @
       '' segments'')"

definition colon_error :: go_error where
  "colon_error = PlainError (''user path cannot contain '' @ quoted '':'')"

fun canonical_segments :: "string list \<Rightarrow> go_error + string list" where
  "canonical_segments [] = Inr []"
| "canonical_segments (seg0 # segs) =
     (let seg = go_trim seg0
      in if seg = [] then canonical_segments segs
         else if seg = ''.'' \<or> seg = ''..'' then Inl dot_segment_error
         else if go_contains seg '':'' then Inl colon_error
         else case canonical_segments segs of
             Inl e \<Rightarrow> Inl e
           | Inr canonical \<Rightarrow> Inr (seg # canonical))"

definition path_of :: "string list \<Rightarrow> string" where
  "path_of canonical =
     (if canonical = [] then ''/'' else ''/'' @ join_with (CHR ''/'') canonical)"

definition NormalizeUserPath :: "string \<Rightarrow> go_error + string" where
  "NormalizeUserPath raw0 =
     (let raw = go_trim raw0
      in if raw = [] then Inr []
         else
           let raw' = (if has_prefix raw ''/'' then raw else ''/'' @ raw)
           in case canonical_segments (split_on (CHR ''/'') raw') of
                Inl e \<Rightarrow> Inl e
              | Inr canonical \<Rightarrow> Inr (path_of canonical))"

text \<open>The segments a normal path is made of.\<close>

definition good_segment :: "string \<Rightarrow> bool" where
  "good_segment seg \<longleftrightarrow>
     seg \<noteq> [] \<and> trimmed seg \<and> CHR ''/'' \<notin> set seg \<and> seg \<noteq> ''.'' \<and> seg \<noteq> ''..'' \<and>
     \<not> go_contains seg '':''"

lemma canonical_segments_good:
  "canonical_segments segs = Inr c \<Longrightarrow> (\<forall>s\<in>set segs. CHR ''/'' \<notin> set s) \<Longrightarrow>
   \<forall>s\<in>set c. good_segment s"
proof (induction segs arbitrary: c rule: canonical_segments.induct)
  case (2 seg0 segs)
  show ?case
  proof (cases "go_trim seg0 = []")
    case True
    with 2 show ?thesis by (simp add: Let_def)
  next
    case False
    with "2.prems"(1) obtain c' where c: "c = go_trim seg0 # c'" "canonical_segments segs = Inr c'"
      and ok: "go_trim seg0 \<noteq> ''.''" "go_trim seg0 \<noteq> ''..''" "\<not> go_contains (go_trim seg0) '':''"
      by (auto simp: Let_def split: if_splits sum.splits)
    have "good_segment (go_trim seg0)"
      using False ok "2.prems"(2) by (auto simp: good_segment_def dest: subsetD [OF go_trim_set])
    with c ok False "2.IH"(2) [OF refl False _ _ c(2)] "2.prems"(2) show ?thesis by simp
  qed
qed simp

lemma canonical_segments_id: "\<forall>s\<in>set c. good_segment s \<Longrightarrow> canonical_segments c = Inr c"
  by (induction c) (auto simp: good_segment_def Let_def)

lemma good_segments_slash: "\<forall>s\<in>set c. good_segment s \<Longrightarrow> \<forall>s\<in>set c. CHR ''/'' \<notin> set s"
  by (auto simp: good_segment_def)

lemma split_path_of:
  "\<forall>s\<in>set c. good_segment s \<Longrightarrow> split_on (CHR ''/'') (path_of c) = [] # (if c = [] then [[]] else c)"
  by (auto simp: path_of_def split_join good_segments_slash)

lemma trimmed_join:
  "c \<noteq> [] \<Longrightarrow> \<forall>s\<in>set c. trimmed s \<Longrightarrow> trimmed (join_with (CHR ''/'') c)"
  by (induction "CHR ''/''" c rule: join_with.induct) (auto simp: trimmed_slash)

lemma trimmed_path_of: "\<forall>s\<in>set c. good_segment s \<Longrightarrow> trimmed (path_of c)"
  using trimmed_slash [of "[]" "join_with (CHR ''/'') c"] trimmed_slash [of "[]" "[]"] trimmed_join [of c]
  by (auto simp: path_of_def good_segment_def)

lemma normalize_path_of:
  assumes "\<forall>s\<in>set c. good_segment s"
  shows "NormalizeUserPath (path_of c) = Inr (path_of c)"
proof -
  have "has_prefix (path_of c) ''/''" "path_of c \<noteq> []" by (auto simp: path_of_def)
  moreover have "canonical_segments (split_on (CHR ''/'') (path_of c)) = Inr c"
    using assms by (auto simp: split_path_of canonical_segments_id Let_def)
  ultimately show ?thesis
    by (simp add: NormalizeUserPath_def trimmed_path_of [OF assms])
qed

lemma normalize_result:
  assumes "NormalizeUserPath raw = Inr p"
  shows "p = [] \<and> go_trim raw = [] \<or> (\<exists>c. (\<forall>s\<in>set c. good_segment s) \<and> p = path_of c)"
proof (cases "go_trim raw = []")
  case True
  with assms show ?thesis by (simp add: NormalizeUserPath_def)
next
  case False
  with assms obtain r c where c: "canonical_segments (split_on (CHR ''/'') r) = Inr c" "p = path_of c"
    by (auto simp: NormalizeUserPath_def Let_def split: sum.splits)
  have "\<forall>s\<in>set (split_on (CHR ''/'') r). CHR ''/'' \<notin> set s"
    using split_on_members by blast
  with c canonical_segments_good show ?thesis by blast
qed

lemma not_good_Nil [simp]: "\<not> good_segment []"
  by (simp add: good_segment_def)

lemma path_of_inj:
  assumes "\<forall>s\<in>set c. good_segment s" "\<forall>s\<in>set d. good_segment s" "path_of c = path_of d"
  shows "c = d"
proof -
  have "(if c = [] then [[]] else c) = (if d = [] then [[]] else d)"
    (is "?c = ?d")
  proof -
    have "[] # ?c = split_on (CHR ''/'') (path_of c)"
      by (rule split_path_of [OF assms(1), symmetric])
    also have "\<dots> = [] # ?d"
      unfolding assms(3) by (rule split_path_of [OF assms(2)])
    finally show ?thesis by (simp only: list.inject)
  qed
  moreover have "c \<noteq> [[]]" "d \<noteq> [[]]" using assms(1,2) not_good_Nil by auto
  ultimately show ?thesis by (cases "c = []"; cases "d = []") simp_all
qed

text \<open>
  Normalising a user path gives the empty string for a blank input and otherwise the
  unique canonical path of its segments (each trimmed, non-empty, without slash or colon and
  neither dot nor dot-dot); normalising again changes nothing, and two canonical paths with
  different segments are different strings.
\<close>

lemma user_path_canonical:
  assumes "NormalizeUserPath raw = Inr p"
  shows "NormalizeUserPath p = Inr p \<and>
         (p = [] \<and> go_trim raw = [] \<or>
          (\<exists>!c. (\<forall>s\<in>set c. good_segment s) \<and> p = path_of c))"
proof -
  from normalize_result [OF assms] show ?thesis
  proof
    assume "p = [] \<and> go_trim raw = []"
    then show ?thesis by (simp add: NormalizeUserPath_def)
  next
    assume "\<exists>c. (\<forall>s\<in>set c. good_segment s) \<and> p = path_of c"
    then obtain c where c: "\<forall>s\<in>set c. good_segment s" "p = path_of c" by blast
    then have "\<exists>!c. (\<forall>s\<in>set c. good_segment s) \<and> p = path_of c"
      using path_of_inj by blast
    with c normalize_path_of show ?thesis by blast
  qed
qed

theorem user_path_canonical_witness:
  "NormalizeUserPath '' team // alice/'' = Inr ''/team/alice'' \<and>
   NormalizeUserPath ''/team/alice'' = Inr ''/team/alice''"
proof -
  have n: "NormalizeUserPath '' team // alice/'' = Inr ''/team/alice''" by code_simp
  from user_path_canonical [OF n] n show ?thesis by blast
qed

section \<open>Ancestors\<close>

definition parent_path :: "string \<Rightarrow> string" where
  "parent_path current =
     (case last_index (CHR ''/'') current of
        None \<Rightarrow> ''/''
      | Some idx \<Rightarrow> if idx \<le> 0 then ''/'' else take idx current)"

function ancestors_loop :: "string \<Rightarrow> string list" where
  "ancestors_loop current =
     (if current = ''/'' then []
      else parent_path current # ancestors_loop (parent_path current))"
  by pat_completeness auto
termination
  by (relation "measure (\<lambda>s. if s = ''/'' then 0 else length s + 1)")
    (auto simp: parent_path_def split: option.splits dest: last_index_less)

declare ancestors_loop.simps [simp del]

definition UserPathAncestors :: "string \<Rightarrow> string list" where
  "UserPathAncestors path0 =
     (case NormalizeUserPath path0 of
        Inl _ \<Rightarrow> []
      | Inr path \<Rightarrow>
          if path = [] then []
          else if path = ''/'' then [''/'']
          else path # ancestors_loop path)"

lemma path_of_Nil_iff: "\<forall>s\<in>set c. good_segment s \<Longrightarrow> path_of c = ''/'' \<longleftrightarrow> c = []"
  by (cases c; cases "tl c") (auto simp: path_of_def good_segment_def)

lemma parent_path_snoc:
  assumes "\<forall>s\<in>set (c @ [x]). good_segment s"
  shows "parent_path (path_of (c @ [x])) = path_of c"
proof -
  have x: "CHR ''/'' \<notin> set x" using assms by (simp add: good_segment_def)
  show ?thesis
  proof (cases "c = []")
    case True
    then show ?thesis
      using last_index_append [OF x, of "[]"] by (simp add: path_of_def parent_path_def)
  next
    case False
    then have "path_of (c @ [x]) = path_of c @ CHR ''/'' # x"
      by (simp add: path_of_def join_with_snoc)
    with False show ?thesis
      by (simp add: parent_path_def last_index_append [OF x] path_of_def)
  qed
qed

lemma ancestors_loop_path:
  "\<forall>s\<in>set c. good_segment s \<Longrightarrow>
   path_of c # ancestors_loop (path_of c) = map (\<lambda>k. path_of (take k c)) (rev [0..<Suc (length c)])"
proof (induction c rule: rev_induct)
  case Nil
  then show ?case by (simp add: path_of_def ancestors_loop.simps [of "''/''"])
next
  case (snoc x c)
  then have "path_of (c @ [x]) \<noteq> ''/''"
    using path_of_Nil_iff [of "c @ [x]"] by simp
  then have "ancestors_loop (path_of (c @ [x])) = path_of c # ancestors_loop (path_of c)"
    using parent_path_snoc [OF snoc.prems] by (simp add: ancestors_loop.simps [of "path_of (c @ [x])"])
  moreover have "map (\<lambda>k. path_of (take k (c @ [x]))) (rev [0..<Suc (length c)])
      = map (\<lambda>k. path_of (take k c)) (rev [0..<Suc (length c)])"
    by (rule map_cong) auto
  ultimately show ?case using snoc by simp
qed

lemma ancestors_path_of:
  assumes "\<forall>s\<in>set c. good_segment s"
  shows "UserPathAncestors (path_of c) = map (\<lambda>k. path_of (take k c)) (rev [0..<Suc (length c)])"
proof (cases "c = []")
  case True
  then show ?thesis
    using normalize_path_of [of "[]"] by (simp add: UserPathAncestors_def path_of_def)
next
  case False
  with assms have "path_of c \<noteq> ''/''" "path_of c \<noteq> []"
    by (simp_all add: path_of_Nil_iff) (simp add: path_of_def)
  with assms ancestors_loop_path show ?thesis
    by (simp add: UserPathAncestors_def normalize_path_of)
qed

text \<open>
  The ancestors of a user path are exactly the prefixes of its segments, from the path
  itself down to the root; a blank or malformed path has none.
\<close>

lemma user_path_ancestors:
  "case NormalizeUserPath raw of
     Inl e \<Rightarrow> UserPathAncestors raw = []
   | Inr p \<Rightarrow>
       if p = [] then UserPathAncestors raw = []
       else \<exists>c. p = path_of c \<and> NormalizeUserPath (path_of c) = Inr (path_of c) \<and>
              UserPathAncestors raw =
                map (\<lambda>k. path_of (take k c)) (rev [0..<Suc (length c)])"
proof (cases "NormalizeUserPath raw")
  case (Inl e)
  then show ?thesis by (simp add: UserPathAncestors_def)
next
  case (Inr p)
  show ?thesis
  proof (cases "p = []")
    case True
    with Inr show ?thesis by (simp add: UserPathAncestors_def)
  next
    case False
    with normalize_result [OF Inr] obtain c where c: "\<forall>s\<in>set c. good_segment s" "p = path_of c"
      by blast
    have "UserPathAncestors raw = UserPathAncestors (path_of c)"
      using c normalize_path_of [OF c(1)] Inr by (simp add: UserPathAncestors_def)
    with c ancestors_path_of normalize_path_of [OF c(1)] False Inr show ?thesis by auto
  qed
qed

section \<open>Labels\<close>

text \<open>\<open>MergeLabels\<close>: one pass over all label sets with a \<open>seen\<close> set.\<close>

fun merge_loop :: "string list \<Rightarrow> string list \<Rightarrow> string list" where
  "merge_loop merged [] = merged"
| "merge_loop merged (label0 # labels) =
     (let label = go_trim label0
      in if label = [] then merge_loop merged labels
         else if label \<in> set merged then merge_loop merged labels
         else merge_loop (merged @ [label]) labels)"

definition MergeLabels :: "string list list \<Rightarrow> string list" where
  "MergeLabels sets = merge_loop [] (concat sets)"

lemma merge_loop_keep_first:
  "merge_loop merged labels =
     merged @ keep_first (rev merged) (filter (\<lambda>l. l \<noteq> []) (map go_trim labels))"
  by (induction merged labels rule: merge_loop.induct) (auto simp: Let_def)

lemma merge_loop_id:
  "distinct (acc @ xs) \<Longrightarrow> (\<forall>x\<in>set xs. trimmed x \<and> x \<noteq> []) \<Longrightarrow> merge_loop acc xs = acc @ xs"
  by (induction xs arbitrary: acc) auto

lemma merge_loop_append: "merge_loop acc (xs @ ys) = merge_loop (merge_loop acc xs) ys"
  by (induction acc xs rule: merge_loop.induct) (auto simp: Let_def)

lemma set_merge_loop:
  "set (merge_loop acc xs) = set acc \<union> {l. l \<noteq> [] \<and> l \<in> go_trim ` set xs}"
  by (auto simp: merge_loop_keep_first set_keep_first)

lemma distinct_merge_loop: "distinct acc \<Longrightarrow> distinct (merge_loop acc xs)"
  by (auto simp: merge_loop_keep_first set_keep_first distinct_keep_first)

text \<open>
  Merged labels are exactly the non-blank labels of the sets, trimmed, each once, in
  order of first appearance; merging with an already merged list is the same as merging the
  sets it came from.
\<close>

lemma merge_labels_spec:
  "set (MergeLabels sets) = {l. l \<noteq> [] \<and> l \<in> go_trim ` set (concat sets)} \<and>
   distinct (MergeLabels sets) \<and>
   MergeLabels (MergeLabels sets # others) = MergeLabels (sets @ others) \<and>
   MergeLabels sets =
     keep_first [] (filter (\<lambda>l. l \<noteq> []) (map go_trim (concat sets)))"
proof (intro conjI)
  show "set (MergeLabels sets) = {l. l \<noteq> [] \<and> l \<in> go_trim ` set (concat sets)}"
    by (simp add: MergeLabels_def set_merge_loop)
  show d: "distinct (MergeLabels sets)"
    by (simp add: MergeLabels_def distinct_merge_loop)
  have ne: "\<forall>x\<in>set (MergeLabels sets). trimmed x \<and> x \<noteq> []"
    by (auto simp: MergeLabels_def set_merge_loop)
  have "merge_loop [] (MergeLabels sets) = MergeLabels sets"
    using merge_loop_id [of "[]" "MergeLabels sets"] d ne by simp
  then show "MergeLabels (MergeLabels sets # others) = MergeLabels (sets @ others)"
    by (simp add: MergeLabels_def merge_loop_append)
  show "MergeLabels sets = keep_first [] (filter (\<lambda>l. l \<noteq> []) (map go_trim (concat sets)))"
    by (simp add: MergeLabels_def merge_loop_keep_first)
qed

end
