(* ===== verification/Keyring.thy ===== *)
theory Keyring
  imports Prelude
begin

text \<open>
  The API-key ring of a provider: \<open>internal/providers/keyring.go\<close>.

  The ring is shared by all requests of a provider. Its only state is an atomic 64-bit
  counter, so a call of \<open>Next\<close> is one atomic step and concurrent callers are some sequence
  of steps; \<open>handed n k\<close> is the sequence of keys the next \<open>n\<close> calls return. A nil ring is
  \<open>None\<close>.
\<close>

record keyring =
  kr_keys :: "string list"
  kr_next :: "64 word"

fun unique_keys :: "string list \<Rightarrow> string list \<Rightarrow> string list" where
  "unique_keys unique [] = unique"
| "unique_keys unique (key # keys) =
     (if key = [] then unique_keys unique keys
      else if key \<in> set unique then unique_keys unique keys
      else unique_keys (unique @ [key]) keys)"

definition NewKeyring :: "string list \<Rightarrow> keyring option" where
  "NewKeyring keys =
     (let unique = unique_keys [] keys
      in if unique = [] then None else Some \<lparr>kr_keys = unique, kr_next = 0\<rparr>)"

definition Next :: "keyring option \<Rightarrow> string \<times> keyring option" where
  "Next k =
     (case k of
        None \<Rightarrow> ([], None)
      | Some r \<Rightarrow>
          if kr_keys r = [] then ([], k)
          else if length (kr_keys r) = 1 then (kr_keys r ! 0, k)
          else
            let next' = kr_next r + 1; i = next' - 1
            in (kr_keys r ! unat (i mod of_nat (length (kr_keys r))),
                Some (r\<lparr>kr_next := next'\<rparr>)))"

definition Primary :: "keyring option \<Rightarrow> string" where
  "Primary k = (case k of None \<Rightarrow> [] | Some r \<Rightarrow> if kr_keys r = [] then [] else kr_keys r ! 0)"

definition Len :: "keyring option \<Rightarrow> nat" where
  "Len k = (case k of None \<Rightarrow> 0 | Some r \<Rightarrow> length (kr_keys r))"

definition Rotates :: "keyring option \<Rightarrow> bool" where
  "Rotates k \<longleftrightarrow> 1 < Len k"

primrec handed :: "nat \<Rightarrow> keyring option \<Rightarrow> string list" where
  "handed 0 k = []"
| "handed (Suc n) k = (let (key, k') = Next k in key # handed n k')"

section \<open>Which keys a ring holds\<close>

lemma unique_keys_set: "set (unique_keys u ks) = set u \<union> (set ks - {[]})"
  by (induction u ks rule: unique_keys.induct) auto

lemma unique_keys_distinct: "distinct u \<Longrightarrow> distinct (unique_keys u ks)"
  by (induction u ks rule: unique_keys.induct) auto

lemma NewKeyring_Some:
  assumes "NewKeyring ks = Some k"
  shows "kr_keys k \<noteq> []" "distinct (kr_keys k)" "set (kr_keys k) = set ks - {[]}" "kr_next k = 0"
proof -
  have k: "kr_keys k = unique_keys [] ks" "unique_keys [] ks \<noteq> []" "kr_next k = 0"
    using assms by (auto simp: NewKeyring_def Let_def split: if_splits)
  then show "kr_keys k \<noteq> []" "kr_next k = 0" by simp_all
  show "distinct (kr_keys k)" using k(1) by (simp add: unique_keys_distinct)
  show "set (kr_keys k) = set ks - {[]}" using k(1) by (simp add: unique_keys_set)
qed

lemma NewKeyring_None_iff: "NewKeyring ks = None \<longleftrightarrow> set ks \<subseteq> {[]}"
proof -
  have "NewKeyring ks = None \<longleftrightarrow> set (unique_keys [] ks) = {}"
    by (simp add: NewKeyring_def Let_def)
  then show ?thesis by (auto simp: unique_keys_set)
qed

section \<open>The rotation\<close>

lemma length_handed [simp]: "length (handed n k) = n"
  by (induction n arbitrary: k) (auto simp: split_beta Let_def)

lemma Next_rotates:
  assumes "kr_keys r \<noteq> []" and "length (kr_keys r) < 2 ^ 64" and "unat (kr_next r) + 1 < 2 ^ 64"
  shows "\<exists>r'. Next (Some r) = (kr_keys r ! (unat (kr_next r) mod length (kr_keys r)), Some r') \<and>
           kr_keys r' = kr_keys r \<and>
           (if length (kr_keys r) = 1 then r' = r else unat (kr_next r') = unat (kr_next r) + 1)"
proof -
  have "unat (of_nat (length (kr_keys r)) :: 64 word) = length (kr_keys r)"
    using assms(2) by (simp add: unsigned_of_nat take_bit_nat_eq_self)
  moreover have "unat (kr_next r + 1) = unat (kr_next r) + 1"
    using assms(3) by (simp add: unat_add_lem [THEN iffD1])
  ultimately show ?thesis
    using assms(1) by (auto simp: Next_def Let_def unat_mod)
qed

lemma handed_nth:
  "kr_keys r \<noteq> [] \<Longrightarrow> length (kr_keys r) < 2 ^ 64 \<Longrightarrow> unat (kr_next r) + n < 2 ^ 64 \<Longrightarrow>
   handed n (Some r) = map (\<lambda>i. kr_keys r ! ((unat (kr_next r) + i) mod length (kr_keys r))) [0..<n]"
proof (induction n arbitrary: r)
  case (Suc n)
  obtain r' where r': "Next (Some r) = (kr_keys r ! (unat (kr_next r) mod length (kr_keys r)), Some r')"
    "kr_keys r' = kr_keys r"
    "if length (kr_keys r) = 1 then r' = r else unat (kr_next r') = unat (kr_next r) + 1"
    using Next_rotates [of r] Suc.prems by auto
  have IH: "handed n (Some r') =
      map (\<lambda>i. kr_keys r ! ((unat (kr_next r') + i) mod length (kr_keys r))) [0..<n]"
    using Suc.IH [of r'] Suc.prems r'(2,3) by (auto split: if_splits)
  have "handed n (Some r') =
      map (\<lambda>i. kr_keys r ! ((unat (kr_next r) + Suc i) mod length (kr_keys r))) [0..<n]"
  proof (cases "length (kr_keys r) = 1")
    case True
    with IH r'(3) show ?thesis by simp
  next
    case False
    with IH r'(3) show ?thesis by simp
  qed
  then show ?case
    using r'(1) by (simp add: map_upt_Suc del: upt_Suc)
qed simp

lemma handed_window:
  assumes "NewKeyring ks = Some k" and "length (kr_keys k) < 2 ^ 64" and "N < 2 ^ 64"
    and "j + length (kr_keys k) \<le> N"
  shows "take (length (kr_keys k)) (drop j (handed N (Some k))) = rotate j (kr_keys k)"
proof (rule nth_equalityI)
  let ?n = "length (kr_keys k)"
  show "length (take ?n (drop j (handed N (Some k)))) = length (rotate j (kr_keys k))"
    using assms(4) by simp
  fix i assume "i < length (take ?n (drop j (handed N (Some k))))"
  then have i: "i < ?n" "j + i < N" using assms(4) by auto
  have "handed N (Some k) = map (\<lambda>i. kr_keys k ! (i mod ?n)) [0..<N]"
    using handed_nth [of k N] NewKeyring_Some [OF assms(1)] assms(2,3) by simp
  with i show "take ?n (drop j (handed N (Some k))) ! i = rotate j (kr_keys k) ! i"
    by (simp add: nth_rotate ac_simps)
qed

text \<open>
  C16. A ring built from a provider's keys holds each non-empty key once, there is none exactly
  when there is no usable key, and rotation is fair: wherever one starts looking, \<open>Len\<close>
  consecutive calls of \<open>Next\<close> hand out every key exactly once, in ring order (for fewer than
  \<open>2 ^ 64\<close> calls, before the counter wraps).
\<close>

theorem keyring_fair:
  assumes "NewKeyring ks = Some k" and "Len (Some k) < 2 ^ 64" and "N < 2 ^ 64"
    and "j + Len (Some k) \<le> N"
  shows "set (kr_keys k) = set ks - {[]} \<and> distinct (kr_keys k) \<and>
         Primary (Some k) = hd (kr_keys k) \<and>
         take (Len (Some k)) (drop j (handed N (Some k))) = rotate j (kr_keys k) \<and>
         mset (take (Len (Some k)) (drop j (handed N (Some k)))) = mset_set (set ks - {[]})"
proof -
  note n = NewKeyring_Some [OF assms(1)]
  have w: "take (Len (Some k)) (drop j (handed N (Some k))) = rotate j (kr_keys k)"
    using handed_window [OF assms(1)] assms(2-4) by (simp add: Len_def)
  have "mset (rotate j (kr_keys k)) = mset_set (set (rotate j (kr_keys k)))"
    using n(2) by (metis mset_set_set distinct_rotate)
  with w n show ?thesis
    by (simp add: Primary_def hd_conv_nth)
qed

theorem keyring_fair_witness:
  "take 2 (drop 1 (handed 5 (NewKeyring [''a'', [], ''b'', ''a'']))) = [''b'', ''a'']"
proof -
  have k: "NewKeyring [''a'', [], ''b'', ''a''] = Some \<lparr>kr_keys = [''a'', ''b''], kr_next = 0\<rparr>"
    by (simp add: NewKeyring_def Let_def)
  have l: "Len (Some \<lparr>kr_keys = [''a'', ''b''], kr_next = 0\<rparr>) = 2"
    by (simp add: Len_def)
  from keyring_fair [OF k, of 5 1, unfolded l] k show ?thesis by simp
qed

end
