(* ===== verification/Registry.thy ===== *)
theory Registry
  imports GatewayErrors Selectors "HOL-Library.AList"
begin

text \<open>
  The model registry: \<open>internal/providers/registry.go\<close>, \<open>configured_models.go\<close> and the
  inventory handling of \<open>registry_init.go\<close> and \<open>registry_provider_refresh.go\<close>.

  The registry keeps, per configured provider, the models it serves, the global map from bare
  model IDs to the provider that wins them, the runtime state of each provider, and lazily
  built views (sorted lists, the selector index). A provider object is a number; a Go map is
  an association list, whose order stands for the unspecified iteration order. Every method
  holds the registry's lock and is one step of the state. What the providers answer and what
  the metadata lists say are arguments of the steps that read them.
\<close>

section \<open>Data\<close>

type_synonym provider = nat

record pricing_tier =
  pt_UpToTokens :: "rat option"
  pt_UpToMtok :: "rat option"
  pt_InputPerMtok :: "rat option"
  pt_OutputPerMtok :: "rat option"

record model_pricing =
  mp_Currency :: string
  mp_InputPerMtok :: "rat option"
  mp_OutputPerMtok :: "rat option"
  mp_CachedInputPerMtok :: "rat option"
  mp_CacheWritePerMtok :: "rat option"
  mp_ReasoningOutputPerMtok :: "rat option"
  mp_BatchInputPerMtok :: "rat option"
  mp_BatchOutputPerMtok :: "rat option"
  mp_AudioInputPerMtok :: "rat option"
  mp_AudioOutputPerMtok :: "rat option"
  mp_PerImage :: "rat option"
  mp_InputPerImage :: "rat option"
  mp_PerSecondInput :: "rat option"
  mp_PerSecondOutput :: "rat option"
  mp_PerCharacterInput :: "rat option"
  mp_PerRequest :: "rat option"
  mp_PerPage :: "rat option"
  mp_Tiers :: "pricing_tier list"

record model_metadata =
  md_Modes :: "string list"
  md_Categories :: "string list"
  md_Pricing :: "model_pricing option"

record core_model =
  cm_ID :: string
  cm_Object :: string
  cm_OwnedBy :: string
  cm_Created :: int
  cm_Metadata :: "model_metadata option"

record model_info =
  mi_Model :: core_model
  mi_Provider :: provider
  mi_ProviderName :: string
  mi_ProviderType :: string

record runtime_state =
  rt_registered :: bool
  rt_lastModelFetchAt :: go_time
  rt_lastModelFetchSuccessAt :: go_time
  rt_lastModelFetchError :: string
  rt_lastAvailabilityCheckAt :: go_time
  rt_lastAvailabilityOKAt :: go_time
  rt_lastAvailabilityError :: string
  rt_inventoryStale :: bool

definition zero_runtime :: runtime_state where
  "zero_runtime =
     \<lparr>rt_registered = False, rt_lastModelFetchAt = 0, rt_lastModelFetchSuccessAt = 0,
      rt_lastModelFetchError = [], rt_lastAvailabilityCheckAt = 0, rt_lastAvailabilityOKAt = 0,
      rt_lastAvailabilityError = [], rt_inventoryStale = False\<rparr>"

record model_with_provider =
  mw_Model :: core_model
  mw_ProviderType :: string
  mw_ProviderName :: string
  mw_Selector :: string

datatype configured_mode = ModeFallback | ModeAllowlist

type_synonym provider_models = "(string \<times> model_info) list"
type_synonym inventory = "(string \<times> provider_models) list"
type_synonym selector_index = "(string \<times> model_selector) list"

record registry =
  rg_models :: provider_models
  rg_modelsByProvider :: inventory
  rg_providers :: "provider list"
  rg_providerTypes :: "(provider \<times> string) list"
  rg_providerNames :: "(provider \<times> string) list"
  rg_providerRuntime :: "(string \<times> runtime_state) list"
  rg_initialized :: bool
  rg_configuredProviderModels :: "(string \<times> string list) list"
  rg_configuredProviderModelsMode :: configured_mode
  rg_sortedModels :: "core_model list option"
  rg_sortedModelsWithProvider :: "model_with_provider list option"
  rg_qualified :: "(selector_index \<times> selector_index) option"

text \<open>\<open>m[k]\<close> of a Go map: the zero value when the key is missing.\<close>

definition get_or :: "'v \<Rightarrow> ('k \<times> 'v) list \<Rightarrow> 'k \<Rightarrow> 'v" where
  "get_or zero m k = (case map_of m k of None \<Rightarrow> zero | Some v \<Rightarrow> v)"

definition NewModelRegistry :: registry where
  "NewModelRegistry =
     \<lparr>rg_models = [], rg_modelsByProvider = [], rg_providers = [], rg_providerTypes = [],
      rg_providerNames = [], rg_providerRuntime = [], rg_initialized = False,
      rg_configuredProviderModels = [], rg_configuredProviderModelsMode = ModeFallback,
      rg_sortedModels = None, rg_sortedModelsWithProvider = None, rg_qualified = None\<rparr>"

definition invalidateSortedCaches :: "registry \<Rightarrow> registry" where
  "invalidateSortedCaches r =
     r\<lparr>rg_sortedModels := None, rg_sortedModelsWithProvider := None, rg_qualified := None\<rparr>"

section \<open>Registration\<close>

definition RegisterProviderWithNameAndType ::
  "registry \<Rightarrow> provider \<Rightarrow> string \<Rightarrow> string \<Rightarrow> registry" where
  "RegisterProviderWithNameAndType r provider providerName0 providerType0 =
     (let providerType = go_trim providerType0;
          name = go_trim providerName0;
          providerName =
            (if name = []
             then (if providerType \<noteq> [] then providerType
                   else ''provider-'' @ decimal (length (rg_providers r) + 1))
             else name);
          state = get_or zero_runtime (rg_providerRuntime r) providerName
      in r\<lparr>rg_providers := rg_providers r @ [provider],
           rg_providerTypes := AList.update provider providerType (rg_providerTypes r),
           rg_providerNames := AList.update provider providerName (rg_providerNames r),
           rg_providerRuntime :=
             AList.update providerName (state\<lparr>rt_registered := True\<rparr>) (rg_providerRuntime r)\<rparr>)"

definition provider_name :: "registry \<Rightarrow> provider \<Rightarrow> string" where
  "provider_name r p = go_trim (get_or [] (rg_providerNames r) p)"

definition provider_type :: "registry \<Rightarrow> provider \<Rightarrow> string" where
  "provider_type r p = go_trim (get_or [] (rg_providerTypes r) p)"

definition reg_ProviderNames :: "registry \<Rightarrow> string list" where
  "reg_ProviderNames r = filter (\<lambda>n. n \<noteq> []) (map (provider_name r) (rg_providers r))"

definition ProviderTypes :: "registry \<Rightarrow> string list" where
  "ProviderTypes r =
     sort (keep_first [] (filter (\<lambda>t. t \<noteq> []) (map (provider_type r) (rg_providers r))))"

definition GetProviderNameForType :: "registry \<Rightarrow> string \<Rightarrow> string" where
  "GetProviderNameForType r providerType0 =
     (let providerType = go_trim providerType0
      in if providerType = [] then []
         else case find (\<lambda>p. provider_type r p = providerType) (rg_providers r) of
             None \<Rightarrow> [] | Some p \<Rightarrow> provider_name r p)"

definition GetProviderTypeForName :: "registry \<Rightarrow> string \<Rightarrow> string" where
  "GetProviderTypeForName r providerName0 =
     (let providerName = go_trim providerName0
      in if providerName = [] then []
         else case find (\<lambda>p. provider_name r p = providerName) (rg_providers r) of
             None \<Rightarrow> [] | Some p \<Rightarrow> provider_type r p)"

definition ProviderByType :: "registry \<Rightarrow> string \<Rightarrow> provider option" where
  "ProviderByType r providerType0 =
     (let providerType = go_trim providerType0
      in if providerType = [] then None
         else find (\<lambda>p. get_or [] (rg_providerTypes r) p = providerType) (rg_providers r))"

definition ProviderByName :: "registry \<Rightarrow> string \<Rightarrow> provider option" where
  "ProviderByName r providerName0 =
     (let providerName = go_trim providerName0
      in if providerName = [] then None
         else find (\<lambda>p. provider_name r p = providerName) (rg_providers r))"

definition hasConfiguredProviderNameLocked :: "registry \<Rightarrow> string \<Rightarrow> bool" where
  "hasConfiguredProviderNameLocked r providerName0 =
     (let providerName = go_trim providerName0
      in providerName \<noteq> [] \<and>
         list_ex (\<lambda>(p, configuredName). configuredName = providerName) (rg_providerNames r))"

section \<open>Looking a model up\<close>

definition splitModelSelector :: "string \<Rightarrow> string \<times> string" where
  "splitModelSelector model0 =
     (let model = go_trim model0
      in if model = [] then ([], [])
         else case cut (CHR ''/'') model of
             None \<Rightarrow> ([], model)
           | Some (before, after) \<Rightarrow>
               (let providerName = go_trim before; modelID = go_trim after
                in if providerName = [] \<or> modelID = [] then ([], model)
                   else (providerName, modelID)))"

definition providerModelInfo :: "provider_models \<Rightarrow> string \<Rightarrow> string \<Rightarrow> model_info option" where
  "providerModelInfo providerModels modelID0 rawModel0 =
     (let modelID = go_trim modelID0; rawModel = go_trim rawModel0
      in case map_of providerModels modelID of
           Some info \<Rightarrow> Some info
         | None \<Rightarrow> if rawModel \<noteq> [] \<and> rawModel \<noteq> modelID
                   then map_of providerModels rawModel else None)"

text \<open>\<open>GetModel\<close>. The readers \<open>GetProvider\<close>, \<open>LookupModel\<close>, \<open>Supports\<close>, \<open>GetProviderType\<close>
  and \<open>GetProviderName\<close> repeat its body and return a part of the result.\<close>

definition GetModel :: "registry \<Rightarrow> string \<Rightarrow> model_info option" where
  "GetModel r model =
     (let (providerName, modelID) = splitModelSelector model;
          qualified =
            (if providerName \<noteq> []
             then (case map_of (rg_modelsByProvider r) providerName of
                     None \<Rightarrow> None
                   | Some providerModels \<Rightarrow> providerModelInfo providerModels modelID model)
             else None)
      in case qualified of
           Some info \<Rightarrow> Some info
         | None \<Rightarrow>
             if providerName \<noteq> [] \<and> hasConfiguredProviderNameLocked r providerName then None
             else map_of (rg_models r) model)"

definition GetProvider :: "registry \<Rightarrow> string \<Rightarrow> provider option" where
  "GetProvider r model = map_option mi_Provider (GetModel r model)"

definition LookupModel :: "registry \<Rightarrow> string \<Rightarrow> core_model option" where
  "LookupModel r model = map_option mi_Model (GetModel r model)"

definition Supports :: "registry \<Rightarrow> string \<Rightarrow> bool" where
  "Supports r model \<longleftrightarrow> GetModel r model \<noteq> None"

definition GetProviderType :: "registry \<Rightarrow> string \<Rightarrow> string" where
  "GetProviderType r model =
     (case GetModel r model of None \<Rightarrow> [] | Some info \<Rightarrow> mi_ProviderType info)"

definition GetProviderName :: "registry \<Rightarrow> string \<Rightarrow> string" where
  "GetProviderName r model =
     (case GetModel r model of None \<Rightarrow> [] | Some info \<Rightarrow> go_trim (mi_ProviderName info))"

definition stale :: "registry \<Rightarrow> string \<Rightarrow> bool" where
  "stale r providerName = rt_inventoryStale (get_or zero_runtime (rg_providerRuntime r) providerName)"

definition ModelAvailable :: "registry \<Rightarrow> string \<Rightarrow> bool" where
  "ModelAvailable r model =
     (let (providerName, modelID) = splitModelSelector model;
          qualified =
            (if providerName \<noteq> []
             then (case map_of (rg_modelsByProvider r) providerName of
                     None \<Rightarrow> None
                   | Some providerModels \<Rightarrow> providerModelInfo providerModels modelID model)
             else None)
      in case qualified of
           Some info \<Rightarrow> \<not> stale r providerName
         | None \<Rightarrow>
             if providerName \<noteq> [] \<and> hasConfiguredProviderNameLocked r providerName then False
             else case map_of (rg_models r) model of
                 Some info \<Rightarrow> \<not> stale r (mi_ProviderName info)
               | None \<Rightarrow> False)"

definition ModelCount :: "registry \<Rightarrow> nat" where
  "ModelCount r = length (rg_models r)"

section \<open>Lists and the selector index\<close>

definition qualifyPublicModelID :: "string \<Rightarrow> string \<Rightarrow> string" where
  "qualifyPublicModelID providerName0 modelID0 =
     (let providerName = go_trim providerName0; modelID = go_trim modelID0
      in if providerName = [] then modelID
         else if modelID = [] then providerName
         else providerName @ ''/'' @ modelID)"

definition ListModels :: "registry \<Rightarrow> core_model list \<times> registry" where
  "ListModels r =
     (case rg_sortedModels r of
        Some cached \<Rightarrow> (cached, r)
      | None \<Rightarrow>
          let models = sort_key cm_ID (map (\<lambda>(k, info). mi_Model info) (rg_models r))
          in (models, r\<lparr>rg_sortedModels := Some models\<rparr>))"

definition listing_of :: "inventory \<Rightarrow> model_with_provider list" where
  "listing_of catalog =
     sort_key mw_Selector
       (concat (map (\<lambda>(providerName, providerModels).
          map (\<lambda>(modelID, info).
            let publicProviderName =
                  (if mi_ProviderName info \<noteq> [] then mi_ProviderName info else providerName)
            in \<lparr>mw_Model = mi_Model info, mw_ProviderType = mi_ProviderType info,
                mw_ProviderName = publicProviderName,
                mw_Selector = qualifyPublicModelID publicProviderName modelID\<rparr>)
          providerModels) catalog))"

definition ListModelsWithProvider :: "registry \<Rightarrow> model_with_provider list \<times> registry" where
  "ListModelsWithProvider r =
     (case rg_sortedModelsWithProvider r of
        Some cached \<Rightarrow> (cached, r)
      | None \<Rightarrow>
          let result = listing_of (rg_modelsByProvider r)
          in (result, r\<lparr>rg_sortedModelsWithProvider := Some result\<rparr>))"

definition isAudioOnlyModel :: "core_model \<Rightarrow> bool" where
  "isAudioOnlyModel model =
     (case cm_Metadata model of
        None \<Rightarrow> False
      | Some md \<Rightarrow>
          if md_Modes md = [] then False
          else list_all (\<lambda>mode. mode = ''audio_speech'' \<or> mode = ''audio_transcription'') (md_Modes md))"

definition providerCanServeModel :: "(provider \<Rightarrow> bool) \<Rightarrow> model_info \<Rightarrow> bool" where
  \<comment> \<open>the first argument is the type test for \<open>core.AudioProvider\<close>\<close>
  "providerCanServeModel audio info =
     (if \<not> isAudioOnlyModel (mi_Model info) then True else audio (mi_Provider info))"

definition ListPublicModels :: "(provider \<Rightarrow> bool) \<Rightarrow> registry \<Rightarrow> core_model list" where
  "ListPublicModels audio r =
     sort_key cm_ID
       (concat (map (\<lambda>(providerName, models).
          map (\<lambda>(modelID, info).
            (mi_Model info)\<lparr>cm_ID := qualifyPublicModelID providerName modelID,
                            cm_OwnedBy := providerName\<rparr>)
          (filter (\<lambda>(modelID, info). providerCanServeModel audio info) models))
        (rg_modelsByProvider r)))"

text \<open>One entry of \<open>buildSelectorIndexLocked\<close>, then the two loops over the catalog.\<close>

definition index_entry ::
  "string \<Rightarrow> model_info \<Rightarrow> selector_index \<times> selector_index \<Rightarrow> selector_index \<times> selector_index" where
  "index_entry providerName info idx =
     (let (byName, byType) = idx;
          publicName = (if mi_ProviderName info \<noteq> [] then go_trim (mi_ProviderName info)
                        else go_trim providerName);
          id = go_trim (cm_ID (mi_Model info))
      in if publicName = [] \<or> id = [] then (byName, byType)
         else
           let sel = \<lparr>ms_Model = cm_ID (mi_Model info), ms_Provider = publicName\<rparr>;
               byName' = AList.update (publicName @ ''/'' @ id) sel byName;
               providerType = go_trim (mi_ProviderType info);
               typeKey = providerType @ ''/'' @ id
           in if providerType = [] then (byName', byType)
              else case map_of byType typeKey of
                  None \<Rightarrow> (byName', AList.update typeKey sel byType)
                | Some existing \<Rightarrow>
                    if ms_Provider sel < ms_Provider existing
                    then (byName', AList.update typeKey sel byType)
                    else (byName', byType))"

definition flatten_inventory :: "inventory \<Rightarrow> (string \<times> model_info) list" where
  "flatten_inventory catalog =
     concat (map (\<lambda>(providerName, models). map (\<lambda>(k, info). (providerName, info)) models) catalog)"

definition build_index :: "inventory \<Rightarrow> selector_index \<times> selector_index" where
  "build_index catalog =
     foldl (\<lambda>idx (providerName, info). index_entry providerName info idx) ([], [])
       (flatten_inventory catalog)"

definition buildSelectorIndexLocked :: "registry \<Rightarrow> registry" where
  "buildSelectorIndexLocked r =
     (case rg_qualified r of
        Some _ \<Rightarrow> r
      | None \<Rightarrow> r\<lparr>rg_qualified := Some (build_index (rg_modelsByProvider r))\<rparr>)"

definition lookupSelectorIndex ::
  "selector_index \<times> selector_index \<Rightarrow> string \<Rightarrow> model_selector option" where
  "lookupSelectorIndex idx key =
     (case map_of (fst idx) key of
        Some sel \<Rightarrow> Some sel
      | None \<Rightarrow> map_of (snd idx) key)"

definition ResolveProviderSelector ::
  "registry \<Rightarrow> string \<Rightarrow> string \<Rightarrow> model_selector option \<times> registry" where
  "ResolveProviderSelector r segment0 modelID0 =
     (let segment = go_trim segment0; modelID = go_trim modelID0
      in if segment = [] \<or> modelID = [] then (None, r)
         else
           let key = segment @ ''/'' @ modelID
           in case rg_qualified r of
                Some idx \<Rightarrow> (lookupSelectorIndex idx key, r)
              | None \<Rightarrow>
                  let r' = buildSelectorIndexLocked r
                  in (case rg_qualified r' of
                        Some idx \<Rightarrow> lookupSelectorIndex idx key | None \<Rightarrow> None, r'))"

section \<open>The global map of bare model IDs\<close>

definition addProviderModels :: "provider_models \<Rightarrow> provider_models \<Rightarrow> provider_models" where
  "addProviderModels global providerModels =
     foldl (\<lambda>global modelID.
         if map_of global modelID \<noteq> None then global
         else case map_of providerModels modelID of
             None \<Rightarrow> global
           | Some info \<Rightarrow> AList.update modelID info global)
       global (sort (map fst providerModels))"

definition rebuildGlobalModelMap :: "inventory \<Rightarrow> string list \<Rightarrow> provider_models" where
  "rebuildGlobalModelMap modelsByProvider providerOrderNames =
     (let add = (\<lambda>global providerName. addProviderModels global (get_or [] modelsByProvider providerName));
          global = foldl add [] providerOrderNames;
          remaining = sort (filter (\<lambda>n. n \<notin> set providerOrderNames) (map fst modelsByProvider))
      in foldl add global remaining)"

definition providerOrderNamesLocked :: "registry \<Rightarrow> string list" where
  "providerOrderNamesLocked r = filter (\<lambda>n. n \<noteq> []) (map (provider_name r) (rg_providers r))"

definition freshFirstProviderOrderLocked :: "registry \<Rightarrow> string list" where
  "freshFirstProviderOrderLocked r =
     (let names = providerOrderNamesLocked r
      in filter (\<lambda>n. \<not> stale r n) names @ filter (stale r) names)"

definition refresh_views :: "registry \<Rightarrow> registry" where
  \<comment> \<open>the two lines that end every change of the inventory\<close>
  "refresh_views r =
     invalidateSortedCaches
       (r\<lparr>rg_models := rebuildGlobalModelMap (rg_modelsByProvider r) (freshFirstProviderOrderLocked r)\<rparr>)"

section \<open>Runtime state\<close>

definition RecordAvailabilityCheck ::
  "registry \<Rightarrow> go_time \<Rightarrow> string \<Rightarrow> go_error option \<Rightarrow> registry" where
  "RecordAvailabilityCheck r now providerName0 err =
     (let providerName = go_trim providerName0
      in if providerName = [] then r
         else
           let state = (get_or zero_runtime (rg_providerRuntime r) providerName)
                 \<lparr>rt_registered := True, rt_lastAvailabilityCheckAt := now\<rparr>;
               state = (case err of
                   Some e \<Rightarrow> state\<lparr>rt_lastAvailabilityError := error_string e\<rparr>
                 | None \<Rightarrow> state\<lparr>rt_lastAvailabilityOKAt := now, rt_lastAvailabilityError := []\<rparr>)
           in r\<lparr>rg_providerRuntime := AList.update providerName state (rg_providerRuntime r)\<rparr>)"

definition healthy_alternative :: "registry \<Rightarrow> string \<Rightarrow> bool" where
  "healthy_alternative r providerName =
     list_ex (\<lambda>provider.
       let name = provider_name r provider;
           state = get_or zero_runtime (rg_providerRuntime r) name
       in name \<noteq> [] \<and> name \<noteq> providerName \<and> rt_registered state \<and> \<not> rt_inventoryStale state \<and>
          go_trim (rt_lastModelFetchError state) = [] \<and>
          go_trim (rt_lastAvailabilityError state) = [] \<and>
          get_or [] (rg_modelsByProvider r) name \<noteq> [])
     (rg_providers r)"

definition set_stale :: "string \<Rightarrow> bool \<Rightarrow> registry \<Rightarrow> registry" where
  "set_stale providerName b r =
     r\<lparr>rg_providerRuntime := AList.update providerName
         ((get_or zero_runtime (rg_providerRuntime r) providerName)\<lparr>rt_inventoryStale := b\<rparr>)
         (rg_providerRuntime r)\<rparr>"

definition markProviderInventoryStale :: "registry \<Rightarrow> string \<Rightarrow> registry" where
  "markProviderInventoryStale r providerName0 =
     (let providerName = go_trim providerName0
      in if providerName = [] then r
         else if get_or [] (rg_modelsByProvider r) providerName = [] \<or> stale r providerName then r
         else if \<not> healthy_alternative r providerName then r
         else refresh_views (set_stale providerName True r))"

definition FailedProviderNames :: "registry \<Rightarrow> string list" where
  "FailedProviderNames r =
     filter (\<lambda>providerName.
         providerName \<noteq> [] \<and>
         (let state = get_or zero_runtime (rg_providerRuntime r) providerName
          in \<not> (go_trim (rt_lastModelFetchError state) = [] \<and>
                go_trim (rt_lastAvailabilityError state) = [])))
       (map (provider_name r) (rg_providers r))"

definition apply_runtime_update :: "runtime_state \<Rightarrow> runtime_state \<Rightarrow> runtime_state" where
  "apply_runtime_update update current =
     (let c = current\<lparr>rt_registered := (rt_registered update \<or> rt_registered current)\<rparr>;
          c = (if rt_lastModelFetchAt update \<noteq> 0
               then c\<lparr>rt_lastModelFetchAt := rt_lastModelFetchAt update,
                      rt_lastModelFetchError := go_trim (rt_lastModelFetchError update)\<rparr> else c);
          c = (if rt_lastModelFetchSuccessAt update \<noteq> 0
               then c\<lparr>rt_lastModelFetchSuccessAt := rt_lastModelFetchSuccessAt update\<rparr> else c);
          c = (if rt_lastAvailabilityCheckAt update \<noteq> 0
               then c\<lparr>rt_lastAvailabilityCheckAt := rt_lastAvailabilityCheckAt update,
                      rt_lastAvailabilityError := go_trim (rt_lastAvailabilityError update)\<rparr> else c)
      in if rt_lastAvailabilityOKAt update \<noteq> 0
         then c\<lparr>rt_lastAvailabilityOKAt := rt_lastAvailabilityOKAt update,
                rt_lastAvailabilityError := []\<rparr> else c)"

definition applyProviderRuntimeUpdatesLocked ::
  "registry \<Rightarrow> (string \<times> runtime_state) list \<Rightarrow> registry" where
  "applyProviderRuntimeUpdatesLocked r updates =
     foldl (\<lambda>r (providerName, update).
         r\<lparr>rg_providerRuntime := AList.update providerName
             (apply_runtime_update update (get_or zero_runtime (rg_providerRuntime r) providerName))
             (rg_providerRuntime r)\<rparr>)
       r updates"

end
