(* ===== verification/RegistryRefresh.thy ===== *)
theory RegistryRefresh
  imports Registry
begin

text \<open>
  How the registry's inventory changes: \<open>internal/providers/registry_init.go\<close>,
  \<open>registry_provider_refresh.go\<close> and \<open>configured_models.go\<close>.

  A refresh asks every provider (or the failed ones) for its models, aggregates the answers in
  registration order and applies them in one step under the lock. The answers are arguments
  (\<open>provider_answer\<close>); so is \<open>enrich\<close>, the metadata a model gets from the model list and the
  configuration (\<open>registry_metadata.go\<close>), which replaces metadata only.
\<close>

section \<open>Configured models\<close>

definition normalizeConfiguredProviderModels :: "string list \<Rightarrow> string list" where
  "normalizeConfiguredProviderModels models =
     keep_first [] (filter (\<lambda>m. m \<noteq> []) (map go_trim models))"

definition SetProviderConfiguredModels :: "registry \<Rightarrow> string \<Rightarrow> string list \<Rightarrow> registry" where
  "SetProviderConfiguredModels r providerName0 models =
     (let providerName = go_trim providerName0
      in if providerName = [] then r
         else
           let normalized = normalizeConfiguredProviderModels models
           in if normalized = []
              then r\<lparr>rg_configuredProviderModels :=
                       AList.delete providerName (rg_configuredProviderModels r)\<rparr>
              else r\<lparr>rg_configuredProviderModels :=
                       AList.update providerName normalized (rg_configuredProviderModels r)\<rparr>)"

definition SetConfiguredProviderModelsMode :: "registry \<Rightarrow> configured_mode \<Rightarrow> registry" where
  "SetConfiguredProviderModelsMode r mode = r\<lparr>rg_configuredProviderModelsMode := mode\<rparr>"

datatype apply_reason =
    NotApplied
  | ReasonAllowlist
  | ReasonUpstreamError
  | ReasonUpstreamNil
  | ReasonUpstreamEmpty

text \<open>\<open>byID\<close>: the upstream models by trimmed ID, the last one of an ID winning.\<close>

definition models_by_id :: "core_model list \<Rightarrow> (string \<times> core_model) list" where
  "models_by_id models =
     foldl (\<lambda>byID model.
         let modelID = go_trim (cm_ID model)
         in if modelID = [] then byID else AList.update modelID model byID)
       [] models"

definition configured_model ::
  "string \<Rightarrow> int \<Rightarrow> (string \<times> core_model) list \<Rightarrow> string \<Rightarrow> core_model" where
  "configured_model owner fallbackCreated byID modelID =
     (case map_of byID modelID of
        None \<Rightarrow> \<lparr>cm_ID = modelID, cm_Object = ''model'', cm_OwnedBy = owner,
                 cm_Created = fallbackCreated, cm_Metadata = None\<rparr>
      | Some model \<Rightarrow>
          model\<lparr>cm_ID := (if go_trim (cm_ID model) = [] then modelID else go_trim (cm_ID model)),
                cm_Object := (if go_trim (cm_Object model) = [] then ''model'' else cm_Object model),
                cm_OwnedBy := (if go_trim (cm_OwnedBy model) = [] then owner else cm_OwnedBy model),
                cm_Created := (if cm_Created model = 0 then fallbackCreated else cm_Created model)\<rparr>)"

text \<open>A \<open>*core.ModelsResponse\<close> is \<open>None\<close> for nil and the list of its models otherwise.
  \<open>now_unix\<close> is the clock in seconds.\<close>

definition configuredProviderModelsResponse ::
  "string \<Rightarrow> string \<Rightarrow> string list \<Rightarrow> core_model list option \<Rightarrow> int \<Rightarrow> int \<Rightarrow> core_model list" where
  "configuredProviderModelsResponse providerName providerType configuredModels upstream
     fallbackCreated0 now_unix =
     (let byID = (case upstream of None \<Rightarrow> [] | Some models \<Rightarrow> models_by_id models);
          owner = (if go_trim providerType = [] then go_trim providerName else go_trim providerType);
          fallbackCreated = (if fallbackCreated0 \<le> 0 then now_unix else fallbackCreated0)
      in map (configured_model owner fallbackCreated byID) configuredModels)"

definition applyConfiguredProviderModels ::
  "string \<Rightarrow> string \<Rightarrow> configured_mode \<Rightarrow> string list \<Rightarrow> core_model list option \<Rightarrow>
   go_error option \<Rightarrow> int \<Rightarrow> int \<Rightarrow> core_model list option \<times> apply_reason" where
  "applyConfiguredProviderModels providerName providerType mode configuredModels upstream
     upstreamErr fallbackCreated now_unix =
     (if configuredModels = [] then (upstream, NotApplied)
      else
        let response = Some (configuredProviderModelsResponse providerName providerType
                               configuredModels upstream fallbackCreated now_unix)
        in if mode = ModeAllowlist then (response, ReasonAllowlist)
           else if upstreamErr \<noteq> None then (response, ReasonUpstreamError)
           else case upstream of
               None \<Rightarrow> (response, ReasonUpstreamNil)
             | Some data \<Rightarrow> if data = [] then (response, ReasonUpstreamEmpty)
                            else (upstream, NotApplied))"

section \<open>Fetching\<close>

record provider_answer =
  pa_start :: go_time
  pa_end :: go_time
  pa_now :: go_time
  pa_models :: "core_model list option"
  pa_err :: "go_error option"

record fetch_result =
  fr_resp :: "core_model list option"
  fr_configuredReason :: apply_reason
  fr_fetchAt :: go_time
  fr_err :: "go_error option"

definition unix_seconds :: "go_time \<Rightarrow> int" where
  "unix_seconds t = t div second - 62135596800"

definition fetchProviderInventory ::
  "provider_answer \<Rightarrow> string \<Rightarrow> string \<Rightarrow> configured_mode \<Rightarrow> string list \<Rightarrow> fetch_result" where
  "fetchProviderInventory ans providerName providerType mode configuredModels =
     (if mode = ModeAllowlist \<and> 0 < length configuredModels
      then (case applyConfiguredProviderModels providerName providerType mode configuredModels
                   None None (unix_seconds (pa_start ans)) (unix_seconds (pa_now ans)) of
              (resp, reason) \<Rightarrow>
                \<lparr>fr_resp = resp, fr_configuredReason = reason, fr_fetchAt = pa_start ans,
                 fr_err = None\<rparr>)
      else (case applyConfiguredProviderModels providerName providerType mode configuredModels
                   (pa_models ans) (pa_err ans) (unix_seconds (pa_end ans))
                   (unix_seconds (pa_now ans)) of
              (resp, reason) \<Rightarrow>
                \<lparr>fr_resp = resp, fr_configuredReason = reason, fr_fetchAt = pa_end ans,
                 fr_err = pa_err ans\<rparr>))"

record fetched_inventory =
  fi_models :: provider_models
  fi_modelsByProvider :: inventory
  fi_runtimeUpdates :: "(string \<times> runtime_state) list"
  fi_totalModels :: nat
  fi_failedProviders :: nat

definition no_inventory :: fetched_inventory where
  "no_inventory = \<lparr>fi_models = [], fi_modelsByProvider = [], fi_runtimeUpdates = [],
                   fi_totalModels = 0, fi_failedProviders = 0\<rparr>"

definition failed_update :: "go_time \<Rightarrow> string \<Rightarrow> runtime_state" where
  "failed_update fetchAt msg =
     zero_runtime\<lparr>rt_registered := True, rt_lastModelFetchAt := fetchAt,
                  rt_lastModelFetchError := msg\<rparr>"

text \<open>\<open>m[k] = make(...)\<close> when the key is missing.\<close>

definition ensure_key :: "string \<Rightarrow> inventory \<Rightarrow> inventory" where
  "ensure_key k m = (if map_of m k = None then AList.update k [] m else m)"

definition add_model ::
  "provider \<Rightarrow> string \<Rightarrow> string \<Rightarrow> fetched_inventory \<Rightarrow> core_model \<Rightarrow> fetched_inventory" where
  "add_model provider providerName providerType out model =
     (let info = \<lparr>mi_Model = model, mi_Provider = provider, mi_ProviderName = providerName,
                  mi_ProviderType = providerType\<rparr>;
          out = out\<lparr>fi_modelsByProvider := AList.update providerName
                  (AList.update (cm_ID model) info (get_or [] (fi_modelsByProvider out) providerName))
                  (fi_modelsByProvider out)\<rparr>
      in if map_of (fi_models out) (cm_ID model) \<noteq> None then out
         else out\<lparr>fi_models := AList.update (cm_ID model) info (fi_models out),
                  fi_totalModels := fi_totalModels out + 1\<rparr>)"

definition add_answer ::
  "fetched_inventory \<Rightarrow> provider \<Rightarrow> string \<Rightarrow> string \<Rightarrow> fetch_result \<Rightarrow> fetched_inventory" where
  "add_answer out provider providerName providerType res =
     (let reason = fr_configuredReason res;
          fetchAt = fr_fetchAt res;
          configuredUpstreamError =
            (if reason \<noteq> NotApplied
             then (case fr_err res of None \<Rightarrow> [] | Some e \<Rightarrow> error_string e) else []);
          err = (if reason \<noteq> NotApplied then None else fr_err res);
          fail = (\<lambda>msg. out\<lparr>fi_failedProviders := fi_failedProviders out + 1,
                     fi_runtimeUpdates := AList.update providerName (failed_update fetchAt msg)
                                            (fi_runtimeUpdates out)\<rparr>)
      in case err of
           Some e \<Rightarrow> fail (error_string e)
         | None \<Rightarrow>
             (case fr_resp res of
                None \<Rightarrow> fail ''provider returned nil model list''
              | Some data \<Rightarrow>
                  if data = []
                  then out\<lparr>fi_runtimeUpdates := AList.update providerName
                               (failed_update fetchAt ''provider returned empty model list'')
                               (fi_runtimeUpdates out),
                           fi_modelsByProvider := ensure_key providerName (fi_modelsByProvider out)\<rparr>
                  else
                    let u = zero_runtime\<lparr>rt_registered := True, rt_lastModelFetchAt := fetchAt,
                              rt_lastModelFetchError := configuredUpstreamError\<rparr>;
                        u = (if reason = NotApplied \<or> reason = ReasonAllowlist
                             then u\<lparr>rt_lastModelFetchSuccessAt := fetchAt\<rparr> else u);
                        u = (if reason = NotApplied
                             then u\<lparr>rt_lastAvailabilityCheckAt := fetchAt,
                                    rt_lastAvailabilityOKAt := fetchAt\<rparr> else u)
                    in foldl (add_model provider providerName providerType)
                         (out\<lparr>fi_runtimeUpdates := AList.update providerName u (fi_runtimeUpdates out),
                              fi_modelsByProvider := ensure_key providerName (fi_modelsByProvider out)\<rparr>)
                         data))"

text \<open>A registered provider with the name and type it is fetched under. Names are never
  empty (\<open>RegisterProviderWithNameAndType\<close>), so the fall-backs to the type and to the
  printed pointer are dead code; \<open>ptr\<close> prints the pointer.\<close>

definition fetch_name :: "(provider \<Rightarrow> string) \<Rightarrow> (provider \<times> string) list \<Rightarrow>
    (provider \<times> string) list \<Rightarrow> provider \<Rightarrow> string" where
  "fetch_name ptr types names provider =
     (let name = get_or [] names provider;
          name = (if name = [] then get_or [] types provider else name)
      in if name = [] then ptr provider else name)"

definition fetchAllProviderModels ::
  "(provider \<Rightarrow> string) \<Rightarrow> (provider \<Rightarrow> provider_answer) \<Rightarrow> provider list \<Rightarrow>
   (provider \<times> string) list \<Rightarrow> (provider \<times> string) list \<Rightarrow> (string \<times> string list) list \<Rightarrow>
   configured_mode \<Rightarrow> fetched_inventory" where
  "fetchAllProviderModels ptr answers providers types names configured mode =
     foldl (\<lambda>out provider.
         let name = fetch_name ptr types names provider;
             type = get_or [] types provider
         in add_answer out provider name type
              (fetchProviderInventory (answers provider) name type mode (get_or [] configured name)))
       no_inventory providers"

section \<open>Applying a sweep\<close>

type_synonym enrichment = "string \<Rightarrow> model_info \<Rightarrow> model_metadata option"

definition enrichFetched :: "enrichment \<Rightarrow> inventory \<Rightarrow> inventory" where
  "enrichFetched enrich modelsByProvider =
     map (\<lambda>(providerName, models).
         (providerName,
          map (\<lambda>(k, info). (k, info\<lparr>mi_Model := (mi_Model info)\<lparr>cm_Metadata := enrich providerName info\<rparr>\<rparr>))
            models))
       modelsByProvider"

text \<open>The loop of \<open>applyFetchedInventory\<close> over the updated providers: those without a new
  inventory carry the previous one over and become stale.\<close>

fun carry_forward ::
  "inventory \<Rightarrow> string list \<Rightarrow> inventory \<times> string list \<Rightarrow> inventory \<times> string list" where
  "carry_forward previous [] acc = acc"
| "carry_forward previous (name # names) (fetched, stale_names) =
     carry_forward previous names
       (if map_of fetched name \<noteq> None then (fetched, stale_names)
        else if get_or [] previous name = [] then (fetched, stale_names)
        else (AList.update name (get_or [] previous name) fetched, name # stale_names))"

definition applyFetchedInventory ::
  "enrichment \<Rightarrow> registry \<Rightarrow> fetched_inventory \<Rightarrow> registry" where
  "applyFetchedInventory enrich r fetched =
     (let names = map fst (fi_runtimeUpdates fetched);
          (modelsByProvider, stale_names) =
            carry_forward (rg_modelsByProvider r) names
              (enrichFetched enrich (fi_modelsByProvider fetched), []);
          r = r\<lparr>rg_modelsByProvider := modelsByProvider\<rparr>;
          r = applyProviderRuntimeUpdatesLocked r (fi_runtimeUpdates fetched);
          r = foldl (\<lambda>r name. set_stale name (name \<in> set stale_names) r) r names
      in (refresh_views r)\<lparr>rg_initialized := True\<rparr>)"

definition applyFetchedProviderInventory ::
  "enrichment \<Rightarrow> registry \<Rightarrow> fetched_inventory \<Rightarrow> registry" where
  "applyFetchedProviderInventory enrich r fetched =
     (let r = foldl (\<lambda>r (providerName, providerModels).
            set_stale providerName False
              (r\<lparr>rg_modelsByProvider :=
                   AList.update providerName providerModels (rg_modelsByProvider r)\<rparr>))
            r (enrichFetched enrich (fi_modelsByProvider fetched));
          r = applyProviderRuntimeUpdatesLocked r (fi_runtimeUpdates fetched)
      in (refresh_views r)\<lparr>rg_initialized := True\<rparr>)"

definition initialize ::
  "(provider \<Rightarrow> string) \<Rightarrow> enrichment \<Rightarrow> (provider \<Rightarrow> provider_answer) \<Rightarrow> registry \<Rightarrow>
   go_error option \<times> registry" where
  "initialize ptr enrich answers r =
     (let fetched = fetchAllProviderModels ptr answers (rg_providers r) (rg_providerTypes r)
            (rg_providerNames r) (rg_configuredProviderModels r) (rg_configuredProviderModelsMode r)
      in if fi_totalModels fetched = 0
         then (Some (if fi_failedProviders fetched = length (rg_providers r)
                     then PlainError ''failed to fetch models from any provider''
                     else PlainError ''no models available: providers returned empty model lists''),
               applyProviderRuntimeUpdatesLocked r (fi_runtimeUpdates fetched))
         else (None, applyFetchedInventory enrich r fetched))"

section \<open>Refreshing one provider\<close>

record refresh_target =
  tg_provider :: provider
  tg_providerName :: string
  tg_providerType :: string

definition providerRefreshTargets :: "registry \<Rightarrow> string \<Rightarrow> refresh_target list" where
  "providerRefreshTargets r providerSelector0 =
     (let providerSelector = go_trim providerSelector0;
          target = (\<lambda>p. \<lparr>tg_provider = p, tg_providerName = provider_name r p,
                         tg_providerType = provider_type r p\<rparr>)
      in if providerSelector = [] then []
         else case find (\<lambda>p. provider_name r p = providerSelector) (rg_providers r) of
             Some p \<Rightarrow> [target p]
           | None \<Rightarrow>
               map target
                 (filter (\<lambda>p. provider_type r p = providerSelector \<and> provider_name r p \<noteq> [])
                    (rg_providers r)))"

text \<open>\<open>errors.Join\<close>: nil for no error, otherwise the messages on a line each. The chain keeps the
  first error; no caller inspects a joined error further.\<close>

definition errors_join :: "go_error list \<Rightarrow> go_error option" where
  "errors_join errs =
     (case errs of
        [] \<Rightarrow> None
      | e # es \<Rightarrow> Some (WrappedError (join_with (CHR 0x0A) (map error_string errs)) e))"

text \<open>\<open>availability p\<close> is \<open>None\<close> when \<open>p\<close> is no \<open>AvailabilityChecker\<close> and otherwise the
  answer of its check, which ends at the time \<open>checked_at p\<close>.\<close>

fun check_targets ::
  "(provider \<Rightarrow> go_error option option) \<Rightarrow> (provider \<Rightarrow> go_time) \<Rightarrow> refresh_target list \<Rightarrow>
   registry \<Rightarrow> refresh_target list \<times> go_error list \<times> registry" where
  "check_targets availability checked_at [] r = ([], [], r)"
| "check_targets availability checked_at (t # ts) r =
     (case availability (tg_provider t) of
        None \<Rightarrow>
          (case check_targets availability checked_at ts r of (av, errs, r') \<Rightarrow> (t # av, errs, r'))
      | Some err \<Rightarrow>
          let r1 = RecordAvailabilityCheck r (checked_at (tg_provider t)) (tg_providerName t) err
          in case err of
               Some e \<Rightarrow>
                 (case check_targets availability checked_at ts
                         (markProviderInventoryStale r1 (tg_providerName t)) of
                    (av, errs, r') \<Rightarrow>
                      (av, WrappedError (tg_providerName t @ '': '' @ error_string e) e # errs, r'))
             | None \<Rightarrow>
                 (case check_targets availability checked_at ts r1 of (av, errs, r') \<Rightarrow> (t # av, errs, r')))"

definition availableProviderRefreshTargets ::
  "(provider \<Rightarrow> go_error option option) \<Rightarrow> (provider \<Rightarrow> go_time) \<Rightarrow> string \<Rightarrow> refresh_target list \<Rightarrow>
   registry \<Rightarrow> (go_error + refresh_target list) \<times> registry" where
  "availableProviderRefreshTargets availability checked_at providerSelector targets r =
     (let (available, errs, r') = check_targets availability checked_at targets r
      in if 0 < length available \<or> length errs = 0 then (Inr available, r')
         else (Inl (NewProviderError providerSelector 503 ''provider is unavailable''
                      (errors_join errs)), r'))"

definition fetchedProviderRefreshError :: "fetched_inventory \<Rightarrow> go_error option" where
  "fetchedProviderRefreshError fetched =
     errors_join
       (map (\<lambda>(providerName, state).
            PlainError (providerName @ '': '' @ go_trim (rt_lastModelFetchError state)))
          (filter (\<lambda>(providerName, state). go_trim (rt_lastModelFetchError state) \<noteq> [])
             (fi_runtimeUpdates fetched)))"

definition markFailedRefreshProvidersStale :: "registry \<Rightarrow> fetched_inventory \<Rightarrow> registry" where
  "markFailedRefreshProvidersStale r fetched =
     foldl (\<lambda>r (providerName, state).
         if go_trim (rt_lastModelFetchError state) = [] then r
         else if map_of (fi_modelsByProvider fetched) providerName \<noteq> None then r
         else markProviderInventoryStale r providerName)
       r (fi_runtimeUpdates fetched)"

text \<open>\<open>acquire\<close> is the error of waiting for the refresh semaphore, if any.\<close>

definition registryRefreshAcquireError :: "go_error \<Rightarrow> go_error" where
  "registryRefreshAcquireError err =
     (if is_deadline err
      then NewProviderError ''model_registry'' 504
             ''model registry refresh timed out before start'' (Some err)
      else NewProviderError ''model_registry'' 408
             ''model registry refresh canceled before start'' (Some err))"

definition RefreshProviderModels ::
  "(provider \<Rightarrow> string) \<Rightarrow> enrichment \<Rightarrow> go_error option \<Rightarrow>
   (provider \<Rightarrow> go_error option option) \<Rightarrow> (provider \<Rightarrow> go_time) \<Rightarrow>
   (provider \<Rightarrow> provider_answer) \<Rightarrow> registry \<Rightarrow> string \<Rightarrow> (go_error + nat) \<times> registry" where
  "RefreshProviderModels ptr enrich acquire availability checked_at answers r providerSelector0 =
     (let providerSelector = go_trim providerSelector0
      in if providerSelector = []
         then (Inl (NewInvalidRequestError ''provider selector is required'' None), r)
         else case acquire of
           Some e \<Rightarrow> (Inl (registryRefreshAcquireError e), r)
         | None \<Rightarrow>
           let targets = providerRefreshTargets r providerSelector
           in if targets = []
              then (Inl (NewInvalidRequestError
                      (''no provider found for provider: '' @ providerSelector) None), r)
              else case availableProviderRefreshTargets availability checked_at providerSelector targets r of
                (Inl e, r1) \<Rightarrow> (Inl e, r1)
              | (Inr available, r1) \<Rightarrow>
                if available = []
                then (Inl (NewProviderError providerSelector 503 ''provider is unavailable'' None), r1)
                else
                  let fetched = fetchAllProviderModels ptr answers (map tg_provider available)
                        (map (\<lambda>t. (tg_provider t, tg_providerType t)) available)
                        (map (\<lambda>t. (tg_provider t, tg_providerName t)) available)
                        (rg_configuredProviderModels r1) (rg_configuredProviderModelsMode r1)
                  in if fi_totalModels fetched = 0
                     then
                       if fi_failedProviders fetched = length available
                       then (Inl (NewProviderError providerSelector 503
                                    ''failed to refresh provider models''
                                    (fetchedProviderRefreshError fetched)),
                             markFailedRefreshProvidersStale
                               (applyProviderRuntimeUpdatesLocked r1 (fi_runtimeUpdates fetched)) fetched)
                       else (Inl (NewProviderError providerSelector 503
                                    ''provider returned no models'' None),
                             markFailedRefreshProvidersStale
                               (applyFetchedProviderInventory enrich r1 fetched) fetched)
                     else (Inr (fi_totalModels fetched),
                           markFailedRefreshProvidersStale
                             (applyFetchedProviderInventory enrich r1 fetched) fetched))"

end
