(* ===== verification/RegistryProps.thy ===== *)
theory RegistryProps
  imports RegistryRefresh
begin

text \<open>
  Correctness of the model registry: the invariant of its inventory and derived views over
  every operation, what a sweep keeps, and which provider a bare model ID resolves to.
\<close>

section \<open>The global map\<close>

text \<open>The first provider in an order that serves a model.\<close>

fun first_owner :: "inventory \<Rightarrow> string list \<Rightarrow> string \<Rightarrow> model_info option" where
  "first_owner catalog [] mid = None"
| "first_owner catalog (n # ns) mid =
     (case map_of (get_or [] catalog n) mid of
        Some info \<Rightarrow> Some info
      | None \<Rightarrow> first_owner catalog ns mid)"

lemma first_owner_append:
  "first_owner catalog (ns @ ms) mid =
     (case first_owner catalog ns mid of Some i \<Rightarrow> Some i | None \<Rightarrow> first_owner catalog ms mid)"
  by (induction ns) (auto split: option.split)

lemma first_owner_Some:
  "first_owner catalog ns mid = Some info \<Longrightarrow>
   \<exists>n\<in>set ns. map_of (get_or [] catalog n) mid = Some info"
  by (induction ns) (auto split: option.splits)

lemma first_owner_None:
  "first_owner catalog ns mid = None \<longleftrightarrow> (\<forall>n\<in>set ns. map_of (get_or [] catalog n) mid = None)"
  by (induction ns) (auto split: option.split)

lemma addProviderModels_lookup:
  "map_of (addProviderModels g pm) mid =
     (case map_of g mid of Some i \<Rightarrow> Some i | None \<Rightarrow> map_of pm mid)"
proof -
  have gen: "map_of (foldl (\<lambda>g mid. if map_of g mid \<noteq> None then g
        else case map_of pm mid of None \<Rightarrow> g | Some info \<Rightarrow> AList.update mid info g) g ks) mid =
      (case map_of g mid of Some i \<Rightarrow> Some i | None \<Rightarrow> if mid \<in> set ks then map_of pm mid else None)"
    for ks
    by (induction ks arbitrary: g) (auto simp: update_conv' split: option.splits)
  show ?thesis
    unfolding addProviderModels_def gen
    by (auto split: option.split simp: map_of_eq_None_iff [symmetric])
qed

lemma add_all_lookup:
  "map_of (foldl (\<lambda>g n. addProviderModels g (get_or [] catalog n)) g ns) mid =
     (case map_of g mid of Some i \<Rightarrow> Some i | None \<Rightarrow> first_owner catalog ns mid)"
  by (induction ns arbitrary: g) (auto simp: addProviderModels_lookup split: option.splits)

definition remaining_names :: "inventory \<Rightarrow> string list \<Rightarrow> string list" where
  "remaining_names catalog order = sort (filter (\<lambda>n. n \<notin> set order) (map fst catalog))"

lemma rebuild_lookup:
  "map_of (rebuildGlobalModelMap catalog order) mid =
     first_owner catalog (order @ remaining_names catalog order) mid"
  by (simp add: rebuildGlobalModelMap_def Let_def add_all_lookup first_owner_append
      remaining_names_def split: option.split)

section \<open>Well-formed inventories\<close>

definition wf_models :: "string \<Rightarrow> provider_models \<Rightarrow> bool" where
  "wf_models p ms \<longleftrightarrow> distinct (map fst ms) \<and>
     (\<forall>mid info. map_of ms mid = Some info \<longrightarrow> mi_ProviderName info = p \<and> cm_ID (mi_Model info) = mid)"

definition wf_inventory :: "inventory \<Rightarrow> bool" where
  "wf_inventory catalog \<longleftrightarrow> distinct (map fst catalog) \<and>
     (\<forall>p ms. map_of catalog p = Some ms \<longrightarrow> wf_models p ms)"

lemma wf_models_Nil [simp]: "wf_models p []"
  by (simp add: wf_models_def)

lemma wf_inventory_Nil [simp]: "wf_inventory []"
  by (simp add: wf_inventory_def)

lemma wf_get_or: "wf_inventory catalog \<Longrightarrow> wf_models p (get_or [] catalog p)"
  by (auto simp: wf_inventory_def get_or_def split: option.split)

lemma wf_inventory_update:
  "wf_inventory catalog \<Longrightarrow> wf_models p ms \<Longrightarrow> wf_inventory (AList.update p ms catalog)"
  by (auto simp: wf_inventory_def distinct_update update_conv')

lemma wf_models_update:
  "wf_models p ms \<Longrightarrow> mi_ProviderName info = p \<Longrightarrow> cm_ID (mi_Model info) = mid \<Longrightarrow>
   wf_models p (AList.update mid info ms)"
  by (auto simp: wf_models_def distinct_update update_conv')

lemma wf_ensure_key: "wf_inventory catalog \<Longrightarrow> wf_inventory (ensure_key p catalog)"
  by (simp add: ensure_key_def wf_inventory_update)

lemma map_of_map_snd: "map_of (map (\<lambda>(k, v). (k, f k v)) al) k = map_option (f k) (map_of al k)"
  by (induction al) auto

lemma fst_map_snd [simp]: "fst \<circ> (\<lambda>(k, v). (k, f k v)) = fst"
  by auto

lemma enrich_lookup:
  "map_of (enrichFetched enrich catalog) p =
     map_option (map (\<lambda>(k, info).
        (k, info\<lparr>mi_Model := (mi_Model info)\<lparr>cm_Metadata := enrich p info\<rparr>\<rparr>))) (map_of catalog p)"
  by (simp add: enrichFetched_def map_of_map_snd)

lemma wf_enrich: "wf_inventory catalog \<Longrightarrow> wf_inventory (enrichFetched enrich catalog)"
proof -
  assume w: "wf_inventory catalog"
  have "map fst (enrichFetched enrich catalog) = map fst catalog"
    by (simp add: enrichFetched_def)
  moreover have "wf_models p (map (\<lambda>(k, info).
      (k, info\<lparr>mi_Model := (mi_Model info)\<lparr>cm_Metadata := enrich p info\<rparr>\<rparr>)) ms)"
    if "wf_models p ms" for p ms
  proof -
    have "map fst (map (\<lambda>(k, info).
        (k, info\<lparr>mi_Model := (mi_Model info)\<lparr>cm_Metadata := enrich p info\<rparr>\<rparr>)) ms) = map fst ms"
      by simp
    with that show ?thesis by (auto simp: wf_models_def map_of_map_snd)
  qed
  ultimately show ?thesis using w by (auto simp: wf_inventory_def enrich_lookup)
qed

lemma wf_carry_forward:
  "wf_inventory previous \<Longrightarrow> wf_inventory (fst acc) \<Longrightarrow>
   wf_inventory (fst (carry_forward previous names acc))"
proof (induction previous names acc rule: carry_forward.induct)
  case (2 previous name names fetched stale_names)
  then show ?case by (simp add: wf_inventory_update wf_get_or)
qed simp

lemma wf_add_model:
  "wf_inventory (fi_modelsByProvider out) \<Longrightarrow>
   wf_inventory (fi_modelsByProvider (add_model provider name type out model))"
  by (auto simp: add_model_def Let_def intro!: wf_inventory_update wf_models_update wf_get_or)

lemma wf_add_models:
  "wf_inventory (fi_modelsByProvider out) \<Longrightarrow>
   wf_inventory (fi_modelsByProvider (foldl (add_model provider name type) out models))"
  by (induction models arbitrary: out) (auto intro: wf_add_model)

lemma wf_add_answer:
  "wf_inventory (fi_modelsByProvider out) \<Longrightarrow>
   wf_inventory (fi_modelsByProvider (add_answer out provider name type res))"
  by (auto simp: add_answer_def Let_def split: option.split intro!: wf_add_models wf_ensure_key)

lemma wf_fetch: "wf_inventory (fi_modelsByProvider (fetchAllProviderModels ptr ans ps ts ns cfg mode))"
proof -
  have "wf_inventory (fi_modelsByProvider (foldl (\<lambda>out provider.
         let name = fetch_name ptr ts ns provider; type = get_or [] ts provider
         in add_answer out provider name type
              (fetchProviderInventory (ans provider) name type mode (get_or [] cfg name))) out ps))"
    if "wf_inventory (fi_modelsByProvider out)" for out
    using that by (induction ps arbitrary: out) (auto simp: Let_def intro: wf_add_answer)
  then show ?thesis by (simp add: fetchAllProviderModels_def no_inventory_def)
qed

section \<open>The registry invariant\<close>

definition caches_ok :: "registry \<Rightarrow> bool" where
  "caches_ok r \<longleftrightarrow>
     (\<forall>c. rg_sortedModels r = Some c \<longrightarrow>
          c = sort_key cm_ID (map (\<lambda>(k, info). mi_Model info) (rg_models r))) \<and>
     (\<forall>c. rg_sortedModelsWithProvider r = Some c \<longrightarrow> c = listing_of (rg_modelsByProvider r)) \<and>
     (\<forall>c. rg_qualified r = Some c \<longrightarrow> c = build_index (rg_modelsByProvider r))"

definition globals_ok :: "registry \<Rightarrow> bool" where
  "globals_ok r \<longleftrightarrow>
     (\<exists>order. fst ` set (rg_modelsByProvider r) \<subseteq> set order \<and>
        (\<forall>mid. map_of (rg_models r) mid = first_owner (rg_modelsByProvider r) order mid))"

definition reg_inv :: "registry \<Rightarrow> bool" where
  "reg_inv r \<longleftrightarrow> wf_inventory (rg_modelsByProvider r) \<and> caches_ok r \<and> globals_ok r"

text \<open>The parts of the state the invariant reads.\<close>

definition core_of :: "registry \<Rightarrow> provider_models \<times> inventory \<times> core_model list option \<times>
    model_with_provider list option \<times> (selector_index \<times> selector_index) option" where
  "core_of r = (rg_models r, rg_modelsByProvider r, rg_sortedModels r,
                rg_sortedModelsWithProvider r, rg_qualified r)"

lemma reg_inv_core: "core_of r = core_of r' \<Longrightarrow> reg_inv r = reg_inv r'"
  by (simp add: core_of_def reg_inv_def caches_ok_def globals_ok_def)

lemma reg_inv_refresh_views:
  "wf_inventory (rg_modelsByProvider r) \<Longrightarrow> reg_inv (refresh_views r)"
  unfolding reg_inv_def
proof (intro conjI)
  assume "wf_inventory (rg_modelsByProvider r)"
  then show "wf_inventory (rg_modelsByProvider (refresh_views r))"
    by (simp add: refresh_views_def invalidateSortedCaches_def)
  show "caches_ok (refresh_views r)"
    by (simp add: caches_ok_def refresh_views_def invalidateSortedCaches_def)
  let ?o = "freshFirstProviderOrderLocked r"
  show "globals_ok (refresh_views r)"
    unfolding globals_ok_def
    by (rule exI [of _ "?o @ remaining_names (rg_modelsByProvider r) ?o"])
      (auto simp: refresh_views_def invalidateSortedCaches_def rebuild_lookup remaining_names_def)
qed

lemma inventory_refresh_views [simp]:
  "rg_modelsByProvider (refresh_views r) = rg_modelsByProvider r"
  "rg_providerRuntime (refresh_views r) = rg_providerRuntime r"
  "rg_providers (refresh_views r) = rg_providers r"
  "rg_providerNames (refresh_views r) = rg_providerNames r"
  by (simp_all add: refresh_views_def invalidateSortedCaches_def)

lemma core_set_stale [simp]: "core_of (set_stale n b r) = core_of r"
  by (simp add: core_of_def set_stale_def)

lemma core_record [simp]: "core_of (RecordAvailabilityCheck r now n e) = core_of r"
  by (simp add: core_of_def RecordAvailabilityCheck_def Let_def)

lemma core_initialized [simp]: "core_of (r\<lparr>rg_initialized := b\<rparr>) = core_of r"
  by (simp add: core_of_def)

lemma core_runtime_updates [simp]: "core_of (applyProviderRuntimeUpdatesLocked r us) = core_of r"
proof -
  have "core_of (foldl (\<lambda>r (providerName, update).
         r\<lparr>rg_providerRuntime := AList.update providerName
             (apply_runtime_update update (get_or zero_runtime (rg_providerRuntime r) providerName))
             (rg_providerRuntime r)\<rparr>) r us) = core_of r"
    by (induction us arbitrary: r) (auto simp: core_of_def)
  then show ?thesis by (simp add: applyProviderRuntimeUpdatesLocked_def)
qed

lemma inventory_core: "core_of r = core_of r' \<Longrightarrow> rg_modelsByProvider r = rg_modelsByProvider r'"
  by (simp add: core_of_def)

lemma core_set_stales [simp]:
  "core_of (foldl (\<lambda>r name. set_stale name (f name) r) r names) = core_of r"
  by (induction names arbitrary: r) auto

lemma reg_inv_mark: "reg_inv r \<Longrightarrow> reg_inv (markProviderInventoryStale r n)"
proof -
  assume r: "reg_inv r"
  have "wf_inventory (rg_modelsByProvider (set_stale m True r))" for m
    using r inventory_core [OF core_set_stale, of m True r] by (simp add: reg_inv_def)
  with r show ?thesis
    by (auto simp: markProviderInventoryStale_def Let_def intro: reg_inv_refresh_views)
qed

lemma reg_inv_mark_all: "reg_inv r \<Longrightarrow> reg_inv (markFailedRefreshProvidersStale r f)"
proof -
  have "reg_inv (foldl (\<lambda>r (providerName, state).
         if go_trim (rt_lastModelFetchError state) = [] then r
         else if map_of (fi_modelsByProvider f) providerName \<noteq> None then r
         else markProviderInventoryStale r providerName) r us)" if "reg_inv r" for us
    using that by (induction us arbitrary: r) (simp_all add: case_prod_unfold reg_inv_mark)
  then show "reg_inv r \<Longrightarrow> reg_inv (markFailedRefreshProvidersStale r f)"
    by (simp add: markFailedRefreshProvidersStale_def)
qed

lemma reg_inv_apply_sweep:
  assumes "reg_inv r" "wf_inventory (fi_modelsByProvider f)"
  shows "reg_inv (applyFetchedInventory enrich r f)"
proof -
  obtain cat st where c: "carry_forward (rg_modelsByProvider r) (map fst (fi_runtimeUpdates f))
      (enrichFetched enrich (fi_modelsByProvider f), []) = (cat, st)" by fastforce
  have w: "wf_inventory cat"
    using wf_carry_forward [of "rg_modelsByProvider r" "(enrichFetched enrich (fi_modelsByProvider f), [])"
        "map fst (fi_runtimeUpdates f)"] assms c wf_enrich
    by (simp add: reg_inv_def)
  let ?r1 = "foldl (\<lambda>r name. set_stale name (name \<in> set st) r)
      (applyProviderRuntimeUpdatesLocked (r\<lparr>rg_modelsByProvider := cat\<rparr>) (fi_runtimeUpdates f))
      (map fst (fi_runtimeUpdates f))"
  have "core_of ?r1 = core_of (r\<lparr>rg_modelsByProvider := cat\<rparr>)" by simp
  then have "wf_inventory (rg_modelsByProvider ?r1)"
    using w by (simp add: core_of_def)
  then have "reg_inv (refresh_views ?r1)" by (rule reg_inv_refresh_views)
  then show ?thesis
    by (subst reg_inv_core [of _ "refresh_views ?r1"])
      (simp_all add: applyFetchedInventory_def c)
qed

lemma reg_inv_apply_provider:
  assumes "reg_inv r" "wf_inventory (fi_modelsByProvider f)"
  shows "reg_inv (applyFetchedProviderInventory enrich r f)"
proof -
  let ?step = "\<lambda>r (p, ms). set_stale p False
      (r\<lparr>rg_modelsByProvider := AList.update p ms (rg_modelsByProvider r)\<rparr>)"
  have fold: "wf_inventory (rg_modelsByProvider (foldl ?step r es))"
    if "wf_inventory (rg_modelsByProvider r)" "\<forall>(p, ms)\<in>set es. wf_models p ms" for es r
    using that by (induction es arbitrary: r)
      (simp_all add: set_stale_def case_prod_unfold wf_inventory_update)
  have "\<forall>(p, ms)\<in>set (enrichFetched enrich (fi_modelsByProvider f)). wf_models p ms"
    using wf_enrich [OF assms(2), of enrich]
    by (auto simp: wf_inventory_def)
  then have "wf_inventory (rg_modelsByProvider
      (foldl ?step r (enrichFetched enrich (fi_modelsByProvider f))))"
    using assms(1) fold by (simp add: reg_inv_def)
  then have "wf_inventory (rg_modelsByProvider (applyProviderRuntimeUpdatesLocked
      (foldl ?step r (enrichFetched enrich (fi_modelsByProvider f))) (fi_runtimeUpdates f)))"
    by (subst inventory_core [OF core_runtime_updates])
  then show ?thesis
    by (simp only: applyFetchedProviderInventory_def Let_def reg_inv_core [OF core_initialized]
        reg_inv_refresh_views)
qed

lemma reg_inv_initialize: "reg_inv r \<Longrightarrow> reg_inv (snd (initialize ptr enrich answers r))"
  by (auto simp: initialize_def Let_def wf_fetch reg_inv_apply_sweep
      reg_inv_core [OF core_runtime_updates])

lemma reg_inv_check_targets:
  "reg_inv r \<Longrightarrow> reg_inv (snd (snd (check_targets availability checked_at ts r)))"
  by (induction availability checked_at ts r rule: check_targets.induct)
    (auto simp: Let_def split_beta reg_inv_mark reg_inv_core [OF core_record]
      split: option.split prod.split)

lemma reg_inv_refresh:
  assumes "reg_inv r"
  shows "reg_inv (snd (RefreshProviderModels ptr enrich acquire availability checked_at answers r sel))"
proof -
  let ?ts = "providerRefreshTargets r (go_trim sel)"
  obtain av r1 where av: "availableProviderRefreshTargets availability checked_at (go_trim sel) ?ts r
      = (av, r1)" by fastforce
  have "r1 = snd (snd (check_targets availability checked_at ?ts r))"
    using arg_cong [OF av, of snd]
    by (simp add: availableProviderRefreshTargets_def split_beta Let_def split: if_splits)
  then have r1: "reg_inv r1" using reg_inv_check_targets [OF assms] by simp
  have ok: "reg_inv (markFailedRefreshProvidersStale (applyProviderRuntimeUpdatesLocked r1 us) f)"
      "wf_inventory (fi_modelsByProvider f) \<Longrightarrow>
       reg_inv (markFailedRefreshProvidersStale (applyFetchedProviderInventory enrich r1 f) f)"
    for us f
    using r1 reg_inv_mark_all reg_inv_apply_provider reg_inv_core [OF core_runtime_updates]
    by blast+
  show ?thesis
    unfolding RefreshProviderModels_def Let_def
    using assms r1 by (cases acquire; cases av) (simp_all add: av ok wf_fetch)
qed

text \<open>Everything that happens to a registry: registrations and configuration at start-up,
  sweeps, single refreshes, availability checks, and the readers that build the cached views.\<close>

inductive reg_reachable :: "registry \<Rightarrow> bool" where
  new: "reg_reachable NewModelRegistry"
| register: "reg_reachable r \<Longrightarrow> reg_reachable (RegisterProviderWithNameAndType r p n t)"
| configure: "reg_reachable r \<Longrightarrow> reg_reachable (SetProviderConfiguredModels r n ms)"
| mode: "reg_reachable r \<Longrightarrow> reg_reachable (SetConfiguredProviderModelsMode r m)"
| available: "reg_reachable r \<Longrightarrow> reg_reachable (RecordAvailabilityCheck r now n e)"
| sweep: "reg_reachable r \<Longrightarrow> reg_reachable (snd (initialize ptr enrich answers r))"
| refresh: "reg_reachable r \<Longrightarrow>
    reg_reachable (snd (RefreshProviderModels ptr enrich acquire availability checked_at answers r n))"
| list_models: "reg_reachable r \<Longrightarrow> reg_reachable (snd (ListModels r))"
| list_with_provider: "reg_reachable r \<Longrightarrow> reg_reachable (snd (ListModelsWithProvider r))"
| resolve_selector: "reg_reachable r \<Longrightarrow> reg_reachable (snd (ResolveProviderSelector r seg m))"

lemma reg_inv_readers:
  assumes "reg_inv r"
  shows "reg_inv (snd (ListModels r))" "reg_inv (snd (ListModelsWithProvider r))"
    "reg_inv (snd (ResolveProviderSelector r seg m))"
  using assms
  by (auto simp: reg_inv_def caches_ok_def globals_ok_def ListModels_def ListModelsWithProvider_def
      ResolveProviderSelector_def buildSelectorIndexLocked_def Let_def split: option.split)

lemma reg_inv_reachable: "reg_reachable r \<Longrightarrow> reg_inv r"
proof (induction rule: reg_reachable.induct)
  case new
  show ?case by (auto simp: reg_inv_def caches_ok_def globals_ok_def NewModelRegistry_def
      intro: exI [of _ "[]"])
next
  case (register r p n t)
  then show ?case
    by (subst reg_inv_core [of _ r])
      (simp_all add: core_of_def RegisterProviderWithNameAndType_def Let_def)
next
  case (configure r n ms)
  then show ?case
    by (subst reg_inv_core [of _ r]) (simp_all add: core_of_def SetProviderConfiguredModels_def Let_def)
next
  case (mode r m)
  then show ?case
    by (subst reg_inv_core [of _ r]) (simp_all add: core_of_def SetConfiguredProviderModelsMode_def)
next
  case (available r now n e)
  then show ?case by (simp add: reg_inv_core [OF core_record])
qed (simp_all add: reg_inv_initialize reg_inv_refresh reg_inv_readers)

section \<open>A registry to run\<close>

text \<open>Two configured providers of one type; \<open>demo_up\<close> is the state after a sweep both answer,
  \<open>demo_down\<close> after one that the first fails.\<close>

definition demo_model :: "string \<Rightarrow> core_model" where
  "demo_model m = \<lparr>cm_ID = m, cm_Object = ''model'', cm_OwnedBy = [], cm_Created = 1, cm_Metadata = None\<rparr>"

definition demo_answer :: "string list option \<Rightarrow> provider_answer" where
  "demo_answer ms =
     \<lparr>pa_start = 1, pa_end = 2, pa_now = 3, pa_models = map_option (map demo_model) ms,
      pa_err = (if ms = None then Some (PlainError ''down'') else None)\<rparr>"

definition demo_registry :: registry where
  "demo_registry = RegisterProviderWithNameAndType
     (RegisterProviderWithNameAndType NewModelRegistry 1 ''east'' ''openai'') 2 ''west'' ''openai''"

definition demo_sweep :: "(provider \<Rightarrow> provider_answer) \<Rightarrow> registry \<Rightarrow> go_error option \<times> registry" where
  "demo_sweep answers r = initialize (\<lambda>p. ''p'') (\<lambda>p i. None) answers r"

definition demo_up :: registry where
  "demo_up = snd (demo_sweep (\<lambda>p. demo_answer (Some [''gpt''])) demo_registry)"

definition demo_down :: registry where
  "demo_down = snd (demo_sweep (\<lambda>p. demo_answer (if p = 1 then None else Some [''gpt''])) demo_up)"

lemma demo_reachable: "reg_reachable demo_registry" "reg_reachable demo_up" "reg_reachable demo_down"
  unfolding demo_down_def demo_up_def demo_registry_def demo_sweep_def
  by (intro reg_reachable.intros)+

lemma demo_sweep_down:
  "initialize (\<lambda>p. ''p'') (\<lambda>p i. None) (\<lambda>p. demo_answer (if p = 1 then None else Some [''gpt''])) demo_up
   = (None, demo_down)"
proof -
  have "fst (demo_sweep (\<lambda>p. demo_answer (if p = 1 then None else Some [''gpt''])) demo_up) = None"
    by code_simp
  then show ?thesis by (simp add: demo_down_def demo_sweep_def prod_eq_iff)
qed

section \<open>Looking up what is advertised\<close>

lemma splitModelSelector_qualified:
  assumes "trimmed p" "p \<noteq> []" "CHR ''/'' \<notin> set p" "trimmed m" "m \<noteq> []"
  shows "splitModelSelector (p @ CHR ''/'' # m) = (p, m)"
  using assms by (simp add: splitModelSelector_def trimmed_slash cut_append)

lemma GetModel_qualified:
  assumes "trimmed p" "p \<noteq> []" "CHR ''/'' \<notin> set p" "trimmed m" "m \<noteq> []"
    and "map_of (rg_modelsByProvider r) p = Some ms" "map_of ms m = Some info"
  shows "GetModel r (p @ CHR ''/'' # m) = Some info"
  using assms
  by (simp add: GetModel_def splitModelSelector_qualified providerModelInfo_def)

lemma GetModel_bare:
  assumes "trimmed m" "m \<noteq> []" "CHR ''/'' \<notin> set m"
  shows "GetModel r m = map_of (rg_models r) m"
    and "ModelAvailable r m =
      (case map_of (rg_models r) m of None \<Rightarrow> False | Some info \<Rightarrow> \<not> stale r (mi_ProviderName info))"
  using assms
  by (simp_all add: GetModel_def ModelAvailable_def splitModelSelector_def cut_None_iff [THEN iffD2]
      split: option.split)

text \<open>Names that the configuration and the upstreams are expected to use: a provider name has
  no slash, and neither it nor a model ID is blank or padded.\<close>

definition clean_names :: "registry \<Rightarrow> bool" where
  "clean_names r \<longleftrightarrow>
     list_all (\<lambda>(p, ms). trimmed p \<and> p \<noteq> [] \<and> CHR ''/'' \<notin> set p \<and>
       list_all (\<lambda>(m, info). trimmed m \<and> m \<noteq> []) ms) (rg_modelsByProvider r)"

lemma clean_namesD:
  assumes "clean_names r" "map_of (rg_modelsByProvider r) p = Some ms"
  shows "trimmed p" "p \<noteq> []" "CHR ''/'' \<notin> set p"
    "map_of ms m = Some info \<Longrightarrow> trimmed m" "map_of ms m = Some info \<Longrightarrow> m \<noteq> []"
  using assms by (auto simp: clean_names_def list_all_iff dest!: map_of_SomeD)

text \<open>
  C10. Every model the registry advertises can be used: in any reachable state, the public ID of
  an advertised model looks up a model of exactly the provider it is advertised for, and that
  model's bare ID resolves too.
\<close>

theorem advertised_models_resolve:
  assumes "reg_reachable r" and "clean_names r" and "m \<in> set (ListPublicModels audio r)"
  shows "\<exists>info. GetModel r (cm_ID m) = Some info \<and> mi_ProviderName info = cm_OwnedBy m \<and>
           GetProvider r (cm_ID m) = Some (mi_Provider info) \<and>
           cm_ID m = cm_OwnedBy m @ ''/'' @ cm_ID (mi_Model info) \<and>
           providerCanServeModel audio info \<and>
           (CHR ''/'' \<notin> set (cm_ID (mi_Model info)) \<longrightarrow> Supports r (cm_ID (mi_Model info)))"
proof -
  have inv: "wf_inventory (rg_modelsByProvider r)" "globals_ok r"
    using reg_inv_reachable [OF assms(1)] by (simp_all add: reg_inv_def)
  obtain p ms k info where e: "(p, ms) \<in> set (rg_modelsByProvider r)" "(k, info) \<in> set ms"
    and m: "cm_ID m = qualifyPublicModelID p k" "cm_OwnedBy m = p"
    and serve: "providerCanServeModel audio info"
    using assms(3) by (auto simp: ListPublicModels_def)
  have mp: "map_of (rg_modelsByProvider r) p = Some ms"
    using e(1) inv(1) by (simp add: wf_inventory_def)
  then have w: "wf_models p ms" using inv(1) by (simp add: wf_inventory_def)
  then have mk: "map_of ms k = Some info" using e(2) by (simp add: wf_models_def)
  note c = clean_namesD [OF assms(2) mp] clean_namesD(4,5) [OF assms(2) mp mk]
  have q: "qualifyPublicModelID p k = p @ CHR ''/'' # k"
    using c by (simp add: qualifyPublicModelID_def)
  have g: "GetModel r (cm_ID m) = Some info"
    using GetModel_qualified [OF c(1-3) c(6,7) mp mk] m q by simp
  have id: "mi_ProviderName info = p" "cm_ID (mi_Model info) = k"
    using w mk by (auto simp: wf_models_def)
  obtain order where o: "fst ` set (rg_modelsByProvider r) \<subseteq> set order"
    "map_of (rg_models r) k = first_owner (rg_modelsByProvider r) order k"
    using inv(2) by (auto simp: globals_ok_def)
  have "p \<in> set order" using o(1) e(1) by force
  moreover have "map_of (get_or [] (rg_modelsByProvider r) p) k \<noteq> None"
    by (simp add: get_or_def mp mk)
  ultimately have "map_of (rg_models r) k \<noteq> None"
    unfolding o(2) first_owner_None by auto
  then have "CHR ''/'' \<notin> set k \<Longrightarrow> Supports r k"
    using GetModel_bare(1) [OF c(6,7)] by (simp add: Supports_def)
  with g id m q serve show ?thesis
    by (auto simp: GetProvider_def)
qed

theorem advertised_models_resolve_witness:
  "GetModel demo_up ''west/gpt'' \<noteq> None \<and> clean_names demo_up"
proof -
  have c: "clean_names demo_up" by code_simp
  have "map cm_ID (ListPublicModels (\<lambda>p. True) demo_up) = [''east/gpt'', ''west/gpt'']"
    by code_simp
  then have "''west/gpt'' \<in> cm_ID ` set (ListPublicModels (\<lambda>p. True) demo_up)"
    by (metis list.set_map list.set_intros)
  then obtain m where "m \<in> set (ListPublicModels (\<lambda>p. True) demo_up)" "cm_ID m = ''west/gpt''"
    by auto
  with advertised_models_resolve [OF demo_reachable(2) c this(1)] c show ?thesis by auto
qed

section \<open>Which provider a bare model ID resolves to\<close>

lemma order_refresh_views [simp]:
  "freshFirstProviderOrderLocked (refresh_views r) = freshFirstProviderOrderLocked r"
  "freshFirstProviderOrderLocked (r\<lparr>rg_initialized := b\<rparr>) = freshFirstProviderOrderLocked r"
  "freshFirstProviderOrderLocked (r\<lparr>rg_models := ms\<rparr>) = freshFirstProviderOrderLocked r"
  by (simp_all add: freshFirstProviderOrderLocked_def providerOrderNamesLocked_def
      provider_name_def [abs_def] stale_def [abs_def] Let_def)

definition views_fresh :: "registry \<Rightarrow> bool" where
  "views_fresh r \<longleftrightarrow>
     (\<forall>m. map_of (rg_models r) m =
        first_owner (rg_modelsByProvider r)
          (freshFirstProviderOrderLocked r @
           remaining_names (rg_modelsByProvider r) (freshFirstProviderOrderLocked r)) m)"

lemma views_fresh_refresh: "views_fresh ((refresh_views r)\<lparr>rg_initialized := b\<rparr>)"
proof -
  have "rg_models (refresh_views r) =
      rebuildGlobalModelMap (rg_modelsByProvider r) (freshFirstProviderOrderLocked r)"
    by (simp add: refresh_views_def invalidateSortedCaches_def)
  then show ?thesis by (simp add: views_fresh_def rebuild_lookup)
qed

lemma views_fresh_initialize:
  "initialize ptr enrich answers r = (None, r') \<Longrightarrow> views_fresh r'"
  by (auto simp: initialize_def applyFetchedInventory_def Let_def split_beta
      intro: views_fresh_refresh split: if_splits)

lemma first_owner_filter:
  assumes "n \<in> set ns" "map_of (get_or [] catalog n) m \<noteq> None"
  shows "\<exists>k info. k \<in> set ns \<and> map_of (get_or [] catalog k) m = Some info \<and>
           first_owner catalog (ns @ ms) m = Some info"
proof -
  obtain info where "first_owner catalog ns m = Some info"
    using assms first_owner_None [of catalog ns m] by fastforce
  with first_owner_Some [OF this] show ?thesis by (auto simp: first_owner_append)
qed

text \<open>
  After a successful sweep a bare model ID served by any provider whose inventory is fresh
  resolves to a provider with a fresh inventory, never to a failed one, and load balancing sees
  it as available; a model that only failed providers serve still resolves.
\<close>

lemma bare_model_prefers_fresh:
  assumes "reg_reachable r" and "initialize ptr enrich answers r = (None, r')"
    and "trimmed m" and "m \<noteq> []" and "CHR ''/'' \<notin> set m"
    and "n \<in> set (reg_ProviderNames r')" and "map_of (get_or [] (rg_modelsByProvider r') n) m \<noteq> None"
  shows "\<exists>info. GetModel r' m = Some info \<and> mi_ProviderName info \<in> set (reg_ProviderNames r') \<and>
           map_of (get_or [] (rg_modelsByProvider r') (mi_ProviderName info)) m = Some info \<and>
           (\<not> stale r' n \<longrightarrow> \<not> stale r' (mi_ProviderName info) \<and> ModelAvailable r' m)"
proof -
  have inv: "wf_inventory (rg_modelsByProvider r')"
    using reg_inv_initialize [OF reg_inv_reachable [OF assms(1)], of ptr enrich answers] assms(2)
    by (simp add: reg_inv_def)
  let ?names = "reg_ProviderNames r'"
  have names: "providerOrderNamesLocked r' = ?names"
    by (simp add: providerOrderNamesLocked_def reg_ProviderNames_def)
  let ?fresh = "filter (\<lambda>k. \<not> stale r' k) ?names"
  let ?rest = "filter (stale r') ?names"
  let ?rem = "remaining_names (rg_modelsByProvider r') (?fresh @ ?rest)"
  have look: "map_of (rg_models r') m = first_owner (rg_modelsByProvider r') (?fresh @ ?rest @ ?rem) m"
    using views_fresh_initialize [OF assms(2)]
    by (simp add: views_fresh_def freshFirstProviderOrderLocked_def names Let_def)
  have owner: "mi_ProviderName info = k"
    if "map_of (get_or [] (rg_modelsByProvider r') k) m = Some info" for k info
    using wf_get_or [OF inv, of k] that by (simp add: wf_models_def)
  show ?thesis
  proof (cases "stale r' n")
    case True
    then have "n \<in> set (?fresh @ ?rest)" using assms(6) by simp
    from first_owner_filter [OF this assms(7), of ?rem] obtain k info where
      "k \<in> set (?fresh @ ?rest)" "map_of (get_or [] (rg_modelsByProvider r') k) m = Some info"
      "map_of (rg_models r') m = Some info"
      using look by auto
    with True owner show ?thesis by (auto simp: GetModel_bare [OF assms(3-5)])
  next
    case False
    then have "n \<in> set ?fresh" using assms(6) by simp
    from first_owner_filter [OF this assms(7), of "?rest @ ?rem"] obtain k info where
      "k \<in> set ?fresh" "map_of (get_or [] (rg_modelsByProvider r') k) m = Some info"
      "map_of (rg_models r') m = Some info"
      using look by auto
    with owner show ?thesis by (auto simp: GetModel_bare [OF assms(3-5)])
  qed
qed

theorem bare_model_prefers_fresh_witness:
  "ModelAvailable demo_down ''gpt'' \<and> stale demo_down ''east''"
proof -
  have t: "trimmed ''gpt''" unfolding trimmed_iff by code_simp
  have n: "''west'' \<in> set (reg_ProviderNames demo_down)" by code_simp
  have m: "map_of (get_or [] (rg_modelsByProvider demo_down) ''west'') ''gpt'' \<noteq> None" by code_simp
  have st: "stale demo_down ''east''" "\<not> stale demo_down ''west''" by code_simp+
  from bare_model_prefers_fresh [OF demo_reachable(2) demo_sweep_down t _ _ n m] st
  show ?thesis by auto
qed

section \<open>What a sweep keeps\<close>

lemma stale_set_stale: "stale (set_stale n b r) m = (if m = n then b else stale r m)"
  by (simp add: stale_def set_stale_def get_or_def update_conv')

lemma stale_set_stales:
  "stale (foldl (\<lambda>r name. set_stale name (f name) r) r names) m =
     (if m \<in> set names then f m else stale r m)"
  by (induction names arbitrary: r) (auto simp: stale_set_stale)

lemma apply_runtime_update_stale [simp]:
  "rt_inventoryStale (apply_runtime_update u c) = rt_inventoryStale c"
  by (simp add: apply_runtime_update_def Let_def)

lemma stale_runtime_update:
  "stale (r\<lparr>rg_providerRuntime := AList.update n
       (apply_runtime_update u (get_or zero_runtime (rg_providerRuntime r) n)) (rg_providerRuntime r)\<rparr>) m
   = stale r m"
  by (simp add: stale_def get_or_def update_conv')

lemma stale_runtime_updates [simp]:
  "stale (applyProviderRuntimeUpdatesLocked r us) m = stale r m"
proof (induction us arbitrary: r)
  case Nil
  show ?case by (simp add: applyProviderRuntimeUpdatesLocked_def)
next
  case (Cons u us)
  obtain n v where u: "u = (n, v)" by fastforce
  have "applyProviderRuntimeUpdatesLocked r (u # us) =
      applyProviderRuntimeUpdatesLocked (r\<lparr>rg_providerRuntime := AList.update n
        (apply_runtime_update v (get_or zero_runtime (rg_providerRuntime r) n)) (rg_providerRuntime r)\<rparr>) us"
    by (simp add: applyProviderRuntimeUpdatesLocked_def u)
  then show ?case by (simp only: Cons.IH stale_runtime_update)
qed

lemma stale_refresh_views [simp]:
  "stale (refresh_views r) m = stale r m" "stale (r\<lparr>rg_initialized := b\<rparr>) m = stale r m"
  "stale (r\<lparr>rg_modelsByProvider := c\<rparr>) m = stale r m"
  by (simp_all add: stale_def)

lemma carry_forward_spec:
  "carry_forward prev names (f, st) = (f', st') \<Longrightarrow>
   map_of f' n = (case map_of f n of Some ms \<Rightarrow> Some ms
     | None \<Rightarrow> if n \<in> set names \<and> get_or [] prev n \<noteq> [] then Some (get_or [] prev n) else None) \<and>
   (n \<in> set st' \<longleftrightarrow> n \<in> set st \<or> n \<in> set names \<and> map_of f n = None \<and> get_or [] prev n \<noteq> [])"
proof (induction prev names "(f, st)" arbitrary: f st rule: carry_forward.induct)
  case (2 prev name names f st)
  show ?case
  proof (cases "map_of f name = None \<and> get_or [] prev name \<noteq> []")
    case False
    then have e: "(if map_of f name \<noteq> None then (f, st) else if get_or [] prev name = [] then (f, st)
        else (AList.update name (get_or [] prev name) f, name # st)) = (f, st)"
      by auto
    with "2.prems" have c: "carry_forward prev names (f, st) = (f', st')" by (simp only: carry_forward.simps)
    show ?thesis using "2.hyps" [OF e c] False by (auto split: option.splits)
  next
    case True
    then have c: "carry_forward prev names (AList.update name (get_or [] prev name) f, name # st) = (f', st')"
      using "2.prems" by simp
    have e: "(if map_of f name \<noteq> None then (f, st) else if get_or [] prev name = [] then (f, st)
        else (AList.update name (get_or [] prev name) f, name # st)) =
        (AList.update name (get_or [] prev name) f, name # st)"
      using True by simp
    show ?thesis using "2.hyps" [OF e c] True by (auto simp: update_conv' split: option.splits)
  qed
qed (simp split: option.split)

lemma applied_sweep:
  assumes "applyFetchedInventory enrich r f = r'"
  shows "map_of (rg_modelsByProvider r') n =
      (case map_of (enrichFetched enrich (fi_modelsByProvider f)) n of Some ms \<Rightarrow> Some ms
       | None \<Rightarrow> if map_of (fi_runtimeUpdates f) n \<noteq> None \<and> get_or [] (rg_modelsByProvider r) n \<noteq> []
                 then Some (get_or [] (rg_modelsByProvider r) n) else None)"
    and "map_of (fi_runtimeUpdates f) n \<noteq> None \<Longrightarrow>
      stale r' n = (map_of (fi_modelsByProvider f) n = None \<and> get_or [] (rg_modelsByProvider r) n \<noteq> [])"
proof -
  let ?names = "map fst (fi_runtimeUpdates f)"
  obtain cat st where c: "carry_forward (rg_modelsByProvider r) ?names
      (enrichFetched enrich (fi_modelsByProvider f), []) = (cat, st)" by fastforce
  have mem: "n \<in> set ?names \<longleftrightarrow> map_of (fi_runtimeUpdates f) n \<noteq> None"
    by (simp add: map_of_eq_None_iff)
  note spec = carry_forward_spec [OF c, of n]
  let ?r1 = "foldl (\<lambda>r name. set_stale name (name \<in> set st) r)
      (applyProviderRuntimeUpdatesLocked (r\<lparr>rg_modelsByProvider := cat\<rparr>) (fi_runtimeUpdates f)) ?names"
  have r': "r' = (refresh_views ?r1)\<lparr>rg_initialized := True\<rparr>"
    using assms by (simp add: applyFetchedInventory_def c)
  have "core_of ?r1 = core_of (r\<lparr>rg_modelsByProvider := cat\<rparr>)" by simp
  then have "rg_modelsByProvider r' = cat" unfolding r' by (simp add: core_of_def)
  then show "map_of (rg_modelsByProvider r') n =
      (case map_of (enrichFetched enrich (fi_modelsByProvider f)) n of Some ms \<Rightarrow> Some ms
       | None \<Rightarrow> if map_of (fi_runtimeUpdates f) n \<noteq> None \<and> get_or [] (rg_modelsByProvider r) n \<noteq> []
                 then Some (get_or [] (rg_modelsByProvider r) n) else None)"
    using spec unfolding mem by simp
  assume u: "map_of (fi_runtimeUpdates f) n \<noteq> None"
  then have "stale r' n = (n \<in> set st)"
    unfolding r' using mem by (simp only: stale_refresh_views stale_set_stales) simp
  with spec mem u show "stale r' n =
      (map_of (fi_modelsByProvider f) n = None \<and> get_or [] (rg_modelsByProvider r) n \<noteq> [])"
    by (simp add: enrich_lookup)
qed

text \<open>What one provider's answer contributes.\<close>

definition answer_fails :: "fetch_result \<Rightarrow> bool" where
  "answer_fails res \<longleftrightarrow>
     fr_configuredReason res = NotApplied \<and> (fr_err res \<noteq> None \<or> fr_resp res = None) \<or>
     fr_configuredReason res \<noteq> NotApplied \<and> fr_resp res = None"

lemma add_models_inventory:
  "map_of (fi_modelsByProvider (foldl (add_model p name type) out models)) n =
     (if n = name \<and> models \<noteq> [] then map_of (fi_modelsByProvider (foldl (add_model p name type) out models)) n
      else map_of (fi_modelsByProvider out) n)"
proof (cases "n = name")
  case False
  have "map_of (fi_modelsByProvider (foldl (add_model p name type) out models)) n =
      map_of (fi_modelsByProvider out) n"
    using False by (induction models arbitrary: out) (auto simp: add_model_def Let_def update_conv')
  with False show ?thesis by simp
qed (cases models; simp)

lemma add_models_updates [simp]:
  "fi_runtimeUpdates (foldl (add_model p name type) out models) = fi_runtimeUpdates out"
  by (induction models arbitrary: out) (auto simp: add_model_def Let_def)

lemma add_models_name:
  "models \<noteq> [] \<Longrightarrow> map_of (fi_modelsByProvider (foldl (add_model p name type) out models)) name \<noteq> None"
proof (induction models rule: rev_induct)
  case (snoc m ms)
  show ?case by (simp add: add_model_def Let_def update_conv')
qed simp

lemma add_answer_other:
  assumes "n \<noteq> name"
  shows "map_of (fi_modelsByProvider (add_answer out p name type res)) n = map_of (fi_modelsByProvider out) n"
    "map_of (fi_runtimeUpdates (add_answer out p name type res)) n = map_of (fi_runtimeUpdates out) n"
  using assms add_models_inventory [of p name type _ _ n]
  by (auto simp: add_answer_def Let_def update_conv' ensure_key_def split: option.split)

lemma add_answer_same:
  assumes "map_of (fi_modelsByProvider out) name = None"
  shows "map_of (fi_modelsByProvider (add_answer out p name type res)) name = None \<longleftrightarrow> answer_fails res"
    "map_of (fi_runtimeUpdates (add_answer out p name type res)) name \<noteq> None"
  using assms add_models_name
  by (auto simp: add_answer_def Let_def update_conv' ensure_key_def answer_fails_def split: option.split)

lemma fetch_fold:
  assumes "distinct (map (fetch_name ptr ts ns) ps)"
    and "\<forall>q\<in>set ps. map_of (fi_modelsByProvider out) (fetch_name ptr ts ns q) = None"
    and "p \<in> set ps"
  shows "let n = fetch_name ptr ts ns p;
             out' = foldl (\<lambda>out provider.
               let name = fetch_name ptr ts ns provider; type = get_or [] ts provider
               in add_answer out provider name type
                    (fetchProviderInventory (ans provider) name type mode (get_or [] cfg name))) out ps
         in (map_of (fi_modelsByProvider out') n = None \<longleftrightarrow>
               answer_fails (fetchProviderInventory (ans p) n (get_or [] ts p) mode (get_or [] cfg n))) \<and>
            map_of (fi_runtimeUpdates out') n \<noteq> None"
  using assms
proof (induction ps arbitrary: out)
  case (Cons q ps)
  let ?name = "fetch_name ptr ts ns"
  let ?add = "\<lambda>out provider. let name = ?name provider; type = get_or [] ts provider
      in add_answer out provider name type
           (fetchProviderInventory (ans provider) name type mode (get_or [] cfg name))"
  have other: "map_of (fi_modelsByProvider (foldl ?add o1 qs)) n = map_of (fi_modelsByProvider o1) n \<and>
      map_of (fi_runtimeUpdates (foldl ?add o1 qs)) n = map_of (fi_runtimeUpdates o1) n"
    if "n \<notin> ?name ` set qs" for o1 qs n
    using that by (induction qs arbitrary: o1) (simp_all add: Let_def add_answer_other)
  show ?case
  proof (cases "p = q")
    case True
    have "?name q \<notin> ?name ` set ps" using Cons.prems(1) by auto
    then show ?thesis
      using add_answer_same [of out "?name q"] Cons.prems(2) True other [of "?name q" ps "?add out q"]
      by (simp add: Let_def)
  next
    case False
    then have p: "p \<in> set ps" using Cons.prems(3) by simp
    have "\<forall>k\<in>set ps. map_of (fi_modelsByProvider (?add out q)) (?name k) = None"
    proof
      fix k assume k: "k \<in> set ps"
      then have "?name k \<noteq> ?name q" using Cons.prems(1) by (auto simp: image_iff)
      with k Cons.prems(2) show "map_of (fi_modelsByProvider (?add out q)) (?name k) = None"
        by (simp add: Let_def add_answer_other(1))
    qed
    from Cons.IH [OF _ this p] Cons.prems(1) show ?thesis by (simp only: foldl_Cons) simp
  qed
qed simp

lemma fetched_provider:
  assumes "distinct (map (fetch_name ptr ts ns) ps)" and "p \<in> set ps"
  shows "map_of (fi_modelsByProvider (fetchAllProviderModels ptr ans ps ts ns cfg mode))
           (fetch_name ptr ts ns p) = None \<longleftrightarrow>
         answer_fails (fetchProviderInventory (ans p) (fetch_name ptr ts ns p) (get_or [] ts p) mode
           (get_or [] cfg (fetch_name ptr ts ns p)))"
    and "map_of (fi_runtimeUpdates (fetchAllProviderModels ptr ans ps ts ns cfg mode))
           (fetch_name ptr ts ns p) \<noteq> None"
  using fetch_fold [OF assms(1) _ assms(2), of no_inventory ans mode cfg]
  by (simp_all add: fetchAllProviderModels_def no_inventory_def Let_def)

text \<open>When an answer counts as a failure: no configured models apply and the listing failed or
  was nil.\<close>

lemma answer_fails_iff:
  "answer_fails (fetchProviderInventory a name type mode configured) \<longleftrightarrow>
     configured = [] \<and> (pa_err a \<noteq> None \<or> pa_models a = None)"
  by (auto simp: answer_fails_def fetchProviderInventory_def applyConfiguredProviderModels_def Let_def
      split: option.split)

definition fetched_name :: "(provider \<Rightarrow> string) \<Rightarrow> registry \<Rightarrow> provider \<Rightarrow> string" where
  "fetched_name ptr r p = fetch_name ptr (rg_providerTypes r) (rg_providerNames r) p"

text \<open>
  C9. A sweep never loses the models of a provider that fails. When the sweep succeeds, a
  registered provider whose listing failed (and that has no configured models) keeps exactly its
  previous inventory and is marked stale if it has one, every other registered provider gets a
  new inventory and is fresh; when the sweep as a whole yields nothing, no inventory, no view
  and no staleness mark changes.
\<close>

theorem failed_provider_keeps_inventory:
  assumes "distinct (map (fetched_name ptr r) (rg_providers r))" and "p \<in> set (rg_providers r)"
  shows "let n = fetched_name ptr r p;
             (err, r') = initialize ptr enrich answers r;
             failed = (get_or [] (rg_configuredProviderModels r) n = [] \<and>
                       (pa_err (answers p) \<noteq> None \<or> pa_models (answers p) = None))
         in if err = None
            then (if failed
                  then get_or [] (rg_modelsByProvider r') n = get_or [] (rg_modelsByProvider r) n \<and>
                       stale r' n = (get_or [] (rg_modelsByProvider r) n \<noteq> [])
                  else \<not> stale r' n \<and> map_of (rg_modelsByProvider r') n \<noteq> None)
            else rg_modelsByProvider r' = rg_modelsByProvider r \<and> rg_models r' = rg_models r \<and>
                 stale r' n = stale r n"
proof -
  let ?n = "fetched_name ptr r p"
  let ?f = "fetchAllProviderModels ptr answers (rg_providers r) (rg_providerTypes r)
      (rg_providerNames r) (rg_configuredProviderModels r) (rg_configuredProviderModelsMode r)"
  have d: "distinct (map (fetch_name ptr (rg_providerTypes r) (rg_providerNames r)) (rg_providers r))"
    using assms(1) by (simp add: fetched_name_def [abs_def])
  note f = fetched_provider [OF d assms(2), of answers "rg_configuredProviderModels r"
      "rg_configuredProviderModelsMode r", folded fetched_name_def, unfolded answer_fails_iff]
  show ?thesis
  proof (cases "fi_totalModels ?f = 0")
    case True
    have "core_of (applyProviderRuntimeUpdatesLocked r (fi_runtimeUpdates ?f)) = core_of r" by simp
    with True show ?thesis by (simp add: initialize_def core_of_def Let_def)
  next
    case False
    obtain r' where r': "applyFetchedInventory enrich r ?f = r'" by simp
    note sweep = applied_sweep [OF r', of ?n]
    from False f sweep show ?thesis
      by (auto simp: initialize_def r' get_or_def enrich_lookup Let_def split: option.splits)
  qed
qed

theorem failed_provider_keeps_inventory_witness:
  "get_or [] (rg_modelsByProvider demo_down) ''east'' = get_or [] (rg_modelsByProvider demo_up) ''east''
   \<and> stale demo_down ''east''"
proof -
  have d: "distinct (map (fetched_name (\<lambda>p. ''p'') demo_up) (rg_providers demo_up))" by code_simp
  have p: "1 \<in> set (rg_providers demo_up)" by code_simp
  have n: "fetched_name (\<lambda>p. ''p'') demo_up 1 = ''east''" by code_simp
  have c: "get_or [] (rg_configuredProviderModels demo_up) ''east'' = []" by code_simp
  have i: "get_or [] (rg_modelsByProvider demo_up) ''east'' \<noteq> []" by code_simp
  have a: "pa_err (demo_answer None) \<noteq> None" by (simp add: demo_answer_def)
  from failed_provider_keeps_inventory [OF d p, of "\<lambda>p i. None"
      "\<lambda>p. demo_answer (if p = 1 then None else Some [''gpt''])"] n c i a
  show ?thesis by (simp add: Let_def demo_sweep_down [unfolded One_nat_def])
qed

end
