(* ===== verification/Cooldown.thy ===== *)
theory Cooldown
  imports LLMClient Selectors "HOL-Library.AList"
begin

text \<open>
  The cooldown tracker of the router: \<open>internal/providers/cooldown.go\<close> and the use the
  router makes of it (\<open>routeResolvedModelCall\<close> in \<open>router.go\<close>).

  The Go map from keys to entries is an association list with distinct keys (\<open>ct_inv\<close>), so
  that the loops over it are executable; the order of that list stands for the unspecified
  iteration order and no lemma depends on it. Every operation holds the tracker's mutex and
  is one step that takes the reading of the clock as an argument. \<open>float64\<close> values are
  rationals; durations below \<open>2 ^ 53\<close> nanoseconds and the default factor 2 are exact.
\<close>

record cooldown_key =
  ck_ProviderName :: string
  ck_KeyIndex :: int
  ck_Model :: string
  ck_Scope :: string

record cooldown_status =
  cs_CoolingUntil :: go_time
  cs_Active :: bool
  cs_Terminal :: bool

record cooldown_entry =
  ce_until :: go_time
  ce_failures :: nat
  ce_lastFailure :: go_time
  ce_terminal :: bool

record cooldown_tracker =
  ct_entries :: "(cooldown_key \<times> cooldown_entry) list"
  ct_baseCooldown :: go_duration
  ct_maxCooldown :: go_duration
  ct_backoffFactor :: rat
  ct_antiHerdWindow :: go_duration

record cooldown_config =
  cc_BaseCooldown :: go_duration
  cc_MaxCooldown :: go_duration
  cc_BackoffFactor :: rat
  cc_AntiHerdWindow :: go_duration

definition DefaultCooldownConfig :: cooldown_config where
  "DefaultCooldownConfig =
     \<lparr>cc_BaseCooldown = 5 * second, cc_MaxCooldown = 5 * 60 * second,
      cc_BackoffFactor = 2, cc_AntiHerdWindow = 5 * second\<rparr>"

definition NewCooldownTrackerWithConfig :: "cooldown_config \<Rightarrow> cooldown_tracker" where
  "NewCooldownTrackerWithConfig cfg =
     \<lparr>ct_entries = [], ct_baseCooldown = cc_BaseCooldown cfg,
      ct_maxCooldown = cc_MaxCooldown cfg, ct_backoffFactor = cc_BackoffFactor cfg,
      ct_antiHerdWindow = cc_AntiHerdWindow cfg\<rparr>"

definition NewCooldownTracker :: cooldown_tracker where
  "NewCooldownTracker = NewCooldownTrackerWithConfig DefaultCooldownConfig"

definition zero_entry :: cooldown_entry where
  "zero_entry = \<lparr>ce_until = 0, ce_failures = 0, ce_lastFailure = 0, ce_terminal = False\<rparr>"

definition inactive_status :: cooldown_status where
  "inactive_status = \<lparr>cs_CoolingUntil = 0, cs_Active = False, cs_Terminal = False\<rparr>"

definition active_status :: "cooldown_entry \<Rightarrow> cooldown_status" where
  "active_status e = \<lparr>cs_CoolingUntil = ce_until e, cs_Active = True, cs_Terminal = ce_terminal e\<rparr>"

section \<open>Operations\<close>

abbreviation ct_lookup :: "cooldown_tracker \<Rightarrow> cooldown_key \<Rightarrow> cooldown_entry option" where
  "ct_lookup ct \<equiv> map_of (ct_entries ct)"

definition Check ::
  "cooldown_tracker \<Rightarrow> go_time \<Rightarrow> cooldown_key \<Rightarrow> cooldown_status \<times> cooldown_tracker" where
  "Check ct now key =
     (case ct_lookup ct key of
        None \<Rightarrow> (inactive_status, ct)
      | Some e \<Rightarrow>
          if ce_terminal e then (active_status e, ct)
          else if now < ce_until e then (active_status e, ct)
          else (inactive_status, ct\<lparr>ct_entries := AList.delete key (ct_entries ct)\<rparr>))"

primrec escalate :: "nat \<Rightarrow> rat \<Rightarrow> rat \<Rightarrow> rat" where
  \<comment> \<open>\<open>for i := 1; i < failures; i++ { computed *= factor }\<close>\<close>
  "escalate 0 factor computed = computed"
| "escalate (Suc n) factor computed = escalate n factor (computed * factor)"

definition cooldown_length :: "cooldown_tracker \<Rightarrow> nat \<Rightarrow> go_duration \<Rightarrow> go_duration" where
  "cooldown_length ct failures duration =
     truncate_rat
       (if 0 < ct_backoffFactor ct \<and> 1 < failures
        then (let computed = escalate (failures - 1) (ct_backoffFactor ct) (of_int duration)
              in if of_int (ct_maxCooldown ct) < computed then of_int (ct_maxCooldown ct)
                 else computed)
        else of_int duration)"

definition RecordFailure_ct ::
  "cooldown_tracker \<Rightarrow> go_time \<Rightarrow> cooldown_key \<Rightarrow> go_duration \<Rightarrow>
   cooldown_status \<times> cooldown_tracker" where
  "RecordFailure_ct ct now key duration =
     (let e = (case ct_lookup ct key of None \<Rightarrow> zero_entry | Some e \<Rightarrow> e);
          store = (\<lambda>e. (active_status e, ct\<lparr>ct_entries := AList.update key e (ct_entries ct)\<rparr>))
      in if ce_terminal e then store e
         else if time_sub now (ce_lastFailure e) < ct_antiHerdWindow ct
         then store (if ce_until e < now then e\<lparr>ce_until := now + duration\<rparr> else e)
         else
           let failures = ce_failures e + 1
           in store (e\<lparr>ce_failures := failures, ce_lastFailure := now,
                       ce_until := now + cooldown_length ct failures duration\<rparr>))"

definition MarkTerminal :: "cooldown_tracker \<Rightarrow> go_time \<Rightarrow> cooldown_key \<Rightarrow> cooldown_tracker" where
  "MarkTerminal ct now key =
     ct\<lparr>ct_entries := AList.update key
          (zero_entry\<lparr>ce_until := now + 365 * 24 * 60 * 60 * second, ce_terminal := True\<rparr>)
          (ct_entries ct)\<rparr>"

definition ResetCooldown :: "cooldown_tracker \<Rightarrow> cooldown_key \<Rightarrow> cooldown_tracker" where
  "ResetCooldown ct key = ct\<lparr>ct_entries := AList.delete key (ct_entries ct)\<rparr>"

definition ActiveCount :: "cooldown_tracker \<Rightarrow> go_time \<Rightarrow> nat \<times> cooldown_tracker" where
  "ActiveCount ct now =
     (let live = filter (\<lambda>(key, e). ce_terminal e \<or> now < ce_until e) (ct_entries ct)
      in (length live, ct\<lparr>ct_entries := live\<rparr>))"

record cooldown_snapshot =
  sn_key :: cooldown_key
  sn_Active :: bool
  sn_Terminal :: bool
  sn_CoolingUntil :: go_time
  sn_Failures :: nat

definition Snapshot :: "cooldown_tracker \<Rightarrow> go_time \<Rightarrow> cooldown_snapshot list" where
  "Snapshot ct now =
     map (\<lambda>(key, e). \<lparr>sn_key = key, sn_Active = (ce_terminal e \<or> now < ce_until e),
                      sn_Terminal = ce_terminal e, sn_CoolingUntil = ce_until e,
                      sn_Failures = ce_failures e\<rparr>)
       (filter (\<lambda>(key, e). \<not> (\<not> ce_terminal e \<and> \<not> now < ce_until e)) (ct_entries ct))"

section \<open>Classifying an upstream failure\<close>

definition match_at :: "string \<Rightarrow> string \<Rightarrow> nat \<Rightarrow> bool" where
  "match_at s sub i =
     list_all (\<lambda>j. lower_byte (s ! (i + j)) = lower_byte (sub ! j)) [0..<length sub]"

definition containsAny :: "string \<Rightarrow> string \<Rightarrow> bool" where
  "containsAny s sub =
     list_ex (match_at s sub)
       (if length sub \<le> length s then [0..<Suc (length s - length sub)] else [])"

definition terminals :: "string list" where
  "terminals = [''banned'', ''expired'', ''credits_exhausted'', ''insufficient_quota'',
                ''account_deactivated'', ''invalid_api_key'']"

definition isTerminalError :: "string \<Rightarrow> bool" where
  "isTerminalError msg = list_ex (\<lambda>t. 0 < length msg \<and> containsAny msg t) terminals"

definition key_scope :: "string \<Rightarrow> int \<Rightarrow> cooldown_key" where
  "key_scope providerName keyIndex =
     \<lparr>ck_ProviderName = providerName, ck_KeyIndex = keyIndex, ck_Model = [], ck_Scope = ''key''\<rparr>"

definition model_scope :: "string \<Rightarrow> int \<Rightarrow> string \<Rightarrow> cooldown_key" where
  "model_scope providerName keyIndex model =
     \<lparr>ck_ProviderName = providerName, ck_KeyIndex = keyIndex, ck_Model = model,
      ck_Scope = ''model''\<rparr>"

definition RecordFailureFromStatusCode ::
  "cooldown_tracker \<Rightarrow> go_time \<Rightarrow> string \<Rightarrow> int \<Rightarrow> string \<Rightarrow> int \<Rightarrow> go_duration \<Rightarrow> string \<Rightarrow>
   cooldown_tracker" where
  "RecordFailureFromStatusCode ct now providerName keyIndex model statusCode retryAfter errorMessage =
     (if statusCode = 401 \<or> statusCode = 403
      then (let key = key_scope providerName keyIndex
            in if isTerminalError errorMessage then MarkTerminal ct now key
               else snd (RecordFailure_ct ct now key (5 * second)))
      else if statusCode = 429
      then (let retryAfter = (if retryAfter \<le> 0 then 5 * second else retryAfter)
            in snd (RecordFailure_ct ct now (key_scope providerName keyIndex) retryAfter))
      else if statusCode = 404 \<and> model \<noteq> []
      then snd (RecordFailure_ct ct now (model_scope providerName keyIndex model) (30 * second))
      else ct)"

section \<open>The router's use of the tracker\<close>

text \<open>
  The second half of \<open>routeResolvedModelCall\<close>: the cooldown checks for the resolved selector,
  the provider call, and the recording of its failure. The three readings of the clock are
  those of the two checks and of the recording; \<open>call\<close> is the provider. The texts of the two
  refusals go through \<open>fmt\<close> and \<open>time.Format\<close> and are parameters. The second component of
  the result says whether the provider was called.
\<close>

record gate_text =
  gt_provider :: "string \<Rightarrow> go_time \<Rightarrow> string"
  gt_model :: "string \<Rightarrow> string \<Rightarrow> go_time \<Rightarrow> string"

definition provider_scope :: "string \<Rightarrow> cooldown_key" where
  "provider_scope providerName =
     \<lparr>ck_ProviderName = providerName, ck_KeyIndex = 0, ck_Model = [], ck_Scope = ''provider''\<rparr>"

definition record_call_failure ::
  "cooldown_tracker \<Rightarrow> go_time \<Rightarrow> model_selector \<Rightarrow> go_error \<Rightarrow> cooldown_tracker" where
  "record_call_failure ct now sel err =
     (case as_gateway err of
        None \<Rightarrow> ct
      | Some gw \<Rightarrow>
          RecordFailureFromStatusCode ct now (ms_Provider sel) 0 (ms_Model sel) (ge_status gw) 0
            (case ge_err gw of None \<Rightarrow> [] | Some e \<Rightarrow> error_string e))"

definition guarded_call ::
  "gate_text \<Rightarrow> cooldown_tracker \<Rightarrow> go_time \<Rightarrow> go_time \<Rightarrow> go_time \<Rightarrow> model_selector \<Rightarrow>
   (model_selector \<Rightarrow> go_error + 'r) \<Rightarrow> (go_error + 'r) \<times> bool \<times> cooldown_tracker" where
  "guarded_call gt ct t1 t2 t3 sel call =
     (let providerName = ms_Provider sel;
          (status, ct1) = Check ct t1 (provider_scope providerName)
      in if cs_Active status
         then (Inl (NewRateLimitError providerName (gt_provider gt providerName (cs_CoolingUntil status))),
               False, ct1)
         else
           let (modelStatus, ct2) =
             (if ms_Model sel \<noteq> [] then Check ct1 t2 (model_scope providerName 0 (ms_Model sel))
              else (inactive_status, ct1))
           in if cs_Active modelStatus
              then (Inl (NewRateLimitError providerName
                      (gt_model gt (ms_Model sel) providerName (cs_CoolingUntil modelStatus))),
                    False, ct2)
              else case call sel of
                  Inr resp \<Rightarrow> (Inr resp, True, ct2)
                | Inl err \<Rightarrow> (Inl err, True, record_call_failure ct2 t3 sel err))"

section \<open>Case-insensitive search\<close>

lemma match_at_iff:
  assumes "i + length sub \<le> length s"
  shows "match_at s sub i \<longleftrightarrow> has_prefix (drop i (map lower_byte s)) (map lower_byte sub)"
proof -
  have "match_at s sub i \<longleftrightarrow> (\<forall>j<length sub. lower_byte (s ! (i + j)) = lower_byte (sub ! j))"
    by (simp add: match_at_def list_all_iff Ball_def)
  also have "\<dots> \<longleftrightarrow> take (length sub) (drop i (map lower_byte s)) = map lower_byte sub"
    using assms by (subst list_eq_iff_nth_eq) auto
  finally show ?thesis by (simp add: has_prefix_take)
qed

text \<open>
  The search for a terminal error is the case-insensitive substring test: \<open>containsAny\<close>
  agrees with searching the lowered pattern in the lowered text, for all strings.
\<close>

lemma containsAny_correct:
  "containsAny s sub = go_contains (map lower_byte s) (map lower_byte sub)"
proof (cases "length sub \<le> length s")
  case True
  then have "containsAny s sub \<longleftrightarrow> (\<exists>i\<le>length s - length sub. match_at s sub i)"
    by (simp add: containsAny_def list_ex_iff Bex_def less_Suc_eq_le del: upt_Suc)
  also have "\<dots> \<longleftrightarrow> (\<exists>i\<le>length s - length sub.
      has_prefix (drop i (map lower_byte s)) (map lower_byte sub))"
    using match_at_iff [of _ sub s] True by auto
  also have "\<dots> \<longleftrightarrow> (\<exists>i. has_prefix (drop i (map lower_byte s)) (map lower_byte sub))"
  proof -
    have "i \<le> length s - length sub \<or> has_prefix (drop 0 (map lower_byte s)) (map lower_byte sub)"
      if "has_prefix (drop i (map lower_byte s)) (map lower_byte sub)" for i
      using has_prefix_length [OF that] True by (cases sub) auto
    then show ?thesis by (metis le0)
  qed
  also have "\<dots> \<longleftrightarrow> go_contains (map lower_byte s) (map lower_byte sub)"
    unfolding go_contains_iff has_prefix_iff
    by (metis append_take_drop_id append_eq_conv_conj)
  finally show ?thesis by simp
next
  case False
  then have "\<not> containsAny s sub" by (simp add: containsAny_def)
  moreover have "\<not> go_contains (map lower_byte s) (map lower_byte sub)"
  proof
    assume "go_contains (map lower_byte s) (map lower_byte sub)"
    then obtain a b where "map lower_byte s = a @ map lower_byte sub @ b"
      by (auto simp: go_contains_iff)
    from arg_cong [OF this, of length] False show False by simp
  qed
  ultimately show ?thesis by blast
qed

section \<open>Facts about the entry list\<close>

lemma map_of_filter_entries:
  "distinct (map fst al) \<Longrightarrow>
   map_of (filter (\<lambda>(k, v). P v) al) key =
     (case map_of al key of None \<Rightarrow> None | Some v \<Rightarrow> if P v then Some v else None)"
  by (induction al) (auto split: option.splits simp: map_of_eq_None_iff image_iff)

lemma escalate_power: "escalate n factor c = c * factor ^ n"
  by (induction n arbitrary: c) (simp_all add: algebra_simps)

lemma lookup_update [simp]:
  "ct_lookup (ct\<lparr>ct_entries := AList.update k e (ct_entries ct)\<rparr>) = (ct_lookup ct)(k \<mapsto> e)"
  by (simp add: update_conv')

lemma lookup_delete [simp]:
  "ct_lookup (ct\<lparr>ct_entries := AList.delete k (ct_entries ct)\<rparr>) = (ct_lookup ct)(k := None)"
  by (simp add: delete_conv')

definition ct_inv :: "cooldown_tracker \<Rightarrow> bool" where
  "ct_inv ct \<longleftrightarrow> distinct (map fst (ct_entries ct))"

lemma ct_inv_update:
  "ct_inv ct \<Longrightarrow> ct_inv (ct\<lparr>ct_entries := AList.update k e (ct_entries ct)\<rparr>)"
  by (simp add: ct_inv_def distinct_update)

lemma ct_inv_delete:
  "ct_inv ct \<Longrightarrow> ct_inv (ct\<lparr>ct_entries := AList.delete k (ct_entries ct)\<rparr>)"
  by (simp add: ct_inv_def distinct_delete)

lemmas ct_inv_intros [intro] = ct_inv_update ct_inv_delete

text \<open>What \<open>Check\<close> answers is a function of the entry alone.\<close>

definition entry_status :: "go_time \<Rightarrow> cooldown_entry option \<Rightarrow> cooldown_status" where
  "entry_status now oe =
     (case oe of None \<Rightarrow> inactive_status
      | Some e \<Rightarrow> if ce_terminal e \<or> now < ce_until e then active_status e else inactive_status)"

lemma Check_status: "fst (Check ct now key) = entry_status now (ct_lookup ct key)"
  by (simp add: Check_def entry_status_def split: option.split)

lemma Check_lookup:
  "ct_lookup (snd (Check ct now key)) k =
     (if k = key \<and> \<not> cs_Active (entry_status now (ct_lookup ct key)) then None else ct_lookup ct k)"
  by (auto simp: Check_def entry_status_def active_status_def inactive_status_def delete_conv'
      split: option.split)

lemma entry_status_None [simp]: "entry_status now None = inactive_status"
  by (simp add: entry_status_def)

lemma status_simps [simp]:
  "cs_Active (active_status e)" "cs_Terminal (active_status e) = ce_terminal e"
  "cs_CoolingUntil (active_status e) = ce_until e"
  "\<not> cs_Active inactive_status" "\<not> cs_Terminal inactive_status"
  by (simp_all add: active_status_def inactive_status_def)

section \<open>Histories of the tracker\<close>

datatype ct_op =
    OpCheck cooldown_key
  | OpFailure cooldown_key go_duration
  | OpTerminal cooldown_key
  | OpReset cooldown_key
  | OpActiveCount

fun ct_step :: "cooldown_tracker \<Rightarrow> go_time \<times> ct_op \<Rightarrow> cooldown_tracker" where
  "ct_step ct (now, OpCheck k) = snd (Check ct now k)"
| "ct_step ct (now, OpFailure k d) = snd (RecordFailure_ct ct now k d)"
| "ct_step ct (now, OpTerminal k) = MarkTerminal ct now k"
| "ct_step ct (now, OpReset k) = ResetCooldown ct k"
| "ct_step ct (now, OpActiveCount) = snd (ActiveCount ct now)"

definition ct_run :: "cooldown_tracker \<Rightarrow> (go_time \<times> ct_op) list \<Rightarrow> cooldown_tracker" where
  "ct_run ct ops = foldl ct_step ct ops"

lemma ct_run_simps [simp]:
  "ct_run ct [] = ct" "ct_run ct (op # ops) = ct_run (ct_step ct op) ops"
  "ct_run ct (ops @ ops') = ct_run (ct_run ct ops) ops'"
  by (simp_all add: ct_run_def)

lemma RecordFailure_entries:
  "\<exists>e. snd (RecordFailure_ct ct now k d) = ct\<lparr>ct_entries := AList.update k e (ct_entries ct)\<rparr> \<and>
       fst (RecordFailure_ct ct now k d) = active_status e"
  by (auto simp: RecordFailure_ct_def Let_def)

lemma ct_inv_step: "ct_inv ct \<Longrightarrow> ct_inv (ct_step ct op)"
proof (cases op)
  case (Pair now o')
  assume i: "ct_inv ct"
  show ?thesis
  proof (cases o')
    case (OpFailure k d)
    then show ?thesis using Pair i RecordFailure_entries [of ct now k d] by auto
  qed (use Pair i in \<open>auto simp: Check_def MarkTerminal_def ResetCooldown_def ActiveCount_def
      ct_inv_def Let_def distinct_update distinct_delete distinct_map_filter split: option.split\<close>)
qed

lemma ct_inv_run: "ct_inv ct \<Longrightarrow> ct_inv (ct_run ct ops)"
  by (induction ops arbitrary: ct) (auto intro: ct_inv_step)

lemma ct_inv_new: "ct_inv (NewCooldownTrackerWithConfig cfg)"
  by (simp add: ct_inv_def NewCooldownTrackerWithConfig_def)

lemma ActiveCount_lookup:
  "ct_inv ct \<Longrightarrow> ct_lookup (snd (ActiveCount ct now)) key =
     (case ct_lookup ct key of None \<Rightarrow> None
      | Some e \<Rightarrow> if ce_terminal e \<or> now < ce_until e then Some e else None)"
  by (simp add: ActiveCount_def Let_def ct_inv_def map_of_filter_entries)

lemma live_keys:
  assumes "ct_inv ct"
  shows "set (map fst (filter (\<lambda>(key, e). ce_terminal e \<or> now < ce_until e) (ct_entries ct))) =
         {k. cs_Active (entry_status now (ct_lookup ct k))}"
proof -
  let ?live = "filter (\<lambda>(key, e). ce_terminal e \<or> now < ce_until e) (ct_entries ct)"
  have "k \<in> set (map fst ?live) \<longleftrightarrow> map_of ?live k \<noteq> None" for k
    by (simp add: map_of_eq_None_iff)
  moreover have "map_of ?live k \<noteq> None \<longleftrightarrow> cs_Active (entry_status now (ct_lookup ct k))" for k
    using assms by (simp add: map_of_filter_entries ct_inv_def entry_status_def
        split: option.splits)
  ultimately show ?thesis by (intro set_eqI) (simp only: mem_Collect_eq)
qed

lemma card_active:
  assumes "ct_inv ct"
  shows "card {k. cs_Active (entry_status now (ct_lookup ct k))} = fst (ActiveCount ct now)"
proof -
  let ?live = "filter (\<lambda>(key, e). ce_terminal e \<or> now < ce_until e) (ct_entries ct)"
  have "distinct (map fst ?live)" using assms by (simp add: ct_inv_def distinct_map_filter)
  then have "card (set (map fst ?live)) = length (map fst ?live)" by (rule distinct_card)
  then show ?thesis unfolding live_keys [OF assms] by (simp add: ActiveCount_def Let_def)
qed

text \<open>
  A key marked terminal stays blocked for good: whatever happens to the tracker
  afterwards, at whatever times, other than a reset of that key, its status is active and
  terminal.
\<close>

lemma terminal_is_permanent:
  assumes "\<forall>t. (t, OpReset key) \<notin> set ops"
  shows "let ct' = ct_run (MarkTerminal (ct_run (NewCooldownTrackerWithConfig cfg) before) t0 key) ops
         in cs_Active (fst (Check ct' now key)) \<and> cs_Terminal (fst (Check ct' now key))"
proof -
  have keep: "\<exists>e. ct_lookup (ct_run ct ops) key = Some e \<and> ce_terminal e"
    if "ct_inv ct" "\<exists>e. ct_lookup ct key = Some e \<and> ce_terminal e" "\<forall>t. (t, OpReset key) \<notin> set ops"
    for ct ops
    using that
  proof (induction ops arbitrary: ct)
    case (Cons op ops)
    obtain e where e: "ct_lookup ct key = Some e" "ce_terminal e" using Cons.prems(2) by blast
    have "\<exists>e. ct_lookup (ct_step ct op) key = Some e \<and> ce_terminal e"
    proof (cases op)
      case (Pair now o')
      show ?thesis
        using e Cons.prems Pair
        by (cases o') (auto simp: Check_lookup entry_status_def RecordFailure_ct_def Let_def
            MarkTerminal_def ResetCooldown_def ActiveCount_lookup update_conv' delete_conv')
    qed
    with Cons.IH [of "ct_step ct op"] Cons.prems ct_inv_step show ?case by auto
  qed simp
  define ct where "ct = MarkTerminal (ct_run (NewCooldownTrackerWithConfig cfg) before) t0 key"
  have "ct_inv ct" unfolding ct_def MarkTerminal_def
    by (intro ct_inv_update ct_inv_run ct_inv_new)
  moreover have "\<exists>e. ct_lookup ct key = Some e \<and> ce_terminal e"
    by (simp add: ct_def MarkTerminal_def update_conv')
  ultimately obtain e where "ct_lookup (ct_run ct ops) key = Some e" "ce_terminal e"
    using keep assms by blast
  then show ?thesis by (simp add: Let_def Check_status entry_status_def flip: ct_def)
qed

theorem terminal_is_permanent_witness:
  "let k = key_scope ''openai'' 0;
       ct = ct_run (MarkTerminal (ct_run (NewCooldownTrackerWithConfig DefaultCooldownConfig) []) 5 k)
              [(6, OpCheck k), (7, OpFailure k 1), (10 ^ 30, OpActiveCount)]
   in cs_Active (fst (Check ct (10 ^ 40) k)) \<and> cs_Terminal (fst (Check ct (10 ^ 40) k))"
  using terminal_is_permanent [of "key_scope ''openai'' 0"
      "[(6, OpCheck (key_scope ''openai'' 0)), (7, OpFailure (key_scope ''openai'' 0) 1),
        (10 ^ 30, OpActiveCount)]" DefaultCooldownConfig "[]" 5 "10 ^ 40"]
  by (simp add: Let_def)

text \<open>
  In every state the tracker can reach, \<open>ActiveCount\<close> is the number of keys whose check is
  active, the snapshot lists exactly those, each once, and dropping the expired entries
  changes no later answer.
\<close>

lemma active_count_correct:
  "let ct = ct_run (NewCooldownTrackerWithConfig cfg) ops; (n, ct') = ActiveCount ct now
   in n = card {k. cs_Active (fst (Check ct now k))} \<and>
      set (map sn_key (Snapshot ct now)) = {k. cs_Active (fst (Check ct now k))} \<and>
      length (Snapshot ct now) = n \<and> distinct (map sn_key (Snapshot ct now)) \<and>
      fst (Check ct' (now + int d) k) = fst (Check ct (now + int d) k)"
proof -
  define ct where "ct = ct_run (NewCooldownTrackerWithConfig cfg) ops"
  have i: "ct_inv ct" unfolding ct_def by (intro ct_inv_run ct_inv_new)
  have s: "map sn_key (Snapshot ct now) =
      map fst (filter (\<lambda>(key, e). ce_terminal e \<or> now < ce_until e) (ct_entries ct))"
    by (simp add: Snapshot_def case_prod_unfold comp_def)
  have set: "set (map sn_key (Snapshot ct now)) = {k. cs_Active (fst (Check ct now k))}"
    unfolding s live_keys [OF i] by (simp add: Check_status)
  have "length (Snapshot ct now) = fst (ActiveCount ct now)"
    using arg_cong [OF s, of length] by (simp add: ActiveCount_def Let_def)
  moreover have "distinct (map sn_key (Snapshot ct now))"
    unfolding s using i by (simp add: ct_inv_def distinct_map_filter)
  moreover have "fst (Check (snd (ActiveCount ct now)) (now + int d) k) = fst (Check ct (now + int d) k)"
    by (auto simp: Check_status ActiveCount_lookup [OF i] entry_status_def split: option.split)
  ultimately show ?thesis
    using set card_active [OF i, of now]
    by (simp add: Let_def split_beta Check_status flip: ct_def)
qed

section \<open>Backing off\<close>

text \<open>Which failures of a key count: the first, and each that comes a full anti-herd window
  after the last one that counted. \<open>storm\<close> returns the last counted failure and their number.\<close>

fun storm :: "go_duration \<Rightarrow> go_time \<Rightarrow> nat \<Rightarrow> go_time list \<Rightarrow> go_time \<times> nat" where
  "storm w last_t n [] = (last_t, n)"
| "storm w last_t n (t # ts) =
     (if t - last_t < w then storm w last_t n ts else storm w t (Suc n) ts)"

definition default_length :: "nat \<Rightarrow> go_duration \<Rightarrow> go_duration" where
  "default_length n d = min (300 * second) (d * 2 ^ (n - 1))"

lemma second_pos: "0 < second" by (simp add: second_def)

lemma truncate_rat_of_int [simp]: "truncate_rat (of_int z) = z"
  by (simp add: truncate_rat_def)

lemma cooldown_length_default:
  assumes "ct_backoffFactor ct = 2" "ct_maxCooldown ct = 300 * second" "0 < n" "d \<le> 300 * second"
  shows "cooldown_length ct n d = default_length n d"
proof (cases "n = 1")
  case True
  with assms show ?thesis by (simp add: cooldown_length_def default_length_def)
next
  case False
  have "escalate (n - 1) 2 (of_int d) = of_int (d * 2 ^ (n - 1))"
    by (simp add: escalate_power)
  with False assms(1-3) show ?thesis
    by (simp add: cooldown_length_def default_length_def Let_def min_def
        del: of_int_mult of_int_power)
qed

lemma default_length_window:
  assumes "5 * second \<le> d"
  shows "5 * second \<le> default_length n d"
proof -
  have "d * 1 \<le> d * 2 ^ (n - 1)"
    using assms second_pos by (intro mult_left_mono) auto
  with assms have "5 * second \<le> d * 2 ^ (n - 1)" by (simp only: mult_1_right)
  moreover have "5 * second \<le> 300 * second" using second_pos by simp
  ultimately show ?thesis unfolding default_length_def by (rule min.boundedI [rotated])
qed

lemma time_sub_window:
  "time_sub t u < 5 * second \<longleftrightarrow> t - u < 5 * second"
  by (rule time_sub_less_iff) (simp_all add: second_def min_duration_def max_duration_def)

definition failed_entry :: "go_time \<Rightarrow> nat \<Rightarrow> go_duration \<Rightarrow> cooldown_entry" where
  "failed_entry t n d =
     \<lparr>ce_until = t + default_length n d, ce_failures = n, ce_lastFailure = t, ce_terminal = False\<rparr>"

definition default_params :: "cooldown_tracker \<Rightarrow> bool" where
  "default_params ct \<longleftrightarrow> ct_backoffFactor ct = 2 \<and> ct_maxCooldown ct = 300 * second \<and>
     ct_antiHerdWindow ct = 5 * second"

lemma default_params_new: "default_params NewCooldownTracker"
  by (simp add: default_params_def NewCooldownTracker_def NewCooldownTrackerWithConfig_def
      DefaultCooldownConfig_def)

lemma default_params_update [simp]:
  "default_params (ct\<lparr>ct_entries := es\<rparr>) = default_params ct"
  by (simp add: default_params_def)

lemma fail_fresh:
  assumes "default_params ct" "ct_lookup ct k = None" "5 * second \<le> t" "d \<le> 300 * second"
  shows "snd (RecordFailure_ct ct t k d) =
         ct\<lparr>ct_entries := AList.update k (failed_entry t 1 d) (ct_entries ct)\<rparr>"
  using assms
  by (simp add: RecordFailure_ct_def zero_entry_def default_params_def time_sub_window
      cooldown_length_default failed_entry_def)

lemma fail_again:
  assumes "default_params ct" "ct_lookup ct k = Some (failed_entry u n d)" "0 < n" "u \<le> t"
    "5 * second \<le> d" "d \<le> 300 * second"
  shows "snd (RecordFailure_ct ct t k d) =
         ct\<lparr>ct_entries := AList.update k
              (if t - u < 5 * second then failed_entry u n d else failed_entry t (Suc n) d)
              (ct_entries ct)\<rparr>"
proof (cases "t - u < 5 * second")
  case True
  have "\<not> u + default_length n d < t"
    using True default_length_window [OF assms(5), of n] by linarith
  with True assms(1,2) show ?thesis
    by (simp add: RecordFailure_ct_def default_params_def time_sub_window failed_entry_def Let_def)
next
  case False
  with assms show ?thesis
    by (simp add: RecordFailure_ct_def default_params_def time_sub_window failed_entry_def
        cooldown_length_default)
qed

lemma storm_run:
  "default_params ct \<Longrightarrow> ct_lookup ct k = Some (failed_entry u n d) \<Longrightarrow> 0 < n \<Longrightarrow> sorted (u # ts) \<Longrightarrow>
   5 * second \<le> d \<Longrightarrow> d \<le> 300 * second \<Longrightarrow>
   ct_lookup (ct_run ct (map (\<lambda>t. (t, OpFailure k d)) ts)) k =
     (case storm (5 * second) u n ts of (t, m) \<Rightarrow> Some (failed_entry t m d))"
proof (induction ts arbitrary: ct u n)
  case (Cons t ts)
  from Cons.prems have "u \<le> t" "sorted (t # ts)" "sorted (u # ts)" by auto
  then show ?case
    using Cons.prems Cons.IH by (simp add: fail_again update_conv')
qed simp

text \<open>
  Under the default configuration, however the failures of a key are spread over time,
  failures inside the anti-herd window of the last counted one change nothing, and the
  \<open>n\<close>-th counted failure cools the key for the base duration doubled \<open>n - 1\<close> times and capped
  at five minutes.
\<close>

lemma cooldown_backoff:
  assumes "sorted (t0 # ts)" and "5 * second \<le> t0" and "5 * second \<le> d" and "d \<le> 300 * second"
  shows "let ct = ct_run NewCooldownTracker (map (\<lambda>t. (t, OpFailure key d)) (t0 # ts));
             (t, n) = storm (5 * second) t0 1 ts; until = t + min (300 * second) (d * 2 ^ (n - 1))
         in ct_lookup ct key = Some \<lparr>ce_until = until, ce_failures = n, ce_lastFailure = t,
                                    ce_terminal = False\<rparr> \<and>
            cs_Active (fst (Check ct now key)) = (now < until)"
proof -
  let ?ct0 = "snd (RecordFailure_ct NewCooldownTracker t0 key d)"
  have e: "ct_lookup NewCooldownTracker key = None"
    by (simp add: NewCooldownTracker_def NewCooldownTrackerWithConfig_def)
  have f: "?ct0 = NewCooldownTracker\<lparr>ct_entries :=
      AList.update key (failed_entry t0 1 d) (ct_entries NewCooldownTracker)\<rparr>"
    by (rule fail_fresh [OF default_params_new e assms(2,4)])
  obtain t n where st: "storm (5 * second) t0 1 ts = (t, n)" by fastforce
  have "ct_lookup (ct_run ?ct0 (map (\<lambda>t. (t, OpFailure key d)) ts)) key = Some (failed_entry t n d)"
    using storm_run [of ?ct0 key t0 1 d ts] assms st default_params_new
    unfolding f by (simp add: update_conv')
  then show ?thesis
    using st by (simp add: Check_status entry_status_def failed_entry_def default_length_def)
qed

theorem cooldown_backoff_witness:
  "let ct = ct_run NewCooldownTracker
              (map (\<lambda>t. (t, OpFailure (key_scope ''openai'' 0) (5 * second)))
                 [100 * second, 102 * second, 106 * second])
   in cs_Active (fst (Check ct (115 * second) (key_scope ''openai'' 0)))"
  using cooldown_backoff [of "100 * second" "[102 * second, 106 * second]" "5 * second"
      "key_scope ''openai'' 0" "115 * second"]
  by (simp add: second_def Let_def)

section \<open>What the router's checks see\<close>

record router_call =
  rc_t1 :: go_time
  rc_t2 :: go_time
  rc_t3 :: go_time
  rc_selector :: model_selector

fun route_run ::
  "gate_text \<Rightarrow> cooldown_tracker \<Rightarrow> (router_call \<times> (model_selector \<Rightarrow> go_error + 'r)) list \<Rightarrow>
   cooldown_tracker" where
  "route_run gt ct [] = ct"
| "route_run gt ct ((c, call) # cs) =
     route_run gt (snd (snd (guarded_call gt ct (rc_t1 c) (rc_t2 c) (rc_t3 c) (rc_selector c) call))) cs"

definition no_provider_scope :: "cooldown_tracker \<Rightarrow> bool" where
  "no_provider_scope ct \<longleftrightarrow> (\<forall>p. ct_lookup ct (provider_scope p) = None)"

lemma scopes_differ [simp]:
  "provider_scope p \<noteq> key_scope q i" "provider_scope p \<noteq> model_scope q i m"
  "key_scope q i \<noteq> provider_scope p" "model_scope q i m \<noteq> provider_scope p"
  "key_scope q i \<noteq> model_scope p j m" "model_scope p j m \<noteq> key_scope q i"
  by (simp_all add: provider_scope_def key_scope_def model_scope_def)

lemma RecordFailure_lookup_other:
  "k \<noteq> key \<Longrightarrow> ct_lookup (snd (RecordFailure_ct ct now key d)) k = ct_lookup ct k"
  using RecordFailure_entries [of ct now key d] by (auto simp: update_conv')

lemma status_code_scope:
  "ct_lookup (RecordFailureFromStatusCode ct now p i m st ra msg) (provider_scope q) =
   ct_lookup ct (provider_scope q)"
  by (simp add: RecordFailureFromStatusCode_def Let_def RecordFailure_lookup_other
      MarkTerminal_def update_conv')

lemma no_provider_scope_call:
  "no_provider_scope ct \<Longrightarrow> no_provider_scope (snd (snd (guarded_call gt ct t1 t2 t3 sel call)))"
  by (auto simp: no_provider_scope_def guarded_call_def Let_def split_beta Check_lookup
      record_call_failure_def status_code_scope split: sum.split option.split)

lemma no_provider_scope_run:
  "no_provider_scope ct \<Longrightarrow> no_provider_scope (route_run gt ct cs)"
  by (induction gt ct cs rule: route_run.induct) (simp_all add: no_provider_scope_call)

lemma guarded_call_eq:
  assumes "no_provider_scope ct"
  shows "fst (guarded_call gt ct t1 t2 t3 sel call) =
    (let st = entry_status t2 (ct_lookup ct (model_scope (ms_Provider sel) 0 (ms_Model sel)))
     in if ms_Model sel \<noteq> [] \<and> cs_Active st
        then Inl (NewRateLimitError (ms_Provider sel)
                    (gt_model gt (ms_Model sel) (ms_Provider sel) (cs_CoolingUntil st)))
        else call sel) \<and>
    fst (snd (guarded_call gt ct t1 t2 t3 sel call)) =
     (\<not> (ms_Model sel \<noteq> [] \<and>
         cs_Active (entry_status t2 (ct_lookup ct (model_scope (ms_Provider sel) 0 (ms_Model sel))))))"
  using assms
  by (auto simp: no_provider_scope_def guarded_call_def Let_def split_beta Check_status Check_lookup
      split: sum.split)

text \<open>
  The router's provider-level cooldown check never fires: after any history of calls,
  whatever failures (401, 403, 429 included) they ended with, a call is refused only by the
  lockout of its own model, and otherwise reaches the provider. The failures are recorded
  under the scope \<open>key\<close>, the check reads the scope \<open>provider\<close>.
\<close>

lemma provider_cooldown_never_fires:
  "let ct = route_run gt NewCooldownTracker history;
       lock = fst (Check ct t2 (model_scope (ms_Provider sel) 0 (ms_Model sel)))
   in fst (guarded_call gt ct t1 t2 t3 sel call) =
        (if ms_Model sel \<noteq> [] \<and> cs_Active lock
         then Inl (NewRateLimitError (ms_Provider sel)
                     (gt_model gt (ms_Model sel) (ms_Provider sel) (cs_CoolingUntil lock)))
         else call sel)"
proof -
  have "no_provider_scope NewCooldownTracker"
    by (simp add: no_provider_scope_def NewCooldownTracker_def NewCooldownTrackerWithConfig_def)
  then have "no_provider_scope (route_run gt NewCooldownTracker history)"
    by (rule no_provider_scope_run)
  from guarded_call_eq [OF this, of gt t1 t2 t3 sel call] show ?thesis
    by (simp add: Let_def Check_status)
qed

lemma default_params_status_code:
  "default_params ct \<Longrightarrow> default_params (RecordFailureFromStatusCode ct now p i m st ra msg)"
  by (simp add: RecordFailureFromStatusCode_def RecordFailure_ct_def MarkTerminal_def Let_def)

lemma default_params_call:
  "default_params ct \<Longrightarrow> default_params (snd (snd (guarded_call gt ct t1 t2 t3 sel call)))"
proof -
  assume d: "default_params ct"
  have c: "default_params (snd (Check ct t k))" if "default_params ct" for ct t k
    using that by (simp add: Check_def split: option.split)
  show ?thesis
    using d c by (auto simp: guarded_call_def Let_def split_beta record_call_failure_def
        default_params_status_code split: sum.split option.split)
qed

lemma default_params_run: "default_params ct \<Longrightarrow> default_params (route_run gt ct cs)"
  by (induction gt ct cs rule: route_run.induct) (simp_all add: default_params_call)

lemma model_scope_inj: "model_scope (ms_Provider s) 0 (ms_Model s) =
    model_scope (ms_Provider s') 0 (ms_Model s') \<longleftrightarrow> s = (s' :: model_selector)"
  by (cases s; cases s') (auto simp: model_scope_def)

lemma lockout_entry:
  assumes "default_params ct" "no_provider_scope ct"
    and "call sel = Inl err" "as_gateway err = Some gw" "ge_status gw = 404" "ms_Model sel \<noteq> []"
    and "5 * second \<le> t3"
    and "fst (snd (guarded_call gt ct t1 t2 t3 sel call))"
  shows "ct_lookup (snd (snd (guarded_call gt ct t1 t2 t3 sel call))) =
    (ct_lookup ct)(model_scope (ms_Provider sel) 0 (ms_Model sel) \<mapsto> failed_entry t3 1 (30 * second))"
proof -
  let ?k = "model_scope (ms_Provider sel) 0 (ms_Model sel)"
  let ?p = "provider_scope (ms_Provider sel)"
  have p: "Check ct t1 ?p = (inactive_status, ct)"
    using assms(2) by (simp add: Check_def no_provider_scope_def)
  obtain st ct2 where c: "Check ct t2 ?k = (st, ct2)" by fastforce
  have ia: "\<not> cs_Active st"
    using assms(6,8) by (auto simp: guarded_call_def p c Let_def split: if_splits)
  then have l: "ct_lookup ct2 = (ct_lookup ct)(?k := None)"
    using Check_lookup [of ct t2 ?k] Check_status [of ct t2 ?k] c by (auto simp: fun_eq_iff)
  have d: "default_params ct2"
    using assms(1) c by (auto simp: Check_def split: option.splits if_splits)
  have "snd (snd (guarded_call gt ct t1 t2 t3 sel call)) = snd (RecordFailure_ct ct2 t3 ?k (30 * second))"
    using assms(3-6) ia
    by (simp add: guarded_call_def p c record_call_failure_def RecordFailureFromStatusCode_def)
  also have "\<dots> = ct2\<lparr>ct_entries := AList.update ?k (failed_entry t3 1 (30 * second)) (ct_entries ct2)\<rparr>"
    using second_pos l by (intro fail_fresh [OF d _ assms(7)]) auto
  finally show ?thesis using l by (simp add: update_conv')
qed

text \<open>
  A model that is not there is locked out for exactly thirty seconds: when a call that
  passed the checks comes back with 404 at time \<open>t3\<close>, every call of that model at that
  provider whose check runs before \<open>t3\<close> plus thirty seconds is refused with a rate-limit
  error without reaching the provider, every later one reaches it, and calls of other models
  or providers are answered as before.
\<close>

lemma model_lockout:
  fixes call call' :: "model_selector \<Rightarrow> go_error + 'r"
  assumes "call sel = Inl err" and "as_gateway err = Some gw" and "ge_status gw = 404"
    and "ms_Model sel \<noteq> []" and "5 * second \<le> t3"
    and "guarded_call gt (route_run gt NewCooldownTracker history) t1 t2 t3 sel call = (res, True, ct')"
  shows "fst (snd (guarded_call gt ct' u1 u2 u3 sel call')) = (t3 + 30 * second \<le> u2) \<and>
         (u2 < t3 + 30 * second \<longrightarrow>
            fst (guarded_call gt ct' u1 u2 u3 sel call') =
              Inl (NewRateLimitError (ms_Provider sel)
                (gt_model gt (ms_Model sel) (ms_Provider sel) (t3 + 30 * second)))) \<and>
         (sel' \<noteq> sel \<longrightarrow>
            fst (guarded_call gt ct' u1 u2 u3 sel' call') =
            fst (guarded_call gt (route_run gt NewCooldownTracker history) u1 u2 u3 sel' call'))"
proof -
  define ct where "ct = route_run gt NewCooldownTracker history"
  have np: "no_provider_scope ct" and dp: "default_params ct"
    unfolding ct_def
    by (rule no_provider_scope_run, simp add: no_provider_scope_def NewCooldownTracker_def
        NewCooldownTrackerWithConfig_def, rule default_params_run, rule default_params_new)
  note g = assms(6) [folded ct_def]
  have l: "ct_lookup ct' =
      (ct_lookup ct)(model_scope (ms_Provider sel) 0 (ms_Model sel) \<mapsto> failed_entry t3 1 (30 * second))"
    using lockout_entry [where call = call, OF dp np assms(1-5), of gt t1 t2] g by simp
  have np': "no_provider_scope ct'"
    using no_provider_scope_call [OF np, of gt t1 t2 t3 sel call] g by simp
  have s: "entry_status u2 (Some (failed_entry t3 (Suc 0) (30 * second))) =
      (if u2 < t3 + 30 * second then active_status (failed_entry t3 (Suc 0) (30 * second)) else inactive_status)"
    using second_pos by (simp add: entry_status_def failed_entry_def default_length_def)
  have until: "ce_until (failed_entry t3 (Suc 0) (30 * second)) = t3 + 30 * second"
    using second_pos by (simp add: failed_entry_def default_length_def)
  show ?thesis
    unfolding ct_def [symmetric]
    using assms(4)
    by (auto simp: guarded_call_eq [OF np'] guarded_call_eq [OF np] l s until Let_def model_scope_inj)
qed

theorem model_lockout_witness:
  "\<not> fst (snd (guarded_call \<lparr>gt_provider = \<lambda>p t. [], gt_model = \<lambda>m p t. m\<rparr>
       (snd (snd (guarded_call \<lparr>gt_provider = \<lambda>p t. [], gt_model = \<lambda>m p t. m\<rparr> NewCooldownTracker
          (9 * second) (9 * second) (10 * second) \<lparr>ms_Model = ''gpt'', ms_Provider = ''openai''\<rparr>
          (\<lambda>s. Inl (NewNotFoundError ''gone'') :: go_error + nat))))
       (12 * second) (12 * second) (12 * second) \<lparr>ms_Model = ''gpt'', ms_Provider = ''openai''\<rparr>
       (\<lambda>s. Inr (1 :: nat))))"
proof -
  let ?gt = "\<lparr>gt_provider = \<lambda>p t. [], gt_model = \<lambda>m p t. m\<rparr>"
  let ?s = "\<lparr>ms_Model = ''gpt'', ms_Provider = ''openai''\<rparr>"
  let ?c = "\<lambda>s. Inl (NewNotFoundError ''gone'') :: go_error + nat"
  let ?r = "guarded_call ?gt NewCooldownTracker (9 * second) (9 * second) (10 * second) ?s ?c"
  have "fst (snd ?r)"
    by (simp add: guarded_call_def Check_def NewCooldownTracker_def NewCooldownTrackerWithConfig_def)
  then have "guarded_call ?gt (route_run ?gt NewCooldownTracker []) (9 * second) (9 * second)
      (10 * second) ?s ?c = (fst ?r, True, snd (snd ?r))"
    by (simp add: prod_eq_iff)
  from model_lockout [where call = ?c and call' = "\<lambda>s. Inr (1 :: nat)"
      and ?u1.0 = "12 * second" and ?u2.0 = "12 * second" and ?u3.0 = "12 * second",
      OF refl _ _ _ _ this]
  show ?thesis
    by (simp add: NewNotFoundError_def second_def)
qed

end
