(* ===== verification/Router.thy ===== *)
theory Router
  imports RegistryProps Cooldown
begin

text \<open>
  The router: \<open>internal/providers/router.go\<close>, over the model registry and the cooldown tracker.

  A request names a model and perhaps a provider; the router rewrites that to a concrete
  provider and model of the catalog, asks the registry for the provider object, refreshes a
  provider's inventory once when that fails, and then calls the provider behind the cooldown
  checks. The lookup is the \<open>ModelRegistry\<close>, which implements every optional interface the
  router tests for, so those tests succeed. Reading the registry builds its cached views, so
  each step returns the registry.
\<close>

section \<open>Resolving a selector\<close>

definition ErrRegistryNotInitialized :: go_error where
  "ErrRegistryNotInitialized = PlainError
     ''model registry has no models: ensure Initialize() or LoadFromCache() is called before using the router''"

definition registryUnavailableError :: "go_error \<Rightarrow> go_error" where
  "registryUnavailableError err = NewProviderError [] 503 (error_string err) (Some err)"

definition checkReady :: "registry \<Rightarrow> go_error option" where
  "checkReady r = (if ModelCount r = 0 then Some ErrRegistryNotInitialized else None)"

definition resolveUnqualifiedSelector :: "registry \<Rightarrow> model_selector \<Rightarrow> model_selector option" where
  "resolveUnqualifiedSelector r sel =
     (if ms_Provider sel \<noteq> [] \<or> go_trim (ms_Model sel) = [] then None
      else
        let providerName = go_trim (GetProviderName r (ms_Model sel))
        in if providerName = [] then None
           else Some \<lparr>ms_Model = ms_Model sel, ms_Provider = providerName\<rparr>)"

definition entry_selector :: "model_with_provider \<Rightarrow> model_selector" where
  "entry_selector e = \<lparr>ms_Model = cm_ID (mw_Model e), ms_Provider = mw_ProviderName e\<rparr>"

definition resolveProviderOwnedRawSelector ::
  "model_with_provider list \<Rightarrow> string \<Rightarrow> string \<Rightarrow> model_selector option" where
  "resolveProviderOwnedRawSelector entries providerSegment0 rawModelID0 =
     (let providerSegment = go_trim providerSegment0; rawModelID = go_trim rawModelID0
      in if providerSegment = [] \<or> rawModelID = [] then None
         else case find (\<lambda>e. go_trim (mw_ProviderName e) = providerSegment \<and>
                             go_trim (cm_ID (mw_Model e)) = rawModelID) entries of
             Some e \<Rightarrow> Some (entry_selector e)
           | None \<Rightarrow>
               map_option entry_selector
                 (find (\<lambda>e. go_trim (mw_ProviderType e) = providerSegment \<and>
                             go_trim (cm_ID (mw_Model e)) = rawModelID) entries))"

definition hasConfiguredProviderName :: "registry \<Rightarrow> string \<Rightarrow> bool" where
  "hasConfiguredProviderName r providerName0 =
     (let providerName = go_trim providerName0
      in if providerName = [] then False
         else list_ex (\<lambda>candidate. go_trim candidate = providerName) (reg_ProviderNames r))"

definition providerByType :: "registry \<Rightarrow> string \<Rightarrow> provider option \<times> registry" where
  "providerByType r providerType =
     (let (models, r') = ListModels r
      in (case find (\<lambda>m. GetProviderType r' (cm_ID m) = providerType \<and>
                         GetProvider r' (cm_ID m) \<noteq> None) models of
            None \<Rightarrow> None
          | Some m \<Rightarrow> GetProvider r' (cm_ID m), r'))"

definition providerByTypeRegistry :: "registry \<Rightarrow> string \<Rightarrow> provider option \<times> registry" where
  "providerByTypeRegistry r providerType =
     (case ProviderByType r providerType of
        Some p \<Rightarrow> (Some p, r)
      | None \<Rightarrow> providerByType r providerType)"

text \<open>The part of \<open>resolveQualifiedSelector\<close> after the fast path, over the listed entries.\<close>

definition resolve_by_scan ::
  "registry \<Rightarrow> model_with_provider list \<Rightarrow> requested_selector \<Rightarrow> string \<Rightarrow> string \<Rightarrow>
   model_selector option \<times> registry" where
  "resolve_by_scan r entries requested providerSegment modelID =
     (case resolveProviderOwnedRawSelector entries providerSegment modelID of
        Some concrete \<Rightarrow> (Some concrete, r)
      | None \<Rightarrow>
     (case resolveProviderOwnedRawSelector entries providerSegment (rs_Model requested) of
        Some concrete \<Rightarrow> (Some concrete, r)
      | None \<Rightarrow>
        if rs_ExplicitProvider requested then (None, r)
        else if hasConfiguredProviderName r providerSegment then (None, r)
        else
          case providerByTypeRegistry r providerSegment of
            (Some p, r') \<Rightarrow> (None, r')
          | (None, r') \<Rightarrow>
              let rawModelID = go_trim (rs_Model requested)
              in if rawModelID = [] then (None, r')
                 else (map_option entry_selector
                         (find (\<lambda>e. go_trim (cm_ID (mw_Model e)) = rawModelID) entries), r')))"

definition resolveQualifiedSelector ::
  "registry \<Rightarrow> requested_selector \<Rightarrow> model_selector \<Rightarrow> model_selector option \<times> registry" where
  "resolveQualifiedSelector r requested sel =
     (let providerSegment = go_trim (ms_Provider sel); modelID = go_trim (ms_Model sel)
      in if providerSegment = [] \<or> modelID = [] then (None, r)
         else case ResolveProviderSelector r providerSegment modelID of
             (Some concrete, r1) \<Rightarrow> (Some concrete, r1)
           | (None, r1) \<Rightarrow>
               (case ListModelsWithProvider r1 of
                  (entries, r2) \<Rightarrow> resolve_by_scan r2 entries requested providerSegment modelID))"

definition ResolveModel ::
  "registry \<Rightarrow> requested_selector \<Rightarrow> (go_error + model_selector \<times> bool) \<times> registry" where
  "ResolveModel r requested0 =
     (case checkReady r of
        Some err \<Rightarrow> (Inl (registryUnavailableError err), r)
      | None \<Rightarrow>
          let requested = NewRequestedModelSelector (rs_Model requested0) (rs_ProviderHint requested0)
          in case Normalize requested of
               Inl err \<Rightarrow> (Inl (NewInvalidRequestError (error_string err) (Some err)), r)
             | Inr sel \<Rightarrow>
                 let (resolved, r') =
                   (if ms_Provider sel = []
                    then (case resolveUnqualifiedSelector r sel of
                            Some concrete \<Rightarrow> (concrete, r) | None \<Rightarrow> (sel, r))
                    else (case resolveQualifiedSelector r requested sel of
                            (Some concrete, r') \<Rightarrow> (concrete, r') | (None, r') \<Rightarrow> (sel, r')))
                 in (Inr (resolved, QualifiedModel resolved \<noteq> QualifiedModel sel), r'))"

section \<open>Finding the provider\<close>

text \<open>What a request-time refresh meets: the arguments of \<open>RefreshProviderModels\<close>.\<close>

record refresh_env =
  re_ptr :: "provider \<Rightarrow> string"
  re_enrich :: enrichment
  re_acquire :: "go_error option"
  re_availability :: "provider \<Rightarrow> go_error option option"
  re_checked_at :: "provider \<Rightarrow> go_time"
  re_answers :: "provider \<Rightarrow> provider_answer"

definition do_refresh :: "refresh_env \<Rightarrow> registry \<Rightarrow> string \<Rightarrow> (go_error + nat) \<times> registry" where
  "do_refresh env r sel =
     RefreshProviderModels (re_ptr env) (re_enrich env) (re_acquire env) (re_availability env)
       (re_checked_at env) (re_answers env) r sel"

definition hasRegisteredProviderSelector :: "registry \<Rightarrow> string \<Rightarrow> bool \<times> registry" where
  "hasRegisteredProviderSelector r providerSelector0 =
     (let providerSelector = go_trim providerSelector0
      in if providerSelector = [] then (False, r)
         else if hasConfiguredProviderName r providerSelector then (True, r)
         else if go_trim (GetProviderNameForType r providerSelector) \<noteq> [] then (True, r)
         else case providerByTypeRegistry r providerSelector of (p, r') \<Rightarrow> (p \<noteq> None, r'))"

text \<open>\<open>refreshProviderModelsForRequest\<close>: whether a refresh ran, and its error.\<close>

definition refreshProviderModelsForRequest ::
  "refresh_env \<Rightarrow> registry \<Rightarrow> requested_selector \<Rightarrow> (bool \<times> go_error option) \<times> registry" where
  "refreshProviderModelsForRequest env r requested =
     (case Normalize requested of
        Inl _ \<Rightarrow> ((False, None), r)
      | Inr sel \<Rightarrow>
          let providerSelector = go_trim (ms_Provider sel)
          in if providerSelector = [] then ((False, None), r)
             else case hasRegisteredProviderSelector r providerSelector of
                 (False, r1) \<Rightarrow> ((False, None), r1)
               | (True, r1) \<Rightarrow>
                   (case do_refresh env r1 providerSelector of
                      (Inl e, r2) \<Rightarrow> ((True, Some e), r2)
                    | (Inr _, r2) \<Rightarrow> ((True, None), r2)))"

definition router_RefreshProviderModels ::
  "refresh_env \<Rightarrow> registry \<Rightarrow> string \<Rightarrow> (go_error + nat) \<times> registry" where
  "router_RefreshProviderModels env r providerSelector0 =
     (let providerSelector = go_trim providerSelector0
      in case hasRegisteredProviderSelector r providerSelector of
           (False, r') \<Rightarrow> (Inr 0, r')
         | (True, r') \<Rightarrow> do_refresh env r' providerSelector)"

text \<open>The lookup after a resolution: the second half of \<open>resolveProvider\<close>. \<open>refreshed\<close> says
  whether this request already refreshed the inventory.\<close>

definition find_provider ::
  "refresh_env \<Rightarrow> requested_selector \<Rightarrow> bool \<Rightarrow> model_selector \<Rightarrow> registry \<Rightarrow>
   (go_error + provider \<times> model_selector) \<times> registry" where
  "find_provider env requested refreshed sel r =
     (let lookupModel = QualifiedModel sel;
          missing = (\<lambda>name. Inl (NewNotFoundError (''model not found: '' @ name)))
      in case GetProvider r lookupModel of
           Some p \<Rightarrow> (Inr (p, sel), r)
         | None \<Rightarrow>
             if refreshed then (missing lookupModel, r)
             else case refreshProviderModelsForRequest env r requested of
                 ((_, Some refreshErr), r1) \<Rightarrow> (Inl refreshErr, r1)
               | ((False, None), r1) \<Rightarrow> (missing lookupModel, r1)
               | ((True, None), r1) \<Rightarrow>
                   (case ResolveModel r1 requested of
                      (Inl err, r2) \<Rightarrow> (Inl err, r2)
                    | (Inr (sel', _), r2) \<Rightarrow>
                        (case GetProvider r2 (QualifiedModel sel') of
                           Some p \<Rightarrow> (Inr (p, sel'), r2)
                         | None \<Rightarrow> (missing (QualifiedModel sel'), r2))))"

definition resolveProvider ::
  "refresh_env \<Rightarrow> registry \<Rightarrow> string \<Rightarrow> string \<Rightarrow>
   (go_error + provider \<times> model_selector) \<times> registry" where
  "resolveProvider env r model providerHint =
     (let requested = NewRequestedModelSelector model providerHint
      in case ResolveModel r requested of
           (Inr (sel, _), r1) \<Rightarrow> find_provider env requested False sel r1
         | (Inl err, r1) \<Rightarrow>
             (case refreshProviderModelsForRequest env r1 requested of
                ((_, Some refreshErr), r2) \<Rightarrow> (Inl refreshErr, r2)
              | ((False, None), r2) \<Rightarrow> (Inl err, r2)
              | ((True, None), r2) \<Rightarrow>
                  (case ResolveModel r2 requested of
                     (Inl err', r3) \<Rightarrow> (Inl err', r3)
                   | (Inr (sel, _), r3) \<Rightarrow> find_provider env requested True sel r3)))"

section \<open>Readers and typed lookups\<close>

definition router_Supports :: "registry \<Rightarrow> string \<Rightarrow> bool \<times> registry" where
  "router_Supports r model =
     (case ResolveModel r (NewRequestedModelSelector model []) of
        (Inl _, r') \<Rightarrow> (False, r')
      | (Inr (sel, _), r') \<Rightarrow> (Supports r' (QualifiedModel sel), r'))"

definition router_GetProviderType :: "registry \<Rightarrow> string \<Rightarrow> string \<times> registry" where
  "router_GetProviderType r model =
     (case ResolveModel r (NewRequestedModelSelector model []) of
        (Inl _, r') \<Rightarrow> ([], r')
      | (Inr (sel, _), r') \<Rightarrow> (GetProviderType r' (QualifiedModel sel), r'))"

definition router_GetProviderName :: "registry \<Rightarrow> string \<Rightarrow> string \<times> registry" where
  "router_GetProviderName r model =
     (case ResolveModel r (NewRequestedModelSelector model []) of
        (Inl _, r') \<Rightarrow> ([], r')
      | (Inr (sel, _), r') \<Rightarrow>
          if \<not> Supports r' (QualifiedModel sel) then ([], r')
          else if ms_Provider sel \<noteq> [] then (ms_Provider sel, r')
          else (GetProviderName r' (QualifiedModel sel), r'))"

definition router_ListModels :: "(provider \<Rightarrow> bool) \<Rightarrow> registry \<Rightarrow> go_error + core_model list" where
  "router_ListModels audio r =
     (case checkReady r of
        Some err \<Rightarrow> Inl (registryUnavailableError err)
      | None \<Rightarrow> Inr (ListPublicModels audio r))"

definition ensureProviderInventoryReady :: "registry \<Rightarrow> go_error option" where
  "ensureProviderInventoryReady r =
     (if \<not> rg_initialized r
      then (case checkReady r of None \<Rightarrow> None | Some err \<Rightarrow> Some (registryUnavailableError err))
      else None)"

definition resolveProviderType ::
  "registry \<Rightarrow> string \<Rightarrow> (go_error + provider) \<times> registry" where
  "resolveProviderType r providerType =
     (case ensureProviderInventoryReady r of
        Some err \<Rightarrow> (Inl err, r)
      | None \<Rightarrow>
          if providerType = []
          then (Inl (NewInvalidRequestError ''provider type is required'' None), r)
          else case providerByTypeRegistry r providerType of
              (None, r') \<Rightarrow> (Inl (NewInvalidRequestError
                 (''no provider found for provider type: '' @ providerType) None), r')
            | (Some p, r') \<Rightarrow> (Inr p, r'))"

section \<open>One routed call\<close>

text \<open>\<open>routeResolvedModelCall\<close>: resolution, the guarded provider call (\<open>guarded_call\<close>, theory
  \<open>Cooldown\<close>), and the provider type that stamps the answer. \<open>call p sel\<close> is the answer of the
  provider \<open>p\<close> to the request forwarded for \<open>sel\<close>.\<close>

record router =
  ro_registry :: registry
  ro_cooldown :: cooldown_tracker

definition routeResolvedModelCall ::
  "refresh_env \<Rightarrow> gate_text \<Rightarrow> router \<Rightarrow> go_time \<Rightarrow> go_time \<Rightarrow> go_time \<Rightarrow> string \<Rightarrow> string \<Rightarrow>
   (provider \<Rightarrow> model_selector \<Rightarrow> go_error + 'r) \<Rightarrow> ((go_error + 'r) \<times> string) \<times> router" where
  "routeResolvedModelCall env gt ro t1 t2 t3 model providerHint call =
     (case resolveProvider env (ro_registry ro) model providerHint of
        (Inl err, r1) \<Rightarrow> ((Inl err, []), ro\<lparr>ro_registry := r1\<rparr>)
      | (Inr (p, sel), r1) \<Rightarrow>
          (case guarded_call gt (ro_cooldown ro) t1 t2 t3 sel (call p) of
             (res, called, ct) \<Rightarrow>
               let (providerType, r2) =
                 (if called then router_GetProviderType r1 (QualifiedModel sel) else ([], r1))
               in ((res, providerType), \<lparr>ro_registry = r2, ro_cooldown = ct\<rparr>)))"

end
