(* ===== verification/RouterProps.thy ===== *)
theory RouterProps
  imports Router
begin

text \<open>
  Correctness of the router over every reachable registry: which catalog entry a selector
  resolves to, agreement of the index with the catalog scan it replaces, and soundness of the
  provider a request is sent to. The last section evaluates concrete catalogs.
\<close>

section \<open>The selector index\<close>

text \<open>A provider \<open>n\<close> lists the model \<open>info\<close>.\<close>

definition serves :: "inventory \<Rightarrow> string \<Rightarrow> model_info \<Rightarrow> bool" where
  "serves catalog n info \<longleftrightarrow>
     (\<exists>ms. map_of catalog n = Some ms \<and> map_of ms (cm_ID (mi_Model info)) = Some info)"

lemma flatten_serves:
  "wf_inventory catalog \<Longrightarrow> (n, info) \<in> set (flatten_inventory catalog) \<longleftrightarrow> serves catalog n info"
proof -
  assume w: "wf_inventory catalog"
  have "(n, info) \<in> set (flatten_inventory catalog) \<longleftrightarrow>
      (\<exists>ms k. (n, ms) \<in> set catalog \<and> (k, info) \<in> set ms)"
    by (fastforce simp: flatten_inventory_def)
  also have "\<dots> \<longleftrightarrow> (\<exists>ms k. map_of catalog n = Some ms \<and> map_of ms k = Some info)"
    using w unfolding wf_inventory_def wf_models_def
    by (metis map_of_SomeD map_of_is_SomeI)
  also have "\<dots> \<longleftrightarrow> serves catalog n info"
    using w by (auto simp: serves_def wf_inventory_def wf_models_def)
  finally show ?thesis .
qed

definition clean_entry :: "string \<times> model_info \<Rightarrow> bool" where
  "clean_entry e \<longleftrightarrow>
     (case e of (n, info) \<Rightarrow>
        trimmed n \<and> n \<noteq> [] \<and> CHR ''/'' \<notin> set n \<and> mi_ProviderName info = n \<and>
        trimmed (cm_ID (mi_Model info)) \<and> cm_ID (mi_Model info) \<noteq> [] \<and>
        CHR ''/'' \<notin> set (mi_ProviderType info))"

lemma slash_key_inj:
  "CHR ''/'' \<notin> set a \<Longrightarrow> CHR ''/'' \<notin> set b \<Longrightarrow> a @ CHR ''/'' # x = b @ CHR ''/'' # y \<longleftrightarrow> a = b \<and> x = y"
proof (induction a arbitrary: b)
  case Nil
  then show ?case by (cases b) auto
next
  case (Cons c a)
  then show ?case by (cases b) auto
qed

lemma index_entry_clean:
  assumes "clean_entry (n, info)"
  shows "index_entry n info (byName, byType) =
    (AList.update (n @ CHR ''/'' # cm_ID (mi_Model info))
       \<lparr>ms_Model = cm_ID (mi_Model info), ms_Provider = n\<rparr> byName,
     let t = go_trim (mi_ProviderType info); key = t @ CHR ''/'' # cm_ID (mi_Model info);
         sel = \<lparr>ms_Model = cm_ID (mi_Model info), ms_Provider = n\<rparr>
     in if t = [] then byType
        else if (case map_of byType key of None \<Rightarrow> True | Some s \<Rightarrow> n < ms_Provider s)
        then AList.update key sel byType else byType)"
  using assms
  by (auto simp: index_entry_def clean_entry_def Let_def split: option.split)

definition index_of_entries :: "(string \<times> model_info) list \<Rightarrow> selector_index \<times> selector_index" where
  "index_of_entries es = foldl (\<lambda>idx (n, info). index_entry n info idx) ([], []) es"

lemma index_snoc:
  "index_of_entries (es @ [(n, info)]) = index_entry n info (index_of_entries es)"
  by (simp add: index_of_entries_def)

lemma index_by_name:
  "\<forall>e\<in>set es. clean_entry e \<Longrightarrow>
   map_of (fst (index_of_entries es)) key = Some s \<longleftrightarrow>
     (\<exists>(n, info)\<in>set es. key = n @ CHR ''/'' # cm_ID (mi_Model info) \<and>
        s = \<lparr>ms_Model = cm_ID (mi_Model info), ms_Provider = n\<rparr>)"
proof (induction es rule: rev_induct)
  case Nil
  then show ?case by (simp add: index_of_entries_def)
next
  case (snoc e es)
  obtain n info where e: "e = (n, info)" by fastforce
  have c: "clean_entry (n, info)" using snoc.prems e by simp
  obtain bn bt where b: "index_of_entries es = (bn, bt)" by fastforce
  have IH: "map_of bn key = Some s \<longleftrightarrow>
     (\<exists>(n, info)\<in>set es. key = n @ CHR ''/'' # cm_ID (mi_Model info) \<and>
        s = \<lparr>ms_Model = cm_ID (mi_Model info), ms_Provider = n\<rparr>)"
    using snoc b by simp
  have step: "map_of (fst (index_of_entries (es @ [e]))) key =
      (if key = n @ CHR ''/'' # cm_ID (mi_Model info)
       then Some \<lparr>ms_Model = cm_ID (mi_Model info), ms_Provider = n\<rparr> else map_of bn key)"
    by (simp add: e index_snoc b index_entry_clean [OF c] update_conv')
  show ?case
  proof (cases "key = n @ CHR ''/'' # cm_ID (mi_Model info)")
    case True
    have "s' = \<lparr>ms_Model = cm_ID (mi_Model info), ms_Provider = n\<rparr>"
      if "(n', info') \<in> set es" "key = n' @ CHR ''/'' # cm_ID (mi_Model info')"
        "s' = \<lparr>ms_Model = cm_ID (mi_Model info'), ms_Provider = n'\<rparr>" for n' info' s'
    proof -
      have "clean_entry (n', info')" using that(1) snoc.prems by simp
      with c True that(2) have "n' = n" "cm_ID (mi_Model info') = cm_ID (mi_Model info)"
        by (auto simp: clean_entry_def slash_key_inj)
      with that(3) show ?thesis by simp
    qed
    with True show ?thesis unfolding step by (auto simp: e)
  next
    case False
    with IH show ?thesis unfolding step by (auto simp: e)
  qed
qed

lemma index_by_type:
  assumes "\<forall>e\<in>set es. clean_entry e" "t \<noteq> []" "CHR ''/'' \<notin> set t"
  shows "case map_of (snd (index_of_entries es)) (t @ CHR ''/'' # m) of
      None \<Rightarrow> \<not> (\<exists>(n, info)\<in>set es. go_trim (mi_ProviderType info) = t \<and> cm_ID (mi_Model info) = m)
    | Some s \<Rightarrow> ms_Model s = m \<and>
        (\<exists>(n, info)\<in>set es. go_trim (mi_ProviderType info) = t \<and> cm_ID (mi_Model info) = m \<and> n = ms_Provider s) \<and>
        (\<forall>(n, info)\<in>set es. go_trim (mi_ProviderType info) = t \<and> cm_ID (mi_Model info) = m \<longrightarrow> ms_Provider s \<le> n)"
  using assms(1)
proof (induction es rule: rev_induct)
  case Nil
  then show ?case by (simp add: index_of_entries_def)
next
  case (snoc e es)
  obtain n info where e: "e = (n, info)" by fastforce
  have c: "clean_entry (n, info)" using snoc.prems e by simp
  obtain bn bt where b: "index_of_entries es = (bn, bt)" by fastforce
  note IH = snoc.IH [unfolded b]
  have slash: "CHR ''/'' \<notin> set (go_trim (mi_ProviderType info))"
    using c go_trim_set by (auto simp: clean_entry_def)
  let ?key = "t @ CHR ''/'' # m"
  show ?case
  proof (cases "go_trim (mi_ProviderType info) = t \<and> cm_ID (mi_Model info) = m")
    case False
    then have "map_of (snd (index_of_entries (es @ [e]))) ?key = map_of bt ?key"
      using slash assms(3)
      by (auto simp: e index_snoc b index_entry_clean [OF c] Let_def update_conv' slash_key_inj)
    with IH snoc.prems False show ?thesis by (auto simp: e split: option.splits)
  next
    case True
    then have "map_of (snd (index_of_entries (es @ [e]))) ?key =
        (if (case map_of bt ?key of None \<Rightarrow> True | Some s \<Rightarrow> n < ms_Provider s)
         then Some \<lparr>ms_Model = m, ms_Provider = n\<rparr> else map_of bt ?key)"
      using assms(2) by (simp add: e index_snoc b index_entry_clean [OF c] Let_def update_conv')
    with IH snoc.prems True show ?thesis
      by (auto simp: e split: option.splits if_splits)
  qed
qed

lemma index_type_sound:
  "\<forall>e\<in>set es. clean_entry e \<Longrightarrow> map_of (snd (index_of_entries es)) key = Some s \<Longrightarrow>
   \<exists>(n, info)\<in>set es. s = \<lparr>ms_Model = cm_ID (mi_Model info), ms_Provider = n\<rparr>"
proof (induction es rule: rev_induct)
  case Nil
  then show ?case by (simp add: index_of_entries_def)
next
  case (snoc e es)
  obtain n info where e: "e = (n, info)" by fastforce
  have c: "clean_entry (n, info)" using snoc.prems e by simp
  obtain bn bt where b: "index_of_entries es = (bn, bt)" by fastforce
  have "map_of bt key = Some s \<or> s = \<lparr>ms_Model = cm_ID (mi_Model info), ms_Provider = n\<rparr>"
    using snoc.prems(2)
    by (auto simp: e index_snoc b index_entry_clean [OF c] Let_def update_conv' split: if_splits)
  with snoc b e show ?case by auto
qed

lemma build_index_entries: "build_index catalog = index_of_entries (flatten_inventory catalog)"
  by (simp add: build_index_def index_of_entries_def)

definition clean_catalog :: "inventory \<Rightarrow> bool" where
  "clean_catalog catalog \<longleftrightarrow>
     list_all (\<lambda>(p, ms). trimmed p \<and> p \<noteq> [] \<and> CHR ''/'' \<notin> set p \<and>
       list_all (\<lambda>(m, info). trimmed m \<and> m \<noteq> [] \<and> CHR ''/'' \<notin> set (mi_ProviderType info)) ms) catalog"

lemma clean_catalog_names: "clean_catalog (rg_modelsByProvider r) \<Longrightarrow> clean_names r"
  by (fastforce simp: clean_catalog_def clean_names_def list_all_iff)

lemma clean_serves:
  assumes "wf_inventory catalog" "clean_catalog catalog" "serves catalog n info"
  shows "clean_entry (n, info)"
proof -
  obtain ms where m: "map_of catalog n = Some ms" "map_of ms (cm_ID (mi_Model info)) = Some info"
    using assms(3) by (auto simp: serves_def)
  have "mi_ProviderName info = n" using assms(1) m by (auto simp: wf_inventory_def wf_models_def)
  moreover have "trimmed n \<and> n \<noteq> [] \<and> CHR ''/'' \<notin> set n \<and>
       list_all (\<lambda>(m, info). trimmed m \<and> m \<noteq> [] \<and> CHR ''/'' \<notin> set (mi_ProviderType info)) ms"
    using assms(2) map_of_SomeD [OF m(1)] by (auto simp: clean_catalog_def list_all_iff)
  ultimately show ?thesis
    using map_of_SomeD [OF m(2)] by (auto simp: clean_entry_def list_all_iff)
qed

lemma serves_unique:
  "serves catalog n info \<Longrightarrow> serves catalog n info' \<Longrightarrow> cm_ID (mi_Model info) = cm_ID (mi_Model info')
   \<Longrightarrow> info = info'"
  by (auto simp: serves_def)

text \<open>The direct matches of a segment and a model ID, by provider name or by provider type.\<close>

definition name_match :: "inventory \<Rightarrow> string \<Rightarrow> string \<Rightarrow> bool" where
  "name_match catalog seg m \<longleftrightarrow> (\<exists>info. serves catalog seg info \<and> cm_ID (mi_Model info) = m)"

definition type_match :: "inventory \<Rightarrow> string \<Rightarrow> string \<Rightarrow> string \<Rightarrow> bool" where
  "type_match catalog seg m n \<longleftrightarrow>
     (\<exists>info. serves catalog n info \<and> cm_ID (mi_Model info) = m \<and> go_trim (mi_ProviderType info) = seg)"

lemma serves_ex:
  "wf_inventory catalog \<Longrightarrow>
   (\<exists>(n, info)\<in>set (flatten_inventory catalog). P n info) \<longleftrightarrow> (\<exists>n info. serves catalog n info \<and> P n info)"
  "wf_inventory catalog \<Longrightarrow>
   (\<forall>(n, info)\<in>set (flatten_inventory catalog). P n info) \<longleftrightarrow> (\<forall>n info. serves catalog n info \<longrightarrow> P n info)"
  by (auto simp: flatten_serves [symmetric])

lemma QualifiedModel_served:
  "wf_inventory catalog \<Longrightarrow> clean_catalog catalog \<Longrightarrow> serves catalog n info \<Longrightarrow>
   QualifiedModel \<lparr>ms_Model = m, ms_Provider = n\<rparr> = n @ CHR ''/'' # m"
  using clean_serves [of catalog n info] by (simp add: QualifiedModel_def clean_entry_def)

lemma lookup_index_name:
  assumes "wf_inventory catalog" "clean_catalog catalog"
  shows "map_of (fst (build_index catalog)) key = Some s \<longleftrightarrow>
     key = QualifiedModel s \<and> name_match catalog (ms_Provider s) (ms_Model s)"
proof -
  have c: "\<forall>e\<in>set (flatten_inventory catalog). clean_entry e"
    using assms by (auto simp: flatten_serves clean_serves)
  have "map_of (fst (build_index catalog)) key = Some s \<longleftrightarrow>
      (\<exists>n info. serves catalog n info \<and> key = n @ CHR ''/'' # cm_ID (mi_Model info) \<and>
        s = \<lparr>ms_Model = cm_ID (mi_Model info), ms_Provider = n\<rparr>)"
    unfolding build_index_entries index_by_name [OF c] by (rule serves_ex(1) [OF assms(1)])
  also have "\<dots> \<longleftrightarrow> key = QualifiedModel s \<and> name_match catalog (ms_Provider s) (ms_Model s)"
    using QualifiedModel_served [OF assms] by (cases s) (auto simp: name_match_def)
  finally show ?thesis .
qed

lemma lookup_index_type:
  assumes "wf_inventory catalog" "clean_catalog catalog" "t \<noteq> []" "CHR ''/'' \<notin> set t"
  shows "case map_of (snd (build_index catalog)) (t @ CHR ''/'' # m) of
      None \<Rightarrow> \<not> (\<exists>n. type_match catalog t m n)
    | Some s \<Rightarrow> ms_Model s = m \<and> type_match catalog t m (ms_Provider s) \<and>
        (\<forall>n. type_match catalog t m n \<longrightarrow> ms_Provider s \<le> n)"
proof -
  have c: "\<forall>e\<in>set (flatten_inventory catalog). clean_entry e"
    using assms by (auto simp: flatten_serves clean_serves)
  show ?thesis
    using index_by_type [OF c assms(3,4), of m]
    unfolding build_index_entries serves_ex [OF assms(1)]
    by (fastforce simp: type_match_def split: option.splits)
qed

lemma ResolveProviderSelector_index:
  assumes "reg_inv r" "trimmed seg" "trimmed m" "seg \<noteq> []" "m \<noteq> []"
  shows "fst (ResolveProviderSelector r seg m) =
    lookupSelectorIndex (build_index (rg_modelsByProvider r)) (seg @ CHR ''/'' # m)"
  using assms
  by (auto simp: ResolveProviderSelector_def buildSelectorIndexLocked_def reg_inv_def caches_ok_def Let_def
      split: option.split)

text \<open>
  C11. A selector \<open>segment/model\<close> resolves by precedence: to the provider named by the segment
  when it lists the model, otherwise to the provider with the smallest name among those whose
  type is the segment and that list it, and to nothing when there is neither, in every
  reachable registry, cached index or not.
\<close>

theorem resolution_precedence:
  assumes "reg_reachable r" and "clean_catalog (rg_modelsByProvider r)"
    and "trimmed seg" and "seg \<noteq> []" and "CHR ''/'' \<notin> set seg" and "trimmed m" and "m \<noteq> []"
  shows "case fst (ResolveProviderSelector r seg m) of
      Some s \<Rightarrow> ms_Model s = m \<and>
        (if name_match (rg_modelsByProvider r) seg m then ms_Provider s = seg
         else type_match (rg_modelsByProvider r) seg m (ms_Provider s) \<and>
              (\<forall>n. type_match (rg_modelsByProvider r) seg m n \<longrightarrow> ms_Provider s \<le> n))
    | None \<Rightarrow> \<not> name_match (rg_modelsByProvider r) seg m \<and>
        \<not> (\<exists>n. type_match (rg_modelsByProvider r) seg m n)"
proof -
  let ?c = "rg_modelsByProvider r"
  have inv: "reg_inv r" by (rule reg_inv_reachable [OF assms(1)])
  then have w: "wf_inventory ?c" by (simp add: reg_inv_def)
  have q: "seg @ CHR ''/'' # m = QualifiedModel \<lparr>ms_Model = m, ms_Provider = seg\<rparr>"
    using assms(4) by (simp add: QualifiedModel_def)
  note ln = lookup_index_name [OF w assms(2), of "seg @ CHR ''/'' # m"]
  have name: "map_of (fst (build_index ?c)) (seg @ CHR ''/'' # m) =
      (if name_match ?c seg m then Some \<lparr>ms_Model = m, ms_Provider = seg\<rparr> else None)"
  proof (cases "map_of (fst (build_index ?c)) (seg @ CHR ''/'' # m)")
    case None
    with ln [of "\<lparr>ms_Model = m, ms_Provider = seg\<rparr>"] q show ?thesis by simp
  next
    case (Some s)
    with ln [of s] have s: "seg @ CHR ''/'' # m = QualifiedModel s"
      "name_match ?c (ms_Provider s) (ms_Model s)"
      by simp_all
    then obtain info where i: "serves ?c (ms_Provider s) info" by (auto simp: name_match_def)
    have "QualifiedModel s = ms_Provider s @ CHR ''/'' # ms_Model s"
      using QualifiedModel_served [OF w assms(2) i, of "ms_Model s"] by (cases s) simp
    moreover have "CHR ''/'' \<notin> set (ms_Provider s)"
      using clean_serves [OF w assms(2) i] by (simp add: clean_entry_def)
    ultimately have "ms_Provider s = seg" "ms_Model s = m"
      using s(1) assms(5) slash_key_inj by auto
    with Some s show ?thesis by simp
  qed
  note type = lookup_index_type [OF w assms(2,4,5), of m]
  show ?thesis
  proof (cases "name_match ?c seg m")
    case True
    then show ?thesis
      by (simp add: ResolveProviderSelector_index [OF inv assms(3,6,4,7)] lookupSelectorIndex_def name)
  next
    case False
    with type show ?thesis
      by (cases "map_of (snd (build_index ?c)) (seg @ CHR ''/'' # m)")
        (simp_all add: ResolveProviderSelector_index [OF inv assms(3,6,4,7)] lookupSelectorIndex_def name)
  qed
qed

section \<open>The catalog scan\<close>

lemma bex_pairs:
  "(\<exists>x\<in>set al. \<exists>y\<in>set (snd x). P (fst x) (fst y) (snd y)) \<longleftrightarrow>
   (\<exists>n ms k v. (n, ms) \<in> set al \<and> (k, v) \<in> set ms \<and> P n k v)"
  by force

lemma listing_mem:
  assumes "wf_inventory catalog" "clean_catalog catalog"
  shows "e \<in> set (listing_of catalog) \<longleftrightarrow>
    (\<exists>n info. serves catalog n info \<and>
       e = \<lparr>mw_Model = mi_Model info, mw_ProviderType = mi_ProviderType info, mw_ProviderName = n,
            mw_Selector = qualifyPublicModelID n (cm_ID (mi_Model info))\<rparr>)"
proof -
  let ?f = "\<lambda>n k info. let p = (if mi_ProviderName info \<noteq> [] then mi_ProviderName info else n)
           in \<lparr>mw_Model = mi_Model info, mw_ProviderType = mi_ProviderType info, mw_ProviderName = p,
               mw_Selector = qualifyPublicModelID p k\<rparr>"
  have "e \<in> set (listing_of catalog) \<longleftrightarrow>
      (\<exists>x\<in>set catalog. \<exists>y\<in>set (snd x). e = ?f (fst x) (fst y) (snd y))"
    by (simp add: listing_of_def image_iff split_beta)
  also have "\<dots> \<longleftrightarrow> (\<exists>n ms k info. (n, ms) \<in> set catalog \<and> (k, info) \<in> set ms \<and> e = ?f n k info)"
    by (rule bex_pairs)
  also have "\<dots> \<longleftrightarrow> (\<exists>n info. serves catalog n info \<and>
       e = \<lparr>mw_Model = mi_Model info, mw_ProviderType = mi_ProviderType info, mw_ProviderName = n,
            mw_Selector = qualifyPublicModelID n (cm_ID (mi_Model info))\<rparr>)" (is "_ = ?R")
  proof
    assume "\<exists>n ms k info. (n, ms) \<in> set catalog \<and> (k, info) \<in> set ms \<and>
      e = (let p = (if mi_ProviderName info \<noteq> [] then mi_ProviderName info else n)
           in \<lparr>mw_Model = mi_Model info, mw_ProviderType = mi_ProviderType info, mw_ProviderName = p,
               mw_Selector = qualifyPublicModelID p k\<rparr>)"
    then obtain n ms k info where i: "(n, ms) \<in> set catalog" "(k, info) \<in> set ms"
      "e = (let p = (if mi_ProviderName info \<noteq> [] then mi_ProviderName info else n)
           in \<lparr>mw_Model = mi_Model info, mw_ProviderType = mi_ProviderType info, mw_ProviderName = p,
               mw_Selector = qualifyPublicModelID p k\<rparr>)" by blast
    then have m: "map_of catalog n = Some ms" using assms(1) by (simp add: wf_inventory_def)
    then have "wf_models n ms" using assms(1) by (simp add: wf_inventory_def)
    then have "map_of ms k = Some info" "mi_ProviderName info = n" "cm_ID (mi_Model info) = k"
      using i(2) by (auto simp: wf_models_def)
    with m i(3) show ?R by (auto simp: serves_def Let_def)
  next
    assume ?R
    then obtain n info where i: "serves catalog n info"
      "e = \<lparr>mw_Model = mi_Model info, mw_ProviderType = mi_ProviderType info, mw_ProviderName = n,
            mw_Selector = qualifyPublicModelID n (cm_ID (mi_Model info))\<rparr>" by blast
    have "mi_ProviderName info = n" using clean_serves [OF assms i(1)] by (simp add: clean_entry_def)
    then show "\<exists>n ms k info. (n, ms) \<in> set catalog \<and> (k, info) \<in> set ms \<and>
      e = (let p = (if mi_ProviderName info \<noteq> [] then mi_ProviderName info else n)
           in \<lparr>mw_Model = mi_Model info, mw_ProviderType = mi_ProviderType info, mw_ProviderName = p,
               mw_Selector = qualifyPublicModelID p k\<rparr>)"
      using i by (auto simp: serves_def Let_def dest!: map_of_SomeD)
  qed
  finally show ?thesis .
qed

lemma scan_spec:
  assumes "wf_inventory catalog" "clean_catalog catalog" "trimmed seg" "seg \<noteq> []" "trimmed m" "m \<noteq> []"
  shows "case resolveProviderOwnedRawSelector (listing_of catalog) seg m of
      Some s \<Rightarrow> ms_Model s = m \<and>
        (if name_match catalog seg m then ms_Provider s = seg
         else type_match catalog seg m (ms_Provider s))
    | None \<Rightarrow> \<not> name_match catalog seg m \<and> \<not> (\<exists>n. type_match catalog seg m n)"
proof -
  have t: "go_trim n = n" "go_trim (cm_ID (mi_Model info)) = cm_ID (mi_Model info)"
    if "serves catalog n info" for n info
    using clean_serves [OF assms(1,2) that] by (auto simp: clean_entry_def)
  let ?N = "\<lambda>e. go_trim (mw_ProviderName e) = seg \<and> go_trim (cm_ID (mw_Model e)) = m"
  let ?T = "\<lambda>e. go_trim (mw_ProviderType e) = seg \<and> go_trim (cm_ID (mw_Model e)) = m"
  let ?L = "listing_of catalog"
  have n: "(\<exists>e\<in>set ?L. ?N e) \<longleftrightarrow> name_match catalog seg m"
  proof
    assume "name_match catalog seg m"
    then obtain info where i: "serves catalog seg info" "cm_ID (mi_Model info) = m"
      by (auto simp: name_match_def)
    then have "\<lparr>mw_Model = mi_Model info, mw_ProviderType = mi_ProviderType info, mw_ProviderName = seg,
            mw_Selector = qualifyPublicModelID seg (cm_ID (mi_Model info))\<rparr> \<in> set ?L"
      unfolding listing_mem [OF assms(1,2)] by blast
    with i t [OF i(1)] show "\<exists>e\<in>set ?L. ?N e" by (auto intro!: bexI)
  next
    assume "\<exists>e\<in>set ?L. ?N e"
    then obtain e where e: "e \<in> set ?L" "?N e" by blast
    then obtain k info where "serves catalog k info" "mw_ProviderName e = k" "mw_Model e = mi_Model info"
      unfolding listing_mem [OF assms(1,2)] by auto
    with e(2) t show "name_match catalog seg m" by (auto simp: name_match_def)
  qed
  have ty: "(\<exists>e\<in>set ?L. ?T e) \<longleftrightarrow> (\<exists>k. type_match catalog seg m k)"
  proof
    assume "\<exists>k. type_match catalog seg m k"
    then obtain k info where i: "serves catalog k info" "cm_ID (mi_Model info) = m"
      "go_trim (mi_ProviderType info) = seg"
      by (auto simp: type_match_def)
    then have "\<lparr>mw_Model = mi_Model info, mw_ProviderType = mi_ProviderType info, mw_ProviderName = k,
            mw_Selector = qualifyPublicModelID k (cm_ID (mi_Model info))\<rparr> \<in> set ?L"
      unfolding listing_mem [OF assms(1,2)] by blast
    with i t [OF i(1)] show "\<exists>e\<in>set ?L. ?T e" by (auto intro!: bexI)
  next
    assume "\<exists>e\<in>set ?L. ?T e"
    then obtain e where e: "e \<in> set ?L" "?T e" by blast
    then obtain k info where "serves catalog k info" "mw_ProviderType e = mi_ProviderType info"
      "mw_Model e = mi_Model info"
      unfolding listing_mem [OF assms(1,2)] by auto
    with e(2) t show "\<exists>k. type_match catalog seg m k" by (auto simp: type_match_def)
  qed
  have sel: "ms_Model (entry_selector e) = go_trim (cm_ID (mw_Model e))"
      "ms_Provider (entry_selector e) = go_trim (mw_ProviderName e)"
      "\<exists>info. serves catalog (mw_ProviderName e) info \<and> mw_Model e = mi_Model info \<and>
         mw_ProviderType e = mi_ProviderType info"
    if "e \<in> set ?L" for e
    using that t unfolding listing_mem [OF assms(1,2)] entry_selector_def by auto
  show ?thesis
  proof (cases "find ?N ?L")
    case (Some e)
    then have e: "e \<in> set ?L" "?N e" by (auto simp: find_Some_iff)
    then have "name_match catalog seg m" using n by blast
    with Some e sel(1,2) [OF e(1)] assms(3-6) show ?thesis
      by (simp add: resolveProviderOwnedRawSelector_def)
  next
    case None
    then have nn: "\<not> name_match catalog seg m" using n by (auto simp: find_None_iff)
    show ?thesis
    proof (cases "find ?T ?L")
      case (Some e)
      then have e: "e \<in> set ?L" "?T e" by (auto simp: find_Some_iff)
      obtain info where i: "serves catalog (mw_ProviderName e) info" "mw_Model e = mi_Model info"
        "mw_ProviderType e = mi_ProviderType info" using sel(3) [OF e(1)] by blast
      then have "type_match catalog seg m (ms_Provider (entry_selector e))"
        using e t [OF i(1)] by (auto simp: type_match_def entry_selector_def)
      with None Some nn e sel(1) [OF e(1)] assms(3-6) show ?thesis
        by (simp add: resolveProviderOwnedRawSelector_def)
    next
      case N: None
      then have "\<not> (\<exists>k. type_match catalog seg m k)" using ty by (auto simp: find_None_iff)
      with None N nn assms(3-6) show ?thesis
        by (simp add: resolveProviderOwnedRawSelector_def)
    qed
  qed
qed


lemma GetModel_serves:
  assumes "reg_inv r" "GetModel r x = Some info"
  shows "serves (rg_modelsByProvider r) (mi_ProviderName info) info \<and>
    (cm_ID (mi_Model info) = x \<or> cm_ID (mi_Model info) = go_trim x \<or>
     splitModelSelector x = (mi_ProviderName info, cm_ID (mi_Model info)) \<or>
     (\<exists>m. splitModelSelector x = (mi_ProviderName info, m) \<and> cm_ID (mi_Model info) = go_trim m))"
proof -
  let ?c = "rg_modelsByProvider r"
  have w: "wf_inventory ?c" and g: "globals_ok r" using assms(1) by (simp_all add: reg_inv_def)
  have own: "mi_ProviderName i = n \<and> cm_ID (mi_Model i) = k"
    if "map_of ?c n = Some ms" "map_of ms k = Some i" for n ms k i
    using w that by (auto simp: wf_inventory_def wf_models_def)
  obtain p m where sp: "splitModelSelector x = (p, m)" by fastforce
  have glob: "serves ?c (mi_ProviderName info) info \<and> cm_ID (mi_Model info) = x"
    if "map_of (rg_models r) x = Some info"
  proof -
    obtain order where "map_of (rg_models r) x = first_owner ?c order x"
      using g by (auto simp: globals_ok_def)
    then have "first_owner ?c order x = Some info" using that by simp
    from first_owner_Some [OF this] obtain n where "map_of (get_or [] ?c n) x = Some info" by blast
    then obtain ms where "map_of ?c n = Some ms" "map_of ms x = Some info"
      by (auto simp: get_or_def split: option.splits)
    with own show ?thesis by (auto simp: serves_def)
  qed
  have qual: "serves ?c (mi_ProviderName info) info \<and> mi_ProviderName info = p \<and>
      (cm_ID (mi_Model info) = go_trim m \<or> cm_ID (mi_Model info) = go_trim x)"
    if "map_of ?c p = Some ms" "providerModelInfo ms m x = Some info" for ms
  proof -
    have "map_of ms (go_trim m) = Some info \<or> map_of ms (go_trim x) = Some info"
      using that(2) by (auto simp: providerModelInfo_def Let_def split: option.splits if_splits)
    with that(1) own show ?thesis by (fastforce simp: serves_def)
  qed
  show ?thesis
  proof (cases "p \<noteq> [] \<and> (\<exists>ms. map_of ?c p = Some ms \<and> providerModelInfo ms m x \<noteq> None)")
    case True
    then obtain ms where "map_of ?c p = Some ms" "providerModelInfo ms m x = Some info"
      using assms(2) by (auto simp: GetModel_def sp)
    with qual sp show ?thesis by auto
  next
    case False
    then have "map_of (rg_models r) x = Some info"
      using assms(2) by (auto simp: GetModel_def sp split: option.splits if_splits)
    with glob show ?thesis by blast
  qed
qed

text \<open>Readers that only build cached views.\<close>

definition same_catalog :: "registry \<Rightarrow> registry \<Rightarrow> bool" where
  "same_catalog r r' \<longleftrightarrow> (reg_reachable r \<longrightarrow> reg_reachable r') \<and>
     rg_modelsByProvider r' = rg_modelsByProvider r"

lemma same_catalog_refl [simp]: "same_catalog r r"
  by (simp add: same_catalog_def)

lemma same_catalog_trans: "same_catalog r r' \<Longrightarrow> same_catalog r' r'' \<Longrightarrow> same_catalog r r''"
  by (simp add: same_catalog_def)

lemma same_catalog_readers:
  "same_catalog r (snd (ListModels r))" "same_catalog r (snd (ListModelsWithProvider r))"
  "same_catalog r (snd (ResolveProviderSelector r s m))"
  unfolding same_catalog_def
  by (intro conjI impI, blast intro: reg_reachable.intros,
      simp add: ListModels_def ListModelsWithProvider_def ResolveProviderSelector_def
        buildSelectorIndexLocked_def Let_def split: option.split)+

lemma same_catalog_by_type:
  "same_catalog r (snd (providerByType r t))" "same_catalog r (snd (providerByTypeRegistry r t))"
  using same_catalog_readers(1) [of r]
  by (auto simp: providerByType_def providerByTypeRegistry_def Let_def split_beta split: option.split)

lemma same_catalog_scan:
  "same_catalog r (snd (resolve_by_scan r es rq s m))"
  using same_catalog_by_type(2) [of r s]
  by (auto simp: resolve_by_scan_def Let_def split: option.split prod.split)

lemma same_catalog_qualified:
  "same_catalog r (snd (resolveQualifiedSelector r rq sel))"
proof -
  let ?p = "go_trim (ms_Provider sel)" and ?m = "go_trim (ms_Model sel)"
  obtain c r1 where r1: "ResolveProviderSelector r ?p ?m = (c, r1)" by fastforce
  obtain es r2 where r2: "ListModelsWithProvider r1 = (es, r2)" by fastforce
  have "same_catalog r r1" "same_catalog r1 r2" "same_catalog r2 (snd (resolve_by_scan r2 es rq ?p ?m))"
    using same_catalog_readers(3) [of r ?p ?m] same_catalog_readers(2) [of r1] same_catalog_scan r1 r2
    by auto
  then show ?thesis
    by (cases c) (auto simp: resolveQualifiedSelector_def Let_def r1 r2 intro: same_catalog_trans)
qed

lemma same_catalog_resolve: "same_catalog r (snd (ResolveModel r rq))"
proof -
  have "same_catalog r r'" if "resolveQualifiedSelector r rq' sel = (c, r')" for rq' sel c r'
    using same_catalog_qualified [of r rq' sel] that by simp
  then show ?thesis
    by (auto simp: ResolveModel_def Let_def split: option.split sum.split prod.split)
qed

lemma same_catalog_registered: "same_catalog r (snd (hasRegisteredProviderSelector r s))"
  using same_catalog_by_type(2) [of r "go_trim s"]
  by (auto simp: hasRegisteredProviderSelector_def Let_def split: prod.split)

lemma refresh_reachable:
  assumes "reg_reachable r"
  shows "reg_reachable (snd (refreshProviderModelsForRequest env r rq))"
proof -
  have d: "reg_reachable (snd (do_refresh env r1 s))" if "reg_reachable r1" for r1 s
    unfolding do_refresh_def using that by (rule reg_reachable.refresh)
  have h: "reg_reachable r1" if "hasRegisteredProviderSelector r s = (b, r1)" for s b r1
    using same_catalog_registered [of r s] that assms by (simp add: same_catalog_def)
  show ?thesis
  proof (cases "Normalize rq")
    case (Inl e)
    with assms show ?thesis by (simp add: refreshProviderModelsForRequest_def)
  next
    case (Inr sel)
    let ?s = "go_trim (ms_Provider sel)"
    obtain b r1 where r1: "hasRegisteredProviderSelector r ?s = (b, r1)" by fastforce
    obtain o' r2 where r2: "do_refresh env r1 ?s = (o', r2)" by fastforce
    have "reg_reachable r1" "reg_reachable r2"
      using h [OF r1] d [of r1 ?s] r2 by auto
    with assms Inr r1 r2 show ?thesis
      by (cases b; cases o') (simp_all add: refreshProviderModelsForRequest_def Let_def)
  qed
qed

section \<open>Soundness of routing\<close>

text \<open>A selector that names a provider of the catalog and a model it lists.\<close>

definition sound_target :: "registry \<Rightarrow> model_selector \<Rightarrow> bool" where
  "sound_target r sel \<longleftrightarrow> name_match (rg_modelsByProvider r) (ms_Provider sel) (ms_Model sel)"

lemma type_match_name: "type_match c seg m n \<Longrightarrow> name_match c n m"
  by (auto simp: type_match_def name_match_def)

lemma sound_same: "same_catalog r r' \<Longrightarrow> sound_target r' sel = sound_target r sel"
  by (simp add: sound_target_def same_catalog_def)

lemma fast_sound:
  assumes "reg_reachable r" "clean_catalog (rg_modelsByProvider r)"
    and "ResolveProviderSelector r seg m = (Some s, r')"
  shows "sound_target r s"
proof -
  have inv: "reg_inv r" and w: "wf_inventory (rg_modelsByProvider r)"
    using reg_inv_reachable [OF assms(1)] by (simp_all add: reg_inv_def)
  let ?key = "go_trim seg @ CHR ''/'' # go_trim m"
  have ne: "go_trim seg \<noteq> []" "go_trim m \<noteq> []"
    using assms(3) by (auto simp: ResolveProviderSelector_def Let_def split: if_splits)
  have "fst (ResolveProviderSelector r (go_trim seg) (go_trim m)) = fst (ResolveProviderSelector r seg m)"
    by (simp add: ResolveProviderSelector_def)
  with assms(3) ResolveProviderSelector_index [OF inv _ _ ne]
  have "lookupSelectorIndex (build_index (rg_modelsByProvider r)) ?key = Some s" by simp
  then consider "map_of (fst (build_index (rg_modelsByProvider r))) ?key = Some s"
    | "map_of (snd (build_index (rg_modelsByProvider r))) ?key = Some s"
    by (auto simp: lookupSelectorIndex_def split: option.splits)
  then show ?thesis
  proof cases
    case 1
    with lookup_index_name [OF w assms(2)] show ?thesis by (auto simp: sound_target_def)
  next
    case 2
    have c: "\<forall>e\<in>set (flatten_inventory (rg_modelsByProvider r)). clean_entry e"
      using w assms(2) by (auto simp: flatten_serves clean_serves)
    from index_type_sound [OF c] 2 [unfolded build_index_entries] obtain n info where
      "(n, info) \<in> set (flatten_inventory (rg_modelsByProvider r))"
      "s = \<lparr>ms_Model = cm_ID (mi_Model info), ms_Provider = n\<rparr>"
      by fast
    then show ?thesis by (auto simp: sound_target_def name_match_def flatten_serves [OF w])
  qed
qed

lemma entry_sound:
  assumes "wf_inventory (rg_modelsByProvider r)" "clean_catalog (rg_modelsByProvider r)"
    and "e \<in> set (listing_of (rg_modelsByProvider r))"
  shows "sound_target r (entry_selector e)"
  using assms(3) unfolding listing_mem [OF assms(1,2)]
  by (auto simp: sound_target_def entry_selector_def name_match_def)

lemma owned_entry:
  "resolveProviderOwnedRawSelector entries seg m = Some s \<Longrightarrow> \<exists>e\<in>set entries. s = entry_selector e"
  by (auto simp: resolveProviderOwnedRawSelector_def Let_def find_Some_iff split: if_splits option.splits)

lemma scan_entry:
  "resolve_by_scan r entries rq seg m = (Some s, r') \<Longrightarrow> \<exists>e\<in>set entries. s = entry_selector e"
  by (auto simp: resolve_by_scan_def Let_def find_Some_iff dest: owned_entry
      split: if_splits option.splits prod.splits)

lemma listing_reachable: "reg_reachable r \<Longrightarrow> fst (ListModelsWithProvider r) = listing_of (rg_modelsByProvider r)"
  using reg_inv_reachable [of r]
  by (auto simp: ListModelsWithProvider_def reg_inv_def caches_ok_def Let_def split: option.split)

lemma qualified_sound:
  assumes "reg_reachable r" "clean_catalog (rg_modelsByProvider r)"
    and "resolveQualifiedSelector r rq sel = (Some s, r')"
  shows "sound_target r s"
proof -
  let ?p = "go_trim (ms_Provider sel)" and ?m = "go_trim (ms_Model sel)"
  obtain c r1 where r1: "ResolveProviderSelector r ?p ?m = (c, r1)" by fastforce
  obtain es r2 where r2: "ListModelsWithProvider r1 = (es, r2)" by fastforce
  have sc: "same_catalog r r1" using same_catalog_readers(3) [of r ?p ?m] r1 by simp
  show ?thesis
  proof (cases c)
    case (Some s')
    with assms(3) r1 have "s' = s" by (simp add: resolveQualifiedSelector_def Let_def split: if_splits)
    with Some r1 fast_sound [OF assms(1,2)] show ?thesis by simp
  next
    case None
    with assms(3) r1 r2 have "resolve_by_scan r2 es rq ?p ?m = (Some s, r')"
      by (simp add: resolveQualifiedSelector_def Let_def split: if_splits)
    from scan_entry [OF this] obtain e where e: "e \<in> set es" "s = entry_selector e" by blast
    have "es = listing_of (rg_modelsByProvider r1)"
      using listing_reachable [of r1] sc assms(1) r2 by (simp add: same_catalog_def)
    with e sc assms entry_sound [of r e] reg_inv_reachable [OF assms(1)]
    show ?thesis by (simp add: same_catalog_def reg_inv_def)
  qed
qed

lemma unqualified_sound:
  assumes "reg_reachable r" "clean_catalog (rg_modelsByProvider r)"
    and "resolveUnqualifiedSelector r sel = Some s" "trimmed (ms_Model sel)"
    and "splitQualifiedModel (ms_Model sel) = None"
  shows "sound_target r s"
proof -
  obtain info where i: "GetModel r (ms_Model sel) = Some info"
    "s = \<lparr>ms_Model = ms_Model sel, ms_Provider = go_trim (go_trim (mi_ProviderName info))\<rparr>"
    using assms(3)
    by (auto simp: resolveUnqualifiedSelector_def GetProviderName_def Let_def split: if_splits option.splits)
  have inv: "reg_inv r" by (rule reg_inv_reachable [OF assms(1)])
  then have w: "wf_inventory (rg_modelsByProvider r)" by (simp add: reg_inv_def)
  have sv: "serves (rg_modelsByProvider r) (mi_ProviderName info) info"
    using GetModel_serves [OF inv i(1)] by blast
  note c = clean_serves [OF w assms(2) sv, unfolded clean_entry_def, simplified]
  have "fst (splitModelSelector (ms_Model sel)) = []"
    using assms(4,5)
    by (auto simp: splitModelSelector_def splitQualifiedModel_def Let_def split: option.splits if_splits)
  with GetModel_serves [OF inv i(1)] c assms(4) have "cm_ID (mi_Model info) = ms_Model sel"
    by auto
  with i sv c show ?thesis by (auto simp: sound_target_def name_match_def)
qed


lemma ResolveModel_Inr:
  assumes "ResolveModel r rq = (Inr (s, ch), r')"
  obtains (resolved) sel where
      "ParseModelSelector (rs_Model rq) (rs_ProviderHint rq) = Inr sel" "ms_Provider sel = []"
      "resolveUnqualifiedSelector r sel = Some s" "r' = r"
    | (with_provider) sel rq' where
      "ParseModelSelector (rs_Model rq) (rs_ProviderHint rq) = Inr sel" "ms_Provider sel \<noteq> []"
      "resolveQualifiedSelector r rq' sel = (Some s, r')"
    | (unresolved) "ParseModelSelector (rs_Model rq) (rs_ProviderHint rq) = Inr s"
proof -
  let ?rq = "NewRequestedModelSelector (rs_Model rq) (rs_ProviderHint rq)"
  have n: "Normalize ?rq = ParseModelSelector (rs_Model rq) (rs_ProviderHint rq)"
    by (simp add: Normalize_def NewRequestedModelSelector_def parse_trim)
  have ready: "checkReady r = None"
    using assms by (cases "checkReady r") (simp_all add: ResolveModel_def)
  obtain sel where sel: "ParseModelSelector (rs_Model rq) (rs_ProviderHint rq) = Inr sel"
    using assms n ready
    by (cases "ParseModelSelector (rs_Model rq) (rs_ProviderHint rq)") (simp_all add: ResolveModel_def Let_def)
  have step: "ResolveModel r rq =
     (let (resolved, r') =
        (if ms_Provider sel = []
         then (case resolveUnqualifiedSelector r sel of Some c \<Rightarrow> (c, r) | None \<Rightarrow> (sel, r))
         else (case resolveQualifiedSelector r ?rq sel of (Some c, r') \<Rightarrow> (c, r') | (None, r') \<Rightarrow> (sel, r')))
      in (Inr (resolved, QualifiedModel resolved \<noteq> QualifiedModel sel), r'))"
    by (simp only: ResolveModel_def ready option.case Let_def n sel sum.case)
  show thesis
  proof (cases "ms_Provider sel = []")
    case True
    show thesis
    proof (cases "resolveUnqualifiedSelector r sel")
      case None
      with assms step True have "s = sel" by simp
      with sel show thesis by (intro unresolved) simp
    next
      case (Some c)
      with assms step True have "s = c" "r' = r" by simp_all
      with sel True Some show thesis by (intro resolved [of sel]) simp_all
    qed
  next
    case False
    obtain c r1 where q: "resolveQualifiedSelector r ?rq sel = (c, r1)" by fastforce
    show thesis
    proof (cases c)
      case None
      with assms step False q have "s = sel" by simp
      with sel show thesis by (intro unresolved) simp
    next
      case (Some c')
      with assms step False q have "s = c'" "r' = r1" by simp_all
      with sel False Some q show thesis by (intro with_provider [of sel ?rq]) simp_all
    qed
  qed
qed

lemma found_provider_serves:
  assumes "reg_reachable r" "clean_catalog (rg_modelsByProvider r)"
    and "sound_target r sel \<or> wf_selector sel"
    and "GetProvider r (QualifiedModel sel) = Some p"
  shows "\<exists>info. serves (rg_modelsByProvider r) (mi_ProviderName info) info \<and> mi_Provider info = p \<and>
     (mi_ProviderName info = ms_Provider sel \<and> cm_ID (mi_Model info) = ms_Model sel \<or>
      cm_ID (mi_Model info) = QualifiedModel sel)"
proof -
  let ?c = "rg_modelsByProvider r"
  have inv: "reg_inv r" by (rule reg_inv_reachable [OF assms(1)])
  then have w: "wf_inventory ?c" by (simp add: reg_inv_def)
  obtain info where i: "GetModel r (QualifiedModel sel) = Some info" "mi_Provider info = p"
    using assms(4) by (auto simp: GetProvider_def)
  note g = GetModel_serves [OF inv i(1)]
  then have sv: "serves ?c (mi_ProviderName info) info" by blast
  note c = clean_serves [OF w assms(2) sv, unfolded clean_entry_def, simplified]
  from assms(3) show ?thesis
  proof
    assume "sound_target r sel"
    then obtain info' where s: "serves ?c (ms_Provider sel) info'" "cm_ID (mi_Model info') = ms_Model sel"
      by (auto simp: sound_target_def name_match_def)
    note c' = clean_serves [OF w assms(2) s(1), unfolded clean_entry_def, simplified]
    from s obtain ms where m: "map_of ?c (ms_Provider sel) = Some ms" "map_of ms (ms_Model sel) = Some info'"
      by (auto simp: serves_def)
    have "QualifiedModel sel = ms_Provider sel @ CHR ''/'' # ms_Model sel"
      using c' by (simp add: QualifiedModel_def)
    then have "GetModel r (QualifiedModel sel) = Some info'"
      using GetModel_qualified [OF _ _ _ _ _ m] c' s(2) by simp
    with i have "info' = info" by simp
    with i(2) s c' show ?thesis by (intro exI [of _ info]) simp
  next
    assume wf: "wf_selector sel"
    have tq: "trimmed (QualifiedModel sel)"
      using wf by (auto simp: QualifiedModel_def wf_selector_def trimmed_slash)
    show ?thesis
    proof (cases "ms_Provider sel = []")
      case True
      then have "fst (splitModelSelector (QualifiedModel sel)) = []"
        using wf by (auto simp: QualifiedModel_def wf_selector_def splitModelSelector_def
            splitQualifiedModel_def Let_def split: option.splits if_splits)
      with g c tq have "cm_ID (mi_Model info) = QualifiedModel sel" by auto
      with sv i(2) show ?thesis by blast
    next
      case False
      then have "splitModelSelector (QualifiedModel sel) = (ms_Provider sel, ms_Model sel)"
        using wf splitModelSelector_qualified [of "ms_Provider sel" "ms_Model sel"]
        by (simp add: QualifiedModel_def wf_selector_def)
      with g tq wf have "mi_ProviderName info = ms_Provider sel \<and> cm_ID (mi_Model info) = ms_Model sel \<or>
          cm_ID (mi_Model info) = QualifiedModel sel"
        by (auto simp: wf_selector_def)
      with sv i(2) show ?thesis by blast
    qed
  qed
qed

lemma resolve_target:
  assumes "reg_reachable r" "clean_catalog (rg_modelsByProvider r)" "CHR ''/'' \<notin> set (rs_ProviderHint rq)"
    and "ResolveModel r rq = (Inr (s, ch), r')"
  shows "reg_reachable r' \<and> rg_modelsByProvider r' = rg_modelsByProvider r \<and>
    (sound_target r' s \<or> wf_selector s)"
proof -
  have sc: "same_catalog r r'" using same_catalog_resolve [of r rq] assms(4) by simp
  from assms(4) have "sound_target r s \<or> wf_selector s"
  proof (cases rule: ResolveModel_Inr)
    case (resolved sel)
    then have "trimmed (ms_Model sel)" "splitQualifiedModel (ms_Model sel) = None"
      using parse_wf [OF resolved(1) assms(3)] by (auto simp: wf_selector_def)
    with unqualified_sound [OF assms(1,2) resolved(3)] show ?thesis by blast
  next
    case (with_provider sel rq')
    from qualified_sound [OF assms(1,2) with_provider(3)] show ?thesis by blast
  next
    case unresolved
    from parse_wf [OF unresolved assms(3)] show ?thesis by blast
  qed
  then show ?thesis
    using sc assms(1) sound_same [OF sc] by (auto simp: same_catalog_def)
qed

text \<open>
  C8. A request is only sent to a provider for a model that provider lists: the provider
  object found for a request owns a catalog entry, and the selector forwarded to it is that
  entry's provider and model ID, unless the whole qualified name is itself the ID the entry is
  listed under. (In that last case the forwarded model lacks the prefix:
  \<open>qualified_raw_id_misrouted\<close>.)
\<close>

theorem routing_sound:
  assumes "reg_reachable r" and "CHR ''/'' \<notin> set hint"
    and "resolveProvider env r model hint = (Inr (p, sel), r')"
    and "clean_catalog (rg_modelsByProvider r')"
  shows "\<exists>info. serves (rg_modelsByProvider r') (mi_ProviderName info) info \<and> mi_Provider info = p \<and>
     (mi_ProviderName info = ms_Provider sel \<and> cm_ID (mi_Model info) = ms_Model sel \<or>
      cm_ID (mi_Model info) = QualifiedModel sel)"
proof -
  let ?rq = "NewRequestedModelSelector model hint"
  have slash: "CHR ''/'' \<notin> set (rs_ProviderHint ?rq)"
    using assms(2) go_trim_set by (auto simp: NewRequestedModelSelector_def)
  have last_step: ?thesis
    if "reg_reachable r1" "ResolveModel r1 ?rq = (Inr (s, ch), r2)" "GetProvider r2 (QualifiedModel s) = Some p"
      "sel = s" "r' = r2" for r1 s ch r2
  proof -
    have sc: "same_catalog r1 r2" using same_catalog_resolve [of r1 ?rq] that(2) by simp
    then have "clean_catalog (rg_modelsByProvider r1)"
      using assms(4) that(5) by (simp add: same_catalog_def)
    from resolve_target [OF that(1) this slash that(2)] found_provider_serves [of r2 s p] that assms(4)
    show ?thesis by auto
  qed
  have find: ?thesis
    if "reg_reachable r1" "ResolveModel r1 ?rq = (Inr (s, ch), r2)"
      "find_provider env ?rq b s r2 = (Inr (p, sel), r')" for r1 s ch r2 b
  proof (cases "GetProvider r2 (QualifiedModel s)")
    case (Some q)
    with that(3) have "q = p" "sel = s" "r' = r2" by (auto simp: find_provider_def)
    with last_step [OF that(1,2)] Some show ?thesis by simp
  next
    case None
    obtain o' r3 where rf: "refreshProviderModelsForRequest env r2 ?rq = (o', r3)" by fastforce
    have "reg_reachable r2" using same_catalog_resolve [of r1 ?rq] that(1,2) by (simp add: same_catalog_def)
    then have r3: "reg_reachable r3" using refresh_reachable [of r2 env ?rq] rf by simp
    obtain b' e' where o': "o' = (b', e')" by fastforce
    obtain m' r4 where m': "ResolveModel r3 ?rq = (m', r4)" by fastforce
    have "\<exists>s' ch'. ResolveModel r3 ?rq = (Inr (s', ch'), r') \<and>
        GetProvider r' (QualifiedModel s') = Some p \<and> sel = s'"
      using that(3) None rf o' m'
      by (cases b; cases b'; cases e'; cases m')
        (auto simp: find_provider_def Let_def split: option.splits)
    then obtain s' ch' where
      "ResolveModel r3 ?rq = (Inr (s', ch'), r')" "GetProvider r' (QualifiedModel s') = Some p" "sel = s'"
      by blast
    with last_step [OF r3] show ?thesis by simp
  qed
  obtain o1 r1 where m: "ResolveModel r ?rq = (o1, r1)" by fastforce
  show ?thesis
  proof (cases o1)
    case (Inr sc)
    then obtain s ch where "o1 = Inr (s, ch)" by (cases sc) auto
    with find [OF assms(1)] m assms(3) show ?thesis by (simp add: resolveProvider_def Let_def)
  next
    case (Inl e)
    obtain o2 r2 where rf: "refreshProviderModelsForRequest env r1 ?rq = (o2, r2)" by fastforce
    have "reg_reachable r1" using same_catalog_resolve [of r ?rq] assms(1) m by (simp add: same_catalog_def)
    then have r2: "reg_reachable r2" using refresh_reachable [of r1 env ?rq] rf by simp
    obtain b' e' where o2: "o2 = (b', e')" by fastforce
    obtain m' r3 where m': "ResolveModel r2 ?rq = (m', r3)" by fastforce
    have "\<exists>s ch. m' = Inr (s, ch) \<and> find_provider env ?rq True s r3 = (Inr (p, sel), r')"
      using assms(3) Inl m rf o2 m'
      by (cases b'; cases e'; cases m') (auto simp: resolveProvider_def Let_def)
    with m' find [OF r2] show ?thesis by blast
  qed
qed


text \<open>
  C12. The index of \<open>ResolveProviderSelector\<close> finds an entry exactly when the catalog scan it
  replaces does, with the same model ID, and the same entry on a provider-name match; on a
  provider-type match it takes the smallest provider name, which the scan (ordered by the
  public selector, see \<open>tie_break_differs\<close>) need not.
\<close>

theorem fast_path_agrees:
  assumes "reg_reachable r" and "clean_catalog (rg_modelsByProvider r)"
    and "trimmed seg" and "seg \<noteq> []" and "CHR ''/'' \<notin> set seg" and "trimmed m" and "m \<noteq> []"
  shows "let fast = fst (ResolveProviderSelector r seg m);
             scan = resolveProviderOwnedRawSelector (fst (ListModelsWithProvider r)) seg m
         in (fast = None \<longleftrightarrow> scan = None) \<and>
            (name_match (rg_modelsByProvider r) seg m \<longrightarrow>
               fast = Some \<lparr>ms_Model = m, ms_Provider = seg\<rparr> \<and> scan = fast) \<and>
            (\<forall>s t. fast = Some s \<and> scan = Some t \<longrightarrow>
               ms_Model s = m \<and> ms_Model t = m \<and> ms_Provider s \<le> ms_Provider t)"
proof -
  let ?c = "rg_modelsByProvider r"
  have w: "wf_inventory ?c" using reg_inv_reachable [OF assms(1)] by (simp add: reg_inv_def)
  note p = resolution_precedence [OF assms]
  note q = scan_spec [OF w assms(2-4,6,7)]
  obtain f s where fs: "f = fst (ResolveProviderSelector r seg m)"
    "s = resolveProviderOwnedRawSelector (fst (ListModelsWithProvider r)) seg m" by simp
  then have s: "s = resolveProviderOwnedRawSelector (listing_of ?c) seg m"
    by (simp add: listing_reachable [OF assms(1)])
  show ?thesis
    using p q unfolding fs [symmetric] s [symmetric] Let_def
    by (cases f; cases s; cases "name_match ?c seg m") (auto intro: model_selector.equality)
qed

section \<open>Concrete catalogs\<close>

definition demo_catalog :: "(string \<times> string \<times> string list) list \<Rightarrow> registry" where
  "demo_catalog ps =
     snd (demo_sweep (\<lambda>p. demo_answer (Some (snd (snd (ps ! p)))))
       (foldl (\<lambda>r p. RegisterProviderWithNameAndType r p (fst (ps ! p)) (fst (snd (ps ! p))))
          NewModelRegistry [0..<length ps]))"

lemma demo_catalog_reachable: "reg_reachable (demo_catalog ps)"
proof -
  have "reg_reachable (foldl (\<lambda>r p. RegisterProviderWithNameAndType r p (fst (ps ! p)) (fst (snd (ps ! p))))
          r qs)" if "reg_reachable r" for r qs
    using that by (induction qs arbitrary: r) (auto intro: reg_reachable.register)
  then show ?thesis
    unfolding demo_catalog_def demo_sweep_def by (intro reg_reachable.sweep) (blast intro: reg_reachable.new)
qed

definition demo_env :: refresh_env where
  "demo_env = \<lparr>re_ptr = \<lambda>p. ''p'', re_enrich = \<lambda>p i. None, re_acquire = None,
     re_availability = \<lambda>p. None, re_checked_at = \<lambda>p. 0, re_answers = \<lambda>p. demo_answer None\<rparr>"

lemma tie_break_differs:
  "(let r = demo_catalog [(''east'', ''openai'', [''gpt'']), (''east-2'', ''openai'', [''gpt''])]
    in map_option ms_Provider (fst (ResolveProviderSelector r ''openai'' ''gpt'')) = Some ''east'' \<and>
       map_option ms_Provider (resolveProviderOwnedRawSelector (fst (ListModelsWithProvider r))
         ''openai'' ''gpt'') = Some ''east-2'')"
  by code_simp

lemma qualified_raw_id_misrouted:
  "fst (resolveProvider demo_env (demo_catalog [(''mine'', ''openai'', [''gpt'']), (''hub'', ''hub'', [''openai/o9''])])
     ''openai/o9'' []) = Inr (1, \<lparr>ms_Model = ''o9'', ms_Provider = ''openai''\<rparr>)"
  by code_simp

lemma explicit_raw_id_misrouted:
  "fst (resolveProvider demo_env (demo_catalog [(''hub'', ''hub'', [''meta/llama''])])
     ''llama'' ''meta'') = Inr (0, \<lparr>ms_Model = ''llama'', ms_Provider = ''meta''\<rparr>)"
  by code_simp

theorem routing_sound_witness:
  "fst (resolveProvider demo_env demo_up ''openai/gpt'' []) = Inr (1, \<lparr>ms_Model = ''gpt'', ms_Provider = ''east''\<rparr>) \<and>
   (\<exists>info :: model_info. mi_Provider info = 1 \<and> (mi_ProviderName info = ''east'' \<or> cm_ID (mi_Model info) = ''east/gpt''))"
proof -
  have f: "fst (resolveProvider demo_env demo_up ''openai/gpt'' []) =
      Inr (1, \<lparr>ms_Model = ''gpt'', ms_Provider = ''east''\<rparr>)" by code_simp
  have c: "clean_catalog (rg_modelsByProvider (snd (resolveProvider demo_env demo_up ''openai/gpt'' [])))"
    by code_simp
  have e: "resolveProvider demo_env demo_up ''openai/gpt'' [] =
      (Inr (1, \<lparr>ms_Model = ''gpt'', ms_Provider = ''east''\<rparr>), snd (resolveProvider demo_env demo_up ''openai/gpt'' []))"
    using f by (simp add: prod_eq_iff)
  have "CHR ''/'' \<notin> set []" by simp
  from routing_sound [OF demo_reachable(2) this e c] obtain info :: model_info where
    i: "mi_Provider info = 1" "mi_ProviderName info = ''east'' \<or>
      cm_ID (mi_Model info) = QualifiedModel \<lparr>ms_Model = ''gpt'', ms_Provider = ''east''\<rparr>"
    unfolding model_selector.simps by blast
  then show ?thesis using f by (intro conjI exI [of _ info]) (simp_all add: QualifiedModel_def)
qed

theorem resolution_precedence_witness:
  "\<exists>s. fst (ResolveProviderSelector demo_up ''openai'' ''gpt'') = Some s \<and> ms_Model s = ''gpt''"
proof -
  have t: "trimmed ''openai''" "trimmed ''gpt''" unfolding trimmed_iff by code_simp+
  have c: "clean_catalog (rg_modelsByProvider demo_up)" by code_simp
  have "map_option ms_Provider (fst (ResolveProviderSelector demo_up ''openai'' ''gpt'')) = Some ''east''"
    by code_simp
  with resolution_precedence [OF demo_reachable(2) c t(1) _ _ t(2)] show ?thesis
    by (auto split: option.splits)
qed

theorem fast_path_agrees_witness:
  "(fst (ResolveProviderSelector demo_up ''west'' ''gpt'') = None) =
   (resolveProviderOwnedRawSelector (fst (ListModelsWithProvider demo_up)) ''west'' ''gpt'' = None)"
proof -
  have t: "trimmed ''west''" "trimmed ''gpt''" unfolding trimmed_iff by code_simp+
  have c: "clean_catalog (rg_modelsByProvider demo_up)" by code_simp
  from fast_path_agrees [OF demo_reachable(2) c t(1) _ _ t(2)]
  show ?thesis by (simp add: Let_def)
qed

end
