(* ===== verification/MemoryStore.thy ===== *)
theory MemoryStore
  imports GatewayErrors "HOL-Library.AList" "HOL-Library.Product_Lexorder"
begin

text \<open>
  The bounded in-memory stores of responses and conversations:
  \<open>internal/responsestore/store_memory.go\<close> and \<open>internal/conversationstore/store_memory.go\<close>.

  The two packages hold the same store over different snapshots. The store is written once,
  over any record that extends \<open>stored_times\<close>; what a package adds is the record \<open>snapshot_ops\<close>:
  the ID of a snapshot, the deep copy with its serialized size, and the word its messages use.
  Theory \<open>Stores\<close> instantiates it for both. Every operation holds the mutex and is one step
  that gets the reading of the clock; sizes are integers, far below the 64-bit limit.
\<close>

record stored_times =
  st_StoredAt :: go_time
  st_ExpiresAt :: go_time

record 'a snapshot_ops =
  so_id :: "'a \<Rightarrow> string"
  so_clone :: "'a \<Rightarrow> go_error + ('a \<times> nat)"
  so_noun :: string

record 'a memory_store =
  me_items :: "(string \<times> 'a stored_times_scheme) list"
  me_sizes :: "(string \<times> int) list"
  me_totalBytes :: int
  me_ttl :: go_duration
  me_maxEntries :: int
  me_maxBytes :: int
  me_lastCleanup :: go_time
  me_cleanupInterval :: go_duration

section \<open>Operations\<close>

definition NewMemoryStore :: "go_duration \<Rightarrow> int \<Rightarrow> int \<Rightarrow> 'a memory_store" where
  \<comment> \<open>the store after its options have set the three bounds\<close>
  "NewMemoryStore ttl maxEntries maxBytes =
     \<lparr>me_items = [], me_sizes = [], me_totalBytes = 0, me_ttl = ttl, me_maxEntries = maxEntries,
      me_maxBytes = maxBytes, me_lastCleanup = 0, me_cleanupInterval = 60 * second\<rparr>"

definition ErrNotFound :: "string \<Rightarrow> go_error" where
  "ErrNotFound noun = PlainError (noun @ '' not found'')"

definition snapshotExpired :: "'a stored_times_scheme \<Rightarrow> go_time \<Rightarrow> bool" where
  "snapshotExpired x now \<longleftrightarrow> st_ExpiresAt x \<noteq> 0 \<and> \<not> now < st_ExpiresAt x"

definition removeLocked :: "string \<Rightarrow> 'a memory_store \<Rightarrow> 'a memory_store" where
  "removeLocked k s =
     (if map_of (me_items s) k = None then s
      else s\<lparr>me_items := AList.delete k (me_items s),
             me_totalBytes := me_totalBytes s -
               (case map_of (me_sizes s) k of None \<Rightarrow> 0 | Some n \<Rightarrow> n),
             me_sizes := AList.delete k (me_sizes s)\<rparr>)"

definition putLocked ::
  "string \<Rightarrow> 'a stored_times_scheme \<Rightarrow> int \<Rightarrow> 'a memory_store \<Rightarrow> 'a memory_store" where
  "putLocked k x bytes s =
     (let s = removeLocked k s
      in s\<lparr>me_items := AList.update k x (me_items s), me_sizes := AList.update k bytes (me_sizes s),
           me_totalBytes := me_totalBytes s + bytes\<rparr>)"

definition prepareForMemory ::
  "'a stored_times_scheme \<Rightarrow> go_time \<Rightarrow> go_duration \<Rightarrow> 'a stored_times_scheme" where
  "prepareForMemory x now ttl =
     (let x = (if st_StoredAt x = 0 then x\<lparr>st_StoredAt := now\<rparr> else x)
      in if 0 < ttl \<and> st_ExpiresAt x = 0 then x\<lparr>st_ExpiresAt := st_StoredAt x + ttl\<rparr> else x)"

definition cleanupExpiredLocked :: "go_time \<Rightarrow> 'a memory_store \<Rightarrow> 'a memory_store" where
  "cleanupExpiredLocked now s =
     (if me_ttl s \<le> 0 then s
      else if 0 < me_cleanupInterval s \<and> me_lastCleanup s \<noteq> 0 \<and>
              time_sub now (me_lastCleanup s) < me_cleanupInterval s then s
      else foldl (\<lambda>s (k, x). if snapshotExpired x now then removeLocked k s else s)
             (s\<lparr>me_lastCleanup := now\<rparr>) (me_items s))"

definition within_bounds :: "'a memory_store \<Rightarrow> bool" where
  "within_bounds s \<longleftrightarrow>
     (me_maxEntries s \<le> 0 \<or> int (length (me_items s)) \<le> me_maxEntries s) \<and>
     (me_maxBytes s \<le> 0 \<or> me_totalBytes s \<le> me_maxBytes s)"

fun evict :: "string \<Rightarrow> string list \<Rightarrow> 'a memory_store \<Rightarrow> 'a memory_store" where
  "evict protect [] s = s"
| "evict protect (k # ks) s =
     (if within_bounds s then s
      else if k = protect then evict protect ks s
      else evict protect ks (removeLocked k s))"

definition eviction_order :: "'a memory_store \<Rightarrow> string list" where
  "eviction_order s =
     map snd (sort (map (\<lambda>(k, x). (st_StoredAt x, k)) (me_items s)))"

definition enforceBoundsLocked :: "string \<Rightarrow> 'a memory_store \<Rightarrow> 'a memory_store" where
  "enforceBoundsLocked protect s =
     (let overEntries = (0 < me_maxEntries s \<and> me_maxEntries s < int (length (me_items s)));
          overBytes = (0 < me_maxBytes s \<and> me_maxBytes s < me_totalBytes s)
      in if \<not> overEntries \<and> \<not> overBytes then s else evict protect (eviction_order s) s)"

definition checkByteBudget :: "string \<Rightarrow> int \<Rightarrow> 'a memory_store \<Rightarrow> go_error option" where
  "checkByteBudget noun bytes s =
     (if 0 < me_maxBytes s \<and> me_maxBytes s < bytes
      then Some (PlainError (noun @ '' snapshot of '' @ decimal_int bytes @
             '' bytes exceeds the in-memory store budget of '' @ decimal_int (me_maxBytes s) @
             '' bytes''))
      else None)"

definition id_required :: "string \<Rightarrow> go_error" where
  "id_required noun = PlainError (noun @ '' id is required'')"

text \<open>\<open>Create\<close>. A nil snapshot, or one without its public object, has the empty ID.\<close>

definition ms_Create ::
  "'a stored_times_scheme snapshot_ops \<Rightarrow> go_time \<Rightarrow> 'a stored_times_scheme \<Rightarrow> 'a memory_store \<Rightarrow>
   go_error option \<times> 'a memory_store" where
  "ms_Create ops now x s =
     (if so_id ops x = [] then (Some (id_required (so_noun ops)), s)
      else case so_clone ops x of
          Inl err \<Rightarrow> (Some err, s)
        | Inr (c0, len) \<Rightarrow>
            let bytes = int len in
            (case checkByteBudget (so_noun ops) bytes s of
               Some err \<Rightarrow> (Some err, s)
             | None \<Rightarrow>
                 let c = prepareForMemory c0 now (me_ttl s);
                     k = so_id ops c;
                     s = cleanupExpiredLocked now s
                 in if snapshotExpired c now then (None, s)
                    else case map_of (me_items s) k of
                        None \<Rightarrow> (None, enforceBoundsLocked k (putLocked k c bytes s))
                      | Some existing \<Rightarrow>
                          if \<not> snapshotExpired existing now
                          then (Some (PlainError (so_noun ops @ '' already exists: '' @ k)), s)
                          else (None, enforceBoundsLocked k (putLocked k c bytes (removeLocked k s)))))"

definition ms_Get ::
  "'a stored_times_scheme snapshot_ops \<Rightarrow> go_time \<Rightarrow> string \<Rightarrow> 'a memory_store \<Rightarrow>
   (go_error + 'a stored_times_scheme) \<times> 'a memory_store" where
  "ms_Get ops now k s =
     (let s = cleanupExpiredLocked now s
      in case map_of (me_items s) k of
           None \<Rightarrow> (Inl (ErrNotFound (so_noun ops)), s)
         | Some x \<Rightarrow>
             if snapshotExpired x now then (Inl (ErrNotFound (so_noun ops)), removeLocked k s)
             else (map_sum (\<lambda>e. e) fst (so_clone ops x), s))"

definition ms_Update ::
  "'a stored_times_scheme snapshot_ops \<Rightarrow> go_time \<Rightarrow> 'a stored_times_scheme \<Rightarrow> 'a memory_store \<Rightarrow>
   go_error option \<times> 'a memory_store" where
  "ms_Update ops now x s =
     (if so_id ops x = [] then (Some (id_required (so_noun ops)), s)
      else case so_clone ops x of
          Inl err \<Rightarrow> (Some err, s)
        | Inr (c, len) \<Rightarrow>
            let bytes = int len in
            (case checkByteBudget (so_noun ops) bytes s of
               Some err \<Rightarrow> (Some err, s)
             | None \<Rightarrow>
                 let s = cleanupExpiredLocked now s; k = so_id ops c
                 in case map_of (me_items s) k of
                      None \<Rightarrow> (Some (ErrNotFound (so_noun ops)), s)
                    | Some existing \<Rightarrow>
                        if snapshotExpired existing now
                        then (Some (ErrNotFound (so_noun ops)), removeLocked k s)
                        else
                          let c = (if st_StoredAt c = 0 then c\<lparr>st_StoredAt := st_StoredAt existing\<rparr> else c);
                              c = (if st_ExpiresAt c = 0 then c\<lparr>st_ExpiresAt := st_ExpiresAt existing\<rparr> else c);
                              c = prepareForMemory c now (me_ttl s)
                          in if snapshotExpired c now
                             then (Some (ErrNotFound (so_noun ops)), removeLocked k s)
                             else (None, enforceBoundsLocked k (putLocked k c bytes s))))"

text \<open>\<open>Delete\<close> differs between the packages: the conversation store reports an expired entry as
  not found, the response store does not look at the expiry.\<close>

definition ms_Delete ::
  "bool \<Rightarrow> 'a stored_times_scheme snapshot_ops \<Rightarrow> go_time \<Rightarrow> string \<Rightarrow> 'a memory_store \<Rightarrow>
   go_error option \<times> 'a memory_store" where
  "ms_Delete checks_expiry ops now k s =
     (let s = cleanupExpiredLocked now s
      in case map_of (me_items s) k of
           None \<Rightarrow> (Some (ErrNotFound (so_noun ops)), s)
         | Some x \<Rightarrow>
             (if checks_expiry \<and> snapshotExpired x now then Some (ErrNotFound (so_noun ops)) else None,
              removeLocked k s))"

section \<open>Removing entries\<close>

definition drop_keys :: "string set \<Rightarrow> (string \<times> 'b) list \<Rightarrow> (string \<times> 'b) list" where
  "drop_keys D xs = filter (\<lambda>(k, _). k \<notin> D) xs"

lemma drop_keys_simps [simp]:
  "drop_keys D [] = []"
  "drop_keys D ((k, x) # xs) = (if k \<in> D then drop_keys D xs else (k, x) # drop_keys D xs)"
  by (simp_all add: drop_keys_def)

lemma drop_keys_empty [simp]: "drop_keys {} xs = xs"
  by (simp add: drop_keys_def)

lemma drop_keys_drop_keys [simp]: "drop_keys D (drop_keys E xs) = drop_keys (D \<union> E) xs"
  by (auto simp: drop_keys_def intro!: filter_cong)

lemma AList_delete_drop_keys: "AList.delete k xs = drop_keys {k} xs"
  by (auto simp: AList.delete_eq drop_keys_def intro!: filter_cong)

lemma map_of_drop_keys [simp]: "map_of (drop_keys D xs) k = (if k \<in> D then None else map_of xs k)"
  by (induction xs) auto

lemma set_drop_keys: "set (drop_keys D xs) = {(k, x) \<in> set xs. k \<notin> D}"
  by (auto simp: drop_keys_def)

lemma fst_set_drop_keys: "fst ` set (drop_keys D xs) = fst ` set xs - D"
  by (force simp: set_drop_keys)

lemma distinct_drop_keys: "distinct (map fst xs) \<Longrightarrow> distinct (map fst (drop_keys D xs))"
  by (induction xs) (auto simp: set_drop_keys)

lemma drop_keys_absent: "D \<inter> fst ` set xs = {} \<Longrightarrow> drop_keys D xs = xs"
  by (force simp: drop_keys_def filter_id_conv)

text \<open>Every removal of the store, of one entry or of many, is \<open>drop_entries\<close>.\<close>

definition sum_sizes :: "(string \<times> int) list \<Rightarrow> int" where
  "sum_sizes xs = sum_list (map snd xs)"

lemma sum_sizes_simps [simp]: "sum_sizes [] = 0" "sum_sizes ((k, n) # xs) = n + sum_sizes xs"
  by (simp_all add: sum_sizes_def)

lemma sum_sizes_delete:
  "distinct (map fst xs) \<Longrightarrow> sum_sizes (drop_keys {k} xs) = sum_sizes xs - (case map_of xs k of None \<Rightarrow> 0 | Some n \<Rightarrow> n)"
proof (induction xs)
  case (Cons x xs)
  obtain k' n where x: "x = (k', n)" by (cases x)
  show ?case
  proof (cases "k = k'")
    case True
    have "drop_keys {k} xs = xs"
      using Cons.prems x True by (intro drop_keys_absent) auto
    then show ?thesis using x True by simp
  next
    case False
    then show ?thesis using Cons x by simp
  qed
qed simp

lemma sum_sizes_nonneg: "\<forall>(k, n) \<in> set xs. 0 \<le> n \<Longrightarrow> 0 \<le> sum_sizes xs"
  by (induction xs) auto

lemma fst_set_update: "fst ` set (AList.update k x xs) = insert k (fst ` set xs)"
  using dom_map_of_conv_image_fst [of "AList.update k x xs"] by (simp add: update_conv' dom_map_of_conv_image_fst)

lemma update_absent: "k \<notin> fst ` set xs \<Longrightarrow> AList.update k x xs = xs @ [(k, x)]"
  by (induction xs) auto

section \<open>The accounting invariant\<close>

text \<open>The two maps have the same keys, each key once, and \<open>totalBytes\<close> is the sum of the sizes.\<close>

definition store_inv :: "'a memory_store \<Rightarrow> bool" where
  "store_inv s \<longleftrightarrow>
     distinct (map fst (me_items s)) \<and> distinct (map fst (me_sizes s)) \<and>
     fst ` set (me_sizes s) = fst ` set (me_items s) \<and>
     me_totalBytes s = sum_sizes (me_sizes s) \<and> (\<forall>(k, n) \<in> set (me_sizes s). 0 \<le> n)"

definition drop_entries :: "string set \<Rightarrow> 'a memory_store \<Rightarrow> 'a memory_store" where
  "drop_entries D s =
     s\<lparr>me_items := drop_keys D (me_items s), me_sizes := drop_keys D (me_sizes s),
       me_totalBytes := sum_sizes (drop_keys D (me_sizes s))\<rparr>"

lemma drop_entries_simps [simp]:
  "me_items (drop_entries D s) = drop_keys D (me_items s)"
  "me_sizes (drop_entries D s) = drop_keys D (me_sizes s)"
  "me_totalBytes (drop_entries D s) = sum_sizes (drop_keys D (me_sizes s))"
  "me_ttl (drop_entries D s) = me_ttl s" "me_maxEntries (drop_entries D s) = me_maxEntries s"
  "me_maxBytes (drop_entries D s) = me_maxBytes s"
  "me_lastCleanup (drop_entries D s) = me_lastCleanup s"
  "me_cleanupInterval (drop_entries D s) = me_cleanupInterval s"
  by (simp_all add: drop_entries_def)

lemma drop_entries_drop_entries [simp]:
  "drop_entries D (drop_entries E s) = drop_entries (D \<union> E) s"
  by (simp add: drop_entries_def)

lemma drop_entries_empty: "store_inv s \<Longrightarrow> drop_entries {} s = s"
  by (simp add: drop_entries_def store_inv_def)

lemma drop_entries_inv: "store_inv s \<Longrightarrow> store_inv (drop_entries D s)"
  by (simp add: store_inv_def distinct_drop_keys fst_set_drop_keys) (auto simp: set_drop_keys)

lemma removeLocked_drop: "store_inv s \<Longrightarrow> removeLocked k s = drop_entries {k} s"
proof (cases "map_of (me_items s) k")
  case None
  assume inv: "store_inv s"
  have "k \<notin> fst ` set (me_items s)" using None by (simp add: map_of_eq_None_iff)
  with inv None show ?thesis
    by (simp add: removeLocked_def drop_entries_def store_inv_def drop_keys_absent)
next
  case (Some x)
  assume inv: "store_inv s"
  then show ?thesis using Some sum_sizes_delete [of "me_sizes s" k]
    by (simp add: removeLocked_def drop_entries_def store_inv_def AList_delete_drop_keys)
qed

lemma removeLocked_inv [intro]: "store_inv s \<Longrightarrow> store_inv (removeLocked k s)"
  by (simp add: removeLocked_drop drop_entries_inv)

lemma NewMemoryStore_inv: "store_inv (NewMemoryStore ttl me mb)"
  by (simp add: store_inv_def NewMemoryStore_def)

lemma putLocked_simps:
  assumes "store_inv s"
  shows "me_items (putLocked k x n s) = drop_keys {k} (me_items s) @ [(k, x)]"
    and "me_sizes (putLocked k x n s) = drop_keys {k} (me_sizes s) @ [(k, n)]"
    and "me_totalBytes (putLocked k x n s) = sum_sizes (drop_keys {k} (me_sizes s)) + n"
    and "me_ttl (putLocked k x n s) = me_ttl s"
    and "me_maxEntries (putLocked k x n s) = me_maxEntries s"
    and "me_maxBytes (putLocked k x n s) = me_maxBytes s"
    and "me_lastCleanup (putLocked k x n s) = me_lastCleanup s"
    and "me_cleanupInterval (putLocked k x n s) = me_cleanupInterval s"
  using assms
  by (simp_all add: putLocked_def removeLocked_drop Let_def update_absent set_drop_keys image_iff)

lemma putLocked_inv: "store_inv s \<Longrightarrow> 0 \<le> n \<Longrightarrow> store_inv (putLocked k x n s)"
proof -
  assume inv: "store_inv s" and n: "0 \<le> n"
  have "fst ` set (drop_keys {k} (me_sizes s)) = fst ` set (drop_keys {k} (me_items s))"
    using drop_entries_inv [OF inv, of "{k}"] by (simp add: store_inv_def)
  moreover have "sum_sizes (xs @ [(k, n)]) = sum_sizes xs + n" for xs
    by (simp add: sum_sizes_def)
  ultimately show ?thesis using inv n
    by (simp add: store_inv_def putLocked_simps [OF inv] distinct_drop_keys set_drop_keys)
       (auto simp: image_iff)
qed

lemma map_of_putLocked:
  "store_inv s \<Longrightarrow> map_of (me_items (putLocked k x n s)) = (map_of (me_items s))(k \<mapsto> x)"
  by (rule ext) (auto simp: putLocked_simps map_add_def split: option.split)

lemma size_of_putLocked: "store_inv s \<Longrightarrow> map_of (me_sizes (putLocked k x n s)) k = Some n"
  by (simp add: putLocked_simps map_add_def)

section \<open>The expiry sweep\<close>

definition expired_keys :: "go_time \<Rightarrow> 'a memory_store \<Rightarrow> string set" where
  "expired_keys now s = {k. \<exists>x. map_of (me_items s) k = Some x \<and> snapshotExpired x now}"

lemma sweep_drop:
  "store_inv s \<Longrightarrow>
     foldl (\<lambda>s (k, x). if snapshotExpired x now then removeLocked k s else s) s xs =
     drop_entries {k. \<exists>x. (k, x) \<in> set xs \<and> snapshotExpired x now} s"
proof (induction xs arbitrary: s)
  case Nil then show ?case by (simp add: drop_entries_empty)
next
  case (Cons y xs)
  obtain k x where y: "y = (k, x)" by (cases y)
  show ?case
  proof (cases "snapshotExpired x now")
    case True
    have "{k. \<exists>x. (k, x) \<in> set xs \<and> snapshotExpired x now} \<union> {k} =
          {k. \<exists>x. (k, x) \<in> set (y # xs) \<and> snapshotExpired x now}"
      using True y by auto
    then show ?thesis using Cons True y
      by (simp add: removeLocked_drop drop_entries_inv)
  next
    case False
    then have "{k. \<exists>x. (k, x) \<in> set (y # xs) \<and> snapshotExpired x now} =
               {k. \<exists>x. (k, x) \<in> set xs \<and> snapshotExpired x now}"
      using y by auto
    then show ?thesis using Cons False y by simp
  qed
qed

text \<open>A sweep that is due removes exactly the expired entries and notes the time; otherwise
  nothing changes.\<close>

definition sweep_due :: "go_time \<Rightarrow> 'a memory_store \<Rightarrow> bool" where
  "sweep_due now s \<longleftrightarrow> 0 < me_ttl s \<and>
     \<not> (0 < me_cleanupInterval s \<and> me_lastCleanup s \<noteq> 0 \<and>
        time_sub now (me_lastCleanup s) < me_cleanupInterval s)"

lemma cleanup_drop:
  assumes "store_inv s"
  shows "cleanupExpiredLocked now s =
    (if sweep_due now s then drop_entries (expired_keys now s) (s\<lparr>me_lastCleanup := now\<rparr>) else s)"
proof -
  have "store_inv (s\<lparr>me_lastCleanup := now\<rparr>)" using assms by (simp add: store_inv_def)
  moreover have "{k. \<exists>x. (k, x) \<in> set (me_items s) \<and> snapshotExpired x now} = expired_keys now s"
    using assms by (auto simp: expired_keys_def store_inv_def)
  ultimately show ?thesis
    by (auto simp: cleanupExpiredLocked_def sweep_due_def sweep_drop)
qed

lemma cleanup_inv: "store_inv s \<Longrightarrow> store_inv (cleanupExpiredLocked now s)"
proof -
  assume inv: "store_inv s"
  then have "store_inv (s\<lparr>me_lastCleanup := now\<rparr>)" by (simp add: store_inv_def)
  then show ?thesis using inv by (simp add: cleanup_drop drop_entries_inv)
qed

lemma cleanup_simps:
  assumes "store_inv s"
  shows "me_ttl (cleanupExpiredLocked now s) = me_ttl s"
    and "me_maxEntries (cleanupExpiredLocked now s) = me_maxEntries s"
    and "me_maxBytes (cleanupExpiredLocked now s) = me_maxBytes s"
  using assms by (simp_all add: cleanup_drop)

section \<open>Eviction\<close>

lemma sum_sizes_drop_le:
  "\<forall>(k, n) \<in> set xs. 0 \<le> n \<Longrightarrow> sum_sizes (drop_keys D xs) \<le> sum_sizes xs"
  by (induction xs) auto

lemma length_drop_keys_le: "length (drop_keys D xs) \<le> length xs"
  by (simp add: drop_keys_def)

lemma within_bounds_drop:
  "store_inv s \<Longrightarrow> within_bounds s \<Longrightarrow> within_bounds (drop_entries D s)"
  using sum_sizes_drop_le [of "me_sizes s" D] length_drop_keys_le [of D "me_items s"]
  by (auto simp: within_bounds_def store_inv_def)

text \<open>The loop removes the oldest entries, all but the protected one, as long as a bound is
  exceeded and not one more.\<close>

lemma evict_spec:
  "store_inv s \<Longrightarrow>
     \<exists>m \<le> length ks. evict p ks s = drop_entries (set (take m ks) - {p}) s \<and>
       (\<forall>j < m. \<not> within_bounds (drop_entries (set (take j ks) - {p}) s)) \<and>
       (m < length ks \<longrightarrow> within_bounds (evict p ks s))"
proof (induction ks arbitrary: s)
  case Nil then show ?case by (simp add: drop_entries_empty)
next
  case (Cons k ks)
  show ?case
  proof (cases "within_bounds s")
    case True
    then show ?thesis using Cons.prems
      by (intro exI [of _ 0]) (simp add: drop_entries_empty)
  next
    case False
    let ?s = "if k = p then s else drop_entries {k} s"
    have inv: "store_inv ?s" using Cons.prems by (simp add: drop_entries_inv)
    have ev: "evict p (k # ks) s = evict p ks ?s"
      using False Cons.prems by (simp add: removeLocked_drop)
    have dr: "drop_entries (set (take j ks) - {p}) ?s =
              drop_entries (set (take (Suc j) (k # ks)) - {p}) s" for j
      by (auto simp: insert_Diff_if)
    obtain m where m: "m \<le> length ks" "evict p ks ?s = drop_entries (set (take m ks) - {p}) ?s"
        "\<forall>j < m. \<not> within_bounds (drop_entries (set (take j ks) - {p}) ?s)"
        "m < length ks \<longrightarrow> within_bounds (evict p ks ?s)"
      using Cons.IH [OF inv] by blast
    have "\<forall>j < Suc m. \<not> within_bounds (drop_entries (set (take j (k # ks)) - {p}) s)"
      using m(3) False Cons.prems unfolding all_less_Suc_split dr by (simp add: drop_entries_empty)
    then show ?thesis using m(1,2,4) unfolding ev dr
      by (intro exI [of _ "Suc m"]) simp
  qed
qed

lemma set_eviction_order: "set (eviction_order s) = fst ` set (me_items s)"
  by (force simp: eviction_order_def)

lemma within_bounds_only:
  assumes "store_inv s" "fst ` set (me_items s) \<subseteq> {p}"
    and "map_of (me_sizes s) p = Some n" "0 < me_maxBytes s \<Longrightarrow> n \<le> me_maxBytes s"
  shows "within_bounds s"
proof -
  have d: "distinct (map fst (me_items s))" "distinct (map fst (me_sizes s))"
    and k: "fst ` set (me_sizes s) \<subseteq> {p}" and t: "me_totalBytes s = sum_sizes (me_sizes s)"
    using assms(1,2) by (auto simp: store_inv_def)
  have "card (set (map fst (me_items s))) \<le> card {p}"
    using assms(2) by (intro card_mono) auto
  then have "length (me_items s) \<le> 1"
    using distinct_card [OF d(1)] by simp
  moreover have "me_sizes s = [(p, n)]"
  proof -
    have "card (set (map fst (me_sizes s))) \<le> card {p}" using k by (intro card_mono) auto
    then have "length (me_sizes s) \<le> 1" using distinct_card [OF d(2)] by simp
    then show ?thesis using assms(3) by (cases "me_sizes s") (auto split: if_splits)
  qed
  ultimately show ?thesis using assms(4) t
    by (cases "0 < me_maxBytes s"; cases "0 < me_maxEntries s") (simp_all add: within_bounds_def)
qed

text \<open>What \<open>enforceBoundsLocked\<close> does, for a caller whose entry fits on its own.\<close>

lemma enforce_evict: "enforceBoundsLocked p s = evict p (eviction_order s) s"
proof (cases "within_bounds s")
  case True
  then show ?thesis
    by (cases "eviction_order s") (auto simp: enforceBoundsLocked_def within_bounds_def)
next
  case False
  then show ?thesis by (auto simp: enforceBoundsLocked_def within_bounds_def)
qed

lemma enforce_spec:
  assumes "store_inv s"
  obtains m where "m \<le> length (eviction_order s)"
    "enforceBoundsLocked p s = drop_entries (set (take m (eviction_order s)) - {p}) s"
    "\<And>j. j < m \<Longrightarrow> \<not> within_bounds (drop_entries (set (take j (eviction_order s)) - {p}) s)"
    "m < length (eviction_order s) \<Longrightarrow> within_bounds (enforceBoundsLocked p s)"
  using evict_spec [OF assms, of "eviction_order s" p] unfolding enforce_evict by blast

lemma enforce_inv: "store_inv s \<Longrightarrow> store_inv (enforceBoundsLocked p s)"
  by (rule enforce_spec [of s p]) (simp_all add: drop_entries_inv)

lemma enforce_keeps: "store_inv s \<Longrightarrow> map_of (me_items (enforceBoundsLocked p s)) p = map_of (me_items s) p"
  by (rule enforce_spec [of s p]) simp_all

lemma enforce_subset:
  "store_inv s \<Longrightarrow> map_of (me_items (enforceBoundsLocked p s)) k = Some x \<Longrightarrow>
     map_of (me_items s) k = Some x"
  by (rule enforce_spec [of s p]) (simp_all split: if_splits)

lemma enforce_simps:
  assumes "store_inv s"
  shows "me_ttl (enforceBoundsLocked p s) = me_ttl s"
    and "me_maxEntries (enforceBoundsLocked p s) = me_maxEntries s"
    and "me_maxBytes (enforceBoundsLocked p s) = me_maxBytes s"
  using assms by (rule enforce_spec [of s p]; simp)+

lemma enforce_within:
  assumes inv: "store_inv s" and n: "map_of (me_sizes s) p = Some n"
    and fits: "0 < me_maxBytes s \<Longrightarrow> n \<le> me_maxBytes s"
  shows "within_bounds (enforceBoundsLocked p s)"
proof -
  obtain m where m: "m \<le> length (eviction_order s)"
      "enforceBoundsLocked p s = drop_entries (set (take m (eviction_order s)) - {p}) s"
      "m < length (eviction_order s) \<Longrightarrow> within_bounds (enforceBoundsLocked p s)"
    using enforce_spec [OF inv, of p] by blast
  show ?thesis
  proof (cases "m = length (eviction_order s)")
    case False then show ?thesis using m by simp
  next
    case True
    let ?s = "drop_entries (fst ` set (me_items s) - {p}) s"
    have "within_bounds ?s"
      using n fits by (intro within_bounds_only [where p = p and n = n])
                      (auto simp: drop_entries_inv inv fst_set_drop_keys)
    then show ?thesis using m(2) True by (simp add: set_eviction_order)
  qed
qed

lemma eviction_order_sorted:
  assumes inv: "store_inv s" and ij: "i < j" "j < length (eviction_order s)"
    and x: "map_of (me_items s) (eviction_order s ! i) = Some x"
    and y: "map_of (me_items s) (eviction_order s ! j) = Some y"
  shows "st_StoredAt x < st_StoredAt y \<or>
         st_StoredAt x = st_StoredAt y \<and> eviction_order s ! i < eviction_order s ! j"
proof -
  let ?ps = "map (\<lambda>(k, x). (st_StoredAt x, k)) (me_items s)"
  let ?o = "sort ?ps"
  have d: "distinct (map fst (me_items s))" using inv by (simp add: store_inv_def)
  have len: "length (eviction_order s) = length ?o" by (simp add: eviction_order_def)
  have at: "?o ! a = (st_StoredAt z, eviction_order s ! a)"
    if "a < length ?o" "map_of (me_items s) (eviction_order s ! a) = Some z" for a z
  proof -
    have "?o ! a \<in> set ?ps" using that(1) by (metis nth_mem set_sort)
    then obtain k w where kw: "(k, w) \<in> set (me_items s)" "?o ! a = (st_StoredAt w, k)" by auto
    moreover have "eviction_order s ! a = k" using that(1) kw by (simp add: eviction_order_def)
    ultimately show ?thesis using that(2) d by auto
  qed
  have dist: "distinct (eviction_order s)"
  proof -
    have "mset (eviction_order s) = mset (map snd ?ps)" 
      by (simp only: eviction_order_def mset_map mset_sort)
    moreover have "map snd ?ps = map fst (me_items s)"
      unfolding map_map by (rule map_cong) auto
    ultimately have "mset (eviction_order s) = mset (map fst (me_items s))" by (simp only:)
    then show ?thesis using d mset_eq_imp_distinct_iff by blast
  qed
  have "?o ! i \<le> ?o ! j" using ij len by (intro sorted_nth_mono) auto
  moreover have "eviction_order s ! i \<noteq> eviction_order s ! j"
    using dist ij by (simp add: nth_eq_iff_index_eq)
  moreover have "?o ! i = (st_StoredAt x, eviction_order s ! i)" using at ij len x by simp
  moreover have "?o ! j = (st_StoredAt y, eviction_order s ! j)" using at ij len y by simp
  ultimately show ?thesis by (auto simp: less_eq_prod_def)
qed

section \<open>The operations keep the invariant and the bounds\<close>

definition bounded_inv :: "'a memory_store \<Rightarrow> bool" where
  "bounded_inv s \<longleftrightarrow> store_inv s \<and> within_bounds s"

lemma snapshotExpired_mono: "snapshotExpired x now \<Longrightarrow> now \<le> t \<Longrightarrow> snapshotExpired x t"
  by (auto simp: snapshotExpired_def)

lemma cleanup_within: "store_inv s \<Longrightarrow> within_bounds s \<Longrightarrow> within_bounds (cleanupExpiredLocked now s)"
proof -
  assume inv: "store_inv s" and w: "within_bounds s"
  have "store_inv (s\<lparr>me_lastCleanup := now\<rparr>)" "within_bounds (s\<lparr>me_lastCleanup := now\<rparr>)"
    using inv w by (simp_all add: store_inv_def within_bounds_def)
  then show ?thesis using inv w by (simp add: cleanup_drop within_bounds_drop)
qed

lemma cleanup_bounded: "bounded_inv s \<Longrightarrow> bounded_inv (cleanupExpiredLocked now s)"
  by (simp add: bounded_inv_def cleanup_inv cleanup_within)

lemma removeLocked_bounded: "bounded_inv s \<Longrightarrow> bounded_inv (removeLocked k s)"
  by (simp add: bounded_inv_def removeLocked_drop drop_entries_inv within_bounds_drop)

lemma put_enforce_bounded:
  assumes "store_inv s" "checkByteBudget noun (int n) s = None"
  shows "bounded_inv (enforceBoundsLocked k (putLocked k x (int n) s))"
proof -
  have inv: "store_inv (putLocked k x (int n) s)" using assms(1) by (simp add: putLocked_inv)
  moreover have "within_bounds (enforceBoundsLocked k (putLocked k x (int n) s))"
    using assms(2)
    by (intro enforce_within [OF inv size_of_putLocked [OF assms(1)]])
       (simp add: putLocked_simps [OF assms(1)] checkByteBudget_def split: if_splits)
  ultimately show ?thesis by (simp add: bounded_inv_def enforce_inv)
qed

lemma budget_cong: "me_maxBytes s = me_maxBytes s' \<Longrightarrow> checkByteBudget noun n s = checkByteBudget noun n s'"
  by (simp add: checkByteBudget_def)

lemma removeLocked_maxBytes [simp]: "me_maxBytes (removeLocked k s) = me_maxBytes s"
  by (simp add: removeLocked_def)

lemma ms_Create_bounded:
  assumes "bounded_inv s" shows "bounded_inv (snd (ms_Create ops now x s))"
proof -
  let ?s = "cleanupExpiredLocked now s"
  have b: "bounded_inv ?s" "store_inv ?s" "store_inv (removeLocked k ?s)" for k
    using cleanup_bounded [OF assms] by (auto simp: bounded_inv_def)
  have m: "me_maxBytes ?s = me_maxBytes s" using assms by (simp add: bounded_inv_def cleanup_simps)
  have "bounded_inv (enforceBoundsLocked k (putLocked k c (int n) ?s))"
       "bounded_inv (enforceBoundsLocked k (putLocked k c (int n) (removeLocked k' ?s)))"
    if "checkByteBudget (so_noun ops) (int n) s = None" for k k' c n
    using that b m by (auto intro!: put_enforce_bounded [where noun = "so_noun ops"] simp: checkByteBudget_def)
  then show ?thesis using assms b(1)
    by (auto simp: ms_Create_def Let_def split: sum.split option.split)
qed

lemma ms_Get_bounded: "bounded_inv s \<Longrightarrow> bounded_inv (snd (ms_Get ops now k s))"
  by (auto simp: ms_Get_def Let_def cleanup_bounded removeLocked_bounded split: option.split)

lemma ms_Delete_bounded: "bounded_inv s \<Longrightarrow> bounded_inv (snd (ms_Delete b ops now k s))"
  by (auto simp: ms_Delete_def Let_def cleanup_bounded removeLocked_bounded split: option.split)

lemma ms_Update_bounded:
  assumes "bounded_inv s" shows "bounded_inv (snd (ms_Update ops now x s))"
proof -
  let ?s = "cleanupExpiredLocked now s"
  have b: "bounded_inv ?s" "store_inv ?s" "bounded_inv (removeLocked k ?s)" for k
    using cleanup_bounded [OF assms] by (auto simp: bounded_inv_def removeLocked_bounded [unfolded bounded_inv_def])
  have m: "me_maxBytes ?s = me_maxBytes s" using assms by (simp add: bounded_inv_def cleanup_simps)
  have "bounded_inv (enforceBoundsLocked k (putLocked k c (int n) ?s))"
    if "checkByteBudget (so_noun ops) (int n) s = None" for k c n
    using that b m by (auto intro!: put_enforce_bounded [where noun = "so_noun ops"] simp: checkByteBudget_def)
  then show ?thesis using assms b
    by (auto simp: ms_Update_def Let_def split: sum.split option.split)
qed

section \<open>The entries that are alive\<close>

text \<open>The abstract contents at a time: the entries that have not expired.\<close>

definition live :: "go_time \<Rightarrow> 'a memory_store \<Rightarrow> string \<Rightarrow> 'a stored_times_scheme option" where
  "live now s k =
     (case map_of (me_items s) k of
        None \<Rightarrow> None | Some x \<Rightarrow> if snapshotExpired x now then None else Some x)"

lemma live_cleanup: "store_inv s \<Longrightarrow> now \<le> t \<Longrightarrow> live t (cleanupExpiredLocked now s) = live t s"
  by (rule ext)
     (auto simp: live_def cleanup_drop expired_keys_def snapshotExpired_mono split: option.split)

lemma live_removeLocked: "store_inv s \<Longrightarrow> live t (removeLocked k s) = (live t s)(k := None)"
  by (rule ext) (simp add: live_def removeLocked_drop)

lemma live_putLocked:
  "store_inv s \<Longrightarrow> live t (putLocked k x n s) = (live t s)(k := if snapshotExpired x t then None else Some x)"
  by (rule ext) (simp add: live_def map_of_putLocked)

lemma live_enforce_protected: "store_inv s \<Longrightarrow> live t (enforceBoundsLocked k s) k = live t s k"
  by (simp add: live_def enforce_keeps)

lemma live_enforce_le: "store_inv s \<Longrightarrow> live t (enforceBoundsLocked k s) \<subseteq>\<^sub>m live t s"
  by (auto simp: map_le_def live_def dest: enforce_subset split: option.splits)

lemma live_enforce_within: "within_bounds s \<Longrightarrow> enforceBoundsLocked k s = s"
  by (auto simp: enforceBoundsLocked_def within_bounds_def)

lemma live_dead: "map_of (me_items s) k = Some x \<Longrightarrow> snapshotExpired x now \<Longrightarrow> now \<le> t \<Longrightarrow> live t s k = None"
  by (simp add: live_def snapshotExpired_mono)


section \<open>What the operations do to the live entries\<close>

text \<open>The effect of a write: the written key has the new value, and every other entry is the
  old one or has been evicted.\<close>

definition written ::
  "string \<Rightarrow> 'b option \<Rightarrow> (string \<rightharpoonup> 'b) \<Rightarrow> (string \<rightharpoonup> 'b) \<Rightarrow> bool" where
  "written k v M M' \<longleftrightarrow> M' k = v \<and> M' \<subseteq>\<^sub>m M(k := v)"

text \<open>\<open>derived ops x k c\<close>: the entry \<open>c\<close> under \<open>k\<close> is the deep copy of \<open>x\<close>, up to the two times.\<close>

definition derived ::
  "'a stored_times_scheme snapshot_ops \<Rightarrow> 'a stored_times_scheme \<Rightarrow> string \<Rightarrow>
   'a stored_times_scheme \<Rightarrow> bool" where
  "derived ops x k c \<longleftrightarrow>
     (\<exists>c0 n t e. so_clone ops x = Inr (c0, n) \<and> c = c0\<lparr>st_StoredAt := t, st_ExpiresAt := e\<rparr> \<and>
        (k = so_id ops c0 \<or> k = so_id ops c))"

lemma live_put_enforce:
  assumes "store_inv s"
  shows "written k (if snapshotExpired x t then None else Some x) (live t s)
           (live t (enforceBoundsLocked k (putLocked k x (int n) s)))"
proof -
  have inv: "store_inv (putLocked k x (int n) s)" using assms by (simp add: putLocked_inv)
  show ?thesis
    using live_enforce_le [OF inv, of t k] live_enforce_protected [OF inv, of t k]
    by (simp add: written_def live_putLocked [OF assms])
qed

lemma written_removed: "written k v (M(k := None)) M' \<Longrightarrow> written k v M M'"
  by (simp add: written_def)

lemma ms_Get_result:
  "store_inv s \<Longrightarrow>
     fst (ms_Get ops now k s) =
       (case live now s k of None \<Rightarrow> Inl (ErrNotFound (so_noun ops))
        | Some x \<Rightarrow> map_sum (\<lambda>e. e) fst (so_clone ops x))"
proof -
  assume inv: "store_inv s"
  have "live now s k = live now (cleanupExpiredLocked now s) k" using inv by (simp add: live_cleanup)
  then show ?thesis by (auto simp: ms_Get_def Let_def live_def split: option.split)
qed

lemma ms_Get_live: "store_inv s \<Longrightarrow> now \<le> t \<Longrightarrow> live t (snd (ms_Get ops now k s)) = live t s"
proof -
  assume inv: "store_inv s" and t: "now \<le> t"
  let ?s = "cleanupExpiredLocked now s"
  have "live t (removeLocked k ?s) = live t ?s" if "map_of (me_items ?s) k = Some x" "snapshotExpired x now" for x
    using live_dead [OF that t] by (simp add: live_removeLocked cleanup_inv inv fun_upd_idem)
  then show ?thesis using live_cleanup [OF inv t]
    by (auto simp: ms_Get_def Let_def split: option.split)
qed

lemma ms_Delete_live:
  "store_inv s \<Longrightarrow> now \<le> t \<Longrightarrow> live t (snd (ms_Delete b ops now k s)) = (live t s)(k := None)"
proof -
  assume inv: "store_inv s" and t: "now \<le> t"
  let ?s = "cleanupExpiredLocked now s"
  have "map_of (me_items ?s) k = None \<Longrightarrow> live t ?s = (live t ?s)(k := None)"
    by (simp add: fun_upd_idem live_def)
  then show ?thesis using live_cleanup [OF inv t]
    by (auto simp: ms_Delete_def Let_def live_removeLocked cleanup_inv inv split: option.split)
qed

lemma ms_Delete_result:
  "store_inv s \<Longrightarrow> live now s k \<noteq> None \<Longrightarrow> fst (ms_Delete b ops now k s) = None"
  "store_inv s \<Longrightarrow> live now s k = None \<Longrightarrow>
     fst (ms_Delete True ops now k s) = Some (ErrNotFound (so_noun ops))"
proof -
  assume inv: "store_inv s"
  have l: "live now s k = live now (cleanupExpiredLocked now s) k" using inv by (simp add: live_cleanup)
  show "live now s k \<noteq> None \<Longrightarrow> fst (ms_Delete b ops now k s) = None"
       "live now s k = None \<Longrightarrow> fst (ms_Delete True ops now k s) = Some (ErrNotFound (so_noun ops))"
    unfolding l by (auto simp: ms_Delete_def Let_def live_def split: option.splits if_splits)
qed

lemma prepareForMemory_times:
  "\<exists>a e. prepareForMemory x now ttl = x\<lparr>st_StoredAt := a, st_ExpiresAt := e\<rparr>"
  by (intro exI [of _ "st_StoredAt (prepareForMemory x now ttl)"]
        exI [of _ "st_ExpiresAt (prepareForMemory x now ttl)"], cases x)
     (simp add: prepareForMemory_def Let_def)

lemma ms_Create_live:
  assumes inv: "store_inv s" and r: "ms_Create ops now x s = (None, s')" and t: "now \<le> t"
  shows "(\<exists>k c. derived ops x k c \<and> live now s k = None \<and> \<not> snapshotExpired c now \<and>
            written k (if snapshotExpired c t then None else Some c) (live t s) (live t s')) \<or>
         live t s' = live t s"
proof -
  let ?s = "cleanupExpiredLocked now s"
  have si: "store_inv ?s" using inv by (rule cleanup_inv)
  obtain c0 n where cl: "so_clone ops x = Inr (c0, n)"
    using r by (auto simp: ms_Create_def Let_def split: if_splits sum.splits)
  let ?c = "prepareForMemory c0 now (me_ttl s)" let ?k = "so_id ops ?c"
  have der: "derived ops x ?k ?c"
    using cl prepareForMemory_times [of c0 now "me_ttl s"] unfolding derived_def by blast
  have r': "ms_Create ops now x s =
     (if snapshotExpired ?c now then (None, ?s)
      else case map_of (me_items ?s) ?k of
          None \<Rightarrow> (None, enforceBoundsLocked ?k (putLocked ?k ?c (int n) ?s))
        | Some existing \<Rightarrow>
            if \<not> snapshotExpired existing now
            then (Some (PlainError (so_noun ops @ '' already exists: '' @ ?k)), ?s)
            else (None, enforceBoundsLocked ?k (putLocked ?k ?c (int n) (removeLocked ?k ?s))))"
    using r cl by (auto simp: ms_Create_def Let_def split: if_splits option.splits)
  show ?thesis
  proof (cases "snapshotExpired ?c now")
    case True
    then show ?thesis using r r' live_cleanup [OF inv t] by simp
  next
    case False
    have none: "live now s ?k = None"
      using False r r' live_cleanup [OF inv order_refl, of now]
      by (auto simp: live_def fun_eq_iff split: option.splits if_splits dest!: spec [of _ ?k])
    have "s' = enforceBoundsLocked ?k (putLocked ?k ?c (int n) ?s) \<or>
          s' = enforceBoundsLocked ?k (putLocked ?k ?c (int n) (removeLocked ?k ?s))"
      using False r r' by (auto split: option.splits if_splits)
    then have "written ?k (if snapshotExpired ?c t then None else Some ?c) (live t s) (live t s')"
      using live_put_enforce [OF si, of ?k ?c t n]
        live_put_enforce [OF removeLocked_inv [OF si], of ?k ?c t ?k n]
      by (auto simp: live_cleanup [OF inv t] live_removeLocked [OF si] intro: written_removed)
    then show ?thesis using der none False by blast
  qed
qed

lemma ms_Create_error:
  assumes inv: "store_inv s" and r: "ms_Create ops now x s = (Some e, s')" and t: "now \<le> t"
  shows "live t s' = live t s"
  using r live_cleanup [OF inv t]
  by (auto simp: ms_Create_def Let_def split: if_splits sum.splits option.splits)

text \<open>The new content of an update: the old times where the snapshot has none.\<close>

definition update_content ::
  "'a stored_times_scheme \<Rightarrow> 'a stored_times_scheme \<Rightarrow> go_time \<Rightarrow> go_duration \<Rightarrow> 'a stored_times_scheme" where
  "update_content c existing now ttl =
     (let c = (if st_StoredAt c = 0 then c\<lparr>st_StoredAt := st_StoredAt existing\<rparr> else c);
          c = (if st_ExpiresAt c = 0 then c\<lparr>st_ExpiresAt := st_ExpiresAt existing\<rparr> else c)
      in prepareForMemory c now ttl)"

lemma update_content_times:
  "\<exists>a e. update_content x existing now ttl = x\<lparr>st_StoredAt := a, st_ExpiresAt := e\<rparr>"
  by (intro exI [of _ "st_StoredAt (update_content x existing now ttl)"]
        exI [of _ "st_ExpiresAt (update_content x existing now ttl)"], cases x)
     (simp add: update_content_def prepareForMemory_def Let_def)

lemma ms_Update_cases:
  fixes s :: "'a memory_store"
  assumes inv: "store_inv s"
  obtains (refused) e where "ms_Update ops now x s = (Some e, s)"
    | (absent) k e where "ms_Update ops now x s = (Some e, cleanupExpiredLocked now s)"
    | (gone) k e where "ms_Update ops now x s = (Some e, removeLocked k (cleanupExpiredLocked now s))"
    | (stored) k c n where "derived ops x k c" "live now s k \<noteq> None" "\<not> snapshotExpired c now"
        "ms_Update ops now x s =
           (None, enforceBoundsLocked k (putLocked k c (int n) (cleanupExpiredLocked now s)))"
proof (cases "so_id ops x = []")
  case True then show ?thesis using refused by (simp add: ms_Update_def)
next
  case False
  let ?s = "cleanupExpiredLocked now s"
  show ?thesis
  proof (cases "so_clone ops x")
    case (Inl e) then show ?thesis using False refused by (simp add: ms_Update_def)
  next
    case (Inr cn)
    obtain c n where cn: "cn = (c, n)" by (cases cn)
    let ?k = "so_id ops c"
    let ?new = "\<lambda>existing. update_content c existing now (me_ttl ?s)"
    show ?thesis
    proof (cases "checkByteBudget (so_noun ops) (int n) s")
      case (Some e) then show ?thesis using False Inr cn refused by (simp add: ms_Update_def)
    next
      case None
      have eq: "ms_Update ops now x s =
        (case map_of (me_items ?s) ?k of
           None \<Rightarrow> (Some (ErrNotFound (so_noun ops)), ?s)
         | Some existing \<Rightarrow>
             if snapshotExpired existing now \<or> snapshotExpired (?new existing) now
             then (Some (ErrNotFound (so_noun ops)), removeLocked ?k ?s)
             else (None, enforceBoundsLocked ?k (putLocked ?k (?new existing) (int n) ?s)))"
        using False Inr cn None
        by (simp add: ms_Update_def update_content_def Let_def split: option.split)
      show ?thesis
      proof (cases "map_of (me_items ?s) ?k")
        case None then show ?thesis using eq absent by simp
      next
        case (Some existing)
        have der: "derived ops x ?k (?new existing)"
          using Inr cn update_content_times [of c existing now "me_ttl ?s"]
          unfolding derived_def by blast
        have "\<not> snapshotExpired existing now \<Longrightarrow> live now s ?k \<noteq> None"
          using Some live_cleanup [OF inv order_refl, of now]
          by (auto simp: live_def fun_eq_iff split: option.splits if_splits dest!: spec [of _ ?k])
        then show ?thesis using eq Some gone [of _ ?k] stored [OF der] by (auto split: if_splits)
      qed
    qed
  qed
qed

lemma ms_Update_live:
  assumes inv: "store_inv s" and t: "now \<le> t"
  shows "(case fst (ms_Update ops now x s) of
            None \<Rightarrow> \<exists>k c. derived ops x k c \<and> live now s k \<noteq> None \<and> \<not> snapshotExpired c now \<and>
              written k (if snapshotExpired c t then None else Some c) (live t s)
                (live t (snd (ms_Update ops now x s)))
          | Some e \<Rightarrow> live t (snd (ms_Update ops now x s)) \<subseteq>\<^sub>m live t s)"
proof -
  have si: "store_inv (cleanupExpiredLocked now s)" using inv by (rule cleanup_inv)
  note l = live_cleanup [OF inv t]
  show ?thesis
    using inv
  proof (cases rule: ms_Update_cases [where ops = ops and now = now and x = x])
    case (stored k c n)
    have "written k (if snapshotExpired c t then None else Some c) (live t s)
            (live t (snd (ms_Update ops now x s)))"
      using live_put_enforce [OF si, of k c t n] stored(4) by (simp only: l snd_conv)
    with stored(1-3) have "\<exists>k c. derived ops x k c \<and> live now s k \<noteq> None \<and> \<not> snapshotExpired c now \<and>
        written k (if snapshotExpired c t then None else Some c) (live t s)
          (live t (snd (ms_Update ops now x s)))" by blast
    then show ?thesis by (simp only: stored(4) fst_conv option.case)
  qed (auto simp: l live_removeLocked si map_le_def)
qed

end
