(* ===== verification/Stores.thy ===== *)
theory Stores
  imports MemoryStore
begin

text \<open>
  The response store and the conversation store: \<open>internal/responsestore/\<close> and
  \<open>internal/conversationstore/\<close>, as instances of the store of \<open>MemoryStore\<close>.

  The deep copy marshals the normalized snapshot to JSON and back; the JSON package is the
  parameter \<open>codec\<close>, which gives an error or the copy and the number of bytes. What a response
  holds besides the fields the store reads is the type parameter of \<open>responses_response\<close>.

  The locale \<open>live_trace\<close> is what a caller of either store may rely on over a sequence of calls;
  \<open>snapshot_store\<close> is the contract of the single operations, from which it follows.
\<close>

section \<open>Response snapshots\<close>

record 'p responses_response =
  rr_ID :: string
  rr_Provider :: string
  rr_payload :: 'p

record 'p stored_response = stored_times +
  sr_Response :: "'p responses_response option"
  sr_InputItems :: "string list"
  sr_Provider :: string
  sr_ProviderName :: string
  sr_ProviderResponseID :: string
  sr_RequestID :: string
  sr_UserPath :: string
  sr_WorkflowVersionID :: string

definition normalizeStoredResponse :: "'p stored_response \<Rightarrow> 'p stored_response" where
  "normalizeStoredResponse src =
     (let n = src\<lparr>sr_Provider := go_trim (sr_Provider src),
                   sr_ProviderName := go_trim (sr_ProviderName src),
                   sr_ProviderResponseID := go_trim (sr_ProviderResponseID src),
                   sr_RequestID := go_trim (sr_RequestID src),
                   sr_UserPath := go_trim (sr_UserPath src),
                   sr_WorkflowVersionID := go_trim (sr_WorkflowVersionID src)\<rparr>
      in case sr_Response src of
           None \<Rightarrow> n
         | Some r0 \<Rightarrow>
             let r = (if rr_Provider r0 = [] then r0\<lparr>rr_Provider := sr_Provider n\<rparr> else r0);
                 n = (if sr_Provider n = [] then n\<lparr>sr_Provider := go_trim (rr_Provider r)\<rparr> else n);
                 n = (if sr_ProviderResponseID n = []
                      then n\<lparr>sr_ProviderResponseID := go_trim (rr_ID r)\<rparr> else n)
             in n\<lparr>sr_Response := Some r\<rparr>)"

definition cloneResponseWithSize ::
  "('p stored_response \<Rightarrow> go_error + ('p stored_response \<times> nat)) \<Rightarrow> 'p stored_response \<Rightarrow>
   go_error + ('p stored_response \<times> nat)" where
  "cloneResponseWithSize codec src = codec (normalizeStoredResponse src)"

definition response_ops ::
  "('p stored_response \<Rightarrow> go_error + ('p stored_response \<times> nat)) \<Rightarrow> 'p stored_response snapshot_ops" where
  "response_ops codec =
     \<lparr>so_id = (\<lambda>x. case sr_Response x of None \<Rightarrow> [] | Some r \<Rightarrow> rr_ID r),
      so_clone = cloneResponseWithSize codec,
      so_noun = ''response''\<rparr>"

type_synonym 'p response_store = "('p, unit) stored_response_ext memory_store"

text \<open>The operations of the package, by their names there.\<close>

abbreviation response_Create ::
  "('p stored_response \<Rightarrow> go_error + ('p stored_response \<times> nat)) \<Rightarrow> go_time \<Rightarrow> 'p stored_response \<Rightarrow> 'p response_store \<Rightarrow>
   go_error option \<times> 'p response_store" where
  "response_Create codec \<equiv> ms_Create (response_ops codec)"

abbreviation response_Get ::
  "('p stored_response \<Rightarrow> go_error + ('p stored_response \<times> nat)) \<Rightarrow> go_time \<Rightarrow> string \<Rightarrow> 'p response_store \<Rightarrow>
   (go_error + 'p stored_response) \<times> 'p response_store" where
  "response_Get codec \<equiv> ms_Get (response_ops codec)"

abbreviation response_Update ::
  "('p stored_response \<Rightarrow> go_error + ('p stored_response \<times> nat)) \<Rightarrow> go_time \<Rightarrow> 'p stored_response \<Rightarrow> 'p response_store \<Rightarrow>
   go_error option \<times> 'p response_store" where
  "response_Update codec \<equiv> ms_Update (response_ops codec)"

abbreviation response_Delete ::
  "('p stored_response \<Rightarrow> go_error + ('p stored_response \<times> nat)) \<Rightarrow> go_time \<Rightarrow> string \<Rightarrow> 'p response_store \<Rightarrow>
   go_error option \<times> 'p response_store" where
  "response_Delete codec \<equiv> ms_Delete False (response_ops codec)"

datatype 'p response_call =
    ResponseCreate "'p stored_response"
  | ResponseGet string
  | ResponseUpdate "'p stored_response"
  | ResponseDelete string


fun response_step ::
  "('p stored_response \<Rightarrow> go_error + ('p stored_response \<times> nat)) \<Rightarrow> go_time \<Rightarrow> 'p response_call \<Rightarrow>
   'p response_store \<Rightarrow> 'p response_store" where
  "response_step codec now (ResponseCreate x) s = snd (response_Create codec now x s)"
| "response_step codec now (ResponseGet k) s = snd (response_Get codec now k s)"
| "response_step codec now (ResponseUpdate x) s = snd (response_Update codec now x s)"
| "response_step codec now (ResponseDelete k) s =
     snd (response_Delete codec now k s)"

section \<open>Conversation snapshots\<close>

record conversation =
  cv_ID :: string
  cv_Object :: string
  cv_CreatedAt :: int
  cv_Metadata :: "(string \<times> string) list option"

record stored_conversation = stored_times +
  sc_Conversation :: "conversation option"
  sc_Items :: "string list"
  sc_UserPath :: string
  sc_RequestID :: string

text \<open>The metadata map is copied; in the model copying a value is the identity.\<close>

definition normalizeStoredConversation :: "stored_conversation \<Rightarrow> stored_conversation" where
  "normalizeStoredConversation src =
     src\<lparr>sc_UserPath := go_trim (sc_UserPath src), sc_RequestID := go_trim (sc_RequestID src)\<rparr>"

type_synonym conversation_codec = "stored_conversation \<Rightarrow> go_error + (stored_conversation \<times> nat)"

definition cloneConversationWithSize ::
  "conversation_codec \<Rightarrow> stored_conversation \<Rightarrow> go_error + (stored_conversation \<times> nat)" where
  "cloneConversationWithSize codec src = codec (normalizeStoredConversation src)"

definition conversation_ops :: "conversation_codec \<Rightarrow> stored_conversation snapshot_ops" where
  "conversation_ops codec =
     \<lparr>so_id = (\<lambda>x. case sc_Conversation x of None \<Rightarrow> [] | Some c \<Rightarrow> cv_ID c),
      so_clone = cloneConversationWithSize codec,
      so_noun = ''conversation''\<rparr>"

type_synonym conversation_store = "unit stored_conversation_ext memory_store"

text \<open>The operations of the package, by their names there.\<close>

abbreviation conversation_Create ::
  "conversation_codec \<Rightarrow> go_time \<Rightarrow> stored_conversation \<Rightarrow> conversation_store \<Rightarrow>
   go_error option \<times> conversation_store" where
  "conversation_Create codec \<equiv> ms_Create (conversation_ops codec)"

abbreviation conversation_Get ::
  "conversation_codec \<Rightarrow> go_time \<Rightarrow> string \<Rightarrow> conversation_store \<Rightarrow>
   (go_error + stored_conversation) \<times> conversation_store" where
  "conversation_Get codec \<equiv> ms_Get (conversation_ops codec)"

abbreviation conversation_Update ::
  "conversation_codec \<Rightarrow> go_time \<Rightarrow> stored_conversation \<Rightarrow> conversation_store \<Rightarrow>
   go_error option \<times> conversation_store" where
  "conversation_Update codec \<equiv> ms_Update (conversation_ops codec)"

abbreviation conversation_Delete ::
  "conversation_codec \<Rightarrow> go_time \<Rightarrow> string \<Rightarrow> conversation_store \<Rightarrow>
   go_error option \<times> conversation_store" where
  "conversation_Delete codec \<equiv> ms_Delete True (conversation_ops codec)"

text \<open>The items are appended in place to the stored snapshot, and their length to its size.\<close>

definition AppendItems ::
  "go_time \<Rightarrow> string \<Rightarrow> string list \<Rightarrow> conversation_store \<Rightarrow> go_error option \<times> conversation_store" where
  "AppendItems now k items s =
     (if items = [] then (None, s)
      else
        let added = int (sum_list (map length items));
            s = cleanupExpiredLocked now s
        in case map_of (me_items s) k of
             None \<Rightarrow> (Some (ErrNotFound ''conversation''), s)
           | Some x \<Rightarrow>
               if snapshotExpired x now
               then (Some (ErrNotFound ''conversation''), removeLocked k s)
               else
                 let bytes = (case map_of (me_sizes s) k of None \<Rightarrow> 0 | Some n \<Rightarrow> n)
                 in if 0 < me_maxBytes s \<and> me_maxBytes s < bytes + added
                    then (Some (PlainError (''conversation snapshot would grow to '' @
                            decimal_int (bytes + added) @
                            '' bytes, exceeding the in-memory store budget of '' @
                            decimal_int (me_maxBytes s) @ '' bytes'')), s)
                    else (None,
                      enforceBoundsLocked k
                        (s\<lparr>me_items := AList.update k (x\<lparr>sc_Items := sc_Items x @ items\<rparr>) (me_items s),
                           me_sizes := AList.update k (bytes + added) (me_sizes s),
                           me_totalBytes := me_totalBytes s + added\<rparr>)))"

datatype conversation_call =
    ConversationCreate stored_conversation
  | ConversationGet string
  | ConversationUpdate stored_conversation
  | ConversationAppend string "string list"
  | ConversationDelete string

fun conversation_step ::
  "conversation_codec \<Rightarrow> go_time \<Rightarrow> conversation_call \<Rightarrow> conversation_store \<Rightarrow> conversation_store" where
  "conversation_step codec now (ConversationCreate x) s = snd (conversation_Create codec now x s)"
| "conversation_step codec now (ConversationGet k) s = snd (conversation_Get codec now k s)"
| "conversation_step codec now (ConversationUpdate x) s = snd (conversation_Update codec now x s)"
| "conversation_step codec now (ConversationAppend k items) s = snd (AppendItems now k items s)"
| "conversation_step codec now (ConversationDelete k) s =
     snd (conversation_Delete codec now k s)"

section \<open>Appending\<close>

lemma sum_sizes_update:
  "distinct (map fst xs) \<Longrightarrow> map_of xs k = Some n \<Longrightarrow>
     sum_sizes (AList.update k m xs) = sum_sizes xs + (m - n)"
  by (induction xs) (auto split: if_splits)

lemma AppendItems_cases:
  assumes inv: "store_inv s"
  obtains (unchanged) "AppendItems now k items s = (None, s)"
    | (absent) e where "live now s k = None" "AppendItems now k items s = (Some e, cleanupExpiredLocked now s)"
    | (gone) e where "live now s k = None"
        "AppendItems now k items s = (Some e, removeLocked k (cleanupExpiredLocked now s))"
    | (refused) e where "AppendItems now k items s = (Some e, cleanupExpiredLocked now s)"
    | (appended) x n s' where "map_of (me_items (cleanupExpiredLocked now s)) k = Some x"
        "map_of (me_sizes (cleanupExpiredLocked now s)) k = Some n" "\<not> snapshotExpired x now"
        "\<not> (0 < me_maxBytes s \<and> me_maxBytes s < n + int (sum_list (map length items)))"
        "s' = (cleanupExpiredLocked now s)
            \<lparr>me_items := AList.update k (x\<lparr>sc_Items := sc_Items x @ items\<rparr>)
                            (me_items (cleanupExpiredLocked now s)),
             me_sizes := AList.update k (n + int (sum_list (map length items)))
                            (me_sizes (cleanupExpiredLocked now s)),
             me_totalBytes := me_totalBytes (cleanupExpiredLocked now s)
                                + int (sum_list (map length items))\<rparr>"
        "AppendItems now k items s = (None, enforceBoundsLocked k s')"
proof (cases "items = []")
  case True then show ?thesis using unchanged by (simp add: AppendItems_def)
next
  case False
  let ?s = "cleanupExpiredLocked now s"
  have si: "store_inv ?s" using inv by (rule cleanup_inv)
  have l: "live now s k = live now ?s k" using inv by (simp add: live_cleanup)
  show ?thesis
  proof (cases "map_of (me_items ?s) k")
    case None then show ?thesis using False absent l by (simp add: AppendItems_def Let_def live_def)
  next
    case (Some x)
    show ?thesis
    proof (cases "snapshotExpired x now")
      case True then show ?thesis using False Some gone l by (simp add: AppendItems_def Let_def live_def)
    next
      case fresh: False
      have "k \<in> fst ` set (me_sizes ?s)"
        using si Some by (auto simp: store_inv_def dest!: map_of_SomeD) (metis fst_conv image_eqI)
      then obtain n where n: "map_of (me_sizes ?s) k = Some n"
        by (metis map_of_eq_None_iff not_None_eq)
      show ?thesis
      proof (cases "0 < me_maxBytes s \<and> me_maxBytes s < n + int (sum_list (map length items))")
        case True
        then show ?thesis using False Some fresh n refused
          by (simp add: AppendItems_def Let_def cleanup_simps [OF inv])
      next
        case False
        then show ?thesis using \<open>items \<noteq> []\<close> Some fresh n appended [OF Some n fresh False refl]
          by (auto simp: AppendItems_def Let_def cleanup_simps [OF inv])
      qed
    qed
  qed
qed

lemma store_inv_grow:
  assumes "store_inv s" "map_of (me_items s) k = Some x" "map_of (me_sizes s) k = Some n" "0 \<le> a"
  shows "store_inv (s\<lparr>me_items := AList.update k y (me_items s),
                     me_sizes := AList.update k (n + a) (me_sizes s),
                     me_totalBytes := me_totalBytes s + a\<rparr>)"
proof -
  have "0 \<le> n" using assms(1,3) by (auto simp: store_inv_def dest!: map_of_SomeD)
  moreover have "\<forall>(k', n') \<in> set (AList.update k (n + a) xs). 0 \<le> n'"
    if "\<forall>(k', n') \<in> set xs. (0 :: int) \<le> n'" "0 \<le> n + a" for xs
    using that by (induction xs) auto
  ultimately show ?thesis using assms
    by (simp add: store_inv_def distinct_update fst_set_update sum_sizes_update) blast
qed

lemma AppendItems_bounded:
  assumes "bounded_inv s" shows "bounded_inv (snd (AppendItems now k items s))"
proof -
  have inv: "store_inv s" and b: "bounded_inv (cleanupExpiredLocked now s)"
    using assms by (auto simp: bounded_inv_def cleanup_inv cleanup_within)
  show ?thesis using inv
  proof (cases rule: AppendItems_cases [where k = k and now = now and items = items])
    case (appended x n s')
    have "store_inv s'" unfolding appended(5)
      using b appended(1,2) by (intro store_inv_grow) (simp_all add: bounded_inv_def)
    moreover have "map_of (me_sizes s') k = Some (n + int (sum_list (map length items)))"
      unfolding appended(5) by (simp add: update_conv')
    moreover have "me_maxBytes s' = me_maxBytes s"
      unfolding appended(5) by (simp add: cleanup_simps [OF inv])
    ultimately have "within_bounds (enforceBoundsLocked k s')"
      using appended(4) by (intro enforce_within) auto
    then show ?thesis using \<open>store_inv s'\<close> appended(6)
      by (simp add: bounded_inv_def enforce_inv)
  qed (use assms b in \<open>simp_all add: removeLocked_bounded\<close>)
qed

text \<open>The live entries after an append: the entry itself has grown, the others are as before or
  evicted.\<close>

lemma AppendItems_live:
  assumes inv: "store_inv s" and t: "now \<le> t"
  shows "live t (snd (AppendItems now k items s)) \<subseteq>\<^sub>m live t s \<or>
     (\<exists>x. live now s k = Some x \<and> fst (AppendItems now k items s) = None \<and>
        written k (live t (snd (AppendItems now k items s)) k) (live t s)
          (live t (snd (AppendItems now k items s))) \<and>
        live t (snd (AppendItems now k items s)) k =
          (if snapshotExpired x t then None else Some (x\<lparr>sc_Items := sc_Items x @ items\<rparr>)))"
  using inv
proof (cases rule: AppendItems_cases [where k = k and now = now and items = items])
  case (appended x n s')
  let ?s = "cleanupExpiredLocked now s" and ?y = "x\<lparr>sc_Items := sc_Items x @ items\<rparr>"
  have si: "store_inv ?s" using inv by (rule cleanup_inv)
  have inv': "store_inv s'" unfolding appended(5)
    using si appended(1,2) by (intro store_inv_grow) simp_all
  have ex: "snapshotExpired ?y t = snapshotExpired x t" by (simp add: snapshotExpired_def)
  have l': "live t s' = (live t s)(k := if snapshotExpired x t then None else Some ?y)"
    unfolding live_cleanup [OF inv t, symmetric]
    by (rule ext) (simp add: appended(5) live_def update_conv' ex)
  have own: "live t (enforceBoundsLocked k s') k = (if snapshotExpired x t then None else Some ?y)"
    using live_enforce_protected [OF inv', of t k] by (simp add: l')
  have "live now ?s k = Some x" using appended(1,3) by (simp add: live_def)
  then have "live now s k = Some x" unfolding live_cleanup [OF inv order_refl] .
  moreover have "written k (live t (enforceBoundsLocked k s') k) (live t s) (live t (enforceBoundsLocked k s'))"
    using live_enforce_le [OF inv', of t k] unfolding own by (simp add: written_def l' own)
  ultimately show ?thesis using appended(6) own by simp
qed (simp_all add: live_cleanup [OF inv t] live_removeLocked [OF cleanup_inv [OF inv]] map_le_def)

section \<open>What a caller may rely on\<close>

text \<open>A store seen from outside: what is alive under a key at a time, and the steps, of which
  some may create an entry (\<open>creates\<close>) and some may change its content (\<open>writes\<close>).\<close>

locale live_trace =
  fixes sinv :: "'s \<Rightarrow> bool"
    and alive :: "go_time \<Rightarrow> 's \<Rightarrow> string \<Rightarrow> 'x option"
    and do :: "go_time \<Rightarrow> 'c \<Rightarrow> 's \<Rightarrow> 's"
    and creates :: "'c \<Rightarrow> string \<Rightarrow> bool"
    and writes :: "'c \<Rightarrow> string \<Rightarrow> bool"
  assumes do_inv: "sinv s \<Longrightarrow> sinv (do now c s)"
    and alive_earlier: "now \<le> t \<Longrightarrow> alive t s k = Some x \<Longrightarrow> alive now s k = Some x"
    and do_alive: "sinv s \<Longrightarrow> now \<le> t \<Longrightarrow> alive t (do now c s) k = Some x \<Longrightarrow>
          creates c k \<or> alive now s k \<noteq> None"
    and do_unwritten: "sinv s \<Longrightarrow> now \<le> t \<Longrightarrow> \<not> creates c k \<Longrightarrow> \<not> writes c k \<Longrightarrow>
          alive t (do now c s) k = Some x \<Longrightarrow> alive t s k = Some x"
begin

definition run :: "(go_time \<times> 'c) list \<Rightarrow> 's \<Rightarrow> 's" where
  "run tr s = foldl (\<lambda>s (now, c). do now c s) s tr"

lemma run_simps [simp]: "run [] s = s" "run ((now, c) # tr) s = run tr (do now c s)"
  by (simp_all add: run_def)

lemma run_inv: "sinv s \<Longrightarrow> sinv (run tr s)"
  by (induction tr arbitrary: s) (auto simp: do_inv)

text \<open>An entry that is gone stays gone until a step creates it.\<close>

lemma gone_stays_gone:
  "sinv s \<Longrightarrow> sorted (map fst tr @ [t]) \<Longrightarrow> (\<forall>u \<in> fst ` set tr \<union> {t}. alive u s k = None) \<Longrightarrow>
     (\<forall>(now, c) \<in> set tr. \<not> creates c k) \<Longrightarrow> alive t (run tr s) k = None"
proof (induction tr arbitrary: s)
  case (Cons a tr)
  obtain now c where a: "a = (now, c)" by (cases a)
  have later: "now \<le> u" if "u \<in> fst ` set tr \<union> {t}" for u
    using that Cons.prems(2) a by auto
  have "alive u (do now c s) k = None" if u: "u \<in> fst ` set tr \<union> {t}" for u
    using do_alive [OF Cons.prems(1) later [OF u], of c k] Cons.prems(3,4) a
    by (cases "alive u (do now c s) k") auto
  then show ?case using Cons.IH [of "do now c s"] Cons.prems do_inv a by auto
qed simp

text \<open>What is read is what was there, unless a step has written the key.\<close>

lemma unwritten_unchanged:
  "sinv s \<Longrightarrow> sorted (map fst tr @ [t]) \<Longrightarrow>
     (\<forall>(now, c) \<in> set tr. \<not> creates c k \<and> \<not> writes c k) \<Longrightarrow>
     alive t (run tr s) k = Some x \<Longrightarrow> alive t s k = Some x"
proof (induction tr arbitrary: s)
  case (Cons a tr)
  obtain now c where a: "a = (now, c)" by (cases a)
  have "alive t (do now c s) k = Some x"
    using Cons.IH [of "do now c s"] Cons.prems do_inv a by auto
  then show ?case using do_unwritten [OF Cons.prems(1), of now t c k x] Cons.prems a by auto
qed simp

end

text \<open>The contract of the single operations; \<open>origin x k\<close> says that a snapshot \<open>x\<close> is stored
  under \<open>k\<close>.\<close>

locale snapshot_store =
  fixes sinv :: "'s \<Rightarrow> bool"
    and alive :: "go_time \<Rightarrow> 's \<Rightarrow> string \<Rightarrow> 'x option"
    and create :: "go_time \<Rightarrow> 'x \<Rightarrow> 's \<Rightarrow> go_error option \<times> 's"
    and lookup :: "go_time \<Rightarrow> string \<Rightarrow> 's \<Rightarrow> (go_error + 'x) \<times> 's"
    and update :: "go_time \<Rightarrow> 'x \<Rightarrow> 's \<Rightarrow> go_error option \<times> 's"
    and delete :: "go_time \<Rightarrow> string \<Rightarrow> 's \<Rightarrow> go_error option \<times> 's"
    and origin :: "'x \<Rightarrow> string \<Rightarrow> bool"
    and missing :: go_error
    and copy :: "'x \<Rightarrow> go_error + 'x"
  assumes create_inv: "sinv s \<Longrightarrow> sinv (snd (create now x s))"
    and lookup_inv: "sinv s \<Longrightarrow> sinv (snd (lookup now k s))"
    and update_inv: "sinv s \<Longrightarrow> sinv (snd (update now x s))"
    and delete_inv: "sinv s \<Longrightarrow> sinv (snd (delete now k s))"
    and alive_mono: "now \<le> t \<Longrightarrow> alive t s k = Some y \<Longrightarrow> alive now s k = Some y"
    and lookup_result: "sinv s \<Longrightarrow> fst (lookup now k s) =
          (case alive now s k of None \<Rightarrow> Inl missing | Some y \<Rightarrow> copy y)"
    and lookup_alive: "sinv s \<Longrightarrow> now \<le> t \<Longrightarrow> alive t (snd (lookup now k s)) = alive t s"
    and create_alive: "sinv s \<Longrightarrow> now \<le> t \<Longrightarrow> alive t (snd (create now x s)) k = Some y \<Longrightarrow>
          alive t s k = Some y \<or> origin x k"
    and update_alive: "sinv s \<Longrightarrow> now \<le> t \<Longrightarrow> alive t (snd (update now x s)) k = Some y \<Longrightarrow>
          alive t s k = Some y \<or> origin x k \<and> alive now s k \<noteq> None"
    and delete_alive: "sinv s \<Longrightarrow> now \<le> t \<Longrightarrow> alive t (snd (delete now k s)) = (alive t s)(k := None)"
begin

lemma deleted_not_found: "sinv s \<Longrightarrow> fst (lookup now k (snd (delete now k s))) = Inl missing"
  by (simp add: lookup_result delete_inv delete_alive)

lemma lookup_lookup: "sinv s \<Longrightarrow> now \<le> t \<Longrightarrow> fst (lookup t k (snd (lookup now k' s))) = fst (lookup t k s)"
  by (simp add: lookup_result lookup_inv lookup_alive)

end

section \<open>Both stores keep the contract\<close>

definition stored_under :: "'a stored_times_scheme snapshot_ops \<Rightarrow> 'a stored_times_scheme \<Rightarrow> string \<Rightarrow> bool" where
  "stored_under ops x k \<longleftrightarrow>
     (case so_clone ops x of Inl e \<Rightarrow> False | Inr (c, n) \<Rightarrow> so_id ops c = k)"

text \<open>The ID of a snapshot does not depend on its times.\<close>

definition timeless_id :: "'a stored_times_scheme snapshot_ops \<Rightarrow> bool" where
  "timeless_id ops \<longleftrightarrow>
     (\<forall>x t e. so_id ops (x\<lparr>st_StoredAt := t, st_ExpiresAt := e\<rparr>) = so_id ops x)"

lemma timeless_id_ops [simp]: "timeless_id (response_ops codec)" "timeless_id (conversation_ops codec')"
  by (simp_all add: timeless_id_def response_ops_def conversation_ops_def)

lemma ops_simps [simp]:
  "so_noun (response_ops codec) = ''response''" "so_noun (conversation_ops codec') = ''conversation''"
  "so_clone (response_ops codec) = cloneResponseWithSize codec"
  "so_clone (conversation_ops codec') = cloneConversationWithSize codec'"
  by (simp_all add: response_ops_def conversation_ops_def)

lemma derived_stored_under: "timeless_id ops \<Longrightarrow> derived ops x k c \<Longrightarrow> stored_under ops x k"
  by (auto simp: derived_def stored_under_def timeless_id_def)

lemma written_other: "written k v M M' \<Longrightarrow> M' k' = Some y \<Longrightarrow> k' = k \<or> M k' = Some y"
  by (auto simp: written_def map_le_def dom_def split: if_splits)

lemma live_mono: "now \<le> t \<Longrightarrow> live t s k = Some y \<Longrightarrow> live now s k = Some y"
  by (auto simp: live_def snapshotExpired_def split: option.splits if_splits)

lemma ms_Create_origin:
  assumes "store_inv s" "timeless_id ops" "now \<le> t" "live t (snd (ms_Create ops now x s)) k = Some y"
  shows "live t s k = Some y \<or> stored_under ops x k"
proof (cases "ms_Create ops now x s")
  case (Pair r s')
  show ?thesis
  proof (cases r)
    case None
    with Pair have "ms_Create ops now x s = (None, s')" by simp
    from ms_Create_live [OF assms(1) this assms(3)] show ?thesis
    proof (elim disjE exE conjE)
      fix k' c
      assume "derived ops x k' c"
        and w: "written k' (if snapshotExpired c t then None else Some c) (live t s) (live t s')"
      moreover have "k = k' \<or> live t s k = Some y"
        using written_other [OF w, of k y] assms(4) Pair by simp
      ultimately show ?thesis using derived_stored_under [OF assms(2)] by blast
    qed (use assms(4) Pair in simp)
  next
    case (Some e)
    then show ?thesis using ms_Create_error [OF assms(1), of ops now x e s' t] assms Pair by simp
  qed
qed

lemma ms_Update_origin:
  assumes "store_inv s" "timeless_id ops" "now \<le> t" "live t (snd (ms_Update ops now x s)) k = Some y"
  shows "live t s k = Some y \<or> stored_under ops x k \<and> live now s k \<noteq> None"
proof (cases "fst (ms_Update ops now x s)")
  case None
  then obtain k' c where d: "derived ops x k' c" "live now s k' \<noteq> None"
      "written k' (if snapshotExpired c t then None else Some c) (live t s)
         (live t (snd (ms_Update ops now x s)))"
    using ms_Update_live [OF assms(1,3), of ops x] by auto
  then show ?thesis
    using written_other [OF d(3) assms(4)] derived_stored_under [OF assms(2) d(1)] by auto
next
  case (Some e)
  then have "live t (snd (ms_Update ops now x s)) \<subseteq>\<^sub>m live t s"
    using ms_Update_live [OF assms(1,3), of ops x] by simp
  then show ?thesis using assms(4) by (metis domI map_le_def)
qed

lemma bounded_ops_inv:
  assumes "store_inv s"
  shows "store_inv (snd (ms_Get ops now k s))" "store_inv (snd (ms_Delete b ops now k s))"
  using assms by (auto simp: ms_Get_def ms_Delete_def Let_def cleanup_inv split: option.split)

lemma ms_Create_inv: "store_inv s \<Longrightarrow> store_inv (snd (ms_Create ops now x s))"
  by (auto simp: ms_Create_def Let_def cleanup_inv
        intro!: enforce_inv putLocked_inv split: sum.split option.split)

lemma ms_Update_inv: "store_inv s \<Longrightarrow> store_inv (snd (ms_Update ops now x s))"
  by (auto simp: ms_Update_def Let_def cleanup_inv
        intro!: enforce_inv putLocked_inv split: sum.split option.split)

lemmas store_ops_inv = ms_Create_inv ms_Update_inv bounded_ops_inv

interpretation rs: snapshot_store store_inv live
    "ms_Create (response_ops codec)" "ms_Get (response_ops codec)" "ms_Update (response_ops codec)"
    "ms_Delete False (response_ops codec)" "stored_under (response_ops codec)"
    "ErrNotFound ''response''" "\<lambda>x. map_sum (\<lambda>e. e) fst (cloneResponseWithSize codec x)"
  for codec :: "'p stored_response \<Rightarrow> go_error + ('p stored_response \<times> nat)"
  by unfold_locales
     (simp_all add: store_ops_inv live_mono ms_Get_live ms_Delete_live ms_Create_origin ms_Update_origin
        ms_Get_result del: not_None_eq, simp_all split: option.split)

interpretation cs: snapshot_store store_inv live
    "ms_Create (conversation_ops codec)" "ms_Get (conversation_ops codec)"
    "ms_Update (conversation_ops codec)" "ms_Delete True (conversation_ops codec)"
    "stored_under (conversation_ops codec)"
    "ErrNotFound ''conversation''" "\<lambda>x. map_sum (\<lambda>e. e) fst (cloneConversationWithSize codec x)"
  for codec :: conversation_codec
  by unfold_locales
     (simp_all add: store_ops_inv live_mono ms_Get_live ms_Delete_live ms_Create_origin ms_Update_origin
        ms_Get_result del: not_None_eq, simp_all split: option.split)

text \<open>Which calls can bring an entry into being, and which can change one that is there.\<close>

fun conversation_creates :: "conversation_codec \<Rightarrow> conversation_call \<Rightarrow> string \<Rightarrow> bool" where
  "conversation_creates codec (ConversationCreate x) k = stored_under (conversation_ops codec) x k"
| "conversation_creates codec _ k = False"

fun conversation_writes :: "conversation_codec \<Rightarrow> conversation_call \<Rightarrow> string \<Rightarrow> bool" where
  "conversation_writes codec (ConversationUpdate x) k = stored_under (conversation_ops codec) x k"
| "conversation_writes codec (ConversationAppend k' items) k = (k' = k)"
| "conversation_writes codec (ConversationDelete k') k = (k' = k)"
| "conversation_writes codec _ k = False"

fun response_creates ::
  "('p stored_response \<Rightarrow> go_error + ('p stored_response \<times> nat)) \<Rightarrow> 'p response_call \<Rightarrow> string \<Rightarrow> bool" where
  "response_creates codec (ResponseCreate x) k = stored_under (response_ops codec) x k"
| "response_creates codec _ k = False"

fun response_writes ::
  "('p stored_response \<Rightarrow> go_error + ('p stored_response \<times> nat)) \<Rightarrow> 'p response_call \<Rightarrow> string \<Rightarrow> bool" where
  "response_writes codec (ResponseUpdate x) k = stored_under (response_ops codec) x k"
| "response_writes codec (ResponseDelete k') k = (k' = k)"
| "response_writes codec _ k = False"

lemma AppendItems_inv: "store_inv s \<Longrightarrow> store_inv (snd (AppendItems now k items s))"
proof -
  assume inv: "store_inv s"
  then show ?thesis
  proof (cases rule: AppendItems_cases [where k = k and now = now and items = items])
    case (appended x n s')
    have "store_inv s'" unfolding appended(5)
      using cleanup_inv [OF inv] appended(1,2) by (intro store_inv_grow) simp_all
    then show ?thesis using appended(6) by (simp add: enforce_inv)
  qed (simp_all add: inv cleanup_inv removeLocked_inv)
qed

lemma AppendItems_origin:
  assumes "store_inv s" "now \<le> t" "live t (snd (AppendItems now k' items s)) k = Some y"
  shows "live t s k = Some y \<or> k = k' \<and> live now s k \<noteq> None"
  using AppendItems_live [OF assms(1,2), of k' items]
proof (elim disjE exE conjE)
  assume "live t (snd (AppendItems now k' items s)) \<subseteq>\<^sub>m live t s"
  then show ?thesis using assms(3) by (metis domI map_le_def)
next
  fix x
  assume "live now s k' = Some x"
    and "written k' (live t (snd (AppendItems now k' items s)) k') (live t s)
           (live t (snd (AppendItems now k' items s)))"
  then show ?thesis using written_other assms(3) by fastforce
qed

interpretation rt: live_trace store_inv live "response_step codec" "response_creates codec" "response_writes codec"
  for codec :: "'p stored_response \<Rightarrow> go_error + ('p stored_response \<times> nat)"
proof unfold_locales
  fix s :: "'p response_store" and now t :: go_time and c :: "'p response_call" and k x
  show "store_inv s \<Longrightarrow> store_inv (response_step codec now c s)"
    by (cases c) (simp_all add: store_ops_inv)
  show "live t s k = Some x \<Longrightarrow> now \<le> t \<Longrightarrow> live now s k = Some x" by (rule live_mono)
  show "store_inv s \<Longrightarrow> now \<le> t \<Longrightarrow> live t (response_step codec now c s) k = Some x \<Longrightarrow>
          response_creates codec c k \<or> live now s k \<noteq> None"
    using rs.create_alive [of s now t codec _ k x] rs.update_alive [of s now t codec _ k x]
      live_mono [of now t s k x]
    by (cases c) (auto simp: rs.lookup_alive rs.delete_alive split: if_splits)
  show "store_inv s \<Longrightarrow> now \<le> t \<Longrightarrow> \<not> response_creates codec c k \<Longrightarrow> \<not> response_writes codec c k \<Longrightarrow>
          live t (response_step codec now c s) k = Some x \<Longrightarrow> live t s k = Some x"
    using rs.create_alive [of s now t codec _ k x] rs.update_alive [of s now t codec _ k x]
    by (cases c) (auto simp: rs.lookup_alive rs.delete_alive split: if_splits)
qed

interpretation ct: live_trace store_inv live "conversation_step codec" "conversation_creates codec"
    "conversation_writes codec"
  for codec :: conversation_codec
proof unfold_locales
  fix s :: conversation_store and now t :: go_time and c :: conversation_call and k x
  show "store_inv s \<Longrightarrow> store_inv (conversation_step codec now c s)"
    by (cases c) (simp_all add: store_ops_inv AppendItems_inv)
  show "now \<le> t \<Longrightarrow> live t s k = Some x \<Longrightarrow> live now s k = Some x" by (rule live_mono)
  show "store_inv s \<Longrightarrow> now \<le> t \<Longrightarrow> live t (conversation_step codec now c s) k = Some x \<Longrightarrow>
          conversation_creates codec c k \<or> live now s k \<noteq> None"
    using cs.create_alive [of s now t codec _ k x] cs.update_alive [of s now t codec _ k x]
      AppendItems_origin [of s now t _ _ k x] live_mono [of now t s k x]
    by (cases c) (auto simp: cs.lookup_alive cs.delete_alive split: if_splits, blast+)
  show "store_inv s \<Longrightarrow> now \<le> t \<Longrightarrow> \<not> conversation_creates codec c k \<Longrightarrow> \<not> conversation_writes codec c k \<Longrightarrow>
          live t (conversation_step codec now c s) k = Some x \<Longrightarrow> live t s k = Some x"
    using cs.create_alive [of s now t codec _ k x] cs.update_alive [of s now t codec _ k x]
      AppendItems_origin [of s now t _ _ k x]
    by (cases c) (auto simp: cs.lookup_alive cs.delete_alive split: if_splits)
qed

end
