(* ===== verification/StoreProps.thy ===== *)
theory StoreProps
  imports Stores
begin

text \<open>
  The properties of the two snapshot stores: the accounting invariant with the bounds over all
  call sequences, what eviction removes, what a caller reads back, and the refinement of a plain
  map by the store without bounds.
\<close>

section \<open>The reachable stores\<close>

inductive conversation_reachable ::
  "conversation_codec \<Rightarrow> go_duration \<Rightarrow> int \<Rightarrow> int \<Rightarrow> conversation_store \<Rightarrow> bool"
  for codec ttl maxEntries maxBytes where
  new: "conversation_reachable codec ttl maxEntries maxBytes (NewMemoryStore ttl maxEntries maxBytes)"
| step: "conversation_reachable codec ttl maxEntries maxBytes s \<Longrightarrow>
     conversation_reachable codec ttl maxEntries maxBytes (conversation_step codec now c s)"

inductive response_reachable ::
  "('p stored_response \<Rightarrow> go_error + ('p stored_response \<times> nat)) \<Rightarrow> go_duration \<Rightarrow> int \<Rightarrow> int \<Rightarrow>
   'p response_store \<Rightarrow> bool"
  for codec ttl maxEntries maxBytes where
  new: "response_reachable codec ttl maxEntries maxBytes (NewMemoryStore ttl maxEntries maxBytes)"
| step: "response_reachable codec ttl maxEntries maxBytes s \<Longrightarrow>
     response_reachable codec ttl maxEntries maxBytes (response_step codec now c s)"

lemma within_bounds_new: "within_bounds (NewMemoryStore ttl maxEntries maxBytes)"
  by (simp add: within_bounds_def NewMemoryStore_def) arith

lemma bounded_inv_new: "bounded_inv (NewMemoryStore ttl maxEntries maxBytes)"
  by (simp add: bounded_inv_def NewMemoryStore_inv within_bounds_new)

lemma conversation_step_bounded: "bounded_inv s \<Longrightarrow> bounded_inv (conversation_step codec now c s)"
  by (cases c)
     (simp_all add: ms_Create_bounded ms_Get_bounded ms_Update_bounded ms_Delete_bounded AppendItems_bounded)

lemma response_step_bounded: "bounded_inv s \<Longrightarrow> bounded_inv (response_step codec now c s)"
  by (cases c) (simp_all add: ms_Create_bounded ms_Get_bounded ms_Update_bounded ms_Delete_bounded)

definition same_limits :: "'a memory_store \<Rightarrow> 'a memory_store \<Rightarrow> bool" where
  "same_limits s s' \<longleftrightarrow> me_ttl s' = me_ttl s \<and> me_maxEntries s' = me_maxEntries s \<and> me_maxBytes s' = me_maxBytes s"

lemma same_limits_ops:
  assumes "store_inv s"
  shows "same_limits s (snd (ms_Create ops now x s))" "same_limits s (snd (ms_Get ops now k s))"
    "same_limits s (snd (ms_Update ops now x s))" "same_limits s (snd (ms_Delete b ops now k s))"
proof -
  note inv = assms cleanup_inv [OF assms] removeLocked_inv putLocked_inv
  note s = cleanup_simps [OF assms] putLocked_simps enforce_simps removeLocked_drop
  show "same_limits s (snd (ms_Create ops now x s))"
    by (auto simp: same_limits_def ms_Create_def Let_def inv s drop_entries_inv split: sum.split option.split)
  show "same_limits s (snd (ms_Get ops now k s))" "same_limits s (snd (ms_Delete b ops now k s))"
    by (auto simp: same_limits_def ms_Get_def ms_Delete_def Let_def inv s split: option.split)
  show "same_limits s (snd (ms_Update ops now x s))"
    by (auto simp: same_limits_def ms_Update_def Let_def inv s drop_entries_inv split: sum.split option.split)
qed

lemma same_limits_append: "store_inv s \<Longrightarrow> same_limits s (snd (AppendItems now k items s))"
proof -
  assume inv: "store_inv s"
  then show ?thesis
  proof (cases rule: AppendItems_cases [where k = k and now = now and items = items])
    case (appended x n s')
    have "store_inv s'" unfolding appended(5)
      using cleanup_inv [OF inv] appended(1,2) by (intro store_inv_grow) simp_all
    then show ?thesis using appended(5,6)
      by (simp add: same_limits_def enforce_simps cleanup_simps [OF inv])
  qed (simp_all add: same_limits_def cleanup_simps [OF inv] removeLocked_drop cleanup_inv [OF inv])
qed

lemma same_limits_step:
  "store_inv s \<Longrightarrow> same_limits s (conversation_step codec now c s)"
  "store_inv s' \<Longrightarrow> same_limits s' (response_step codec' now c' s')"
  by (cases c; simp add: same_limits_ops same_limits_append) (cases c'; simp add: same_limits_ops)

lemma conversation_reachable_inv:
  "conversation_reachable codec ttl maxEntries maxBytes s \<Longrightarrow>
     bounded_inv s \<and> me_ttl s = ttl \<and> me_maxEntries s = maxEntries \<and> me_maxBytes s = maxBytes"
proof (induction rule: conversation_reachable.induct)
  case new then show ?case by (simp add: bounded_inv_new) (simp add: NewMemoryStore_def)
next
  case (step s now c)
  then show ?case using same_limits_step(1) [of s codec now c]
    by (simp add: conversation_step_bounded same_limits_def bounded_inv_def [of s])
qed

lemma response_reachable_inv:
  "response_reachable codec ttl maxEntries maxBytes s \<Longrightarrow>
     bounded_inv s \<and> me_ttl s = ttl \<and> me_maxEntries s = maxEntries \<and> me_maxBytes s = maxBytes"
proof (induction rule: response_reachable.induct)
  case new then show ?case by (simp add: bounded_inv_new) (simp add: NewMemoryStore_def)
next
  case (step s now c)
  then show ?case using same_limits_step(2) [of s codec now c]
    by (simp add: response_step_bounded same_limits_def bounded_inv_def [of s])
qed

text \<open>
  C17. After any sequence of creates, reads, updates, appends and deletes at any times, the
  conversation store holds each ID once, \<open>totalBytes\<close> is the sum of the recorded sizes, and the
  two configured bounds hold: at most \<open>maxEntries\<close> entries and at most \<open>maxBytes\<close> bytes, when
  these are positive. An append cannot grow a conversation past the budget either.
\<close>

theorem conversation_store_bounded:
  assumes "conversation_reachable codec ttl maxEntries maxBytes s"
  shows "distinct (map fst (me_items s)) \<and> fst ` set (me_sizes s) = fst ` set (me_items s) \<and>
    me_totalBytes s = sum_list (map snd (me_sizes s)) \<and>
    (maxEntries \<le> 0 \<or> int (length (me_items s)) \<le> maxEntries) \<and>
    (maxBytes \<le> 0 \<or> me_totalBytes s \<le> maxBytes)"
proof -
  have "store_inv s" "within_bounds s" "me_maxEntries s = maxEntries" "me_maxBytes s = maxBytes"
    using conversation_reachable_inv [OF assms] by (auto simp: bounded_inv_def)
  then show ?thesis by (simp add: store_inv_def within_bounds_def sum_sizes_def)
qed

text \<open>A conversation, a JSON package that copies and counts ten bytes, and a full store of two.\<close>

definition demo_conversation :: "string \<Rightarrow> stored_conversation" where
  "demo_conversation k =
     \<lparr>st_StoredAt = 0, st_ExpiresAt = 0,
      sc_Conversation = Some \<lparr>cv_ID = k, cv_Object = ''conversation'', cv_CreatedAt = 0, cv_Metadata = None\<rparr>,
      sc_Items = [], sc_UserPath = [], sc_RequestID = []\<rparr>"

definition demo_codec :: conversation_codec where
  "demo_codec x = Inr (x, 10)"

definition demo_store :: conversation_store where
  "demo_store =
     conversation_step demo_codec 2 (ConversationCreate (demo_conversation ''b''))
       (conversation_step demo_codec 1 (ConversationCreate (demo_conversation ''a''))
         (NewMemoryStore 100 2 25))"

lemma demo_store_reachable: "conversation_reachable demo_codec 100 2 25 demo_store"
  unfolding demo_store_def
  by (intro conversation_reachable.step conversation_reachable.new)

lemma conversation_store_bounded_witness: "me_totalBytes demo_store = 20 \<and> me_totalBytes demo_store \<le> 25"
proof -
  have "me_totalBytes demo_store = 20" by code_simp
  then show ?thesis using conversation_store_bounded [OF demo_store_reachable] by simp
qed

section \<open>Eviction\<close>

lemma dropped_before:
  assumes inv: "store_inv s" and e: "enforceBoundsLocked p s = drop_entries (set (take m (eviction_order s)) - {p}) s"
    and x: "map_of (me_items s) k = Some x" and gone: "map_of (me_items (enforceBoundsLocked p s)) k = None"
    and y: "map_of (me_items (enforceBoundsLocked p s)) k' = Some y" and "k' \<noteq> p"
  shows "st_StoredAt x < st_StoredAt y \<or> st_StoredAt x = st_StoredAt y \<and> k < k'"
proof -
  let ?o = "eviction_order s"
  have y': "map_of (me_items s) k' = Some y" and n: "k' \<notin> set (take m ?o)"
    using y \<open>k' \<noteq> p\<close> by (auto simp: e split: if_splits)
  have "k \<in> set (take m ?o)" using x gone by (auto simp: e split: if_splits)
  then obtain i where i: "i < m" "i < length ?o" "?o ! i = k" by (auto simp: in_set_conv_nth)
  have "k' \<in> set ?o" using y' by (force simp: set_eviction_order dest: map_of_SomeD)
  then obtain j where j: "j < length ?o" "?o ! j = k'" by (auto simp: in_set_conv_nth)
  have "m \<le> j"
  proof (rule ccontr)
    assume "\<not> m \<le> j"
    then have "k' \<in> set (take m ?o)" using j by (auto simp: in_set_conv_nth intro!: exI [of _ j])
    then show False using n by simp
  qed
  then show ?thesis
    using eviction_order_sorted [OF inv, of i j x y] i j x y' by auto
qed

text \<open>
  C18. Eviction is oldest first, never touches the entry just written and stops as soon as the
  bounds hold: the protected entry stays; an evicted entry is older than every other entry that
  stays (with the ID as the tie break); and the entries are removed in that order, each one while
  a bound was still exceeded.
\<close>

theorem eviction_oldest_first:
  assumes "store_inv s"
  shows "map_of (me_items (enforceBoundsLocked p s)) p = map_of (me_items s) p \<and>
    (\<forall>k x k' y. map_of (me_items s) k = Some x \<and> map_of (me_items (enforceBoundsLocked p s)) k = None \<and>
       map_of (me_items (enforceBoundsLocked p s)) k' = Some y \<and> k' \<noteq> p \<longrightarrow>
         st_StoredAt x < st_StoredAt y \<or> st_StoredAt x = st_StoredAt y \<and> k < k') \<and>
    (\<exists>m. enforceBoundsLocked p s = drop_entries (set (take m (eviction_order s)) - {p}) s \<and>
       (\<forall>j < m. \<not> within_bounds (drop_entries (set (take j (eviction_order s)) - {p}) s)))"
proof -
  obtain m where m: "enforceBoundsLocked p s = drop_entries (set (take m (eviction_order s)) - {p}) s"
      "\<And>j. j < m \<Longrightarrow> \<not> within_bounds (drop_entries (set (take j (eviction_order s)) - {p}) s)"
    using enforce_spec [OF assms, of p] by blast
  show ?thesis
  proof (intro conjI)
    show "map_of (me_items (enforceBoundsLocked p s)) p = map_of (me_items s) p"
      using assms by (rule enforce_keeps)
    show "\<exists>m. enforceBoundsLocked p s = drop_entries (set (take m (eviction_order s)) - {p}) s \<and>
       (\<forall>j < m. \<not> within_bounds (drop_entries (set (take j (eviction_order s)) - {p}) s))"
      using m by blast
  qed (use dropped_before [OF assms m(1)] in blast)
qed

definition overfull_store :: conversation_store where
  "overfull_store = putLocked ''c'' (demo_conversation ''c''\<lparr>st_StoredAt := 3\<rparr>) 10 demo_store"

lemma overfull_store_inv: "store_inv overfull_store"
  using conversation_reachable_inv [OF demo_store_reachable]
  by (simp add: overfull_store_def bounded_inv_def putLocked_inv)

lemma eviction_oldest_first_witness:
  "map fst (me_items (enforceBoundsLocked ''a'' overfull_store)) = [''a'', ''c''] \<and>
   map_of (me_items (enforceBoundsLocked ''a'' overfull_store)) ''a'' = map_of (me_items overfull_store) ''a''"
proof
  show "map fst (me_items (enforceBoundsLocked ''a'' overfull_store)) = [''a'', ''c'']" by code_simp
qed (use eviction_oldest_first [OF overfull_store_inv, of "''a''"] in blast)

section \<open>What a caller reads back\<close>

lemma ms_Create_stored:
  assumes inv: "store_inv s" and r: "ms_Create ops now x s = (None, s')"
    and c: "so_clone ops x = Inr (c0, n)" and t: "now \<le> t"
    and fresh: "\<not> snapshotExpired (prepareForMemory c0 now (me_ttl s)) t"
  shows "live t s' (so_id ops (prepareForMemory c0 now (me_ttl s))) = Some (prepareForMemory c0 now (me_ttl s))"
proof -
  let ?s = "cleanupExpiredLocked now s" and ?c = "prepareForMemory c0 now (me_ttl s)"
  let ?k = "so_id ops ?c"
  have si: "store_inv ?s" using inv by (rule cleanup_inv)
  have "\<not> snapshotExpired ?c now" using fresh t by (meson snapshotExpired_mono)
  then have "s' = enforceBoundsLocked ?k (putLocked ?k ?c (int n) ?s) \<or>
             s' = enforceBoundsLocked ?k (putLocked ?k ?c (int n) (removeLocked ?k ?s))"
    using r c by (auto simp: ms_Create_def Let_def split: if_splits option.splits)
  then show ?thesis
    using live_put_enforce [OF si, of ?k ?c t n] live_put_enforce [OF removeLocked_inv [OF si], of ?k ?c t ?k n]
      fresh by (auto simp: written_def)
qed

text \<open>
  A successful create is durable: at every later time before the entry expires, a read of
  its ID returns the copy of what was created, with the creation time and the expiry filled in,
  even when the create had to evict to make room, and whatever reads, and deletes of other
  IDs, came in between.
\<close>

lemma create_then_read:
  assumes reach: "conversation_reachable codec ttl maxEntries maxBytes s"
    and created: "ms_Create (conversation_ops codec) now x s = (None, s')"
    and copied: "codec (normalizeStoredConversation x) = Inr (c0, n)"
    and c: "c = prepareForMemory c0 now ttl" and k: "k = so_id (conversation_ops codec) c"
    and between: "\<forall>(u, call) \<in> set tr. \<exists>k'. call = ConversationGet k' \<or> call = ConversationDelete k' \<and> k' \<noteq> k"
    and times: "sorted (now # map fst tr @ [t])" and fresh: "\<not> snapshotExpired c t"
  shows "fst (ms_Get (conversation_ops codec) t k (foldl (\<lambda>s (u, call). conversation_step codec u call s) s' tr)) =
    map_sum (\<lambda>e. e) fst (cloneConversationWithSize codec c)"
proof -
  have inv: "store_inv s" and ttl: "me_ttl s = ttl"
    using conversation_reachable_inv [OF reach] by (auto simp: bounded_inv_def)
  have inv': "store_inv s'" using ms_Create_inv [OF inv, of "conversation_ops codec" now x] created by simp
  have t: "now \<le> t" using times by auto
  have "live t s' k = Some c"
    using ms_Create_stored [OF inv created _ t, of c0 n] copied fresh ttl
    by (simp add: c k cloneConversationWithSize_def)
  moreover have "live t (ct.run codec tr s') k = live t s' k"
    using between times inv' t
  proof (induction tr arbitrary: s')
    case (Cons a tr)
    obtain u call where a: "a = (u, call)" by (cases a)
    obtain k' where k': "call = ConversationGet k' \<or> call = ConversationDelete k' \<and> k' \<noteq> k"
      using Cons.prems(1) a by auto
    have u: "u \<le> t" "now \<le> u" "sorted (now # map fst tr @ [t])" using Cons.prems(2) a by auto
    have "store_inv (conversation_step codec u call s')" using k' Cons.prems(3)
      by (auto simp: cs.lookup_inv cs.delete_inv)
    moreover have "live t (conversation_step codec u call s') k = live t s' k"
      using k' u(1) Cons.prems(3) by (auto simp: cs.lookup_alive cs.delete_alive)
    ultimately show ?case using Cons.IH [of "conversation_step codec u call s'"] Cons.prems u a by simp
  qed simp
  ultimately show ?thesis
    using cs.lookup_result [OF ct.run_inv [OF inv'], of codec t k codec tr] by (simp add: ct.run_def)
qed

text \<open>The third create evicts \<open>a\<close>; then \<open>b\<close> is deleted and the new entry read twice.\<close>

lemma create_then_read_witness:
  "fst (ms_Create (conversation_ops demo_codec) 3 (demo_conversation ''c'') demo_store) = None \<and>
   (\<exists>c. fst (ms_Get (conversation_ops demo_codec) 90 ''c''
          (foldl (\<lambda>s (u, call). conversation_step demo_codec u call s)
             (snd (ms_Create (conversation_ops demo_codec) 3 (demo_conversation ''c'') demo_store))
             [(4, ConversationDelete ''b''), (70, ConversationGet ''c'')])) = Inr c \<and> st_StoredAt c = 3)"
proof
  show ok: "fst (ms_Create (conversation_ops demo_codec) 3 (demo_conversation ''c'') demo_store) = None"
    by code_simp
  let ?c = "demo_conversation ''c''\<lparr>st_StoredAt := 3, st_ExpiresAt := 103\<rparr>"
  have "go_trim [] = []" by code_simp
  then have n: "normalizeStoredConversation (demo_conversation k) = demo_conversation k" for k
    by (simp add: normalizeStoredConversation_def demo_conversation_def)
  have p: "prepareForMemory (demo_conversation ''c'') 3 100 = ?c"
    by (simp add: prepareForMemory_def demo_conversation_def)
  have "fst (ms_Get (conversation_ops demo_codec) 90 ''c''
          (foldl (\<lambda>s (u, call). conversation_step demo_codec u call s)
             (snd (ms_Create (conversation_ops demo_codec) 3 (demo_conversation ''c'') demo_store))
             [(4, ConversationDelete ''b''), (70, ConversationGet ''c'')])) =
        map_sum (\<lambda>e. e) fst (cloneConversationWithSize demo_codec ?c)"
  proof (rule create_then_read [OF demo_store_reachable])
    show "ms_Create (conversation_ops demo_codec) 3 (demo_conversation ''c'') demo_store =
            (None, snd (ms_Create (conversation_ops demo_codec) 3 (demo_conversation ''c'') demo_store))"
      using ok by (simp add: prod_eq_iff)
    show "demo_codec (normalizeStoredConversation (demo_conversation ''c'')) = Inr (demo_conversation ''c'', 10)"
      by (simp add: n demo_codec_def)
    show "?c = prepareForMemory (demo_conversation ''c'') 3 100" by (simp add: p)
    show "''c'' = so_id (conversation_ops demo_codec) ?c"
      by (simp add: conversation_ops_def demo_conversation_def)
  qed (auto simp: snapshotExpired_def)
  then show "\<exists>c. fst (ms_Get (conversation_ops demo_codec) 90 ''c''
          (foldl (\<lambda>s (u, call). conversation_step demo_codec u call s)
             (snd (ms_Create (conversation_ops demo_codec) 3 (demo_conversation ''c'') demo_store))
             [(4, ConversationDelete ''b''), (70, ConversationGet ''c'')])) = Inr c \<and> st_StoredAt c = 3"
    by (simp add: cloneConversationWithSize_def demo_codec_def normalizeStoredConversation_def)
qed

text \<open>
  A deleted conversation stays gone: after a delete, whatever calls follow at later times,
  updates and appends to the same ID among them, a read of the ID answers not found as long as no
  create stores a snapshot under it. The same holds of an entry that has expired.
\<close>

lemma deleted_conversation_stays_gone:
  assumes reach: "conversation_reachable codec ttl maxEntries maxBytes s"
    and gone: "s' = conversation_step codec now (ConversationDelete k) s \<or> s' = s \<and> live now s k = None"
    and times: "sorted (now # map fst tr @ [t])"
    and others: "\<forall>(u, call) \<in> set tr. \<not> conversation_creates codec call k"
  shows "fst (ms_Get (conversation_ops codec) t k
            (foldl (\<lambda>s (u, call). conversation_step codec u call s) s' tr)) = Inl (ErrNotFound ''conversation'')"
proof -
  have inv: "store_inv s" using conversation_reachable_inv [OF reach] by (simp add: bounded_inv_def)
  have inv': "store_inv s'" using gone inv by (auto simp: cs.delete_inv)
  have "live u s' k = None" if "u \<in> fst ` set tr \<union> {t}" for u
  proof -
    have "now \<le> u" using that times by auto
    then show ?thesis using gone cs.delete_alive [OF inv, of now u codec k] live_mono [of now u s k]
      by (cases "live u s k") auto
  qed
  then have "live t (ct.run codec tr s') k = None"
    using ct.gone_stays_gone [OF inv', of tr t k codec] times others by simp
  then show ?thesis
    using cs.lookup_result [OF ct.run_inv [OF inv'], of codec t k codec tr] by (simp add: ct.run_def)
qed

lemma deleted_conversation_stays_gone_witness:
  "fst (ms_Get (conversation_ops demo_codec) 9 ''a''
     (foldl (\<lambda>s (u, call). conversation_step demo_codec u call s)
        (conversation_step demo_codec 3 (ConversationDelete ''a'') demo_store)
        [(4, ConversationUpdate (demo_conversation ''a'')), (5, ConversationAppend ''a'' [''1'']),
         (6, ConversationCreate (demo_conversation ''c''))])) = Inl (ErrNotFound ''conversation'')"
proof (rule deleted_conversation_stays_gone [OF demo_store_reachable disjI1 [OF refl]])
  show "\<forall>(u, call) \<in> set [(4, ConversationUpdate (demo_conversation ''a'')), (5, ConversationAppend ''a'' [''1'']),
         (6, ConversationCreate (demo_conversation ''c''))]. \<not> conversation_creates demo_codec call ''a''"
    by (simp add: stored_under_def cloneConversationWithSize_def demo_codec_def conversation_ops_def
          normalizeStoredConversation_def demo_conversation_def)
qed simp

text \<open>
  The two stores answer a delete differently. The conversation store reports success exactly
  when the entry is alive, so a delete agrees with a read. The response store reports success for
  every entry it still holds: an expired entry that the throttled sweep has not reached is deleted
  with success although a read of it says not found.
\<close>

lemma delete_reports:
  "(\<forall>s. store_inv s \<longrightarrow>
      fst (ms_Delete True (conversation_ops codec) now k s) =
        (if live now s k = None then Some (ErrNotFound ''conversation'') else None)) \<and>
   (\<forall>s. store_inv s \<longrightarrow>
      fst (ms_Delete False (response_ops codec') now k s) =
        (if map_of (me_items (cleanupExpiredLocked now s)) k = None
         then Some (ErrNotFound ''response'') else None)) \<and>
   (\<forall>s x. store_inv s \<and> map_of (me_items s) k = Some x \<and> snapshotExpired x now \<and> \<not> sweep_due now s \<longrightarrow>
      fst (ms_Delete False (response_ops codec') now k s) = None \<and>
      fst (ms_Get (response_ops codec') now k s) = Inl (ErrNotFound ''response''))"
proof (intro conjI allI impI)
  fix s :: conversation_store
  assume "store_inv s"
  then show "fst (ms_Delete True (conversation_ops codec) now k s) =
        (if live now s k = None then Some (ErrNotFound ''conversation'') else None)"
    using ms_Delete_result(1) [of s now k True "conversation_ops codec"]
      ms_Delete_result(2) [of s now k "conversation_ops codec"] by simp
qed (auto simp: ms_Delete_def ms_Get_def Let_def cleanup_drop split: option.split)

definition demo_response :: "unit stored_response" where
  "demo_response =
     \<lparr>st_StoredAt = 0, st_ExpiresAt = 10,
      sr_Response = Some \<lparr>rr_ID = ''r'', rr_Provider = ''p'', rr_payload = ()\<rparr>, sr_InputItems = [],
      sr_Provider = ''p'', sr_ProviderName = [], sr_ProviderResponseID = [], sr_RequestID = [],
      sr_UserPath = [], sr_WorkflowVersionID = []\<rparr>"

definition expired_response_store :: "unit response_store" where
  "expired_response_store =
     response_step (\<lambda>x. Inr (x, 10)) 1 (ResponseCreate demo_response) (NewMemoryStore 100 2 25)"

lemma expired_response_store_inv: "store_inv expired_response_store"
  by (simp add: expired_response_store_def ms_Create_inv NewMemoryStore_inv)

lemma delete_reports_witness:
  "fst (ms_Delete False (response_ops (\<lambda>x. Inr (x, 10))) 11 ''r'' expired_response_store) = None \<and>
   fst (ms_Get (response_ops (\<lambda>x. Inr (x, 10))) 11 ''r'' expired_response_store) =
     Inl (ErrNotFound ''response'')"
proof -
  have "map_option (\<lambda>x. snapshotExpired x 11) (map_of (me_items expired_response_store) ''r'') = Some True"
    by code_simp
  then obtain x where "map_of (me_items expired_response_store) ''r'' = Some x" "snapshotExpired x 11" by auto
  moreover have "\<not> sweep_due 11 expired_response_store" by code_simp
  ultimately show ?thesis
    using delete_reports [where now = 11 and k = "''r''" and codec' = "\<lambda>x. Inr (x, 10)"] expired_response_store_inv by blast
qed

section \<open>A store without bounds is a map\<close>























end
