(* ===== verification/Balancer.thy ===== *)
theory Balancer
  imports Registry Cooldown "HOL-Library.Signed_Division"
begin

text \<open>
  The load-balancing strategies of virtual models: \<open>internal/virtualmodels/balancer.go\<close>,
  \<open>weighted.go\<close>, \<open>random.go\<close>, \<open>leastused.go\<close> and \<open>healthaware.go\<close>.

  A strategy picks an index into a list of targets. The counters are 64-bit words; an index
  outside the list panics in Go and is \<open>None\<close> here. The random sources are parameters: \<open>draw\<close>
  is the result of \<open>rand.Float64\<close>, a number in [0, 1), and \<open>index\<close> that of \<open>crypto/rand\<close>, which
  may fail. Weights and prices are rationals; rounding, NaN and infinities of the floats are
  outside the model.
\<close>

section \<open>Targets\<close>

record resolved_target =
  rt_selector :: model_selector
  rt_qualified :: string
  rt_weight :: rat
  rt_fallbackOnly :: bool

record catalog =
  cat_Supports :: "string \<Rightarrow> bool"
  cat_ModelAvailable :: "string \<Rightarrow> bool"
  cat_GetProviderType :: "string \<Rightarrow> string"
  cat_LookupModel :: "string \<Rightarrow> core_model option"
  cat_ProviderNames :: "string list"

section \<open>Round robin\<close>

text \<open>The counters per redirect source. \<open>next\<close> reads the counter and advances it.\<close>

type_synonym round_robin = "string \<rightharpoonup> 64 word"

definition rr_next :: "string \<Rightarrow> round_robin \<Rightarrow> 64 word \<times> round_robin" where
  "rr_next source r =
     (let value = (case r source of None \<Rightarrow> 0 | Some c \<Rightarrow> c)
      in (value, r(source \<mapsto> value + 1)))"

definition rr_prune :: "string list \<Rightarrow> round_robin \<Rightarrow> round_robin" where
  "rr_prune active r = (\<lambda>source. if source \<in> set active then r source else None)"

definition normalizeWeight :: "rat \<Rightarrow> int" where
  "normalizeWeight weight =
     (if weight \<le> 0 then 1
      else let rounded = \<lfloor>weight + 1 / 2\<rfloor> in if rounded < 1 then 1 else rounded)"

fun weighted_slot :: "int \<Rightarrow> nat \<Rightarrow> rat list \<Rightarrow> nat option" where
  \<comment> \<open>\<open>for i, target := range targets { slot -= w; if slot < 0 { return i } }\<close>\<close>
  "weighted_slot slot i [] = None"
| "weighted_slot slot i (w # ws) =
     (let slot = slot - normalizeWeight w in if slot < 0 then Some i else weighted_slot slot (Suc i) ws)"

definition weightedIndex :: "resolved_target list \<Rightarrow> 64 word \<Rightarrow> nat" where
  "weightedIndex targets counter =
     (let weights = map rt_weight targets;
          total = sum_list (map normalizeWeight weights);
          weighted = (\<exists>w \<in> set weights. normalizeWeight w \<noteq> 1)
      in if \<not> weighted \<or> total \<le> 0 then nat (uint counter mod int (length targets))
         else case weighted_slot (uint counter mod total) 0 weights of
             Some i \<Rightarrow> i
           | None \<Rightarrow> length targets - 1)"

section \<open>Weighted and uniform random choice\<close>

definition effective_weight :: "rat \<Rightarrow> rat" where
  "effective_weight w = (if w \<le> 0 then 1 else w)"

fun weighted_draw :: "rat \<Rightarrow> rat \<Rightarrow> nat \<Rightarrow> rat list \<Rightarrow> nat option" where
  "weighted_draw draw running i [] = None"
| "weighted_draw draw running i (w # ws) =
     (let running = running + effective_weight w
      in if draw \<le> running then Some i else weighted_draw draw running (Suc i) ws)"

definition weighted_NextTarget :: "resolved_target list \<Rightarrow> rat \<Rightarrow> nat" where
  "weighted_NextTarget targets draw =
     (if targets = [] then 0
      else
        let weights = map rt_weight targets; total = sum_list (map effective_weight weights)
        in case weighted_draw (draw * total) 0 0 weights of
             Some i \<Rightarrow> i
           | None \<Rightarrow> length targets - 1)"

definition random_NextTarget :: "resolved_target list \<Rightarrow> nat option \<Rightarrow> nat" where
  "random_NextTarget targets index =
     (if length targets \<le> 1 then 0 else case index of None \<Rightarrow> 0 | Some i \<Rightarrow> i)"

section \<open>Least used\<close>

record least_used =
  lu_inFlight :: "string \<rightharpoonup> int"
  lu_counter :: "64 word"

text \<open>\<open>loadCount\<close> stores a zero counter for a target it sees for the first time.\<close>

definition loadCount :: "string \<Rightarrow> least_used \<Rightarrow> int \<times> least_used" where
  "loadCount qualified b =
     (case lu_inFlight b qualified of
        None \<Rightarrow> (0, b\<lparr>lu_inFlight := (lu_inFlight b)(qualified \<mapsto> 0)\<rparr>)
      | Some n \<Rightarrow> (n, b))"

fun least_loop :: "string list \<Rightarrow> nat \<Rightarrow> nat \<Rightarrow> int \<Rightarrow> least_used \<Rightarrow> nat \<times> int \<times> least_used" where
  "least_loop [] i bestIdx bestCount b = (bestIdx, bestCount, b)"
| "least_loop (q # qs) i bestIdx bestCount b =
     (let (c, b) = loadCount q b
      in if c < bestCount then least_loop qs (Suc i) i c b
         else least_loop qs (Suc i) bestIdx bestCount b)"

fun tied_loop :: "string list \<Rightarrow> nat \<Rightarrow> nat \<Rightarrow> int \<Rightarrow> nat list \<Rightarrow> least_used \<Rightarrow> nat list \<times> least_used" where
  "tied_loop [] i bestIdx bestCount tied b = (tied, b)"
| "tied_loop (q # qs) i bestIdx bestCount tied b =
     (if i = bestIdx then tied_loop qs (Suc i) bestIdx bestCount tied b
      else
        let (c, b) = loadCount q b
        in tied_loop qs (Suc i) bestIdx bestCount (if c = bestCount then tied @ [i] else tied) b)"

text \<open>\<open>int(slot)%len(tied)\<close> is the signed remainder: from the 2^63rd tie on it is negative, and
  the index expression panics.\<close>

definition least_NextTarget :: "resolved_target list \<Rightarrow> least_used \<Rightarrow> nat option \<times> least_used" where
  "least_NextTarget targets b =
     (case map rt_qualified targets of
        [] \<Rightarrow> (Some 0, b)
      | q # qs \<Rightarrow>
          let (c, b) = loadCount q b;
              (bestIdx, bestCount, b) = least_loop qs 1 0 c b;
              (tied, b) = tied_loop (q # qs) 0 bestIdx bestCount [bestIdx] b
          in if 1 < length tied
             then let slot = lu_counter b + 1; i = sint slot smod int (length tied)
                  in (if 0 \<le> i then Some (tied ! nat i) else None, b\<lparr>lu_counter := slot\<rparr>)
             else (Some bestIdx, b))"

definition lu_add :: "int \<Rightarrow> string \<Rightarrow> least_used \<Rightarrow> least_used" where
  "lu_add d qualified b =
     b\<lparr>lu_inFlight := (lu_inFlight b)(qualified \<mapsto>
        (case lu_inFlight b qualified of None \<Rightarrow> 0 | Some n \<Rightarrow> n) + d)\<rparr>"

definition lu_Acquire :: "string \<Rightarrow> least_used \<Rightarrow> least_used" where
  "lu_Acquire = lu_add 1"

definition lu_Release :: "string \<Rightarrow> least_used \<Rightarrow> least_used" where
  "lu_Release = lu_add (- 1)"

section \<open>Health aware\<close>

text \<open>Of a provider's runtime snapshot the balancer reads the name and the time of the last
  successful availability check.\<close>

record health_snapshot =
  hs_Name :: string
  hs_LastAvailabilityOKAt :: "go_time option"

definition healthTimeout :: go_duration where
  "healthTimeout = 5 * 60 * second"

definition healthWeight :: "health_snapshot \<Rightarrow> go_time \<Rightarrow> rat" where
  "healthWeight s now =
     (case hs_LastAvailabilityOKAt s of
        None \<Rightarrow> 0
      | Some ok \<Rightarrow> if time_sub now ok < healthTimeout then 5 else 2)"

definition extractProvider :: "string \<Rightarrow> string" where
  "extractProvider qualified =
     (case cut (CHR ''/'') qualified of None \<Rightarrow> qualified | Some (p, _) \<Rightarrow> p)"

text \<open>The cooldown of a target: the provider's keys first, then the model. \<open>Check\<close> drops an entry
  that is over; the tracker is optional, and the service never sets it.\<close>

definition target_cooling :: "resolved_target \<Rightarrow> go_time \<Rightarrow> cooldown_tracker \<Rightarrow> bool \<times> cooldown_tracker" where
  "target_cooling t now ct =
     (let provider = extractProvider (rt_qualified t);
          (st, ct) = Check ct now
            \<lparr>ck_ProviderName = provider, ck_KeyIndex = 0, ck_Model = [], ck_Scope = ''key''\<rparr>
      in if cs_Active st then (True, ct)
         else
           let (st, ct) = Check ct now
                 \<lparr>ck_ProviderName = provider, ck_KeyIndex = 0, ck_Model = ms_Model (rt_selector t),
                  ck_Scope = ''model''\<rparr>
           in (cs_Active st, ct))"

definition health_of :: "health_snapshot list \<Rightarrow> go_time \<Rightarrow> string \<Rightarrow> rat" where
  "health_of snapshots now provider =
     (case map_of (rev (map (\<lambda>s. (hs_Name s, healthWeight s now)) snapshots)) provider of
        None \<Rightarrow> 0 | Some w \<Rightarrow> w)"

fun health_weights ::
  "health_snapshot list \<Rightarrow> go_time \<Rightarrow> resolved_target list \<Rightarrow> cooldown_tracker option \<Rightarrow>
   rat list \<times> cooldown_tracker option" where
  "health_weights snapshots now [] cooldown = ([], cooldown)"
| "health_weights snapshots now (t # ts) cooldown =
     (let (cooling, cooldown) =
            (case cooldown of
               None \<Rightarrow> (False, None)
             | Some ct \<Rightarrow> let (b, ct) = target_cooling t now ct in (b, Some ct));
          w = (if cooling then 0 else max 0 (health_of snapshots now (extractProvider (rt_qualified t))));
          (ws, cooldown) = health_weights snapshots now ts cooldown
      in (w # ws, cooldown))"

fun health_draw :: "rat \<Rightarrow> rat \<Rightarrow> nat \<Rightarrow> rat list \<Rightarrow> nat option" where
  "health_draw draw running i [] = None"
| "health_draw draw running i (w # ws) =
     (let running = running + w
      in if draw < running then Some i else health_draw draw running (Suc i) ws)"

definition health_NextTarget ::
  "health_snapshot list \<Rightarrow> go_time \<Rightarrow> rat \<Rightarrow> resolved_target list \<Rightarrow> cooldown_tracker option \<Rightarrow>
   nat \<times> cooldown_tracker option" where
  "health_NextTarget snapshots now draw targets cooldown =
     (if length targets \<le> 1 then (0, cooldown)
      else
        let (weights, cooldown) = health_weights snapshots now targets cooldown;
            total = sum_list weights
        in if total \<le> 0 then (0, cooldown)
           else case health_draw (draw * total) 0 0 weights of
               Some i \<Rightarrow> (i, cooldown)
             | None \<Rightarrow> (length targets - 1, cooldown))"

section \<open>Cost\<close>

definition targetCost :: "catalog \<Rightarrow> resolved_target \<Rightarrow> rat \<times> bool" where
  "targetCost cat target =
     (case cat_LookupModel cat (rt_qualified target) of
        None \<Rightarrow> (0, False)
      | Some model \<Rightarrow>
          (case cm_Metadata model of
             None \<Rightarrow> (0, False)
           | Some md \<Rightarrow>
               (case md_Pricing md of
                  None \<Rightarrow> (0, False)
                | Some p \<Rightarrow>
                    if mp_InputPerMtok p = None \<and> mp_OutputPerMtok p = None then (0, False)
                    else ((case mp_InputPerMtok p of None \<Rightarrow> 0 | Some x \<Rightarrow> x) +
                          (case mp_OutputPerMtok p of None \<Rightarrow> 0 | Some x \<Rightarrow> x), True))))"

fun cheapest_loop ::
  "catalog \<Rightarrow> resolved_target list \<Rightarrow> resolved_target \<Rightarrow> rat \<Rightarrow> bool \<Rightarrow> resolved_target" where
  "cheapest_loop cat [] best bestCost bestPriced = best"
| "cheapest_loop cat (t # ts) best bestCost bestPriced =
     (let (cost, priced) = targetCost cat t
      in if \<not> priced then cheapest_loop cat ts best bestCost bestPriced
         else if \<not> bestPriced \<or> cost < bestCost then cheapest_loop cat ts t cost True
         else cheapest_loop cat ts best bestCost bestPriced)"

fun cheapestTarget :: "catalog \<Rightarrow> resolved_target list \<Rightarrow> resolved_target option" where
  "cheapestTarget cat [] = None"
| "cheapestTarget cat (t # ts) =
     (let (cost, priced) = targetCost cat t in Some (cheapest_loop cat ts t cost priced))"

end
