(* ===== verification/VirtualModels.thy ===== *)
theory VirtualModels
  imports Balancer UserPath
begin

text \<open>
  Virtual models: \<open>internal/virtualmodels/types.go\<close>, \<open>validation.go\<close>, \<open>snapshot.go\<close>,
  \<open>authorize.go\<close> and \<open>config.go\<close>.

  A row with targets is a redirect, one without is an access policy. The rows are compiled into
  a snapshot that indexes the redirects by source and the policies by scope; requests read the
  snapshot only. A Go map is an association list. The messages of errors that quote a name with
  \<open>%q\<close> are constructors of \<open>vm_error\<close> that hold the name.
\<close>

section \<open>Rows\<close>

record target =
  tg_Provider :: string
  tg_Model :: string
  tg_Weight :: rat
  tg_FallbackOnly :: bool

definition target_selector :: "target \<Rightarrow> go_error + model_selector" where
  "target_selector t = ParseModelSelector (tg_Model t) (tg_Provider t)"

record virtual_model =
  vm_Source :: string
  vm_Targets :: "target list"
  vm_Strategy :: string
  vm_ProviderName :: string
  vm_Model :: string
  vm_UserPaths :: "string list"
  vm_Description :: string
  vm_Enabled :: bool
  vm_CreatedAt :: go_time
  vm_UpdatedAt :: go_time
  vm_Managed :: bool

definition IsRedirect :: "virtual_model \<Rightarrow> bool" where
  "IsRedirect v \<longleftrightarrow> vm_Targets v \<noteq> []"

definition Kind :: "virtual_model \<Rightarrow> string" where
  "Kind v = (if IsRedirect v then ''redirect'' else ''policy'')"

definition normalizeStrategy :: "string \<Rightarrow> string" where
  "normalizeStrategy strategy0 =
     (let strategy = go_to_lower (go_trim strategy0)
      in if strategy = [] then ''round_robin'' else strategy)"

definition autoStrategy :: "string \<Rightarrow> string" where
  "autoStrategy strategy =
     (let s = normalizeStrategy strategy
      in if s = ''auto'' then ''health_aware''
         else if s = ''auto/fast'' then ''least_used''
         else if s = ''auto/cheap'' then ''cost''
         else s)"

definition validStrategy :: "string \<Rightarrow> bool" where
  "validStrategy strategy \<longleftrightarrow>
     normalizeStrategy strategy \<in>
       set [''round_robin'', ''cost'', ''weighted'', ''random'', ''least_used'', ''health_aware'',
            ''auto'', ''auto/fast'', ''auto/cheap'']"

section \<open>Errors\<close>

datatype vm_error =
    SelectorError validation_error
  | SourceRequired
  | UnknownStrategy string
  | TargetRequired
  | TargetModelRequired
  | NegativeWeight
  | InvalidTarget go_error
  | DuplicateTarget string
  | InvalidUserPath go_error
  | UnknownTargetProvider string "string list"
  | CrossKind string bool
  | TargetsItself string
  | TargetsVirtualModel string
  | TargetNotFound string
  | ManagedSource string
  | AlreadyExists string
  | RowNotFound
  | ReadOnly
  | StoreFailure go_error
  | LoadError string vm_error
  | ListFailed vm_error
  | ValidateFailed vm_error
  | UpsertFailed vm_error
  | DeleteFailed vm_error
  | RestoreFailed string vm_error
  | DeleteOldFailed vm_error "vm_error list"
  | RefreshFailed vm_error "vm_error list"

text \<open>\<open>errors.As\<close> finds a validation error through the wrapping links; a failed rollback is only
  printed, not wrapped.\<close>

fun IsValidationError :: "vm_error \<Rightarrow> bool" where
  "IsValidationError (LoadError s e) = IsValidationError e"
| "IsValidationError (ListFailed e) = IsValidationError e"
| "IsValidationError (ValidateFailed e) = IsValidationError e"
| "IsValidationError (UpsertFailed e) = IsValidationError e"
| "IsValidationError (DeleteFailed e) = IsValidationError e"
| "IsValidationError (RestoreFailed s e) = IsValidationError e"
| "IsValidationError (DeleteOldFailed e r) = IsValidationError e"
| "IsValidationError (RefreshFailed e r) = IsValidationError e"
| "IsValidationError RowNotFound = False"
| "IsValidationError ReadOnly = False"
| "IsValidationError (StoreFailure e) = False"
| "IsValidationError _ = True"

section \<open>Normalisation\<close>

fun user_paths_loop :: "string list \<Rightarrow> string list \<Rightarrow> vm_error + string list" where
  "user_paths_loop normalized [] = Inr normalized"
| "user_paths_loop normalized (raw # raws) =
     (case NormalizeUserPath raw of
        Inl err \<Rightarrow> Inl (InvalidUserPath err)
      | Inr path \<Rightarrow>
          if path = [] \<or> path \<in> set normalized then user_paths_loop normalized raws
          else user_paths_loop (normalized @ [path]) raws)"

definition normalizeUserPaths :: "string list \<Rightarrow> vm_error + string list" where
  "normalizeUserPaths paths = map_sum (\<lambda>e. e) sort (user_paths_loop [] paths)"

fun redirect_targets ::
  "target list \<Rightarrow> string list \<Rightarrow> vm_error + (target list \<times> model_selector list)" where
  "redirect_targets [] seen = Inr ([], [])"
| "redirect_targets (t0 # ts) seen =
     (let t = t0\<lparr>tg_Provider := go_trim (tg_Provider t0), tg_Model := go_trim (tg_Model t0)\<rparr>
      in if tg_Model t = [] then Inl TargetModelRequired
         else if tg_Weight t < 0 then Inl NegativeWeight
         else case target_selector t of
             Inl err \<Rightarrow> Inl (InvalidTarget err)
           | Inr sel \<Rightarrow>
               let q = QualifiedModel sel
               in if q \<in> set seen then Inl (DuplicateTarget q)
                  else case redirect_targets ts (q # seen) of
                      Inl err \<Rightarrow> Inl err
                    | Inr (targets, sels) \<Rightarrow> Inr (t # targets, sel # sels))"

definition normalizeRedirect :: "virtual_model \<Rightarrow> vm_error + (virtual_model \<times> model_selector list)" where
  "normalizeRedirect vm0 =
     (let vm = vm0\<lparr>vm_Source := go_trim (vm_Source vm0), vm_Description := go_trim (vm_Description vm0),
                    vm_Strategy := normalizeStrategy (vm_Strategy vm0)\<rparr>
      in if vm_Source vm = [] then Inl SourceRequired
         else if \<not> validStrategy (vm_Strategy vm) then Inl (UnknownStrategy (vm_Strategy vm))
         else if vm_Targets vm = [] then Inl TargetRequired
         else case redirect_targets (vm_Targets vm) [] of
             Inl err \<Rightarrow> Inl err
           | Inr (targets, sels) \<Rightarrow>
               (case normalizeUserPaths (vm_UserPaths vm) of
                  Inl err \<Rightarrow> Inl err
                | Inr paths \<Rightarrow> Inr (vm\<lparr>vm_Targets := targets, vm_UserPaths := paths\<rparr>, sels)))"

definition with_policy_parts :: "virtual_model \<Rightarrow> selector \<Rightarrow> vm_error + virtual_model" where
  "with_policy_parts vm parts =
     (case normalizeUserPaths (vm_UserPaths vm) of
        Inl err \<Rightarrow> Inl err
      | Inr paths \<Rightarrow>
          Inr (vm\<lparr>vm_Source := sel_Selector parts, vm_ProviderName := sel_ProviderName parts,
                  vm_Model := sel_Model parts, vm_UserPaths := paths\<rparr>))"

definition normalizePolicyInput :: "catalog \<Rightarrow> virtual_model \<Rightarrow> vm_error + virtual_model" where
  "normalizePolicyInput cat vm =
     (case NormalizeInput (cat_ProviderNames cat) (vm_Source vm) of
        Inl err \<Rightarrow> Inl (SelectorError err) | Inr parts \<Rightarrow> with_policy_parts vm parts)"

definition normalizeStoredPolicy :: "virtual_model \<Rightarrow> vm_error + virtual_model" where
  "normalizeStoredPolicy vm =
     (case NormalizeStored (vm_Source vm) (vm_ProviderName vm) (vm_Model vm) of
        Inl err \<Rightarrow> Inl (SelectorError err) | Inr parts \<Rightarrow> with_policy_parts vm parts)"

section \<open>The snapshot\<close>

record redirect_entry =
  re_vm :: virtual_model
  re_targets :: "resolved_target list"
  re_strategy :: string

record vm_snapshot =
  vs_redirects :: "(string \<times> redirect_entry) list"
  vs_order :: "string list"
  vs_bySource :: "(string \<times> virtual_model) list"
  vs_global :: "virtual_model option"
  vs_exact :: "(string \<times> virtual_model) list"
  vs_providerWide :: "(string \<times> virtual_model) list"
  vs_modelWide :: "(string \<times> virtual_model) list"
  vs_defaultEnable :: bool

definition emptySnapshot :: "bool \<Rightarrow> vm_snapshot" where
  "emptySnapshot defaultEnable =
     \<lparr>vs_redirects = [], vs_order = [], vs_bySource = [], vs_global = None, vs_exact = [],
      vs_providerWide = [], vs_modelWide = [], vs_defaultEnable = defaultEnable\<rparr>"

definition representative :: "redirect_entry \<Rightarrow> resolved_target option" where
  "representative e = (case re_targets e of [] \<Rightarrow> None | t # _ \<Rightarrow> Some t)"

definition supportedTargets :: "catalog \<Rightarrow> redirect_entry \<Rightarrow> resolved_target list" where
  "supportedTargets cat e = filter (\<lambda>t. cat_ModelAvailable cat (rt_qualified t)) (re_targets e)"

definition resolve_targets :: "virtual_model \<Rightarrow> model_selector list \<Rightarrow> resolved_target list" where
  "resolve_targets vm sels =
     map2 (\<lambda>sel t. \<lparr>rt_selector = sel, rt_qualified = QualifiedModel sel, rt_weight = tg_Weight t,
                     rt_fallbackOnly = tg_FallbackOnly t\<rparr>) sels (vm_Targets vm)"

definition add_redirect :: "virtual_model \<Rightarrow> model_selector list \<Rightarrow> vm_snapshot \<Rightarrow> vm_snapshot" where
  "add_redirect vm sels s =
     s\<lparr>vs_redirects := AList.update (vm_Source vm)
          \<lparr>re_vm = vm, re_targets = resolve_targets vm sels, re_strategy = vm_Strategy vm\<rparr> (vs_redirects s),
       vs_order := vs_order s @ [vm_Source vm],
       vs_bySource := AList.update (vm_Source vm) vm (vs_bySource s)\<rparr>"

definition add_policy :: "virtual_model \<Rightarrow> vm_snapshot \<Rightarrow> vm_snapshot" where
  "add_policy vm s0 =
     (let s = s0\<lparr>vs_bySource := AList.update (vm_Source vm) vm (vs_bySource s0)\<rparr>
      in case ScopeKindFor (vm_Source vm) (vm_ProviderName vm) (vm_Model vm) of
           ScopeGlobal \<Rightarrow> s\<lparr>vs_global := Some vm\<rparr>
         | ScopeProviderModel \<Rightarrow>
             s\<lparr>vs_exact := AList.update (ExactMatchKey (vm_ProviderName vm) (vm_Model vm)) vm (vs_exact s)\<rparr>
         | ScopeProvider \<Rightarrow> s\<lparr>vs_providerWide := AList.update (vm_ProviderName vm) vm (vs_providerWide s)\<rparr>
         | ScopeModel \<Rightarrow> s\<lparr>vs_modelWide := AList.update (vm_Model vm) vm (vs_modelWide s)\<rparr>)"

fun load_rows :: "virtual_model list \<Rightarrow> vm_snapshot \<Rightarrow> vm_error + vm_snapshot" where
  "load_rows [] s = Inr s"
| "load_rows (row # rows) s =
     (if IsRedirect row
      then case normalizeRedirect row of
          Inl err \<Rightarrow> Inl (LoadError (vm_Source row) err)
        | Inr (vm, sels) \<Rightarrow> load_rows rows (add_redirect vm sels s)
      else case normalizeStoredPolicy row of
          Inl err \<Rightarrow> Inl (LoadError (vm_Source row) err)
        | Inr vm \<Rightarrow> load_rows rows (add_policy vm s))"

definition buildSnapshot :: "virtual_model list \<Rightarrow> bool \<Rightarrow> vm_error + vm_snapshot" where
  "buildSnapshot rows defaultEnable =
     map_sum (\<lambda>e. e) (\<lambda>s. s\<lparr>vs_order := sort (vs_order s)\<rparr>)
       (load_rows rows (emptySnapshot defaultEnable))"

definition snapshot_rows :: "vm_snapshot \<Rightarrow> virtual_model list" where
  "snapshot_rows s = map (\<lambda>k. the (map_of (vs_bySource s) k)) (sort (map fst (vs_bySource s)))"

definition empty_vm :: virtual_model where
  "empty_vm =
     \<lparr>vm_Source = [], vm_Targets = [], vm_Strategy = [], vm_ProviderName = [], vm_Model = [],
      vm_UserPaths = [], vm_Description = [], vm_Enabled = False, vm_CreatedAt = 0, vm_UpdatedAt = 0,
      vm_Managed = False\<rparr>"

definition lookupCanonicalSource :: "vm_snapshot \<Rightarrow> string \<Rightarrow> (virtual_model \<times> string) option" where
  "lookupCanonicalSource s source0 =
     (let source = go_trim source0
      in case map_of (vs_bySource s) source of
           Some vm \<Rightarrow> Some (vm, source)
         | None \<Rightarrow>
             (case normalizeStoredPolicy (empty_vm\<lparr>vm_Source := source\<rparr>) of
                Inl _ \<Rightarrow> None
              | Inr parts \<Rightarrow>
                  (case map_of (vs_bySource s) (vm_Source parts) of
                     None \<Rightarrow> None | Some vm \<Rightarrow> Some (vm, vm_Source parts))))"

section \<open>Access\<close>

definition userPathAllowed :: "string \<Rightarrow> string list \<Rightarrow> bool" where
  "userPathAllowed userPath0 allowed =
     (if allowed = [] then True
      else if binary_search allowed ''/'' then True
      else case NormalizeUserPath userPath0 of
          Inl _ \<Rightarrow> False
        | Inr userPath \<Rightarrow>
            if userPath = [] then False
            else list_ex (binary_search allowed) (UserPathAncestors userPath))"

definition findRedirect :: "vm_snapshot \<Rightarrow> string \<Rightarrow> string \<Rightarrow> bool \<Rightarrow> redirect_entry option" where
  "findRedirect s name0 userPath enforceUserPaths =
     (let name = go_trim name0
      in if name = [] then None
         else case map_of (vs_redirects s) name of
             None \<Rightarrow> None
           | Some entry \<Rightarrow>
               if \<not> vm_Enabled (re_vm entry) then None
               else if enforceUserPaths \<and> vm_UserPaths (re_vm entry) \<noteq> [] \<and>
                       \<not> userPathAllowed userPath (vm_UserPaths (re_vm entry)) then None
               else Some entry)"

record vm_resolution =
  vr_Requested :: model_selector
  vr_Resolved :: model_selector
  vr_Source :: string

definition resolveRedirect ::
  "vm_snapshot \<Rightarrow> string \<Rightarrow> catalog \<Rightarrow> string \<Rightarrow> bool \<Rightarrow> vm_resolution \<times> bool" where
  "resolveRedirect s name0 cat userPath enforceUserPaths =
     (let name = go_trim name0; sel = \<lparr>ms_Model = name, ms_Provider = []\<rparr>;
          resolution = \<lparr>vr_Requested = sel, vr_Resolved = sel, vr_Source = []\<rparr>
      in case findRedirect s name userPath enforceUserPaths of
           None \<Rightarrow> (resolution, False)
         | Some entry \<Rightarrow>
             (case supportedTargets cat entry of
                [] \<Rightarrow> (resolution, False)
              | t # _ \<Rightarrow> (resolution\<lparr>vr_Resolved := rt_selector t, vr_Source := vm_Source (re_vm entry)\<rparr>, True)))"

definition matchingPolicy :: "vm_snapshot \<Rightarrow> string \<Rightarrow> string \<Rightarrow> virtual_model option" where
  "matchingPolicy s providerName model =
     (let key = ExactMatchKey providerName model
      in if key \<noteq> [] \<and> map_of (vs_exact s) key \<noteq> None then map_of (vs_exact s) key
         else if providerName \<noteq> [] \<and> map_of (vs_providerWide s) providerName \<noteq> None
         then map_of (vs_providerWide s) providerName
         else if model \<noteq> [] \<and> map_of (vs_modelWide s) model \<noteq> None then map_of (vs_modelWide s) model
         else vs_global s)"

record effective_state =
  es_Selector :: string
  es_ProviderName :: string
  es_Model :: string
  es_DefaultEnabled :: bool
  es_Enabled :: bool
  es_UserPaths :: "string list"

definition effectiveState :: "vm_snapshot \<Rightarrow> model_selector \<Rightarrow> effective_state" where
  "effectiveState s sel =
     (let model = go_trim (ms_Model sel); providerName = go_trim (ms_Provider sel);
          state = \<lparr>es_Selector = sel_String providerName model, es_ProviderName = providerName,
                   es_Model = model, es_DefaultEnabled = vs_defaultEnable s,
                   es_Enabled = vs_defaultEnable s, es_UserPaths = []\<rparr>
      in if model = [] \<and> providerName = [] then state
         else case matchingPolicy s providerName model of
             None \<Rightarrow> state
           | Some rule \<Rightarrow> state\<lparr>es_Enabled := vm_Enabled rule, es_UserPaths := vm_UserPaths rule\<rparr>)"

text \<open>The request's user path is what the context holds.\<close>

definition AllowsModel :: "vm_snapshot \<Rightarrow> string \<Rightarrow> model_selector \<Rightarrow> bool" where
  "AllowsModel s userPath sel =
     (let state = effectiveState s sel
      in if \<not> es_Enabled state then False
         else if es_UserPaths state = [] then True
         else userPathAllowed userPath (es_UserPaths state))"

definition access_denied :: "string \<Rightarrow> go_error" where
  "access_denied message = WithCode ''model_access_denied'' (NewInvalidRequestErrorWithStatus 400 message None)"

definition ValidateModelAccess :: "vm_snapshot \<Rightarrow> string \<Rightarrow> model_selector \<Rightarrow> go_error option" where
  "ValidateModelAccess s userPath sel =
     (let state = effectiveState s sel
      in if \<not> es_Enabled state then Some (access_denied ''requested model is not available'')
         else if es_UserPaths state = [] then None
         else if userPathAllowed userPath (es_UserPaths state) then None
         else Some (access_denied ''requested model is not available for this API key''))"

definition FilterPublicModels :: "vm_snapshot \<Rightarrow> string \<Rightarrow> core_model list \<Rightarrow> core_model list" where
  "FilterPublicModels s userPath models =
     filter (\<lambda>m. case ParseModelSelector (cm_ID m) [] of
                   Inl _ \<Rightarrow> False | Inr sel \<Rightarrow> AllowsModel s userPath sel) models"

section \<open>Declared rows\<close>

record vm_target_config =
  tc_Provider :: string
  tc_Model :: string
  tc_Weight :: rat

record vm_config =
  vc_Source :: string
  vc_Strategy :: string
  vc_Target :: string
  vc_Targets :: "vm_target_config list"
  vc_UserPaths :: "string list"
  vc_Description :: string
  vc_Enabled :: "bool option"

definition configTargets :: "vm_config \<Rightarrow> target list" where
  "configTargets entry =
     (if vc_Targets entry \<noteq> []
      then map (\<lambda>t. \<lparr>tg_Provider = tc_Provider t, tg_Model = tc_Model t, tg_Weight = tc_Weight t,
                     tg_FallbackOnly = False\<rparr>) (vc_Targets entry)
      else if go_trim (vc_Target entry) \<noteq> []
      then [\<lparr>tg_Provider = [], tg_Model = vc_Target entry, tg_Weight = 0, tg_FallbackOnly = False\<rparr>]
      else [])"

definition configModel :: "vm_config \<Rightarrow> virtual_model" where
  "configModel entry =
     empty_vm\<lparr>vm_Source := vc_Source entry, vm_Strategy := vc_Strategy entry,
       vm_Targets := configTargets entry, vm_UserPaths := vc_UserPaths entry,
       vm_Description := vc_Description entry,
       vm_Enabled := (case vc_Enabled entry of None \<Rightarrow> True | Some e \<Rightarrow> e), vm_Managed := True\<rparr>"

definition ConfigModels :: "vm_config list \<Rightarrow> virtual_model list" where
  "ConfigModels entries = map configModel entries"

end
