(* ===== verification/VMService.thy ===== *)
theory VMService
  imports VirtualModels
begin

text \<open>
  The virtual model service: \<open>internal/virtualmodels/service.go\<close>, \<open>resolve.go\<close>,
  \<open>redirect_rewrite.go\<close>, \<open>factory.go\<close> and \<open>balancedResolution\<close> of \<open>balancer.go\<close>.

  The row store is an interface of the code; it is the record \<open>vm_store\<close> of functions over a
  store state \<open>'st\<close>, which may fail. The production store is \<open>readOnlyConfigStore\<close>. Writes hold
  \<open>refreshMu\<close>, so each is one step. What a request's resolution reads besides the snapshot, the
  catalog and the counters is the record \<open>balance_env\<close>: the capacity probe, the health snapshots,
  the clock and the random sources. A panic of an index expression is \<open>None\<close>.
\<close>

section \<open>State\<close>

record 'st vm_store =
  vst_List :: "'st \<Rightarrow> (vm_error + virtual_model list) \<times> 'st"
  vst_Upsert :: "virtual_model \<Rightarrow> 'st \<Rightarrow> vm_error option \<times> 'st"
  vst_Delete :: "string \<Rightarrow> 'st \<Rightarrow> vm_error option \<times> 'st"

record vm_service =
  sv_defaultEnabled :: bool
  sv_configModels :: "virtual_model list"
  sv_balancer :: round_robin
  sv_current :: vm_snapshot
  sv_leastUsed :: least_used

definition NewService :: "bool \<Rightarrow> vm_service" where
  "NewService defaultEnabled =
     \<lparr>sv_defaultEnabled = defaultEnabled, sv_configModels = [], sv_balancer = Map.empty,
      sv_current = emptySnapshot defaultEnabled,
      sv_leastUsed = \<lparr>lu_inFlight = Map.empty, lu_counter = 0\<rparr>\<rparr>"

definition readOnlyConfigStore :: "unit vm_store" where
  "readOnlyConfigStore =
     \<lparr>vst_List = (\<lambda>st. (Inr [], st)), vst_Upsert = (\<lambda>vm st. (Some ReadOnly, st)),
      vst_Delete = (\<lambda>source st. (Some ReadOnly, st))\<rparr>"

section \<open>Refresh\<close>

definition isManagedSource :: "vm_service \<Rightarrow> string \<Rightarrow> bool" where
  "isManagedSource s source \<longleftrightarrow>
     list_ex (\<lambda>m. go_trim (vm_Source m) = go_trim source) (sv_configModels s)"

definition SetConfigModels :: "virtual_model list \<Rightarrow> vm_service \<Rightarrow> vm_service" where
  "SetConfigModels models s = s\<lparr>sv_configModels := map (\<lambda>m. m\<lparr>vm_Managed := True\<rparr>) models\<rparr>"

definition mergeConfigModels :: "vm_service \<Rightarrow> virtual_model list \<Rightarrow> virtual_model list" where
  "mergeConfigModels s stored =
     (if sv_configModels s = [] then stored
      else filter (\<lambda>row. \<not> isManagedSource s (vm_Source row)) stored @ sv_configModels s)"

definition refreshLocked ::
  "'st vm_store \<Rightarrow> vm_service \<Rightarrow> 'st \<Rightarrow> vm_error option \<times> vm_service \<times> 'st" where
  "refreshLocked store s st =
     (case vst_List store st of
        (Inl err, st) \<Rightarrow> (Some (ListFailed err), s, st)
      | (Inr rows, st) \<Rightarrow>
          (case buildSnapshot (mergeConfigModels s rows) (sv_defaultEnabled s) of
             Inl err \<Rightarrow> (Some err, s, st)
           | Inr next' \<Rightarrow>
               (None, s\<lparr>sv_current := next',
                        sv_balancer := rr_prune (map fst (vs_redirects next')) (sv_balancer s)\<rparr>, st)))"

section \<open>Validation of redirects\<close>

definition providerNameSet :: "string list \<Rightarrow> string list" where
  "providerNameSet names = filter (\<lambda>n. n \<noteq> []) (map go_trim names)"

definition unknownTargetProviderError :: "string \<Rightarrow> string list \<Rightarrow> vm_error" where
  "unknownTargetProviderError provider registered =
     UnknownTargetProvider provider (sort (providerNameSet registered))"

fun validateTargetProviders :: "catalog \<Rightarrow> target list \<Rightarrow> string list \<Rightarrow> vm_error option" where
  "validateTargetProviders cat [] declared = None"
| "validateTargetProviders cat (t # ts) declared =
     (let name = go_trim (tg_Provider t)
      in if name = [] \<or> name \<in> set (providerNameSet (cat_ProviderNames cat)) \<or> name \<in> set declared
         then validateTargetProviders cat ts declared
         else Some (unknownTargetProviderError name (cat_ProviderNames cat)))"

fun structure_loop :: "vm_snapshot \<Rightarrow> string \<Rightarrow> target list \<Rightarrow> vm_error option" where
  "structure_loop current source [] = None"
| "structure_loop current source (t # ts) =
     (case target_selector t of
        Inl err \<Rightarrow> Some (InvalidTarget err)
      | Inr sel \<Rightarrow>
          let qualified = QualifiedModel sel
          in if source = qualified then Some (TargetsItself source)
             else case map_of (vs_redirects current) qualified of
                 Some existing \<Rightarrow>
                   if vm_Source (re_vm existing) \<noteq> source then Some (TargetsVirtualModel qualified)
                   else structure_loop current source ts
               | None \<Rightarrow> structure_loop current source ts)"

definition validateRedirectStructure :: "vm_snapshot \<Rightarrow> virtual_model \<Rightarrow> vm_error option" where
  "validateRedirectStructure current vm =
     (if \<not> IsRedirect vm then None else structure_loop current (vm_Source vm) (vm_Targets vm))"

fun firstUnsupportedTarget :: "catalog \<Rightarrow> target list \<Rightarrow> string option" where
  "firstUnsupportedTarget cat [] = None"
| "firstUnsupportedTarget cat (t # ts) =
     (case target_selector t of
        Inl _ \<Rightarrow> firstUnsupportedTarget cat ts
      | Inr sel \<Rightarrow>
          if \<not> cat_Supports cat (QualifiedModel sel) then Some (QualifiedModel sel)
          else firstUnsupportedTarget cat ts)"

definition validateRedirectTarget :: "catalog \<Rightarrow> vm_snapshot \<Rightarrow> virtual_model \<Rightarrow> vm_error option" where
  "validateRedirectTarget cat current vm =
     (case validateRedirectStructure current vm of
        Some err \<Rightarrow> Some err
      | None \<Rightarrow>
          (case validateTargetProviders cat (vm_Targets vm) [] of
             Some err \<Rightarrow> Some err
           | None \<Rightarrow> map_option TargetNotFound (firstUnsupportedTarget cat (vm_Targets vm))))"

text \<open>The rows are checked in the iteration order of the map, which the list order stands for.\<close>

fun managed_loop :: "catalog \<Rightarrow> vm_snapshot \<Rightarrow> string list \<Rightarrow> virtual_model list \<Rightarrow> vm_error option" where
  "managed_loop cat current declared [] = None"
| "managed_loop cat current declared (vm # vms) =
     (if \<not> vm_Managed vm \<or> \<not> IsRedirect vm then managed_loop cat current declared vms
      else case validateRedirectStructure current vm of
          Some err \<Rightarrow> Some (LoadError (vm_Source vm) err)
        | None \<Rightarrow>
            (case validateTargetProviders cat (vm_Targets vm) declared of
               Some err \<Rightarrow> Some (LoadError (vm_Source vm) err)
             | None \<Rightarrow> managed_loop cat current declared vms))"

definition ValidateManagedConfig :: "catalog \<Rightarrow> vm_service \<Rightarrow> string list \<Rightarrow> vm_error option" where
  "ValidateManagedConfig cat s declaredProviders =
     managed_loop cat (sv_current s) (providerNameSet declaredProviders)
       (map snd (vs_bySource (sv_current s)))"

text \<open>\<open>factory.go\<close>: the production service.\<close>

definition vm_New :: "bool \<Rightarrow> vm_config list \<Rightarrow> catalog \<Rightarrow> string list \<Rightarrow> vm_error + vm_service" where
  "vm_New enabledByDefault entries cat declaredProviders =
     (case refreshLocked readOnlyConfigStore
             (SetConfigModels (ConfigModels entries) (NewService enabledByDefault)) () of
        (Some err, _) \<Rightarrow> Inl err
      | (None, s, _) \<Rightarrow>
          (case ValidateManagedConfig cat s declaredProviders of Some err \<Rightarrow> Inl err | None \<Rightarrow> Inr s))"

section \<open>Administrative writes\<close>

definition normalizeForUpsert :: "catalog \<Rightarrow> virtual_model \<Rightarrow> vm_error + virtual_model" where
  "normalizeForUpsert cat vm =
     (if IsRedirect vm then map_sum (\<lambda>e. e) fst (normalizeRedirect vm) else normalizePolicyInput cat vm)"

definition ensureSourceKind :: "vm_snapshot \<Rightarrow> string \<Rightarrow> bool \<Rightarrow> vm_error option" where
  "ensureSourceKind current source wantRedirect =
     (case map_of (vs_bySource current) source of
        None \<Rightarrow> None
      | Some existing \<Rightarrow> if IsRedirect existing = wantRedirect then None else Some (CrossKind source wantRedirect))"

fun upsertRow :: "virtual_model list \<Rightarrow> virtual_model \<Rightarrow> virtual_model list" where
  "upsertRow [] next' = [next']"
| "upsertRow (row # rows) next' =
     (if vm_Source row = vm_Source next' then next' # rows else row # upsertRow rows next')"

definition removeRow :: "virtual_model list \<Rightarrow> string \<Rightarrow> virtual_model list" where
  "removeRow rows source = filter (\<lambda>row. vm_Source row \<noteq> source) rows"

text \<open>\<open>restore\<close> tries every entry and joins the errors.\<close>

fun restore ::
  "'st vm_store \<Rightarrow> (string \<times> virtual_model option) list \<Rightarrow> 'st \<Rightarrow> vm_error list \<times> 'st" where
  "restore store [] st = ([], st)"
| "restore store ((source, row) # prior) st =
     (let (err, st) =
            (case row of
               None \<Rightarrow>
                 (case vst_Delete store source st of
                    (Some RowNotFound, st) \<Rightarrow> (None, st)
                  | (err, st) \<Rightarrow> (err, st))
             | Some vm \<Rightarrow> vst_Upsert store vm st);
          (errs, st) = restore store prior st
      in ((case err of None \<Rightarrow> errs | Some e \<Rightarrow> RestoreFailed source e # errs), st))"

definition commitRefresh ::
  "'st vm_store \<Rightarrow> (string \<times> virtual_model option) list \<Rightarrow> vm_service \<Rightarrow> 'st \<Rightarrow>
   vm_error option \<times> vm_service \<times> 'st" where
  "commitRefresh store prior s st =
     (case refreshLocked store s st of
        (None, s, st) \<Rightarrow> (None, s, st)
      | (Some err, s, st) \<Rightarrow>
          let (errs, st) = restore store prior st in (Some (RefreshFailed err errs), s, st))"

definition Upsert ::
  "'st vm_store \<Rightarrow> catalog \<Rightarrow> virtual_model \<Rightarrow> vm_service \<Rightarrow> 'st \<Rightarrow> vm_error option \<times> vm_service \<times> 'st" where
  "Upsert store cat vm s st =
     (case normalizeForUpsert cat vm of
        Inl err \<Rightarrow> (Some err, s, st)
      | Inr normalized \<Rightarrow>
          let source = vm_Source normalized; current = sv_current s
          in if isManagedSource s source \<or> isManagedSource s (vm_Source vm)
             then (Some (ManagedSource source), s, st)
             else case ensureSourceKind current source (IsRedirect normalized) of
                 Some err \<Rightarrow> (Some err, s, st)
               | None \<Rightarrow>
                   (case validateRedirectTarget cat current normalized of
                      Some err \<Rightarrow> (Some err, s, st)
                    | None \<Rightarrow>
                        (case buildSnapshot (upsertRow (snapshot_rows current) normalized) (sv_defaultEnabled s) of
                           Inl err \<Rightarrow> (Some (ValidateFailed err), s, st)
                         | Inr _ \<Rightarrow>
                             (case vst_Upsert store normalized st of
                                (Some err, st) \<Rightarrow> (Some (UpsertFailed err), s, st)
                              | (None, st) \<Rightarrow>
                                  commitRefresh store [(source, map_of (vs_bySource current) source)] s st))))"

definition Rename ::
  "'st vm_store \<Rightarrow> catalog \<Rightarrow> string \<Rightarrow> virtual_model \<Rightarrow> vm_service \<Rightarrow> 'st \<Rightarrow>
   vm_error option \<times> vm_service \<times> 'st" where
  "Rename store cat oldSource0 vm s st =
     (let oldSource = go_trim oldSource0
      in if oldSource = [] then (Some SourceRequired, s, st)
         else case normalizeForUpsert cat vm of
             Inl err \<Rightarrow> (Some err, s, st)
           | Inr normalized \<Rightarrow>
               let source = vm_Source normalized; current = sv_current s
               in if source = oldSource then Upsert store cat vm s st
                  else if isManagedSource s oldSource \<or> isManagedSource s source \<or> isManagedSource s (vm_Source vm)
                  then (Some (ManagedSource source), s, st)
                  else case map_of (vs_bySource current) oldSource of
                      None \<Rightarrow> (Some RowNotFound, s, st)
                    | Some previous \<Rightarrow>
                        if map_of (vs_bySource current) source \<noteq> None then (Some (AlreadyExists source), s, st)
                        else case validateRedirectTarget cat current normalized of
                            Some err \<Rightarrow> (Some err, s, st)
                          | None \<Rightarrow>
                              (case buildSnapshot (upsertRow (removeRow (snapshot_rows current) oldSource) normalized)
                                      (sv_defaultEnabled s) of
                                 Inl err \<Rightarrow> (Some (ValidateFailed err), s, st)
                               | Inr _ \<Rightarrow>
                                   (case vst_Upsert store normalized st of
                                      (Some err, st) \<Rightarrow> (Some (UpsertFailed err), s, st)
                                    | (None, st) \<Rightarrow>
                                        let prior = [(source, None), (oldSource, Some previous)]
                                        in case vst_Delete store oldSource st of
                                             (Some err, st) \<Rightarrow>
                                               let (errs, st) = restore store prior st
                                               in (Some (DeleteOldFailed err errs), s, st)
                                           | (None, st) \<Rightarrow> commitRefresh store prior s st)))"

definition vm_Delete ::
  "'st vm_store \<Rightarrow> string \<Rightarrow> vm_service \<Rightarrow> 'st \<Rightarrow> vm_error option \<times> vm_service \<times> 'st" where
  "vm_Delete store source0 s st =
     (let source = go_trim source0
      in if source = [] then (Some SourceRequired, s, st)
         else case lookupCanonicalSource (sv_current s) source of
             None \<Rightarrow> (Some RowNotFound, s, st)
           | Some (previous, canonical) \<Rightarrow>
               if vm_Managed previous \<or> isManagedSource s canonical
               then (Some (ManagedSource canonical), s, st)
               else case vst_Delete store canonical st of
                   (Some RowNotFound, st) \<Rightarrow> (Some RowNotFound, s, st)
                 | (Some err, st) \<Rightarrow> (Some (DeleteFailed err), s, st)
                 | (None, st) \<Rightarrow> commitRefresh store [(canonical, Some previous)] s st)"

definition vm_Get :: "vm_service \<Rightarrow> string \<Rightarrow> virtual_model option" where
  "vm_Get s source = map_option fst (lookupCanonicalSource (sv_current s) source)"

definition ResolveUpsertEnabled :: "vm_service \<Rightarrow> string \<Rightarrow> string \<Rightarrow> bool option \<Rightarrow> bool" where
  "ResolveUpsertEnabled s source oldSource requested =
     (case requested of
        Some b \<Rightarrow> b
      | None \<Rightarrow>
          (case vm_Get s source of
             Some existing \<Rightarrow> vm_Enabled existing
           | None \<Rightarrow>
               (case (if go_trim oldSource = [] then None else vm_Get s (go_trim oldSource)) of
                  Some existing \<Rightarrow> vm_Enabled existing | None \<Rightarrow> True)))"

section \<open>Resolution\<close>

record balance_env =
  be_capacity :: "(string \<Rightarrow> bool) option"
  be_health :: "health_snapshot list"
  be_now :: go_time
  be_draw :: rat
  be_index :: "nat option"

definition targetsWithCapacity :: "balance_env \<Rightarrow> resolved_target list \<Rightarrow> resolved_target list" where
  "targetsWithCapacity env targets =
     (case be_capacity env of None \<Rightarrow> targets | Some cap \<Rightarrow> filter (\<lambda>t. cap (rt_qualified t)) targets)"

text \<open>\<open>viable[index].selector\<close>.\<close>

definition pick :: "resolved_target list \<Rightarrow> nat \<Rightarrow> model_selector option" where
  "pick viable i = (if i < length viable then Some (rt_selector (viable ! i)) else None)"

definition target_pool :: "catalog \<Rightarrow> redirect_entry \<Rightarrow> resolved_target list" where
  "target_pool cat entry =
     (let supported = supportedTargets cat entry;
          fallback = filter rt_fallbackOnly supported;
          primary = filter (\<lambda>t. \<not> rt_fallbackOnly t) supported
      in if primary = [] then fallback else primary)"

definition viable_targets :: "balance_env \<Rightarrow> resolved_target list \<Rightarrow> resolved_target list" where
  "viable_targets env pool =
     (let viable = targetsWithCapacity env pool in if viable = [] then take 1 pool else viable)"

definition strategy_choice ::
  "catalog \<Rightarrow> balance_env \<Rightarrow> redirect_entry \<Rightarrow> resolved_target list \<Rightarrow> vm_service \<Rightarrow>
   (model_selector \<times> vm_service) option" where
  "strategy_choice cat env entry viable s =
     (let strategy = autoStrategy (re_strategy entry)
      in if strategy = ''cost''
         then map_option (\<lambda>t. (rt_selector t, s)) (cheapestTarget cat viable)
         else if strategy = ''weighted''
         then map_option (\<lambda>sel. (sel, s)) (pick viable (weighted_NextTarget viable (be_draw env)))
         else if strategy = ''random''
         then map_option (\<lambda>sel. (sel, s)) (pick viable (random_NextTarget viable (be_index env)))
         else if strategy = ''least_used''
         then (case least_NextTarget viable (sv_leastUsed s) of
                 (None, b) \<Rightarrow> None
               | (Some i, b) \<Rightarrow> map_option (\<lambda>sel. (sel, s\<lparr>sv_leastUsed := b\<rparr>)) (pick viable i))
         else if strategy = ''health_aware''
         then map_option (\<lambda>sel. (sel, s))
                (pick viable (fst (health_NextTarget (be_health env) (be_now env) (be_draw env) viable None)))
         else
           let (counter, r) = rr_next (vm_Source (re_vm entry)) (sv_balancer s)
           in map_option (\<lambda>sel. (sel, s\<lparr>sv_balancer := r\<rparr>)) (pick viable (weightedIndex viable counter)))"

text \<open>The result of \<open>balancedResolution\<close> is the chosen selector if a target is available.\<close>

definition balancedResolution ::
  "catalog \<Rightarrow> balance_env \<Rightarrow> redirect_entry \<Rightarrow> vm_service \<Rightarrow> (model_selector option \<times> vm_service) option" where
  "balancedResolution cat env entry s =
     (let pool = target_pool cat entry
      in if pool = [] then Some (None, s)
         else case viable_targets env pool of
             [t] \<Rightarrow> Some (Some (rt_selector t), s)
           | viable \<Rightarrow> map_option (map_prod Some (\<lambda>s. s)) (strategy_choice cat env entry viable s))"

definition resolveRequested ::
  "catalog \<Rightarrow> balance_env \<Rightarrow> requested_selector \<Rightarrow> string \<Rightarrow> bool \<Rightarrow> vm_service \<Rightarrow>
   ((go_error + vm_resolution \<times> bool) \<times> vm_service) option" where
  "resolveRequested cat env requested userPath enforceUserPaths s =
     (case Normalize requested of
        Inl err \<Rightarrow> Some (Inl err, s)
      | Inr sel \<Rightarrow>
          let literal = (\<lparr>vr_Requested = sel, vr_Resolved = sel, vr_Source = []\<rparr>, False)
          in if rs_ExplicitProvider requested then Some (Inr literal, s)
             else case findRedirect (sv_current s) (rs_Model requested) userPath enforceUserPaths of
                 None \<Rightarrow> Some (Inr literal, s)
               | Some entry \<Rightarrow>
                   (case balancedResolution cat env entry s of
                      None \<Rightarrow> None
                    | Some (None, s) \<Rightarrow> Some (Inr literal, s)
                    | Some (Some resolved, s) \<Rightarrow>
                        Some (Inr (\<lparr>vr_Requested = sel, vr_Resolved = resolved,
                                    vr_Source = vm_Source (re_vm entry)\<rparr>, True), s)))"

definition vm_Resolve ::
  "catalog \<Rightarrow> balance_env \<Rightarrow> string \<Rightarrow> string \<Rightarrow> vm_service \<Rightarrow>
   ((go_error + vm_resolution \<times> bool) \<times> vm_service) option" where
  "vm_Resolve cat env model provider s =
     resolveRequested cat env (NewRequestedModelSelector model provider) [] False s"

definition resolved_of :: "go_error + vm_resolution \<times> bool \<Rightarrow> go_error + model_selector \<times> bool" where
  "resolved_of r = map_sum (\<lambda>e. e) (\<lambda>(res, changed). (vr_Resolved res, changed)) r"

definition vm_ResolveModel ::
  "catalog \<Rightarrow> balance_env \<Rightarrow> requested_selector \<Rightarrow> vm_service \<Rightarrow>
   ((go_error + model_selector \<times> bool) \<times> vm_service) option" where
  "vm_ResolveModel cat env requested s =
     map_option (map_prod resolved_of (\<lambda>s. s)) (resolveRequested cat env requested [] False s)"

definition ResolveModelForUserPath ::
  "catalog \<Rightarrow> balance_env \<Rightarrow> string \<Rightarrow> requested_selector \<Rightarrow> vm_service \<Rightarrow>
   ((go_error + model_selector \<times> bool) \<times> vm_service) option" where
  "ResolveModelForUserPath cat env userPath requested s =
     map_option (map_prod resolved_of (\<lambda>s. s)) (resolveRequested cat env requested userPath True s)"

definition ResolveRefreshTarget :: "vm_service \<Rightarrow> requested_selector \<Rightarrow> model_selector option" where
  "ResolveRefreshTarget s requested =
     (let name = go_trim (rs_Model requested)
      in if rs_ExplicitProvider requested \<or> name = [] then None
         else case map_of (vs_redirects (sv_current s)) name of
             None \<Rightarrow> None
           | Some entry \<Rightarrow>
               if \<not> vm_Enabled (re_vm entry) then None else map_option rt_selector (representative entry))"

definition vm_Supports :: "catalog \<Rightarrow> vm_service \<Rightarrow> string \<Rightarrow> bool" where
  "vm_Supports cat s model = snd (resolveRedirect (sv_current s) model cat [] False)"

definition vm_GetProviderType :: "catalog \<Rightarrow> vm_service \<Rightarrow> string \<Rightarrow> string" where
  "vm_GetProviderType cat s model =
     (case resolveRedirect (sv_current s) model cat [] False of
        (r, True) \<Rightarrow> go_trim (cat_GetProviderType cat (QualifiedModel (vr_Resolved r)))
      | (r, False) \<Rightarrow> [])"

definition representativeExposedTarget ::
  "resolved_target list \<Rightarrow> (model_selector \<Rightarrow> bool) option \<Rightarrow> resolved_target option" where
  "representativeExposedTarget supported allow =
     List.find (\<lambda>t. case allow of None \<Rightarrow> True | Some f \<Rightarrow> f (rt_selector t)) supported"

definition exposed_entry ::
  "catalog \<Rightarrow> string \<Rightarrow> bool \<Rightarrow> (model_selector \<Rightarrow> bool) option \<Rightarrow> redirect_entry \<Rightarrow> core_model option" where
  "exposed_entry cat userPath enforceUserPaths allow entry =
     (if \<not> vm_Enabled (re_vm entry) then None
      else if enforceUserPaths \<and> vm_UserPaths (re_vm entry) \<noteq> [] \<and>
              \<not> userPathAllowed userPath (vm_UserPaths (re_vm entry)) then None
      else case representativeExposedTarget (supportedTargets cat entry) allow of
          None \<Rightarrow> None
        | Some chosen \<Rightarrow>
            map_option (\<lambda>m. m\<lparr>cm_ID := vm_Source (re_vm entry)\<rparr>) (cat_LookupModel cat (rt_qualified chosen)))"

definition exposedModels ::
  "catalog \<Rightarrow> vm_service \<Rightarrow> string \<Rightarrow> bool \<Rightarrow> (model_selector \<Rightarrow> bool) option \<Rightarrow> core_model list" where
  "exposedModels cat s userPath enforceUserPaths allow =
     sort_key cm_ID
       (List.map_filter
          (\<lambda>source. case map_of (vs_redirects (sv_current s)) source of
             None \<Rightarrow> None | Some entry \<Rightarrow> exposed_entry cat userPath enforceUserPaths allow entry)
          (vs_order (sv_current s)))"

definition ExposedModels :: "catalog \<Rightarrow> vm_service \<Rightarrow> core_model list" where
  "ExposedModels cat s = exposedModels cat s [] False None"

definition ExposedModelsFiltered :: "catalog \<Rightarrow> vm_service \<Rightarrow> (model_selector \<Rightarrow> bool) \<Rightarrow> core_model list" where
  "ExposedModelsFiltered cat s allow = exposedModels cat s [] False (Some allow)"

definition ExposedModelsForUserPath ::
  "catalog \<Rightarrow> vm_service \<Rightarrow> string \<Rightarrow> (model_selector \<Rightarrow> bool) \<Rightarrow> core_model list" where
  "ExposedModelsForUserPath cat s userPath allow = exposedModels cat s userPath True (Some allow)"

section \<open>The administrative view\<close>

fun view_resolution :: "catalog \<Rightarrow> target list \<Rightarrow> string \<Rightarrow> string \<Rightarrow> string \<times> string \<times> bool" where
  "view_resolution cat [] resolved providerType = (resolved, providerType, False)"
| "view_resolution cat (t # ts) resolved providerType =
     (case target_selector t of
        Inl _ \<Rightarrow> view_resolution cat ts resolved providerType
      | Inr sel \<Rightarrow>
          let qualified = QualifiedModel sel
          in if cat_ModelAvailable cat qualified
             then (qualified, go_trim (cat_GetProviderType cat qualified), True)
             else if resolved = []
             then view_resolution cat ts qualified (go_trim (cat_GetProviderType cat qualified))
             else view_resolution cat ts resolved providerType)"

record vm_view =
  vv_row :: virtual_model
  vv_Kind :: string
  vv_ResolvedModel :: string
  vv_ProviderType :: string
  vv_Valid :: bool
  vv_ScopeKind :: "scope_kind option"

definition ListViews :: "catalog \<Rightarrow> vm_service \<Rightarrow> vm_view list" where
  "ListViews cat s =
     map (\<lambda>vm.
       if IsRedirect vm
       then let (r, p, v) = view_resolution cat (vm_Targets vm) [] []
            in \<lparr>vv_row = vm, vv_Kind = Kind vm, vv_ResolvedModel = r, vv_ProviderType = p, vv_Valid = v,
                vv_ScopeKind = None\<rparr>
       else \<lparr>vv_row = vm, vv_Kind = Kind vm, vv_ResolvedModel = [], vv_ProviderType = [], vv_Valid = False,
             vv_ScopeKind = Some (ScopeKindFor (vm_Source vm) (vm_ProviderName vm) (vm_Model vm))\<rparr>)
       (snapshot_rows (sv_current s))"

section \<open>Rewriting a chat request\<close>

text \<open>\<open>strconv.Quote\<close> on ASCII text; the bytes of other runes are left as they are.\<close>

definition hex_digit :: "nat \<Rightarrow> char" where
  "hex_digit n = char_of (if n < 10 then 48 + n else 87 + n)"

definition quote_byte :: "char \<Rightarrow> string" where
  "quote_byte c =
     (let n = of_char c :: nat
      in if c = CHR 0x22 then [CHR 0x5C, CHR 0x22]
         else if c = CHR 0x5C then [CHR 0x5C, CHR 0x5C]
         else if n = 7 then [CHR 0x5C, CHR ''a''] else if n = 8 then [CHR 0x5C, CHR ''b'']
         else if n = 9 then [CHR 0x5C, CHR ''t''] else if n = 10 then [CHR 0x5C, CHR ''n'']
         else if n = 11 then [CHR 0x5C, CHR ''v''] else if n = 12 then [CHR 0x5C, CHR ''f'']
         else if n = 13 then [CHR 0x5C, CHR ''r'']
         else if n < 32 \<or> n = 127 then [CHR 0x5C, CHR ''x'', hex_digit (n div 16), hex_digit (n mod 16)]
         else [c])"

definition go_quote :: "string \<Rightarrow> string" where
  "go_quote s = [CHR 0x22] @ concat (map quote_byte s) @ [CHR 0x22]"

text \<open>The checker is the router; without a service the selector is only normalized. \<open>None\<close> is
  again a panic of the balancing.\<close>

definition resolveRedirectRequestSelector ::
  "catalog \<Rightarrow> balance_env \<Rightarrow> string \<Rightarrow> vm_service option \<Rightarrow> requested_selector \<Rightarrow>
   ((go_error + model_selector) \<times> vm_service option) option" where
  "resolveRedirectRequestSelector cat env userPath service requested =
     (case service of
        None \<Rightarrow> Some (Normalize requested, None)
      | Some s \<Rightarrow>
          (case ResolveModelForUserPath cat env userPath requested s of
             None \<Rightarrow> None
           | Some (Inl err, s) \<Rightarrow> Some (Inl err, Some s)
           | Some (Inr (sel, changed), s) \<Rightarrow> Some (if changed then Inr sel else Normalize requested, Some s)))"

definition validateResolvedProviderType ::
  "(string \<Rightarrow> string) option \<Rightarrow> model_selector \<Rightarrow> string \<Rightarrow> go_error option" where
  "validateResolvedProviderType type_of_model sel expected0 =
     (let expected = go_trim expected0;
          actual = (case type_of_model of None \<Rightarrow> [] | Some f \<Rightarrow> go_trim (f (QualifiedModel sel)))
      in if expected = [] \<or> actual = [] \<or> actual = expected then None
         else Some (NewInvalidRequestError
           (''native batch supports a single provider per batch; resolved model '' @ go_quote (QualifiedModel sel) @
            '' targets provider '' @ go_quote actual @ '' but batch provider is '' @ go_quote expected) None))"

definition resolveRedirectRoutableSelector ::
  "catalog \<Rightarrow> balance_env \<Rightarrow> string \<Rightarrow> vm_service option \<Rightarrow> (string \<Rightarrow> bool) option \<Rightarrow>
   (string \<Rightarrow> string) option \<Rightarrow> requested_selector \<Rightarrow> string \<Rightarrow>
   ((go_error + model_selector) \<times> vm_service option) option" where
  "resolveRedirectRoutableSelector cat env userPath service supports type_of_model requested expected =
     (case resolveRedirectRequestSelector cat env userPath service requested of
        None \<Rightarrow> None
      | Some (Inl err, service) \<Rightarrow> Some (Inl err, service)
      | Some (Inr sel, service) \<Rightarrow>
          let resolvedModel = go_trim (QualifiedModel sel)
          in Some (if resolvedModel = [] then Inl (NewInvalidRequestError ''model is required'' None)
                   else if (case supports of None \<Rightarrow> True | Some f \<Rightarrow> \<not> f resolvedModel)
                   then Inl (NewModelNotFoundError resolvedModel)
                   else case validateResolvedProviderType type_of_model sel expected of
                       Some err \<Rightarrow> Inl err | None \<Rightarrow> Inr sel,
                   service))"

text \<open>Of a chat request the rewriting touches the model and the provider; \<open>'p\<close> is the rest.\<close>

record 'p chat_request =
  cr_Model :: string
  cr_Provider :: string
  cr_rest :: 'p

definition rewriteChatRequest ::
  "catalog \<Rightarrow> balance_env \<Rightarrow> string \<Rightarrow> vm_service option \<Rightarrow> (string \<Rightarrow> bool) option \<Rightarrow>
   (string \<Rightarrow> string) option \<Rightarrow> 'p chat_request \<Rightarrow> ((go_error + 'p chat_request) \<times> vm_service option) option" where
  "rewriteChatRequest cat env userPath service supports type_of_model req =
     map_option (map_prod
         (map_sum (\<lambda>e. e) (\<lambda>sel. req\<lparr>cr_Model := ms_Model sel, cr_Provider := ms_Provider sel\<rparr>)) (\<lambda>s. s))
       (resolveRedirectRoutableSelector cat env userPath service supports type_of_model
          (NewRequestedModelSelector (cr_Model req) (cr_Provider req)) [])"

end
