(* ===== verification/VMProps.thy ===== *)
theory VMProps
  imports VMService
begin

text \<open>
  Properties of the load balancing of virtual models: the shares of round robin, the soundness of
  a resolution under every strategy, and the contract between the service and the catalog, which
  the model registry keeps.
\<close>

section \<open>Round robin shares\<close>

text \<open>The picks of \<open>n\<close> consecutive resolutions of a source.\<close>

primrec rr_picks :: "nat \<Rightarrow> string \<Rightarrow> resolved_target list \<Rightarrow> round_robin \<Rightarrow> nat list" where
  "rr_picks 0 source targets r = []"
| "rr_picks (Suc n) source targets r =
     (let (counter, r) = rr_next source r in weightedIndex targets counter # rr_picks n source targets r)"

definition rr_value :: "string \<Rightarrow> round_robin \<Rightarrow> 64 word" where
  "rr_value source r = (case r source of None \<Rightarrow> 0 | Some c \<Rightarrow> c)"

definition total_weight :: "resolved_target list \<Rightarrow> int" where
  "total_weight targets = sum_list (map (normalizeWeight \<circ> rt_weight) targets)"

lemma normalizeWeight_pos: "1 \<le> normalizeWeight w"
  by (simp add: normalizeWeight_def Let_def)

lemma rr_next_value: "rr_next source r = (rr_value source r, r(source \<mapsto> rr_value source r + 1))"
  by (simp add: rr_next_def rr_value_def Let_def)

lemma rr_value_upd [simp]: "rr_value source (r(source \<mapsto> c)) = c"
  by (simp add: rr_value_def)

lemma rr_picks_map:
  "rr_picks n source targets r =
     map (\<lambda>k. weightedIndex targets (rr_value source r + of_nat k)) [0..<n]"
proof (induction n arbitrary: r)
  case (Suc n)
  then show ?case
    by (simp add: rr_next_value upt_conv_Cons map_Suc_upt [symmetric] comp_def add_ac del: upt_Suc)
qed simp

lemma map_upt_plus: "map f [0..<a + b] = map f [0..<a] @ map (\<lambda>k. f (a + k)) [0..<b]"
proof -
  have "[0..<a + b] = [0..<a] @ [a..<a + b]" by (rule upt_add_eq_append) simp
  moreover have "[a..<a + b] = map (\<lambda>k. a + k) [0..<b]"
    using map_add_upt [of a b] by (simp add: add.commute)
  ultimately show ?thesis by (simp only: map_append map_map comp_def)
qed

lemma weighted_slot_range: "weighted_slot s i ws = Some j \<Longrightarrow> i \<le> j \<and> j < i + length ws"
  by (induction s i ws rule: weighted_slot.induct) (auto simp: Let_def split: if_splits)

lemma sum_normalizeWeight_nonneg: "0 \<le> sum_list (map normalizeWeight ws)"
  by (rule sum_list_nonneg) (auto intro: order_trans [OF _ normalizeWeight_pos])

text \<open>Of the slots below the sum of the weights, target \<open>j\<close> has as many as its weight.\<close>

lemma slot_count:
  "count_list (map (\<lambda>s. weighted_slot (int s) i ws) [0..<nat (sum_list (map normalizeWeight ws))]) (Some (i + j)) =
     (if j < length ws then nat (normalizeWeight (ws ! j)) else 0)"
proof (induction ws arbitrary: i j)
  case (Cons w ws)
  let ?n = "nat (normalizeWeight w)" and ?m = "nat (sum_list (map normalizeWeight ws))"
  let ?rest = "map (\<lambda>s. weighted_slot (int s) (Suc i) ws) [0..<?m]"
  have n: "int ?n = normalizeWeight w" using normalizeWeight_pos [of w] by simp
  have t: "nat (sum_list (map normalizeWeight (w # ws))) = ?n + ?m"
    using normalizeWeight_pos [of w] sum_normalizeWeight_nonneg [of ws] by (simp add: nat_add_distrib)
  have "map (\<lambda>s. weighted_slot (int s) i (w # ws)) [0..<?n] = map (\<lambda>s. Some i) [0..<?n]"
    by (rule map_cong) (auto simp: Let_def)
  moreover have "map (\<lambda>k. weighted_slot (int (?n + k)) i (w # ws)) [0..<?m] = ?rest"
    using n by (intro map_cong) (simp_all add: Let_def)
  ultimately have e: "map (\<lambda>s. weighted_slot (int s) i (w # ws)) [0..<?n + ?m] = map (\<lambda>s. Some i) [0..<?n] @ ?rest"
    by (simp only: map_upt_plus)
  have c: "count_list (map (\<lambda>s. Some i) [0..<?n]) (Some (i + j)) = (if j = 0 then ?n else 0)"
    by (simp add: map_replicate_const count_list_0_iff) (auto simp: count_mset [symmetric])
  show ?case
  proof (cases j)
    case 0
    have "Some i \<notin> set ?rest" by (auto dest!: weighted_slot_range [OF sym])
    then show ?thesis using 0 c unfolding t e by (simp add: count_list_0_iff)
  next
    case (Suc j')
    then show ?thesis using c Cons.IH [of "Suc i" j'] unfolding t e by simp
  qed
qed simp

text \<open>\<open>n\<close> consecutive numbers, taken modulo \<open>n\<close>, are all the remainders.\<close>

lemma count_window:
  assumes "0 < n"
  shows "count_list (map (\<lambda>k. f ((c + k) mod n)) [0..<n]) y = count_list (map f [0..<n]) y"
proof -
  have "map (\<lambda>k. f ((c + k) mod n)) [0..<n] = rotate c (map f [0..<n])"
    using assms by (auto simp: list_eq_iff_nth_eq nth_rotate)
  moreover have "mset (rotate c xs) = mset xs" for xs :: "'a list"
    by (metis append_take_drop_id mset_append rotate_drop_take union_commute)
  ultimately have "mset (map (\<lambda>k. f ((c + k) mod n)) [0..<n]) = mset (map f [0..<n])" by (simp only:)
  then show ?thesis by (metis count_mset)
qed

lemma weighted_slot_ones:
  "\<forall>w \<in> set ws. normalizeWeight w = 1 \<Longrightarrow> s < length ws \<Longrightarrow> weighted_slot (int s) i ws = Some (i + s)"
proof (induction ws arbitrary: s i)
  case (Cons w ws)
  then show ?case
  proof (cases s)
    case (Suc s')
    then show ?thesis using Cons by (auto simp: Let_def)
  qed (auto simp: Let_def)
qed simp

lemma weighted_slot_total:
  "0 \<le> s \<Longrightarrow> s < sum_list (map normalizeWeight ws) \<Longrightarrow> weighted_slot s i ws \<noteq> None"
  by (induction s i ws rule: weighted_slot.induct) (auto simp: Let_def)

lemma total_weight_sum: "total_weight targets = sum_list (map normalizeWeight (map rt_weight targets))"
  by (simp add: total_weight_def comp_def)

lemma total_weight_pos: "targets \<noteq> [] \<Longrightarrow> 0 < total_weight targets"
proof (cases targets)
  case (Cons t ts)
  then show ?thesis
    using normalizeWeight_pos [of "rt_weight t"] sum_normalizeWeight_nonneg [of "map rt_weight ts"]
    by (simp add: total_weight_def)
qed simp

text \<open>The plain rotation is the weighted one for weights of one.\<close>

lemma weightedIndex_slot:
  assumes "targets \<noteq> []"
  shows "weighted_slot (uint c mod total_weight targets) 0 (map rt_weight targets) = Some (weightedIndex targets c)"
proof -
  let ?ws = "map rt_weight targets"
  have t: "total_weight targets = sum_list (map normalizeWeight ?ws)" by (rule total_weight_sum)
  have pos: "0 < total_weight targets" using assms by (rule total_weight_pos)
  show ?thesis
  proof (cases "\<forall>w \<in> set ?ws. normalizeWeight w = 1")
    case True
    have "sum_list (map normalizeWeight ?ws) = int (length targets)"
      using True by (induction targets) auto
    then have l: "total_weight targets = int (length targets)" using t by simp
    have nn: "0 \<le> uint c mod int (length targets)" using pos l by simp
    from l have "nat (uint c mod int (length targets)) < length ?ws" using pos by (simp add: nat_less_iff)
    then have "weighted_slot (int (nat (uint c mod int (length targets)))) 0 ?ws = Some (nat (uint c mod int (length targets)))"
      using weighted_slot_ones [OF True, of _ 0] by (simp only: add_0)
    then show ?thesis using True pos l nn by (simp add: weightedIndex_def Let_def)
  next
    case False
    then have "weightedIndex targets c =
        (case weighted_slot (uint c mod total_weight targets) 0 ?ws of Some i \<Rightarrow> i | None \<Rightarrow> length targets - 1)"
      using pos t by (auto simp: weightedIndex_def Let_def)
    moreover have "weighted_slot (uint c mod total_weight targets) 0 ?ws \<noteq> None"
      using pos t by (intro weighted_slot_total) auto
    ultimately show ?thesis by auto
  qed
qed

text \<open>
  C20. Round robin is fair by weight: of as many consecutive resolutions of a redirect as its
  weights sum to, each target gets exactly its weight, wherever the rotation stands, as long as
  the 64-bit counter does not wrap in between.
\<close>

theorem round_robin_shares:
  assumes "targets \<noteq> []" "uint (rr_value source r) + total_weight targets \<le> 2 ^ 64" "i < length targets"
  shows "int (count_list (rr_picks (nat (total_weight targets)) source targets r) i) =
    normalizeWeight (rt_weight (targets ! i))"
proof -
  let ?ws = "map rt_weight targets" and ?n = "nat (total_weight targets)"
  let ?c = "rr_value source r"
  let ?f = "\<lambda>s. weighted_slot (int s) 0 ?ws"
  have t: "total_weight targets = sum_list (map normalizeWeight ?ws)" by (rule total_weight_sum)
  have pos: "0 < total_weight targets" using assms(1) by (rule total_weight_pos)
  have u: "uint (?c + of_nat k) = uint ?c + int k" if "k < ?n" for k
  proof -
    have "uint ?c + int k < 2 ^ 64" using assms(2) that by linarith
    then have "int k < 2 ^ 64" using uint_nonnegative [of ?c] by linarith
    then have "k < 2 ^ 64" by simp
    then have "unat (of_nat k :: 64 word) = k" by (simp add: unat_of_nat)
    then have k: "uint (of_nat k :: 64 word) = int k" by (simp only: uint_nat)
    have "uint ?c + uint (of_nat k :: 64 word) < 2 ^ LENGTH(64)"
      using \<open>uint ?c + int k < 2 ^ 64\<close> unfolding k by simp
    then show ?thesis using uint_add_lem [of ?c "of_nat k"] k by (simp only:)
  qed
  have "Some (weightedIndex targets (?c + of_nat k)) = ?f ((unat ?c + k) mod ?n)" if "k < ?n" for k
  proof -
    have "uint (?c + of_nat k) mod total_weight targets = int ((unat ?c + k) mod ?n)"
      using u [OF that] pos
      by (simp only: uint_nat zmod_int of_nat_add) simp
    then show ?thesis using weightedIndex_slot [OF assms(1), of "?c + of_nat k"] by (simp only:)
  qed
  then have "map Some (rr_picks ?n source targets r) = map (\<lambda>k. ?f ((unat ?c + k) mod ?n)) [0..<?n]"
    unfolding rr_picks_map by simp
  then have "count_list (map Some (rr_picks ?n source targets r)) (Some i) = count_list (map ?f [0..<?n]) (Some i)"
    using count_window [of ?n ?f "unat ?c"] pos by simp
  also have "\<dots> = nat (normalizeWeight (rt_weight (targets ! i)))"
    using slot_count [of 0 ?ws i] assms(3) t by simp
  also have "count_list (map Some (rr_picks ?n source targets r)) (Some i) = count_list (rr_picks ?n source targets r) i"
    by (simp add: count_list_map_conv)
  finally show ?thesis using normalizeWeight_pos [of "rt_weight (targets ! i)"] by simp
qed

definition demo_target :: "string \<Rightarrow> string \<Rightarrow> rat \<Rightarrow> bool \<Rightarrow> resolved_target" where
  "demo_target p m w fb =
     \<lparr>rt_selector = \<lparr>ms_Model = m, ms_Provider = p\<rparr>, rt_qualified = p @ ''/'' @ m, rt_weight = w,
      rt_fallbackOnly = fb\<rparr>"

lemma round_robin_shares_witness:
  "rr_picks 4 ''src'' [demo_target ''a'' ''m'' 3 False, demo_target ''b'' ''m'' 0 False] [''src'' \<mapsto> 2] = [0, 1, 0, 0] \<and>
   int (count_list (rr_picks 4 ''src'' [demo_target ''a'' ''m'' 3 False, demo_target ''b'' ''m'' 0 False] [''src'' \<mapsto> 2]) 0) = 3"
proof
  let ?ts = "[demo_target ''a'' ''m'' 3 False, demo_target ''b'' ''m'' 0 False]"
  show "rr_picks 4 ''src'' ?ts [''src'' \<mapsto> 2] = [0, 1, 0, 0]" by code_simp
  have t: "total_weight ?ts = 4" by code_simp
  have w: "normalizeWeight 3 = 3" by code_simp
  have v: "rr_value ''src'' [''src'' \<mapsto> 2] = 2" by (simp add: rr_value_def)
  show "int (count_list (rr_picks 4 ''src'' ?ts [''src'' \<mapsto> 2]) 0) = 3"
    using round_robin_shares [of ?ts "''src''" "[''src'' \<mapsto> 2]" 0]
    unfolding t v by (simp add: w) (simp add: demo_target_def w)
qed

section \<open>The strategies stay inside the list\<close>

lemma weighted_draw_range: "weighted_draw d r i ws = Some j \<Longrightarrow> i \<le> j \<and> j < i + length ws"
  by (induction d r i ws rule: weighted_draw.induct) (auto simp: Let_def split: if_splits)

lemma weighted_NextTarget_range: "targets \<noteq> [] \<Longrightarrow> weighted_NextTarget targets draw < length targets"
  using weighted_draw_range [of _ 0 0 "map rt_weight targets"]
  by (fastforce simp: weighted_NextTarget_def Let_def split: option.split)

lemma health_draw_range: "health_draw d r i ws = Some j \<Longrightarrow> i \<le> j \<and> j < i + length ws"
  by (induction d r i ws rule: health_draw.induct) (auto simp: Let_def split: if_splits)

lemma length_health_weights: "length (fst (health_weights sn now ts cd)) = length ts"
  by (induction sn now ts cd rule: health_weights.induct) (auto simp: Let_def split: prod.splits)

lemma health_NextTarget_range:
  "targets \<noteq> [] \<Longrightarrow> fst (health_NextTarget sn now draw targets cd) < length targets"
proof -
  assume ne: "targets \<noteq> []"
  obtain ws cd' where w: "health_weights sn now targets cd = (ws, cd')" by fastforce
  then have "length ws = length targets" using length_health_weights [of sn now targets cd] by simp
  then show ?thesis using ne w health_draw_range [of _ 0 0 ws]
    by (fastforce simp: health_NextTarget_def Let_def split: option.split)
qed

lemma random_NextTarget_range:
  "targets \<noteq> [] \<Longrightarrow> (\<forall>i. index = Some i \<longrightarrow> i < length targets) \<Longrightarrow> random_NextTarget targets index < length targets"
  by (auto simp: random_NextTarget_def split: option.split)

lemma weightedIndex_range: "targets \<noteq> [] \<Longrightarrow> weightedIndex targets c < length targets"
proof -
  assume ne: "targets \<noteq> []"
  have ws: "weighted_slot s i ws = Some j \<Longrightarrow> i \<le> j \<and> j < i + length ws" for s i ws j
    by (induction s i ws rule: weighted_slot.induct) (auto simp: Let_def split: if_splits)
  have "nat (uint c mod int (length targets)) < length targets" using ne by (simp add: nat_less_iff)
  then show ?thesis using ne ws [of _ 0 "map rt_weight targets"]
    by (fastforce simp: weightedIndex_def Let_def split: option.split)
qed

lemma cheapest_loop_in: "cheapest_loop cat ts b c p \<in> insert b (set ts)"
proof (induction ts arbitrary: b c p)
  case (Cons t ts)
  obtain x y where t: "targetCost cat t = (x, y)" by fastforce
  show ?case using Cons [of b c p] Cons [of t x True] t by (auto simp: Let_def)
qed simp

lemma cheapestTarget_in: "targets \<noteq> [] \<Longrightarrow> \<exists>t \<in> set targets. cheapestTarget cat targets = Some t"
  using cheapest_loop_in by (cases targets) (fastforce split: prod.splits)+

section \<open>Least used\<close>

definition in_flight :: "least_used \<Rightarrow> string \<Rightarrow> int" where
  "in_flight b q = (case lu_inFlight b q of None \<Rightarrow> 0 | Some n \<Rightarrow> n)"

lemma loadCount_facts:
  "fst (loadCount q b) = in_flight b q" "in_flight (snd (loadCount q b)) = in_flight b"
  "lu_counter (snd (loadCount q b)) = lu_counter b"
  by (auto simp: loadCount_def in_flight_def fun_eq_iff split: option.split)

lemma least_loop_spec:
  "least_loop qs i bi bc b = (bi', bc', b') \<Longrightarrow>
     in_flight b' = in_flight b \<and> lu_counter b' = lu_counter b \<and> bc' \<le> bc \<and>
     (\<forall>q \<in> set qs. bc' \<le> in_flight b q) \<and>
     (bi' = bi \<and> bc' = bc \<or> i \<le> bi' \<and> bi' < i + length qs \<and> in_flight b (qs ! (bi' - i)) = bc')"
proof (induction qs i bi bc b rule: least_loop.induct)
  case (2 q qs i bi bc b)
  obtain c b1 where l: "loadCount q b = (c, b1)" by fastforce
  then have f: "c = in_flight b q" "in_flight b1 = in_flight b" "lu_counter b1 = lu_counter b"
    using loadCount_facts [of q b] by simp_all
  show ?case
  proof (cases "c < bc")
    case True
    have "in_flight b' = in_flight b1 \<and> lu_counter b' = lu_counter b1 \<and> bc' \<le> c \<and>
     (\<forall>q \<in> set qs. bc' \<le> in_flight b1 q) \<and>
     (bi' = i \<and> bc' = c \<or> Suc i \<le> bi' \<and> bi' < Suc i + length qs \<and> in_flight b1 (qs ! (bi' - Suc i)) = bc')"
      using "2.IH"(1) [OF l [symmetric] refl True] "2.prems" l True by simp
    then show ?thesis using True f by (auto simp: nth_Cons')
  next
    case False
    have "in_flight b' = in_flight b1 \<and> lu_counter b' = lu_counter b1 \<and> bc' \<le> bc \<and>
     (\<forall>q \<in> set qs. bc' \<le> in_flight b1 q) \<and>
     (bi' = bi \<and> bc' = bc \<or> Suc i \<le> bi' \<and> bi' < Suc i + length qs \<and> in_flight b1 (qs ! (bi' - Suc i)) = bc')"
      using "2.IH"(2) [OF l [symmetric] refl False] "2.prems" l False by simp
    then show ?thesis using False f by (auto simp: nth_Cons')
  qed
qed simp

lemma tied_loop_spec:
  "tied_loop qs i bi bc tied b = (tied', b') \<Longrightarrow>
     in_flight b' = in_flight b \<and> lu_counter b' = lu_counter b \<and> set tied \<subseteq> set tied' \<and>
     (\<forall>j \<in> set tied' - set tied. i \<le> j \<and> j < i + length qs \<and> in_flight b (qs ! (j - i)) = bc)"
proof (induction qs i bi bc tied b rule: tied_loop.induct)
  case (2 q qs i bi bc tied b)
  show ?case
  proof (cases "i = bi")
    case True
    have ih: "in_flight b' = in_flight b \<and> lu_counter b' = lu_counter b \<and> set tied \<subseteq> set tied' \<and>
     (\<forall>j \<in> set tied' - set tied. Suc i \<le> j \<and> j < Suc i + length qs \<and> in_flight b (qs ! (j - Suc i)) = bc)"
      using "2.IH"(1) [OF True] "2.prems" True by simp
    have "i \<le> j \<and> j < i + length (q # qs) \<and> in_flight b ((q # qs) ! (j - i)) = bc"
      if "j \<in> set tied' - set tied" for j
    proof -
      have "Suc i \<le> j \<and> j < Suc i + length qs \<and> in_flight b (qs ! (j - Suc i)) = bc"
        using ih that by blast
      then show ?thesis by (auto simp: nth_Cons')
    qed
    then show ?thesis using ih by simp
  next
    case False
    obtain c b1 where l: "loadCount q b = (c, b1)" by fastforce
    then have f: "c = in_flight b q" "in_flight b1 = in_flight b" "lu_counter b1 = lu_counter b"
      using loadCount_facts [of q b] by simp_all
    let ?t = "if c = bc then tied @ [i] else tied"
    have ih: "in_flight b' = in_flight b1 \<and> lu_counter b' = lu_counter b1 \<and> set ?t \<subseteq> set tied' \<and>
     (\<forall>j \<in> set tied' - set ?t. Suc i \<le> j \<and> j < Suc i + length qs \<and> in_flight b1 (qs ! (j - Suc i)) = bc)"
      using "2.IH"(2) [OF False l [symmetric] refl] "2.prems" l False by simp
    have "i \<le> j \<and> j < i + length (q # qs) \<and> in_flight b ((q # qs) ! (j - i)) = bc"
      if "j \<in> set tied' - set tied" for j
    proof (cases "j \<in> set ?t")
      case True then show ?thesis using that f by (auto split: if_splits)
    next
      case False
      then have "j \<in> set tied' - set ?t" using that by blast
      then have "Suc i \<le> j \<and> j < Suc i + length qs \<and> in_flight b1 (qs ! (j - Suc i)) = bc"
        using ih by blast
      then show ?thesis using f by (auto simp: nth_Cons')
    qed
    then show ?thesis using ih f by (auto split: if_splits)
  qed
qed simp

text \<open>The index is that of a target with the fewest requests in flight, as long as the tie counter
  is below 2^63.\<close>

lemma least_NextTarget_spec:
  assumes ne: "targets \<noteq> []" and c: "uint (lu_counter b) + 1 < 2 ^ 63"
  shows "\<exists>i b'. least_NextTarget targets b = (Some i, b') \<and> i < length targets \<and>
    in_flight b' = in_flight b \<and>
    (\<forall>t \<in> set targets. in_flight b (rt_qualified (targets ! i)) \<le> in_flight b (rt_qualified t))"
proof -
  obtain q qs where qs: "map rt_qualified targets = q # qs" using ne by (cases targets) auto
  obtain c0 b1 where l: "loadCount q b = (c0, b1)" by fastforce
  then have f: "c0 = in_flight b q" "in_flight b1 = in_flight b" "lu_counter b1 = lu_counter b"
    using loadCount_facts [of q b] by simp_all
  obtain bi bc b2 where l2: "least_loop qs 1 0 c0 b1 = (bi, bc, b2)" by (metis prod_cases3)
  note s2 = least_loop_spec [OF l2]
  obtain tied b3 where l3: "tied_loop (q # qs) 0 bi bc [bi] b2 = (tied, b3)" by fastforce
  note s3 = tied_loop_spec [OF l3]
  have min: "\<forall>x \<in> set (q # qs). bc \<le> in_flight b x" using s2 f by auto
  have len: "length targets = length (q # qs)" using qs by (metis length_map)
  have bi: "bi < length (q # qs)" "in_flight b ((q # qs) ! bi) = bc"
    using s2 f by (auto simp: nth_Cons')
  have tied: "j < length (q # qs) \<and> in_flight b ((q # qs) ! j) = bc" if "j \<in> set tied" for j
  proof (cases "j = bi")
    case True then show ?thesis using bi by simp
  next
    case False
    then have "j \<in> set tied - set [bi]" using that by simp
    then show ?thesis using s3 s2 f by auto
  qed
  have good: "j < length targets \<and>
      (\<forall>t \<in> set targets. in_flight b (rt_qualified (targets ! j)) \<le> in_flight b (rt_qualified t))"
    if "j < length (q # qs)" "in_flight b ((q # qs) ! j) = bc" for j
  proof -
    have "rt_qualified (targets ! j) = (q # qs) ! j" using that(1) len qs by (metis nth_map)
    moreover have "rt_qualified t \<in> set (q # qs)" if "t \<in> set targets" for t
      using that qs by (metis image_eqI set_map)
    ultimately show ?thesis using that min len by auto
  qed
  show ?thesis
  proof (cases "1 < length tied")
    case False
    then have "least_NextTarget targets b = (Some bi, b3)"
      using qs l l2 l3 by (simp add: least_NextTarget_def)
    then show ?thesis using good [OF bi] s2 s3 f by auto
  next
    case True
    let ?slot = "lu_counter b3 + 1" and ?n = "int (length tied)"
    have cb: "lu_counter b3 = lu_counter b" using s2 s3 f by simp
    have "uint ?slot = uint (lu_counter b) + 1"
      using c cb by (simp add: uint_plus_if_size word_size)
    then have sl: "sint ?slot = uint (lu_counter b) + 1"
      using c by (simp add: sint_uint signed_take_bit_int_eq_self)
    have nonneg: "0 \<le> sint ?slot" using sl by simp
    have "sint ?slot smod ?n = sint ?slot mod ?n"
      using nonneg by (simp add: signed_modulo_int_def signed_divide_int_def minus_div_mult_eq_mod sgn_if)

    moreover have "0 < ?n" using True by linarith
    ultimately have r: "0 \<le> sint ?slot smod ?n" "sint ?slot smod ?n < ?n"
      using pos_mod_bound [of ?n "sint ?slot"] pos_mod_sign [of ?n "sint ?slot"] by (simp_all only:)
    let ?i = "tied ! nat (sint ?slot smod ?n)"
    have "?i \<in> set tied" using r by (intro nth_mem) simp
    moreover have "least_NextTarget targets b = (Some ?i, b3\<lparr>lu_counter := ?slot\<rparr>)"
      using qs l l2 l3 True r(1) by (simp add: least_NextTarget_def Let_def)
    moreover have "in_flight (b3\<lparr>lu_counter := ?slot\<rparr>) = in_flight b"
      using s2 s3 f by (auto simp: in_flight_def fun_eq_iff)
    ultimately show ?thesis using tied good by blast
  qed
qed

section \<open>Resolution\<close>

lemma target_pool_spec:
  assumes "t \<in> set (target_pool cat entry)"
  shows "t \<in> set (re_targets entry)" "cat_ModelAvailable cat (rt_qualified t)"
    and "rt_fallbackOnly t \<Longrightarrow> \<forall>u \<in> set (re_targets entry).
           cat_ModelAvailable cat (rt_qualified u) \<longrightarrow> rt_fallbackOnly u"
  using assms by (auto simp: target_pool_def supportedTargets_def Let_def filter_empty_conv split: if_splits)

lemma target_pool_empty: "target_pool cat entry = [] \<longleftrightarrow> supportedTargets cat entry = []"
  by (auto simp: target_pool_def Let_def filter_empty_conv)

lemma viable_targets_spec:
  assumes "pool \<noteq> []"
  shows "viable_targets env pool \<noteq> []" "set (viable_targets env pool) \<subseteq> set pool"
    and "t \<in> set (viable_targets env pool) \<Longrightarrow> be_capacity env = Some cap \<Longrightarrow>
           \<exists>u \<in> set pool. cap (rt_qualified u) \<Longrightarrow> cap (rt_qualified t)"
  using assms
  by (auto simp: viable_targets_def targetsWithCapacity_def Let_def filter_empty_conv split: option.splits if_splits
        dest: in_set_takeD)

lemma pick_in: "i < length viable \<Longrightarrow> \<exists>t \<in> set viable. pick viable i = Some (rt_selector t)"
  by (auto simp: pick_def)

lemma strategy_choice_sound:
  assumes ne: "viable \<noteq> []" and idx: "\<forall>i. be_index env = Some i \<longrightarrow> i < length viable"
    and cnt: "uint (lu_counter (sv_leastUsed s)) + 1 < 2 ^ 63"
  shows "\<exists>t \<in> set viable. \<exists>s'. strategy_choice cat env entry viable s = Some (rt_selector t, s') \<and>
           sv_current s' = sv_current s"
proof -
  obtain i b' where l: "least_NextTarget viable (sv_leastUsed s) = (Some i, b')" "i < length viable"
    using least_NextTarget_spec [OF ne cnt] by blast
  obtain c r where n: "rr_next (vm_Source (re_vm entry)) (sv_balancer s) = (c, r)" by fastforce
  note picks = pick_in [OF weighted_NextTarget_range [OF ne, of "be_draw env"]]
    pick_in [OF random_NextTarget_range [OF ne idx]] pick_in [OF l(2)]
    pick_in [OF health_NextTarget_range [OF ne, of "be_health env" "be_now env" "be_draw env" None]]
    pick_in [OF weightedIndex_range [OF ne, of c]] cheapestTarget_in [OF ne, of cat]
  let ?st = "autoStrategy (re_strategy entry)"
  consider "?st = ''cost''" | "?st = ''weighted''" | "?st = ''random''" | "?st = ''least_used''"
    | "?st = ''health_aware''"
    | "?st \<notin> {''cost'', ''weighted'', ''random'', ''least_used'', ''health_aware''}" by blast
  then show ?thesis
  proof cases
    case 1 then show ?thesis using picks(6) by (auto simp: strategy_choice_def)
  next
    case 2 then show ?thesis using picks(1) by (auto simp: strategy_choice_def)
  next
    case 3 then show ?thesis using picks(2) by (auto simp: strategy_choice_def)
  next
    case 4 then show ?thesis using picks(3) l by (auto simp: strategy_choice_def)
  next
    case 5 then show ?thesis using picks(4) by (auto simp: strategy_choice_def)
  next
    case 6 then show ?thesis using picks(5) n by (auto simp: strategy_choice_def)
  qed
qed

text \<open>
  C21. A redirect resolves to a sound target under every strategy and random draw: there is no
  panic below 2^63 tie breaks; it stays unresolved exactly when no declared target is available;
  otherwise the choice is a declared target of a provider with fresh inventory, a fallback-only
  one just when no primary target is available, and one with rate-limit capacity if a candidate
  has any.
\<close>

theorem redirect_resolution_sound:
  assumes index: "\<forall>i. be_index env = Some i \<longrightarrow> i < length (viable_targets env (target_pool cat entry))"
    and ties: "uint (lu_counter (sv_leastUsed s)) + 1 < 2 ^ 63"
  shows "case balancedResolution cat env entry s of
      None \<Rightarrow> False
    | Some (None, s') \<Rightarrow> s' = s \<and> supportedTargets cat entry = []
    | Some (Some sel, s') \<Rightarrow> sv_current s' = sv_current s \<and>
        (\<exists>t \<in> set (re_targets entry). rt_selector t = sel \<and> cat_ModelAvailable cat (rt_qualified t) \<and>
           (rt_fallbackOnly t \<longrightarrow> (\<forall>u \<in> set (re_targets entry).
              cat_ModelAvailable cat (rt_qualified u) \<longrightarrow> rt_fallbackOnly u)) \<and>
           (\<forall>cap. be_capacity env = Some cap \<and> (\<exists>u \<in> set (target_pool cat entry). cap (rt_qualified u)) \<longrightarrow>
              cap (rt_qualified t)))"
proof (cases "target_pool cat entry = []")
  case True
  then show ?thesis using target_pool_empty [of cat entry] by (simp add: balancedResolution_def)
next
  case False
  let ?pool = "target_pool cat entry" and ?v = "viable_targets env (target_pool cat entry)"
  note v = viable_targets_spec [OF False, where env = env]
  have "\<exists>t \<in> set ?v. \<exists>s'. balancedResolution cat env entry s = Some (Some (rt_selector t), s') \<and>
          sv_current s' = sv_current s"
  proof (cases "\<exists>t. ?v = [t]")
    case True
    then show ?thesis using False by (auto simp: balancedResolution_def)
  next
    case nosingle: False
    have "balancedResolution cat env entry s = map_option (map_prod Some (\<lambda>s. s)) (strategy_choice cat env entry ?v s)"
      using False nosingle by (auto simp: balancedResolution_def Let_def split: list.split)
    then show ?thesis using strategy_choice_sound [OF v(1) index ties, of cat entry] by auto
  qed
  then obtain t s' where t: "t \<in> set ?v" "balancedResolution cat env entry s = Some (Some (rt_selector t), s')"
      "sv_current s' = sv_current s" by blast
  have p: "t \<in> set ?pool" using t(1) v(2) by blast
  then have "rt_selector t = rt_selector t \<and> cat_ModelAvailable cat (rt_qualified t) \<and>
           (rt_fallbackOnly t \<longrightarrow> (\<forall>u \<in> set (re_targets entry).
              cat_ModelAvailable cat (rt_qualified u) \<longrightarrow> rt_fallbackOnly u)) \<and>
           (\<forall>cap. be_capacity env = Some cap \<and> (\<exists>u \<in> set ?pool. cap (rt_qualified u)) \<longrightarrow> cap (rt_qualified t))"
    using target_pool_spec [OF p] v(3) [OF t(1)] by blast
  then show ?thesis using t(2,3) target_pool_spec(1) [OF p] by auto
qed

text \<open>Two targets of which the primary one is down, under the random strategy.\<close>

definition demo_redirect :: redirect_entry where
  "demo_redirect =
     \<lparr>re_vm = empty_vm\<lparr>vm_Source := ''src'', vm_Enabled := True\<rparr>,
      re_targets = [demo_target ''a'' ''m'' 1 False, demo_target ''b'' ''m'' 1 True, demo_target ''c'' ''m'' 1 True],
      re_strategy = ''random''\<rparr>"

definition two_up :: catalog where
  "two_up =
     \<lparr>cat_Supports = (\<lambda>m. True), cat_ModelAvailable = (\<lambda>m. m \<noteq> ''a/m''), cat_GetProviderType = (\<lambda>m. []),
      cat_LookupModel = (\<lambda>m. None), cat_ProviderNames = []\<rparr>"

definition demo_env :: balance_env where
  "demo_env = \<lparr>be_capacity = None, be_health = [], be_now = 0, be_draw = 0, be_index = Some 1\<rparr>"

lemma redirect_resolution_sound_witness:
  "\<exists>s'. balancedResolution two_up demo_env demo_redirect (NewService True) =
          Some (Some \<lparr>ms_Model = ''m'', ms_Provider = ''c''\<rparr>, s') \<and> sv_current s' = sv_current (NewService True)"
proof -
  let ?r = "balancedResolution two_up demo_env demo_redirect (NewService True)"
  have "map_option fst ?r = Some (Some \<lparr>ms_Model = ''m'', ms_Provider = ''c''\<rparr>)" by code_simp
  then obtain s' where r: "?r = Some (Some \<lparr>ms_Model = ''m'', ms_Provider = ''c''\<rparr>, s')" by auto
  have "length (viable_targets demo_env (target_pool two_up demo_redirect)) = 2" by code_simp
  then have i: "\<forall>i. be_index demo_env = Some i \<longrightarrow> i < length (viable_targets demo_env (target_pool two_up demo_redirect))"
    by (simp add: demo_env_def)
  have "uint (lu_counter (sv_leastUsed (NewService True))) + 1 < 2 ^ 63" by (simp add: NewService_def)
  from redirect_resolution_sound [OF i this] show ?thesis using r by simp
qed

section \<open>The catalog\<close>

text \<open>What the service relies on of the catalog: a model that is available is supported, and a
  supported model can be looked up. The registry provides it.\<close>

locale model_catalog =
  fixes cat :: catalog
  assumes available_supported: "cat_ModelAvailable cat m \<Longrightarrow> cat_Supports cat m"
    and supported_lookup: "cat_Supports cat m \<Longrightarrow> cat_LookupModel cat m \<noteq> None"
begin

text \<open>An unscoped redirect with an available target is listed under its own name.\<close>

lemma supported_exposed:
  assumes "vm_Enabled (re_vm entry)" "supportedTargets cat entry \<noteq> []"
  shows "\<exists>m. exposed_entry cat userPath False None entry = Some m \<and> cm_ID m = vm_Source (re_vm entry)"
proof -
  obtain t ts where t: "supportedTargets cat entry = t # ts" using assms(2) by (cases "supportedTargets cat entry") auto
  then have "t \<in> set (supportedTargets cat entry)" by simp
  then have "cat_ModelAvailable cat (rt_qualified t)" by (simp add: supportedTargets_def)
  then obtain m where "cat_LookupModel cat (rt_qualified t) = Some m"
    using available_supported supported_lookup by blast
  then show ?thesis using assms(1) t by (simp add: exposed_entry_def representativeExposedTarget_def)
qed

end

definition registry_catalog :: "registry \<Rightarrow> catalog" where
  "registry_catalog r =
     \<lparr>cat_Supports = Supports r, cat_ModelAvailable = ModelAvailable r, cat_GetProviderType = GetProviderType r,
      cat_LookupModel = LookupModel r, cat_ProviderNames = reg_ProviderNames r\<rparr>"

lemma ModelAvailable_Supports: "ModelAvailable r m \<Longrightarrow> Supports r m"
  by (auto simp: ModelAvailable_def Supports_def GetModel_def Let_def split: prod.splits option.splits if_splits)

interpretation rc: model_catalog "registry_catalog r" for r
  by unfold_locales (auto simp: registry_catalog_def ModelAvailable_Supports, auto simp: Supports_def LookupModel_def)

end
