(* ===== verification/VMAdmin.thy ===== *)
theory VMAdmin
  imports VMService
begin

text \<open>
  Properties of the access policies and of the administrative writes of virtual models.

  A declared policy is found by the indexes of the snapshot exactly as by a search of the
  declared rows; a write that fails after it has touched the store is undone. The contract of the
  store the service relies on for that is the locale \<open>row_store\<close>.
\<close>

section \<open>The indexes of the snapshot\<close>

fun last_match :: "('a \<Rightarrow> bool) \<Rightarrow> 'a list \<Rightarrow> 'a option" where
  "last_match P [] = None"
| "last_match P (x # xs) = (case last_match P xs of Some y \<Rightarrow> Some y | None \<Rightarrow> if P x then Some x else None)"

lemma last_match_Some: "last_match P xs = Some x \<Longrightarrow> x \<in> set xs \<and> P x"
  by (induction xs) (auto split: option.splits if_splits)

text \<open>The policies among the rows, as loading normalizes them.\<close>

fun policies :: "virtual_model list \<Rightarrow> virtual_model list" where
  "policies [] = []"
| "policies (row # rows) =
     (if IsRedirect row then policies rows
      else case normalizeStoredPolicy row of Inl e \<Rightarrow> policies rows | Inr vm \<Rightarrow> vm # policies rows)"

definition scope_of :: "virtual_model \<Rightarrow> scope_kind" where
  "scope_of vm = ScopeKindFor (vm_Source vm) (vm_ProviderName vm) (vm_Model vm)"

definition exact_rule :: "string \<Rightarrow> virtual_model \<Rightarrow> bool" where
  "exact_rule key vm \<longleftrightarrow> scope_of vm = ScopeProviderModel \<and> ExactMatchKey (vm_ProviderName vm) (vm_Model vm) = key"

definition provider_rule :: "string \<Rightarrow> virtual_model \<Rightarrow> bool" where
  "provider_rule p vm \<longleftrightarrow> scope_of vm = ScopeProvider \<and> vm_ProviderName vm = p"

definition model_rule :: "string \<Rightarrow> virtual_model \<Rightarrow> bool" where
  "model_rule m vm \<longleftrightarrow> scope_of vm = ScopeModel \<and> vm_Model vm = m"

definition global_rule :: "virtual_model \<Rightarrow> bool" where
  "global_rule vm \<longleftrightarrow> scope_of vm = ScopeGlobal"

lemmas rule_defs = exact_rule_def provider_rule_def model_rule_def global_rule_def

definition or_else :: "'a option \<Rightarrow> 'a option \<Rightarrow> 'a option" where
  "or_else a b = (case a of Some x \<Rightarrow> Some x | None \<Rightarrow> b)"

lemma or_else_simps [simp]: "or_else None b = b" "or_else (Some x) b = Some x"
  by (simp_all add: or_else_def)

lemma or_else_last_match:
  "or_else (last_match P (x # xs)) b = or_else (last_match P xs) (if P x then Some x else b)"
  by (auto simp: or_else_def split: option.split)

lemma load_rows_indexes:
  "load_rows rows s = Inr s' \<Longrightarrow>
     map_of (vs_exact s') k = or_else (last_match (exact_rule k) (policies rows)) (map_of (vs_exact s) k) \<and>
     map_of (vs_providerWide s') k = or_else (last_match (provider_rule k) (policies rows)) (map_of (vs_providerWide s) k) \<and>
     map_of (vs_modelWide s') k = or_else (last_match (model_rule k) (policies rows)) (map_of (vs_modelWide s) k) \<and>
     vs_global s' = or_else (last_match global_rule (policies rows)) (vs_global s) \<and>
     vs_defaultEnable s' = vs_defaultEnable s"
proof (induction rows s rule: load_rows.induct)
  case (2 row rows s)
  show ?case
  proof (cases "IsRedirect row")
    case True
    then obtain vm sels where "normalizeRedirect row = Inr (vm, sels)" "load_rows rows (add_redirect vm sels s) = Inr s'"
      using "2.prems" by (auto split: sum.splits)
    then show ?thesis using "2.IH"(1) [OF True] True by (simp add: add_redirect_def)
  next
    case False
    then obtain vm where vm: "normalizeStoredPolicy row = Inr vm" "load_rows rows (add_policy vm s) = Inr s'"
      using "2.prems" by (auto split: sum.splits)
    note ih = "2.IH"(2) [OF False vm(1) vm(2)]
    have p: "policies (row # rows) = vm # policies rows" using False vm(1) by simp
    show ?thesis
      unfolding p or_else_last_match
      using ih
      by (cases "ScopeKindFor (vm_Source vm) (vm_ProviderName vm) (vm_Model vm)")
         (simp_all add: add_policy_def exact_rule_def [of k vm] provider_rule_def [of k vm] model_rule_def [of k vm]
            global_rule_def [of vm] scope_of_def [of vm] update_conv' Let_def)
  qed
qed simp

lemma buildSnapshot_indexes:
  assumes "buildSnapshot rows d = Inr s"
  shows "map_of (vs_exact s) k = last_match (exact_rule k) (policies rows)"
    "map_of (vs_providerWide s) k = last_match (provider_rule k) (policies rows)"
    "map_of (vs_modelWide s) k = last_match (model_rule k) (policies rows)"
    "vs_global s = last_match global_rule (policies rows)" "vs_defaultEnable s = d"
proof -
  obtain s0 where s0: "load_rows rows (emptySnapshot d) = Inr s0" "s = s0\<lparr>vs_order := sort (vs_order s0)\<rparr>"
    using assms by (cases "load_rows rows (emptySnapshot d)") (auto simp: buildSnapshot_def)
  have n: "or_else a None = a" for a :: "virtual_model option" by (cases a) simp_all
  show "map_of (vs_exact s) k = last_match (exact_rule k) (policies rows)"
    "map_of (vs_providerWide s) k = last_match (provider_rule k) (policies rows)"
    "map_of (vs_modelWide s) k = last_match (model_rule k) (policies rows)"
    "vs_global s = last_match global_rule (policies rows)" "vs_defaultEnable s = d"
    using load_rows_indexes [OF s0(1), of k] by (simp_all add: s0(2) emptySnapshot_def n)
qed

section \<open>User paths in scope\<close>

lemma user_paths_loop_sorted: "normalizeUserPaths paths = Inr ps \<Longrightarrow> sorted ps"
  by (cases "user_paths_loop [] paths") (auto simp: normalizeUserPaths_def)

text \<open>A path is in scope when an allowed path is the root, or a prefix of its segments.\<close>

definition path_in_scope :: "string \<Rightarrow> string list \<Rightarrow> bool" where
  "path_in_scope userPath allowed \<longleftrightarrow>
     ''/'' \<in> set allowed \<or>
     (\<exists>c k. NormalizeUserPath userPath = Inr (path_of c) \<and> (\<forall>seg \<in> set c. good_segment seg) \<and>
        path_of (take k c) \<in> set allowed)"

lemma path_of_not_Nil [simp]: "path_of c \<noteq> []" "[] \<noteq> path_of c"
  by (simp_all add: path_of_def)

lemma ex_take: "(\<exists>k. P (take k xs)) \<longleftrightarrow> (\<exists>k \<le> length xs. P (take k xs))"
proof
  assume "\<exists>k. P (take k xs)"
  then obtain k where "P (take k xs)" by blast
  then show "\<exists>k \<le> length xs. P (take k xs)"
    by (cases "k \<le> length xs") (auto intro: exI [of _ "length xs"])
qed blast

lemma case_sum_Inr: "(case x of Inl e \<Rightarrow> False | Inr q \<Rightarrow> P q) \<longleftrightarrow> (\<exists>q. x = Inr q \<and> P q)"
  by (cases x) simp_all

lemma userPathAllowed_scope:
  assumes "sorted allowed" "allowed \<noteq> []"
  shows "userPathAllowed userPath allowed \<longleftrightarrow> path_in_scope userPath allowed"
proof (cases "''/'' \<in> set allowed")
  case True
  then show ?thesis using assms by (simp add: userPathAllowed_def path_in_scope_def binary_search_sorted)
next
  case root: False
  show ?thesis
  proof (cases "NormalizeUserPath userPath")
    case (Inl e)
    then show ?thesis using root assms
      by (simp add: userPathAllowed_def path_in_scope_def binary_search_sorted)
  next
    case (Inr p)
    show ?thesis
    proof (cases "p = []")
      case True
      then show ?thesis using root assms Inr
        by (auto simp: userPathAllowed_def path_in_scope_def binary_search_sorted)
    next
      case False
      then obtain c where c: "\<forall>s \<in> set c. good_segment s" "p = path_of c"
        using normalize_result [OF Inr] by blast
      have anc: "set (UserPathAncestors p) = {path_of (take k c) | k. k \<le> length c}"
        using ancestors_path_of [OF c(1)] c(2) by (auto simp: less_Suc_eq_le simp del: upt_Suc)
      have l: "userPathAllowed userPath allowed \<longleftrightarrow> (\<exists>k \<le> length c. path_of (take k c) \<in> set allowed)"
        using root assms Inr False anc
        by (auto simp: userPathAllowed_def binary_search_sorted list_ex_iff)
      have inj: "c' = c" if "NormalizeUserPath userPath = Inr (path_of c')" "\<forall>s \<in> set c'. good_segment s" for c'
        using that c Inr path_of_inj [of c' c] by simp
      have self: "NormalizeUserPath userPath = Inr (path_of c)" using Inr c(2) by simp
      have "path_in_scope userPath allowed \<longleftrightarrow> (\<exists>k. path_of (take k c) \<in> set allowed)"
        unfolding path_in_scope_def using root inj self c(1) by blast
      also have "(\<exists>k. path_of (take k c) \<in> set allowed) \<longleftrightarrow> (\<exists>k \<le> length c. path_of (take k c) \<in> set allowed)"
        by (rule ex_take)
      finally show ?thesis using l by simp
    qed
  qed
qed

section \<open>The access decision\<close>

definition rule_for :: "virtual_model list \<Rightarrow> string \<Rightarrow> string \<Rightarrow> virtual_model option" where
  "rule_for rules p m =
     or_else (if p \<noteq> [] \<and> m \<noteq> [] then last_match (exact_rule (p @ ''/'' @ m)) rules else None)
       (or_else (if p \<noteq> [] then last_match (provider_rule p) rules else None)
         (or_else (if m \<noteq> [] then last_match (model_rule m) rules else None)
           (last_match global_rule rules)))"

lemma matchingPolicy_rule:
  assumes "buildSnapshot rows d = Inr s" "go_trim p = p" "go_trim m = m"
  shows "matchingPolicy s p m = rule_for (policies rows) p m"
proof -
  have "ExactMatchKey p m = (if p = [] \<or> m = [] then [] else p @ ''/'' @ m)"
    using assms(2,3) by (simp add: ExactMatchKey_def Let_def)
  then show ?thesis
    using buildSnapshot_indexes [OF assms(1)]
    by (auto simp: matchingPolicy_def rule_for_def or_else_def Let_def split: option.split)
qed

lemma policies_sorted: "vm \<in> set (policies rows) \<Longrightarrow> sorted (vm_UserPaths vm)"
proof (induction rows)
  case (Cons row rows)
  have "sorted (vm_UserPaths v)" if "normalizeStoredPolicy row = Inr v" for v
    using that user_paths_loop_sorted
    by (auto simp: normalizeStoredPolicy_def with_policy_parts_def split: sum.splits)
  then show ?case using Cons by (auto split: if_splits sum.splits)
qed simp

text \<open>
  C22. Who may use a model is decided by the declared rows alone: by the last declared policy of
  the most specific scope that matches (provider and model, then provider, then model, then
  everything), or by the process-wide default without one. The policy must be enabled, and, if it
  has user paths, one of them must be the root or a prefix of the segments of the caller's path.
  The error of a refused request and the filtered model list follow the same decision.
\<close>

theorem access_decision:
  assumes built: "buildSnapshot rows d = Inr s"
    and p: "p = go_trim (ms_Provider sel)" and m: "m = go_trim (ms_Model sel)"
  shows "AllowsModel s userPath sel =
      (case (if p = [] \<and> m = [] then None else rule_for (policies rows) p m) of
         None \<Rightarrow> d
       | Some rule \<Rightarrow> vm_Enabled rule \<and>
           (vm_UserPaths rule = [] \<or> path_in_scope userPath (vm_UserPaths rule))) \<and>
    (ValidateModelAccess s userPath sel = None) = AllowsModel s userPath sel \<and>
    set (FilterPublicModels s userPath models) =
      {model \<in> set models. \<exists>q. ParseModelSelector (cm_ID model) [] = Inr q \<and> AllowsModel s userPath q}"
proof (intro conjI)
  have trim: "go_trim p = p" "go_trim m = m" using p m by simp_all
  note rule = matchingPolicy_rule [OF built trim]
  have d: "vs_defaultEnable s = d" by (rule buildSnapshot_indexes(5) [OF built])
  have sorted: "rule_for (policies rows) p m = Some r \<Longrightarrow> sorted (vm_UserPaths r)" for r
    using last_match_Some policies_sorted
    by (fastforce simp: rule_for_def or_else_def split: option.splits if_splits)
  show "AllowsModel s userPath sel =
      (case (if p = [] \<and> m = [] then None else rule_for (policies rows) p m) of
         None \<Rightarrow> d
       | Some rule \<Rightarrow> vm_Enabled rule \<and>
           (vm_UserPaths rule = [] \<or> path_in_scope userPath (vm_UserPaths rule)))"
  proof (cases "p = [] \<and> m = []")
    case True
    then show ?thesis using p m d by (simp add: AllowsModel_def effectiveState_def Let_def)
  next
    case False
    show ?thesis
    proof (cases "rule_for (policies rows) p m")
      case None
      then show ?thesis using False p m d rule by (simp add: AllowsModel_def effectiveState_def Let_def)
    next
      case (Some r)
      then have "AllowsModel s userPath sel =
          (vm_Enabled r \<and> (vm_UserPaths r = [] \<or> userPathAllowed userPath (vm_UserPaths r)))"
        using False p m rule by (auto simp: AllowsModel_def effectiveState_def Let_def)
      then show ?thesis using False Some userPathAllowed_scope [OF sorted [OF Some]] by auto
    qed
  qed
  show "(ValidateModelAccess s userPath sel = None) = AllowsModel s userPath sel"
    by (simp add: ValidateModelAccess_def AllowsModel_def Let_def)
  show "set (FilterPublicModels s userPath models) =
      {model \<in> set models. \<exists>q. ParseModelSelector (cm_ID model) [] = Inr q \<and> AllowsModel s userPath q}"
    by (simp add: FilterPublicModels_def case_sum_Inr)
qed

definition demo_policy :: "string \<Rightarrow> string list \<Rightarrow> bool \<Rightarrow> virtual_model" where
  "demo_policy source paths enabled =
     empty_vm\<lparr>vm_Source := source, vm_UserPaths := paths, vm_Enabled := enabled\<rparr>"

definition demo_rules :: "virtual_model list" where
  "demo_rules =
     [demo_policy ''/'' [] False, demo_policy ''openai/'' [''team''] True,
      demo_policy ''openai/gpt'' [''/team/alice''] True]"

lemma access_decision_witness:
  "(\<exists>s. buildSnapshot demo_rules True = Inr s \<and>
      AllowsModel s ''/team/alice/x'' \<lparr>ms_Model = ''gpt'', ms_Provider = ''openai''\<rparr> \<and>
      \<not> AllowsModel s ''/team/bob'' \<lparr>ms_Model = ''gpt'', ms_Provider = ''openai''\<rparr> \<and>
      ValidateModelAccess s ''/team/alice/x'' \<lparr>ms_Model = ''gpt'', ms_Provider = ''openai''\<rparr> = None)"
proof -
  let ?sel = "\<lparr>ms_Model = ''gpt'', ms_Provider = ''openai''\<rparr>"
  have "(case buildSnapshot demo_rules True of Inl e \<Rightarrow> False
     | Inr s \<Rightarrow> AllowsModel s ''/team/alice/x'' ?sel \<and> \<not> AllowsModel s ''/team/bob'' ?sel)"
    by code_simp
  then obtain s where s: "buildSnapshot demo_rules True = Inr s"
      "AllowsModel s ''/team/alice/x'' ?sel" "\<not> AllowsModel s ''/team/bob'' ?sel"
    by (auto split: sum.splits)
  moreover have "ValidateModelAccess s ''/team/alice/x'' ?sel = None"
    using access_decision [OF s(1) refl refl, of "''/team/alice/x''" ?sel "[]"] s(2) by blast
  ultimately show ?thesis by blast
qed

section \<open>Administrative writes\<close>

text \<open>What the service relies on of its store: \<open>contents\<close> are the rows by source; a call that
  reports an error has changed nothing, and a read never does.\<close>

locale row_store =
  fixes store :: "'st vm_store"
    and contents :: "'st \<Rightarrow> string \<rightharpoonup> virtual_model"
  assumes list_keeps: "vst_List store st = (r, st') \<Longrightarrow> contents st' = contents st"
    and upsert_ok: "vst_Upsert store vm st = (None, st') \<Longrightarrow> contents st' = (contents st)(vm_Source vm \<mapsto> vm)"
    and upsert_fails: "vst_Upsert store vm st = (Some e, st') \<Longrightarrow> contents st' = contents st"
    and delete_ok: "vst_Delete store k st = (None, st') \<Longrightarrow> contents st' = (contents st)(k := None)"
    and delete_fails: "vst_Delete store k st = (Some e, st') \<Longrightarrow> contents st' = contents st"
    and delete_missing: "vst_Delete store k st = (Some RowNotFound, st') \<Longrightarrow> contents st k = None"
begin

text \<open>Restoring without an error puts back every captured row.\<close>

lemma restore_contents:
  assumes "restore store prior st = ([], st')" "distinct (map fst prior)"
    "\<forall>(k, row) \<in> set prior. \<forall>vm. row = Some vm \<longrightarrow> vm_Source vm = k"
  shows "contents st' = (\<lambda>k. case map_of prior k of Some row \<Rightarrow> row | None \<Rightarrow> contents st k)"
  using assms
proof (induction prior arbitrary: st)
  case Nil then show ?case by simp
next
  case (Cons a prior)
  obtain k row where a: "a = (k, row)" by (cases a)
  have "\<exists>st1. restore store prior st1 = ([], st') \<and> contents st1 = (contents st)(k := row)"
  proof (cases row)
    case None
    show ?thesis
    proof (cases "vst_Delete store k st")
      case (Pair err st1)
      have "err = None \<or> err = Some RowNotFound"
        using Cons.prems(1) a None Pair by (auto split: option.splits vm_error.splits prod.splits)
      then have "restore store prior st1 = ([], st')" "contents st1 = (contents st)(k := None)"
        using Cons.prems(1) a None Pair delete_ok delete_fails delete_missing
        by (auto split: prod.splits simp: fun_upd_idem)
      then show ?thesis using None by blast
    qed
  next
    case (Some vm)
    show ?thesis
    proof (cases "vst_Upsert store vm st")
      case (Pair err st1)
      have "err = None"
        using Cons.prems(1) a Some Pair by (auto split: option.splits prod.splits)
      moreover have "vm_Source vm = k" using Cons.prems(3) a Some by simp
      ultimately have "restore store prior st1 = ([], st')" "contents st1 = (contents st)(k := row)"
        using Cons.prems(1) a Some Pair upsert_ok by (auto split: prod.splits)
      then show ?thesis by blast
    qed
  qed
  then obtain st1 where st1: "restore store prior st1 = ([], st')" "contents st1 = (contents st)(k := row)" by blast
  have ih: "contents st' = (\<lambda>k. case map_of prior k of Some row \<Rightarrow> row | None \<Rightarrow> contents st1 k)"
    using Cons.IH [OF st1(1)] Cons.prems(2,3) by simp
  have "map_of prior k = None" using Cons.prems(2) a by (simp add: map_of_eq_None_iff)
  then show ?case unfolding ih st1(2) a by (auto split: option.split)
qed

lemma refreshLocked_contents:
  "refreshLocked store s st = (r, s', st') \<Longrightarrow> contents st' = contents st \<and> (r \<noteq> None \<longrightarrow> s' = s)"
  by (auto simp: refreshLocked_def split: prod.splits sum.splits dest: list_keeps)

end

text \<open>The production store keeps the contract.\<close>

interpretation ro: row_store readOnlyConfigStore "\<lambda>_. Map.empty"
  by unfold_locales (simp_all add: readOnlyConfigStore_def)

text \<open>The errors of a rollback that an error reports.\<close>

fun rollback_errors :: "vm_error \<Rightarrow> vm_error list" where
  "rollback_errors (DeleteOldFailed e errs) = errs"
| "rollback_errors (RefreshFailed e errs) = errs"
| "rollback_errors e = []"

text \<open>The store and the snapshot agree on a source; the service keeps the rows of the configuration in its
  snapshot only, and refuses to write them.\<close>

definition in_sync :: "('st \<Rightarrow> string \<rightharpoonup> virtual_model) \<Rightarrow> vm_service \<Rightarrow> 'st \<Rightarrow> string \<Rightarrow> bool" where
  "in_sync contents s st k \<longleftrightarrow>
     contents st k = map_of (vs_bySource (sv_current s)) k \<and>
     (\<forall>vm. contents st k = Some vm \<longrightarrow> vm_Source vm = k)"

definition refuses_writes :: "'st vm_store \<Rightarrow> bool" where
  "refuses_writes store \<longleftrightarrow>
     (\<forall>vm st. fst (vst_Upsert store vm st) \<noteq> None) \<and> (\<forall>k st. fst (vst_Delete store k st) \<noteq> None)"

definition store_agrees ::
  "'st vm_store \<Rightarrow> ('st \<Rightarrow> string \<rightharpoonup> virtual_model) \<Rightarrow> vm_service \<Rightarrow> 'st \<Rightarrow> bool" where
  "store_agrees store contents s st \<longleftrightarrow>
     refuses_writes store \<or> (\<forall>k. \<not> isManagedSource s k \<longrightarrow> in_sync contents s st k)"

lemma in_syncD: "in_sync contents s st k \<Longrightarrow> map_of (vs_bySource (sv_current s)) k = contents st k"
  by (simp add: in_sync_def)

lemma in_sync_source: "in_sync contents s st k \<Longrightarrow> contents st k = Some vm \<Longrightarrow> vm_Source vm = k"
  by (simp add: in_sync_def)

lemma store_agrees_upsert:
  "store_agrees store contents s st \<Longrightarrow> vst_Upsert store vm st1 = (None, st2) \<Longrightarrow> \<not> isManagedSource s k \<Longrightarrow>
   in_sync contents s st k"
  by (metis store_agrees_def refuses_writes_def fst_conv)

lemma store_agrees_delete:
  "store_agrees store contents s st \<Longrightarrow> vst_Delete store k' st1 = (None, st2) \<Longrightarrow> \<not> isManagedSource s k \<Longrightarrow>
   in_sync contents s st k"
  by (metis store_agrees_def refuses_writes_def fst_conv)

context row_store begin

lemma commitRefresh_fails:
  assumes c: "commitRefresh store prior s st1 = (Some e, s', st')" and r: "rollback_errors e = []"
    and prior: "distinct (map fst prior)" "\<forall>(k, row) \<in> set prior. row = contents st k \<and> in_sync contents s st k"
    and touched: "\<forall>k. k \<notin> fst ` set prior \<longrightarrow> contents st1 k = contents st k"
  shows "s' = s \<and> contents st' = contents st"
proof -
  obtain r2 s2 st2 where rf: "refreshLocked store s st1 = (r2, s2, st2)" by (metis prod_cases3)
  then obtain err where err: "r2 = Some err" "s' = s2" "e = RefreshFailed err (fst (restore store prior st2))"
      "st' = snd (restore store prior st2)"
    using c by (cases r2) (auto simp: commitRefresh_def split: prod.splits)
  have "s2 = s" "contents st2 = contents st1" using refreshLocked_contents [OF rf] err(1) by auto
  moreover have "restore store prior st2 = ([], st')" using r err(3,4) by (simp add: prod_eq_iff)
  then have "contents st' = (\<lambda>k. case map_of prior k of Some row \<Rightarrow> row | None \<Rightarrow> contents st2 k)"
    using prior by (intro restore_contents) (auto simp: in_sync_def)
  moreover have "map_of prior k = Some row \<Longrightarrow> row = contents st k" for k row
    using prior(2) by (auto dest: map_of_SomeD)
  moreover have "map_of prior k = None \<Longrightarrow> contents st1 k = contents st k" for k
    using touched by (simp add: map_of_eq_None_iff)
  ultimately show ?thesis using err(2) by (auto simp: fun_eq_iff split: option.split)
qed

lemma Upsert_fails:
  assumes u: "Upsert store cat vm s st = (Some e, s', st')" and r: "rollback_errors e = []"
    and sync: "store_agrees store contents s st"
  shows "s' = s \<and> contents st' = contents st"
proof -
  consider "s' = s" "st' = st"
    | n st1 err where "vst_Upsert store n st = (Some err, st1)" "s' = s" "st' = st1"
    | n st1 where "vst_Upsert store n st = (None, st1)" "\<not> isManagedSource s (vm_Source n)"
        "commitRefresh store [(vm_Source n, map_of (vs_bySource (sv_current s)) (vm_Source n))] s st1 = (Some e, s', st')"
    using u by (auto simp: Upsert_def Let_def split: sum.splits if_splits option.splits prod.splits)
  then show ?thesis
  proof cases
    case (3 n st1)
    note sync = store_agrees_upsert [OF sync 3(1,2)]
    show ?thesis
      by (rule commitRefresh_fails [OF 3(3) r]) (simp_all add: sync in_syncD [OF sync] upsert_ok [OF 3(1)])
  qed (auto dest: upsert_fails)
qed

lemma vm_Delete_fails:
  assumes u: "vm_Delete store source s st = (Some e, s', st')" and r: "rollback_errors e = []"
    and sync: "store_agrees store contents s st"
  shows "s' = s \<and> contents st' = contents st"
proof -
  consider "s' = s" "st' = st"
    | k st1 err where "vst_Delete store k st = (Some err, st1)" "s' = s" "st' = st1"
    | k prev st1 where "lookupCanonicalSource (sv_current s) (go_trim source) = Some (prev, k)"
        "\<not> isManagedSource s k" "vst_Delete store k st = (None, st1)" "commitRefresh store [(k, Some prev)] s st1 = (Some e, s', st')"
    using u by (auto simp: vm_Delete_def Let_def split: if_splits option.splits prod.splits vm_error.splits)
  then show ?thesis
  proof cases
    case (3 k prev st1)
    have "map_of (vs_bySource (sv_current s)) k = Some prev"
      using 3(1) by (auto simp: lookupCanonicalSource_def Let_def split: option.splits sum.splits)
    note prev = this and sync = store_agrees_delete [OF sync 3(3,2)]
    show ?thesis
      by (rule commitRefresh_fails [OF 3(4) r])
        (simp_all add: sync in_syncD [OF sync, symmetric] prev delete_ok [OF 3(3)])
  qed (auto dest: delete_fails)
qed

end

lemma Rename_cases:
  assumes u: "Rename store cat old vm s st = (Some e, s', st')"
  obtains (early) "s' = s" "st' = st"
    | (same) "Upsert store cat vm s st = (Some e, s', st')"
    | (refused) n st1 err where "vst_Upsert store n st = (Some err, st1)" "s' = s" "st' = st1"
    | (stuck) n prev st1 err st2 errs where "map_of (vs_bySource (sv_current s)) (go_trim old) = Some prev"
        "map_of (vs_bySource (sv_current s)) (vm_Source n) = None" "vm_Source n \<noteq> go_trim old"
        "\<not> isManagedSource s (go_trim old)" "\<not> isManagedSource s (vm_Source n)"
        "vst_Upsert store n st = (None, st1)" "vst_Delete store (go_trim old) st1 = (Some err, st2)"
        "restore store [(vm_Source n, None), (go_trim old, Some prev)] st2 = (errs, st')"
        "e = DeleteOldFailed err errs" "s' = s"
    | (moved) n prev st1 st2 where "map_of (vs_bySource (sv_current s)) (go_trim old) = Some prev"
        "map_of (vs_bySource (sv_current s)) (vm_Source n) = None" "vm_Source n \<noteq> go_trim old"
        "\<not> isManagedSource s (go_trim old)" "\<not> isManagedSource s (vm_Source n)"
        "vst_Upsert store n st = (None, st1)" "vst_Delete store (go_trim old) st1 = (None, st2)"
        "commitRefresh store [(vm_Source n, None), (go_trim old, Some prev)] s st2 = (Some e, s', st')"
proof (cases "go_trim old = [] \<or> (\<exists>err. normalizeForUpsert cat vm = Inl err)")
  case True
  then show ?thesis using u early
    by (cases "go_trim old = []"; cases "normalizeForUpsert cat vm") (simp_all add: Rename_def)
next
  case False
  then obtain n where n: "go_trim old \<noteq> []" "normalizeForUpsert cat vm = Inr n"
    by (cases "normalizeForUpsert cat vm") auto
  let ?by = "map_of (vs_bySource (sv_current s))" and ?old = "go_trim old"
  let ?managed = "isManagedSource s ?old \<or> isManagedSource s (vm_Source n) \<or> isManagedSource s (vm_Source vm)"
  let ?bad = "?managed \<or> ?by ?old = None \<or> ?by (vm_Source n) \<noteq> None \<or>
      validateRedirectTarget cat (sv_current s) n \<noteq> None \<or>
      (\<exists>err. buildSnapshot (upsertRow (removeRow (snapshot_rows (sv_current s)) ?old) n) (sv_defaultEnabled s) = Inl err)"
  show ?thesis
  proof (cases "vm_Source n = ?old")
    case True then show ?thesis using u n same by (simp add: Rename_def Let_def)
  next
    case ne: False
    show ?thesis
    proof (cases ?bad)
      case True
      then show ?thesis using u n ne early
        by (auto simp: Rename_def Let_def split: if_splits option.splits sum.splits)
    next
      case False
      then obtain prev sn where ok: "\<not> ?managed" "?by ?old = Some prev" "?by (vm_Source n) = None"
          "validateRedirectTarget cat (sv_current s) n = None"
          "buildSnapshot (upsertRow (removeRow (snapshot_rows (sv_current s)) ?old) n) (sv_defaultEnabled s) = Inr sn"
        by (cases "buildSnapshot (upsertRow (removeRow (snapshot_rows (sv_current s)) ?old) n) (sv_defaultEnabled s)") auto
      obtain r1 st1 where r1: "vst_Upsert store n st = (r1, st1)" by fastforce
      obtain r2 st2 where r2: "vst_Delete store ?old st1 = (r2, st2)" by fastforce
      obtain errs st3 where r3: "restore store [(vm_Source n, None), (?old, Some prev)] st2 = (errs, st3)"
        by fastforce
      show ?thesis
      proof (cases r1)
        case (Some err)
        then show ?thesis using u n ne ok r1 refused by (simp add: Rename_def Let_def)
      next
        case None
        note r1' = r1 [unfolded None]
        show ?thesis
        proof (cases r2)
          case (Some err)
          have "e = DeleteOldFailed err errs \<and> s' = s \<and> st' = st3"
            using u n ne ok r1' r2 Some r3 by (simp add: Rename_def Let_def del: restore.simps)
          then show ?thesis using stuck [OF ok(2,3) ne _ _ r1'] ok(1) r2 Some r3 by simp
        next
          case None
          then show ?thesis using u n ne ok r1' r2 moved [OF ok(2,3) ne _ _ r1'] by (simp add: Rename_def Let_def)
        qed
      qed
    qed
  qed
qed

context row_store begin

lemma Rename_fails:
  assumes u: "Rename store cat old vm s st = (Some e, s', st')" and r: "rollback_errors e = []"
    and sync: "store_agrees store contents s st"
  shows "s' = s \<and> contents st' = contents st"
  using u
proof (cases rule: Rename_cases)
  case same then show ?thesis using Upsert_fails [OF _ r sync] by blast
next
  case (stuck n prev st1 err st2 errs)
  note sync = store_agrees_upsert [OF sync stuck(6) stuck(4)] store_agrees_upsert [OF sync stuck(6) stuck(5)]
  have "contents st' = (\<lambda>k. case map_of [(vm_Source n, None), (go_trim old, Some prev)] k of
      Some row \<Rightarrow> row | None \<Rightarrow> contents st2 k)"
    using stuck(3,8,9) r in_syncD [OF sync(1)] stuck(1) in_sync_source [OF sync(1), of prev]
    by (intro restore_contents) (auto simp del: restore.simps)
  moreover have "contents st2 = (contents st)(vm_Source n \<mapsto> n)"
    using upsert_ok [OF stuck(6)] delete_fails [OF stuck(7)] by simp
  ultimately show ?thesis
    using stuck(1-3,10) in_syncD [OF sync(1)] in_syncD [OF sync(2)] by (auto simp: fun_eq_iff)
next
  case (moved n prev st1 st2)
  note sync = store_agrees_upsert [OF sync moved(6) moved(4)] store_agrees_upsert [OF sync moved(6) moved(5)]
  show ?thesis
    by (rule commitRefresh_fails [OF moved(8) r])
       (use moved(1-3) sync in_syncD [OF sync(1)] in_syncD [OF sync(2)] upsert_ok [OF moved(6)] delete_ok [OF moved(7)]
         in \<open>auto simp del: fun_upd_apply simp: fun_upd_other\<close>)
qed (auto dest: upsert_fails)

end

datatype vm_write = WriteUpsert virtual_model | WriteRename string virtual_model | WriteDelete string

fun write_row ::
  "'st vm_store \<Rightarrow> catalog \<Rightarrow> vm_write \<Rightarrow> vm_service \<Rightarrow> 'st \<Rightarrow> vm_error option \<times> vm_service \<times> 'st" where
  "write_row store cat (WriteUpsert vm) s st = Upsert store cat vm s st"
| "write_row store cat (WriteRename old vm) s st = Rename store cat old vm s st"
| "write_row store cat (WriteDelete source) s st = vm_Delete store source s st"

text \<open>
  C23. An administrative write that fails leaves no trace. The store either refuses every write, as the
  production store does, or it keeps its contract and agrees with the snapshot on every source that
  the configuration does not manage. Then an upsert, rename or delete that reports an error, at
  whatever point, whether in the validation, in the store or in the refresh after the write, leaves
  the service and the contents of the store as they were, unless the error itself reports a failed
  rollback. What is put back is the row of the snapshot, so agreement is needed: see
  \<open>stale_snapshot_written_back\<close>.
\<close>

theorem failed_write_restores:
  assumes "row_store store contents" "store_agrees store contents s st"
    and "write_row store cat w s st = (Some e, s', st')" "rollback_errors e = []"
  shows "s' = s \<and> contents st' = contents st"
proof (cases w)
  case (WriteUpsert vm)
  then show ?thesis using row_store.Upsert_fails [OF assms(1) _ assms(4,2)] assms(3) by simp
next
  case (WriteRename old vm)
  then show ?thesis using row_store.Rename_fails [OF assms(1) _ assms(4,2)] assms(3) by simp
next
  case (WriteDelete source)
  then show ?thesis using row_store.vm_Delete_fails [OF assms(1) _ assms(4,2)] assms(3) by simp
qed

text \<open>A store of rows whose next read fails once after a write.\<close>

definition demo_row_store :: "(virtual_model list \<times> bool) vm_store" where
  "demo_row_store =
     \<lparr>vst_List = (\<lambda>(rows, broken). (if broken then Inl (StoreFailure ContextCanceled) else Inr rows, (rows, False))),
      vst_Upsert = (\<lambda>vm (rows, broken). (None, (upsertRow rows vm, True))),
      vst_Delete = (\<lambda>k (rows, broken).
         if k \<in> vm_Source ` set rows then (None, (removeRow rows k, True)) else (Some RowNotFound, (rows, broken)))\<rparr>"

definition demo_contents :: "virtual_model list \<times> bool \<Rightarrow> string \<rightharpoonup> virtual_model" where
  "demo_contents st = map_of (map (\<lambda>vm. (vm_Source vm, vm)) (fst st))"

lemma demo_contents_upsert:
  "demo_contents (upsertRow rows vm, b) = (demo_contents (rows, b'))(vm_Source vm \<mapsto> vm)"
  by (induction rows) (auto simp: demo_contents_def fun_eq_iff)

lemma demo_contents_remove: "demo_contents (removeRow rows k, b) = (demo_contents (rows, b'))(k := None)"
  by (induction rows) (auto simp: demo_contents_def removeRow_def fun_eq_iff)

lemma demo_row_store: "row_store demo_row_store demo_contents"
proof
  have miss: "demo_contents (rows, b) k = None" if "k \<notin> vm_Source ` set rows" for rows b k
    using that by (induction rows) (auto simp: demo_contents_def)
  show "vst_Delete demo_row_store k st = (Some RowNotFound, st') \<Longrightarrow> demo_contents st k = None" for k st st'
    by (cases st) (auto simp: demo_row_store_def miss split: if_splits)
qed (auto simp: demo_row_store_def demo_contents_upsert demo_contents_remove split: prod.splits if_splits,
     auto simp: demo_contents_def)

definition demo_catalog :: "string list \<Rightarrow> catalog" where
  "demo_catalog models =
     \<lparr>cat_Supports = (\<lambda>m. m \<in> set models), cat_ModelAvailable = (\<lambda>m. m \<in> set models),
      cat_GetProviderType = (\<lambda>m. []), cat_LookupModel = (\<lambda>m. None), cat_ProviderNames = [''a'', ''b'']\<rparr>"

text \<open>A service with one row of the configuration and one of the store, whose next refresh fails.\<close>

definition demo_row :: "string list \<Rightarrow> virtual_model" where
  "demo_row paths = (demo_policy ''b/z'' paths False)\<lparr>vm_ProviderName := ''b'', vm_Model := ''z''\<rparr>"

definition demo_managed :: vm_service where
  "demo_managed =
     fst (snd (refreshLocked demo_row_store (SetConfigModels [demo_policy ''a/y'' [] True] (NewService True))
       ([demo_row []], False)))"

lemma demo_managed_sources: "map fst (vs_bySource (sv_current demo_managed)) = [''b/z'', ''a/y'']"
  by code_simp

lemma demo_managed_row: "map_of (vs_bySource (sv_current demo_managed)) ''b/z'' = Some (demo_row [])"
  by code_simp

lemma demo_managed_config: "isManagedSource demo_managed ''a/y''"
  by code_simp

lemma demo_managed_upsert:
  "case write_row demo_row_store (demo_catalog []) (WriteUpsert (demo_policy ''b/z'' [] True)) demo_managed
       ([demo_row []], False) of
     (Some (RefreshFailed err errs), s', st') \<Rightarrow> errs = [] | _ \<Rightarrow> False"
  by code_simp

lemma demo_managed_delete:
  "case write_row readOnlyConfigStore (demo_catalog []) (WriteDelete ''a/y'') demo_managed () of
     (Some (ManagedSource k), s', st') \<Rightarrow> True | _ \<Rightarrow> False"
  by code_simp

lemma failed_write_restores_witness:
  "\<exists>e s' st'. write_row demo_row_store (demo_catalog []) (WriteUpsert (demo_policy ''b/z'' [] True)) demo_managed
       ([demo_row []], False) = (Some e, s', st')
     \<and> s' = demo_managed \<and> demo_contents st' = demo_contents ([demo_row []], False)
     \<and> (\<exists>e s'. write_row readOnlyConfigStore (demo_catalog []) (WriteDelete ''a/y'') demo_managed () = (Some e, s', ())
          \<and> s' = demo_managed)"
proof -
  let ?w = "write_row demo_row_store (demo_catalog []) (WriteUpsert (demo_policy ''b/z'' [] True)) demo_managed
       ([demo_row []], False)"
  let ?d = "write_row readOnlyConfigStore (demo_catalog []) (WriteDelete ''a/y'') demo_managed ()"
  obtain err s' st' where w: "?w = (Some (RefreshFailed err []), s', st')"
    using demo_managed_upsert by (auto split: prod.splits option.splits vm_error.splits)
  obtain k s2 where d: "?d = (Some (ManagedSource k), s2, ())"
    using demo_managed_delete by (auto split: prod.splits option.splits vm_error.splits)
  note by_source = demo_managed_sources demo_managed_row demo_managed_config
  have "in_sync demo_contents demo_managed ([demo_row []], False) k" if "\<not> isManagedSource demo_managed k" for k
  proof (cases "k = ''b/z''")
    case False
    then have "k \<notin> set [''b/z'', ''a/y'']" using that demo_managed_config by auto
    then have "k \<notin> fst ` set (vs_bySource (sv_current demo_managed))"
      unfolding by_source(1) [symmetric] set_map .
    then have "map_of (vs_bySource (sv_current demo_managed)) k = None" by (simp add: map_of_eq_None_iff)
    moreover have "demo_contents ([demo_row []], False) k = None"
      using False by (simp add: demo_contents_def demo_row_def demo_policy_def)
    ultimately show ?thesis by (simp add: in_sync_def)
  qed (simp add: in_sync_def demo_contents_def by_source(2), simp add: demo_row_def demo_policy_def)
  then have "store_agrees demo_row_store demo_contents demo_managed ([demo_row []], False)"
    by (simp add: store_agrees_def)
  from failed_write_restores [OF demo_row_store this w] have "s' = demo_managed"
    "demo_contents st' = demo_contents ([demo_row []], False)" by simp_all
  moreover have "store_agrees readOnlyConfigStore (\<lambda>_. Map.empty) demo_managed ()"
    by (simp add: store_agrees_def refuses_writes_def readOnlyConfigStore_def)
  from failed_write_restores [OF ro.row_store_axioms this d] have "s2 = demo_managed" by simp
  ultimately show ?thesis using w d by blast
qed

text \<open>When the store was changed behind the service's back since the last refresh, a failed write puts
  back the stale row of the snapshot.\<close>

lemma stale_snapshot_written_back:
  "let changed = [demo_row [''/new'']];
       (e, s', st') = write_row demo_row_store (demo_catalog []) (WriteUpsert (demo_policy ''b/z'' [] True))
         demo_managed (changed, False)
   in e \<noteq> None \<and> fst st' = [demo_row []] \<and> fst st' \<noteq> changed"
  by code_simp

end
