(* ===== verification/SSEStream.thy ===== *)
theory SSEStream
  imports Prelude
begin

text \<open>
  Server-sent events: the FIFO buffer of the stream converters
  (\<open>internal/streaming/stream_buffer.go\<close>), the proxy that watches a stream while passing it on
  (\<open>internal/streaming/observed_sse_stream.go\<close>) and the check a stream must pass before it is
  cached (\<open>internal/responsecache/sse_validation.go\<close>, \<open>stream_cache.go\<close>).

  Byte slices are strings; the result -1 of a search is \<open>None\<close>. The JSON decoder is the parameter
  \<open>dec\<close> (the decoded object, or \<open>None\<close> for an error); \<open>json.Valid\<close> is the parameter \<open>valid\<close>.
  Observers are numbered in the order of the slice; the calls they receive are recorded in
  order. The reference definition \<open>sse_events\<close> splits a whole stream at its event boundaries; the
  main theorem says that the proxy, which sees the stream in arbitrary chunks and keeps at most
  one unfinished event, delivers exactly the events of the whole stream.
\<close>

section \<open>The stream buffer\<close>

record stream_buffer =
  sb_data :: "string option"    \<comment> \<open>\<open>None\<close> is a nil slice\<close>
  sb_read :: nat
  sb_pooled :: bool             \<comment> \<open>storage borrowed from the pool\<close>

definition NewStreamBuffer :: stream_buffer where
  "NewStreamBuffer = \<lparr>sb_data = Some [], sb_read = 0, sb_pooled = True\<rparr>"

definition sb_bytes :: "stream_buffer \<Rightarrow> string" where
  "sb_bytes b = (case sb_data b of None \<Rightarrow> [] | Some d \<Rightarrow> d)"

definition sb_Len :: "stream_buffer \<Rightarrow> nat" where
  "sb_Len b = (if sb_read b \<ge> length (sb_bytes b) then 0 else length (sb_bytes b) - sb_read b)"

definition Unread :: "stream_buffer \<Rightarrow> string" where
  "Unread b = (if sb_Len b = 0 then [] else drop (sb_read b) (sb_bytes b))"

definition prepareAppend :: "stream_buffer \<Rightarrow> stream_buffer" where
  "prepareAppend b =
     (case sb_data b of
        None \<Rightarrow> NewStreamBuffer
      | Some d \<Rightarrow>
          if sb_read b = 0 then b
          else if sb_read b \<ge> length d then b\<lparr>sb_data := Some [], sb_read := 0\<rparr>
          else b\<lparr>sb_data := Some (drop (sb_read b) d), sb_read := 0\<rparr>)"

definition AppendBytes :: "string \<Rightarrow> stream_buffer \<Rightarrow> stream_buffer" where
  "AppendBytes data b =
     (if data = [] then b
      else let b' = prepareAppend b in b'\<lparr>sb_data := Some (sb_bytes b' @ data)\<rparr>)"

definition Consume :: "int \<Rightarrow> stream_buffer \<Rightarrow> stream_buffer" where
  "Consume n b =
     (if n \<le> 0 \<or> sb_Len b = 0 then b
      else if n \<ge> int (sb_Len b) then b\<lparr>sb_data := Some [], sb_read := 0\<rparr>
      else b\<lparr>sb_read := sb_read b + nat n\<rparr>)"

definition sb_Read :: "nat \<Rightarrow> stream_buffer \<Rightarrow> string \<times> stream_buffer" where
  \<comment> \<open>the bytes copied into a destination of the given length\<close>
  "sb_Read k b =
     (if k = 0 \<or> sb_Len b = 0 then ([], b)
      else let p = take k (drop (sb_read b) (sb_bytes b)) in (p, Consume (int (length p)) b))"

definition sb_Release :: "stream_buffer \<Rightarrow> stream_buffer" where
  "sb_Release b = b\<lparr>sb_data := None, sb_pooled := False, sb_read := 0\<rparr>"

text \<open>The buffer implements a queue of bytes; compaction cannot be observed.\<close>

lemma Unread_drop: "Unread b = drop (sb_read b) (sb_bytes b)"
  by (simp add: Unread_def sb_Len_def)

lemma sb_Len_Unread: "sb_Len b = length (Unread b)"
  by (simp add: Unread_drop sb_Len_def)

lemma Unread_prepareAppend [simp]:
  "Unread (prepareAppend b) = Unread b" "sb_read (prepareAppend b) = 0"
  by (auto simp: Unread_drop prepareAppend_def sb_bytes_def NewStreamBuffer_def
      split: option.splits)

lemma Unread_AppendBytes: "Unread (AppendBytes d b) = Unread b @ d"
proof -
  have "sb_bytes (prepareAppend b) = Unread b"
    using Unread_drop [of "prepareAppend b"] by simp
  then show ?thesis
    by (simp add: AppendBytes_def Let_def Unread_drop [of "prepareAppend b\<lparr>sb_data := _\<rparr>"]
        sb_bytes_def [of "prepareAppend b\<lparr>sb_data := _\<rparr>"])
qed

lemma Unread_Consume: "Unread (Consume n b) = drop (nat n) (Unread b)"
  by (auto simp: Consume_def sb_Len_Unread Unread_drop sb_bytes_def add.commute)

lemma sb_Read_queue:
  "fst (sb_Read k b) = take k (Unread b)"
  "Unread (snd (sb_Read k b)) = drop k (Unread b)"
proof -
  have len: "sb_Len b = length (drop (sb_read b) (sb_bytes b))"
    by (simp add: sb_Len_Unread Unread_drop)
  show "fst (sb_Read k b) = take k (Unread b)"
    by (auto simp: sb_Read_def Let_def len Unread_drop)
  show "Unread (snd (sb_Read k b)) = drop k (Unread b)"
    by (auto simp: sb_Read_def Let_def sb_Len_Unread Unread_Consume min_def
        simp flip: Unread_drop)
qed

lemma Unread_Release [simp]: "Unread (sb_Release b) = []"
  by (simp add: Unread_drop sb_Release_def sb_bytes_def)

section \<open>Event boundaries\<close>

abbreviation LF :: char where "LF \<equiv> CHR 0x0A"
abbreviation CR :: char where "CR \<equiv> CHR 0x0D"

definition lfEventBoundary :: string where "lfEventBoundary = [LF, LF]"
definition crlfEventBoundary :: string where "crlfEventBoundary = [CR, LF, CR, LF]"
definition dataPrefix :: string where "dataPrefix = ''data:''"
definition donePayload :: string where "donePayload = ''[DONE]''"
definition maxPendingEventBytes :: nat where "maxPendingEventBytes = 256 * 1024"
definition maxBoundaryTailBytes :: nat where "maxBoundaryTailBytes = 3"

definition nextEventBoundary :: "string \<Rightarrow> (nat \<times> nat) option" where
  "nextEventBoundary data =
     (case (index_of lfEventBoundary data, index_of crlfEventBoundary data) of
        (None, None) \<Rightarrow> None
      | (None, Some c) \<Rightarrow> Some (c, length crlfEventBoundary)
      | (Some l, None) \<Rightarrow> Some (l, length lfEventBoundary)
      | (Some l, Some c) \<Rightarrow>
          if l < c then Some (l, length lfEventBoundary)
          else Some (c, length crlfEventBoundary))"

fun joinedBytesMatch :: "string \<Rightarrow> string \<Rightarrow> nat \<Rightarrow> string \<Rightarrow> bool" where
  "joinedBytesMatch prefix data pos [] = True"
| "joinedBytesMatch prefix data pos (want # boundary) =
     (if pos < length prefix
      then prefix ! pos = want \<and> joinedBytesMatch prefix data (Suc pos) boundary
      else if pos - length prefix < length data
      then data ! (pos - length prefix) = want \<and> joinedBytesMatch prefix data (Suc pos) boundary
      else False)"

definition try_boundary ::
  "string \<Rightarrow> string \<Rightarrow> nat \<Rightarrow> string \<Rightarrow> (nat \<times> nat) option \<Rightarrow> (nat \<times> nat) option" where
  "try_boundary prefix data offset boundary found =
     (if offset + length boundary \<le> length prefix then found
      else if joinedBytesMatch prefix data offset boundary then
        (case found of
           None \<Rightarrow> Some (offset, length boundary)
         | Some (idx, sepLen) \<Rightarrow>
             if offset < idx then Some (offset, length boundary) else found)
      else found)"

definition nextBoundaryAcrossJoin :: "string \<Rightarrow> string \<Rightarrow> (nat \<times> nat) option" where
  "nextBoundaryAcrossJoin prefix data =
     fold (\<lambda>offset found.
         try_boundary prefix data offset crlfEventBoundary
           (try_boundary prefix data offset lfEventBoundary found))
       [length prefix - maxBoundaryTailBytes ..< length prefix] None"

definition nextJoinedEventBoundary :: "string \<Rightarrow> string \<Rightarrow> (nat \<times> nat) option" where
  "nextJoinedEventBoundary prefix data =
     (let cross = nextBoundaryAcrossJoin prefix data
      in case nextEventBoundary data of
           None \<Rightarrow> cross
         | Some (dataIdx, dataSepLen) \<Rightarrow>
             (case cross of
                None \<Rightarrow> Some (length prefix + dataIdx, dataSepLen)
              | Some (idx, sepLen) \<Rightarrow>
                  if length prefix + dataIdx < idx then Some (length prefix + dataIdx, dataSepLen)
                  else cross))"

definition dataOffsetAfterBoundary :: "nat \<Rightarrow> nat \<Rightarrow> nat \<Rightarrow> nat" where
  "dataOffsetAfterBoundary prefixLen idx sepLen =
     (if idx \<ge> prefixLen then idx - prefixLen + sepLen
      else let prefixConsumed = prefixLen - idx
           in if prefixConsumed \<ge> sepLen then 0 else sepLen - prefixConsumed)"

definition joinedSuffix :: "string \<Rightarrow> string \<Rightarrow> nat \<Rightarrow> string" where
  "joinedSuffix prefix data n =
     (if n = 0 then []
      else if length data \<ge> n then drop (length data - n) data
      else let needPrefix = min (n - length data) (length prefix)
           in drop (length prefix - needPrefix) prefix @ data)"

text \<open>A boundary stands at an offset when one of the two separators starts there.\<close>

definition boundary_at :: "string \<Rightarrow> nat \<Rightarrow> nat \<Rightarrow> bool" where
  "boundary_at s i n \<longleftrightarrow>
     (has_prefix (drop i s) lfEventBoundary \<and> n = 2)
   \<or> (has_prefix (drop i s) crlfEventBoundary \<and> n = 4)"

lemma has_prefix_nth:
  "has_prefix s p \<longleftrightarrow> length p \<le> length s \<and> (\<forall>k<length p. s ! k = p ! k)"
  by (auto simp: has_prefix_take list_eq_iff_nth_eq)

lemma lf_at: "has_prefix (drop i s) lfEventBoundary \<longleftrightarrow>
    i + 2 \<le> length s \<and> s ! i = LF \<and> s ! (i + 1) = LF"
proof (cases "i + 2 \<le> length s")
  case True
  then have "2 \<le> length s - i" by simp
  with True show ?thesis
    by (simp add: has_prefix_nth lfEventBoundary_def All_less_Suc numeral_eq_Suc) blast
next
  case False
  then have "\<not> 2 \<le> length s - i" by simp
  with False show ?thesis by (simp add: has_prefix_nth lfEventBoundary_def)
qed

lemma crlf_at: "has_prefix (drop i s) crlfEventBoundary \<longleftrightarrow>
    i + 4 \<le> length s \<and> s ! i = CR \<and> s ! (i + 1) = LF \<and> s ! (i + 2) = CR \<and> s ! (i + 3) = LF"
proof (cases "i + 4 \<le> length s")
  case True
  then have "4 \<le> length s - i" by simp
  with True show ?thesis
    by (simp add: has_prefix_nth crlfEventBoundary_def All_less_Suc numeral_eq_Suc) blast
next
  case False
  then have "\<not> 4 \<le> length s - i" by simp
  with False show ?thesis by (simp add: has_prefix_nth crlfEventBoundary_def)
qed

lemma boundary_at_nth:
  "boundary_at s i n \<longleftrightarrow>
     (n = 2 \<and> i + 2 \<le> length s \<and> s ! i = LF \<and> s ! (i + 1) = LF)
   \<or> (n = 4 \<and> i + 4 \<le> length s \<and> s ! i = CR \<and> s ! (i + 1) = LF \<and> s ! (i + 2) = CR
        \<and> s ! (i + 3) = LF)"
  by (auto simp: boundary_at_def lf_at crlf_at)

lemma boundary_at_length: "boundary_at s i n \<Longrightarrow> i + n \<le> length s \<and> 0 < n \<and> n \<le> 4"
  by (auto simp: boundary_at_nth)

lemma boundary_at_unique: "boundary_at s i n \<Longrightarrow> boundary_at s i m \<Longrightarrow> n = m"
  by (auto simp: boundary_at_nth)

lemma nextEventBoundary_None:
  "nextEventBoundary s = None \<longleftrightarrow> (\<forall>i n. \<not> boundary_at s i n)"
proof -
  have N: "index_of p s = None \<longleftrightarrow> (\<forall>i. \<not> has_prefix (drop i s) p)" for p :: string
    by (metis index_of_None index_of_None_iff)
  have "nextEventBoundary s = None \<longleftrightarrow>
      index_of lfEventBoundary s = None \<and> index_of crlfEventBoundary s = None"
    by (simp add: nextEventBoundary_def split: option.splits)
  also have "\<dots> \<longleftrightarrow> (\<forall>i n. \<not> boundary_at s i n)"
    unfolding N boundary_at_def by blast
  finally show ?thesis .
qed

lemma nextEventBoundary_SomeD:
  assumes "nextEventBoundary s = Some (i, n)"
  shows "boundary_at s i n" and "j < i \<Longrightarrow> \<not> boundary_at s j m"
proof -
  note lf = index_of_Some [of lfEventBoundary s] index_of_least [of lfEventBoundary s]
    index_of_None [of lfEventBoundary s]
  note crlf = index_of_Some [of crlfEventBoundary s] index_of_least [of crlfEventBoundary s]
    index_of_None [of crlfEventBoundary s]
  show "boundary_at s i n"
    using assms lf crlf
    by (auto simp: nextEventBoundary_def boundary_at_def lfEventBoundary_def crlfEventBoundary_def
        split: option.splits if_splits)
  assume "j < i"
  moreover have "i \<le> l" if "index_of lfEventBoundary s = Some l" for l
    using assms that by (auto simp: nextEventBoundary_def split: option.splits if_splits)
  moreover have "i \<le> c" if "index_of crlfEventBoundary s = Some c" for c
    using assms that by (auto simp: nextEventBoundary_def split: option.splits if_splits)
  ultimately show "\<not> boundary_at s j m"
    unfolding boundary_at_def
    by (metis index_of_None index_of_least not_None_eq order_less_le_trans)
qed

lemma nextEventBoundary_Some:
  "nextEventBoundary s = Some (i, n) \<longleftrightarrow> boundary_at s i n \<and> (\<forall>j<i. \<forall>m. \<not> boundary_at s j m)"
proof (cases "nextEventBoundary s")
  case None
  then have "\<not> boundary_at s i n" by (simp add: nextEventBoundary_None)
  with None show ?thesis by simp
next
  case (Some p)
  then obtain j m where jm: "nextEventBoundary s = Some (j, m)" by (cases p) auto
  note D = nextEventBoundary_SomeD [OF jm]
  show ?thesis
  proof
    assume "nextEventBoundary s = Some (i, n)"
    then show "boundary_at s i n \<and> (\<forall>j<i. \<forall>m. \<not> boundary_at s j m)"
      using nextEventBoundary_SomeD by blast
  next
    assume R: "boundary_at s i n \<and> (\<forall>j<i. \<forall>m. \<not> boundary_at s j m)"
    with D have "i = j" by (metis linorder_neqE_nat)
    with R D(1) jm show "nextEventBoundary s = Some (i, n)"
      using boundary_at_unique by blast
  qed
qed

text \<open>A boundary found in a prefix of the stream is the first boundary of the whole stream.\<close>

lemma boundary_at_append: "boundary_at s i n \<Longrightarrow> boundary_at (s @ t) i n"
  by (auto simp: boundary_at_nth nth_append)

lemma boundary_at_inside: "boundary_at (s @ t) i n \<Longrightarrow> i + n \<le> length s \<Longrightarrow> boundary_at s i n"
  by (auto simp: boundary_at_nth nth_append)

lemma boundary_at_shift: "boundary_at (s @ t) (length s + i) n \<longleftrightarrow> boundary_at t i n"
  by (auto simp: boundary_at_def)

text \<open>Two boundaries cannot overlap so that the earlier one ends after the later one.\<close>

lemma boundary_at_no_overlap:
  "boundary_at s i n \<Longrightarrow> boundary_at s j m \<Longrightarrow> j < i \<Longrightarrow> j + m \<le> i + n"
proof (rule ccontr)
  assume B: "boundary_at s i n" "boundary_at s j m" "j < i" "\<not> j + m \<le> i + n"
  then have "m = 4" "n = 2" "i = j + 1" by (auto simp: boundary_at_nth)
  with B(1,2) show False by (simp add: boundary_at_nth)
qed

lemma nextEventBoundary_append:
  assumes "nextEventBoundary s = Some (i, n)"
  shows "nextEventBoundary (s @ t) = Some (i, n)"
proof -
  note D = nextEventBoundary_SomeD [OF assms]
  have "\<not> boundary_at (s @ t) j m" if "j < i" for j m
  proof
    assume B: "boundary_at (s @ t) j m"
    then have "j + m \<le> i + n"
      using boundary_at_no_overlap [OF boundary_at_append [OF D(1)] B that] by simp
    also have "\<dots> \<le> length s" using D(1) boundary_at_length by blast
    finally show False using boundary_at_inside [OF B] D(2) that by blast
  qed
  with D(1) show ?thesis by (simp add: nextEventBoundary_Some boundary_at_append)
qed

text \<open>The search over a prefix and the next chunk is the search in their concatenation.\<close>

lemma joinedBytesMatch_prefix:
  "joinedBytesMatch prefix data pos b \<longleftrightarrow> has_prefix (drop pos (prefix @ data)) b"
proof (induction prefix data pos b rule: joinedBytesMatch.induct)
  case (2 prefix data pos want boundary)
  show ?case
  proof (cases "pos < length (prefix @ data)")
    case True
    then have "drop pos (prefix @ data) = (prefix @ data) ! pos # drop (Suc pos) (prefix @ data)"
      by (rule Cons_nth_drop_Suc [symmetric])
    with True 2 show ?thesis by (auto simp: nth_append simp del: drop_append)
  next
    case False
    then have "drop pos (prefix @ data) = []" by (simp del: drop_append)
    moreover from False have "\<not> pos < length prefix" "\<not> pos - length prefix < length data"
      by auto
    ultimately show ?thesis by (simp del: drop_append)
  qed
qed simp

definition crosses :: "string \<Rightarrow> string \<Rightarrow> nat \<Rightarrow> nat \<Rightarrow> bool" where
  "crosses r d i n \<longleftrightarrow> boundary_at (r @ d) i n \<and> length r < i + n"

lemma try_boundaries:
  "try_boundary r d off crlfEventBoundary (try_boundary r d off lfEventBoundary None) = Some (i, n)
   \<longleftrightarrow> off = i \<and> crosses r d i n"
  "try_boundary r d off crlfEventBoundary (try_boundary r d off lfEventBoundary None) = None
   \<longleftrightarrow> (\<forall>n. \<not> crosses r d off n)"
  using boundary_at_unique [of "r @ d" off 2 4]
  unfolding try_boundary_def crosses_def boundary_at_def joinedBytesMatch_prefix
  by (auto simp: lfEventBoundary_def crlfEventBoundary_def boundary_at_def
      simp del: drop_append split: if_splits)

lemma try_boundary_found:
  "k < off \<Longrightarrow> try_boundary r d off b (Some (k, n)) = Some (k, n)"
  by (simp add: try_boundary_def)

lemma fold_boundaries:
  fixes r d :: string and a b :: nat
  defines "R \<equiv> fold (\<lambda>off found. try_boundary r d off crlfEventBoundary
                 (try_boundary r d off lfEventBoundary found)) [a ..< b] None"
  shows "case R of
      None \<Rightarrow> \<forall>j n. a \<le> j \<and> j < b \<longrightarrow> \<not> crosses r d j n
    | Some (i, n) \<Rightarrow> a \<le> i \<and> i < b \<and> crosses r d i n
        \<and> (\<forall>j m. a \<le> j \<and> j < i \<longrightarrow> \<not> crosses r d j m)"
  unfolding R_def
proof (induction b)
  case (Suc b)
  show ?case
  proof (cases "a \<le> b")
    case True
    let ?f = "\<lambda>off found. try_boundary r d off crlfEventBoundary
                 (try_boundary r d off lfEventBoundary found)"
    let ?R = "fold ?f [a ..< b] None"
    have step: "fold ?f [a ..< Suc b] None = ?f b ?R" using True by simp
    show ?thesis
    proof (cases ?R)
      case None
      then have no: "\<forall>j n. a \<le> j \<and> j < b \<longrightarrow> \<not> crosses r d j n" using Suc by simp
      show ?thesis
      proof (cases "?f b None")
        case None
        with step no \<open>?R = None\<close> show ?thesis
          using try_boundaries(2) [of r d b] by (simp add: less_Suc_eq) blast
      next
        case (Some p)
        then obtain i n where p: "?f b None = Some (i, n)" by (cases p) auto
        then have "b = i" "crosses r d i n" using try_boundaries(1) by blast+
        with p step no True \<open>?R = None\<close> show ?thesis by simp
      qed
    next
      case (Some p)
      then obtain i n where R: "?R = Some (i, n)" by (cases p) auto
      then have "a \<le> i \<and> i < b \<and> crosses r d i n \<and> (\<forall>j m. a \<le> j \<and> j < i \<longrightarrow> \<not> crosses r d j m)"
        using Suc by simp
      with R step show ?thesis by (simp add: try_boundary_found)
    qed
  next
    case False
    then show ?thesis by auto
  qed
qed simp

lemma nextJoinedEventBoundary_append:
  assumes "nextEventBoundary r = None"
  shows "nextJoinedEventBoundary r d = nextEventBoundary (r @ d)"
proof -
  have no: "\<not> boundary_at r i n" for i n using assms by (simp add: nextEventBoundary_None)
  have cross: "length r < i + n" if "boundary_at (r @ d) i n" for i n
    using no boundary_at_inside [OF that] by force
  have near: "length r - maxBoundaryTailBytes \<le> i" if "boundary_at (r @ d) i n" for i n
    using cross [OF that] boundary_at_length [OF that] by (auto simp: maxBoundaryTailBytes_def)
  have shift: "boundary_at (r @ d) (length r + i) n \<longleftrightarrow> boundary_at d i n" for i n
    by (rule boundary_at_shift)
  show ?thesis
  proof (cases "nextBoundaryAcrossJoin r d")
    case None
    then have none: "\<forall>j n. length r - maxBoundaryTailBytes \<le> j \<and> j < length r \<longrightarrow> \<not> crosses r d j n"
      using fold_boundaries
        [where r = r and d = d and a = "length r - maxBoundaryTailBytes" and b = "length r"]
      by (simp add: nextBoundaryAcrossJoin_def)
    have low: "\<not> boundary_at (r @ d) i n" if "i < length r" for i n
    proof
      assume "boundary_at (r @ d) i n"
      with cross near have "crosses r d i n" "length r - maxBoundaryTailBytes \<le> i"
        by (auto simp: crosses_def)
      with none that show False by blast
    qed
    show ?thesis
    proof (cases "nextEventBoundary d")
      case None
      then have "\<not> boundary_at d i n" for i n by (simp add: nextEventBoundary_None)
      then have "\<not> boundary_at (r @ d) i n" for i n
        using low shift by (metis le_add_diff_inverse not_less)
      then show ?thesis
        using None \<open>nextBoundaryAcrossJoin r d = None\<close>
        by (metis (mono_tags, lifting) nextEventBoundary_None nextJoinedEventBoundary_def option.case(1))
    next
      case (Some p)
      then obtain i n where d: "nextEventBoundary d = Some (i, n)" by (cases p) auto
      note D = nextEventBoundary_SomeD [OF d]
      have "\<not> boundary_at (r @ d) j m" if "j < length r + i" for j m
      proof (cases "j < length r")
        case False
        then obtain k where "j = length r + k" by (metis le_add_diff_inverse not_less)
        with that D(2) show ?thesis by (simp add: shift)
      qed (rule low)
      with D(1) have "nextEventBoundary (r @ d) = Some (length r + i, n)"
        by (simp add: nextEventBoundary_Some shift)
      with d \<open>nextBoundaryAcrossJoin r d = None\<close> show ?thesis
        by (simp add: nextJoinedEventBoundary_def)
    qed
  next
    case (Some p)
    then obtain i n where c: "nextBoundaryAcrossJoin r d = Some (i, n)" by (cases p) auto
    then have i: "i < length r" "crosses r d i n"
      and least: "\<forall>j m. length r - maxBoundaryTailBytes \<le> j \<and> j < i \<longrightarrow> \<not> crosses r d j m"
      using fold_boundaries
        [where r = r and d = d and a = "length r - maxBoundaryTailBytes" and b = "length r"]
      by (simp_all add: nextBoundaryAcrossJoin_def)
    have "\<not> boundary_at (r @ d) j m" if "j < i" for j m
      using least near cross that by (auto simp: crosses_def)
    with i have "nextEventBoundary (r @ d) = Some (i, n)"
      by (simp add: nextEventBoundary_Some crosses_def)
    with c i show ?thesis
      by (auto simp: nextJoinedEventBoundary_def Let_def split: option.splits)
  qed
qed

section \<open>Events\<close>

definition parseDataLine :: "string \<Rightarrow> string option" where
  "parseDataLine line =
     (let line = trim_suffix line [CR]
      in if \<not> has_prefix line dataPrefix then None
         else let payload = drop (length dataPrefix) line
              in Some (case payload of
                         c # payload' \<Rightarrow> if c = CHR '' '' then payload' else payload
                       | [] \<Rightarrow> []))"

definition sseEventPayload :: "string \<Rightarrow> string option" where
  "sseEventPayload event =
     (let payloadLines = List.map_filter parseDataLine (split_on LF event)
      in if payloadLines = [] then None else Some (join_with LF payloadLines))"

datatype 'j observer_call =
    OnJSONEvent nat 'j
  | OnStreamClose nat

record 'j sse_stream =
  ss_observers :: nat                        \<comment> \<open>the number of observers\<close>
  ss_filters :: "(string \<Rightarrow> bool) list"
  ss_pending :: string
  ss_discardTail :: string
  ss_closed :: bool
  ss_discarding :: bool
  ss_calls :: "'j observer_call list"        \<comment> \<open>the calls the observers have received\<close>

text \<open>
  An observer is given by its filter, \<open>None\<close> when it does not implement \<open>EventFilter\<close>; a nil
  observer is \<open>None\<close> in the argument list. Without observers the stream itself is returned.
\<close>

definition NewObservedSSEStream :: "(string \<Rightarrow> bool) option option list \<Rightarrow> 'j sse_stream option" where
  "NewObservedSSEStream observers =
     (let filtered = List.map_filter id observers
      in if filtered = [] then None
         else Some \<lparr>ss_observers = length filtered,
                ss_filters = (if None \<in> set filtered then [] else List.map_filter id filtered),
                ss_pending = [], ss_discardTail = [], ss_closed = False, ss_discarding = False,
                ss_calls = []\<rparr>)"

definition payloadWanted :: "'j sse_stream \<Rightarrow> string \<Rightarrow> bool" where
  "payloadWanted s jsonData =
     (if length (ss_filters s) \<noteq> ss_observers s then True
      else \<exists>f\<in>set (ss_filters s). f jsonData)"

definition dispatchPayload ::
  "(string \<Rightarrow> 'j option) \<Rightarrow> string \<Rightarrow> 'j sse_stream \<Rightarrow> 'j sse_stream" where
  "dispatchPayload dec jsonData s =
     (if jsonData = donePayload then s
      else if \<not> payloadWanted s jsonData then s
      else case dec jsonData of
             None \<Rightarrow> s
           | Some payload \<Rightarrow>
               s\<lparr>ss_calls := ss_calls s @ map (\<lambda>k. OnJSONEvent k payload) [0 ..< ss_observers s]\<rparr>)"

definition processEvent ::
  "(string \<Rightarrow> 'j option) \<Rightarrow> string \<Rightarrow> 'j sse_stream \<Rightarrow> 'j sse_stream" where
  "processEvent dec event s =
     (if LF \<notin> set event then
        (case parseDataLine event of None \<Rightarrow> s | Some jsonData \<Rightarrow> dispatchPayload dec jsonData s)
      else
        (let payloadLines = List.map_filter parseDataLine (split_on LF event)
         in if payloadLines = [] then s
            else dispatchPayload dec (join_with LF payloadLines) s))"

definition startDiscarding :: "string \<Rightarrow> string \<Rightarrow> 'j sse_stream \<Rightarrow> 'j sse_stream" where
  "startDiscarding prefix data s =
     s\<lparr>ss_pending := [], ss_discarding := True,
       ss_discardTail := joinedSuffix prefix data maxBoundaryTailBytes\<rparr>"

definition savePending :: "string \<Rightarrow> 'j sse_stream \<Rightarrow> 'j sse_stream" where
  "savePending data s =
     (if data = [] then s
      else if length data > maxPendingEventBytes then startDiscarding [] data s
      else s\<lparr>ss_pending := data\<rparr>)"

lemma nextEventBoundary_bounds:
  "nextEventBoundary s = Some (i, n) \<Longrightarrow> 0 < n \<and> n \<le> 4 \<and> i + n \<le> length s"
  using nextEventBoundary_SomeD(1) boundary_at_length by fastforce

text \<open>The loop of \<open>processChunk\<close>, and the loop of \<open>processBufferedEvents\<close>.\<close>

function chunk_loop ::
  "(string \<Rightarrow> 'j option) \<Rightarrow> string \<Rightarrow> 'j sse_stream \<Rightarrow> 'j sse_stream" where
  "chunk_loop dec data s =
     (if data = [] then s
      else if ss_discarding s then
        (case nextJoinedEventBoundary (ss_discardTail s) data of
           None \<Rightarrow> s\<lparr>ss_discardTail := joinedSuffix (ss_discardTail s) data maxBoundaryTailBytes\<rparr>
         | Some (idx, sepLen) \<Rightarrow>
             chunk_loop dec (drop (dataOffsetAfterBoundary (length (ss_discardTail s)) idx sepLen) data)
               (s\<lparr>ss_discarding := False, ss_discardTail := []\<rparr>))
      else
        (case nextEventBoundary data of
           None \<Rightarrow> savePending data s
         | Some (idx, sepLen) \<Rightarrow>
             if idx > maxPendingEventBytes then chunk_loop dec (drop (idx + sepLen) data) s
             else chunk_loop dec (drop (idx + sepLen) data)
                    (if idx > 0 then processEvent dec (take idx data) s else s)))"
  by pat_completeness auto
termination
proof (relation "measure (\<lambda>(dec, data, s). 2 * length data + (if ss_discarding s then 1 else 0))")
qed (auto dest!: nextEventBoundary_bounds simp: processEvent_def dispatchPayload_def Let_def
    split: option.splits)

declare chunk_loop.simps [simp del]

function processBufferedEvents ::
  "(string \<Rightarrow> 'j option) \<Rightarrow> string \<Rightarrow> 'j sse_stream \<Rightarrow> 'j sse_stream" where
  "processBufferedEvents dec data s =
     (if data = [] then s
      else case nextEventBoundary data of
             None \<Rightarrow> processEvent dec data s
           | Some (idx, sepLen) \<Rightarrow>
               processBufferedEvents dec (drop (idx + sepLen) data)
                 (if idx > 0 then processEvent dec (take idx data) s else s))"
  by pat_completeness auto
termination
  by (relation "measure (\<lambda>(dec, data, s). length data)") (auto dest!: nextEventBoundary_bounds)

declare processBufferedEvents.simps [simp del]

definition processChunk ::
  "(string \<Rightarrow> 'j option) \<Rightarrow> string \<Rightarrow> 'j sse_stream \<Rightarrow> 'j sse_stream" where
  "processChunk dec data s =
     (let pendingLen = length (ss_pending s)
      in if pendingLen > 0 then
           (case nextJoinedEventBoundary (ss_pending s) data of
              None \<Rightarrow>
                if length data > maxPendingEventBytes
                   \<or> pendingLen > maxPendingEventBytes - length data
                then startDiscarding (ss_pending s) data s
                else s\<lparr>ss_pending := ss_pending s @ data\<rparr>
            | Some (idx, sepLen) \<Rightarrow>
                if idx > maxPendingEventBytes then
                  chunk_loop dec (drop (dataOffsetAfterBoundary pendingLen idx sepLen) data)
                    (s\<lparr>ss_pending := []\<rparr>)
                else if idx < pendingLen then
                  chunk_loop dec (drop (dataOffsetAfterBoundary pendingLen idx sepLen) data)
                    (processEvent dec (take idx (ss_pending s)) (s\<lparr>ss_pending := []\<rparr>))
                else
                  (let dataIdx = idx - pendingLen
                   in if pendingLen > maxPendingEventBytes - dataIdx then
                        chunk_loop dec (drop (dataIdx + sepLen) data) (s\<lparr>ss_pending := []\<rparr>)
                      else
                        chunk_loop dec (drop (dataIdx + sepLen) data)
                          (processEvent dec (ss_pending s @ take dataIdx data)
                             (s\<lparr>ss_pending := []\<rparr>))))
         else chunk_loop dec data s)"

text \<open>
  \<open>Read\<close> hands the bytes and the error of the source on unchanged and processes the bytes;
  \<open>Close\<close> processes what is pending and tells every observer, once.
\<close>

definition sse_Read ::
  "(string \<Rightarrow> 'j option) \<Rightarrow> string \<times> 'e \<Rightarrow> 'j sse_stream \<Rightarrow> (string \<times> 'e) \<times> 'j sse_stream" where
  "sse_Read dec rd s = (rd, if fst rd \<noteq> [] then processChunk dec (fst rd) s else s)"

definition sse_Close :: "(string \<Rightarrow> 'j option) \<Rightarrow> 'j sse_stream \<Rightarrow> 'j sse_stream" where
  "sse_Close dec s =
     (if ss_closed s then s
      else let s = s\<lparr>ss_closed := True\<rparr>;
               s = (if ss_pending s \<noteq> []
                    then (processBufferedEvents dec (ss_pending s) s)\<lparr>ss_pending := []\<rparr> else s)
           in s\<lparr>ss_calls := ss_calls s @ map OnStreamClose [0 ..< ss_observers s]\<rparr>)"

section \<open>The events of a whole stream\<close>

function sse_events :: "string \<Rightarrow> string list \<times> string" where
  "sse_events s =
     (case nextEventBoundary s of
        None \<Rightarrow> ([], s)
      | Some (i, n) \<Rightarrow>
          let (es, r) = sse_events (drop (i + n) s) in (take i s # es, r))"
  by pat_completeness auto
termination by (relation "measure length") (auto dest!: nextEventBoundary_bounds)

declare sse_events.simps [simp del]

lemma sse_events_None: "nextEventBoundary s = None \<Longrightarrow> sse_events s = ([], s)"
  by (subst sse_events.simps) simp

lemma sse_events_Some:
  "nextEventBoundary s = Some (i, n) \<Longrightarrow>
   sse_events s = (take i s # fst (sse_events (drop (i + n) s)), snd (sse_events (drop (i + n) s)))"
  by (subst sse_events.simps) (simp add: case_prod_beta)

lemma sse_events_rest: "nextEventBoundary (snd (sse_events s)) = None"
proof (induction s rule: sse_events.induct)
  case (1 s)
  show ?case
  proof (cases "nextEventBoundary s")
    case (Some p)
    with 1 show ?thesis by (cases p) (simp add: sse_events_Some)
  qed (simp add: sse_events_None)
qed

lemma sse_events_append:
  "sse_events (s @ t) =
     (fst (sse_events s) @ fst (sse_events (snd (sse_events s) @ t)),
      snd (sse_events (snd (sse_events s) @ t)))"
proof (induction s rule: sse_events.induct)
  case (1 s)
  show ?case
  proof (cases "nextEventBoundary s")
    case None
    then show ?thesis by (simp add: sse_events_None)
  next
    case (Some p)
    then obtain i n where b: "nextEventBoundary s = Some (i, n)" by (cases p) auto
    then have "i + n \<le> length s" using nextEventBoundary_bounds by blast
    then have "drop (i + n) (s @ t) = drop (i + n) s @ t" "take i (s @ t) = take i s" by simp_all
    with 1 [OF b] show ?thesis
      by (simp add: sse_events_Some [OF b] sse_events_Some [OF nextEventBoundary_append [OF b]]
          case_prod_beta)
  qed
qed

text \<open>What the observers receive for one event, and for a list of events.\<close>

definition event_calls :: "(string \<Rightarrow> 'j option) \<Rightarrow> 'j sse_stream \<Rightarrow> string \<Rightarrow> 'j observer_call list" where
  "event_calls dec s event =
     (case sseEventPayload event of
        None \<Rightarrow> []
      | Some p \<Rightarrow>
          if p = donePayload \<or> \<not> payloadWanted s p then []
          else case dec p of
                 None \<Rightarrow> []
               | Some j \<Rightarrow> map (\<lambda>k. OnJSONEvent k j) [0 ..< ss_observers s])"

definition kept :: "string \<Rightarrow> bool" where
  "kept event \<longleftrightarrow> event \<noteq> [] \<and> length event \<le> maxPendingEventBytes"

definition deliver :: "(string \<Rightarrow> 'j option) \<Rightarrow> string list \<Rightarrow> 'j sse_stream \<Rightarrow> 'j sse_stream" where
  "deliver dec es s =
     s\<lparr>ss_calls := ss_calls s @ concat (map (event_calls dec s) (filter kept es))\<rparr>"

definition holding :: "string \<Rightarrow> 'j sse_stream \<Rightarrow> 'j sse_stream" where
  \<comment> \<open>the state between two chunks, when the unfinished event is the given one\<close>
  "holding r s =
     (if length r \<le> maxPendingEventBytes
      then s\<lparr>ss_pending := r, ss_discarding := False, ss_discardTail := []\<rparr>
      else s\<lparr>ss_pending := [], ss_discarding := True,
             ss_discardTail := joinedSuffix [] r maxBoundaryTailBytes\<rparr>)"

definition idle :: "'j sse_stream \<Rightarrow> bool" where
  "idle s \<longleftrightarrow> ss_pending s = [] \<and> \<not> ss_discarding s \<and> ss_discardTail s = []"

lemma split_on_single: "LF \<notin> set e \<Longrightarrow> sseEventPayload e = parseDataLine e"
  by (cases "parseDataLine e") (simp_all add: sseEventPayload_def split_on_no_sep List.map_filter_def)

lemma event_calls_update [simp]:
  "event_calls dec (s\<lparr>ss_pending := p\<rparr>) = event_calls dec s"
  "event_calls dec (s\<lparr>ss_discarding := d\<rparr>) = event_calls dec s"
  "event_calls dec (s\<lparr>ss_discardTail := t\<rparr>) = event_calls dec s"
  "event_calls dec (s\<lparr>ss_calls := c\<rparr>) = event_calls dec s"
  "event_calls dec (s\<lparr>ss_closed := cl\<rparr>) = event_calls dec s"
  by (simp_all add: event_calls_def payloadWanted_def fun_eq_iff cong: option.case_cong if_cong)

lemma processEvent_calls:
  "processEvent dec e s = s\<lparr>ss_calls := ss_calls s @ event_calls dec s e\<rparr>"
proof -
  have D: "processEvent dec e s = (case sseEventPayload e of None \<Rightarrow> s | Some p \<Rightarrow> dispatchPayload dec p s)"
  proof (cases "LF \<in> set e")
    case True
    then show ?thesis by (simp add: processEvent_def sseEventPayload_def Let_def)
  next
    case False
    then show ?thesis by (simp add: processEvent_def split_on_single)
  qed
  show ?thesis
    unfolding D by (auto simp: event_calls_def dispatchPayload_def split: option.splits)
qed

lemma processEvent_empty [simp]: "processEvent dec [] s = s"
  by (simp add: processEvent_def parseDataLine_def trim_suffix_def has_suffix_def dataPrefix_def)

lemma event_calls_empty [simp]: "event_calls dec s [] = []"
  by (simp add: event_calls_def sseEventPayload_def parseDataLine_def List.map_filter_def
      trim_suffix_def has_suffix_def dataPrefix_def)

lemma deliver_Nil [simp]: "deliver dec [] s = s"
  by (simp add: deliver_def)

lemma deliver_append: "deliver dec (es @ es') s = deliver dec es' (deliver dec es s)"
  by (simp add: deliver_def)

lemma deliver_Cons:
  "deliver dec (e # es) s =
     deliver dec es (if kept e then processEvent dec e s else s)"
  by (simp add: deliver_def processEvent_calls)

lemma deliver_fields [simp]:
  "ss_pending (deliver dec es s) = ss_pending s" "ss_discarding (deliver dec es s) = ss_discarding s"
  "ss_discardTail (deliver dec es s) = ss_discardTail s"
  "ss_observers (deliver dec es s) = ss_observers s" "ss_closed (deliver dec es s) = ss_closed s"
  "event_calls dec (deliver dec es s) = event_calls dec s"
  by (simp_all add: deliver_def)

lemma deliver_holding: "deliver dec es (holding r s) = holding r (deliver dec es s)"
  by (simp add: deliver_def holding_def)

lemma deliver_update:
  "deliver dec es (s\<lparr>ss_discarding := d\<rparr>) = (deliver dec es s)\<lparr>ss_discarding := d\<rparr>"
  "deliver dec es (s\<lparr>ss_discardTail := t\<rparr>) = (deliver dec es s)\<lparr>ss_discardTail := t\<rparr>"
  "deliver dec es (s\<lparr>ss_pending := r\<rparr>) = (deliver dec es s)\<lparr>ss_pending := r\<rparr>"
  by (simp_all add: deliver_def)

lemma holding_holding [simp]: "holding r (holding r' s) = holding r s"
  by (simp add: holding_def)

lemma joinedSuffix_drop: "joinedSuffix p d n = drop (length (p @ d) - n) (p @ d)"
  by (auto simp: joinedSuffix_def Let_def min_def)

section \<open>Chunks\<close>

text \<open>From an idle state the loop delivers the events of its data and holds the rest.\<close>

lemma chunk_loop_idle:
  "idle s \<Longrightarrow> chunk_loop dec data s =
     holding (snd (sse_events data)) (deliver dec (fst (sse_events data)) s)"
proof (induction data arbitrary: s rule: length_induct)
  case (1 data)
  note idle = \<open>idle s\<close>
  show ?case
  proof (cases "data = []")
    case True
    then have "nextEventBoundary data = None" by (simp add: nextEventBoundary_None boundary_at_nth)
    with True idle show ?thesis
      by (simp add: chunk_loop.simps sse_events_None holding_def idle_def)
  next
    case ne: False
    show ?thesis
    proof (cases "nextEventBoundary data")
      case None
      then show ?thesis
        using ne idle
        by (simp add: chunk_loop.simps sse_events_None holding_def idle_def savePending_def
            startDiscarding_def)
    next
      case (Some p)
      then obtain i n where b: "nextEventBoundary data = Some (i, n)" by (cases p) auto
      let ?s = "if kept (take i data) then processEvent dec (take i data) s else s"
      have "i \<le> length data" "0 < n" using nextEventBoundary_bounds [OF b] by auto
      then have "chunk_loop dec data s = chunk_loop dec (drop (i + n) data) ?s"
        using ne idle b
        by (subst chunk_loop.simps) (auto simp: idle_def kept_def min_def)
      also have "\<dots> = holding (snd (sse_events (drop (i + n) data)))
          (deliver dec (fst (sse_events (drop (i + n) data))) ?s)"
        using 1(1) idle ne \<open>0 < n\<close> by (auto simp: idle_def processEvent_calls)
      finally show ?thesis by (simp add: sse_events_Some [OF b] deliver_Cons)
    qed
  qed
qed

text \<open>
  An event whose length is within three bytes of the limit may or may not be dropped, depending
  on where the chunks end inside its separator. The theorem leaves such streams out.
\<close>

definition off_limit :: "string \<Rightarrow> bool" where
  "off_limit event \<longleftrightarrow>
     length event + maxBoundaryTailBytes \<le> maxPendingEventBytes \<or> maxPendingEventBytes < length event"

lemma holding_deliver_idle:
  "idle s \<Longrightarrow> (holding r s)\<lparr>ss_pending := [], ss_discarding := False, ss_discardTail := []\<rparr> = s"
  by (simp add: holding_def idle_def)

lemma suffix_append:
  "n \<le> length t \<Longrightarrow> drop (length (t @ d) - n) (t @ d) = drop (length ((u @ t) @ d) - n) ((u @ t) @ d)"
  by (simp add: add.commute)

lemma chunk_loop_discarding:
  assumes idle: "idle s" and r: "nextEventBoundary r = None" "maxPendingEventBytes < length r"
    and off: "\<forall>e\<in>set (fst (sse_events (r @ data))). off_limit e" and ne: "data \<noteq> []"
  shows "chunk_loop dec data (holding r s) =
     holding (snd (sse_events (r @ data))) (deliver dec (fst (sse_events (r @ data))) s)"
proof -
  let ?t = "joinedSuffix [] r maxBoundaryTailBytes"
  obtain u where u: "r = u @ ?t"
    by (metis append_take_drop_id joinedSuffix_drop append_Nil)
  have len: "length ?t = 3"
    using r(2) by (simp add: joinedSuffix_drop maxBoundaryTailBytes_def maxPendingEventBytes_def)
  with u have len: "length ?t = 3" "length r = length u + 3" by (metis length_append)+
  have no: "\<not> boundary_at r i n" for i n using r(1) by (simp add: nextEventBoundary_None)
  have no_t: "nextEventBoundary ?t = None"
    using no boundary_at_shift [of u ?t] u by (metis nextEventBoundary_None)
  have far: "length u \<le> i" if "boundary_at (r @ data) i n" for i n
    using boundary_at_inside [OF that] no boundary_at_length [OF that] len(2) by fastforce
  have shift: "boundary_at (r @ data) (length u + i) n \<longleftrightarrow> boundary_at (?t @ data) i n" for i n
    using boundary_at_shift [of u "?t @ data" i n] u by (metis append.assoc)
  have joined: "nextJoinedEventBoundary ?t data = nextEventBoundary (?t @ data)"
    by (rule nextJoinedEventBoundary_append [OF no_t])
  have state: "ss_discarding (holding r s)" "ss_discardTail (holding r s) = ?t"
    using r(2) by (simp_all add: holding_def)
  show ?thesis
  proof (cases "nextEventBoundary (?t @ data)")
    case None
    then have "nextEventBoundary (r @ data) = None"
      using far shift by (metis le_add_diff_inverse nextEventBoundary_None)
    moreover have "joinedSuffix ?t data maxBoundaryTailBytes = joinedSuffix [] (r @ data) maxBoundaryTailBytes"
      using suffix_append [where u = u and t = ?t and d = data and n = 3, folded u] len(1)
      by (metis append_Nil eq_imp_le joinedSuffix_drop maxBoundaryTailBytes_def)
    ultimately show ?thesis
      using ne r(2) None
      by (subst chunk_loop.simps) (simp add: state joined sse_events_None holding_def)
  next
    case (Some p)
    then obtain i n where t: "nextEventBoundary (?t @ data) = Some (i, n)" by (cases p) auto
    note D = nextEventBoundary_SomeD [OF t]
    have b: "nextEventBoundary (r @ data) = Some (length u + i, n)"
      unfolding nextEventBoundary_Some
      using D far shift by (metis le_add_diff_inverse nat_add_left_cancel_less)
    have "off_limit (take (length u + i) (r @ data))"
      using off sse_events_Some [OF b] by simp
    moreover have "length (take (length u + i) (r @ data)) = length u + i"
      using nextEventBoundary_bounds [OF b] by (auto simp: min_def)
    ultimately have "\<not> kept (take (length u + i) (r @ data))"
      using r(2) len(2) by (simp add: off_limit_def kept_def maxBoundaryTailBytes_def del: length_take take_append)
    moreover have "3 < i + n"
      using D(1) no_t boundary_at_inside [of ?t data i n] len(1)
      by (metis nextEventBoundary_None not_less)
    then have "drop (dataOffsetAfterBoundary 3 i n) data = drop (length u + i + n) (r @ data)"
      using len(2) by (auto simp: dataOffsetAfterBoundary_def Let_def intro!: arg_cong [where f = "\<lambda>k. drop k data"])
    moreover have "(holding r s)\<lparr>ss_discarding := False, ss_discardTail := []\<rparr> = s"
      using r(2) idle by (simp add: holding_def idle_def)
    ultimately show ?thesis
      using ne t idle
      by (subst chunk_loop.simps)
        (simp add: state joined len(1) sse_events_Some [OF b] deliver_Cons chunk_loop_idle
          del: drop_append take_append)
  qed
qed

lemma processChunk_holding:
  assumes idle: "idle s" and r: "nextEventBoundary r = None"
    and off: "\<forall>e\<in>set (fst (sse_events (r @ data))). off_limit e" and ne: "data \<noteq> []"
  shows "processChunk dec data (holding r s) =
     holding (snd (sse_events (r @ data))) (deliver dec (fst (sse_events (r @ data))) s)"
proof (cases "length r \<le> maxPendingEventBytes")
  case False
  then have "processChunk dec data (holding r s) = chunk_loop dec data (holding r s)"
    by (simp add: processChunk_def holding_def)
  with False show ?thesis using chunk_loop_discarding [OF idle r _ off ne] by simp
next
  case small: True
  have clear: "(holding r s)\<lparr>ss_pending := []\<rparr> = s"
    using idle small by (simp add: holding_def idle_def)
  show ?thesis
  proof (cases "r = []")
    case True
    moreover have "holding [] s = s" using idle by (simp add: holding_def idle_def)
    moreover have "processChunk dec data s = chunk_loop dec data s"
      using idle by (simp add: processChunk_def idle_def)
    ultimately show ?thesis using chunk_loop_idle [OF idle] by simp
  next
    case r_ne: False
    note joined = nextJoinedEventBoundary_append [OF r]
    show ?thesis
    proof (cases "nextEventBoundary (r @ data)")
      case None
      then show ?thesis
        using r_ne small
        by (simp add: processChunk_def holding_def joined sse_events_None startDiscarding_def
            joinedSuffix_drop) auto
    next
      case (Some p)
      then obtain i n where b: "nextEventBoundary (r @ data) = Some (i, n)" by (cases p) auto
      have B: "length r < i + n" "i + n \<le> length r + length data"
        using nextEventBoundary_bounds [OF b] nextEventBoundary_SomeD(1) [OF b]
          boundary_at_inside [of r data i n] r by (force simp: nextEventBoundary_None)+
      have pending: "ss_pending (holding r s) = r" using small by (simp add: holding_def)
      have rest: "drop (dataOffsetAfterBoundary (length r) i n) data = drop (i + n) (r @ data)"
        using B by (auto simp: dataOffsetAfterBoundary_def Let_def add.commute)
      have rest': "drop (i - length r + n) data = drop (i + n) (r @ data)" if "\<not> i < length r"
        using that by simp
      have len: "length (take i (r @ data)) = i" using B by (auto simp: min_def)
      have "processChunk dec data (holding r s) =
          chunk_loop dec (drop (i + n) (r @ data))
            (if i \<le> maxPendingEventBytes then processEvent dec (take i (r @ data)) s else s)"
      proof (cases "i < length r")
        case True
        then have "take i (r @ data) = take i r" by simp
        with True show ?thesis
          using r_ne small B(1)
          by (simp add: processChunk_def pending joined b clear rest [symmetric] del: drop_append take_append)
      next
        case False
        then have "take i (r @ data) = r @ take (i - length r) data"
          "i \<le> maxPendingEventBytes \<Longrightarrow> \<not> maxPendingEventBytes - (i - length r) < length r" by auto
        with False show ?thesis
          using r_ne small rest rest'
          by (simp add: processChunk_def pending joined b clear Let_def del: drop_append take_append)
      qed
      also have "\<dots> = chunk_loop dec (drop (i + n) (r @ data))
            (if kept (take i (r @ data)) then processEvent dec (take i (r @ data)) s else s)"
        using len by (auto simp: kept_def simp del: drop_append take_append)
      finally have "processChunk dec data (holding r s) = chunk_loop dec (drop (i + n) (r @ data))
            (if kept (take i (r @ data)) then processEvent dec (take i (r @ data)) s else s)" .
      then show ?thesis
        using idle
        by (simp add: sse_events_Some [OF b] deliver_Cons chunk_loop_idle idle_def processEvent_calls)
    qed
  qed
qed

text \<open>All chunks of a stream, and its end.\<close>

definition observe :: "(string \<Rightarrow> 'j option) \<Rightarrow> (string \<times> 'e) list \<Rightarrow> 'j sse_stream \<Rightarrow> 'j sse_stream" where
  "observe dec reads s = fold (\<lambda>rd s. snd (sse_Read dec rd s)) reads s"

lemma observe_holding:
  assumes "idle s"
  shows "\<forall>e\<in>set (fst (sse_events (concat (map fst reads)))). off_limit e \<Longrightarrow>
    observe dec reads s =
      (let S = concat (map fst reads)
       in holding (snd (sse_events S)) (deliver dec (fst (sse_events S)) s))"
proof (induction reads rule: rev_induct)
  case Nil
  have "nextEventBoundary [] = None" by (simp add: nextEventBoundary_None boundary_at_nth)
  with assms show ?case
    by (simp add: observe_def sse_events_None holding_def idle_def Let_def)
next
  case (snoc rd reads)
  let ?S = "concat (map fst reads)"
  note app = sse_events_append [of ?S "fst rd"]
  have rest: "nextEventBoundary (snd (sse_events ?S)) = None" by (rule sse_events_rest)
  have IH: "observe dec reads s = holding (snd (sse_events ?S)) (deliver dec (fst (sse_events ?S)) s)"
    using snoc by (simp add: app Let_def)
  have idle: "idle (deliver dec (fst (sse_events ?S)) s)" using assms by (simp add: idle_def)
  have step: "observe dec (reads @ [rd]) s = snd (sse_Read dec rd (observe dec reads s))"
    by (simp add: observe_def)
  show ?case
  proof (cases "fst rd = []")
    case True
    then show ?thesis using step IH by (simp add: sse_Read_def Let_def)
  next
    case False
    have "\<forall>e\<in>set (fst (sse_events (snd (sse_events ?S) @ fst rd))). off_limit e"
      using snoc.prems by (simp add: app)
    from processChunk_holding [OF idle rest this False] show ?thesis
      using step IH False by (simp add: sse_Read_def Let_def app deliver_append)
  qed
qed

lemma sse_Close_holding:
  assumes "idle s" "\<not> ss_closed s" "nextEventBoundary r = None"
  shows "ss_calls (sse_Close dec (holding r s)) =
     ss_calls (deliver dec [r] s) @ map OnStreamClose [0 ..< ss_observers s]"
proof (cases "length r \<le> maxPendingEventBytes \<and> r \<noteq> []")
  case True
  with assms show ?thesis
    by (simp add: sse_Close_def Let_def holding_def processBufferedEvents.simps [of dec r]
        processEvent_calls deliver_def kept_def)
next
  case False
  then have "ss_pending (holding r s) = []" by (auto simp: holding_def)
  with False assms show ?thesis
    by (auto simp: sse_Close_def Let_def holding_def deliver_def kept_def)
qed

lemma empty_event_no_payload [simp]: "sseEventPayload [] = None"
  by (simp add: sseEventPayload_def parseDataLine_def List.map_filter_def
      trim_suffix_def has_suffix_def dataPrefix_def)

lemma processBufferedEvents_closed [simp]:
  "ss_closed (processBufferedEvents dec data s) = ss_closed s"
proof (induction dec data s rule: processBufferedEvents.induct)
  case (1 dec data s)
  then show ?case
    by (subst processBufferedEvents.simps) (auto simp: processEvent_calls Let_def split: option.split)
qed

lemma sse_Close_again [simp]: "sse_Close dec (sse_Close dec t) = sse_Close dec t"
proof -
  have "ss_closed (sse_Close dec t)" by (simp add: sse_Close_def Let_def)
  then show ?thesis by (simp add: sse_Close_def [of dec "sse_Close dec t"])
qed

lemma observed_stream_calls:
  fixes s :: "'j sse_stream" and reads :: "(string \<times> 'e) list"
  assumes "NewObservedSSEStream observers = Some s"
    and "\<forall>e\<in>set (fst (sse_events (concat (map fst reads)))).
           length e + 3 \<le> maxPendingEventBytes \<or> maxPendingEventBytes < length e"
  shows "ss_calls (sse_Close dec (observe dec reads s)) =
      concat (map (event_calls dec s)
        (filter (\<lambda>e. e \<noteq> [] \<and> length e \<le> maxPendingEventBytes)
          (fst (sse_events (concat (map fst reads))) @ [snd (sse_events (concat (map fst reads)))])))
      @ map OnStreamClose [0 ..< ss_observers s]"
proof -
  let ?S = "concat (map fst reads)"
  have s: "idle s" "\<not> ss_closed s" "ss_calls s = []"
    using assms(1) by (auto simp: NewObservedSSEStream_def idle_def Let_def split: if_splits)
  have off: "\<forall>e\<in>set (fst (sse_events ?S)). off_limit e"
    using assms(2) by (simp add: off_limit_def maxBoundaryTailBytes_def)
  let ?d = "deliver dec (fst (sse_events ?S)) s"
  have "idle ?d" "\<not> ss_closed ?d" using s by (simp_all add: idle_def)
  from sse_Close_holding [OF this sse_events_rest [of ?S], of dec]
  have "ss_calls (sse_Close dec (observe dec reads s)) =
      ss_calls (deliver dec [snd (sse_events ?S)] ?d) @ map OnStreamClose [0 ..< ss_observers s]"
    using observe_holding [OF s(1) off] by (simp add: Let_def)
  then show ?thesis
    using s(3)
    by (simp only: deliver_append [symmetric])
      (simp add: deliver_def kept_def [abs_def] sse_Read_def)
qed

text \<open>
  C27. Whatever chunks a stream arrives in, the reader gets the bytes and errors of the source
  unchanged, and each observer receives, in order and once, exactly the JSON payloads of the
  events of the whole stream (the unfinished last one included) that are not empty and not
  longer than the limit, and after them the end of the stream. The one condition is that no
  complete event is within three bytes below the limit.
\<close>

theorem observed_events_independent_of_chunks:
  fixes s :: "'j sse_stream" and reads :: "(string \<times> 'e) list"
  assumes "NewObservedSSEStream observers = Some s"
    and "\<forall>e\<in>set (fst (sse_events (concat (map fst reads)))).
           length e + 3 \<le> maxPendingEventBytes \<or> maxPendingEventBytes < length e"
  shows "fst (sse_Read dec rd s) = rd
    \<and> ss_calls (sse_Close dec (observe dec reads s)) =
      concat (map (event_calls dec s)
        (filter (\<lambda>e. e \<noteq> [] \<and> length e \<le> maxPendingEventBytes)
          (fst (sse_events (concat (map fst reads))) @ [snd (sse_events (concat (map fst reads)))])))
      @ map OnStreamClose [0 ..< ss_observers s]"
  using observed_stream_calls [OF assms, of dec] by (simp add: sse_Read_def)

lemma observed_events_independent_of_chunks_witness:
  defines "reads \<equiv> [(''data: a'' @ [CR], ()), ([LF, CR], ()), ([LF] @ ''data: [DONE]'' @ [LF], ()),
                     ([LF] @ ''data:b'', ())]"
    and "s \<equiv> \<lparr>ss_observers = 1, ss_filters = [], ss_pending = [], ss_discardTail = [],
               ss_closed = False, ss_discarding = False, ss_calls = []\<rparr>"
  shows "ss_calls (sse_Close Some (observe Some reads s)) =
    [OnJSONEvent 0 ''a'', OnJSONEvent 0 ''b'', OnStreamClose 0]"
proof -
  have S: "concat (map fst reads) =
      ''data: a'' @ [CR, LF, CR, LF] @ ''data: [DONE]'' @ [LF, LF] @ ''data:b''"
    by (simp add: reads_def)
  have ev: "sse_events (concat (map fst reads)) = ([''data: a'', ''data: [DONE]''], ''data:b'')"
    unfolding S by code_simp
  have calls: "event_calls Some s ''data: a'' = [OnJSONEvent 0 ''a'']"
    "event_calls Some s ''data: [DONE]'' = []" "event_calls Some s ''data:b'' = [OnJSONEvent 0 ''b'']"
    unfolding s_def by code_simp+
  have new: "NewObservedSSEStream [Some None] = Some s"
    by (simp add: NewObservedSSEStream_def s_def List.map_filter_def)
  have off: "\<forall>e\<in>set (fst (sse_events (concat (map fst reads)))).
      length e + 3 \<le> maxPendingEventBytes \<or> maxPendingEventBytes < length e"
    by (simp add: ev maxPendingEventBytes_def)
  show ?thesis
    using observed_events_independent_of_chunks [OF new off, where dec = Some and rd = "([], ())"]
    by (simp add: ev calls maxPendingEventBytes_def) (simp add: s_def)
qed

text \<open>
  Inside the excluded band the chunks matter: an event of exactly the limit is delivered when
  its separator arrives with it, and dropped when a chunk ends in the middle of the separator.
\<close>

lemma near_limit_depends_on_chunks:
  assumes "idle s" "length e = maxPendingEventBytes" "LF \<notin> set e" "CR \<notin> set e"
  shows "ss_calls (processChunk dec (e @ [LF, LF]) s) = ss_calls s @ event_calls dec s e"
    and "ss_calls (processChunk dec [LF] (processChunk dec (e @ [LF]) s)) = ss_calls s"
proof -
  have ch: "e ! k \<noteq> LF" "e ! k \<noteq> CR" if "k < length e" for k
    using assms(3,4) that by (metis nth_mem)+
  have none: "\<not> boundary_at (e @ t) k n" if "k < length e" for t k n
    using ch that by (auto simp: boundary_at_nth nth_append)
  have b: "nextEventBoundary (e @ [LF, LF]) = Some (length e, 2)"
    unfolding nextEventBoundary_Some using none by (auto simp: boundary_at_nth nth_append)
  have nil: "nextEventBoundary [] = None" by (simp add: nextEventBoundary_None boundary_at_nth)
  have "e \<noteq> []" using assms(2) by (auto simp: maxPendingEventBytes_def)
  have "processChunk dec (e @ [LF, LF]) s = holding [] (deliver dec [e] s)"
    using assms(1) chunk_loop_idle [OF assms(1), of dec "e @ [LF, LF]"]
    by (simp add: processChunk_def idle_def sse_events_Some [OF b] sse_events_None [OF nil])
  then show "ss_calls (processChunk dec (e @ [LF, LF]) s) = ss_calls s @ event_calls dec s e"
    using assms(2) \<open>e \<noteq> []\<close> by (simp add: holding_def deliver_def kept_def)
  have "\<not> boundary_at (e @ [LF]) k n" for k n
    using none [of k "[LF]" n] by (cases "k < length e") (auto simp: boundary_at_nth)
  then have open1: "nextEventBoundary (e @ [LF]) = None" by (simp add: nextEventBoundary_None)
  have first: "processChunk dec (e @ [LF]) s = holding (e @ [LF]) s"
    using assms(1) chunk_loop_idle [OF assms(1), of dec "e @ [LF]"]
    by (simp add: processChunk_def idle_def sse_events_None [OF open1])
  have "nextEventBoundary [LF] = None" by code_simp
  then have lf: "ss_calls (chunk_loop dec (drop k [LF]) s') = ss_calls s'"
    if "\<not> ss_discarding s'" for k and s' :: "'a sse_stream"
    using that by (cases k) (simp_all add: chunk_loop.simps savePending_def startDiscarding_def)
  have "ss_calls (chunk_loop dec [LF] (holding (e @ [LF]) s)) = ss_calls s"
    using assms(2)
    by (subst chunk_loop.simps) (auto simp: holding_def lf simp del: drop_Cons' split: option.splits)
  moreover have "processChunk dec [LF] (holding (e @ [LF]) s) = chunk_loop dec [LF] (holding (e @ [LF]) s)"
    using assms(2) by (simp add: processChunk_def holding_def)
  ultimately show "ss_calls (processChunk dec [LF] (processChunk dec (e @ [LF]) s)) = ss_calls s"
    by (simp add: first)
qed

section \<open>Streams fit for the cache\<close>

text \<open>
  \<open>nextCacheEventBoundary\<close> and \<open>parseCacheDataLine\<close> repeat \<open>nextEventBoundary\<close> and
  \<open>parseDataLine\<close> line by line; the model uses the same definitions for both.
\<close>

abbreviation nextCacheEventBoundary :: "string \<Rightarrow> (nat \<times> nat) option" where
  "nextCacheEventBoundary \<equiv> nextEventBoundary"

abbreviation parseCacheDataLine :: "string \<Rightarrow> string option" where
  "parseCacheDataLine \<equiv> parseDataLine"

definition cut_event :: "string \<Rightarrow> string \<times> string" where
  "cut_event raw =
     (case nextCacheEventBoundary raw of
        None \<Rightarrow> (raw, [])
      | Some (idx, sepLen) \<Rightarrow> (take idx raw, drop (idx + sepLen) raw))"

lemma cut_event_shorter: "raw \<noteq> [] \<Longrightarrow> length (snd (cut_event raw)) < length raw"
  by (auto simp: cut_event_def dest!: nextEventBoundary_bounds split: option.splits)

function validate_loop :: "(string \<Rightarrow> bool) \<Rightarrow> bool \<Rightarrow> bool \<Rightarrow> string \<Rightarrow> bool" where
  "validate_loop valid sawJSONPayload sawDone raw =
     (if raw = [] then sawJSONPayload \<and> sawDone
      else let (event, raw') = cut_event raw
           in if sawDone then False
              else case sseEventPayload event of
                     None \<Rightarrow> validate_loop valid sawJSONPayload sawDone raw'
                   | Some payload \<Rightarrow>
                       if go_trim payload = [] then validate_loop valid sawJSONPayload sawDone raw'
                       else if payload = donePayload
                       then validate_loop valid sawJSONPayload True raw'
                       else if \<not> valid payload then False
                       else validate_loop valid True sawDone raw')"
  by pat_completeness auto
termination
proof (relation "measure (\<lambda>(valid, j, d, raw). length raw)")
qed (simp_all, (metis cut_event_shorter snd_conv)+)

declare validate_loop.simps [simp del]

definition validateCacheableSSE :: "(string \<Rightarrow> bool) \<Rightarrow> string \<Rightarrow> bool" where
  "validateCacheableSSE valid raw =
     (if raw = [] then False else validate_loop valid False False raw)"

text \<open>The frames of a body: its events, and what follows the last separator unless it is empty.\<close>

definition frames :: "string \<Rightarrow> string list" where
  "frames raw = (let (es, r) = sse_events raw in if r = [] then es else es @ [r])"

lemma frames_step: "raw \<noteq> [] \<Longrightarrow> frames raw = fst (cut_event raw) # frames (snd (cut_event raw))"
proof (cases "nextEventBoundary raw")
  case None
  moreover assume "raw \<noteq> []"
  moreover have "nextEventBoundary [] = None" by (simp add: nextEventBoundary_None boundary_at_nth)
  ultimately show ?thesis by (simp add: frames_def cut_event_def sse_events_None)
next
  case (Some p)
  then obtain i n where b: "nextEventBoundary raw = Some (i, n)" by (cases p) auto
  show ?thesis
    by (simp add: frames_def cut_event_def b sse_events_Some [OF b] case_prod_beta)
qed

definition data_of :: "string \<Rightarrow> string option" where
  \<comment> \<open>the payload of an event, unless it is blank\<close>
  "data_of event =
     (case sseEventPayload event of
        None \<Rightarrow> None | Some p \<Rightarrow> if go_trim p = [] then None else Some p)"

lemma go_trim_done: "go_trim donePayload \<noteq> []"
  unfolding donePayload_def by code_simp

lemma data_of_done: "data_of e = Some donePayload \<longleftrightarrow> sseEventPayload e = Some donePayload"
  using go_trim_done by (auto simp: data_of_def split: option.splits)

fun check_frames :: "(string \<Rightarrow> bool) \<Rightarrow> bool \<Rightarrow> bool \<Rightarrow> string list \<Rightarrow> bool" where
  "check_frames valid j d [] = (j \<and> d)"
| "check_frames valid j d (e # es) =
     (\<not> d \<and> (case data_of e of
               None \<Rightarrow> check_frames valid j d es
             | Some p \<Rightarrow>
                 if p = donePayload then check_frames valid j True es
                 else valid p \<and> check_frames valid True d es))"

lemma frames_Nil [simp]: "frames [] = []"
  by (simp add: frames_def sse_events_None nextEventBoundary_None boundary_at_nth)

lemma validate_loop_frames: "validate_loop valid j d raw = check_frames valid j d (frames raw)"
proof (induction raw arbitrary: j d rule: length_induct)
  case (1 raw)
  show ?case
  proof (cases "raw = []")
    case True
    then show ?thesis by (simp add: validate_loop.simps)
  next
    case False
    then have "validate_loop valid j' d' (snd (cut_event raw)) =
        check_frames valid j' d' (frames (snd (cut_event raw)))" for j' d'
      using 1 cut_event_shorter by blast
    then show ?thesis
      using False frames_step [OF False]
      by (subst validate_loop.simps)
        (auto simp: case_prod_beta data_of_def go_trim_done split: option.split)
  qed
qed

lemma check_frames_iff:
  "check_frames valid j d es \<longleftrightarrow>
     (if d then j \<and> es = []
      else es \<noteq> [] \<and> data_of (last es) = Some donePayload
        \<and> (\<forall>e\<in>set (butlast es). \<forall>p. data_of e = Some p \<longrightarrow> p \<noteq> donePayload \<and> valid p)
        \<and> (j \<or> (\<exists>e\<in>set (butlast es). data_of e \<noteq> None)))"
proof (induction es arbitrary: j d)
  case (Cons e es)
  show ?case
  proof (cases "d \<or> es = []")
    case True
    then show ?thesis by (auto split: option.splits)
  next
    case False
    then show ?thesis by (cases "data_of e") (auto simp: Cons)
  qed
qed simp

text \<open>
  A body is accepted for the cache exactly when the last of its events carries the payload
  [DONE], no other event does, every other payload that is not blank is valid JSON, and there is
  at least one of those.
\<close>

lemma validateCacheableSSE_iff:
  "validateCacheableSSE valid raw \<longleftrightarrow>
     raw \<noteq> [] \<and> sseEventPayload (last (frames raw)) = Some donePayload
     \<and> (\<forall>e\<in>set (butlast (frames raw)). \<forall>p. sseEventPayload e = Some p \<and> go_trim p \<noteq> [] \<longrightarrow>
           p \<noteq> donePayload \<and> valid p)
     \<and> (\<exists>e\<in>set (butlast (frames raw)). \<exists>p. sseEventPayload e = Some p \<and> go_trim p \<noteq> [])"
proof -
  have data: "data_of e = Some p \<longleftrightarrow> sseEventPayload e = Some p \<and> go_trim p \<noteq> []" for e p
    by (auto simp: data_of_def split: option.splits)
  have "frames raw \<noteq> []" if "raw \<noteq> []" using frames_step [OF that] by simp
  then show ?thesis
    by (auto simp: validateCacheableSSE_def validate_loop_frames check_frames_iff data go_trim_done
        not_None_eq)
qed

lemma validateCacheableSSE_iff_witness:
  defines "body \<equiv> ''data: {}'' @ [LF, LF] @ ''data: [DONE]'' @ [LF, LF]"
  shows "validateCacheableSSE (\<lambda>p. p = ''{}'') body"
proof -
  have "frames body = [''data: {}'', ''data: [DONE]'']" unfolding body_def by code_simp
  moreover have "sseEventPayload ''data: {}'' = Some ''{}''"
    "sseEventPayload ''data: [DONE]'' = Some donePayload" "go_trim ''{}'' \<noteq> []" "body \<noteq> []"
    "donePayload \<noteq> ''{}''"
    unfolding body_def by code_simp+
  ultimately show ?thesis
    using validateCacheableSSE_iff [of "\<lambda>p. p = ''{}''" body] by simp
qed

end
