(* ===== verification/Workflow.thy ===== *)
theory Workflow
  imports UserPath Selectors LLMClient
begin

text \<open>
  Endpoints, request contexts and workflows: \<open>internal/core/endpoints.go\<close>, \<open>context.go\<close>,
  \<open>workflow.go\<close>, and the functions of \<open>internal/gateway\<close> that read a workflow
  (\<open>model_helpers.go\<close>, \<open>workflow_policy.go\<close>).

  A Go context is an immutable chain of values; \<open>go_context\<close> has a field for each key the
  gateway reads, at its default when unset. The attempt recorder a context carries is shared and
  mutable; the context only says whether there is one. A nil pointer is \<open>None\<close>.
\<close>

section \<open>Endpoints\<close>

datatype operation =
    OperationNone
  | OperationChatCompletions
  | OperationResponses
  | OperationConversations
  | OperationEmbeddings
  | OperationImageGenerations
  | OperationBatches
  | OperationFiles
  | OperationAudioSpeech
  | OperationAudioTranscriptions
  | OperationRealtime
  | OperationProviderPassthrough

datatype body_mode = BodyModeUnset | BodyModeNone | BodyModeJSON | BodyModeMultipart | BodyModeOpaque

record endpoint =
  ep_ModelInteraction :: bool
  ep_IngressManaged :: bool
  ep_Dialect :: string
  ep_Operation :: operation
  ep_BodyMode :: body_mode

definition no_endpoint :: endpoint where
  "no_endpoint = \<lparr>ep_ModelInteraction = False, ep_IngressManaged = False, ep_Dialect = [],
     ep_Operation = OperationNone, ep_BodyMode = BodyModeUnset\<rparr>"

definition openai_endpoint :: "bool \<Rightarrow> operation \<Rightarrow> endpoint" where
  "openai_endpoint managed op = no_endpoint\<lparr>ep_ModelInteraction := True, ep_IngressManaged := managed,
     ep_Dialect := ''openai_compat'', ep_Operation := op\<rparr>"

definition normalizeEndpointPath :: "string \<Rightarrow> string" where
  "normalizeEndpointPath path0 =
     (let path = go_trim path0;
          path = (case cut (CHR ''?'') path of Some (before, _) \<Rightarrow> before | None \<Rightarrow> path)
      in if length path > 1 \<and> has_suffix path ''/'' then trim_suffix path ''/'' else path)"

definition matchesEndpointPath :: "string \<Rightarrow> string \<Rightarrow> bool" where
  "matchesEndpointPath path prefix =
     (if path = prefix then True
      else if \<not> has_prefix path prefix then False
      else has_prefix (drop (length prefix) path) ''/'')"

definition describeEndpointPath :: "string \<Rightarrow> endpoint" where
  "describeEndpointPath path0 =
     (let path = normalizeEndpointPath path0
      in if path = ''/v1/chat/completions'' then openai_endpoint True OperationChatCompletions
         else if matchesEndpointPath path ''/v1/responses'' then openai_endpoint True OperationResponses
         else if path = ''/v1/conversations'' \<or> has_prefix path ''/v1/conversations/''
         then openai_endpoint True OperationConversations
         else if path = ''/v1/embeddings'' then openai_endpoint True OperationEmbeddings
         else if path = ''/v1/images/generations'' then openai_endpoint True OperationImageGenerations
         else if path = ''/v1/messages'' \<or> path = ''/v1/messages/count_tokens''
         then (openai_endpoint False OperationChatCompletions)\<lparr>ep_Dialect := ''anthropic''\<rparr>
         else if path = ''/v1/batches'' \<or> has_prefix path ''/v1/batches/''
         then openai_endpoint True OperationBatches
         else if path = ''/v1/files'' \<or> has_prefix path ''/v1/files/''
         then openai_endpoint True OperationFiles
         else if path = ''/v1/audio/speech'' then openai_endpoint False OperationAudioSpeech
         else if path = ''/v1/audio/transcriptions'' then openai_endpoint False OperationAudioTranscriptions
         else if path = ''/v1/realtime'' \<or> path = ''/v1/realtime/calls'' \<or>
                 path = ''/v1/realtime/client_secrets''
         then openai_endpoint False OperationRealtime
         else if has_prefix path ''/p/''
         then (openai_endpoint True OperationProviderPassthrough)\<lparr>ep_Dialect := ''provider_passthrough''\<rparr>
         else no_endpoint)"

definition bodyModeForEndpoint :: "string \<Rightarrow> string \<Rightarrow> operation \<Rightarrow> body_mode" where
  "bodyModeForEndpoint method0 path0 op =
     (let method = go_to_upper (go_trim method0); path = normalizeEndpointPath path0; post = (method = ''POST'')
      in case op of
           OperationChatCompletions \<Rightarrow> BodyModeJSON
         | OperationEmbeddings \<Rightarrow> BodyModeJSON
         | OperationImageGenerations \<Rightarrow> BodyModeJSON
         | OperationResponses \<Rightarrow>
             if post \<and> (path = ''/v1/responses'' \<or> path = ''/v1/responses/input_tokens'' \<or>
                        path = ''/v1/responses/compact'')
             then BodyModeJSON else BodyModeNone
         | OperationConversations \<Rightarrow> if post then BodyModeJSON else BodyModeNone
         | OperationBatches \<Rightarrow>
             if post then (if has_suffix path ''/cancel'' then BodyModeNone else BodyModeJSON)
             else BodyModeNone
         | OperationFiles \<Rightarrow>
             if post \<and> path = ''/v1/files'' then BodyModeMultipart else BodyModeNone
         | OperationAudioSpeech \<Rightarrow> BodyModeJSON
         | OperationAudioTranscriptions \<Rightarrow> BodyModeMultipart
         | OperationRealtime \<Rightarrow>
             if post \<and> path = ''/v1/realtime/client_secrets'' then BodyModeJSON
             else if post \<and> path = ''/v1/realtime/calls'' then BodyModeOpaque
             else BodyModeNone
         | OperationProviderPassthrough \<Rightarrow> BodyModeOpaque
         | OperationNone \<Rightarrow> BodyModeNone)"

definition DescribeEndpoint :: "string \<Rightarrow> string \<Rightarrow> endpoint" where
  "DescribeEndpoint method path =
     (let desc = describeEndpointPath path
      in desc\<lparr>ep_BodyMode := bodyModeForEndpoint method path (ep_Operation desc)\<rparr>)"

definition DescribeEndpointPath :: "string \<Rightarrow> endpoint" where
  "DescribeEndpointPath path = DescribeEndpoint [] path"

definition IsModelInteractionPath :: "string \<Rightarrow> bool" where
  "IsModelInteractionPath path = ep_ModelInteraction (DescribeEndpointPath path)"

definition ParseProviderPassthroughPath :: "string \<Rightarrow> (string \<times> string) option" where
  "ParseProviderPassthroughPath path =
     (let trimmed = trim_prefix (go_trim path) ''/''
      in if \<not> has_prefix trimmed ''p/'' then None
         else let (p, rest) = (case cut (CHR ''/'') (trim_prefix trimmed ''p/'') of
                     None \<Rightarrow> (trim_prefix trimmed ''p/'', None)
                   | Some (a, b) \<Rightarrow> (a, Some b));
                  provider = go_trim p
              in if provider = [] then None
                 else Some (provider, case rest of None \<Rightarrow> [] | Some e \<Rightarrow> go_trim e))"

section \<open>Workflows\<close>

datatype execution_mode =
    ModeUnset
  | ExecutionModeTranslated
  | ExecutionModePassthrough
  | ExecutionModeNativeBatch
  | ExecutionModeNativeFile

fun mode_string :: "execution_mode \<Rightarrow> string" where
  "mode_string ModeUnset = []"
| "mode_string ExecutionModeTranslated = ''translated''"
| "mode_string ExecutionModePassthrough = ''passthrough''"
| "mode_string ExecutionModeNativeBatch = ''native_batch''"
| "mode_string ExecutionModeNativeFile = ''native_file''"

record capability_set =
  cap_SemanticExtraction :: bool
  cap_AliasResolution :: bool
  cap_Guardrails :: bool
  cap_RequestPatching :: bool
  cap_UsageTracking :: bool
  cap_ResponseCaching :: bool
  cap_Streaming :: bool
  cap_Passthrough :: bool

definition no_capabilities :: capability_set where
  "no_capabilities = \<lparr>cap_SemanticExtraction = False, cap_AliasResolution = False,
     cap_Guardrails = False, cap_RequestPatching = False, cap_UsageTracking = False,
     cap_ResponseCaching = False, cap_Streaming = False, cap_Passthrough = False\<rparr>"

definition CapabilitiesForEndpoint :: "endpoint \<Rightarrow> capability_set" where
  "CapabilitiesForEndpoint desc =
     (if ep_Operation desc \<in> {OperationChatCompletions, OperationResponses} then
        no_capabilities\<lparr>cap_SemanticExtraction := True, cap_AliasResolution := True,
          cap_Guardrails := True, cap_RequestPatching := True, cap_UsageTracking := True,
          cap_ResponseCaching := True, cap_Streaming := True\<rparr>
      else if ep_Operation desc = OperationEmbeddings then
        no_capabilities\<lparr>cap_SemanticExtraction := True, cap_AliasResolution := True,
          cap_UsageTracking := True, cap_ResponseCaching := True\<rparr>
      else if ep_Operation desc = OperationBatches then
        no_capabilities\<lparr>cap_SemanticExtraction := True, cap_AliasResolution := True,
          cap_Guardrails := True, cap_RequestPatching := True, cap_UsageTracking := True\<rparr>
      else if ep_Operation desc = OperationFiles then
        no_capabilities\<lparr>cap_SemanticExtraction := True\<rparr>
      else if ep_Operation desc = OperationProviderPassthrough then
        no_capabilities\<lparr>cap_SemanticExtraction := True, cap_Passthrough := True\<rparr>
      else no_capabilities)"

record workflow_selector =
  wsel_Provider :: string
  wsel_Model :: string
  wsel_UserPath :: string

definition NewWorkflowSelector :: "string \<Rightarrow> string \<Rightarrow> string list \<Rightarrow> workflow_selector" where
  "NewWorkflowSelector provider model userPath =
     \<lparr>wsel_Provider = go_trim provider, wsel_Model = go_trim model,
      wsel_UserPath = (case userPath of
          [] \<Rightarrow> []
        | p # _ \<Rightarrow> (case NormalizeUserPath p of Inr normalized \<Rightarrow> normalized | Inl _ \<Rightarrow> []))\<rparr>"

record workflow_features =
  feat_Cache :: bool
  feat_Audit :: bool
  feat_Usage :: bool
  feat_Budget :: bool
  feat_Guardrails :: bool
  feat_Failover :: bool

definition ApplyUpperBound :: "workflow_features \<Rightarrow> workflow_features \<Rightarrow> workflow_features" where
  "ApplyUpperBound f caps =
     (let usage = (feat_Usage f \<and> feat_Usage caps)
      in \<lparr>feat_Cache = (feat_Cache f \<and> feat_Cache caps), feat_Audit = (feat_Audit f \<and> feat_Audit caps),
          feat_Usage = usage, feat_Budget = (usage \<and> feat_Budget f \<and> feat_Budget caps),
          feat_Guardrails = (feat_Guardrails f \<and> feat_Guardrails caps),
          feat_Failover = (feat_Failover f \<and> feat_Failover caps)\<rparr>)"

definition DefaultWorkflowFeatures :: workflow_features where
  "DefaultWorkflowFeatures = \<lparr>feat_Cache = True, feat_Audit = True, feat_Usage = True,
     feat_Budget = True, feat_Guardrails = True, feat_Failover = True\<rparr>"

record workflow_policy =
  pol_VersionID :: string
  pol_Version :: int
  pol_ScopeProvider :: string
  pol_ScopeModel :: string
  pol_ScopeUserPath :: string
  pol_Name :: string
  pol_WorkflowHash :: string
  pol_Features :: workflow_features
  pol_GuardrailsHash :: string

record workflow =
  wk_RequestID :: string
  wk_Endpoint :: endpoint
  wk_Mode :: execution_mode
  wk_Capabilities :: capability_set
  wk_ProviderType :: string
  wk_Resolution :: "model_resolution option"
  wk_Policy :: "workflow_policy option"

definition wk_ResolvedQualifiedModel :: "workflow option \<Rightarrow> string" where
  "wk_ResolvedQualifiedModel p =
     (case p of None \<Rightarrow> [] | Some w \<Rightarrow> res_ResolvedQualifiedModel (wk_Resolution w))"

definition wk_RequestedQualifiedModel :: "workflow option \<Rightarrow> string" where
  "wk_RequestedQualifiedModel p =
     (case p of None \<Rightarrow> [] | Some w \<Rightarrow> res_RequestedQualifiedModel (wk_Resolution w))"

definition WorkflowVersionID :: "workflow option \<Rightarrow> string" where
  "WorkflowVersionID p =
     (case p of None \<Rightarrow> [] | Some w \<Rightarrow> (case wk_Policy w of None \<Rightarrow> [] | Some pol \<Rightarrow> go_trim (pol_VersionID pol)))"

definition featureEnabled :: "workflow option \<Rightarrow> (workflow_features \<Rightarrow> bool) \<Rightarrow> bool" where
  "featureEnabled p pick =
     (case p of
        None \<Rightarrow> pick DefaultWorkflowFeatures
      | Some w \<Rightarrow>
          (case wk_Policy w of
             None \<Rightarrow> pick DefaultWorkflowFeatures
           | Some pol \<Rightarrow>
               if go_trim (pol_VersionID pol) = [] then pick DefaultWorkflowFeatures
               else pick (pol_Features pol)))"

abbreviation CacheEnabled :: "workflow option \<Rightarrow> bool" where
  "CacheEnabled p \<equiv> featureEnabled p feat_Cache"
abbreviation AuditEnabled :: "workflow option \<Rightarrow> bool" where
  "AuditEnabled p \<equiv> featureEnabled p feat_Audit"
abbreviation UsageEnabled :: "workflow option \<Rightarrow> bool" where
  "UsageEnabled p \<equiv> featureEnabled p feat_Usage"
abbreviation BudgetEnabled :: "workflow option \<Rightarrow> bool" where
  "BudgetEnabled p \<equiv> featureEnabled p feat_Budget"
abbreviation GuardrailsEnabled :: "workflow option \<Rightarrow> bool" where
  "GuardrailsEnabled p \<equiv> featureEnabled p feat_Guardrails"
abbreviation FailoverEnabled :: "workflow option \<Rightarrow> bool" where
  "FailoverEnabled p \<equiv> featureEnabled p feat_Failover"

definition GuardrailsHash :: "workflow option \<Rightarrow> string" where
  "GuardrailsHash p =
     (case p of
        None \<Rightarrow> []
      | Some w \<Rightarrow>
          (case wk_Policy w of
             None \<Rightarrow> []
           | Some pol \<Rightarrow> if \<not> GuardrailsEnabled p then [] else go_trim (pol_GuardrailsHash pol)))"

section \<open>Contexts\<close>

datatype request_origin = OriginUnset | RequestOriginExternal | RequestOriginGuardrail

record go_context =
  ctx_request_id :: string
  ctx_workflow :: "workflow option"
  ctx_effective_user_path :: string
  ctx_snapshot_user_path :: "string option"
  ctx_labels :: "string list"
  ctx_enforce_usage :: bool
  ctx_saturated :: "go_error option"
  ctx_guardrails_hash :: string
  ctx_failover_used :: bool
  ctx_rewrite_saved :: int
  ctx_origin :: request_origin
  ctx_recorder :: bool
  ctx_observer :: bool

definition Background :: go_context where
  "Background = \<lparr>ctx_request_id = [], ctx_workflow = None, ctx_effective_user_path = [],
     ctx_snapshot_user_path = None, ctx_labels = [], ctx_enforce_usage = False,
     ctx_saturated = None, ctx_guardrails_hash = [], ctx_failover_used = False,
     ctx_rewrite_saved = 0, ctx_origin = OriginUnset, ctx_recorder = False,
     ctx_observer = False\<rparr>"

definition UserPathFromContext :: "go_context \<Rightarrow> string" where
  "UserPathFromContext ctx =
     (if ctx_effective_user_path ctx \<noteq> [] then ctx_effective_user_path ctx
      else case ctx_snapshot_user_path ctx of None \<Rightarrow> [] | Some p \<Rightarrow> p)"

definition WithPrimaryRouteSaturated :: "go_error option \<Rightarrow> go_context \<Rightarrow> go_context" where
  "WithPrimaryRouteSaturated err ctx = (if err = None then ctx else ctx\<lparr>ctx_saturated := err\<rparr>)"

definition WithRewriteTokensSaved :: "int \<Rightarrow> go_context \<Rightarrow> go_context" where
  "WithRewriteTokensSaved n ctx = (if n \<le> 0 then ctx else ctx\<lparr>ctx_rewrite_saved := n\<rparr>)"

definition RewriteTokensSavedFromContext :: "go_context \<Rightarrow> int" where
  "RewriteTokensSavedFromContext ctx = (if ctx_rewrite_saved ctx > 0 then ctx_rewrite_saved ctx else 0)"

definition GetRequestOrigin :: "go_context \<Rightarrow> request_origin" where
  "GetRequestOrigin ctx = (if ctx_origin ctx = OriginUnset then RequestOriginExternal else ctx_origin ctx)"

definition WithRequestLabels :: "string list \<Rightarrow> go_context \<Rightarrow> go_context" where
  "WithRequestLabels labels ctx = (if labels = [] then ctx else ctx\<lparr>ctx_labels := labels\<rparr>)"

section \<open>Readers of a workflow\<close>

definition ProviderNameFromWorkflow :: "workflow option \<Rightarrow> string" where
  "ProviderNameFromWorkflow workflow =
     (case workflow of
        None \<Rightarrow> []
      | Some w \<Rightarrow> (case wk_Resolution w of None \<Rightarrow> [] | Some r \<Rightarrow> go_trim (mr_ProviderName r)))"

definition ProviderTypeFromWorkflow :: "workflow option \<Rightarrow> string" where
  "ProviderTypeFromWorkflow workflow =
     (case workflow of None \<Rightarrow> [] | Some w \<Rightarrow> go_trim (wk_ProviderType w))"

definition resolvedModelPrefix :: "workflow option \<Rightarrow> string \<Rightarrow> string" where
  "resolvedModelPrefix workflow providerName =
     (if go_trim providerName \<noteq> [] then go_trim providerName
      else case workflow of
          None \<Rightarrow> []
        | Some w \<Rightarrow>
            (case wk_Resolution w of
               None \<Rightarrow> []
             | Some r \<Rightarrow>
                 if go_trim (mr_ProviderName r) \<noteq> [] then go_trim (mr_ProviderName r)
                 else go_trim (ms_Provider (mr_ResolvedSelector r))))"

definition QualifyModelWithProvider :: "string \<Rightarrow> string \<Rightarrow> string" where
  "QualifyModelWithProvider model0 providerName0 =
     (let model = go_trim model0; providerName = go_trim providerName0
      in if model = [] then []
         else if providerName = [] \<or> has_prefix model (providerName @ ''/'') then model
         else providerName @ ''/'' @ model)"

definition QualifyExecutedModel :: "workflow option \<Rightarrow> string \<Rightarrow> string \<Rightarrow> string" where
  "QualifyExecutedModel workflow model providerName =
     QualifyModelWithProvider model (resolvedModelPrefix workflow providerName)"

definition ResolvedModelFromWorkflow :: "workflow option \<Rightarrow> string \<Rightarrow> string" where
  "ResolvedModelFromWorkflow workflow fallback =
     (case workflow of
        None \<Rightarrow> go_trim fallback
      | Some w \<Rightarrow>
          (case wk_Resolution w of
             None \<Rightarrow> go_trim fallback
           | Some r \<Rightarrow>
               let m = go_trim (ms_Model (mr_ResolvedSelector r))
               in if m \<noteq> [] then m else go_trim fallback))"

definition currentSelectorForWorkflow :: "workflow option \<Rightarrow> string \<Rightarrow> string \<Rightarrow> string" where
  "currentSelectorForWorkflow workflow model provider =
     (let resolved = (case workflow of
          None \<Rightarrow> []
        | Some w \<Rightarrow> (case wk_Resolution w of
              None \<Rightarrow> [] | Some r \<Rightarrow> go_trim (wk_ResolvedQualifiedModel workflow)))
      in if resolved \<noteq> [] then resolved
         else case ParseModelSelector model provider of
             Inl _ \<Rightarrow> go_trim model
           | Inr sel \<Rightarrow> QualifiedModel sel)"

definition ResponseProviderType :: "string \<Rightarrow> string \<Rightarrow> string" where
  "ResponseProviderType fallback responseProvider =
     (if go_trim responseProvider \<noteq> [] then go_trim responseProvider else go_trim fallback)"

definition ResolvedWorkflowProviderName :: "model_resolution option \<Rightarrow> string" where
  "ResolvedWorkflowProviderName resolution =
     (case resolution of
        None \<Rightarrow> []
      | Some r \<Rightarrow> if go_trim (mr_ProviderName r) \<noteq> [] then go_trim (mr_ProviderName r)
                  else go_trim (ms_Provider (mr_ResolvedSelector r)))"

section \<open>The workflow of a translated request\<close>

type_synonym policy_resolver = "workflow_selector \<Rightarrow> go_error + workflow_policy option"

definition NormalizeWorkflowPolicyError :: "go_error option \<Rightarrow> go_error option" where
  "NormalizeWorkflowPolicyError err =
     (case err of
        None \<Rightarrow> None
      | Some e \<Rightarrow>
          (case as_gateway e of
             Some g \<Rightarrow> Some g
           | None \<Rightarrow> Some (NewProviderError [] 500 ''failed to resolve workflow policy'' (Some e))))"

definition ApplyWorkflowContextOverrides :: "go_context \<Rightarrow> workflow \<Rightarrow> workflow" where
  "ApplyWorkflowContextOverrides ctx w =
     (if GetRequestOrigin ctx \<noteq> RequestOriginGuardrail then w
      else case wk_Policy w of
          None \<Rightarrow> w
        | Some pol \<Rightarrow>
            w\<lparr>wk_Policy := Some (pol\<lparr>pol_Features := (pol_Features pol)\<lparr>feat_Guardrails := False\<rparr>,
                                     pol_GuardrailsHash := []\<rparr>)\<rparr>)"

definition ApplyWorkflowPolicy ::
  "go_context \<Rightarrow> workflow \<Rightarrow> policy_resolver option \<Rightarrow> workflow_selector \<Rightarrow> go_error + workflow" where
  "ApplyWorkflowPolicy ctx w resolver sel =
     (case resolver of
        None \<Rightarrow> Inr w
      | Some match \<Rightarrow>
          (case match sel of
             Inl err \<Rightarrow> Inl (the (NormalizeWorkflowPolicyError (Some err)))
           | Inr policy \<Rightarrow> Inr (ApplyWorkflowContextOverrides ctx (w\<lparr>wk_Policy := policy\<rparr>))))"

definition TranslatedWorkflow ::
  "go_context \<Rightarrow> string \<Rightarrow> endpoint \<Rightarrow> model_resolution option \<Rightarrow> policy_resolver option \<Rightarrow>
   go_error + workflow" where
  "TranslatedWorkflow ctx requestID ep resolution policyResolver =
     (let w = \<lparr>wk_RequestID = requestID, wk_Endpoint = ep, wk_Mode = ExecutionModeTranslated,
               wk_Capabilities = CapabilitiesForEndpoint ep,
               wk_ProviderType = (case resolution of None \<Rightarrow> [] | Some r \<Rightarrow> go_trim (mr_ProviderType r)),
               wk_Resolution = resolution, wk_Policy = None\<rparr>;
          sel = (case resolution of
                   None \<Rightarrow> \<lparr>wsel_Provider = [], wsel_Model = [], wsel_UserPath = []\<rparr>
                 | Some r \<Rightarrow> NewWorkflowSelector (ResolvedWorkflowProviderName resolution)
                               (ms_Model (mr_ResolvedSelector r)) [UserPathFromContext ctx])
      in ApplyWorkflowPolicy ctx w policyResolver sel)"

section \<open>Laws\<close>

lemma ApplyUpperBound_budget: "feat_Budget (ApplyUpperBound f caps) \<Longrightarrow> feat_Usage (ApplyUpperBound f caps)"
  by (simp add: ApplyUpperBound_def Let_def)

lemma ApplyUpperBound_idem: "ApplyUpperBound (ApplyUpperBound f caps) caps = ApplyUpperBound f caps"
  by (auto simp: ApplyUpperBound_def Let_def)

text \<open>A request the guardrails themselves make never runs the guardrails of a stored workflow.\<close>

lemma guardrail_origin_skips_guardrails:
  assumes "GetRequestOrigin ctx = RequestOriginGuardrail" and "resolver = Some m"
    and "TranslatedWorkflow ctx rid ep res resolver = Inr w"
    and "wk_Policy w = Some pol" "go_trim (pol_VersionID pol) \<noteq> []"
  shows "\<not> GuardrailsEnabled (Some w)" "GuardrailsHash (Some w) = []"
  using assms
  by (auto simp: TranslatedWorkflow_def ApplyWorkflowPolicy_def ApplyWorkflowContextOverrides_def
      featureEnabled_def GuardrailsHash_def Let_def split: sum.splits option.splits)

lemma ApplyWorkflowPolicy_keeps:
  assumes "ApplyWorkflowPolicy ctx w resolver sel = Inr w'"
  shows "wk_Resolution w' = wk_Resolution w" "wk_Mode w' = wk_Mode w"
    "wk_Endpoint w' = wk_Endpoint w" "wk_ProviderType w' = wk_ProviderType w"
  using assms
  by (auto simp: ApplyWorkflowPolicy_def ApplyWorkflowContextOverrides_def
      split: option.splits sum.splits if_splits)

lemma TranslatedWorkflow_fields:
  assumes "TranslatedWorkflow ctx rid ep res resolver = Inr w"
  shows "wk_Resolution w = res" "wk_Mode w = ExecutionModeTranslated" "wk_Endpoint w = ep"
    "wk_ProviderType w = (case res of None \<Rightarrow> [] | Some r \<Rightarrow> go_trim (mr_ProviderType r))"
  using ApplyWorkflowPolicy_keeps [OF assms [unfolded TranslatedWorkflow_def Let_def]] by simp_all

lemma TranslatedWorkflow_error:
  "TranslatedWorkflow ctx rid ep res resolver = Inl e \<Longrightarrow> is_gateway e"
  by (auto simp: TranslatedWorkflow_def ApplyWorkflowPolicy_def NormalizeWorkflowPolicyError_def Let_def
      NewProviderError_def split: option.splits sum.splits dest: as_gateway_is_gateway)

end
