(* ===== verification/Failover.thy ===== *)
theory Failover
  imports Workflow "HOL-Library.Sublist"
begin

text \<open>
  Executing a translated request with failover: \<open>internal/gateway/attempts.go\<close>,
  \<open>failover.go\<close> and \<open>inference_execute.go\<close>.

  The provider call and everything the sweep asks of its surroundings are functions over a world
  state \<open>'s\<close>: the record \<open>failover_env\<close> holds the context test \<open>ctx.Err()\<close> (which may move the
  world on), the failover resolver, the authorizer, the route gate and the two name lookups, each
  optional where the code tests for nil. The response is \<open>'a\<close>; a result is an error or a value.
  Of an attempt the start time and the duration are left out. Logging is left out.
\<close>

section \<open>Attempts\<close>

definition AttemptKindPrimary :: string where "AttemptKindPrimary = ''primary''"
definition AttemptKindFailover :: string where "AttemptKindFailover = ''failover''"
definition AttemptKindRetry :: string where "AttemptKindRetry = ''retry''"

record provider_attempt =
  pa_Seq :: int
  pa_Kind :: string
  pa_ProviderType :: string
  pa_ProviderName :: string
  pa_Model :: string
  pa_StatusCode :: int
  pa_Success :: bool
  pa_ErrorType :: string
  pa_ErrorCode :: string
  pa_ErrorMessage :: string
  pa_ResponseBody :: string

record attempt_recorder =
  rec_attempts :: "provider_attempt list"
  rec_notified :: nat     \<comment> \<open>calls of the attempt observer\<close>

definition WithAttemptRecorder :: "go_context \<Rightarrow> go_context" where
  "WithAttemptRecorder ctx = (if ctx_recorder ctx then ctx else ctx\<lparr>ctx_recorder := True\<rparr>)"

definition AttemptsFromContext :: "go_context \<Rightarrow> attempt_recorder \<Rightarrow> provider_attempt list" where
  "AttemptsFromContext ctx r = (if ctx_recorder ctx then rec_attempts r else [])"

definition normalizeProviderAttemptKind :: "string \<Rightarrow> string" where
  "normalizeProviderAttemptKind kind =
     (let k = go_to_lower (go_trim kind)
      in if k \<in> {AttemptKindPrimary, AttemptKindFailover, AttemptKindRetry} then k else [])"

definition recordProviderAttempt ::
  "go_context \<Rightarrow> provider_attempt \<Rightarrow> attempt_recorder \<Rightarrow> attempt_recorder" where
  "recordProviderAttempt ctx attempt r =
     (if \<not> ctx_recorder ctx then r
      else let kind = normalizeProviderAttemptKind (pa_Kind attempt)
           in if kind = [] then r
              else let a = attempt\<lparr>pa_Kind := kind,
                         pa_ProviderType := go_trim (pa_ProviderType attempt),
                         pa_ProviderName := go_trim (pa_ProviderName attempt),
                         pa_Model := go_trim (pa_Model attempt),
                         pa_ErrorType := go_trim (pa_ErrorType attempt),
                         pa_ErrorCode := go_trim (pa_ErrorCode attempt),
                         pa_ErrorMessage := go_trim (pa_ErrorMessage attempt),
                         pa_Seq := (if pa_Seq attempt \<le> 0 then int (length (rec_attempts r)) + 1
                                    else pa_Seq attempt)\<rparr>
                   in r\<lparr>rec_attempts := rec_attempts r @ [a],
                        rec_notified := rec_notified r +
                          (if \<not> pa_Success a \<and> ctx_observer ctx then 1 else 0)\<rparr>)"

definition providerAttemptFromResult ::
  "string \<Rightarrow> string \<Rightarrow> string \<Rightarrow> string \<Rightarrow> go_error option \<Rightarrow> provider_attempt" where
  "providerAttemptFromResult kind providerType providerName model err =
     (let a = \<lparr>pa_Seq = 0, pa_Kind = kind, pa_ProviderType = providerType, pa_ProviderName = providerName,
               pa_Model = model, pa_StatusCode = 0, pa_Success = (err = None), pa_ErrorType = [],
               pa_ErrorCode = [], pa_ErrorMessage = [], pa_ResponseBody = []\<rparr>
      in case err of
           None \<Rightarrow> a\<lparr>pa_StatusCode := 200\<rparr>
         | Some e \<Rightarrow>
             (case as_gateway e of
                Some g \<Rightarrow>
                  a\<lparr>pa_StatusCode := HTTPStatusCode g, pa_ErrorType := error_type_string (ge_type g),
                    pa_ErrorMessage := ge_message g,
                    pa_ErrorCode := (case ge_code g of None \<Rightarrow> [] | Some c \<Rightarrow> c),
                    pa_ResponseBody := ge_body g\<rparr>
              | None \<Rightarrow>
                  a\<lparr>pa_StatusCode := 500, pa_ErrorType := error_type_string ErrorTypeProvider,
                    pa_ErrorMessage := error_string e\<rparr>))"

section \<open>Which failures start a sweep\<close>

definition ShouldAttemptFailover :: "go_error \<Rightarrow> bool" where
  "ShouldAttemptFailover err =
     (case as_gateway err of
        None \<Rightarrow> False
      | Some g \<Rightarrow>
          let status = HTTPStatusCode g;
              code = (case ge_code g of None \<Rightarrow> [] | Some c \<Rightarrow> go_to_lower (go_trim c));
              message = go_to_lower (go_trim (ge_message g));
              mentions = (\<lambda>fs. list_ex (go_contains message) fs)
          in if status \<ge> 500 \<or> status = 429 then True
             else if code \<noteq> [] \<and> go_contains code ''model'' \<and>
                     (go_contains code ''not_found'' \<or> go_contains code ''unsupported'' \<or>
                      go_contains code ''unavailable'') then True
             else if go_contains message ''model'' \<and>
                     mentions [''not found'', ''does not exist'', ''unsupported'', ''unavailable'',
                               ''not available'', ''deprecated'', ''retired'', ''disabled''] then True
             else if status = 404 \<and>
                     mentions [''unsupported'', ''unavailable'', ''not available'', ''deprecated'',
                               ''retired'', ''disabled''] then True
             else False)"

fun firstNonEmptyString :: "string list \<Rightarrow> string" where
  "firstNonEmptyString [] = []"
| "firstNonEmptyString (v # vs) = (if go_trim v \<noteq> [] then go_trim v else firstNonEmptyString vs)"

section \<open>The sweep\<close>

record 's failover_env =
  fe_done :: "'s \<Rightarrow> bool \<times> 's"
  fe_failovers :: "(model_resolution \<Rightarrow> operation \<Rightarrow> model_selector list) option"
  fe_allows :: "(model_selector \<Rightarrow> 's \<Rightarrow> bool) option"
  fe_route :: "(string \<Rightarrow> string \<Rightarrow> 's \<Rightarrow> bool) option"
  fe_provider_type :: "(string \<Rightarrow> 's \<Rightarrow> string) option"
  fe_provider_name :: "(string \<Rightarrow> 's \<Rightarrow> string) option"

record 'a routed =
  ro_response :: 'a
  ro_providerType :: string
  ro_providerName :: string
  ro_failoverModel :: string
  ro_usedFailover :: bool

type_synonym ('a, 's) selector_call =
  "model_selector \<Rightarrow> string \<Rightarrow> string \<Rightarrow> 's \<Rightarrow> (go_error + 'a \<times> string) \<times> 's"

definition FailoverSelectors :: "'s failover_env \<Rightarrow> workflow option \<Rightarrow> model_selector list" where
  "FailoverSelectors env wkf =
     (case (fe_failovers env, wkf) of
        (Some resolve, Some w) \<Rightarrow>
          (case wk_Resolution w of
             None \<Rightarrow> []
           | Some res \<Rightarrow>
               if FailoverEnabled wkf then resolve res (ep_Operation (wk_Endpoint w)) else [])
      | _ \<Rightarrow> [])"

definition ProviderTypeForSelector :: "'s failover_env \<Rightarrow> model_selector \<Rightarrow> string \<Rightarrow> 's \<Rightarrow> string" where
  "ProviderTypeForSelector env sel fallback s =
     (let own = go_trim (ms_Provider sel)
      in case fe_provider_type env of
           None \<Rightarrow> if own \<noteq> [] then own else go_trim fallback
         | Some f \<Rightarrow>
             let t = go_trim (f (QualifiedModel sel) s)
             in if t \<noteq> [] then t else if own \<noteq> [] then own else go_trim fallback)"

definition ResolvedProviderName ::
  "(string \<Rightarrow> 's \<Rightarrow> string) option \<Rightarrow> model_selector \<Rightarrow> string \<Rightarrow> 's \<Rightarrow> string" where
  "ResolvedProviderName named sel fallback s =
     (case named of
        None \<Rightarrow> go_trim fallback
      | Some f \<Rightarrow>
          let n = go_trim (f (QualifiedModel sel) s) in if n \<noteq> [] then n else go_trim fallback)"

definition permitted :: "'s failover_env \<Rightarrow> model_selector \<Rightarrow> 's \<Rightarrow> bool" where
  "permitted env sel s = (case fe_allows env of None \<Rightarrow> True | Some allows \<Rightarrow> allows sel s)"

definition has_route :: "'s failover_env \<Rightarrow> workflow option \<Rightarrow> model_selector \<Rightarrow> 's \<Rightarrow> bool" where
  "has_route env wkf sel s =
     (case fe_route env of
        None \<Rightarrow> True
      | Some available \<Rightarrow>
          available (ResolvedProviderName (fe_provider_name env) sel (ProviderNameFromWorkflow wkf) s)
            (QualifiedModel sel) s)"

fun sweep ::
  "'s failover_env \<Rightarrow> go_context \<Rightarrow> workflow option \<Rightarrow> ('a, 's) selector_call \<Rightarrow> model_selector list \<Rightarrow>
   go_error \<Rightarrow> 's \<Rightarrow> attempt_recorder \<Rightarrow> (go_error + 'a routed) \<times> 's \<times> attempt_recorder" where
  "sweep env ctx wkf call [] lastErr s r = (Inl lastErr, s, r)"
| "sweep env ctx wkf call (sel # sels) lastErr s r =
     (case fe_done env s of
        (True, s) \<Rightarrow> (Inl lastErr, s, r)
      | (False, s) \<Rightarrow>
          if \<not> permitted env sel s then sweep env ctx wkf call sels lastErr s r
          else
            let qualified = QualifiedModel sel;
                providerType = ProviderTypeForSelector env sel (ProviderTypeFromWorkflow wkf) s;
                providerName = ResolvedProviderName (fe_provider_name env) sel (ProviderNameFromWorkflow wkf) s;
                attempt = (\<lambda>rtype err. providerAttemptFromResult AttemptKindFailover
                             (firstNonEmptyString [rtype, providerType]) providerName qualified err)
            in if \<not> has_route env wkf sel s then sweep env ctx wkf call sels lastErr s r
               else case call sel providerType providerName s of
                   (Inl err, s) \<Rightarrow>
                     sweep env ctx wkf call sels err s (recordProviderAttempt ctx (attempt [] (Some err)) r)
                 | (Inr (resp, rtype), s) \<Rightarrow>
                     (Inr \<lparr>ro_response = resp, ro_providerType = rtype, ro_providerName = providerName,
                           ro_failoverModel = qualified, ro_usedFailover = True\<rparr>,
                      s, recordProviderAttempt ctx (attempt rtype None) r))"

definition tryFailoverResponse ::
  "'s failover_env \<Rightarrow> go_context \<Rightarrow> workflow option \<Rightarrow> go_error \<Rightarrow> ('a, 's) selector_call \<Rightarrow>
   's \<Rightarrow> attempt_recorder \<Rightarrow> (go_error + 'a routed) \<times> 's \<times> attempt_recorder" where
  "tryFailoverResponse env ctx wkf primaryErr call s r =
     (case fe_done env s of
        (True, s) \<Rightarrow> (Inl primaryErr, s, r)
      | (False, s) \<Rightarrow>
          let failovers = FailoverSelectors env wkf
          in if failovers = [] \<or> \<not> ShouldAttemptFailover primaryErr then (Inl primaryErr, s, r)
             else sweep env ctx wkf call failovers primaryErr s r)"

text \<open>\<open>tryFailoverStream\<close> is the same function, with the stream and the model for usage as its
  response.\<close>

abbreviation tryFailoverStream ::
  "'s failover_env \<Rightarrow> go_context \<Rightarrow> workflow option \<Rightarrow> go_error \<Rightarrow> ('a \<times> string, 's) selector_call \<Rightarrow>
   's \<Rightarrow> attempt_recorder \<Rightarrow> (go_error + ('a \<times> string) routed) \<times> 's \<times> attempt_recorder" where
  "tryFailoverStream \<equiv> tryFailoverResponse"

text \<open>\<open>executeTranslatedWithFailover\<close>: the primary call with the request as it is, then the sweep
  with the request cloned for each selector. \<open>call ctx req\<close> answers with the response and the
  provider it names.\<close>

definition executeTranslatedWithFailover ::
  "'s failover_env \<Rightarrow> go_context \<Rightarrow> workflow option \<Rightarrow> 'q \<Rightarrow> string \<Rightarrow> string \<Rightarrow>
   ('q \<Rightarrow> model_selector \<Rightarrow> 'q) \<Rightarrow> (go_context \<Rightarrow> 'q \<Rightarrow> 's \<Rightarrow> (go_error + 'a \<times> string) \<times> 's) \<Rightarrow>
   's \<Rightarrow> attempt_recorder \<Rightarrow> (go_error + 'a routed) \<times> 's \<times> attempt_recorder" where
  "executeTranslatedWithFailover env ctx wkf req model provider cloneForSelector call s r =
     (let attempt = (\<lambda>ptype err. providerAttemptFromResult AttemptKindPrimary ptype
                       (ProviderNameFromWorkflow wkf) (currentSelectorForWorkflow wkf model provider) err);
          failover = tryFailoverResponse env ctx wkf;
          failoverCall = (\<lambda>sel providerType providerName s.
             case call ctx (cloneForSelector req sel) s of
               (Inl err, s) \<Rightarrow> (Inl err, s)
             | (Inr (resp, rp), s) \<Rightarrow> (Inr (resp, ResponseProviderType providerType rp), s))
      in case ctx_saturated ctx of
           Some saturated \<Rightarrow>
             failover saturated failoverCall s
               (recordProviderAttempt ctx (attempt (ProviderTypeFromWorkflow wkf) (Some saturated)) r)
         | None \<Rightarrow>
             (case call ctx req s of
                (Inl err, s) \<Rightarrow>
                  failover err failoverCall s
                    (recordProviderAttempt ctx
                      (attempt (ResponseProviderType (ProviderTypeFromWorkflow wkf) []) (Some err)) r)
              | (Inr (resp, rp), s) \<Rightarrow>
                  (let ptype = ResponseProviderType (ProviderTypeFromWorkflow wkf) rp
                   in (Inr \<lparr>ro_response = resp, ro_providerType = ptype,
                            ro_providerName = ProviderNameFromWorkflow wkf, ro_failoverModel = [],
                            ro_usedFailover = False\<rparr>,
                       s, recordProviderAttempt ctx (attempt ptype None) r))))"

text \<open>The streaming variant carries the model for usage with the stream, and takes a nil stream
  for an error.\<close>

definition emptyProviderStreamError :: "string \<Rightarrow> go_error" where
  "emptyProviderStreamError providerType =
     NewProviderError providerType 502 ''provider returned empty stream'' None"

definition streamTranslatedProviderRequest ::
  "'s failover_env \<Rightarrow> go_context \<Rightarrow> workflow option \<Rightarrow> 'q \<Rightarrow> string \<Rightarrow> string \<Rightarrow> string \<Rightarrow> string \<Rightarrow> string \<Rightarrow>
   ('q \<Rightarrow> model_selector \<Rightarrow> 'q) \<Rightarrow> (go_context \<Rightarrow> 'q \<Rightarrow> 's \<Rightarrow> (go_error + 'a option) \<times> 's) \<Rightarrow>
   's \<Rightarrow> attempt_recorder \<Rightarrow> (go_error + ('a \<times> string) routed) \<times> 's \<times> attempt_recorder" where
  "streamTranslatedProviderRequest env ctx wkf req model provider providerType providerName usageModel
     cloneForSelector call s r =
     (let attempt = providerAttemptFromResult AttemptKindPrimary providerType providerName
                      (currentSelectorForWorkflow wkf model provider);
          stream_of = (\<lambda>q ptype s. case call ctx q s of
               (Inl err, s) \<Rightarrow> (Inl err, s)
             | (Inr None, s) \<Rightarrow> (Inl (emptyProviderStreamError ptype), s)
             | (Inr (Some stream), s) \<Rightarrow> (Inr stream, s));
          failoverCall = (\<lambda>sel ptype pname s. case stream_of (cloneForSelector req sel) ptype s of
               (Inl err, s) \<Rightarrow> (Inl err, s)
             | (Inr stream, s) \<Rightarrow> (Inr ((stream, ms_Model sel), ptype), s))
      in case (case ctx_saturated ctx of
                 Some e \<Rightarrow> (Inl e, s)
               | None \<Rightarrow> stream_of req providerType s) of
           (Inr stream, s) \<Rightarrow>
             (Inr \<lparr>ro_response = (stream, usageModel), ro_providerType = providerType,
                   ro_providerName = providerName, ro_failoverModel = [], ro_usedFailover = False\<rparr>,
              s, recordProviderAttempt ctx (attempt None) r)
         | (Inl err, s) \<Rightarrow>
             tryFailoverStream env ctx wkf err failoverCall s
               (recordProviderAttempt ctx (attempt (Some err)) r))"

section \<open>Attempts are recorded in order\<close>

lemma kinds [simp]:
  "normalizeProviderAttemptKind AttemptKindPrimary = AttemptKindPrimary"
  "normalizeProviderAttemptKind AttemptKindFailover = AttemptKindFailover"
  "AttemptKindPrimary \<noteq> []" "AttemptKindFailover \<noteq> []"
  unfolding normalizeProviderAttemptKind_def AttemptKindPrimary_def AttemptKindFailover_def
    AttemptKindRetry_def
  by code_simp+

definition numbered :: "attempt_recorder \<Rightarrow> bool" where
  "numbered r \<longleftrightarrow> map pa_Seq (rec_attempts r) = map (\<lambda>k. int k + 1) [0 ..< length (rec_attempts r)]"

lemma providerAttempt_fields [simp]:
  "pa_Kind (providerAttemptFromResult k pt pn m e) = k"
  "pa_Seq (providerAttemptFromResult k pt pn m e) = 0"
  "pa_Model (providerAttemptFromResult k pt pn m e) = m"
  "pa_Success (providerAttemptFromResult k pt pn m e) = (e = None)"
  by (auto simp: providerAttemptFromResult_def Let_def split: option.splits)

lemma recordProviderAttempt_numbered: "numbered r \<Longrightarrow> pa_Seq a \<le> 0 \<Longrightarrow> numbered (recordProviderAttempt ctx a r)"
  by (simp add: recordProviderAttempt_def Let_def numbered_def)

lemma recordProviderAttempt_length:
  "ctx_recorder ctx \<Longrightarrow> pa_Kind a \<in> {AttemptKindPrimary, AttemptKindFailover} \<Longrightarrow>
   length (rec_attempts (recordProviderAttempt ctx a r)) = Suc (length (rec_attempts r))"
  by (auto simp: recordProviderAttempt_def Let_def)

section \<open>What a sweep calls\<close>

text \<open>The world of the run below carries, beside the state, a log of the provider calls: the
  request, the state it was made in, and the outcome.\<close>

type_synonym ('q, 's, 'a) call_log = "('q \<times> 's \<times> (go_error + 'a \<times> string)) list"

definition traced_env :: "'s failover_env \<Rightarrow> ('s \<times> ('q, 's, 'a) call_log) failover_env" where
  "traced_env env =
     \<lparr>fe_done = (\<lambda>(s, lg). let (d, s') = fe_done env s in (d, (s', lg))),
      fe_failovers = fe_failovers env,
      fe_allows = map_option (\<lambda>f sel st. f sel (fst st)) (fe_allows env),
      fe_route = map_option (\<lambda>f n m st. f n m (fst st)) (fe_route env),
      fe_provider_type = map_option (\<lambda>f m st. f m (fst st)) (fe_provider_type env),
      fe_provider_name = map_option (\<lambda>f m st. f m (fst st)) (fe_provider_name env)\<rparr>"

definition traced ::
  "('q \<Rightarrow> 's \<Rightarrow> (go_error + 'a \<times> string) \<times> 's) \<Rightarrow> 'q \<Rightarrow> 's \<times> ('q, 's, 'a) call_log \<Rightarrow>
   (go_error + 'a \<times> string) \<times> 's \<times> ('q, 's, 'a) call_log" where
  "traced call q st = (case call q (fst st) of (out, s') \<Rightarrow> (out, s', snd st @ [(q, fst st, out)]))"

lemma traced_env_simps [simp]:
  "FailoverSelectors (traced_env env) wkf = FailoverSelectors env wkf"
  "permitted (traced_env env) sel st = permitted env sel (fst st)"
  "ResolvedProviderName (fe_provider_name (traced_env env)) sel fb st =
     ResolvedProviderName (fe_provider_name env) sel fb (fst st)"
  "has_route (traced_env env) wkf sel st = has_route env wkf sel (fst st)"
  "ProviderTypeForSelector (traced_env env) sel fb st = ProviderTypeForSelector env sel fb (fst st)"
  by (simp_all add: traced_env_def FailoverSelectors_def permitted_def has_route_def
      ResolvedProviderName_def ProviderTypeForSelector_def Let_def split: option.splits)

lemma traced_env_done:
  "fe_done (traced_env env) (s, lg) = (fst (fe_done env s), (snd (fe_done env s), lg))"
  by (simp add: traced_env_def split_beta)

definition selector_call ::
  "('q \<Rightarrow> model_selector \<Rightarrow> 'q) \<Rightarrow> 'q \<Rightarrow> ('q \<Rightarrow> 's \<Rightarrow> (go_error + 'a \<times> string) \<times> 's) \<Rightarrow>
   ('a, 's) selector_call" where
  "selector_call clone req call sel providerType providerName s =
     (case call (clone req sel) s of
        (Inl err, s) \<Rightarrow> (Inl err, s)
      | (Inr (resp, rp), s) \<Rightarrow> (Inr (resp, ResponseProviderType providerType rp), s))"

definition outcome_of :: "'q \<times> 's \<times> (go_error + 'a \<times> string) \<Rightarrow> go_error + 'a" where
  "outcome_of c = map_sum (\<lambda>e. e) fst (snd (snd c))"

definition final_of :: "go_error + 'a routed \<Rightarrow> go_error + 'a" where
  "final_of res = map_sum (\<lambda>e. e) ro_response res"

text \<open>The log of calls ends with the returned result, every earlier call failed; without a call
  the result is the given error.\<close>

definition ends_with :: "('q, 's, 'a) call_log \<Rightarrow> go_error \<Rightarrow> go_error + 'a \<Rightarrow> bool" where
  "ends_with calls err res \<longleftrightarrow>
     res = (if calls = [] then Inl err else outcome_of (last calls)) \<and>
     (\<forall>c\<in>set (butlast calls). isl (outcome_of c))"

definition tried :: "'s failover_env \<Rightarrow> workflow option \<Rightarrow> ('q \<Rightarrow> model_selector \<Rightarrow> 'q) \<Rightarrow> 'q \<Rightarrow>
    model_selector \<Rightarrow> 'q \<times> 's \<times> (go_error + 'a \<times> string) \<Rightarrow> bool" where
  "tried env wkf clone req sel c \<longleftrightarrow>
     fst c = clone req sel \<and> permitted env sel (fst (snd c)) \<and> has_route env wkf sel (fst (snd c))"

lemma ends_with_Cons:
  "outcome_of c = Inl e \<Longrightarrow> ends_with calls e res \<Longrightarrow> ends_with (c # calls) e' res"
  by (auto simp: ends_with_def)

lemma isl_outcome: "isl (outcome_of c) \<longleftrightarrow> isl (snd (snd c))"
  by (cases "snd (snd c)") (auto simp: outcome_of_def)

lemma traced_step:
  "call (clone req sel) s = (Inl e, s') \<Longrightarrow>
   selector_call clone req (traced call) sel t n (s, lg) = (Inl e, s', lg @ [(clone req sel, s, Inl e)])"
  by (simp add: selector_call_def traced_def)

lemma sweep_log:
  assumes "sweep (traced_env env) ctx wkf (selector_call clone req (traced call)) sels err (s, lg) r =
      (res, (s', lg'), r')"
  shows "\<exists>chosen calls. lg' = lg @ calls \<and> subseq chosen sels \<and>
      list_all2 (tried env wkf clone req) chosen calls \<and> ends_with calls err (final_of res) \<and>
      (\<forall>v. res = Inr v \<longrightarrow> calls \<noteq> [] \<and> ro_usedFailover v) \<and>
      (ctx_recorder ctx \<longrightarrow>
         length (rec_attempts r') = length (rec_attempts r) + length calls)"
  using assms
proof (induction sels arbitrary: err s lg r)
  case Nil
  then show ?case by (auto simp: ends_with_def final_of_def intro!: exI [of _ "[]"])
next
  case (Cons sel sels)
  obtain d s1 where d: "fe_done env s = (d, s1)" by (cases "fe_done env s")
  show ?case
  proof (cases "d \<or> \<not> permitted env sel s1 \<or> \<not> has_route env wkf sel s1")
    case True
    show ?thesis
    proof (cases d)
      case True
      with Cons.prems d show ?thesis
        by (auto simp: traced_env_done ends_with_def final_of_def intro!: exI [of _ "[]"])
    next
      case False
      with True Cons.prems d
      have "sweep (traced_env env) ctx wkf (selector_call clone req (traced call)) sels err (s1, lg) r =
          (res, (s', lg'), r')"
        by (auto simp: traced_env_done Let_def split: if_splits)
      from Cons.IH [OF this] obtain chosen calls where IH: "lg' = lg @ calls" "subseq chosen sels"
        "list_all2 (tried env wkf clone req) chosen calls" "ends_with calls err (final_of res)"
        "\<forall>v. res = Inr v \<longrightarrow> calls \<noteq> [] \<and> ro_usedFailover v"
        "ctx_recorder ctx \<longrightarrow> length (rec_attempts r') = length (rec_attempts r) + length calls"
        by blast
      have "subseq chosen (sel # sels)" using IH(2) by (rule list_emb_Cons)
      with IH show ?thesis by blast
    qed
  next
    case False
    let ?t = "ProviderTypeForSelector env sel (ProviderTypeFromWorkflow wkf) s1"
    let ?n = "ResolvedProviderName (fe_provider_name env) sel (ProviderNameFromWorkflow wkf) s1"
    obtain out s2 where out: "call (clone req sel) s1 = (out, s2)" by (cases "call (clone req sel) s1")
    let ?c = "(clone req sel, s1, out)"
    have tr: "tried env wkf clone req sel ?c" using False by (simp add: tried_def)
    show ?thesis
    proof (cases out)
      case (Inr v)
      then show ?thesis
        using Cons.prems False d out tr
        by (cases v)
          (auto simp: traced_env_done Let_def selector_call_def traced_def ends_with_def final_of_def
            outcome_of_def recordProviderAttempt_length intro!: exI [of _ "[sel]"] exI [of _ "[?c]"])
    next
      case (Inl e)
      let ?a = "providerAttemptFromResult AttemptKindFailover (firstNonEmptyString [[], ?t]) ?n
                  (QualifiedModel sel) (Some e)"
      have "sweep (traced_env env) ctx wkf (selector_call clone req (traced call)) sels e
          (s2, lg @ [?c]) (recordProviderAttempt ctx ?a r) = (res, (s', lg'), r')"
        using Cons.prems False d out Inl
        by (simp add: traced_env_done Let_def traced_step del: firstNonEmptyString.simps)
      from Cons.IH [OF this] obtain chosen calls where IH:
        "lg' = (lg @ [?c]) @ calls" "subseq chosen sels"
        "list_all2 (tried env wkf clone req) chosen calls" "ends_with calls e (final_of res)"
        "\<forall>v. res = Inr v \<longrightarrow> calls \<noteq> [] \<and> ro_usedFailover v"
        "ctx_recorder ctx \<longrightarrow> length (rec_attempts r') =
            length (rec_attempts (recordProviderAttempt ctx ?a r)) + length calls" by blast
      moreover have "ends_with (?c # calls) err (final_of res)"
        using ends_with_Cons [of ?c e calls "final_of res" err] IH(4) Inl
        by (simp add: outcome_of_def)
      ultimately show ?thesis
        using tr
        by (intro exI [of _ "sel # chosen"] exI [of _ "?c # calls"])
          (simp add: recordProviderAttempt_length)
    qed
  qed
qed

lemma tryFailover_log:
  assumes "tryFailoverResponse (traced_env env) ctx wkf err (selector_call clone req (traced call)) (s, lg) r =
      (res, (s', lg'), r')"
  shows "\<exists>chosen calls. lg' = lg @ calls \<and> subseq chosen (FailoverSelectors env wkf) \<and>
      (chosen \<noteq> [] \<longrightarrow> ShouldAttemptFailover err) \<and>
      list_all2 (tried env wkf clone req) chosen calls \<and> ends_with calls err (final_of res) \<and>
      (\<forall>v. res = Inr v \<longrightarrow> calls \<noteq> [] \<and> ro_usedFailover v) \<and>
      (ctx_recorder ctx \<longrightarrow>
         length (rec_attempts r') = length (rec_attempts r) + length calls)"
proof (cases "fst (fe_done env s) \<or> FailoverSelectors env wkf = [] \<or> \<not> ShouldAttemptFailover err")
  case True
  with assms show ?thesis
    by (auto simp: tryFailoverResponse_def traced_env_done ends_with_def final_of_def
        split: bool.splits if_splits intro!: exI [of _ "[]"])
next
  case False
  with assms have
    "sweep (traced_env env) ctx wkf (selector_call clone req (traced call)) (FailoverSelectors env wkf)
       err (snd (fe_done env s), lg) r = (res, (s', lg'), r')"
    by (simp add: tryFailoverResponse_def traced_env_done Let_def)
  from sweep_log [OF this] False show ?thesis by blast
qed

lemma execute_selector_call:
  "executeTranslatedWithFailover env ctx wkf req model provider clone call s r =
     (let attempt = (\<lambda>ptype err. providerAttemptFromResult AttemptKindPrimary ptype
                       (ProviderNameFromWorkflow wkf) (currentSelectorForWorkflow wkf model provider) err);
          failover = (\<lambda>err. tryFailoverResponse env ctx wkf err (selector_call clone req (call ctx)))
      in case ctx_saturated ctx of
           Some saturated \<Rightarrow>
             failover saturated s
               (recordProviderAttempt ctx (attempt (ProviderTypeFromWorkflow wkf) (Some saturated)) r)
         | None \<Rightarrow>
             (case call ctx req s of
                (Inl err, s) \<Rightarrow>
                  failover err s
                    (recordProviderAttempt ctx
                      (attempt (ResponseProviderType (ProviderTypeFromWorkflow wkf) []) (Some err)) r)
              | (Inr (resp, rp), s) \<Rightarrow>
                  (let ptype = ResponseProviderType (ProviderTypeFromWorkflow wkf) rp
                   in (Inr \<lparr>ro_response = resp, ro_providerType = ptype,
                            ro_providerName = ProviderNameFromWorkflow wkf, ro_failoverModel = [],
                            ro_usedFailover = False\<rparr>,
                       s, recordProviderAttempt ctx (attempt ptype None) r))))"
  unfolding executeTranslatedWithFailover_def selector_call_def [abs_def] Let_def ..

text \<open>
  C25. What a request with failover calls, and what it answers. The provider is called with the
  request itself, unless its route is saturated, and then with the request cloned for some of the
  failover selectors, each at most once and in their order; only selectors the authorizer permits
  and the gate has a route for at that moment are called, and none unless the first failure is one
  that warrants failover. The first success ends the calls and is the answer; without a success the
  answer is the error of the last call, or the saturation error if nothing was called. Every call
  and the saturation leave one attempt record.
\<close>

theorem failover_calls_and_answer:
  assumes run: "executeTranslatedWithFailover (traced_env env) ctx wkf req model provider clone
      (\<lambda>ctx. traced (call ctx)) (s, []) r = (res, (s', calls), r')"
  shows "\<exists>first chosen rest.
      calls = first @ rest
    \<and> map fst first = (if ctx_saturated ctx = None then [req] else [])
    \<and> subseq chosen (FailoverSelectors env wkf)
    \<and> list_all2 (tried env wkf clone req) chosen rest
    \<and> (chosen \<noteq> [] \<longrightarrow>
         (case first of [] \<Rightarrow> ShouldAttemptFailover (the (ctx_saturated ctx))
          | (q, st, out) # _ \<Rightarrow> \<exists>e. out = Inl e \<and> ShouldAttemptFailover e))
    \<and> (\<forall>(q, st, out)\<in>set (butlast calls). isl out)
    \<and> (case res of
         Inl e \<Rightarrow> if calls = [] then ctx_saturated ctx = Some e
                  else snd (snd (last calls)) = Inl e
       | Inr v \<Rightarrow> calls \<noteq> [] \<and> (\<exists>p. snd (snd (last calls)) = Inr (ro_response v, p))
                  \<and> (ro_usedFailover v \<longleftrightarrow> rest \<noteq> []))
    \<and> (ctx_recorder ctx \<longrightarrow>
         length (rec_attempts r') =
           length (rec_attempts r) + length calls + (if ctx_saturated ctx = None then 0 else 1))"
proof -
  let ?P = "\<lambda>first chosen rest.
      calls = first @ rest
    \<and> map fst first = (if ctx_saturated ctx = None then [req] else [])
    \<and> subseq chosen (FailoverSelectors env wkf)
    \<and> list_all2 (tried env wkf clone req) chosen rest
    \<and> (chosen \<noteq> [] \<longrightarrow>
         (case first of [] \<Rightarrow> ShouldAttemptFailover (the (ctx_saturated ctx))
          | (q, st, out) # _ \<Rightarrow> \<exists>e. out = Inl e \<and> ShouldAttemptFailover e))
    \<and> (\<forall>(q, st, out)\<in>set (butlast calls). isl out)
    \<and> (case res of
         Inl e \<Rightarrow> if calls = [] then ctx_saturated ctx = Some e
                  else snd (snd (last calls)) = Inl e
       | Inr v \<Rightarrow> calls \<noteq> [] \<and> (\<exists>p. snd (snd (last calls)) = Inr (ro_response v, p))
                  \<and> (ro_usedFailover v \<longleftrightarrow> rest \<noteq> []))
    \<and> (ctx_recorder ctx \<longrightarrow>
         length (rec_attempts r') =
           length (rec_attempts r) + length calls + (if ctx_saturated ctx = None then 0 else 1))"
  let ?P = "\<lambda>first chosen rest.
      calls = first @ rest
    \<and> map fst first = (if ctx_saturated ctx = None then [req] else [])
    \<and> subseq chosen (FailoverSelectors env wkf)
    \<and> list_all2 (tried env wkf clone req) chosen rest
    \<and> (chosen \<noteq> [] \<longrightarrow>
         (case first of [] \<Rightarrow> ShouldAttemptFailover (the (ctx_saturated ctx))
          | (q, st, out) # _ \<Rightarrow> \<exists>e. out = Inl e \<and> ShouldAttemptFailover e))
    \<and> (\<forall>(q, st, out)\<in>set (butlast calls). isl out)
    \<and> (case res of
         Inl e \<Rightarrow> if calls = [] then ctx_saturated ctx = Some e
                  else snd (snd (last calls)) = Inl e
       | Inr v \<Rightarrow> calls \<noteq> [] \<and> (\<exists>p. snd (snd (last calls)) = Inr (ro_response v, p))
                  \<and> (ro_usedFailover v \<longleftrightarrow> rest \<noteq> []))
    \<and> (ctx_recorder ctx \<longrightarrow>
         length (rec_attempts r') =
           length (rec_attempts r) + length calls + (if ctx_saturated ctx = None then 0 else 1))"
  let ?attempt = "\<lambda>ptype err. providerAttemptFromResult AttemptKindPrimary ptype
      (ProviderNameFromWorkflow wkf) (currentSelectorForWorkflow wkf model provider) err"
  have answer: "case res of
         Inl e \<Rightarrow> if calls = [] then ctx_saturated ctx = Some e else snd (snd (last calls)) = Inl e
       | Inr v \<Rightarrow> calls \<noteq> [] \<and> (\<exists>p. snd (snd (last calls)) = Inr (ro_response v, p))"
    if "ends_with calls err (final_of res)" "calls = [] \<longrightarrow> ctx_saturated ctx = Some err \<and> isl res" for err
    using that
    by (cases res; cases "snd (snd (last calls))")
      (auto simp: ends_with_def final_of_def outcome_of_def split: if_splits)
  have all: "\<forall>(q, st, out)\<in>set (butlast calls). isl out" if "ends_with calls err (final_of res)" for err
    using that unfolding ends_with_def isl_outcome by auto
  show ?thesis
  proof (cases "ctx_saturated ctx")
    case (Some err)
    let ?r = "recordProviderAttempt ctx (?attempt (ProviderTypeFromWorkflow wkf) (Some err)) r"
    have "tryFailoverResponse (traced_env env) ctx wkf err (selector_call clone req (traced (call ctx)))
        (s, []) ?r = (res, (s', calls), r')"
      using run Some by (simp add: execute_selector_call Let_def)
    from tryFailover_log [OF this] obtain chosen rest where L:
      "calls = rest" "subseq chosen (FailoverSelectors env wkf)"
      "chosen \<noteq> [] \<longrightarrow> ShouldAttemptFailover err"
      "list_all2 (tried env wkf clone req) chosen rest" "ends_with rest err (final_of res)"
      "\<forall>v. res = Inr v \<longrightarrow> rest \<noteq> [] \<and> ro_usedFailover v"
      "ctx_recorder ctx \<longrightarrow> length (rec_attempts r') = length (rec_attempts ?r) + length rest"
      by auto
    then have "?P [] chosen rest"
      using Some answer [of err] all [of err]
      by (auto simp: recordProviderAttempt_length split: sum.splits)
    then show ?thesis by blast
  next
    case None
    obtain out s1 where out: "call ctx req s = (out, s1)" by (cases "call ctx req s")
    show ?thesis
    proof (cases out)
      case (Inr v)
      have "?P [(req, s, out)] [] []"
        using run None out Inr
        by (cases v) (auto simp: execute_selector_call Let_def traced_def recordProviderAttempt_length)
      then show ?thesis by blast
    next
      case (Inl err)
      let ?r = "recordProviderAttempt ctx
          (?attempt (ResponseProviderType (ProviderTypeFromWorkflow wkf) []) (Some err)) r"
      have "tryFailoverResponse (traced_env env) ctx wkf err (selector_call clone req (traced (call ctx)))
          (s1, [(req, s, out)]) ?r = (res, (s', calls), r')"
        using run None out Inl by (simp add: execute_selector_call Let_def traced_def)
      from tryFailover_log [OF this] obtain chosen rest where L:
        "calls = (req, s, out) # rest" "subseq chosen (FailoverSelectors env wkf)"
        "chosen \<noteq> [] \<longrightarrow> ShouldAttemptFailover err"
        "list_all2 (tried env wkf clone req) chosen rest" "ends_with rest err (final_of res)"
        "\<forall>v. res = Inr v \<longrightarrow> rest \<noteq> [] \<and> ro_usedFailover v"
        "ctx_recorder ctx \<longrightarrow> length (rec_attempts r') = length (rec_attempts ?r) + length rest"
        by auto
      moreover have "ends_with calls err (final_of res)"
        unfolding L(1) using L(5) Inl by (intro ends_with_Cons [of _ err]) (simp_all add: outcome_of_def)
      ultimately have "?P [(req, s, out)] chosen rest"
        using None Inl answer [of err] all [of err]
        by (auto simp: recordProviderAttempt_length split: sum.splits)
      then show ?thesis by blast
    qed
  qed
qed

definition demo_workflow :: workflow where
  "demo_workflow =
     \<lparr>wk_RequestID = ''r'', wk_Endpoint = openai_endpoint True OperationChatCompletions,
      wk_Mode = ExecutionModeTranslated, wk_Capabilities = no_capabilities,
      wk_ProviderType = ''openai'',
      wk_Resolution = Some \<lparr>mr_Requested = NewRequestedModelSelector ''m'' [],
        mr_ResolvedSelector = \<lparr>ms_Model = ''m'', ms_Provider = ''p''\<rparr>, mr_ProviderType = ''openai'',
        mr_ProviderName = ''p'', mr_AliasApplied = False\<rparr>,
      wk_Policy = None\<rparr>"

definition demo_failover :: "unit failover_env" where
  "demo_failover =
     \<lparr>fe_done = (\<lambda>s. (False, s)),
      fe_failovers = Some (\<lambda>res op. [\<lparr>ms_Model = ''x'', ms_Provider = ''a''\<rparr>,
                                   \<lparr>ms_Model = ''y'', ms_Provider = ''b''\<rparr>,
                                   \<lparr>ms_Model = ''z'', ms_Provider = ''c''\<rparr>]),
      fe_allows = Some (\<lambda>sel s. ms_Provider sel \<noteq> ''a''), fe_route = None,
      fe_provider_type = None, fe_provider_name = None\<rparr>"

definition demo_call :: "go_context \<Rightarrow> string \<Rightarrow> unit \<Rightarrow> (go_error + string \<times> string) \<times> unit" where
  "demo_call ctx q s =
     (if q = ''b/y'' then Inr (''answer'', []) else Inl (NewRateLimitError ''p'' ''slow down''), s)"

lemma demo_failover_run:
  "executeTranslatedWithFailover (traced_env demo_failover) Background (Some demo_workflow) ''m'' ''m'' []
     (\<lambda>req. QualifiedModel) (\<lambda>ctx. traced (demo_call ctx)) ((), []) \<lparr>rec_attempts = [], rec_notified = 0\<rparr> =
   (Inr \<lparr>ro_response = ''answer'', ro_providerType = ''b'', ro_providerName = ''p'',
         ro_failoverModel = ''b/y'', ro_usedFailover = True\<rparr>,
    ((), [(''m'', (), Inl (NewRateLimitError ''p'' ''slow down'')), (''b/y'', (), Inr (''answer'', []))]),
    \<lparr>rec_attempts = [], rec_notified = 0\<rparr>)"
  by code_simp

lemma failover_calls_and_answer_witness:
  "subseq [\<lparr>ms_Model = ''y'', ms_Provider = ''b''\<rparr>] (FailoverSelectors demo_failover (Some demo_workflow))"
proof -
  from failover_calls_and_answer [OF demo_failover_run]
  obtain first chosen rest where
    "[(''m'', (), Inl (NewRateLimitError ''p'' ''slow down'')), (''b/y'', (), Inr (''answer'', []))] = first @ rest
     \<and> map fst first = (if ctx_saturated Background = None then [''m''] else [])
     \<and> subseq chosen (FailoverSelectors demo_failover (Some demo_workflow))
     \<and> list_all2 (tried demo_failover (Some demo_workflow) (\<lambda>req. QualifiedModel) ''m'') chosen rest"
    by blast
  then have *:
    "[(''m'', (), Inl (NewRateLimitError ''p'' ''slow down'')), (''b/y'', (), Inr (''answer'', []))] = first @ rest"
    "map fst first = [''m'']" "subseq chosen (FailoverSelectors demo_failover (Some demo_workflow))"
    "list_all2 (tried demo_failover (Some demo_workflow) (\<lambda>req. QualifiedModel) ''m'') chosen rest"
    by (simp_all add: Background_def)
  then have "rest = [(''b/y'', (), Inr (''answer'', []))]" by (cases first) auto
  with *(4) obtain sel where sel: "chosen = [sel]" "''b/y'' = QualifiedModel sel"
    by (auto simp: list_all2_Cons2 tried_def)
  then have "sel \<in> set (FailoverSelectors demo_failover (Some demo_workflow))"
    using *(3) by (simp add: subseq_singleton_left)
  then have "sel = \<lparr>ms_Model = ''y'', ms_Provider = ''b''\<rparr>"
    using sel(2)
    by (auto simp: FailoverSelectors_def demo_failover_def demo_workflow_def QualifiedModel_def
        featureEnabled_def DefaultWorkflowFeatures_def)
  with *(3) sel(1) show ?thesis by simp
qed

lemma sweep_live:
  assumes "\<forall>s. \<not> fst (fe_done env s)" and "sel \<in> set sels"
    and "\<forall>s. permitted env sel s \<and> has_route env wkf sel s"
    and "\<forall>t n s. \<exists>v s'. call sel t n s = (Inr v, s')"
  shows "\<exists>v st. sweep env ctx wkf call sels err s r = (Inr v, st)"
  using assms(2)
proof (induction sels arbitrary: err s r)
  case (Cons a sels)
  obtain s1 where d: "fe_done env s = (False, s1)"
    using assms(1) by (metis prod.collapse)
  show ?case
  proof (cases "a = sel")
    case True
    obtain v s2 where "call sel (ProviderTypeForSelector env sel (ProviderTypeFromWorkflow wkf) s1)
        (ResolvedProviderName (fe_provider_name env) sel (ProviderNameFromWorkflow wkf) s1) s1 = (Inr v, s2)"
      using assms(4) by blast
    with True d assms(3) show ?thesis by (cases v) (simp add: Let_def)
  next
    case False
    with Cons.prems have "sel \<in> set sels" by simp
    note IH = Cons.IH [OF this]
    then show ?thesis
      using d by (auto simp: Let_def split: prod.splits sum.splits)
  qed
qed simp

text \<open>
  C26. Failover does not give up early. As long as the request's context lives, a request whose
  first failure warrants failover is answered if one of its failover selectors is permitted, has a
  route and answers.
\<close>

theorem failover_finds_working_target:
  assumes "\<forall>s. \<not> fst (fe_done env s)"
    and "sel \<in> set (FailoverSelectors env wkf)"
    and "\<forall>s. permitted env sel s \<and> has_route env wkf sel s"
    and "\<forall>s. \<exists>v s'. call ctx (clone req sel) s = (Inr v, s')"
    and "case ctx_saturated ctx of
           Some e \<Rightarrow> ShouldAttemptFailover e
         | None \<Rightarrow> \<forall>e s'. call ctx req s = (Inl e, s') \<longrightarrow> ShouldAttemptFailover e"
  shows "\<exists>v st. executeTranslatedWithFailover env ctx wkf req model provider clone call s r = (Inr v, st)"
proof -
  have sel: "\<forall>t n s. \<exists>v s'. selector_call clone req (call ctx) sel t n s = (Inr v, s')"
  proof (intro allI)
    fix t n s
    obtain v s' where "call ctx (clone req sel) s = (Inr v, s')" using assms(4) by blast
    then show "\<exists>v s'. selector_call clone req (call ctx) sel t n s = (Inr v, s')"
      by (cases v) (simp add: selector_call_def)
  qed
  have "\<exists>v st. tryFailoverResponse env ctx wkf err (selector_call clone req (call ctx)) s' r' = (Inr v, st)"
    if "ShouldAttemptFailover err" for err s' r'
  proof -
    obtain s1 where d: "fe_done env s' = (False, s1)" using assms(1) by (metis prod.collapse)
    then show ?thesis
      using that assms(2) sweep_live [where call = "selector_call clone req (call ctx)" and env = env and sel = sel
            and sels = "FailoverSelectors env wkf" and err = err and s = s1 and r = r' and ctx = ctx,
            OF assms(1,2,3) sel]
      by (auto simp: tryFailoverResponse_def Let_def)
  qed
  then show ?thesis
    using assms(5) by (auto simp: execute_selector_call Let_def split: option.splits prod.splits sum.splits)
qed

lemma failover_finds_working_target_witness:
  "\<exists>v st. executeTranslatedWithFailover demo_failover Background (Some demo_workflow) ''m'' ''m'' []
     (\<lambda>req. QualifiedModel) demo_call () \<lparr>rec_attempts = [], rec_notified = 0\<rparr> = (Inr v, st)"
proof (rule failover_finds_working_target [where sel = "\<lparr>ms_Model = ''y'', ms_Provider = ''b''\<rparr>"])
  show "\<lparr>ms_Model = ''y'', ms_Provider = ''b''\<rparr> \<in> set (FailoverSelectors demo_failover (Some demo_workflow))"
    by (simp add: FailoverSelectors_def demo_failover_def demo_workflow_def featureEnabled_def
        DefaultWorkflowFeatures_def)
  have "ShouldAttemptFailover (NewRateLimitError ''p'' ''slow down'')" by code_simp
  then show "case ctx_saturated Background of
           Some e \<Rightarrow> ShouldAttemptFailover e
         | None \<Rightarrow> \<forall>e s'. demo_call Background ''m'' () = (Inl e, s') \<longrightarrow> ShouldAttemptFailover e"
    by (simp add: Background_def demo_call_def)
qed (simp_all add: demo_failover_def permitted_def has_route_def demo_call_def QualifiedModel_def)

end
