(* ===== verification/ResponseCache.thy ===== *)
theory ResponseCache
  imports SSEStream Workflow "HOL-Library.AList"
begin

text \<open>
  The response cache: \<open>internal/responsecache/simple.go\<close>, \<open>responsecache.go\<close>, \<open>exchange.go\<close>,
  \<open>stream_cache.go\<close>, over the store of \<open>internal/cache/store.go\<close>.

  A request is looked up under the hash of its path, its route and its normalized body; on a miss
  the handler runs and a cacheable answer is put on a bounded queue, from which workers write it to
  the store. The model is a transition system over these events. Parameters (\<open>cache_env\<close>) are the
  hash function, the JSON decoding and encoding of request bodies, \<open>json.Valid\<close>, and the field test
  of gjson. What the handler of a miss did is the record \<open>handler_result\<close>. The store is an
  interface of the code; the locale \<open>cache_store\<close> states what the cache relies on, and it is
  interpreted on \<open>MapStore\<close>, the only implementation.
\<close>

section \<open>Stores\<close>

record 'st cache_store_ops =
  cst_Get :: "string \<Rightarrow> 'st \<Rightarrow> go_error + string"    \<comment> \<open>the empty string is nil\<close>
  cst_Set :: "string \<Rightarrow> string \<Rightarrow> go_duration \<Rightarrow> 'st \<Rightarrow> go_error option \<times> 'st"

type_synonym map_store = "(string \<times> string) list"

definition NewMapStore :: map_store where
  "NewMapStore = []"

definition map_store_Get :: "string \<Rightarrow> map_store \<Rightarrow> go_error + string" where
  "map_store_Get key s = Inr (case map_of s key of None \<Rightarrow> [] | Some v \<Rightarrow> v)"

definition map_store_Set :: "string \<Rightarrow> string \<Rightarrow> go_duration \<Rightarrow> map_store \<Rightarrow> go_error option \<times> map_store" where
  "map_store_Set key value ttl s = (None, AList.update key value s)"

definition MapStore :: "map_store cache_store_ops" where
  "MapStore = \<lparr>cst_Get = map_store_Get, cst_Set = map_store_Set\<rparr>"

section \<open>Requests and answers\<close>

definition CacheTypeExact :: string where "CacheTypeExact = ''exact''"
definition CacheHeaderExact :: string where "CacheHeaderExact = ''HIT (exact)''"

datatype transport = EchoExchange | InternalExchange

record exchange =
  ex_transport :: transport
  ex_ctx :: go_context
  ex_path :: string
  ex_header :: "string \<Rightarrow> string"

record handler_result =
  hr_err :: "go_error option"
  hr_status :: int
  hr_contentType :: string
  hr_body :: string
  hr_failoverUsed :: bool

text \<open>Of a decoded request body the key keeps everything but the stream options, which it drops
  unless they ask for usage: \<open>cq_StreamOptions\<close> is \<open>IncludeUsage\<close> and the rest of them.\<close>

record 'p cache_request =
  cq_Stream :: bool
  cq_StreamOptions :: "(bool \<times> 'p) option"
  cq_rest :: 'p

record 'p cache_env =
  ce_hash :: "string \<Rightarrow> string"
  ce_decode_chat :: "string \<Rightarrow> 'p cache_request option"
  ce_decode_responses :: "string \<Rightarrow> 'p cache_request option"
  ce_marshal_chat :: "'p cache_request \<Rightarrow> string option"
  ce_marshal_responses :: "'p cache_request \<Rightarrow> string option"
  ce_valid_json :: "string \<Rightarrow> bool"
  ce_stream_field :: "string \<Rightarrow> bool option"   \<comment> \<open>the field \<open>stream\<close>, if it is true or false\<close>

section \<open>Keys\<close>

definition normalizeStreamOptionsForCache :: "(bool \<times> 'p) option \<Rightarrow> (bool \<times> 'p) option" where
  "normalizeStreamOptionsForCache src =
     (case src of None \<Rightarrow> None | Some (includeUsage, rest) \<Rightarrow> if includeUsage then src else None)"

definition normalized_body ::
  "('p cache_request \<Rightarrow> string option) \<Rightarrow> 'p cache_request option \<Rightarrow> string \<Rightarrow> string" where
  "normalized_body encode decoded body =
     (case decoded of
        None \<Rightarrow> body
      | Some req \<Rightarrow>
          let req = req\<lparr>cq_StreamOptions :=
                (if cq_Stream req then normalizeStreamOptionsForCache (cq_StreamOptions req) else None)\<rparr>
          in case encode req of None \<Rightarrow> body | Some normalized \<Rightarrow> normalized)"

definition cacheKeyRequestBody :: "'p cache_env \<Rightarrow> string \<Rightarrow> string \<Rightarrow> string" where
  "cacheKeyRequestBody env path body =
     (if path = ''/v1/chat/completions''
      then normalized_body (ce_marshal_chat env) (ce_decode_chat env body) body
      else if path = ''/v1/responses''
      then normalized_body (ce_marshal_responses env) (ce_decode_responses env body) body
      else body)"

definition NUL :: string where "NUL = [CHR 0x00]"

definition key_material :: "'p cache_env \<Rightarrow> string \<Rightarrow> string \<Rightarrow> workflow option \<Rightarrow> string" where
  "key_material env path body plan =
     path @ NUL @
     (case plan of
        None \<Rightarrow> []
      | Some w \<Rightarrow> mode_string (wk_Mode w) @ NUL @ wk_ProviderType w @ NUL @
                  wk_ResolvedQualifiedModel plan @ NUL) @
     cacheKeyRequestBody env path body"

definition hashRequest :: "'p cache_env \<Rightarrow> string \<Rightarrow> string \<Rightarrow> workflow option \<Rightarrow> string" where
  "hashRequest env path body plan = ce_hash env (key_material env path body plan)"

definition exchange_key :: "'p cache_env \<Rightarrow> exchange \<Rightarrow> string \<Rightarrow> string" where
  "exchange_key env ex body = hashRequest env (ex_path ex) body (ctx_workflow (ex_ctx ex))"

section \<open>Which requests and answers take part\<close>

text \<open>\<open>strings.EqualFold\<close> with an ASCII pattern: besides ASCII letters, U+017F folds to s and
  U+212A to k.\<close>

fun fold_ascii :: "string \<Rightarrow> string" where
  "fold_ascii [] = []"
| "fold_ascii (a # s) =
     (if a = CHR 0xC5 \<and> has_prefix s [CHR 0xBF] then CHR ''s'' # fold_ascii (drop 1 s)
      else if a = CHR 0xE2 \<and> has_prefix s [CHR 0x84, CHR 0xAA] then CHR ''k'' # fold_ascii (drop 2 s)
      else lower_byte a # fold_ascii s)"

definition equal_fold :: "string \<Rightarrow> string \<Rightarrow> bool" where
  "equal_fold s pattern \<longleftrightarrow> fold_ascii s = pattern"

definition shouldSkipAllCacheHeaders :: "(string \<Rightarrow> string) \<Rightarrow> bool" where
  "shouldSkipAllCacheHeaders h \<longleftrightarrow>
     equal_fold (h ''X-Cache-Control'') ''no-cache'' \<or>
     equal_fold (h ''Cache-Control'') ''no-cache'' \<or> equal_fold (h ''Cache-Control'') ''no-store''"

definition shouldSkipCacheControl :: "string \<Rightarrow> bool" where
  "shouldSkipCacheControl cc =
     (if cc = [] then False
      else list_ex (\<lambda>d. go_trim d = ''no-cache'' \<or> go_trim d = ''no-store'')
             (split_on (CHR '','') (go_to_lower cc)))"

definition isStreamingRequest :: "'p cache_env \<Rightarrow> string \<Rightarrow> string \<Rightarrow> bool" where
  "isStreamingRequest env path body =
     (if path = ''/v1/embeddings'' then False
      else case ce_stream_field env body of None \<Rightarrow> False | Some b \<Rightarrow> b)"

definition isEventStreamContentType :: "string \<Rightarrow> bool" where
  "isEventStreamContentType contentType =
     (if contentType = [] then False
      else go_to_lower (go_trim (hd (split_on (CHR '';'') contentType))) = ''text/event-stream'')"

definition cacheableResponseBody :: "'p cache_env \<Rightarrow> string \<Rightarrow> string \<Rightarrow> string option" where
  "cacheableResponseBody env raw contentType =
     (if raw = [] then None
      else if isEventStreamContentType contentType
      then (if \<not> validateCacheableSSE (ce_valid_json env) raw then None else Some raw)
      else if \<not> ce_valid_json env raw then None else Some raw)"

definition shouldStoreCapturedResponse :: "int \<Rightarrow> bool" where
  "shouldStoreCapturedResponse status \<longleftrightarrow> status = 200"

definition failover_marked :: "exchange \<Rightarrow> handler_result \<Rightarrow> bool" where
  "failover_marked ex hr =
     (case ex_transport ex of
        EchoExchange \<Rightarrow> ctx_failover_used (ex_ctx ex)
      | InternalExchange \<Rightarrow> hr_failoverUsed hr)"

definition Capture :: "'p cache_env \<Rightarrow> exchange \<Rightarrow> handler_result \<Rightarrow> go_error + string option" where
  "Capture env ex hr =
     (case hr_err hr of
        Some err \<Rightarrow> Inl err
      | None \<Rightarrow>
          if \<not> shouldStoreCapturedResponse (hr_status hr) \<or> hr_body hr = [] then Inr None
          else if failover_marked ex hr then Inr None
          else Inr (cacheableResponseBody env (hr_body hr) (hr_contentType hr)))"

section \<open>Answers\<close>

record reply =
  rp_status :: int
  rp_contentType :: string
  rp_xcache :: string
  rp_body :: string

definition cacheHeaderValue :: "string \<Rightarrow> string" where
  "cacheHeaderValue cacheType =
     (if cacheType = CacheTypeExact then CacheHeaderExact else ''HIT ('' @ cacheType @ '')'')"

definition ReplayHit :: "'p cache_env \<Rightarrow> exchange \<Rightarrow> string \<Rightarrow> string \<Rightarrow> string \<Rightarrow> reply" where
  "ReplayHit env ex requestBody cached cacheType =
     \<lparr>rp_status = 200,
      rp_contentType = (if isStreamingRequest env (ex_path ex) requestBody then ''text/event-stream''
                        else ''application/json''),
      rp_xcache = cacheHeaderValue cacheType, rp_body = cached\<rparr>"

definition own_reply :: "handler_result \<Rightarrow> reply" where
  "own_reply hr = \<lparr>rp_status = hr_status hr, rp_contentType = hr_contentType hr, rp_xcache = [],
                   rp_body = hr_body hr\<rparr>"

section \<open>The middleware\<close>

definition cacheWriteWorkerCount :: nat where "cacheWriteWorkerCount = 8"
definition cacheWriteQueueSize :: nat where "cacheWriteQueueSize = 256"

type_synonym cache_job = "string \<times> string"

record 'st middleware =
  mw_store :: 'st
  mw_ttl :: go_duration
  mw_jobs :: "cache_job list"       \<comment> \<open>the channel\<close>
  mw_working :: "cache_job list"    \<comment> \<open>taken by a worker, not yet written\<close>
  mw_closed :: bool
  mw_hits :: "(string \<times> string) list"   \<comment> \<open>path and cache type of each recorded hit\<close>

definition newSimpleCacheMiddleware :: "'st \<Rightarrow> go_duration \<Rightarrow> 'st middleware" where
  "newSimpleCacheMiddleware store ttl =
     \<lparr>mw_store = store, mw_ttl = ttl, mw_jobs = [], mw_working = [], mw_closed = False, mw_hits = []\<rparr>"

definition enqueueWrite :: "cache_job \<Rightarrow> 'st middleware \<Rightarrow> 'st middleware" where
  "enqueueWrite job m =
     (if mw_closed m then m
      else if length (mw_jobs m) < cacheWriteQueueSize then m\<lparr>mw_jobs := mw_jobs m @ [job]\<rparr>
      else m)"

definition TryHit ::
  "'st cache_store_ops \<Rightarrow> 'p cache_env \<Rightarrow> exchange \<Rightarrow> string \<Rightarrow> 'st middleware \<Rightarrow>
   reply option \<times> 'st middleware" where
  "TryHit ops env ex body m =
     (case cst_Get ops (exchange_key env ex body) (mw_store m) of
        Inl err \<Rightarrow> (None, m)
      | Inr cached \<Rightarrow>
          if cached \<noteq> [] then
            (Some (ReplayHit env ex body cached CacheTypeExact),
             m\<lparr>mw_hits := mw_hits m @ [(ex_path ex, CacheTypeExact)]\<rparr>)
          else (None, m))"

definition StoreAfter ::
  "'p cache_env \<Rightarrow> exchange \<Rightarrow> string \<Rightarrow> handler_result \<Rightarrow> 'st middleware \<Rightarrow>
   (go_error + reply) \<times> 'st middleware" where
  "StoreAfter env ex body hr m =
     (case Capture env ex hr of
        Inl err \<Rightarrow> (Inl err, m)
      | Inr None \<Rightarrow> (Inr (own_reply hr), m)
      | Inr (Some data) \<Rightarrow> (Inr (own_reply hr), enqueueWrite (exchange_key env ex body, data) m))"

text \<open>\<open>handle\<close>; the handler of a miss is a function, so that a hit does not run it. The second
  component tells whether it ran.\<close>

definition run_next :: "(unit \<Rightarrow> handler_result) \<Rightarrow> go_error + reply" where
  "run_next next = (case hr_err (next ()) of Some err \<Rightarrow> Inl err | None \<Rightarrow> Inr (own_reply (next ())))"

definition cache_handle ::
  "'st cache_store_ops \<Rightarrow> 'p cache_env \<Rightarrow> exchange \<Rightarrow> string \<Rightarrow> (unit \<Rightarrow> handler_result) \<Rightarrow>
   'st middleware option \<Rightarrow> (go_error + reply) \<times> bool \<times> 'st middleware option" where
  "cache_handle ops env ex body next simple =
     (if shouldSkipAllCacheHeaders (ex_header ex) then (run_next next, True, simple)
      else case simple of
          None \<Rightarrow> (run_next next, True, None)
        | Some m \<Rightarrow>
            (case TryHit ops env ex body m of
               (Some reply, m) \<Rightarrow> (Inr reply, False, Some m)
             | (None, m) \<Rightarrow>
                 (case StoreAfter env ex body (next ()) m of (res, m) \<Rightarrow> (res, True, Some m))))"

text \<open>Workers: one of at most eight takes the oldest job; a taken job is written at any later time.
  Closing stops new jobs; the remaining ones are still written.\<close>

definition worker_take :: "'st middleware \<Rightarrow> 'st middleware" where
  "worker_take m =
     (case mw_jobs m of
        [] \<Rightarrow> m
      | j # js \<Rightarrow>
          if length (mw_working m) < cacheWriteWorkerCount
          then m\<lparr>mw_jobs := js, mw_working := mw_working m @ [j]\<rparr> else m)"

definition worker_write :: "'st cache_store_ops \<Rightarrow> nat \<Rightarrow> 'st middleware \<Rightarrow> 'st middleware" where
  "worker_write ops i m =
     (if i < length (mw_working m) then
        let (key, data) = mw_working m ! i
        in m\<lparr>mw_store := snd (cst_Set ops key data (mw_ttl m) (mw_store m)),
             mw_working := take i (mw_working m) @ drop (Suc i) (mw_working m)\<rparr>
      else m)"

definition cache_close :: "'st middleware \<Rightarrow> 'st middleware" where
  "cache_close m = m\<lparr>mw_closed := True\<rparr>"

section \<open>Internal requests\<close>

definition internalCacheType :: "string \<Rightarrow> string" where
  "internalCacheType headerValue0 =
     (let v = go_trim headerValue0;
          v = (if has_prefix v ''HIT ('' \<and> has_suffix v '')''
               then go_trim (take (length v - 1 - length ''HIT ('') (drop (length ''HIT ('') v)) else v)
      in if v = CacheTypeExact then CacheTypeExact else [])"

definition internalRequestHeaderAllowlist :: "string set" where
  "internalRequestHeaderAllowlist = CanonicalHeaderKey ` set [''Accept'', ''Baggage'', ''Cache-Control'',
     ''Content-Type'', ''Request-Id'', ''Traceparent'', ''Tracestate'', ''User-Agent'', ''X-Cache-Control'',
     ''X-Cache-Semantic-Threshold'', ''X-Cache-TTL'', ''X-Cache-Type'', ''X-Request-ID'']"

definition header_get :: "string \<Rightarrow> (string \<Rightarrow> string list option) \<Rightarrow> string" where
  "header_get k h = (case h (CanonicalHeaderKey k) of Some (v # _) \<Rightarrow> v | _ \<Rightarrow> [])"

definition internalRequestHeaders ::
  "(string \<times> string list) list option \<Rightarrow> string \<Rightarrow> string \<Rightarrow> string list option" where
  "internalRequestHeaders snapshot requestID =
     (let h = (case snapshot of
           None \<Rightarrow> Map.empty
         | Some hs \<Rightarrow>
             fold (\<lambda>(key, values) h.
               if CanonicalHeaderKey key \<notin> internalRequestHeaderAllowlist then h
               else fold (header_add (CanonicalHeaderKey key)) values h) hs Map.empty);
          h = (if header_get ''Content-Type'' h = [] then header_set ''Content-Type'' ''application/json'' h
               else h)
      in if go_trim requestID \<noteq> [] \<and> header_get ''X-Request-ID'' h = []
         then header_set ''X-Request-ID'' (go_trim requestID) h else h)"

definition internal_handler_result :: "go_error + handler_result option \<Rightarrow> handler_result" where
  \<comment> \<open>\<open>runNext\<close>: an error, no response, or the buffered response\<close>
  "internal_handler_result r =
     (case r of
        Inl err \<Rightarrow> \<lparr>hr_err = Some err, hr_status = 0, hr_contentType = [], hr_body = [], hr_failoverUsed = False\<rparr>
      | Inr None \<Rightarrow> \<lparr>hr_err = Some (PlainError ''internal cache request returned no response''),
                     hr_status = 0, hr_contentType = [], hr_body = [], hr_failoverUsed = False\<rparr>
      | Inr (Some hr) \<Rightarrow> hr\<lparr>hr_err := None\<rparr>)"

definition HandleInternalRequest ::
  "'st cache_store_ops \<Rightarrow> 'p cache_env \<Rightarrow> go_context \<Rightarrow> (string \<times> string list) list option \<Rightarrow> string \<Rightarrow>
   string \<Rightarrow> (unit \<Rightarrow> go_error + handler_result option) \<Rightarrow> 'st middleware option option \<Rightarrow>
   (go_error + reply \<times> string) \<times> 'st middleware option option" where
  "HandleInternalRequest ops env ctx snapshot path body next m =
     (case m of
        None \<Rightarrow> (Inl (NewProviderError [] 500 ''response cache middleware is not initialized'' None), None)
      | Some simple \<Rightarrow>
          let ex = \<lparr>ex_transport = InternalExchange, ex_ctx = ctx, ex_path = path,
                    ex_header = (\<lambda>k. header_get k (internalRequestHeaders snapshot (ctx_request_id ctx)))\<rparr>
          in case cache_handle ops env ex body (\<lambda>u. internal_handler_result (next u)) simple of
               (Inl err, _, simple) \<Rightarrow>
                 (Inl (case as_gateway err of
                         Some g \<Rightarrow> g
                       | None \<Rightarrow> NewProviderError [] 500 (error_string err) (Some err)), Some simple)
             | (Inr reply, _, simple) \<Rightarrow>
                 (Inr (reply, internalCacheType (rp_xcache reply)), Some simple))"

section \<open>Runs of the cache\<close>

datatype cache_event =
    Request exchange string handler_result
  | Take
  | Write nat
  | Close

fun cache_step ::
  "'st cache_store_ops \<Rightarrow> 'p cache_env \<Rightarrow> cache_event \<Rightarrow> 'st middleware \<Rightarrow> 'st middleware" where
  "cache_step ops env (Request ex body hr) m =
     the (snd (snd (cache_handle ops env ex body (\<lambda>_. hr) (Some m))))"
| "cache_step ops env Take m = worker_take m"
| "cache_step ops env (Write i) m = worker_write ops i m"
| "cache_step ops env Close m = cache_close m"

definition cache_run ::
  "'st cache_store_ops \<Rightarrow> 'p cache_env \<Rightarrow> cache_event list \<Rightarrow> 'st middleware \<Rightarrow> 'st middleware" where
  "cache_run ops env evs m = fold (cache_step ops env) evs m"

text \<open>A body that an earlier request of the same key was answered with, and that may be stored.\<close>

definition answered_with :: "'p cache_env \<Rightarrow> cache_event list \<Rightarrow> string \<Rightarrow> string \<Rightarrow> bool" where
  "answered_with env evs key data \<longleftrightarrow>
     (\<exists>ex body hr. Request ex body hr \<in> set evs \<and> exchange_key env ex body = key \<and>
        \<not> shouldSkipAllCacheHeaders (ex_header ex) \<and> Capture env ex hr = Inr (Some data))"

lemma answered_with_mono: "answered_with env evs k d \<Longrightarrow> answered_with env (evs @ evs') k d"
  by (auto simp: answered_with_def)

text \<open>What the middleware relies on in a store: a written value is read back, others are kept.\<close>

locale cache_store =
  fixes ops :: "'st cache_store_ops" and start :: 'st
  assumes start_empty: "cst_Get ops k start = Inr []"
    and get_set: "cst_Get ops k' (snd (cst_Set ops k v ttl st)) =
      (if k' = k then Inr v else cst_Get ops k' st)"
begin

definition explained :: "'p cache_env \<Rightarrow> cache_event list \<Rightarrow> 'st middleware \<Rightarrow> bool" where
  "explained env evs m \<longleftrightarrow>
     (\<forall>(k, d)\<in>set (mw_jobs m) \<union> set (mw_working m). answered_with env evs k d) \<and>
     (\<forall>k v. cst_Get ops k (mw_store m) = Inr v \<and> v \<noteq> [] \<longrightarrow> answered_with env evs k v)"

lemma explained_mono: "explained env evs m \<Longrightarrow> explained env (evs @ evs') m"
  unfolding explained_def using answered_with_mono [of env evs _ _ evs'] by blast

lemma explained_start: "explained env [] (newSimpleCacheMiddleware start ttl)"
  by (simp add: explained_def newSimpleCacheMiddleware_def start_empty)

lemma explained_enqueue:
  "explained env evs m \<Longrightarrow> answered_with env evs k d \<Longrightarrow> explained env evs (enqueueWrite (k, d) m)"
  by (auto simp: explained_def enqueueWrite_def)

lemma explained_step:
  assumes "explained env evs m"
  shows "explained env (evs @ [e]) (cache_step ops env e m)"
proof (cases e)
  case (Request ex body hr)
  have m: "explained env (evs @ [e]) m" using assms by (rule explained_mono)
  show ?thesis
  proof (cases "shouldSkipAllCacheHeaders (ex_header ex)")
    case True
    with m show ?thesis by (simp add: Request cache_handle_def)
  next
    case False
    obtain hit m1 where hit: "TryHit ops env ex body m = (hit, m1)" by (cases "TryHit ops env ex body m")
    have m1: "explained env (evs @ [e]) m1"
      using m hit by (auto simp: TryHit_def explained_def split: sum.splits if_splits)
    have "answered_with env (evs @ [e]) (exchange_key env ex body) d" if "Capture env ex hr = Inr (Some d)" for d
      using that False by (auto simp: answered_with_def Request)
    then have "explained env (evs @ [e]) (snd (StoreAfter env ex body hr m1))"
      using m1 by (auto simp: StoreAfter_def explained_enqueue split: sum.splits option.splits)
    with m1 False hit show ?thesis
      by (cases hit) (auto simp: Request cache_handle_def split: prod.splits)
  qed
next
  case Take
  then show ?thesis
    using explained_mono [OF assms, of "[e]"] by (auto simp: worker_take_def explained_def split: list.splits)
next
  case (Write i)
  note m = explained_mono [OF assms, of "[e]"]
  show ?thesis
  proof (cases "i < length (mw_working m)")
    case True
    obtain k d where j: "mw_working m ! i = (k, d)" by (cases "mw_working m ! i")
    then have kd: "answered_with env (evs @ [e]) k d"
      using m True nth_mem [OF True] by (auto simp: explained_def)
    have sub: "set (take i (mw_working m) @ drop (Suc i) (mw_working m)) \<subseteq> set (mw_working m)"
      by (auto dest: in_set_takeD in_set_dropD)
    show ?thesis
      unfolding Write
      using m kd sub True j
      by (auto simp: worker_write_def explained_def get_set Write split: if_splits)
  next
    case False
    with m show ?thesis by (simp add: Write worker_write_def)
  qed
next
  case Close
  then show ?thesis
    using explained_mono [OF assms, of "[e]"] by (simp add: cache_close_def explained_def)
qed

lemma explained_run: "explained env evs (cache_run ops env evs (newSimpleCacheMiddleware start ttl))"
proof (induction evs rule: rev_induct)
  case Nil
  show ?case by (simp add: cache_run_def explained_start)
next
  case (snoc e evs)
  from explained_step [OF snoc, of e] show ?case by (simp add: cache_run_def)
qed

lemma hit_explained:
  assumes "cache_handle ops env ex body next (Some (cache_run ops env evs (newSimpleCacheMiddleware start ttl))) =
      (Inr reply, False, m')"
  shows "\<not> shouldSkipAllCacheHeaders (ex_header ex)"
    and "answered_with env evs (exchange_key env ex body) (rp_body reply)"
    and "rp_status reply = 200"
proof -
  let ?m = "cache_run ops env evs (newSimpleCacheMiddleware start ttl)"
  show skip: "\<not> shouldSkipAllCacheHeaders (ex_header ex)"
    using assms by (auto simp: cache_handle_def)
  obtain m1 where "TryHit ops env ex body ?m = (Some reply, m1)"
    using assms skip by (auto simp: cache_handle_def split: option.splits prod.splits)
  then obtain cached where c: "cst_Get ops (exchange_key env ex body) (mw_store ?m) = Inr cached" "cached \<noteq> []"
    and r: "reply = ReplayHit env ex body cached CacheTypeExact"
    by (auto simp: TryHit_def split: sum.splits if_splits)
  then show "answered_with env evs (exchange_key env ex body) (rp_body reply)" "rp_status reply = 200"
    using explained_run [of env evs ttl] by (auto simp: explained_def ReplayHit_def)
qed

text \<open>Once a key is in the store, it stays there whatever happens.\<close>

lemma stored_stays:
  assumes "cst_Get ops k (mw_store m) = Inr v" "v \<noteq> []" "explained env evs m"
  shows "\<exists>v. cst_Get ops k (mw_store (cache_run ops env evs' m)) = Inr v \<and> v \<noteq> []"
proof -
  have "\<exists>v. cst_Get ops k (mw_store (cache_run ops env evs' m)) = Inr v \<and> v \<noteq> []"
    and "explained env (evs @ evs') (cache_run ops env evs' m)"
  proof (induction evs' rule: rev_induct)
    case Nil
    { case 1 with assms show ?case by (simp add: cache_run_def) }
    { case 2 with assms show ?case by (simp add: cache_run_def) }
  next
    case (snoc e evs')
    let ?m = "cache_run ops env evs' m"
    { case 2
      from explained_step [OF snoc(2), of e] show ?case by (simp add: cache_run_def) }
    { case 1
      obtain v where v: "cst_Get ops k (mw_store ?m) = Inr v" "v \<noteq> []" using snoc(1) by blast
      have "\<exists>v. cst_Get ops k (mw_store (cache_step ops env e ?m)) = Inr v \<and> v \<noteq> []"
      proof (cases e)
        case (Request ex body hr)
        have "mw_store (cache_step ops env e ?m) = mw_store ?m"
          by (auto simp: Request cache_handle_def TryHit_def StoreAfter_def enqueueWrite_def
              split: sum.splits option.splits if_splits)
        with v show ?thesis by simp
      next
        case (Write i)
        show ?thesis
        proof (cases "i < length (mw_working ?m)")
          case True
          obtain k' d where j: "mw_working ?m ! i = (k', d)" by (cases "mw_working ?m ! i")
          then have "answered_with env (evs @ evs') k' d"
            using snoc(2) nth_mem [OF True] by (auto simp: explained_def)
          then have "d \<noteq> []"
            by (auto simp: answered_with_def Capture_def cacheableResponseBody_def split: option.splits if_splits)
          with v True j show ?thesis by (simp add: Write worker_write_def get_set)
        qed (use v in \<open>simp add: Write worker_write_def\<close>)
      qed (use v in \<open>auto simp: worker_take_def cache_close_def split: list.splits\<close>)
      then show ?case by (simp add: cache_run_def) }
  qed
  then show ?thesis by blast
qed

end

interpretation map_store: cache_store MapStore NewMapStore
  by unfold_locales (simp_all add: MapStore_def NewMapStore_def map_store_Get_def map_store_Set_def
      update_conv)

section \<open>Properties\<close>

text \<open>With a collision-free hash, equal keys mean equal paths, routes and normalized bodies, as long
  as the parts before the body hold no zero byte.\<close>

lemma NUL_split:
  assumes "CHR 0x00 \<notin> set a" "CHR 0x00 \<notin> set b"
  shows "a @ NUL @ s = b @ NUL @ t \<longleftrightarrow> a = b \<and> s = t"
proof
  assume "a @ NUL @ s = b @ NUL @ t"
  then have "cut (CHR 0x00) (a @ CHR 0x00 # s) = cut (CHR 0x00) (b @ CHR 0x00 # t)" by (simp add: NUL_def)
  with assms show "a = b \<and> s = t" by (simp add: cut_append)
qed simp

lemma mode_string_no_NUL: "CHR 0x00 \<notin> set (mode_string m)"
  by (cases m) auto

lemma mode_string_inj: "mode_string m = mode_string n \<Longrightarrow> m = n"
  by (cases m; cases n) auto

lemma same_key_same_request:
  assumes "inj (ce_hash env)" and "hashRequest env p1 b1 (Some w1) = hashRequest env p2 b2 (Some w2)"
    and "CHR 0x00 \<notin> set p1" "CHR 0x00 \<notin> set p2"
    and "CHR 0x00 \<notin> set (wk_ProviderType w1)" "CHR 0x00 \<notin> set (wk_ProviderType w2)"
    and "CHR 0x00 \<notin> set (wk_ResolvedQualifiedModel (Some w1))"
    and "CHR 0x00 \<notin> set (wk_ResolvedQualifiedModel (Some w2))"
  shows "p1 = p2" "wk_Mode w1 = wk_Mode w2" "wk_ProviderType w1 = wk_ProviderType w2"
    "wk_ResolvedQualifiedModel (Some w1) = wk_ResolvedQualifiedModel (Some w2)"
    "cacheKeyRequestBody env p1 b1 = cacheKeyRequestBody env p2 b2"
proof -
  have "key_material env p1 b1 (Some w1) = key_material env p2 b2 (Some w2)"
    using assms(1,2) by (simp add: hashRequest_def inj_eq)
  then have "p1 = p2 \<and> mode_string (wk_Mode w1) = mode_string (wk_Mode w2) \<and>
      wk_ProviderType w1 = wk_ProviderType w2 \<and>
      wk_ResolvedQualifiedModel (Some w1) = wk_ResolvedQualifiedModel (Some w2) \<and>
      cacheKeyRequestBody env p1 b1 = cacheKeyRequestBody env p2 b2"
    using assms(3-) by (simp add: key_material_def NUL_split mode_string_no_NUL) auto
  then show "p1 = p2" "wk_Mode w1 = wk_Mode w2" "wk_ProviderType w1 = wk_ProviderType w2"
    "wk_ResolvedQualifiedModel (Some w1) = wk_ResolvedQualifiedModel (Some w2)"
    "cacheKeyRequestBody env p1 b1 = cacheKeyRequestBody env p2 b2"
    using mode_string_inj by blast+
qed

text \<open>
  C35. Where a cached answer comes from. Whatever requests the cache has served and in whatever
  order its workers have written, a request answered without running its handler does not forbid
  caching, and gets, with status 200, the body that an earlier request with the same key was
  answered with: a body that was answered with status 200, without a failover mark, and is a
  complete event stream if it was sent as one and valid JSON otherwise.
\<close>

theorem cache_hit_is_earlier_answer:
  assumes "cache_handle MapStore env ex body next
      (Some (cache_run MapStore env evs (newSimpleCacheMiddleware NewMapStore ttl))) =
      (Inr reply, False, m')"
  shows "\<not> shouldSkipAllCacheHeaders (ex_header ex) \<and> rp_status reply = 200 \<and>
    (\<exists>ex' body' hr. Request ex' body' hr \<in> set evs
       \<and> exchange_key env ex' body' = exchange_key env ex body
       \<and> hr_body hr = rp_body reply \<and> rp_body reply \<noteq> []
       \<and> hr_err hr = None \<and> hr_status hr = 200 \<and> \<not> failover_marked ex' hr
       \<and> \<not> shouldSkipAllCacheHeaders (ex_header ex')
       \<and> (if isEventStreamContentType (hr_contentType hr)
          then validateCacheableSSE (ce_valid_json env) (rp_body reply)
          else ce_valid_json env (rp_body reply)))"
proof -
  note H = map_store.hit_explained [OF assms]
  then obtain ex' body' hr where R: "Request ex' body' hr \<in> set evs"
    "exchange_key env ex' body' = exchange_key env ex body" "\<not> shouldSkipAllCacheHeaders (ex_header ex')"
    and C: "Capture env ex' hr = Inr (Some (rp_body reply))"
    by (auto simp: answered_with_def)
  from C have "hr_body hr = rp_body reply \<and> rp_body reply \<noteq> [] \<and> hr_err hr = None \<and> hr_status hr = 200
      \<and> \<not> failover_marked ex' hr
      \<and> (if isEventStreamContentType (hr_contentType hr)
          then validateCacheableSSE (ce_valid_json env) (rp_body reply)
          else ce_valid_json env (rp_body reply))"
    by (auto simp: Capture_def cacheableResponseBody_def shouldStoreCapturedResponse_def
        split: option.splits if_splits)
  with H R show ?thesis by blast
qed

definition demo_cache_env :: "unit cache_env" where
  "demo_cache_env = \<lparr>ce_hash = (\<lambda>s. s), ce_decode_chat = (\<lambda>s. None), ce_decode_responses = (\<lambda>s. None),
     ce_marshal_chat = (\<lambda>r. None), ce_marshal_responses = (\<lambda>r. None), ce_valid_json = (\<lambda>s. s = ''{}''),
     ce_stream_field = (\<lambda>s. None)\<rparr>"

definition demo_exchange :: exchange where
  "demo_exchange = \<lparr>ex_transport = EchoExchange, ex_ctx = Background, ex_path = ''/v1/embeddings'',
     ex_header = (\<lambda>k. [])\<rparr>"

definition demo_result :: handler_result where
  "demo_result = \<lparr>hr_err = None, hr_status = 200, hr_contentType = ''application/json'', hr_body = ''{}'',
     hr_failoverUsed = False\<rparr>"

lemma demo_hit:
  "\<exists>m'. cache_handle MapStore demo_cache_env demo_exchange ''q'' (\<lambda>_. demo_result)
     (Some (cache_run MapStore demo_cache_env [Request demo_exchange ''q'' demo_result, Take, Write 0]
        (newSimpleCacheMiddleware NewMapStore 0))) =
   (Inr \<lparr>rp_status = 200, rp_contentType = ''application/json'', rp_xcache = ''HIT (exact)'', rp_body = ''{}''\<rparr>,
    False, m')"
proof -
  let ?m0 = "newSimpleCacheMiddleware NewMapStore 0"
  let ?key = "exchange_key demo_cache_env demo_exchange ''q''"
  have skip: "\<not> shouldSkipAllCacheHeaders (ex_header demo_exchange)"
    by (simp add: demo_exchange_def shouldSkipAllCacheHeaders_def equal_fold_def)
  have "\<not> isEventStreamContentType (hr_contentType demo_result)"
    unfolding demo_result_def by code_simp
  then have cap: "Capture demo_cache_env demo_exchange demo_result = Inr (Some ''{}'')"
    by (simp add: Capture_def demo_result_def shouldStoreCapturedResponse_def failover_marked_def
        demo_exchange_def Background_def cacheableResponseBody_def demo_cache_env_def)
  have miss: "TryHit MapStore demo_cache_env demo_exchange ''q'' ?m0 = (None, ?m0)"
    by (simp add: TryHit_def MapStore_def map_store_Get_def newSimpleCacheMiddleware_def NewMapStore_def)
  have "cache_step MapStore demo_cache_env (Request demo_exchange ''q'' demo_result) ?m0 =
      ?m0\<lparr>mw_jobs := [(?key, ''{}'')]\<rparr>"
    using skip
    by (simp add: cache_handle_def miss StoreAfter_def cap enqueueWrite_def cacheWriteQueueSize_def)
      (simp add: newSimpleCacheMiddleware_def)
  then have "cache_run MapStore demo_cache_env [Request demo_exchange ''q'' demo_result, Take, Write 0] ?m0 =
      worker_write MapStore 0 (worker_take (?m0\<lparr>mw_jobs := [(?key, ''{}'')]\<rparr>))"
    by (simp add: cache_run_def)
  also have "\<dots> = ?m0\<lparr>mw_store := [(?key, ''{}'')]\<rparr>"
    by (simp add: worker_take_def worker_write_def cacheWriteWorkerCount_def MapStore_def
        map_store_Set_def newSimpleCacheMiddleware_def NewMapStore_def)
  finally have "cache_run MapStore demo_cache_env [Request demo_exchange ''q'' demo_result, Take, Write 0] ?m0 =
      ?m0\<lparr>mw_store := [(?key, ''{}'')]\<rparr>" .
  then show ?thesis
    using skip
    by (simp add: cache_handle_def TryHit_def MapStore_def map_store_Get_def ReplayHit_def
        isStreamingRequest_def demo_exchange_def cacheHeaderValue_def CacheHeaderExact_def)
qed

lemma cache_hit_is_earlier_answer_witness:
  "\<exists>ex' body' hr. Request ex' body' hr \<in> set [Request demo_exchange ''q'' demo_result, Take, Write 0] \<and>
     hr_body hr = ''{}'' \<and> hr_status hr = 200"
proof -
  from demo_hit obtain m' where hit:
    "cache_handle MapStore demo_cache_env demo_exchange ''q'' (\<lambda>_. demo_result)
       (Some (cache_run MapStore demo_cache_env [Request demo_exchange ''q'' demo_result, Take, Write 0]
          (newSimpleCacheMiddleware NewMapStore 0))) =
     (Inr \<lparr>rp_status = 200, rp_contentType = ''application/json'', rp_xcache = ''HIT (exact)'', rp_body = ''{}''\<rparr>,
      False, m')" by blast
  show ?thesis using cache_hit_is_earlier_answer [OF hit] by (auto simp del: list.set)
qed

text \<open>The configured lifetime has no effect: once a key is stored it answers for ever.\<close>

lemma entries_never_expire:
  fixes env :: "'p cache_env" and ttl :: go_duration
  defines "m evs \<equiv> cache_run MapStore env evs (newSimpleCacheMiddleware NewMapStore ttl)"
  assumes "cst_Get MapStore k (mw_store (m evs)) = Inr v" "v \<noteq> []"
  shows "\<exists>v. cst_Get MapStore k (mw_store (m (evs @ evs'))) = Inr v \<and> v \<noteq> []"
proof -
  have "m (evs @ evs') = cache_run MapStore env evs' (m evs)" by (simp add: m_def cache_run_def)
  then show ?thesis
    using map_store.stored_stays [OF assms(2,3) map_store.explained_run [of env evs ttl, folded m_def]]
    by simp
qed

text \<open>A header with several directives is not recognized, although the function that splits it
  exists.\<close>

lemma combined_directives_ignored:
  "\<not> shouldSkipAllCacheHeaders (\<lambda>k. if k = ''Cache-Control'' then ''no-cache, no-store'' else [])"
  "shouldSkipCacheControl ''no-cache, no-store''"
  by code_simp+

text \<open>A failover answer of an HTTP request is stored: its handler returns it with status 200, and the
  mark the capture looks for is in the request's context, which the server never sets.\<close>

lemma unmarked_failover_is_stored:
  assumes "ex_transport ex = EchoExchange" "\<not> ctx_failover_used (ex_ctx ex)"
    and "hr_err hr = None" "hr_status hr = 200" "hr_body hr \<noteq> []" "ce_valid_json env (hr_body hr)"
    and "\<not> isEventStreamContentType (hr_contentType hr)"
  shows "Capture env ex (hr\<lparr>hr_failoverUsed := True\<rparr>) = Inr (Some (hr_body hr))"
  using assms
  by (simp add: Capture_def failover_marked_def shouldStoreCapturedResponse_def cacheableResponseBody_def)

end
