(* ===== verification/Cost.thy ===== *)
theory Cost
  imports Registry
begin

text \<open>
  The price of a request: \<open>internal/usage/cost.go\<close>.

  Rates, counts and costs are exact rationals: the rounding of Go's \<open>float64\<close> is not modelled. A
  number that a provider sent as text can parse to a value that is not finite, so a quantity read
  from the raw usage data is a \<open>go_float\<close>; the costs it enters are too. The raw data of a usage
  record is a map with distinct keys, an association list. \<open>strconv.ParseFloat\<close> is a parameter.
\<close>

section \<open>Numbers that need not be finite\<close>

datatype go_float = Fin rat | PosInf | NegInf | NaN

instantiation go_float :: "{plus, times}"
begin

fun plus_go_float :: "go_float \<Rightarrow> go_float \<Rightarrow> go_float" where
  "plus_go_float (Fin a) (Fin b) = Fin (a + b)"
| "plus_go_float NaN x = NaN"
| "plus_go_float x NaN = NaN"
| "plus_go_float PosInf NegInf = NaN"
| "plus_go_float NegInf PosInf = NaN"
| "plus_go_float PosInf x = PosInf"
| "plus_go_float x PosInf = PosInf"
| "plus_go_float NegInf x = NegInf"
| "plus_go_float x NegInf = NegInf"

fun float_sign :: "go_float \<Rightarrow> int" where
  "float_sign (Fin a) = (if 0 < a then 1 else if a < 0 then - 1 else 0)"
| "float_sign PosInf = 1"
| "float_sign NegInf = - 1"
| "float_sign NaN = 0"

definition times_go_float :: "go_float \<Rightarrow> go_float \<Rightarrow> go_float" where
  "times_go_float x y =
     (case (x, y) of
        (Fin a, Fin b) \<Rightarrow> Fin (a * b)
      | _ \<Rightarrow> (let s = float_sign x * float_sign y
              in if s > 0 then PosInf else if s < 0 then NegInf else NaN))"

instance ..

end

definition float_positive :: "go_float \<Rightarrow> bool" where
  "float_positive x \<longleftrightarrow> float_sign x > 0"

definition isFiniteCost :: "go_float \<Rightarrow> bool" where
  "isFiniteCost x = (case x of Fin _ \<Rightarrow> True | _ \<Rightarrow> False)"

section \<open>Raw usage data\<close>

datatype raw_value =
    RawFloat go_float     \<comment> \<open>\<open>float64\<close>\<close>
  | RawFloat32 go_float
  | RawInt int            \<comment> \<open>\<open>int\<close>, \<open>int32\<close>, \<open>int64\<close>\<close>
  | RawOtherInt int       \<comment> \<open>the other integer types\<close>
  | RawNumber string      \<comment> \<open>\<open>json.Number\<close>\<close>
  | RawString string
  | RawBool bool
  | RawMap "(string \<times> raw_value) list"
  | RawOther

type_synonym raw_data = "(string \<times> raw_value) list"

text \<open>The conversion of a value that is not finite is left to the platform; on amd64 it gives the
  smallest \<open>int64\<close>.\<close>

definition go_int_of_float :: "go_float \<Rightarrow> int" where
  "go_int_of_float x = (case x of Fin a \<Rightarrow> truncate_rat a | _ \<Rightarrow> - (2 ^ 63))"

definition extractInt :: "raw_data \<Rightarrow> string \<Rightarrow> int" where
  "extractInt data key =
     (case map_of data key of
        Some (RawFloat x) \<Rightarrow> go_int_of_float x
      | Some (RawInt n) \<Rightarrow> n
      | _ \<Rightarrow> 0)"

type_synonym parse_float = "string \<Rightarrow> go_float option"

definition numericFloat :: "parse_float \<Rightarrow> raw_value \<Rightarrow> go_float option" where
  "numericFloat parse value =
     (case value of
        RawFloat x \<Rightarrow> Some x
      | RawFloat32 x \<Rightarrow> Some x
      | RawInt n \<Rightarrow> Some (Fin (of_int n))
      | RawOtherInt n \<Rightarrow> Some (Fin (of_int n))
      | RawNumber s \<Rightarrow> parse s
      | RawString s \<Rightarrow> parse (go_trim s)
      | RawBool _ \<Rightarrow> None
      | RawMap _ \<Rightarrow> None
      | RawOther \<Rightarrow> None)"

definition extractFloat :: "parse_float \<Rightarrow> raw_data \<Rightarrow> string \<Rightarrow> go_float option" where
  "extractFloat parse data key =
     (case map_of data key of None \<Rightarrow> None | Some value \<Rightarrow> numericFloat parse value)"

definition isTokenField :: "string \<Rightarrow> bool" where
  "isTokenField key \<longleftrightarrow> has_suffix key ''_tokens'' \<or> has_suffix key ''_count''"

section \<open>Token mappings\<close>

datatype cost_side = sideInput | sideOutput
datatype cost_unit = unitPerMtok | unitPerItem

text \<open>The pricing field of a mapping. \<open>CalculateGranularCost\<close> tells fields apart by the address of
  their rate; different fields of a price list have different addresses.\<close>

datatype price_field =
  CachedInput | CacheWrite | ReasoningOutput | AudioInput | AudioOutput | ImageInput

definition pricingField :: "price_field \<Rightarrow> model_pricing \<Rightarrow> rat option" where
  "pricingField f p =
     (case f of
        CachedInput \<Rightarrow> mp_CachedInputPerMtok p
      | CacheWrite \<Rightarrow> mp_CacheWritePerMtok p
      | ReasoningOutput \<Rightarrow> mp_ReasoningOutputPerMtok p
      | AudioInput \<Rightarrow> mp_AudioInputPerMtok p
      | AudioOutput \<Rightarrow> mp_AudioOutputPerMtok p
      | ImageInput \<Rightarrow> mp_InputPerImage p)"

record token_mapping =
  tm_rawDataKey :: string
  tm_field :: price_field
  tm_side :: cost_side
  tm_unit :: cost_unit
  tm_includedInBase :: bool

definition included :: "string \<Rightarrow> price_field \<Rightarrow> cost_side \<Rightarrow> token_mapping" where
  "included key f side = \<lparr>tm_rawDataKey = key, tm_field = f, tm_side = side,
     tm_unit = unitPerMtok, tm_includedInBase = True\<rparr>"

definition extra :: "string \<Rightarrow> price_field \<Rightarrow> cost_side \<Rightarrow> token_mapping" where
  "extra key f side = (included key f side)\<lparr>tm_includedInBase := False\<rparr>"

definition openAICompatibleTokenCostMappings :: "token_mapping list" where
  "openAICompatibleTokenCostMappings =
     [included ''cached_tokens'' CachedInput sideInput,
      included ''prompt_cached_tokens'' CachedInput sideInput,
      included ''prompt_cache_hit_tokens'' CachedInput sideInput,
      included ''reasoning_tokens'' ReasoningOutput sideOutput,
      included ''completion_reasoning_tokens'' ReasoningOutput sideOutput,
      included ''prompt_audio_tokens'' AudioInput sideInput,
      included ''completion_audio_tokens'' AudioOutput sideOutput]"

definition providerMappings :: "(string \<times> token_mapping list) list" where
  "providerMappings =
     [(''openai'', openAICompatibleTokenCostMappings),
      (''openrouter'', openAICompatibleTokenCostMappings),
      (''anthropic'',
        [extra ''cache_read_input_tokens'' CachedInput sideInput,
         extra ''cache_creation_input_tokens'' CacheWrite sideInput]),
      (''gemini'',
        [included ''cached_tokens'' CachedInput sideInput,
         included ''prompt_cached_tokens'' CachedInput sideInput,
         included ''cached_content_token_count'' CachedInput sideInput,
         included ''thought_tokens'' ReasoningOutput sideOutput,
         included ''thoughts_token_count'' ReasoningOutput sideOutput,
         included ''reasoning_tokens'' ReasoningOutput sideOutput,
         included ''completion_reasoning_tokens'' ReasoningOutput sideOutput,
         included ''prompt_audio_tokens'' AudioInput sideInput,
         included ''completion_audio_tokens'' AudioOutput sideOutput]),
      (''groq'',
        [included ''cached_tokens'' CachedInput sideInput,
         included ''prompt_cached_tokens'' CachedInput sideInput,
         included ''reasoning_tokens'' ReasoningOutput sideOutput,
         included ''completion_reasoning_tokens'' ReasoningOutput sideOutput]),
      (''xai'',
        [included ''cached_tokens'' CachedInput sideInput,
         included ''prompt_cached_tokens'' CachedInput sideInput,
         extra ''reasoning_tokens'' ReasoningOutput sideOutput,
         extra ''completion_reasoning_tokens'' ReasoningOutput sideOutput,
         (extra ''image_tokens'' ImageInput sideInput)\<lparr>tm_unit := unitPerItem\<rparr>])]"

definition tokenCostMappingsForProvider :: "string \<Rightarrow> token_mapping list" where
  "tokenCostMappingsForProvider providerType =
     (case map_of providerMappings providerType of
        Some mappings \<Rightarrow> mappings | None \<Rightarrow> openAICompatibleTokenCostMappings)"

definition informationalFields :: "string list" where
  "informationalFields =
     [''prompt_cache_miss_tokens'', ''prompt_text_tokens'', ''completion_text_tokens'',
      ''prompt_image_tokens'', ''tool_use_prompt_token_count'',
      ''completion_accepted_prediction_tokens'', ''completion_rejected_prediction_tokens'']"

section \<open>Tiers\<close>

definition tierLimitTokens :: "pricing_tier \<Rightarrow> rat option" where
  "tierLimitTokens tier =
     (case pt_UpToTokens tier of
        Some n \<Rightarrow> Some n
      | None \<Rightarrow> map_option (\<lambda>m. m * 1000000) (pt_UpToMtok tier))"

text \<open>\<open>sort.Slice\<close> on at most twelve tiers is an insertion sort, which is stable.\<close>

definition limited_tiers :: "pricing_tier list \<Rightarrow> (rat \<times> pricing_tier) list" where
  "limited_tiers tiers =
     sort_key fst
       (List.map_filter (\<lambda>t. case tierLimitTokens t of
            None \<Rightarrow> None | Some limit \<Rightarrow> if limit \<le> 0 then None else Some (limit, t)) tiers)"

definition selectPricingTier :: "pricing_tier list \<Rightarrow> int \<Rightarrow> pricing_tier option" where
  "selectPricingTier tiers inputTokens =
     (let limited = limited_tiers tiers
      in if limited = [] then None
         else case List.find (\<lambda>c. of_int inputTokens \<le> fst c) limited of
             Some c \<Rightarrow> Some (snd c)
           | None \<Rightarrow> Some (snd (List.last limited)))"

definition or_rate :: "rat option \<Rightarrow> rat option \<Rightarrow> rat option" where
  "or_rate new old = (case new of None \<Rightarrow> old | Some x \<Rightarrow> Some x)"

definition pricingForTokenCount :: "model_pricing \<Rightarrow> int \<Rightarrow> model_pricing" where
  "pricingForTokenCount pricing inputTokens =
     (if inputTokens \<le> 0 \<or> mp_Tiers pricing = [] then pricing
      else case selectPricingTier (mp_Tiers pricing) inputTokens of
          None \<Rightarrow> pricing
        | Some tier \<Rightarrow>
            pricing\<lparr>mp_InputPerMtok := or_rate (pt_InputPerMtok tier) (mp_InputPerMtok pricing),
                    mp_OutputPerMtok := or_rate (pt_OutputPerMtok tier) (mp_OutputPerMtok pricing)\<rparr>)"

section \<open>The granular cost\<close>

record cost_result =
  cost_Input :: "go_float option"
  cost_Output :: "go_float option"
  cost_Total :: "go_float option"
  cost_Caveat :: string
  cost_Source :: string

definition no_cost :: cost_result where
  "no_cost = \<lparr>cost_Input = None, cost_Output = None, cost_Total = None, cost_Caveat = [], cost_Source = []\<rparr>"

definition CostSourceModelPricing :: string where "CostSourceModelPricing = ''model_pricing''"
definition CostSourceOpenRouterCredits :: string where "CostSourceOpenRouterCredits = ''openrouter_credits''"
definition CostSourceXAITicks :: string where "CostSourceXAITicks = ''xai_cost_in_usd_ticks''"

definition baseRateForSide :: "model_pricing \<Rightarrow> cost_side \<Rightarrow> rat option" where
  "baseRateForSide pricing side =
     (case side of sideInput \<Rightarrow> mp_InputPerMtok pricing | sideOutput \<Rightarrow> mp_OutputPerMtok pricing)"

text \<open>What the loop over the mappings keeps: the costs so far, whether a side has any, the raw keys
  seen, and the price fields already charged.\<close>

record cost_acc =
  ca_input :: "rat option"
  ca_output :: "rat option"
  ca_mapped :: "string list"
  ca_applied :: "price_field list"

definition charge :: "rat \<Rightarrow> rat option \<Rightarrow> rat option" where
  "charge cost acc = Some (cost + (case acc of None \<Rightarrow> 0 | Some c \<Rightarrow> c))"

definition base_costs :: "model_pricing \<Rightarrow> int \<Rightarrow> int \<Rightarrow> cost_acc" where
  "base_costs pricing inputTokens outputTokens =
     \<lparr>ca_input = map_option (\<lambda>r. of_int inputTokens * r / 1000000) (mp_InputPerMtok pricing),
      ca_output = map_option (\<lambda>r. of_int outputTokens * r / 1000000) (mp_OutputPerMtok pricing),
      ca_mapped = [], ca_applied = []\<rparr>"

definition effective_rate :: "model_pricing \<Rightarrow> token_mapping \<Rightarrow> rat \<Rightarrow> rat" where
  "effective_rate pricing m rate =
     (if tm_includedInBase m \<and> tm_unit m = unitPerMtok
      then rate - (case baseRateForSide pricing (tm_side m) of None \<Rightarrow> 0 | Some base \<Rightarrow> base)
      else rate)"

definition mapping_cost :: "model_pricing \<Rightarrow> token_mapping \<Rightarrow> int \<Rightarrow> rat \<Rightarrow> rat" where
  "mapping_cost pricing m n rate =
     (case tm_unit m of
        unitPerMtok \<Rightarrow> of_int n * effective_rate pricing m rate / 1000000
      | unitPerItem \<Rightarrow> of_int n * effective_rate pricing m rate)"

definition apply_mapping :: "raw_data \<Rightarrow> model_pricing \<Rightarrow> token_mapping \<Rightarrow> cost_acc \<Rightarrow> cost_acc" where
  "apply_mapping raw pricing m acc =
     (let n = extractInt raw (tm_rawDataKey m)
      in if n = 0 then acc
         else
           let acc = acc\<lparr>ca_mapped := tm_rawDataKey m # ca_mapped acc\<rparr>
           in case pricingField (tm_field m) pricing of
               None \<Rightarrow> acc
             | Some rate \<Rightarrow>
                 if tm_field m \<in> set (ca_applied acc) then acc
                 else
                   let acc = acc\<lparr>ca_applied := tm_field m # ca_applied acc\<rparr>;
                       cost = mapping_cost pricing m n rate
                   in (case tm_side m of
                         sideInput \<Rightarrow> acc\<lparr>ca_input := charge cost (ca_input acc)\<rparr>
                       | sideOutput \<Rightarrow> acc\<lparr>ca_output := charge cost (ca_output acc)\<rparr>))"

definition token_costs ::
  "raw_data \<Rightarrow> string \<Rightarrow> model_pricing \<Rightarrow> int \<Rightarrow> int \<Rightarrow> cost_acc" where
  "token_costs raw providerType pricing inputTokens outputTokens =
     fold (apply_mapping raw pricing) (tokenCostMappingsForProvider providerType)
       (base_costs pricing inputTokens outputTokens)"

text \<open>The audio units: what they add to each side, and whether any rate applied.\<close>

definition unit_cost :: "rat option \<Rightarrow> go_float option \<Rightarrow> go_float option" where
  "unit_cost rate quantity =
     (case (rate, quantity) of
        (Some r, Some q) \<Rightarrow> if float_positive q then Some (q * Fin r) else None
      | _ \<Rightarrow> None)"

definition add_cost :: "go_float option \<Rightarrow> go_float \<Rightarrow> go_float" where
  "add_cost c x = (case c of None \<Rightarrow> x | Some y \<Rightarrow> x + y)"

definition applyAudioUnitCosts ::
  "parse_float \<Rightarrow> raw_data \<Rightarrow> model_pricing \<Rightarrow> go_float \<times> go_float \<times> bool" where
  "applyAudioUnitCosts parse raw pricing =
     (let chars = unit_cost (mp_PerCharacterInput pricing) (Some (Fin (of_int (extractInt raw ''input_characters''))));
          seconds = unit_cost (mp_PerSecondInput pricing) (extractFloat parse raw ''audio_seconds'');
          output = unit_cost (mp_PerSecondOutput pricing) (extractFloat parse raw ''audio_output_seconds'')
      in (add_cost seconds (add_cost chars (Fin 0)), add_cost output (Fin 0),
          chars \<noteq> None \<or> seconds \<noteq> None \<or> output \<noteq> None))"

definition format_caveat :: "parse_float \<Rightarrow> raw_data \<Rightarrow> model_pricing \<Rightarrow> string list" where
  "format_caveat parse raw pricing =
     (if mp_PerSecondOutput pricing \<noteq> None \<and> extractFloat parse raw ''audio_output_seconds'' = None
      then (case map_of raw ''audio_output_format'' of
              Some (RawString fmt) \<Rightarrow>
                if fmt \<noteq> [] then [''audio output duration unmeasured for format: '' @ fmt] else []
            | _ \<Rightarrow> [])
      else [])"

definition unmapped_caveats :: "raw_data \<Rightarrow> string list \<Rightarrow> string list" where
  "unmapped_caveats raw mapped =
     map (\<lambda>key. ''unmapped token field: '' @ key)
       (filter (\<lambda>key. key \<notin> set mapped \<and> key \<notin> set informationalFields \<and> isTokenField key
                      \<and> extractInt raw key > 0) (map fst raw))"

fun join_caveats :: "string list \<Rightarrow> string" where
  "join_caveats [] = []"
| "join_caveats [c] = c"
| "join_caveats (c # cs) = c @ ''; '' @ join_caveats cs"

definition add_side :: "go_float \<Rightarrow> go_float option \<Rightarrow> go_float option" where
  "add_side x side = (if float_positive x then Some (add_cost side (Fin 0) + x) else side)"

definition CalculateGranularCost ::
  "parse_float \<Rightarrow> int \<Rightarrow> int \<Rightarrow> raw_data \<Rightarrow> string \<Rightarrow> model_pricing option \<Rightarrow> cost_result" where
  "CalculateGranularCost parse inputTokens outputTokens raw providerType pricing0 =
     (case pricing0 of
        None \<Rightarrow> no_cost
      | Some pricing0 \<Rightarrow>
          let pricing = pricingForTokenCount pricing0 inputTokens;
              acc = token_costs raw providerType pricing inputTokens outputTokens;
              (inAudio, outAudio, audio) = applyAudioUnitCosts parse raw pricing;
              input = map_option Fin (ca_input acc);
              output = map_option Fin (ca_output acc);
              input = (if audio then add_side inAudio input else input);
              output = (if audio then add_side outAudio output else output);
              mapped = (if audio then [''input_characters'', ''audio_seconds'', ''audio_output_seconds''] else [])
                         @ ca_mapped acc;
              caveats = format_caveat parse raw pricing @ unmapped_caveats raw mapped;
              output = (case mp_PerRequest pricing of
                          None \<Rightarrow> output | Some fee \<Rightarrow> Some (add_cost output (Fin 0) + Fin fee))
          in \<lparr>cost_Input = input, cost_Output = output,
              cost_Total = (if input \<noteq> None \<or> output \<noteq> None
                            then Some (add_cost input (Fin 0) + add_cost output (Fin 0)) else None),
              cost_Caveat = join_caveats (sort caveats),
              cost_Source = (if input \<noteq> None \<or> output \<noteq> None then CostSourceModelPricing else [])\<rparr>)"

section \<open>Costs the provider reports\<close>

definition equal_fold_lower :: "string \<Rightarrow> string \<Rightarrow> bool" where
  \<comment> \<open>\<open>strings.EqualFold\<close> with a lower-case pattern that has no s and no k\<close>
  "equal_fold_lower s pattern \<longleftrightarrow> map lower_byte s = pattern"

definition isOpenRouterProvider :: "string \<Rightarrow> bool" where
  "isOpenRouterProvider providerType = equal_fold_lower (go_trim providerType) ''openrouter''"

definition isXAIProvider :: "string \<Rightarrow> bool" where
  "isXAIProvider providerType = equal_fold_lower (go_trim providerType) ''xai''"

fun firstNestedFloat :: "parse_float \<Rightarrow> raw_data \<Rightarrow> string list \<Rightarrow> go_float option" where
  "firstNestedFloat parse data [] = None"
| "firstNestedFloat parse data (key # keys) =
     (case extractFloat parse data key of
        Some x \<Rightarrow> Some x | None \<Rightarrow> firstNestedFloat parse data keys)"

definition costsNearlyEqual :: "rat \<Rightarrow> rat \<Rightarrow> bool" where
  "costsNearlyEqual a b \<longleftrightarrow> \<bar>a - b\<bar> \<le> max (1 / 10 ^ 12) (\<bar>b\<bar> / 10 ^ 6)"

definition openRouterCreditCostSplit :: "parse_float \<Rightarrow> raw_data \<Rightarrow> rat \<Rightarrow> (rat \<times> rat) option" where
  "openRouterCreditCostSplit parse raw amount =
     (case map_of raw ''cost_details'' of
        Some (RawMap details) \<Rightarrow>
          (case (firstNestedFloat parse details
                   [''upstream_inference_prompt_cost'', ''upstream_inference_input_cost''],
                 firstNestedFloat parse details
                   [''upstream_inference_completions_cost'', ''upstream_inference_completion_cost'',
                    ''upstream_inference_output_cost'']) of
             (Some (Fin input), Some (Fin output)) \<Rightarrow>
               if input < 0 \<or> output < 0 then None
               else if \<not> costsNearlyEqual (input + output) amount then None
               else Some (input, output)
           | _ \<Rightarrow> None)
      | _ \<Rightarrow> None)"

definition openRouterCreditCost :: "parse_float \<Rightarrow> raw_data \<Rightarrow> string \<Rightarrow> cost_result option" where
  "openRouterCreditCost parse raw providerType =
     (if \<not> isOpenRouterProvider providerType then None
      else case extractFloat parse raw ''cost'' of
          Some (Fin amount) \<Rightarrow>
            if amount < 0 then None
            else Some (no_cost\<lparr>cost_Total := Some (Fin amount), cost_Source := CostSourceOpenRouterCredits,
                   cost_Input := map_option (\<lambda>p. Fin (fst p)) (openRouterCreditCostSplit parse raw amount),
                   cost_Output := map_option (\<lambda>p. Fin (snd p)) (openRouterCreditCostSplit parse raw amount)\<rparr>)
        | _ \<Rightarrow> None)"

definition xaiTicksCost :: "parse_float \<Rightarrow> raw_data \<Rightarrow> string \<Rightarrow> cost_result option" where
  "xaiTicksCost parse raw providerType =
     (if \<not> isXAIProvider providerType then None
      else case extractFloat parse raw ''cost_in_usd_ticks'' of
          Some (Fin ticks) \<Rightarrow>
            if ticks < 0 then None
            else Some (no_cost\<lparr>cost_Total := Some (Fin (ticks / 10 ^ 10)), cost_Source := CostSourceXAITicks\<rparr>)
        | _ \<Rightarrow> None)"

definition CalculateUsageCost ::
  "parse_float \<Rightarrow> int \<Rightarrow> int \<Rightarrow> raw_data \<Rightarrow> string \<Rightarrow> model_pricing option \<Rightarrow> cost_result" where
  "CalculateUsageCost parse inputTokens outputTokens raw providerType pricing =
     (case openRouterCreditCost parse raw providerType of
        Some result \<Rightarrow> result
      | None \<Rightarrow>
          (case xaiTicksCost parse raw providerType of
             Some result \<Rightarrow> result
           | None \<Rightarrow> CalculateGranularCost parse inputTokens outputTokens raw providerType pricing))"

section \<open>The price of an endpoint\<close>

definition batch_tier :: "model_pricing \<Rightarrow> pricing_tier \<Rightarrow> pricing_tier" where
  "batch_tier pricing tier =
     tier\<lparr>pt_InputPerMtok := (if mp_BatchInputPerMtok pricing \<noteq> None then mp_BatchInputPerMtok pricing
                             else pt_InputPerMtok tier),
          pt_OutputPerMtok := (if mp_BatchOutputPerMtok pricing \<noteq> None then mp_BatchOutputPerMtok pricing
                               else pt_OutputPerMtok tier)\<rparr>"

definition pricingForEndpoint :: "model_pricing option \<Rightarrow> string \<Rightarrow> model_pricing option" where
  "pricingForEndpoint pricing ep =
     (case pricing of
        None \<Rightarrow> None
      | Some p \<Rightarrow>
          if ep \<noteq> ''/v1/batches'' \<and> \<not> has_prefix ep ''/v1/batches/'' then Some p
          else
            let usesInput = mp_BatchInputPerMtok p \<noteq> None; usesOutput = mp_BatchOutputPerMtok p \<noteq> None
            in Some (p\<lparr>mp_InputPerMtok := or_rate (mp_BatchInputPerMtok p) (mp_InputPerMtok p),
                       mp_OutputPerMtok := or_rate (mp_BatchOutputPerMtok p) (mp_OutputPerMtok p),
                       mp_Tiers := (if usesInput \<and> usesOutput then []
                                    else if usesInput \<or> usesOutput then map (batch_tier p) (mp_Tiers p)
                                    else mp_Tiers p)\<rparr>))"

section \<open>Savings of request rewriting\<close>

fun minus_float :: "go_float \<Rightarrow> go_float \<Rightarrow> go_float" where
  "minus_float x (Fin b) = x + Fin (- b)"
| "minus_float x PosInf = x + NegInf"
| "minus_float x NegInf = x + PosInf"
| "minus_float x NaN = NaN"

definition rewriteCostSaved ::
  "parse_float \<Rightarrow> int \<Rightarrow> int \<Rightarrow> raw_data \<Rightarrow> string \<Rightarrow> model_pricing option \<Rightarrow> int \<Rightarrow> go_float option" where
  "rewriteCostSaved parse inputTokens outputTokens raw provider effectivePricing tokensSaved =
     (if tokensSaved \<le> 0 \<or> effectivePricing = None then None
      else
        case (cost_Input (CalculateGranularCost parse (inputTokens + tokensSaved) outputTokens raw
                provider effectivePricing),
              cost_Input (CalculateGranularCost parse inputTokens outputTokens raw provider
                effectivePricing)) of
          (Some asSent, Some asForwarded) \<Rightarrow>
            let saved = minus_float asSent asForwarded
            in Some (if float_sign saved < 0 then Fin 0 else saved)
        | _ \<Rightarrow> None)"

end
