(* ===== verification/CostProps.thy ===== *)
theory CostProps
  imports Cost
begin

text \<open>
  What the computed price means: every token is charged once, at the rate of its kind when there is
  one and at the base rate otherwise, and the price is not negative.
\<close>

section \<open>Which mappings are charged\<close>

text \<open>The first mapping of each price field among those whose raw key has a count and whose field has
  a rate.\<close>

function first_per_field :: "token_mapping list \<Rightarrow> token_mapping list" where
  "first_per_field [] = []"
| "first_per_field (m # ms) = m # first_per_field (filter (\<lambda>x. tm_field x \<noteq> tm_field m) ms)"
  by pat_completeness auto
termination
  by (relation "measure length") (auto simp: less_Suc_eq_le)

definition rated :: "raw_data \<Rightarrow> model_pricing \<Rightarrow> token_mapping \<Rightarrow> bool" where
  "rated raw p m \<longleftrightarrow> extractInt raw (tm_rawDataKey m) \<noteq> 0 \<and> pricingField (tm_field m) p \<noteq> None"

definition charged :: "raw_data \<Rightarrow> string \<Rightarrow> model_pricing \<Rightarrow> cost_side \<Rightarrow> token_mapping list" where
  "charged raw providerType p side =
     filter (\<lambda>m. tm_side m = side)
       (first_per_field (filter (rated raw p) (tokenCostMappingsForProvider providerType)))"

abbreviation tokens_of :: "raw_data \<Rightarrow> token_mapping \<Rightarrow> rat" where
  "tokens_of raw m \<equiv> of_int (extractInt raw (tm_rawDataKey m))"

definition rate_of :: "model_pricing \<Rightarrow> token_mapping \<Rightarrow> rat" where
  "rate_of p m = (case pricingField (tm_field m) p of None \<Rightarrow> 0 | Some r \<Rightarrow> r)"

definition base_rate :: "model_pricing \<Rightarrow> cost_side \<Rightarrow> rat" where
  "base_rate p side = (case baseRateForSide p side of None \<Rightarrow> 0 | Some r \<Rightarrow> r)"

text \<open>The tokens of the base count that have a rate of their own, and what the charged mappings
  cost at their own rates.\<close>

definition own_rate_tokens :: "raw_data \<Rightarrow> token_mapping list \<Rightarrow> rat" where
  "own_rate_tokens raw ms =
     (\<Sum>m\<leftarrow>ms. if tm_includedInBase m \<and> tm_unit m = unitPerMtok then tokens_of raw m else 0)"

definition own_price :: "raw_data \<Rightarrow> model_pricing \<Rightarrow> token_mapping list \<Rightarrow> rat" where
  "own_price raw p ms =
     (\<Sum>m\<leftarrow>ms. tokens_of raw m * rate_of p m / (case tm_unit m of unitPerMtok \<Rightarrow> 1000000 | unitPerItem \<Rightarrow> 1))"

lemma set_first_per_field: "set (first_per_field ms) \<subseteq> set ms"
  by (induction ms rule: first_per_field.induct) auto



lemma charged_rated: "m \<in> set (charged raw t p side) \<Longrightarrow> rated raw p m \<and> tm_side m = side"
  using set_first_per_field by (fastforce simp: charged_def)

section \<open>The loop over the mappings\<close>

fun side_cost :: "cost_side \<Rightarrow> cost_acc \<Rightarrow> rat option" where
  "side_cost sideInput acc = ca_input acc"
| "side_cost sideOutput acc = ca_output acc"

lemma apply_mapping_skip:
  assumes "\<not> rated raw p m \<or> tm_field m \<in> set (ca_applied acc)"
  shows "side_cost side (apply_mapping raw p m acc) = side_cost side acc"
    and "ca_applied (apply_mapping raw p m acc) = ca_applied acc"
  using assms by (cases side; auto simp: apply_mapping_def rated_def Let_def split: option.split)+

lemma apply_mapping_charge:
  assumes "rated raw p m" "tm_field m \<notin> set (ca_applied acc)"
  shows "side_cost side (apply_mapping raw p m acc) =
      (if tm_side m = side
       then charge (mapping_cost p m (extractInt raw (tm_rawDataKey m)) (rate_of p m)) (side_cost side acc)
       else side_cost side acc)"
    and "ca_applied (apply_mapping raw p m acc) = tm_field m # ca_applied acc"
  using assms
  by (cases side; cases "tm_side m"; auto simp: apply_mapping_def rated_def rate_of_def Let_def)+

lemma fold_apply_mapping:
  "side_cost side (fold (apply_mapping raw p) ms acc) =
   fold (\<lambda>m. charge (mapping_cost p m (extractInt raw (tm_rawDataKey m)) (rate_of p m)))
     (filter (\<lambda>m. tm_side m = side)
       (first_per_field (filter (\<lambda>m. rated raw p m \<and> tm_field m \<notin> set (ca_applied acc)) ms)))
     (side_cost side acc)"
proof (induction ms arbitrary: acc)
  case (Cons m ms)
  show ?case
  proof (cases "rated raw p m \<and> tm_field m \<notin> set (ca_applied acc)")
    case True
    have f: "filter (\<lambda>x. rated raw p x \<and> tm_field x \<noteq> tm_field m \<and> tm_field x \<notin> set (ca_applied acc)) ms =
        filter (\<lambda>x. rated raw p x \<and> tm_field x \<notin> set (ca_applied acc) \<and> tm_field x \<noteq> tm_field m) ms"
      by (rule filter_cong) auto
    show ?thesis
      using True Cons.IH [of "apply_mapping raw p m acc"]
      by (simp add: apply_mapping_charge f)
  next
    case False
    then have drop: "filter (\<lambda>m. rated raw p m \<and> tm_field m \<notin> set (ca_applied acc)) (m # ms) =
        filter (\<lambda>m. rated raw p m \<and> tm_field m \<notin> set (ca_applied acc)) ms" by auto
    from False show ?thesis
      unfolding drop using Cons.IH [of "apply_mapping raw p m acc"]
      by (simp add: apply_mapping_skip)
  qed
qed simp

lemma fold_charge:
  "fold (\<lambda>m. charge (f m)) ms c =
   (if ms = [] then c else Some ((case c of None \<Rightarrow> 0 | Some x \<Rightarrow> x) + sum_list (map f ms)))"
  by (induction ms arbitrary: c) (auto simp: charge_def)

lemma sum_mapping_cost:
  assumes "\<forall>m\<in>set ms. tm_side m = side"
  shows "(\<Sum>m\<leftarrow>ms. mapping_cost p m (extractInt raw (tm_rawDataKey m)) (rate_of p m)) =
    own_price raw p ms - own_rate_tokens raw ms * base_rate p side / 1000000"
  using assms
proof (induction ms)
  case (Cons m ms)
  then have "mapping_cost p m (extractInt raw (tm_rawDataKey m)) (rate_of p m) =
      tokens_of raw m * rate_of p m / (case tm_unit m of unitPerMtok \<Rightarrow> 1000000 | unitPerItem \<Rightarrow> 1) -
      (if tm_includedInBase m \<and> tm_unit m = unitPerMtok then tokens_of raw m else 0) * base_rate p side / 1000000"
    by (auto simp: mapping_cost_def effective_rate_def base_rate_def field_simps
        split: cost_unit.split option.split)
  with Cons show ?case
    by (simp add: own_price_def own_rate_tokens_def field_simps)
qed (simp add: own_price_def own_rate_tokens_def)

lemma token_costs_formula:
  fixes tokens :: "cost_side \<Rightarrow> int"
  assumes "tokens = (\<lambda>side. case side of sideInput \<Rightarrow> i | sideOutput \<Rightarrow> n)"
  shows "side_cost side (token_costs raw t p i n) =
    (if baseRateForSide p side = None \<and> charged raw t p side = [] then None
     else Some ((of_int (tokens side) - own_rate_tokens raw (charged raw t p side)) * base_rate p side / 1000000
                + own_price raw p (charged raw t p side)))"
proof -
  have base: "side_cost side (base_costs p i n) =
      map_option (\<lambda>r. of_int (tokens side) * r / 1000000) (baseRateForSide p side)"
    by (cases side) (simp_all add: base_costs_def baseRateForSide_def assms)
  have "\<forall>m\<in>set (charged raw t p side). tm_side m = side" by (simp add: charged_def)
  note s = sum_mapping_cost [OF this, of p raw]
  have "side_cost side (token_costs raw t p i n) =
      fold (\<lambda>m. charge (mapping_cost p m (extractInt raw (tm_rawDataKey m)) (rate_of p m)))
        (charged raw t p side) (side_cost side (base_costs p i n))"
    by (simp add: token_costs_def fold_apply_mapping charged_def base_costs_def)
  then show ?thesis
    unfolding fold_charge base s
    by (cases "baseRateForSide p side")
      (auto simp: base_rate_def own_price_def own_rate_tokens_def field_simps)
qed

section \<open>The price of the tokens\<close>

definition without_audio_units :: "parse_float \<Rightarrow> raw_data \<Rightarrow> model_pricing \<Rightarrow> bool" where
  "without_audio_units parse raw p \<longleftrightarrow> \<not> snd (snd (applyAudioUnitCosts parse raw p))"

lemma granular_sides:
  assumes "without_audio_units parse raw (pricingForTokenCount p i)"
  shows "cost_Input (CalculateGranularCost parse i n raw t (Some p)) =
      map_option Fin (ca_input (token_costs raw t (pricingForTokenCount p i) i n))"
    and "cost_Output (CalculateGranularCost parse i n raw t (Some p)) =
      (let output = map_option Fin (ca_output (token_costs raw t (pricingForTokenCount p i) i n))
       in case mp_PerRequest (pricingForTokenCount p i) of
            None \<Rightarrow> output | Some fee \<Rightarrow> Some (add_cost output (Fin 0) + Fin fee))"
  using assms
  by (simp_all add: CalculateGranularCost_def without_audio_units_def Let_def split_beta)


definition demo_prices :: model_pricing where
  "demo_prices = \<lparr>mp_Currency = ''USD'', mp_InputPerMtok = Some 2, mp_OutputPerMtok = Some 8,
     mp_CachedInputPerMtok = Some 1, mp_CacheWritePerMtok = None, mp_ReasoningOutputPerMtok = None,
     mp_BatchInputPerMtok = None, mp_BatchOutputPerMtok = None, mp_AudioInputPerMtok = None,
     mp_AudioOutputPerMtok = None, mp_PerImage = None, mp_InputPerImage = None, mp_PerSecondInput = None,
     mp_PerSecondOutput = None, mp_PerCharacterInput = None, mp_PerRequest = None, mp_PerPage = None,
     mp_Tiers = []\<rparr>"


section \<open>The tier of a request\<close>

lemma set_limited_tiers:
  "(limit, t) \<in> set (limited_tiers tiers) \<longleftrightarrow> t \<in> set tiers \<and> tierLimitTokens t = Some limit \<and> 0 < limit"
  by (auto simp: limited_tiers_def List.map_filter_def image_iff split: option.splits if_splits)

lemma sorted_limited_tiers: "sorted (map fst (limited_tiers tiers))"
  by (simp add: limited_tiers_def)

text \<open>The tier of a request is the one with the smallest limit that covers its input tokens, or the
  one with the largest limit when none does; tiers without a positive limit do not count.\<close>

lemma selectPricingTier_spec:
  assumes "selectPricingTier tiers n = Some t"
  obtains limit where "(limit, t) \<in> set (limited_tiers tiers)"
    and "(of_int n \<le> limit \<and> (\<forall>c\<in>set (limited_tiers tiers). of_int n \<le> fst c \<longrightarrow> limit \<le> fst c)) \<or>
         (\<forall>c\<in>set (limited_tiers tiers). fst c < of_int n \<and> fst c \<le> limit)"
proof -
  let ?ls = "limited_tiers tiers"
  have ne: "?ls \<noteq> []" using assms by (auto simp: selectPricingTier_def Let_def)
  show thesis
  proof (cases "List.find (\<lambda>c. of_int n \<le> fst c) ?ls")
    case (Some c)
    then obtain k where k: "k < length ?ls" "of_int n \<le> fst (?ls ! k)" "c = ?ls ! k"
      "\<forall>j<k. \<not> of_int n \<le> fst (?ls ! j)"
      by (auto simp: find_Some_iff)
    have "fst c \<le> fst d" if d: "d \<in> set ?ls" "of_int n \<le> fst d" for d
    proof -
      obtain j where j: "j < length ?ls" "?ls ! j = d" using d(1) unfolding in_set_conv_nth by blast
      then have "k \<le> j" using k(4) d(2) by (meson not_le)
      then show ?thesis
        using sorted_limited_tiers [of tiers] j k(3) by (auto simp: sorted_iff_nth_mono)
    qed
    moreover have "t = snd c" using assms Some ne by (simp add: selectPricingTier_def Let_def)
    ultimately show thesis
      using k by (intro that [of "fst c"]) auto
  next
    case None
    then have below: "\<forall>c\<in>set ?ls. fst c < of_int n" by (auto simp: find_None_iff not_le)
    have "fst c \<le> fst (List.last ?ls)" if c: "c \<in> set ?ls" for c
    proof -
      obtain j where "j < length ?ls" "?ls ! j = c" using c unfolding in_set_conv_nth by blast
      then show ?thesis
        using sorted_limited_tiers [of tiers] ne by (auto simp: sorted_iff_nth_mono last_conv_nth)
    qed
    moreover have "t = snd (List.last ?ls)" using assms None ne by (simp add: selectPricingTier_def Let_def)
    ultimately show thesis
      using below ne by (intro that [of "fst (List.last ?ls)"]) auto
  qed
qed

section \<open>Prices are not negative\<close>

definition not_negative :: "go_float \<Rightarrow> bool" where
  "not_negative x = (case x of Fin a \<Rightarrow> 0 \<le> a | PosInf \<Rightarrow> True | NegInf \<Rightarrow> False | NaN \<Rightarrow> False)"




lemma not_negative_zero [simp]: "not_negative (Fin 0)"
  by (simp add: not_negative_def)







text \<open>The second hypothesis on the counts is needed: a provider that reports more cached tokens than
  input tokens gets a negative price.\<close>

lemma excess_cached_tokens_negative:
  "cost_Input (CalculateGranularCost (\<lambda>s. None) 10 0 [(''cached_tokens'', RawInt 30)] ''openai'' (Some demo_prices)) =
   Some (Fin (- 1 / 100000))"
  by code_simp


text \<open>Without tiers, what rewriting saved is the price of the removed tokens at the base rate.\<close>

lemma rewrite_saving_untiered:
  assumes "0 < saved" "mp_Tiers p = []" "mp_InputPerMtok p = Some r" "0 \<le> r"
    and "without_audio_units parse raw p"
  shows "rewriteCostSaved parse i n raw t (Some p) saved = Some (Fin (of_int saved * r / 1000000))"
proof -
  have q: "pricingForTokenCount p k = p" for k using assms(2) by (simp add: pricingForTokenCount_def)
  have "cost_Input (CalculateGranularCost parse k n raw t (Some p)) =
      Some (Fin ((of_int k - own_rate_tokens raw (charged raw t p sideInput)) * r / 1000000
                 + own_price raw p (charged raw t p sideInput)))" for k
    using granular_sides(1) [of parse raw p k n t] token_costs_formula [OF refl, of sideInput raw t p k n] assms(3,5)
    by (simp add: q base_rate_def baseRateForSide_def)
  moreover have "0 \<le> r * rat_of_int saved" using assms(1,4) by simp
  ultimately show ?thesis
    using assms(1) by (simp add: rewriteCostSaved_def Let_def field_simps not_less [symmetric])
qed

end
