(* ===== verification/AudioDuration.thy ===== *)
theory AudioDuration
  imports Prelude
begin

unbundle bit_operations_syntax

text \<open>
  The duration of synthesized speech: \<open>internal/usage/audio_duration.go\<close>.

  A byte is an \<open>8 word\<close>. A loop over an offset into the data is a recursion over the data from that
  offset on (the frames of an mp3 stream) or over the offset itself (the chunks of a WAV container).
  Seconds are exact rationals.
\<close>

type_synonym byte = "8 word"

definition bytes :: "string \<Rightarrow> byte list" where
  "bytes s = map of_char s"

definition pcmBytesPerSecond :: nat where
  "pcmBytesPerSecond = 24000 * 2"

section \<open>The name of the codec\<close>

definition normalizeAudioFormat :: "string \<Rightarrow> string" where
  "normalizeAudioFormat format =
     (let f = go_to_lower (go_trim format)
      in if f = [] then []
         else let f = go_trim (hd (split_on (CHR '';'') f))
              in if f \<in> {''audio/wav'', ''audio/x-wav'', ''audio/wave''} then ''wav''
                 else if f \<in> {''audio/mpeg'', ''audio/mp3''} then ''mp3''
                 else if f \<in> {''audio/opus'', ''audio/ogg''} then ''opus''
                 else if f = ''audio/aac'' then ''aac''
                 else if f \<in> {''audio/flac'', ''audio/x-flac''} then ''flac''
                 else if f \<in> {''audio/pcm'', ''audio/l16'', ''audio/basic''} then ''pcm''
                 else if has_prefix f ''audio/'' then drop 6 f else f)"

section \<open>MPEG frames\<close>

definition mp3SamplesPerFrame :: "nat \<Rightarrow> nat" where
  "mp3SamplesPerFrame grp = [1152, 576] ! grp"

definition mp3BitrateKbps :: "nat \<Rightarrow> nat \<Rightarrow> nat" where
  "mp3BitrateKbps grp i =
     [[0, 32, 40, 48, 56, 64, 80, 96, 112, 128, 160, 192, 224, 256, 320],
      [0, 8, 16, 24, 32, 40, 48, 56, 64, 80, 96, 112, 128, 144, 160]] ! grp ! i"

definition mp3SampleRates :: "byte \<Rightarrow> nat list option" where
  "mp3SampleRates version =
     (if version = 3 then Some [44100, 48000, 32000]
      else if version = 2 then Some [22050, 24000, 16000]
      else if version = 0 then Some [11025, 12000, 8000]
      else None)"

text \<open>The length of a frame in bytes and in seconds, from its header.\<close>

definition parseMP3FrameHeader :: "byte list \<Rightarrow> (nat \<times> rat) option" where
  "parseMP3FrameHeader buf =
     (if length buf < 4 \<or> buf ! 0 \<noteq> 0xFF \<or> buf ! 1 AND 0xE0 \<noteq> 0xE0 then None
      else
        let version = drop_bit 3 (buf ! 1) AND 0x3;
            layer = drop_bit 1 (buf ! 1) AND 0x3;
            bitrateIdx = drop_bit 4 (buf ! 2) AND 0xF;
            sampleRateIdx = drop_bit 2 (buf ! 2) AND 0x3;
            padding = unat (drop_bit 1 (buf ! 2) AND 0x1)
        in case mp3SampleRates version of
             None \<Rightarrow> None
           | Some rates \<Rightarrow>
               if layer \<noteq> 1 \<or> bitrateIdx = 0 \<or> bitrateIdx = 0xF \<or> sampleRateIdx = 3 then None
               else
                 let grp = (if version \<noteq> 3 then 1 else 0);
                     bitrate = mp3BitrateKbps grp (unat bitrateIdx) * 1000;
                     sampleRate = rates ! unat sampleRateIdx;
                     samples = mp3SamplesPerFrame grp;
                     frameSize = samples div 8 * bitrate div sampleRate + padding
                 in if frameSize \<le> 4 then None
                    else Some (frameSize, of_nat samples / of_nat sampleRate))"

definition skipID3v2 :: "byte list \<Rightarrow> nat" where
  "skipID3v2 data =
     (if length data < 10 \<or> take 3 data \<noteq> bytes ''ID3'' then 0
      else
        let size = unat (data ! 6 AND 0x7F) * 2 ^ 21 + unat (data ! 7 AND 0x7F) * 2 ^ 14
                   + unat (data ! 8 AND 0x7F) * 2 ^ 7 + unat (data ! 9 AND 0x7F)
        in min (10 + size) (length data))"

lemma parseMP3FrameHeader_size: "parseMP3FrameHeader buf = Some (n, s) \<Longrightarrow> 4 < n"
  by (auto simp: parseMP3FrameHeader_def Let_def split: if_splits option.splits)

text \<open>The seconds and the number of frames found so far, over the data from the current offset.\<close>

function mp3_frames :: "byte list \<Rightarrow> rat \<Rightarrow> nat \<Rightarrow> rat \<times> nat" where
  "mp3_frames data seconds frames =
     (if length data < 4 then (seconds, frames)
      else case parseMP3FrameHeader data of
             None \<Rightarrow> if frames > 0 then (seconds, frames) else mp3_frames (drop 1 data) seconds frames
           | Some (frameSize, frameSeconds) \<Rightarrow>
               if length data < frameSize then (seconds, frames)
               else mp3_frames (drop frameSize data) (seconds + frameSeconds) (frames + 1))"
  by pat_completeness auto
termination
  by (relation "measure (\<lambda>(data, _, _). length data)") (auto dest!: parseMP3FrameHeader_size)

declare mp3_frames.simps [simp del]

definition mp3DurationSeconds :: "byte list \<Rightarrow> rat option" where
  "mp3DurationSeconds data =
     (case mp3_frames (drop (skipID3v2 data) data) 0 0 of
        (seconds, frames) \<Rightarrow> if frames > 0 then Some seconds else None)"

section \<open>WAV containers\<close>

definition le_uint32 :: "byte list \<Rightarrow> nat" where
  "le_uint32 b = unat (b ! 0) + 2 ^ 8 * unat (b ! 1) + 2 ^ 16 * unat (b ! 2) + 2 ^ 24 * unat (b ! 3)"

text \<open>The byte rate and the data size, once found.\<close>

function wav_walk :: "byte list \<Rightarrow> nat \<Rightarrow> nat option \<Rightarrow> nat option \<Rightarrow> nat option \<times> nat option" where
  "wav_walk data pos byteRate dataSize =
     (if length data < pos + 8 then (byteRate, dataSize)
      else
        let name = take 4 (drop pos data);
            declared = le_uint32 (take 4 (drop (pos + 4) data));
            body = pos + 8;
            remaining = length data - body;
            byteRate = (if name = bytes ''fmt '' \<and> body + 12 \<le> length data
                        then Some (le_uint32 (take 4 (drop (body + 8) data))) else byteRate);
            size = (if name = bytes ''data'' \<and> (declared = 0 \<or> remaining < declared)
                    then remaining else declared);
            dataSize = (if name = bytes ''data'' then Some size else dataSize)
        in if byteRate \<noteq> None \<and> dataSize \<noteq> None then (byteRate, dataSize)
           else wav_walk data (body + size + size mod 2) byteRate dataSize)"
  by pat_completeness auto
termination
  by (relation "measure (\<lambda>(data, pos, _, _). length data - pos)") auto

declare wav_walk.simps [simp del]

definition wavDurationSeconds :: "byte list \<Rightarrow> rat option" where
  "wavDurationSeconds data =
     (if length data < 12 \<or> take 4 data \<noteq> bytes ''RIFF'' \<or> take 4 (drop 8 data) \<noteq> bytes ''WAVE'' then None
      else case wav_walk data 12 None None of
             (Some byteRate, Some dataSize) \<Rightarrow>
               if byteRate = 0 \<or> dataSize = 0 then None else Some (of_nat dataSize / of_nat byteRate)
           | _ \<Rightarrow> None)"

definition measureSpeechDurationSeconds :: "byte list \<Rightarrow> string \<Rightarrow> rat option" where
  "measureSpeechDurationSeconds data format =
     (case wavDurationSeconds data of
        Some seconds \<Rightarrow> Some seconds
      | None \<Rightarrow>
          if normalizeAudioFormat format = ''pcm'' then
            (if data \<noteq> [] then Some (of_nat (length data) / of_nat pcmBytesPerSecond) else None)
          else if normalizeAudioFormat format = ''mp3'' then mp3DurationSeconds data
          else None)"

section \<open>A stream of frames\<close>

definition is_frame :: "byte list \<Rightarrow> bool" where
  "is_frame f \<longleftrightarrow> (case parseMP3FrameHeader f of None \<Rightarrow> False | Some (n, _) \<Rightarrow> n = length f)"

definition frame_seconds :: "byte list \<Rightarrow> rat" where
  "frame_seconds f = (case parseMP3FrameHeader f of None \<Rightarrow> 0 | Some (_, s) \<Rightarrow> s)"

lemma parse_header_append: "4 \<le> length f \<Longrightarrow> parseMP3FrameHeader (f @ t) = parseMP3FrameHeader f"
proof -
  assume l: "4 \<le> length f"
  then have n: "(f @ t) ! k = f ! k" if "k < 3" for k
    using that by (simp add: nth_append)
  from l have "\<not> length (f @ t) < 4" "\<not> length f < 4" by simp_all
  then show ?thesis by (simp add: parseMP3FrameHeader_def n)
qed

lemma is_frame_parse:
  assumes "is_frame f"
  shows "parseMP3FrameHeader (f @ t) = Some (length f, frame_seconds f) \<and> 4 < length f"
proof -
  obtain s where f: "parseMP3FrameHeader f = Some (length f, s)"
    using assms by (auto simp: is_frame_def split: option.splits)
  with parseMP3FrameHeader_size have "4 < length f" by blast
  with f show ?thesis by (simp add: frame_seconds_def parse_header_append)
qed

lemma mp3_frames_concat:
  "\<forall>f\<in>set fs. is_frame f \<Longrightarrow>
   mp3_frames (concat fs @ t) seconds n = mp3_frames t (seconds + sum_list (map frame_seconds fs)) (n + length fs)"
proof (induction fs arbitrary: seconds n)
  case (Cons f fs)
  then have "is_frame f" by simp
  from is_frame_parse [OF this, of "concat fs @ t"] Cons show ?case
    by (subst mp3_frames.simps) (simp add: add.assoc)
qed simp

text \<open>Data in which no frame starts, and data that ends before the frame at its start does.\<close>

definition no_frame :: "byte list \<Rightarrow> bool" where
  "no_frame t \<longleftrightarrow> (case parseMP3FrameHeader t of None \<Rightarrow> True | Some (n, _) \<Rightarrow> length t < n)"

lemma mp3_frames_stop: "no_frame t \<Longrightarrow> n > 0 \<Longrightarrow> mp3_frames t seconds n = (seconds, n)"
  by (subst mp3_frames.simps) (auto simp: no_frame_def split: option.splits)

lemma mp3_frames_skip:
  "\<forall>k<length j. parseMP3FrameHeader (drop k j @ t) = None \<Longrightarrow> 4 \<le> length t \<Longrightarrow>
   mp3_frames (j @ t) seconds 0 = mp3_frames t seconds 0"
proof (induction j)
  case (Cons b j)
  have "\<forall>k<length j. parseMP3FrameHeader (drop k j @ t) = None"
    using Cons.prems(1) by (metis Suc_less_eq drop_Suc_Cons length_Cons)
  moreover have "parseMP3FrameHeader (b # j @ t) = None"
    using Cons.prems(1) by (metis append_Cons drop0 length_Cons zero_less_Suc)
  ultimately show ?case
    using Cons by (subst mp3_frames.simps) simp
qed simp

text \<open>A tag: the marker, two version bytes, flags, the four digits of its size in base 128, the body.\<close>

definition id3_tag :: "byte list \<Rightarrow> byte list \<Rightarrow> byte list" where
  "id3_tag head body =
     bytes ''ID3'' @ head @
     map (\<lambda>k. word_of_nat (length body div 2 ^ (7 * k) mod 128)) [3, 2, 1, 0] @ body"

lemma unat_digit: "m < 128 \<Longrightarrow> unat ((word_of_nat m :: byte) AND 0x7F) = m"
proof -
  assume m: "m < 128"
  have "(word_of_nat m :: byte) AND 0x7F = take_bit 7 (word_of_nat m)"
    by (simp add: take_bit_eq_mask mask_eq_exp_minus_1)
  then have "unat ((word_of_nat m :: byte) AND 0x7F) = take_bit 7 (m mod 256)"
    by (simp add: unsigned_take_bit_eq unat_of_nat)
  with m show ?thesis by (simp add: take_bit_eq_mod)
qed

lemma base128:
  assumes "n < 2 ^ 28"
  shows "n div 2 ^ 21 mod 128 * 2 ^ 21 + n div 2 ^ 14 mod 128 * 2 ^ 14 + n div 2 ^ 7 mod 128 * 2 ^ 7
    + n mod 128 = (n :: nat)"
proof -
  define a where "a = n div 128"
  define b where "b = a div 128"
  define c where "c = b div 128"
  have "n = a * 128 + n mod 128" "a = b * 128 + a mod 128" "b = c * 128 + b mod 128"
    by (simp_all add: a_def b_def c_def)
  moreover have "c < 128" using assms by (simp add: a_def b_def c_def div_less_iff_less_mult)
  moreover have "n div 2 ^ 21 = c" "n div 2 ^ 14 = b" "n div 2 ^ 7 = a"
    by (simp_all add: a_def b_def c_def div_mult2_eq [symmetric])
  ultimately show ?thesis by (simp add: algebra_simps)
qed

lemma skip_id3_tag:
  assumes "length head = 3" "length body < 2 ^ 28"
  shows "skipID3v2 (id3_tag head body @ t) = length (id3_tag head body)"
proof -
  have "\<exists>a b c. head = [a, b, c]" using assms(1) by (auto simp: numeral_3_eq_3 length_Suc_conv)
  then obtain a b c where h: "head = [a, b, c]" by blast
  have "(id3_tag head body @ t) ! 6 = word_of_nat (length body div 2 ^ 21 mod 128)"
    "(id3_tag head body @ t) ! 7 = word_of_nat (length body div 2 ^ 14 mod 128)"
    "(id3_tag head body @ t) ! 8 = word_of_nat (length body div 2 ^ 7 mod 128)"
    "(id3_tag head body @ t) ! 9 = word_of_nat (length body mod 128)"
    by (simp_all add: id3_tag_def h bytes_def)
  then have "unat ((id3_tag head body @ t) ! 6 AND 0x7F) * 2 ^ 21 + unat ((id3_tag head body @ t) ! 7 AND 0x7F) * 2 ^ 14
      + unat ((id3_tag head body @ t) ! 8 AND 0x7F) * 2 ^ 7 + unat ((id3_tag head body @ t) ! 9 AND 0x7F) = length body"
    using base128 [OF assms(2)] by (simp only: unat_digit mod_less_divisor zero_less_numeral)
  then show ?thesis
    by (simp add: skipID3v2_def Let_def) (simp add: id3_tag_def h bytes_def)
qed

lemma mp3_frames_of_stream:
  assumes "\<forall>f\<in>set fs. is_frame f" "fs \<noteq> []" "no_frame t"
    and "\<forall>k<length j. parseMP3FrameHeader (drop k j @ concat fs @ t) = None"
  shows "mp3_frames (j @ concat fs @ t) 0 0 = (sum_list (map frame_seconds fs), length fs)"
proof -
  have "4 \<le> length (concat fs @ t)"
    using assms(1,2) is_frame_parse by (cases fs) (auto intro: trans_le_add1 less_imp_le)
  from mp3_frames_skip [OF assms(4) this] mp3_frames_concat [OF assms(1), of t 0 0]
       mp3_frames_stop [OF assms(3)] assms(2)
  show ?thesis by simp
qed

text \<open>
  The duration of an mp3 stream is the sum of the durations of its frames, whether constant or
  variable in bit rate, behind a tag, stray bytes without a frame header, and up to trailing data
  or a truncated frame.
\<close>

lemma mp3_duration_of_frames:
  assumes "\<forall>f\<in>set fs. is_frame f" "fs \<noteq> []" "no_frame t"
    and "\<forall>k<length j. parseMP3FrameHeader (drop k j @ concat fs @ t) = None"
    and "length head = 3" "length body < 2 ^ 28"
  shows "mp3DurationSeconds (id3_tag head body @ j @ concat fs @ t) = Some (sum_list (map frame_seconds fs))
    \<and> mp3DurationSeconds (concat fs @ t) = Some (sum_list (map frame_seconds fs))"
proof -
  obtain f fs' where fs: "fs = f # fs'" "is_frame f" using assms(1,2) by (cases fs) auto
  then have "4 \<le> length f" "f ! 0 = 0xFF"
    using is_frame_parse [of f "[]"] by (auto simp: parseMP3FrameHeader_def split: if_splits)
  then have "take 3 (concat fs @ t) \<noteq> bytes ''ID3''"
    using fs by (cases f) (auto simp: bytes_def)
  then have "skipID3v2 (concat fs @ t) = 0" by (simp add: skipID3v2_def)
  with mp3_frames_of_stream [OF assms(1-4)] mp3_frames_of_stream [OF assms(1-3), of "[]"]
    skip_id3_tag [OF assms(5,6), of "j @ concat fs @ t"] assms(2)
  show ?thesis by (simp add: mp3DurationSeconds_def)
qed

lemma mp3_duration_of_frames_witness:
  defines "f \<equiv> [0xFF, 0xE3, 0x18, 0] @ replicate 68 0"
  shows "mp3DurationSeconds (id3_tag [3, 0, 0] [0] @ [0] @ concat [f, f] @ [0xFF, 0xE3]) = Some (18 / 125)"
proof -
  have p: "parseMP3FrameHeader f = Some (72, 9 / 125)" unfolding f_def
    by (simp add: parseMP3FrameHeader_def mp3SampleRates_def mp3BitrateKbps_def mp3SamplesPerFrame_def)
  have "length f = 72" by (simp add: f_def)
  with p have f: "is_frame f" "frame_seconds f = 9 / 125"
    by (simp_all add: is_frame_def frame_seconds_def)
  have "no_frame [0xFF, 0xE3]" by code_simp
  moreover have "parseMP3FrameHeader ([0] @ concat [f, f] @ [0xFF, 0xE3]) = None"
    by (simp add: parseMP3FrameHeader_def)
  ultimately show ?thesis
    using mp3_duration_of_frames [of "[f, f]" "[0xFF, 0xE3]" "[0]" "[3, 0, 0]" "[0]"] f by simp
qed

section \<open>A WAV file\<close>

definition le_bytes :: "nat \<Rightarrow> byte list" where
  "le_bytes n = map (\<lambda>k. word_of_nat (n div 2 ^ (8 * k))) [0, 1, 2, 3]"

lemma length_le_bytes [simp]: "length (le_bytes n) = 4"
  by (simp add: le_bytes_def)

lemma le_uint32_le_bytes:
  assumes "n < 2 ^ 32"
  shows "le_uint32 (le_bytes n) = n"
proof -
  define a where "a = n div 256"
  define b where "b = a div 256"
  define c where "c = b div 256"
  have "n = a * 256 + n mod 256" "a = b * 256 + a mod 256" "b = c * 256 + b mod 256"
    by (simp_all add: a_def b_def c_def)
  moreover have "c < 256" using assms by (simp add: a_def b_def c_def div_less_iff_less_mult)
  moreover have "n div 2 ^ 24 = c" "n div 2 ^ 16 = b" "n div 2 ^ 8 = a"
    by (simp_all add: a_def b_def c_def div_mult2_eq [symmetric])
  ultimately show ?thesis
    by (simp add: le_uint32_def le_bytes_def unat_of_nat algebra_simps)
qed

lemma length_bytes [simp]: "length (bytes s) = length s"
  by (simp add: bytes_def)

lemma chunk_names [simp]: "bytes ''fmt '' \<noteq> bytes ''data''" "bytes ''data'' \<noteq> bytes ''fmt ''"
  by (simp_all add: bytes_def)

definition wav_chunk :: "byte list \<Rightarrow> byte list \<Rightarrow> byte list" where
  "wav_chunk name body =
     name @ le_bytes (length body) @ body @ (if odd (length body) then [0] else [])"

definition other_chunk :: "byte list \<times> byte list \<Rightarrow> bool" where
  "other_chunk c \<longleftrightarrow>
     length (fst c) = 4 \<and> fst c \<noteq> bytes ''fmt '' \<and> fst c \<noteq> bytes ''data'' \<and> length (snd c) < 2 ^ 32"

abbreviation wav_chunks :: "(byte list \<times> byte list) list \<Rightarrow> byte list" where
  "wav_chunks cs \<equiv> concat (map (\<lambda>(name, body). wav_chunk name body) cs)"

lemma length_chunk: "length name = 4 \<Longrightarrow> length (wav_chunk name body) = 8 + length body + length body mod 2"
  by (simp add: wav_chunk_def mod2_eq_if)

lemma wav_walk_other:
  assumes "other_chunk (name, body)"
  shows "wav_walk (pre @ wav_chunk name body @ suf) (length pre) rate None =
         wav_walk (pre @ wav_chunk name body @ suf) (length (pre @ wav_chunk name body)) rate None"
  using assms
  by (subst wav_walk.simps)
    (simp add: other_chunk_def length_chunk, simp add: wav_chunk_def le_uint32_le_bytes Let_def add.assoc)

lemma wav_walk_others:
  "\<forall>c\<in>set cs. other_chunk c \<Longrightarrow>
   wav_walk (pre @ wav_chunks cs @ suf) (length pre) rate None =
   wav_walk (pre @ wav_chunks cs @ suf) (length (pre @ wav_chunks cs)) rate None"
proof (induction cs arbitrary: pre)
  case (Cons c cs)
  obtain name body where c: "c = (name, body)" by (cases c)
  from Cons.prems have "other_chunk (name, body)" by (simp add: c)
  from wav_walk_other [OF this, of pre "wav_chunks cs @ suf" rate] Cons.IH [of "pre @ wav_chunk name body"] Cons.prems
  show ?case by (simp add: c)
qed simp

lemma wav_walk_fmt:
  assumes "length fmt = 8" "rate < 2 ^ 32" "length rest < 2 ^ 32 - 12"
  shows "wav_walk (pre @ wav_chunk (bytes ''fmt '') (fmt @ le_bytes rate @ rest) @ suf) (length pre) None None =
         wav_walk (pre @ wav_chunk (bytes ''fmt '') (fmt @ le_bytes rate @ rest) @ suf)
           (length (pre @ wav_chunk (bytes ''fmt '') (fmt @ le_bytes rate @ rest))) (Some rate) None"
  using assms
  by (subst wav_walk.simps)
    (simp add: length_chunk, simp add: wav_chunk_def le_uint32_le_bytes Let_def add_ac)

lemma wav_walk_data:
  assumes "declared < 2 ^ 32"
  shows "wav_walk (pre @ bytes ''data'' @ le_bytes declared @ sound) (length pre) (Some rate) None =
    (Some rate, Some (if declared = 0 \<or> length sound < declared then length sound else declared))"
  using assms by (subst wav_walk.simps) (simp add: le_uint32_le_bytes Let_def)

definition wav_file ::
  "byte list \<Rightarrow> (byte list \<times> byte list) list \<Rightarrow> byte list \<Rightarrow> nat \<Rightarrow> byte list \<Rightarrow>
   (byte list \<times> byte list) list \<Rightarrow> nat \<Rightarrow> byte list \<Rightarrow> byte list" where
  "wav_file riff_size cs fmt rate rest cs' declared sound =
     bytes ''RIFF'' @ riff_size @ bytes ''WAVE'' @ wav_chunks cs @
     wav_chunk (bytes ''fmt '') (fmt @ le_bytes rate @ rest) @ wav_chunks cs' @
     bytes ''data'' @ le_bytes declared @ sound"

text \<open>
  The duration of a WAV file is the size of its sound over the byte rate, whatever chunks stand
  before its format and its data; where the declared size is missing, or larger than the bytes that
  follow (a streaming encoder does not know it), the bytes that follow count.
\<close>

lemma wav_duration_exact:
  assumes "length riff_size = 4" "\<forall>c\<in>set (cs @ cs'). other_chunk c"
    and "length fmt = 8" "0 < rate" "rate < 2 ^ 32" "length rest < 2 ^ 32 - 12"
    and "declared < 2 ^ 32" "sound \<noteq> []"
  shows "measureSpeechDurationSeconds (wav_file riff_size cs fmt rate rest cs' declared sound) format =
    Some (of_nat (if declared = 0 \<or> length sound < declared then length sound else declared) / of_nat rate)"
proof -
  let ?file = "wav_file riff_size cs fmt rate rest cs' declared sound"
  let ?head = "bytes ''RIFF'' @ riff_size @ bytes ''WAVE''"
  let ?c = "wav_chunk (bytes ''fmt '') (fmt @ le_bytes rate @ rest)"
  have l: "length ?head = 12" using assms(1) by (simp add: bytes_def)
  have "wav_walk ?file 12 None None = wav_walk ?file (length (?head @ wav_chunks cs)) None None"
    using wav_walk_others [of cs ?head] assms(2) l by (simp add: wav_file_def)
  also have "\<dots> = wav_walk ?file (length (?head @ wav_chunks cs @ ?c)) (Some rate) None"
    using wav_walk_fmt [OF assms(3,5,6), of "?head @ wav_chunks cs"] by (simp add: wav_file_def)
  also have "\<dots> = wav_walk ?file (length (?head @ wav_chunks cs @ ?c @ wav_chunks cs')) (Some rate) None"
    using wav_walk_others [of cs' "?head @ wav_chunks cs @ ?c"] assms(2) by (simp add: wav_file_def)
  also have "\<dots> = (Some rate, Some (if declared = 0 \<or> length sound < declared then length sound else declared))"
    using wav_walk_data [OF assms(7), of "?head @ wav_chunks cs @ ?c @ wav_chunks cs'"] by (simp add: wav_file_def)
  finally have walk: "wav_walk ?file 12 None None = \<dots>" .
  have "12 \<le> length ?file" "take 4 ?file = bytes ''RIFF''" "take 4 (drop 8 ?file) = bytes ''WAVE''"
    using assms(1) by (simp_all add: wav_file_def bytes_def)
  then have "wavDurationSeconds ?file =
      Some (of_nat (if declared = 0 \<or> length sound < declared then length sound else declared) / of_nat rate)"
    using assms(4,8) by (simp add: wavDurationSeconds_def walk)
  then show ?thesis by (simp add: measureSpeechDurationSeconds_def)
qed

lemma wav_duration_exact_witness:
  "measureSpeechDurationSeconds
     (wav_file [1, 2, 3, 4] [(bytes ''LIST'', [7])] (replicate 8 0) 2 [] [] 0xFFFFFFFF [1, 2, 3]) ''wav'' =
   Some (3 / 2)"
  using wav_duration_exact [of "[1, 2, 3, 4]" "[(bytes ''LIST'', [7])]" "[]" "replicate 8 0" 2 "[]"
      "0xFFFFFFFF" "[1, 2, 3]" "''wav''"]
  by (simp add: other_chunk_def) (simp add: bytes_def)

end
