(* ===== verification/Usage.thy ===== *)
theory Usage
  imports CostProps UserPath SSEStream AudioDuration
begin

text \<open>
  Usage records: \<open>internal/usage/extractor.go\<close>, \<open>savings.go\<close>, \<open>audio.go\<close>, \<open>realtime.go\<close>,
  \<open>stream_observer.go\<close>, \<open>cache_type.go\<close>, and the records of \<open>usage.go\<close>.

  A usage record is made from the usage object of an answer, typed for a buffered answer and untyped
  for a streamed one, and priced. Its ID and time are arguments (\<open>stamp\<close>). A decoded JSON value is a
  \<open>raw_value\<close>; a nil map is empty.
\<close>

section \<open>Records\<close>

type_synonym stamp = "string \<times> go_time"

record usage_entry =
  ue_ID :: string
  ue_RequestID :: string
  ue_ProviderID :: string
  ue_Timestamp :: go_time
  ue_Model :: string
  ue_Provider :: string
  ue_ProviderName :: string
  ue_Endpoint :: string
  ue_UserPath :: string
  ue_CacheType :: string
  ue_Labels :: "string list"
  ue_InputTokens :: int
  ue_OutputTokens :: int
  ue_TotalTokens :: int
  ue_RawData :: raw_data
  ue_InputCost :: "go_float option"
  ue_OutputCost :: "go_float option"
  ue_TotalCost :: "go_float option"
  ue_CostSource :: string
  ue_CostsCalculationCaveat :: string
  ue_RewriteTokensSaved :: int
  ue_RewriteCostSaved :: "go_float option"

definition new_entry :: "stamp \<Rightarrow> string \<Rightarrow> string \<Rightarrow> string \<Rightarrow> string \<Rightarrow> usage_entry" where
  "new_entry stamp requestID model provider ep =
     \<lparr>ue_ID = fst stamp, ue_RequestID = requestID, ue_ProviderID = [], ue_Timestamp = snd stamp,
      ue_Model = model, ue_Provider = provider, ue_ProviderName = [], ue_Endpoint = ep,
      ue_UserPath = [], ue_CacheType = [], ue_Labels = [], ue_InputTokens = 0, ue_OutputTokens = 0,
      ue_TotalTokens = 0, ue_RawData = [], ue_InputCost = None, ue_OutputCost = None,
      ue_TotalCost = None, ue_CostSource = [], ue_CostsCalculationCaveat = [],
      ue_RewriteTokensSaved = 0, ue_RewriteCostSaved = None\<rparr>"

record prompt_details =
  pd_CachedTokens :: int
  pd_AudioTokens :: int
  pd_TextTokens :: int
  pd_ImageTokens :: int

record completion_details =
  cd_ReasoningTokens :: int
  cd_AudioTokens :: int
  cd_AcceptedPredictionTokens :: int
  cd_RejectedPredictionTokens :: int

record token_usage =
  tu_PromptTokens :: int
  tu_CompletionTokens :: int
  tu_TotalTokens :: int
  tu_PromptDetails :: "prompt_details option"
  tu_CompletionDetails :: "completion_details option"
  tu_RawUsage :: raw_data

section \<open>Buffered answers\<close>

definition positive :: "string \<Rightarrow> int \<Rightarrow> raw_data" where
  "positive key n = (if n > 0 then [(key, RawInt n)] else [])"

definition buildRawUsageFromDetails ::
  "prompt_details option \<Rightarrow> completion_details option \<Rightarrow> raw_data" where
  "buildRawUsageFromDetails ptd ctd =
     (case ptd of
        None \<Rightarrow> []
      | Some d \<Rightarrow>
          positive ''prompt_cached_tokens'' (pd_CachedTokens d) @
          positive ''prompt_audio_tokens'' (pd_AudioTokens d) @
          positive ''prompt_text_tokens'' (pd_TextTokens d) @
          positive ''prompt_image_tokens'' (pd_ImageTokens d)) @
     (case ctd of
        None \<Rightarrow> []
      | Some d \<Rightarrow>
          positive ''completion_reasoning_tokens'' (cd_ReasoningTokens d) @
          positive ''completion_audio_tokens'' (cd_AudioTokens d) @
          positive ''completion_accepted_prediction_tokens'' (cd_AcceptedPredictionTokens d) @
          positive ''completion_rejected_prediction_tokens'' (cd_RejectedPredictionTokens d))"

fun mergeRawUsageMaps :: "raw_data \<Rightarrow> raw_data list \<Rightarrow> raw_data" where
  "mergeRawUsageMaps base [] = base"
| "mergeRawUsageMaps base (overlay # overlays) =
     mergeRawUsageMaps
       (fold (\<lambda>(key, value) merged. if map_of merged key \<noteq> None then merged else merged @ [(key, value)])
          overlay base)
       overlays"

definition applyUsageCosts ::
  "parse_float \<Rightarrow> string \<Rightarrow> string \<Rightarrow> model_pricing option \<Rightarrow> usage_entry \<Rightarrow> usage_entry" where
  "applyUsageCosts parse provider ep pricing e =
     (let r = CalculateUsageCost parse (ue_InputTokens e) (ue_OutputTokens e) (ue_RawData e) provider
                (pricingForEndpoint pricing ep)
      in e\<lparr>ue_InputCost := cost_Input r, ue_OutputCost := cost_Output r, ue_TotalCost := cost_Total r,
           ue_CostSource := cost_Source r, ue_CostsCalculationCaveat := cost_Caveat r\<rparr>)"

definition counted :: "int \<Rightarrow> int \<Rightarrow> int \<Rightarrow> raw_data \<Rightarrow> usage_entry \<Rightarrow> usage_entry" where
  "counted i n sum_of raw e = e\<lparr>ue_InputTokens := i, ue_OutputTokens := n, ue_TotalTokens := sum_of, ue_RawData := raw\<rparr>"

definition merged_usage :: "token_usage \<Rightarrow> raw_data" where
  "merged_usage u =
     mergeRawUsageMaps (tu_RawUsage u) [buildRawUsageFromDetails (tu_PromptDetails u) (tu_CompletionDetails u)]"

text \<open>A chat answer is its ID, model and usage.\<close>

definition ExtractFromChatResponse ::
  "parse_float \<Rightarrow> stamp \<Rightarrow> (string \<times> string \<times> token_usage) option \<Rightarrow> string \<Rightarrow> string \<Rightarrow> string \<Rightarrow>
   model_pricing option \<Rightarrow> usage_entry option" where
  "ExtractFromChatResponse parse stamp resp requestID provider ep pricing =
     (case resp of
        None \<Rightarrow> None
      | Some (rid, model, u) \<Rightarrow>
          Some (applyUsageCosts parse provider ep pricing
            (counted (tu_PromptTokens u) (tu_CompletionTokens u) (tu_TotalTokens u) (merged_usage u)
              ((new_entry stamp requestID model provider ep)\<lparr>ue_ProviderID := rid\<rparr>))))"

definition ExtractFromResponsesResponse ::
  "parse_float \<Rightarrow> stamp \<Rightarrow> (string \<times> string \<times> token_usage option) option \<Rightarrow> string \<Rightarrow> string \<Rightarrow> string \<Rightarrow>
   model_pricing option \<Rightarrow> usage_entry option" where
  "ExtractFromResponsesResponse parse stamp resp requestID provider ep pricing =
     (case resp of
        None \<Rightarrow> None
      | Some (rid, model, us) \<Rightarrow>
          let e = (new_entry stamp requestID model provider ep)\<lparr>ue_ProviderID := rid\<rparr>;
              e = (case us of
                     None \<Rightarrow> e
                   | Some u \<Rightarrow> counted (tu_PromptTokens u) (tu_CompletionTokens u) (tu_TotalTokens u)
                                 (merged_usage u) e)
          in Some (applyUsageCosts parse provider ep pricing e))"

definition ExtractFromEmbeddingResponse ::
  "parse_float \<Rightarrow> stamp \<Rightarrow> (string \<times> int \<times> int) option \<Rightarrow> string \<Rightarrow> string \<Rightarrow> string \<Rightarrow>
   model_pricing option \<Rightarrow> usage_entry option" where
  \<comment> \<open>the model, the prompt tokens and the total\<close>
  "ExtractFromEmbeddingResponse parse stamp resp requestID provider ep pricing =
     (case resp of
        None \<Rightarrow> None
      | Some (model, prompt, sum_of) \<Rightarrow>
          Some (applyUsageCosts parse provider ep pricing
            (counted prompt 0 sum_of [] (new_entry stamp requestID model provider ep))))"

definition ExtractFromSSEUsage ::
  "parse_float \<Rightarrow> stamp \<Rightarrow> string \<Rightarrow> int \<Rightarrow> int \<Rightarrow> int \<Rightarrow> raw_data \<Rightarrow> string \<Rightarrow> string \<Rightarrow> string \<Rightarrow> string \<Rightarrow>
   model_pricing option \<Rightarrow> usage_entry" where
  "ExtractFromSSEUsage parse stamp providerID i n sum_of raw requestID model provider ep pricing =
     applyUsageCosts parse provider ep pricing
       (counted i n sum_of raw ((new_entry stamp requestID model provider ep)\<lparr>ue_ProviderID := providerID\<rparr>))"

section \<open>Savings of request rewriting\<close>

definition ApplyRewriteSavings ::
  "parse_float \<Rightarrow> int \<Rightarrow> model_pricing option \<Rightarrow> usage_entry \<Rightarrow> usage_entry" where
  "ApplyRewriteSavings parse tokensSaved pricing e =
     (if tokensSaved \<le> 0 then e
      else e\<lparr>ue_RewriteTokensSaved := tokensSaved,
             ue_RewriteCostSaved :=
               rewriteCostSaved parse (ue_InputTokens e) (ue_OutputTokens e) (ue_RawData e) (ue_Provider e)
                 (pricingForEndpoint pricing (ue_Endpoint e)) tokensSaved\<rparr>)"

section \<open>Audio and realtime\<close>

text \<open>For synthesized speech: the number of characters of the input, the audio and its format.\<close>

definition ExtractFromSpeechRequest ::
  "parse_float \<Rightarrow> stamp \<Rightarrow> int \<Rightarrow> byte list \<Rightarrow> string \<Rightarrow> string \<Rightarrow> string \<Rightarrow> string \<Rightarrow>
   model_pricing option \<Rightarrow> usage_entry" where
  "ExtractFromSpeechRequest parse stamp chars audio format requestID model provider pricing =
     applyUsageCosts parse provider ''/v1/audio/speech'' pricing
       ((new_entry stamp requestID model provider ''/v1/audio/speech'')\<lparr>ue_RawData :=
          positive ''input_characters'' chars @
          (if normalizeAudioFormat format \<noteq> []
           then [(''audio_output_format'', RawString (normalizeAudioFormat format))] else []) @
          (if audio \<noteq> [] then
             (case measureSpeechDurationSeconds audio format of
                None \<Rightarrow> [] | Some s \<Rightarrow> [(''audio_output_seconds'', RawFloat (Fin s))])
           else [])\<rparr>)"

record transcription_usage =
  ts_InputTokens :: int
  ts_OutputTokens :: int
  ts_TotalTokens :: int
  ts_Seconds :: rat

definition ExtractFromTranscriptionResponse ::
  "parse_float \<Rightarrow> stamp \<Rightarrow> transcription_usage option \<Rightarrow> string \<Rightarrow> string \<Rightarrow> string \<Rightarrow>
   model_pricing option \<Rightarrow> usage_entry" where
  "ExtractFromTranscriptionResponse parse stamp parsed requestID model provider pricing =
     (let e = new_entry stamp requestID model provider ''/v1/audio/transcriptions'';
          e = (case parsed of
                 None \<Rightarrow> e
               | Some u \<Rightarrow>
                   counted (ts_InputTokens u) (ts_OutputTokens u)
                     (if ts_TotalTokens u = 0 then ts_InputTokens u + ts_OutputTokens u else ts_TotalTokens u)
                     (if ts_Seconds u > 0 then [(''audio_seconds'', RawFloat (Fin (ts_Seconds u)))] else []) e)
      in applyUsageCosts parse provider ''/v1/audio/transcriptions'' pricing e)"

record realtime_details =
  rd_TextTokens :: int
  rd_AudioTokens :: int
  rd_CachedTokens :: int

record realtime_usage =
  ru_TotalTokens :: int
  ru_InputTokens :: int
  ru_OutputTokens :: int
  ru_InputTokenDetails :: realtime_details
  ru_InputTokensDetails :: realtime_details
  ru_OutputTokenDetails :: realtime_details
  ru_OutputTokensDetails :: realtime_details

definition firstNonZero :: "int \<Rightarrow> int \<Rightarrow> int" where
  "firstNonZero a b = (if a \<noteq> 0 then a else b)"

definition mergeRealtimeTokenDetails :: "realtime_details \<Rightarrow> realtime_details \<Rightarrow> realtime_details" where
  "mergeRealtimeTokenDetails a b =
     \<lparr>rd_TextTokens = firstNonZero (rd_TextTokens a) (rd_TextTokens b),
      rd_AudioTokens = firstNonZero (rd_AudioTokens a) (rd_AudioTokens b),
      rd_CachedTokens = firstNonZero (rd_CachedTokens a) (rd_CachedTokens b)\<rparr>"

text \<open>A decoded realtime event is its type and the usage of its response.\<close>

definition ExtractFromRealtimeResponseDone ::
  "parse_float \<Rightarrow> stamp \<Rightarrow> (string \<times> realtime_usage option) option \<Rightarrow> string \<Rightarrow> string \<Rightarrow> string \<Rightarrow>
   model_pricing option \<Rightarrow> usage_entry option" where
  "ExtractFromRealtimeResponseDone parse stamp event requestID model provider pricing =
     (case event of
        Some (type, Some u) \<Rightarrow>
          if type \<noteq> ''response.done'' then None
          else
            let ins = mergeRealtimeTokenDetails (ru_InputTokenDetails u) (ru_InputTokensDetails u);
                outs = mergeRealtimeTokenDetails (ru_OutputTokenDetails u) (ru_OutputTokensDetails u)
            in Some (applyUsageCosts parse provider ''/v1/realtime'' pricing
                 (counted (ru_InputTokens u) (ru_OutputTokens u)
                   (if ru_TotalTokens u = 0 then ru_InputTokens u + ru_OutputTokens u else ru_TotalTokens u)
                   (positive ''prompt_text_tokens'' (rd_TextTokens ins) @
                    positive ''prompt_audio_tokens'' (rd_AudioTokens ins) @
                    positive ''prompt_cached_tokens'' (rd_CachedTokens ins) @
                    positive ''completion_text_tokens'' (rd_TextTokens outs) @
                    positive ''completion_audio_tokens'' (rd_AudioTokens outs))
                   (new_entry stamp requestID model provider ''/v1/realtime'')))
      | _ \<Rightarrow> None)"

section \<open>Streamed answers\<close>

type_synonym pricing_resolver = "string \<Rightarrow> string \<Rightarrow> model_pricing option"

record usage_observer =
  uo_logger :: bool             \<comment> \<open>whether there is a logger\<close>
  uo_pricing :: "pricing_resolver option"
  uo_cached :: "usage_entry option"
  uo_model :: string
  uo_provider :: string
  uo_providerName :: string
  uo_requestID :: string
  uo_endpoint :: string
  uo_userPath :: string
  uo_labels :: "string list"
  uo_rewriteSaved :: int
  uo_closed :: bool

definition NewStreamUsageObserver ::
  "string \<Rightarrow> string \<Rightarrow> string \<Rightarrow> string \<Rightarrow> pricing_resolver option \<Rightarrow> string list \<Rightarrow> usage_observer" where
  "NewStreamUsageObserver model provider requestID ep pricing userPath =
     \<lparr>uo_logger = True, uo_pricing = pricing, uo_cached = None, uo_model = model,
      uo_provider = provider, uo_providerName = [], uo_requestID = requestID, uo_endpoint = ep,
      uo_userPath = (case userPath of
           [] \<Rightarrow> ''/''
         | p # _ \<Rightarrow> (case NormalizeUserPath p of
                      Inr normalized \<Rightarrow> if normalized \<noteq> [] then normalized else ''/''
                    | Inl _ \<Rightarrow> ''/'')),
      uo_labels = [], uo_rewriteSaved = 0, uo_closed = False\<rparr>"

definition SetProviderName :: "string \<Rightarrow> usage_observer \<Rightarrow> usage_observer" where
  "SetProviderName name ob = ob\<lparr>uo_providerName := go_trim name\<rparr>"

definition SetLabels :: "string list \<Rightarrow> usage_observer \<Rightarrow> usage_observer" where
  "SetLabels labels ob = ob\<lparr>uo_labels := labels\<rparr>"

definition SetRewriteTokensSaved :: "int \<Rightarrow> usage_observer \<Rightarrow> usage_observer" where
  "SetRewriteTokensSaved n ob = (if n \<le> 0 then ob else ob\<lparr>uo_rewriteSaved := n\<rparr>)"

definition WantsJSONEvent :: "string \<Rightarrow> bool" where
  "WantsJSONEvent raw = go_contains raw ([CHR 0x22] @ ''usage'' @ [CHR 0x22])"

definition numericUsageValue :: "raw_value \<Rightarrow> int option" where
  "numericUsageValue value =
     (case value of RawFloat x \<Rightarrow> Some (go_int_of_float x) | RawInt n \<Rightarrow> Some n | _ \<Rightarrow> None)"

definition usage_totals :: "string list" where
  "usage_totals = [''prompt_tokens'', ''completion_tokens'', ''total_tokens'', ''input_tokens'', ''output_tokens'',
     ''prompt_tokens_details'', ''completion_tokens_details'', ''input_tokens_details'', ''output_tokens_details'']"

definition copy_extended :: "parse_float \<Rightarrow> string \<times> raw_value \<Rightarrow> raw_data \<Rightarrow> raw_data" where
  "copy_extended parse kv raw =
     (case kv of (key, value) \<Rightarrow>
        if key \<in> set usage_totals then raw
        else if key = ''cost'' \<or> key = ''cost_in_usd_ticks'' then
          (case numericFloat parse value of
             Some x \<Rightarrow> if x \<noteq> NaN \<and> float_sign x \<ge> 0 then AList.update key (RawFloat x) raw else raw
           | None \<Rightarrow> raw)
        else if key = ''cost_details'' then
          (case value of RawMap details \<Rightarrow> AList.update key (RawMap details) raw | _ \<Rightarrow> raw)
        else if key = ''is_byok'' then
          (case value of RawBool b \<Rightarrow> AList.update key (RawBool b) raw | _ \<Rightarrow> raw)
        else case numericUsageValue value of
            Some n \<Rightarrow> if n > 0 then AList.update key (RawInt n) raw else raw
          | None \<Rightarrow> raw)"

definition copyExtendedUsageFields :: "parse_float \<Rightarrow> raw_data \<Rightarrow> raw_data \<Rightarrow> raw_data" where
  "copyExtendedUsageFields parse usage raw = fold (copy_extended parse) usage raw"

definition copyUsageDetailsFields :: "raw_value option \<Rightarrow> string \<Rightarrow> raw_data \<Rightarrow> raw_data" where
  "copyUsageDetailsFields detailsValue prefix raw =
     (case detailsValue of
        Some (RawMap details) \<Rightarrow>
          fold (\<lambda>(key, value) raw.
            case numericUsageValue value of
              Some n \<Rightarrow>
                if n \<le> 0 then raw
                else if key = ''cache_read_input_tokens'' \<or> key = ''cache_creation_input_tokens''
                then AList.update key (RawInt n) raw
                else AList.update (prefix @ key) (RawInt n) raw
            | None \<Rightarrow> raw) details raw
      | _ \<Rightarrow> raw)"

definition string_field :: "raw_data \<Rightarrow> string \<Rightarrow> string" where
  "string_field m key = (case map_of m key of Some (RawString s) \<Rightarrow> s | _ \<Rightarrow> [])"

definition float_field :: "raw_data \<Rightarrow> string \<Rightarrow> int option" where
  "float_field m key = (case map_of m key of Some (RawFloat x) \<Rightarrow> Some (go_int_of_float x) | _ \<Rightarrow> None)"

definition later_of :: "int option \<Rightarrow> int option \<Rightarrow> int" where
  "later_of a b = (case b of Some n \<Rightarrow> n | None \<Rightarrow> (case a of Some n \<Rightarrow> n | None \<Rightarrow> 0))"

text \<open>The usage object of an event, with the answer's ID and model.\<close>

definition event_usage :: "string \<Rightarrow> raw_data \<Rightarrow> (string \<times> string \<times> raw_data) option" where
  "event_usage default_model chunk =
     (let pid = string_field chunk ''id'';
          model = (if string_field chunk ''model'' \<noteq> [] then string_field chunk ''model'' else default_model);
          usage_map = (\<lambda>v. case v of Some (RawMap u) \<Rightarrow> Some u | _ \<Rightarrow> None)
      in case map_of chunk ''usage'' of
           Some v \<Rightarrow> map_option (\<lambda>u. (pid, model, u)) (usage_map (Some v))
         | None \<Rightarrow>
             if string_field chunk ''type'' \<in> {''response.completed'', ''response.done''} then
               (case map_of chunk ''response'' of
                  Some (RawMap response) \<Rightarrow>
                    let pid = (if string_field response ''id'' \<noteq> [] then string_field response ''id'' else pid);
                        model = (if string_field response ''model'' \<noteq> [] then string_field response ''model'' else model)
                    in map_option (\<lambda>u. (pid, model, u)) (usage_map (map_of response ''usage''))
                | _ \<Rightarrow> None)
             else None)"

definition stream_raw_data :: "parse_float \<Rightarrow> raw_data \<Rightarrow> raw_data" where
  "stream_raw_data parse u =
     copyUsageDetailsFields (map_of u ''output_tokens_details'') ''completion_''
       (copyUsageDetailsFields (map_of u ''completion_tokens_details'') ''completion_''
         (copyUsageDetailsFields (map_of u ''input_tokens_details'') ''prompt_''
           (copyUsageDetailsFields (map_of u ''prompt_tokens_details'') ''prompt_''
             (copyExtendedUsageFields parse u []))))"

definition pricingModel :: "usage_observer \<Rightarrow> string \<Rightarrow> string" where
  "pricingModel ob responseModel = (if go_trim (uo_model ob) \<noteq> [] then go_trim (uo_model ob) else go_trim responseModel)"

definition pricingProvider :: "usage_observer \<Rightarrow> string" where
  "pricingProvider ob =
     (if go_trim (uo_providerName ob) \<noteq> [] then go_trim (uo_providerName ob) else go_trim (uo_provider ob))"

definition extractUsageFromEvent ::
  "parse_float \<Rightarrow> stamp \<Rightarrow> usage_observer \<Rightarrow> raw_data \<Rightarrow> usage_entry option" where
  "extractUsageFromEvent parse stamp ob chunk =
     (case event_usage (uo_model ob) chunk of
        None \<Rightarrow> None
      | Some (pid, model, u) \<Rightarrow>
          let i = later_of (float_field u ''prompt_tokens'') (float_field u ''input_tokens'');
              n = later_of (float_field u ''completion_tokens'') (float_field u ''output_tokens'');
              sum_of = later_of None (float_field u ''total_tokens'');
              pricing = (case uo_pricing ob of
                  None \<Rightarrow> None | Some resolve \<Rightarrow> resolve (pricingModel ob model) (pricingProvider ob))
          in if i = 0 \<and> n = 0 \<and> sum_of = 0 then None
             else Some (ApplyRewriteSavings parse (uo_rewriteSaved ob) pricing
               ((ExtractFromSSEUsage parse stamp pid i n sum_of (stream_raw_data parse u) (uo_requestID ob)
                   model (uo_provider ob) (uo_endpoint ob) pricing)
                  \<lparr>ue_ProviderName := uo_providerName ob, ue_UserPath := uo_userPath ob,
                   ue_Labels := uo_labels ob\<rparr>)))"

definition uo_OnJSONEvent :: "parse_float \<Rightarrow> stamp \<Rightarrow> raw_data \<Rightarrow> usage_observer \<Rightarrow> usage_observer" where
  "uo_OnJSONEvent parse stamp chunk ob =
     (case extractUsageFromEvent parse stamp ob chunk of
        None \<Rightarrow> ob | Some e \<Rightarrow> ob\<lparr>uo_cached := Some e\<rparr>)"

text \<open>The observer, and the record it writes to its logger.\<close>

definition uo_OnStreamClose :: "usage_observer \<Rightarrow> usage_observer \<times> usage_entry option" where
  "uo_OnStreamClose ob =
     (if uo_closed ob then (ob, None)
      else (ob\<lparr>uo_closed := True\<rparr>, if uo_logger ob then uo_cached ob else None))"

section \<open>Cached answers\<close>

text \<open>\<open>path.Clean\<close>: the elements of a path, without empty ones and dots, each \<open>..\<close> undoing the
  element before it.\<close>

definition clean_elements :: "bool \<Rightarrow> string list \<Rightarrow> string list" where
  "clean_elements rooted elements =
     rev (fold (\<lambda>e out.
       if e = [] \<or> e = ''.'' then out
       else if e = ''..'' then
         (case out of
            [] \<Rightarrow> if rooted then [] else [''..'']
          | l # rest \<Rightarrow> if l = ''..'' then ''..'' # out else rest)
       else e # out) elements [])"

definition path_Clean :: "string \<Rightarrow> string" where
  "path_Clean p =
     (let rooted = has_prefix p ''/'';
          elements = clean_elements rooted (split_on (CHR ''/'') p);
          cleaned = (if rooted then ''/'' else []) @ join_with (CHR ''/'') elements
      in if cleaned = [] then ''.'' else cleaned)"

definition normalizeCachedResponseEndpoint :: "string \<Rightarrow> string" where
  "normalizeCachedResponseEndpoint ep =
     (let normalized = go_trim ep
      in if normalized = [] then []
         else let cleaned = path_Clean normalized
              in if cleaned = ''.'' then []
                 else if has_prefix normalized ''/'' \<and> \<not> has_prefix cleaned ''/'' then ''/'' @ cleaned
                 else cleaned)"

definition normalizeCacheType :: "string \<Rightarrow> string" where
  "normalizeCacheType value =
     (let v = go_to_lower (go_trim value)
      in if v = ''exact'' then ''exact'' else if v = ''semantic'' then ''semantic'' else [])"

text \<open>An observer fed with the calls of an observed stream: its final state and the records it wrote.
  The records of successive events get successive stamps.\<close>

fun uo_run ::
  "parse_float \<Rightarrow> (nat \<Rightarrow> stamp) \<Rightarrow> raw_data observer_call list \<Rightarrow> usage_observer \<Rightarrow>
   usage_observer \<times> usage_entry list" where
  "uo_run parse stamps [] ob = (ob, [])"
| "uo_run parse stamps (OnJSONEvent k chunk # calls) ob =
     uo_run parse (stamps \<circ> Suc) calls (uo_OnJSONEvent parse (stamps 0) chunk ob)"
| "uo_run parse stamps (OnStreamClose k # calls) ob =
     (case uo_OnStreamClose ob of
        (ob, written) \<Rightarrow>
          (case uo_run parse stamps calls ob of
             (ob, entries) \<Rightarrow> (ob, (case written of None \<Rightarrow> [] | Some e \<Rightarrow> [e]) @ entries)))"

text \<open>\<open>io.Copy\<close> to \<open>io.Discard\<close> reads pieces of 8192 bytes.\<close>

fun pieces :: "string \<Rightarrow> string list" where
  "pieces [] = []"
| "pieces (c # s) = take 8192 (c # s) # pieces (drop 8191 s)"

definition body_observer ::
  "string \<Rightarrow> string \<Rightarrow> string \<Rightarrow> string \<Rightarrow> model_pricing option \<Rightarrow> usage_observer" where
  "body_observer requestID model provider ep pricing =
     \<lparr>uo_logger = False, uo_pricing = map_option (\<lambda>p _ _. Some p) pricing, uo_cached = None,
      uo_model = go_trim model, uo_provider = go_trim provider, uo_providerName = [],
      uo_requestID = go_trim requestID, uo_endpoint = ep, uo_userPath = [], uo_labels = [],
      uo_rewriteSaved = 0, uo_closed = False\<rparr>"

definition extractFromCachedSSEBody ::
  "parse_float \<Rightarrow> (nat \<Rightarrow> stamp) \<Rightarrow> (string \<Rightarrow> raw_data option) \<Rightarrow> string \<Rightarrow> string \<Rightarrow> string \<Rightarrow>
   string \<Rightarrow> string \<Rightarrow> model_pricing option \<Rightarrow> usage_entry option" where
  "extractFromCachedSSEBody parse stamps dec body requestID model provider ep pricing =
     (if go_trim body = [] \<or> \<not> go_contains body ''data:'' then None
      else
        case NewObservedSSEStream [Some (Some WantsJSONEvent)] of
             None \<Rightarrow> None
           | Some s \<Rightarrow>
               uo_cached (fst (uo_run parse stamps
                 (ss_calls (sse_Close dec (observe dec (map (\<lambda>p. (p, ())) (pieces body)) s)))
                 (body_observer requestID model provider ep pricing))))"

text \<open>A cached body: the three typed decoders are parameters, as is that of the events.\<close>

record body_decoders =
  bd_chat :: "string \<Rightarrow> (string \<times> string \<times> token_usage) option"
  bd_responses :: "string \<Rightarrow> (string \<times> string \<times> token_usage option) option"
  bd_embedding :: "string \<Rightarrow> (string \<times> int \<times> int) option"
  bd_event :: "string \<Rightarrow> raw_data option"

definition ExtractFromCachedResponseBody ::
  "parse_float \<Rightarrow> (nat \<Rightarrow> stamp) \<Rightarrow> body_decoders \<Rightarrow> string \<Rightarrow> string \<Rightarrow> string \<Rightarrow> string \<Rightarrow> string \<Rightarrow>
   string \<Rightarrow> model_pricing option \<Rightarrow> usage_entry" where
  "ExtractFromCachedResponseBody parse stamps ds body requestID model provider ep cacheType pricing =
     (let cacheType = (if normalizeCacheType cacheType = [] then ''exact'' else normalizeCacheType cacheType);
          ep = normalizeCachedResponseEndpoint ep;
          typed =
            (if ep = ''/v1/chat/completions''
             then ExtractFromChatResponse parse (stamps 0) (bd_chat ds body) requestID provider ep pricing
             else if ep = ''/v1/responses''
             then ExtractFromResponsesResponse parse (stamps 0) (bd_responses ds body) requestID provider ep pricing
             else if ep = ''/v1/embeddings''
             then ExtractFromEmbeddingResponse parse (stamps 0) (bd_embedding ds body) requestID provider ep pricing
             else None);
          found = (if typed \<noteq> None then typed
                   else extractFromCachedSSEBody parse stamps (bd_event ds) body requestID model provider ep pricing)
      in case found of
           None \<Rightarrow> (new_entry (stamps 0) (go_trim requestID) (go_trim model) (go_trim provider) ep)
                     \<lparr>ue_CacheType := cacheType\<rparr>
         | Some e \<Rightarrow>
             e\<lparr>ue_CacheType := cacheType,
               ue_RequestID := (if go_trim requestID \<noteq> [] then go_trim requestID else ue_RequestID e),
               ue_Model := (if go_trim model \<noteq> [] then go_trim model else ue_Model e),
               ue_Provider := (if go_trim provider \<noteq> [] then go_trim provider else ue_Provider e),
               ue_Endpoint := (if ep \<noteq> [] then ep else ue_Endpoint e)\<rparr>)"

section \<open>Stored records\<close>

definition normalizeCacheMode :: "string \<Rightarrow> string" where
  "normalizeCacheMode value =
     (let v = go_to_lower (go_trim value)
      in if v = ''cached'' then ''cached'' else if v = ''all'' then ''all'' else ''uncached'')"

definition normalizeUsageEntryUserPath :: "string \<Rightarrow> string" where
  "normalizeUsageEntryUserPath value =
     (case NormalizeUserPath value of
        Inl _ \<Rightarrow> ''/'' | Inr normalized \<Rightarrow> if normalized = [] then ''/'' else normalized)"

definition normalizedUsageEntryForStorage :: "usage_entry \<Rightarrow> usage_entry" where
  "normalizedUsageEntryForStorage e =
     e\<lparr>ue_CacheType := normalizeCacheType (ue_CacheType e), ue_ProviderName := go_trim (ue_ProviderName e),
       ue_CostSource := go_trim (ue_CostSource e), ue_UserPath := normalizeUsageEntryUserPath (ue_UserPath e)\<rparr>"

section \<open>The usage of a whole stream\<close>

definition observed_usage ::
  "parse_float \<Rightarrow> (nat \<Rightarrow> stamp) \<Rightarrow> usage_observer \<Rightarrow> raw_data list \<Rightarrow> usage_entry list" where
  \<comment> \<open>the records of the events that report usage\<close>
  "observed_usage parse stamps ob chunks =
     List.map_filter (\<lambda>(i, chunk). extractUsageFromEvent parse (stamps i) ob chunk) (enumerate 0 chunks)"

definition payloads :: "(string \<Rightarrow> raw_data option) \<Rightarrow> string list \<Rightarrow> raw_data list" where
  \<comment> \<open>the decoded payloads of the events an observer with this filter wants\<close>
  "payloads dec events =
     List.map_filter (\<lambda>e. case sseEventPayload e of
         None \<Rightarrow> None
       | Some p \<Rightarrow> if p = donePayload \<or> \<not> WantsJSONEvent p then None else dec p) events"

lemma pricing_of_cached [simp]:
  "pricingModel (ob\<lparr>uo_cached := c\<rparr>) = pricingModel ob"
  "pricingProvider (ob\<lparr>uo_cached := c\<rparr>) = pricingProvider ob"
  by (simp_all add: fun_eq_iff pricingModel_def pricingProvider_def)

lemma extract_cached [simp]:
  "extractUsageFromEvent parse stamp (ob\<lparr>uo_cached := c\<rparr>) chunk = extractUsageFromEvent parse stamp ob chunk"
  by (cases "event_usage (uo_model ob) chunk"; cases "uo_pricing ob")
    (simp_all add: extractUsageFromEvent_def split_beta Let_def)

lemma observed_usage_Cons:
  "observed_usage parse stamps ob (chunk # chunks) =
   (case extractUsageFromEvent parse (stamps 0) ob chunk of None \<Rightarrow> [] | Some e \<Rightarrow> [e]) @
   observed_usage parse (stamps \<circ> Suc) ob chunks"
proof -
  have "enumerate (Suc 0) chunks = map (\<lambda>(i, c). (Suc i, c)) (enumerate 0 chunks)"
    by (rule nth_equalityI) (simp_all add: nth_enumerate_eq)
  then show ?thesis
    by (simp add: observed_usage_def List.map_filter_def comp_def split_beta filter_map split: option.split)
qed

lemma observed_usage_cached [simp]:
  "observed_usage parse stamps (ob\<lparr>uo_cached := c\<rparr>) chunks = observed_usage parse stamps ob chunks"
  by (simp add: observed_usage_def)

text \<open>Fed with events, the observer keeps the last record; at the end it writes it.\<close>

lemma uo_run_events:
  "uo_run parse stamps (map (OnJSONEvent k) chunks @ [OnStreamClose k]) ob =
   (case (if observed_usage parse stamps ob chunks = [] then uo_cached ob
          else Some (List.last (observed_usage parse stamps ob chunks))) of
      newest \<Rightarrow>
        (ob\<lparr>uo_cached := newest, uo_closed := True\<rparr>,
         if uo_closed ob \<or> \<not> uo_logger ob then [] else (case newest of None \<Rightarrow> [] | Some e \<Rightarrow> [e])))"
proof (induction chunks arbitrary: stamps ob)
  case Nil
  show ?case
    by (cases "uo_closed ob") (auto simp: observed_usage_def List.map_filter_def uo_OnStreamClose_def split: option.split)
next
  case (Cons chunk chunks)
  show ?case
  proof (cases "extractUsageFromEvent parse (stamps 0) ob chunk")
    case None
    then show ?thesis by (simp add: Cons.IH uo_OnJSONEvent_def observed_usage_Cons comp_def)
  next
    case (Some e)
    then show ?thesis by (simp add: Cons.IH uo_OnJSONEvent_def observed_usage_Cons comp_def)
  qed
qed

lemma payloads_append [simp]:
  "payloads dec [] = []" "payloads dec [[]] = []"
  "payloads dec (es @ es') = payloads dec es @ payloads dec es'"
  by (simp_all add: payloads_def List.map_filter_def)

lemma usage_event_calls:
  assumes "NewObservedSSEStream [Some (Some WantsJSONEvent)] = Some s"
  shows "concat (map (event_calls dec s) events) = map (OnJSONEvent 0) (payloads dec events)"
proof -
  have "ss_observers s = 1" "ss_filters s = [WantsJSONEvent]"
    using assms by (auto simp: NewObservedSSEStream_def List.map_filter_def)
  then have "event_calls dec s e = map (OnJSONEvent 0) (payloads dec [e])" for e
    by (auto simp: event_calls_def payloadWanted_def payloads_def List.map_filter_def split: option.split)
  then show ?thesis
  proof (induction events)
    case (Cons e es)
    then show ?case using payloads_append(3) [of dec "[e]" es] by simp
  qed simp
qed

text \<open>The decoded payloads of the events of a stream that are within the limit.\<close>

definition stream_payloads :: "(string \<Rightarrow> raw_data option) \<Rightarrow> string \<Rightarrow> raw_data list" where
  "stream_payloads dec body =
     (case sse_events body of
        (events, rest) \<Rightarrow>
          payloads dec (filter (\<lambda>e. length e \<le> maxPendingEventBytes) (events @ [rest])))"

definition within_limit :: "string \<Rightarrow> bool" where
  "within_limit body \<longleftrightarrow>
     (\<forall>e\<in>set (fst (sse_events body)).
        length e + 3 \<le> maxPendingEventBytes \<or> maxPendingEventBytes < length e)"

lemma usage_stream_calls:
  fixes reads :: "(string \<times> 'e) list"
  assumes "NewObservedSSEStream [Some (Some WantsJSONEvent)] = Some s"
    and "within_limit (concat (map fst reads))"
  shows "ss_calls (sse_Close dec (observe dec reads s)) =
      map (OnJSONEvent 0) (stream_payloads dec (concat (map fst reads))) @ [OnStreamClose 0]"
proof -
  have "payloads dec (filter (\<lambda>e. e \<noteq> [] \<and> length e \<le> maxPendingEventBytes) es) =
        payloads dec (filter (\<lambda>e. length e \<le> maxPendingEventBytes) es)" for es
    by (induction es) (simp_all add: payloads_def List.map_filter_def)
  moreover have "ss_observers s = 1"
    using assms(1) by (auto simp: NewObservedSSEStream_def List.map_filter_def)
  moreover obtain events rest where "sse_events (concat (map fst reads)) = (events, rest)" by fastforce
  ultimately show ?thesis
    using observed_stream_calls [OF assms(1) assms(2) [unfolded within_limit_def], of dec]
      usage_event_calls [OF assms(1)]
    by (simp add: stream_payloads_def)
qed

lemma concat_pieces [simp]: "concat (pieces body) = body"
proof (induction body rule: pieces.induct)
  case (2 c s)
  have "drop 8192 (c # s) = drop 8191 s" by (simp add: drop_Cons')
  with 2 append_take_drop_id [of 8192 "c # s"] show ?case by (simp del: take_Cons_numeral)
qed simp

text \<open>The usage found in a cached event stream.\<close>

lemma cached_stream_usage:
  assumes "within_limit body" "go_trim body \<noteq> []" "go_contains body ''data:''"
  shows "extractFromCachedSSEBody parse stamps dec body requestID model provider ep pricing =
    (let reports = observed_usage parse stamps (body_observer requestID model provider ep pricing)
           (stream_payloads dec body)
     in if reports = [] then None else Some (List.last reports))"
proof -
  obtain s where s: "NewObservedSSEStream [Some (Some WantsJSONEvent)] = (Some s :: raw_data sse_stream option)"
    by (simp add: NewObservedSSEStream_def List.map_filter_def)
  have c: "concat (map fst (map (\<lambda>p. (p, ())) (pieces body))) = body" by (simp add: comp_def)
  from usage_stream_calls [OF s, of "map (\<lambda>p. (p, ())) (pieces body)" dec] assms(1-3) show ?thesis
    unfolding c by (simp add: extractFromCachedSSEBody_def s uo_run_events Let_def body_observer_def)
qed

text \<open>
  C38. The usage of a streamed answer whose events all stay within the size limit of the observer is
  written exactly once, at the end of the stream: it is the record of the last event of the stream
  that reports any tokens, however the stream was cut into chunks, and nothing is written when no
  event does. Closing again writes nothing. Near the limit the chunks matter: see
  \<open>near_limit_depends_on_chunks\<close>.
\<close>

theorem streamed_usage_written_once:
  fixes reads :: "(string \<times> 'e) list"
  assumes "NewObservedSSEStream [Some (Some WantsJSONEvent)] = Some s"
    and "within_limit (concat (map fst reads))"
    and "ob = SetRewriteTokensSaved saved (SetLabels labels (SetProviderName name
           (NewStreamUsageObserver model provider requestID ep pricing userPath)))"
  shows "snd (uo_run parse stamps
           (ss_calls (sse_Close dec (sse_Close dec (observe dec reads s)))) ob) =
    (let reports = observed_usage parse stamps ob (stream_payloads dec (concat (map fst reads)))
     in if reports = [] then [] else [List.last reports])"
proof -
  have ob: "uo_cached ob = None" "\<not> uo_closed ob" "uo_logger ob"
    by (simp_all add: assms(3) SetRewriteTokensSaved_def SetLabels_def SetProviderName_def
        NewStreamUsageObserver_def)
  show ?thesis
    unfolding sse_Close_again usage_stream_calls [OF assms(1,2)] uo_run_events
    using ob by (simp add: Let_def)
qed

definition usage_text :: "nat \<Rightarrow> string" where
  "usage_text n = ''data: '' @ [CHR 0x22] @ ''usage'' @ [CHR 0x22] @ replicate n (CHR ''x'') @ [LF, LF]"

definition usage_decoder :: "string \<Rightarrow> raw_data option" where
  "usage_decoder p = Some [(''usage'', RawMap [(''prompt_tokens'', RawFloat (Fin (of_nat (length p))))])]"

lemma streamed_usage_written_once_witness:
  defines "reads \<equiv> [(usage_text 1 @ ''dat'', ()), (drop 3 (usage_text 3), ())]"
    and "s \<equiv> \<lparr>ss_observers = 1, ss_filters = [WantsJSONEvent], ss_pending = [], ss_discardTail = [],
               ss_closed = False, ss_discarding = False, ss_calls = []\<rparr>"
    and "ob \<equiv> SetRewriteTokensSaved 0 (SetLabels [] (SetProviderName ''p''
              (NewStreamUsageObserver ''m'' ''openai'' ''r'' ''/v1/chat/completions'' None [])))"
  shows "map ue_InputTokens (snd (uo_run (\<lambda>_. None) (\<lambda>_. (''id'', 0))
           (ss_calls (sse_Close usage_decoder (sse_Close usage_decoder (observe usage_decoder reads s)))) ob)) = [10]"
proof -
  have new: "NewObservedSSEStream [Some (Some WantsJSONEvent)] = Some s"
    by (simp add: NewObservedSSEStream_def s_def List.map_filter_def)
  have ev: "sse_events (concat (map fst reads)) =
      ([take 14 (usage_text 1), take 16 (usage_text 3)], [])"
    unfolding reads_def by code_simp
  have off: "within_limit (concat (map fst reads))"
    by (simp add: within_limit_def ev maxPendingEventBytes_def usage_text_def)
  have reports: "map ue_InputTokens (observed_usage (\<lambda>_. None) (\<lambda>_. (''id'', 0)) ob
      (payloads usage_decoder [take 14 (usage_text 1), take 16 (usage_text 3)])) = [8, 10]"
    unfolding ob_def by code_simp
  have "length (usage_text 1) = 16" "length (usage_text 3) = 18" by (simp_all add: usage_text_def)
  with streamed_usage_written_once [OF new off ob_def [THEN meta_eq_to_obj_eq],
        of "\<lambda>_. None" "\<lambda>_. (''id'', 0)" usage_decoder] reports
  show ?thesis
    by (auto simp: stream_payloads_def ev maxPendingEventBytes_def Let_def map_eq_Cons_conv)
qed

end
