(* ===== verification/UsageLogger.thy ===== *)
theory UsageLogger
  imports Prelude
begin

text \<open>
  The asynchronous usage logger: \<open>internal/usage/logger.go\<close>.

  Any number of goroutines call \<open>Write\<close>, one runs \<open>flushLoop\<close>, and the first caller of \<open>Close\<close>
  waits for the others. An action is one atomic operation of one of them: a load or swap of \<open>closed\<close>,
  an \<open>Add\<close> or \<open>Done\<close> of the wait group \<open>writes\<close>, a channel operation. A goroutine inside \<open>Write\<close> is
  the entry it carries with how far it has come. The batch belongs to the loop alone, so its flush
  belongs to the action before it. The store is a parameter: each flush succeeds or fails.

  \<open>lg_accepted\<close> and \<open>lg_dropped\<close> record the entries that went into the channel and that found it full;
  \<open>lg_handed\<close> records what the store was given and whether it took it. \<open>lg_misuse\<close> records that an
  \<open>Add\<close> found the wait group at zero while \<open>Close\<close> was waiting: the documentation of \<open>sync.WaitGroup\<close>
  forbids it and the run-time may panic, so nothing is claimed of a run in which it happened. The
  code has no such fields.

  A further caller of \<open>Close\<close> finds the logger closed and returns at once, without waiting; it changes
  nothing and is not an action. The publisher is set before the run and stays.
\<close>

section \<open>State\<close>

datatype 'e writer =
    Checked 'e      \<comment> \<open>found the logger open\<close>
  | Registered 'e   \<comment> \<open>counted by \<open>writes\<close>\<close>
  | Sending 'e      \<comment> \<open>found the logger open again\<close>
  | Leaving         \<comment> \<open>about to run the deferred \<open>Done\<close>\<close>

datatype closer = NotClosing | Waiting | Waited | Signalled | Returned

datatype flush_loop = Collecting | Draining | Stopped

datatype live_event = UsageCompleted | UsageFailed | UsageFlushed

record 'e logger =
  lg_BufferSize :: nat
  lg_publisher :: bool
  lg_writers :: "'e writer multiset"
  lg_writes :: nat
  lg_closed :: bool
  lg_close :: closer
  lg_done :: bool
  lg_loop :: flush_loop
  lg_buffer :: "'e list"
  lg_batch :: "'e list"
  lg_events :: "(live_event \<times> 'e) list"
  lg_handed :: "('e \<times> bool) list"
  lg_accepted :: "'e list"
  lg_dropped :: "'e list"
  lg_misuse :: bool

definition BatchFlushThreshold :: nat where
  "BatchFlushThreshold = 100"

definition NewLogger :: "int \<Rightarrow> 'e logger" where
  "NewLogger bufferSize =
     \<lparr>lg_BufferSize = (if bufferSize \<le> 0 then 1000 else nat bufferSize), lg_publisher = False,
      lg_writers = {#}, lg_writes = 0, lg_closed = False, lg_close = NotClosing, lg_done = False,
      lg_loop = Collecting, lg_buffer = [], lg_batch = [], lg_events = [], lg_handed = [],
      lg_accepted = [], lg_dropped = [], lg_misuse = False\<rparr>"

definition SetLivePublisher :: "bool \<Rightarrow> 'e logger \<Rightarrow> 'e logger" where
  "SetLivePublisher p s = s\<lparr>lg_publisher := p\<rparr>"

definition publishLiveEvent :: "live_event \<Rightarrow> 'e \<Rightarrow> 'e logger \<Rightarrow> 'e logger" where
  "publishLiveEvent ev e s =
     (if lg_publisher s then s\<lparr>lg_events := lg_events s @ [(ev, e)]\<rparr> else s)"

section \<open>Actions\<close>

definition flushBatch :: "bool \<Rightarrow> 'e list \<Rightarrow> 'e logger \<Rightarrow> 'e logger" where
  "flushBatch ok batch s =
     (if batch = [] then s
      else fold (publishLiveEvent (if ok then UsageFlushed else UsageFailed)) batch
             (s\<lparr>lg_handed := lg_handed s @ map (\<lambda>e. (e, ok)) batch\<rparr>))"

definition move :: "'e writer \<Rightarrow> 'e writer multiset \<Rightarrow> 'e logger \<Rightarrow> 'e logger" where
  "move w ws s = s\<lparr>lg_writers := lg_writers s - {#w#} + ws\<rparr>"

datatype 'e action =
    StartWrite 'e | Register 'e | Recheck 'e | Send 'e | Leave
  | Swap | Wait | Signal | Return
  | Take bool | Tick bool | SeeDone | Drain | Finish bool

text \<open>The effect of an action; \<open>None\<close> where it cannot happen.\<close>

fun act_Write :: "'e action \<Rightarrow> 'e logger \<Rightarrow> 'e logger option" where
  "act_Write (StartWrite e) s =
     (if lg_closed s then None else Some (s\<lparr>lg_writers := add_mset (Checked e) (lg_writers s)\<rparr>))"
| "act_Write (Register e) s =
     (if Checked e \<in># lg_writers s
      then Some (move (Checked e) {#Registered e#}
             (s\<lparr>lg_writes := lg_writes s + 1,
                lg_misuse := lg_misuse s \<or> lg_close s = Waiting \<and> lg_writes s = 0\<rparr>)) else None)"
| "act_Write (Recheck e) s =
     (if Registered e \<notin># lg_writers s then None
      else if lg_closed s then Some (move (Registered e) {#Leaving#} s)
      else Some (publishLiveEvent UsageCompleted e (move (Registered e) {#Sending e#} s)))"
| "act_Write (Send e) s =
     (if Sending e \<notin># lg_writers s then None
      else if length (lg_buffer s) < lg_BufferSize s
      then Some (move (Sending e) {#Leaving#}
             (s\<lparr>lg_buffer := lg_buffer s @ [e], lg_accepted := lg_accepted s @ [e]\<rparr>))
      else Some (publishLiveEvent UsageFailed e
             (move (Sending e) {#Leaving#} (s\<lparr>lg_dropped := lg_dropped s @ [e]\<rparr>))))"
| "act_Write Leave s =
     (if Leaving \<in># lg_writers s
      then Some (move Leaving {#} (s\<lparr>lg_writes := lg_writes s - 1\<rparr>)) else None)"
| "act_Write _ s = None"

fun act_Close :: "'e action \<Rightarrow> 'e logger \<Rightarrow> 'e logger option" where
  "act_Close Swap s =
     (if lg_closed s then None else Some (s\<lparr>lg_closed := True, lg_close := Waiting\<rparr>))"
| "act_Close Wait s =
     (if lg_close s = Waiting \<and> lg_writes s = 0 then Some (s\<lparr>lg_close := Waited\<rparr>) else None)"
| "act_Close Signal s =
     (if lg_close s = Waited then Some (s\<lparr>lg_close := Signalled, lg_done := True\<rparr>) else None)"
| "act_Close Return s =
     (if lg_close s = Signalled \<and> lg_loop s = Stopped then Some (s\<lparr>lg_close := Returned\<rparr>) else None)"
| "act_Close _ s = None"

fun act_flushLoop :: "'e action \<Rightarrow> 'e logger \<Rightarrow> 'e logger option" where
  "act_flushLoop (Take ok) s =
     (case (lg_loop s, lg_buffer s) of
        (Collecting, e # buffer) \<Rightarrow>
          let batch = lg_batch s @ [e]
          in Some (if length batch \<ge> BatchFlushThreshold
                   then flushBatch ok batch (s\<lparr>lg_buffer := buffer, lg_batch := []\<rparr>)
                   else s\<lparr>lg_buffer := buffer, lg_batch := batch\<rparr>)
      | _ \<Rightarrow> None)"
| "act_flushLoop (Tick ok) s =
     (if lg_loop s = Collecting \<and> lg_batch s \<noteq> []
      then Some (flushBatch ok (lg_batch s) (s\<lparr>lg_batch := []\<rparr>)) else None)"
| "act_flushLoop SeeDone s =
     (if lg_loop s = Collecting \<and> lg_done s then Some (s\<lparr>lg_loop := Draining\<rparr>) else None)"
| "act_flushLoop Drain s =
     (case (lg_loop s, lg_buffer s) of
        (Draining, e # buffer) \<Rightarrow> Some (s\<lparr>lg_buffer := buffer, lg_batch := lg_batch s @ [e]\<rparr>)
      | _ \<Rightarrow> None)"
| "act_flushLoop (Finish ok) s =
     (if lg_loop s = Draining \<and> lg_buffer s = []
      then Some (flushBatch ok (lg_batch s) (s\<lparr>lg_batch := [], lg_loop := Stopped\<rparr>)) else None)"
| "act_flushLoop _ s = None"

definition act :: "'e action \<Rightarrow> 'e logger \<Rightarrow> 'e logger option" where
  "act a s =
     (case act_Write a s of Some t \<Rightarrow> Some t
      | None \<Rightarrow> (case act_Close a s of Some t \<Rightarrow> Some t | None \<Rightarrow> act_flushLoop a s))"

definition lg_step :: "'e logger \<Rightarrow> 'e logger \<Rightarrow> bool" where
  "lg_step s t \<longleftrightarrow> (\<exists>a. act a s = Some t)"

inductive lg_reachable :: "int \<Rightarrow> bool \<Rightarrow> 'e logger \<Rightarrow> bool" for bufferSize p where
  start: "lg_reachable bufferSize p (SetLivePublisher p (NewLogger bufferSize))"
| step: "lg_reachable bufferSize p s \<Longrightarrow> lg_step s t \<Longrightarrow> lg_reachable bufferSize p t"

section \<open>Flushing\<close>

lemma fold_publish:
  "fold (publishLiveEvent ev) es s =
   (if lg_publisher s then s\<lparr>lg_events := lg_events s @ map (Pair ev) es\<rparr> else s)"
  by (induction es arbitrary: s) (simp_all add: publishLiveEvent_def)

lemma flushBatch_eq:
  "flushBatch ok batch s =
   s\<lparr>lg_handed := lg_handed s @ map (\<lambda>e. (e, ok)) batch,
     lg_events := lg_events s @
       (if lg_publisher s then map (Pair (if ok then UsageFlushed else UsageFailed)) batch else [])\<rparr>"
  by (simp add: flushBatch_def fold_publish)

lemma publish_eq:
  "publishLiveEvent ev e s =
   s\<lparr>lg_events := lg_events s @ (if lg_publisher s then [(ev, e)] else [])\<rparr>"
  by (simp add: publishLiveEvent_def)

section \<open>Invariant\<close>

fun counted_writer :: "'e writer \<Rightarrow> bool" where
  "counted_writer (Checked e) = False"
| "counted_writer _ = True"

fun carried :: "'e writer \<Rightarrow> 'e multiset" where
  "carried (Sending e) = {#e#}"
| "carried _ = {#}"

definition sending :: "'e writer multiset \<Rightarrow> 'e multiset" where
  "sending W = \<Sum>\<^sub># (image_mset carried W)"

definition registered :: "'e writer multiset \<Rightarrow> nat" where
  "registered W = size (filter_mset counted_writer W)"

lemma writers_simps [simp]:
  "sending {#} = {#}" "sending (add_mset w W) = carried w + sending W" "sending (W + V) = sending W + sending V"
  "registered {#} = 0"
  "registered (add_mset w W) = (if counted_writer w then Suc (registered W) else registered W)"
  by (simp_all add: sending_def registered_def)

lemma nothing_registered: "registered W = 0 \<Longrightarrow> sending W = {#}"
proof (induction W)
  case (add w W)
  then show ?case by (cases w) auto
qed simp

definition events_of :: "live_event \<Rightarrow> (live_event \<times> 'e) list \<Rightarrow> 'e multiset" where
  "events_of k evs = mset (map snd (filter (\<lambda>(ev, _). ev = k) evs))"

definition handed_with :: "bool \<Rightarrow> ('e \<times> bool) list \<Rightarrow> 'e multiset" where
  "handed_with ok hs = mset (map fst (filter (\<lambda>(_, b). b = ok) hs))"

lemma events_simps [simp]:
  "events_of k [] = {#}" "events_of k (xs @ ys) = events_of k xs + events_of k ys"
  "events_of k ((ev, e) # xs) = (if ev = k then {#e#} else {#}) + events_of k xs"
  "events_of k (map (Pair ev) es) = (if ev = k then mset es else {#})"
  "handed_with b [] = {#}" "handed_with b (hs @ hs') = handed_with b hs + handed_with b hs'"
  "handed_with b ((e, ok) # hs) = (if ok = b then {#e#} else {#}) + handed_with b hs"
  "handed_with b (map (\<lambda>e. (e, ok)) es) = (if ok = b then mset es else {#})"
  by (simp_all add: events_of_def handed_with_def filter_map comp_def)

text \<open>The goroutines agree on where the logger stands.\<close>

definition lg_phases :: "'e logger \<Rightarrow> bool" where
  "lg_phases s \<longleftrightarrow>
     lg_writes s = registered (lg_writers s)
   \<and> (lg_closed s \<longleftrightarrow> lg_close s \<noteq> NotClosing)
   \<and> (lg_done s \<longleftrightarrow> lg_close s \<in> {Signalled, Returned})
   \<and> (lg_close s \<in> {Waited, Signalled, Returned} \<longrightarrow> sending (lg_writers s) = {#})
   \<and> (lg_loop s \<noteq> Collecting \<longrightarrow> lg_done s)
   \<and> (lg_close s = Returned \<longrightarrow> lg_loop s = Stopped)"

text \<open>No entry is lost or doubled on the way.\<close>

definition lg_account :: "'e logger \<Rightarrow> bool" where
  "lg_account s \<longleftrightarrow>
     lg_accepted s = map fst (lg_handed s) @ lg_batch s @ lg_buffer s
   \<and> (lg_loop s = Stopped \<longrightarrow> lg_batch s = [] \<and> lg_buffer s = [])
   \<and> length (lg_buffer s) \<le> lg_BufferSize s
   \<and> (lg_loop s = Collecting \<longrightarrow> length (lg_batch s) < BatchFlushThreshold)"

definition lg_published :: "'e logger \<Rightarrow> bool" where
  "lg_published s \<longleftrightarrow>
     (lg_publisher s \<longrightarrow>
        events_of UsageCompleted (lg_events s) =
          mset (lg_accepted s) + mset (lg_dropped s) + sending (lg_writers s)
      \<and> events_of UsageFailed (lg_events s) = mset (lg_dropped s) + handed_with False (lg_handed s)
      \<and> events_of UsageFlushed (lg_events s) = handed_with True (lg_handed s))"

lemmas act_simps = act_def Let_def move_def flushBatch_eq publish_eq

text \<open>An action of each kind of goroutine, by its effect.\<close>

lemma act_cases [consumes 1]:
  assumes "act a s = Some t"
  obtains
    (StartWrite) e where "\<not> lg_closed s" "t = s\<lparr>lg_writers := add_mset (Checked e) (lg_writers s)\<rparr>"
  | (Register) e W where "lg_writers s = add_mset (Checked e) W"
      "t = s\<lparr>lg_writers := add_mset (Registered e) W, lg_writes := lg_writes s + 1,
             lg_misuse := lg_misuse s \<or> lg_close s = Waiting \<and> lg_writes s = 0\<rparr>"
  | (Refuse) e W where "lg_writers s = add_mset (Registered e) W" "lg_closed s"
      "t = s\<lparr>lg_writers := add_mset Leaving W\<rparr>"
  | (Admit) e W where "lg_writers s = add_mset (Registered e) W" "\<not> lg_closed s"
      "t = publishLiveEvent UsageCompleted e (s\<lparr>lg_writers := add_mset (Sending e) W\<rparr>)"
  | (Accept) e W where "lg_writers s = add_mset (Sending e) W" "length (lg_buffer s) < lg_BufferSize s"
      "t = s\<lparr>lg_writers := add_mset Leaving W, lg_buffer := lg_buffer s @ [e],
             lg_accepted := lg_accepted s @ [e]\<rparr>"
  | (Reject) e W where "lg_writers s = add_mset (Sending e) W" "lg_BufferSize s \<le> length (lg_buffer s)"
      "t = publishLiveEvent UsageFailed e
             (s\<lparr>lg_writers := add_mset Leaving W, lg_dropped := lg_dropped s @ [e]\<rparr>)"
  | (Leave) W where "lg_writers s = add_mset Leaving W"
      "t = s\<lparr>lg_writers := W, lg_writes := lg_writes s - 1\<rparr>"
  | (Swap) "\<not> lg_closed s" "t = s\<lparr>lg_closed := True, lg_close := Waiting\<rparr>"
  | (Wait) "lg_close s = Waiting" "lg_writes s = 0" "t = s\<lparr>lg_close := Waited\<rparr>"
  | (Signal) "lg_close s = Waited" "t = s\<lparr>lg_close := Signalled, lg_done := True\<rparr>"
  | (Return) "lg_close s = Signalled" "lg_loop s = Stopped" "t = s\<lparr>lg_close := Returned\<rparr>"
  | (Take) e buffer where "lg_loop s = Collecting" "lg_buffer s = e # buffer"
      "length (lg_batch s) + 1 < BatchFlushThreshold"
      "t = s\<lparr>lg_buffer := buffer, lg_batch := lg_batch s @ [e]\<rparr>"
  | (TakeFlush) e buffer ok where "lg_loop s = Collecting" "lg_buffer s = e # buffer"
      "t = flushBatch ok (lg_batch s @ [e]) (s\<lparr>lg_buffer := buffer, lg_batch := []\<rparr>)"
  | (Tick) ok where "lg_loop s = Collecting" "lg_batch s \<noteq> []"
      "t = flushBatch ok (lg_batch s) (s\<lparr>lg_batch := []\<rparr>)"
  | (SeeDone) "lg_loop s = Collecting" "lg_done s" "t = s\<lparr>lg_loop := Draining\<rparr>"
  | (Drain) e buffer where "lg_loop s = Draining" "lg_buffer s = e # buffer"
      "t = s\<lparr>lg_buffer := buffer, lg_batch := lg_batch s @ [e]\<rparr>"
  | (Finish) ok where "lg_loop s = Draining" "lg_buffer s = []"
      "t = flushBatch ok (lg_batch s) (s\<lparr>lg_batch := [], lg_loop := Stopped\<rparr>)"
proof (cases a)
  case StartWrite with assms that(1) show thesis by (auto simp: act_def split: if_splits)
next
  case Register with assms that(2) show thesis
    by (force simp: act_def move_def dest!: multi_member_split split: if_splits)
next
  case Recheck with assms that(3,4) show thesis
    by (force simp: act_def move_def dest!: multi_member_split split: if_splits)
next
  case (Send e)
  with assms have "Sending e \<in># lg_writers s" by (simp add: act_def split: if_splits)
  then obtain W where "lg_writers s = add_mset (Sending e) W" by (rule mset_add)
  with Send assms that(5) [of e W] that(6) [of e W] show thesis
    by (auto simp: act_def move_def publish_eq not_less split: if_splits)
next
  case Leave with assms that(7) show thesis
    by (force simp: act_def move_def dest!: multi_member_split split: if_splits)
next
  case Swap with assms that(8) show thesis by (auto simp: act_def split: if_splits)
next
  case Wait with assms that(9) show thesis by (auto simp: act_def split: if_splits)
next
  case Signal with assms that(10) show thesis by (auto simp: act_def split: if_splits)
next
  case Return with assms that(11) show thesis by (auto simp: act_def split: if_splits)
next
  case Take with assms that(12,13) show thesis
    by (auto simp: act_def Let_def split: if_splits flush_loop.splits list.splits)
next
  case Tick with assms that(14) show thesis by (auto simp: act_def split: if_splits)
next
  case SeeDone with assms that(15) show thesis by (auto simp: act_def split: if_splits)
next
  case Drain with assms that(16) show thesis
    by (auto simp: act_def split: flush_loop.splits list.splits)
next
  case Finish with assms that(17) show thesis by (auto simp: act_def split: if_splits)
qed

lemma act_phases: "act a s = Some t \<Longrightarrow> lg_phases s \<Longrightarrow> lg_phases t"
  by (erule act_cases; clarsimp simp: flushBatch_eq publish_eq lg_phases_def nothing_registered; auto?)

lemma act_account: "act a s = Some t \<Longrightarrow> lg_phases s \<Longrightarrow> lg_account s \<Longrightarrow> lg_account t"
  by (erule act_cases; clarsimp simp: flushBatch_eq publish_eq lg_account_def lg_phases_def BatchFlushThreshold_def comp_def; auto?)

lemma act_published: "act a s = Some t \<Longrightarrow> lg_published s \<Longrightarrow> lg_published t"
  by (erule act_cases; clarsimp simp: flushBatch_eq publish_eq lg_published_def)

definition lg_inv :: "'e logger \<Rightarrow> bool" where
  "lg_inv s \<longleftrightarrow> lg_phases s \<and> lg_account s \<and> lg_published s"

lemma lg_reachable_inv: "lg_reachable bufferSize p s \<Longrightarrow> lg_inv s"
proof (induction rule: lg_reachable.induct)
  case start
  show ?case
    by (simp add: lg_inv_def lg_phases_def lg_account_def lg_published_def SetLivePublisher_def
        NewLogger_def BatchFlushThreshold_def handed_with_def)
next
  case (step s t)
  then show ?case by (auto simp: lg_inv_def lg_step_def dest: act_phases act_account act_published)
qed

lemma act_keeps [simp]:
  "act a s = Some t \<Longrightarrow> lg_publisher t = lg_publisher s"
  "act a s = Some t \<Longrightarrow> lg_BufferSize t = lg_BufferSize s"
  by (erule act_cases; simp add: flushBatch_eq publish_eq)+

lemma lg_reachable_publisher: "lg_reachable bufferSize p s \<Longrightarrow> lg_publisher s = p"
  by (induction rule: lg_reachable.induct) (auto simp: SetLivePublisher_def lg_step_def)

lemma mset_handed: "mset (map fst hs) = handed_with True hs + handed_with False hs"
proof (induction hs)
  case (Cons h hs)
  then show ?case by (cases h) simp
qed simp

text \<open>
  C39. The usage logger loses no accepted entry. At every moment the entries the channel took are, in
  order, those handed to the store, the batch and the buffer; once \<open>Close\<close> has returned all of them
  have been handed to the store, no \<open>Write\<close> is about to send, and every entry published as completed
  has been published once more, as flushed if the store took it and as failed if the store refused it
  or the buffer was full.
\<close>

theorem logger_loses_nothing:
  assumes "lg_reachable bufferSize p s"
  shows "lg_accepted s = map fst (lg_handed s) @ lg_batch s @ lg_buffer s
    \<and> length (lg_buffer s) \<le> lg_BufferSize s
    \<and> (lg_close s = Returned \<longrightarrow>
         map fst (lg_handed s) = lg_accepted s \<and> sending (lg_writers s) = {#}
       \<and> (p \<longrightarrow> events_of UsageCompleted (lg_events s) =
               events_of UsageFlushed (lg_events s) + events_of UsageFailed (lg_events s)))"
proof -
  from lg_reachable_inv [OF assms] have inv: "lg_phases s" "lg_account s" "lg_published s"
    by (simp_all add: lg_inv_def)
  moreover have "lg_publisher s = p" using assms by (rule lg_reachable_publisher)
  moreover have "mset (lg_accepted s) = handed_with True (lg_handed s) + handed_with False (lg_handed s)"
    if "lg_close s = Returned"
    using inv(1,2) that by (simp add: lg_phases_def lg_account_def mset_handed [symmetric])
  ultimately show ?thesis
    by (auto simp: lg_phases_def lg_account_def lg_published_def)
qed

fun lg_run :: "'e action list \<Rightarrow> 'e logger \<Rightarrow> 'e logger option" where
  "lg_run [] s = Some s"
| "lg_run (a # as) s = (case act a s of None \<Rightarrow> None | Some t \<Rightarrow> lg_run as t)"

lemma lg_run_reachable:
  "lg_reachable bufferSize p s \<Longrightarrow> lg_run as s = Some t \<Longrightarrow> lg_reachable bufferSize p t"
proof (induction as arbitrary: s)
  case (Cons a as)
  then obtain u where "act a s = Some u" "lg_run as u = Some t" by (auto split: option.splits)
  with Cons show ?case using lg_reachable.step by (force simp: lg_step_def)
qed simp

lemma lg_run_steps: "lg_run as s = Some t \<Longrightarrow> (lg_step ^^ length as) s t"
proof (induction as arbitrary: s)
  case (Cons a as)
  then obtain u where "act a s = Some u" "lg_run as u = Some t" by (auto split: option.splits)
  then have "lg_step s u" "(lg_step ^^ length as) u t" by (auto simp only: lg_step_def intro: Cons.IH)
  then have "(lg_step ^^ Suc (length as)) s t" by (rule relpowp_Suc_I2)
  then show ?case by simp
qed simp

lemma lg_run_append: "lg_run (as @ as') s = (case lg_run as s of None \<Rightarrow> None | Some t \<Rightarrow> lg_run as' t)"
  by (induction as arbitrary: s) (simp_all split: option.split)

definition closing_run :: "nat action list" where
  "closing_run =
     [StartWrite 1, Register 1, StartWrite 2, Recheck 1, Register 2, Send 1, Leave, Recheck 2,
      Swap, Send 2, Leave, Wait, Signal, SeeDone, Drain, Finish True, Return]"

lemma closing_run_reachable:
  obtains s where "lg_run closing_run (SetLivePublisher True (NewLogger 1)) = Some s"
    "lg_close s = Returned" "lg_handed s = [(1, True)]" "lg_dropped s = [2]"
  by (simp add: closing_run_def NewLogger_def SetLivePublisher_def act_def move_def publish_eq flushBatch_eq)

lemma logger_loses_nothing_witness:
  "\<exists>s :: nat logger. lg_close s = Returned \<and> lg_dropped s = [2] \<and> lg_accepted s = [1]"
proof -
  obtain s where s: "lg_run closing_run (SetLivePublisher True (NewLogger 1)) = Some s"
    "lg_close s = Returned" "lg_handed s = [(1, True)]" "lg_dropped s = [2]"
    by (rule closing_run_reachable)
  from logger_loses_nothing [OF lg_run_reachable [OF lg_reachable.start s(1)]] s show ?thesis by auto
qed

section \<open>Closing\<close>

fun writer_work :: "'e writer \<Rightarrow> nat" where
  "writer_work (Checked e) = 7"
| "writer_work (Registered e) = 6"
| "writer_work (Sending e) = 5"
| "writer_work Leaving = 1"

definition close_work :: "closer \<Rightarrow> nat" where
  "close_work c = (case c of NotClosing \<Rightarrow> 4 | Waiting \<Rightarrow> 3 | Waited \<Rightarrow> 2 | Signalled \<Rightarrow> 1 | Returned \<Rightarrow> 0)"

definition loop_work :: "flush_loop \<Rightarrow> nat" where
  "loop_work l = (case l of Collecting \<Rightarrow> 2 | Draining \<Rightarrow> 1 | Stopped \<Rightarrow> 0)"

definition lg_work :: "'e logger \<Rightarrow> nat" where
  "lg_work s =
     (\<Sum>w\<in>#lg_writers s. writer_work w) + 3 * length (lg_buffer s) + 2 * length (lg_batch s)
     + close_work (lg_close s) + loop_work (lg_loop s)"

lemma act_work:
  "act a s = Some t \<Longrightarrow> lg_closed s \<Longrightarrow> lg_phases s \<Longrightarrow> lg_closed t \<and> lg_work t < lg_work s"
  by (erule act_cases; clarsimp simp: flushBatch_eq publish_eq lg_work_def close_work_def loop_work_def)

lemma writer_acts:
  assumes "w \<in># lg_writers s"
  shows "\<exists>t. lg_step s t"
proof (cases w)
  case (Checked e)
  with assms have "act (Register e) s \<noteq> None" by (simp add: act_def)
  then show ?thesis by (auto simp: lg_step_def)
next
  case (Registered e)
  with assms have "act (Recheck e) s \<noteq> None" by (simp add: act_def)
  then show ?thesis by (auto simp: lg_step_def)
next
  case (Sending e)
  with assms have "act (Send e) s \<noteq> None" by (simp add: act_def)
  then show ?thesis by (auto simp: lg_step_def)
next
  case Leaving
  with assms have "act Leave s \<noteq> None" by (simp add: act_def)
  then show ?thesis by (auto simp: lg_step_def)
qed

lemma closing_acts:
  assumes "lg_phases s" "lg_closed s" "lg_writers s = {#}" "lg_close s \<noteq> Returned"
  shows "\<exists>t. lg_step s t"
proof -
  have "\<exists>a. act a s \<noteq> None"
  proof (cases "lg_close s")
    case Waiting
    with assms have "act Wait s \<noteq> None" by (simp add: act_def lg_phases_def)
    then show ?thesis by blast
  next
    case Waited
    then have "act Signal s \<noteq> None" by (simp add: act_def)
    then show ?thesis by blast
  next
    case Signalled
    with assms have "lg_done s" by (simp add: lg_phases_def)
    with Signalled have "act SeeDone s \<noteq> None \<or> act Drain s \<noteq> None \<or> act (Finish True) s \<noteq> None
        \<or> act Return s \<noteq> None"
      by (cases "lg_loop s"; cases "lg_buffer s") (simp_all add: act_def)
    then show ?thesis by blast
  qed (use assms in \<open>auto simp: lg_phases_def\<close>)
  then show ?thesis by (auto simp: lg_step_def)
qed

text \<open>A \<open>Write\<close> that has checked the logger and not yet registered.\<close>

definition unregistered :: "'e logger \<Rightarrow> bool" where
  "unregistered s \<longleftrightarrow> (\<exists>e. Checked e \<in># lg_writers s)"

lemma act_proper:
  "act a s = Some t \<Longrightarrow> lg_closed s \<Longrightarrow> \<not> unregistered s \<Longrightarrow> \<not> lg_misuse s \<Longrightarrow> \<not> unregistered t \<and> \<not> lg_misuse t"
  by (erule act_cases; auto simp: flushBatch_eq publish_eq unregistered_def)

text \<open>
  C40. Closing the usage logger returns. Once \<open>Close\<close> has marked the logger closed, whatever the other
  goroutines are in the middle of, every run has at most \<open>lg_work\<close> actions, and when nothing can
  happen any more \<open>Close\<close> has returned, the loop has stopped and no \<open>Write\<close> is under way; unless a
  \<open>Write\<close> registered at a counter of zero while \<open>Close\<close> was waiting, which the wait group does not
  allow. That cannot happen when no \<open>Write\<close> stood between its check and its registration at the moment
  \<open>Close\<close> marked the logger closed.
\<close>

theorem logger_close_returns:
  assumes "lg_reachable bufferSize p s" "lg_closed s" "(lg_step ^^ n) s t"
  shows "n \<le> lg_work s
    \<and> ((\<nexists>u. lg_step t u) \<longrightarrow>
         lg_misuse t \<or> (lg_close t = Returned \<and> lg_loop t = Stopped \<and> lg_writers t = {#}))
    \<and> (\<not> unregistered s \<and> \<not> lg_misuse s \<longrightarrow> \<not> lg_misuse t)"
proof -
  have run: "lg_reachable bufferSize p t \<and> lg_closed t \<and> n + lg_work t \<le> lg_work s
      \<and> (\<not> unregistered s \<and> \<not> lg_misuse s \<longrightarrow> \<not> unregistered t \<and> \<not> lg_misuse t)"
    using assms(3)
  proof (induction n arbitrary: t)
    case (Suc n)
    then obtain u where "(lg_step ^^ n) s u" "lg_step u t" by auto
    with Suc.IH have u: "lg_reachable bufferSize p u" "lg_closed u" "n + lg_work u \<le> lg_work s"
      "\<not> unregistered s \<and> \<not> lg_misuse s \<longrightarrow> \<not> unregistered u \<and> \<not> lg_misuse u" by auto
    obtain a where "act a u = Some t" using \<open>lg_step u t\<close> by (auto simp: lg_step_def)
    with act_work [OF this u(2)] act_proper [OF this u(2)] lg_reachable_inv [OF u(1)] u
      lg_reachable.step [OF u(1) \<open>lg_step u t\<close>]
    show ?case by (auto simp: lg_inv_def)
  qed (use assms in auto)
  then have t: "lg_phases t" using lg_reachable_inv by (auto simp: lg_inv_def)
  have "lg_close t = Returned \<and> lg_loop t = Stopped \<and> lg_writers t = {#}" if stuck: "\<nexists>u. lg_step t u"
  proof -
    have "lg_writers t = {#}" using writer_acts stuck by (meson multiset_nonemptyE)
    with closing_acts [OF t _ this] run stuck have "lg_close t = Returned" by blast
    with t \<open>lg_writers t = {#}\<close> show ?thesis by (simp add: lg_phases_def)
  qed
  with run show ?thesis by simp
qed

lemma logger_close_returns_witness:
  "\<exists>s t :: nat logger. lg_closed s \<and> (lg_step ^^ 8) s t \<and> 8 \<le> lg_work s \<and> lg_close t = Returned \<and> \<not> lg_misuse t"
proof -
  define s0 :: "nat logger" where "s0 = SetLivePublisher True (NewLogger 1)"
  obtain s where s: "lg_run (take 9 closing_run) s0 = Some s" "lg_closed s" "\<not> unregistered s" "\<not> lg_misuse s"
    by (simp add: s0_def closing_run_def NewLogger_def SetLivePublisher_def act_def move_def publish_eq unregistered_def)
  obtain t where t: "lg_run closing_run s0 = Some t" "lg_close t = Returned"
    using closing_run_reachable s0_def by metis
  have "lg_run (drop 9 closing_run) s = Some t"
    using lg_run_append [of "take 9 closing_run" "drop 9 closing_run" s0] s(1) t(1)
    unfolding append_take_drop_id by simp
  moreover have "length (drop 9 closing_run) = 8" by (simp add: closing_run_def)
  ultimately have "(lg_step ^^ 8) s t" using lg_run_steps by metis
  moreover have "lg_reachable 1 True s"
    using lg_run_reachable [OF lg_reachable.start s(1) [unfolded s0_def]] .
  ultimately show ?thesis using logger_close_returns s(2-4) t(2) by blast
qed

text \<open>
  The exception can happen: a \<open>Write\<close> that found the logger open before \<open>Close\<close> marked it closed can
  register at a counter of zero while \<open>Close\<close> waits.
\<close>

lemma add_overlaps_wait:
  "\<exists>s :: nat logger. lg_reachable 1 p s \<and> lg_misuse s"
proof -
  obtain s :: "nat logger" where s: "lg_run [StartWrite 1, Swap, Register 1] (SetLivePublisher p (NewLogger 1)) = Some s"
    "lg_misuse s"
    by (simp add: NewLogger_def SetLivePublisher_def act_def move_def)
  with lg_run_reachable [OF lg_reachable.start s(1)] show ?thesis by blast
qed

end
