(* ===== verification/RouterReads.thy ===== *)
theory RouterReads
  imports RouterProps
begin

text \<open>
  The readers of the router build the registry's cached views as they go, so each returns a registry.
  Here: no reader changes what any reader answers. The answers are those given by the registry
  without its caches (\<open>bare\<close>), and a reader leaves that registry as it is.
\<close>

section \<open>Readers\<close>

definition bare :: "registry \<Rightarrow> registry" where
  "bare r = invalidateSortedCaches r"

definition reader :: "(registry \<Rightarrow> 'a \<times> registry) \<Rightarrow> bool" where
  "reader f \<longleftrightarrow>
     (\<forall>r. caches_ok r \<longrightarrow>
        fst (f r) = fst (f (bare r)) \<and> bare (snd (f r)) = bare r \<and> caches_ok (snd (f r)))"

definition view :: "(registry \<Rightarrow> 'a) \<Rightarrow> bool" where
  "view h \<longleftrightarrow> (\<forall>r. h (bare r) = h r)"

lemma caches_ok_bare [simp]: "caches_ok (bare r)"
  by (simp add: bare_def invalidateSortedCaches_def caches_ok_def)

lemma bare_bare [simp]: "bare (bare r) = bare r"
  by (simp add: bare_def invalidateSortedCaches_def)

lemma readerD:
  assumes "reader f" "caches_ok r"
  shows "fst (f r) = fst (f (bare r))" "bare (snd (f r)) = bare r" "caches_ok (snd (f r))"
  using assms unfolding reader_def by blast+

lemma reader_return: "view h \<Longrightarrow> reader (\<lambda>r. (h r, r))"
  by (simp add: reader_def view_def)

lemma reader_bind:
  assumes "reader f" "\<And>x. reader (g x)"
  shows "reader (\<lambda>r. case f r of (x, r') \<Rightarrow> g x r')"
  unfolding reader_def
proof (intro allI impI)
  fix r assume r: "caches_ok r"
  note f = readerD [OF assms(1) r] and f' = readerD [OF assms(1) caches_ok_bare [of r]]
  note g = readerD [OF assms(2) f(3)] and g' = readerD [OF assms(2) f'(3)]
  have "fst (g (fst (f r)) (snd (f r))) = fst (g (fst (f r)) (bare r))"
    using g(1) [of "fst (f r)"] by (simp add: f(2))
  also have "\<dots> = fst (g (fst (f (bare r))) (snd (f (bare r))))"
    using g'(1) [of "fst (f (bare r))"] by (simp add: f'(2) f(1))
  finally show "fst (case f r of (x, r') \<Rightarrow> g x r') = fst (case f (bare r) of (x, r') \<Rightarrow> g x r') \<and>
      bare (snd (case f r of (x, r') \<Rightarrow> g x r')) = bare r \<and>
      caches_ok (snd (case f r of (x, r') \<Rightarrow> g x r'))"
    using g(2,3) f(2) by (simp add: split_beta)
qed

lemma reader_view:
  assumes "view h" "\<And>x. reader (g x)"
  shows "reader (\<lambda>r. g (h r) r)"
  unfolding reader_def
proof (intro allI impI)
  fix r assume "caches_ok r"
  from readerD [OF assms(2) [of "h r"] this] assms(1)
  show "fst (g (h r) r) = fst (g (h (bare r)) (bare r)) \<and> bare (snd (g (h r) r)) = bare r
      \<and> caches_ok (snd (g (h r) r))"
    by (simp add: view_def)
qed

lemma reader_if:
  assumes "view h" "reader f" "reader g"
  shows "reader (\<lambda>r. if h r then f r else g r)"
proof (rule reader_view [OF assms(1), of "\<lambda>b r. if b then f r else g r"])
  fix b show "reader (\<lambda>r. if b then f r else g r)" by (cases b) (simp_all add: assms)
qed

lemma reader_option:
  assumes "view h" "reader f" "\<And>x. reader (g x)"
  shows "reader (\<lambda>r. case h r of None \<Rightarrow> f r | Some x \<Rightarrow> g x r)"
proof (rule reader_view [OF assms(1), of "\<lambda>b r. case b of None \<Rightarrow> f r | Some x \<Rightarrow> g x r"])
  fix b show "reader (\<lambda>r. case b of None \<Rightarrow> f r | Some x \<Rightarrow> g x r)" by (cases b) (simp_all add: assms)
qed

text \<open>A reading whose answer is an option.\<close>

lemma reader_bind_option:
  assumes "reader f" "reader g" "\<And>x. reader (h x)"
  shows "reader (\<lambda>r. case f r of (None, r') \<Rightarrow> g r' | (Some x, r') \<Rightarrow> h x r')"
proof -
  have "reader (\<lambda>r'. case c of None \<Rightarrow> g r' | Some x \<Rightarrow> h x r')" for c
    by (cases c) (simp_all add: assms)
  from reader_bind [OF assms(1) this] show ?thesis by (simp add: case_prod_beta)
qed

text \<open>Two readings, one after the other.\<close>

lemma reader_undisturbed:
  assumes "reader f" "reader g" "caches_ok r"
  shows "fst (g (snd (f r))) = fst (g r)"
  using readerD(1) [OF assms(2) readerD(3) [OF assms(1,3)]] readerD(1) [OF assms(2,3)]
    readerD(2) [OF assms(1,3)] by simp

section \<open>The registry\<close>

lemma views [simp]:
  "view rg_models" "view rg_modelsByProvider" "view rg_providers" "view rg_providerTypes"
  "view rg_providerNames" "view rg_initialized" "view (\<lambda>r. c)"
  by (simp_all add: view_def bare_def invalidateSortedCaches_def)

lemma provider_name_bare [simp]: "provider_name (bare r) = provider_name r" "provider_type (bare r) = provider_type r"
  by (simp_all add: fun_eq_iff provider_name_def provider_type_def bare_def invalidateSortedCaches_def)

lemma bare_fields [simp]:
  "rg_models (bare r) = rg_models r" "rg_modelsByProvider (bare r) = rg_modelsByProvider r"
  "rg_providers (bare r) = rg_providers r" "rg_providerTypes (bare r) = rg_providerTypes r"
  "rg_providerNames (bare r) = rg_providerNames r" "rg_initialized (bare r) = rg_initialized r"
  by (simp_all add: bare_def invalidateSortedCaches_def)

lemma lookups_bare [simp]:
  "GetModel (bare r) = GetModel r" "GetProvider (bare r) = GetProvider r" "Supports (bare r) = Supports r"
  "GetProviderType (bare r) = GetProviderType r" "GetProviderName (bare r) = GetProviderName r"
  "ModelCount (bare r) = ModelCount r" "GetProviderNameForType (bare r) = GetProviderNameForType r"
  "ProviderByType (bare r) = ProviderByType r" "reg_ProviderNames (bare r) = reg_ProviderNames r"
  unfolding fun_eq_iff GetProvider_def Supports_def GetProviderType_def GetProviderName_def GetModel_def
    hasConfiguredProviderNameLocked_def ModelCount_def GetProviderNameForType_def ProviderByType_def
    reg_ProviderNames_def bare_fields provider_name_bare
  by (simp_all only: simp_thms)

lemma reader_ListModels: "reader ListModels"
  by (auto simp: reader_def ListModels_def bare_def invalidateSortedCaches_def caches_ok_def Let_def
      split: option.split)

lemma reader_ListModelsWithProvider: "reader ListModelsWithProvider"
  by (auto simp: reader_def ListModelsWithProvider_def bare_def invalidateSortedCaches_def caches_ok_def
      Let_def split: option.split)

lemma reader_ResolveProviderSelector: "reader (\<lambda>r. ResolveProviderSelector r seg m)"
  by (auto simp: reader_def ResolveProviderSelector_def buildSelectorIndexLocked_def bare_def
      invalidateSortedCaches_def caches_ok_def Let_def split: option.split)

section \<open>The router\<close>

lemma reader_providerByType: "reader (\<lambda>r. providerByType r t)"
  unfolding providerByType_def Let_def
  by (rule reader_bind [OF reader_ListModels]) (rule reader_return, unfold view_def lookups_bare, simp)

lemma view_lookups:
  "view ModelCount" "view reg_ProviderNames" "view (\<lambda>r. ProviderByType r t)"
  "view (\<lambda>r. GetProviderNameForType r t)" "view (\<lambda>r. GetProviderName r m)" "view (\<lambda>r. GetProviderType r m)"
  "view (\<lambda>r. GetModel r m)" "view (\<lambda>r. GetProvider r m)" "view (\<lambda>r. Supports r m)"
  "view checkReady" "view (\<lambda>r. hasConfiguredProviderName r n)" "view (\<lambda>r. resolveUnqualifiedSelector r sel)"
  by (simp_all add: view_def checkReady_def hasConfiguredProviderName_def resolveUnqualifiedSelector_def Let_def)

lemma reader_providerByTypeRegistry: "reader (\<lambda>r. providerByTypeRegistry r t)"
  unfolding providerByTypeRegistry_def
  by (intro reader_option reader_providerByType view_lookups reader_return) simp

lemma reader_scan: "reader (\<lambda>r. resolve_by_scan r entries rq seg m)"
proof -
  let ?raw = "map_option entry_selector (find (\<lambda>e. go_trim (cm_ID (mw_Model e)) = go_trim (rs_Model rq)) entries)"
  have "reader (\<lambda>r. case providerByTypeRegistry r seg of
      (None, r') \<Rightarrow> (if go_trim (rs_Model rq) = [] then (None, r') else (?raw, r'))
    | (Some p, r') \<Rightarrow> (None :: model_selector option, r'))"
    by (intro reader_bind_option reader_providerByTypeRegistry reader_if reader_return) simp_all
  then have "reader (\<lambda>r. if rs_ExplicitProvider rq then (None, r)
      else if hasConfiguredProviderName r seg then (None, r)
      else case providerByTypeRegistry r seg of
        (None, r') \<Rightarrow> (if go_trim (rs_Model rq) = [] then (None, r') else (?raw, r'))
      | (Some p, r') \<Rightarrow> (None, r'))"
    by (intro reader_if reader_return view_lookups) simp_all
  then show ?thesis
    unfolding resolve_by_scan_def Let_def
    by (cases "resolveProviderOwnedRawSelector entries seg m";
        cases "resolveProviderOwnedRawSelector entries seg (rs_Model rq)")
      (simp_all add: reader_return)
qed

lemma reader_qualified: "reader (\<lambda>r. resolveQualifiedSelector r rq sel)"
proof -
  have "reader (\<lambda>r. case ResolveProviderSelector r p m of
      (None, r1) \<Rightarrow> (case ListModelsWithProvider r1 of (entries, r2) \<Rightarrow> resolve_by_scan r2 entries rq p m)
    | (Some s, r1) \<Rightarrow> (Some s, r1))" for p m
    by (intro reader_bind_option reader_ResolveProviderSelector reader_return
        reader_bind [OF reader_ListModelsWithProvider reader_scan]) simp
  then show ?thesis
    unfolding resolveQualifiedSelector_def Let_def
    by (intro reader_if reader_return) simp_all
qed

lemma reader_ResolveModel: "reader (\<lambda>r. ResolveModel r rq)"
proof -
  let ?answer = "\<lambda>sel resolved. (Inr (resolved, QualifiedModel resolved \<noteq> QualifiedModel sel)
      :: go_error + model_selector \<times> bool)"
  have body: "reader (\<lambda>r. case (if ms_Provider sel = []
        then (case resolveUnqualifiedSelector r sel of None \<Rightarrow> (sel, r) | Some c \<Rightarrow> (c, r))
        else (case resolveQualifiedSelector r rq' sel of (None, r') \<Rightarrow> (sel, r') | (Some c, r') \<Rightarrow> (c, r')))
      of (c, r') \<Rightarrow> (?answer sel c, r'))" for rq' sel
    by (cases "ms_Provider sel = []")
      (simp_all add: reader_bind reader_return reader_option view_lookups reader_bind_option reader_qualified)
  have ready: "reader (\<lambda>r. case Normalize rq' of
        Inl err \<Rightarrow> (Inl (NewInvalidRequestError (error_string err) (Some err)), r)
      | Inr sel \<Rightarrow>
          (case (if ms_Provider sel = []
             then (case resolveUnqualifiedSelector r sel of None \<Rightarrow> (sel, r) | Some c \<Rightarrow> (c, r))
             else (case resolveQualifiedSelector r rq' sel of (None, r') \<Rightarrow> (sel, r') | (Some c, r') \<Rightarrow> (c, r')))
           of (c, r') \<Rightarrow> (?answer sel c, r')))" for rq'
    using body by (cases "Normalize rq'") (simp_all add: reader_return)
  show ?thesis
    unfolding ResolveModel_def Let_def
    by (rule reader_option [OF view_lookups(10) ready]) (simp add: reader_return)
qed

text \<open>An error or a value.\<close>

lemma reader_bind_sum:
  assumes "reader f" "\<And>e. reader (g e)" "\<And>x. reader (h x)"
  shows "reader (\<lambda>r. case f r of (Inl e, r') \<Rightarrow> g e r' | (Inr x, r') \<Rightarrow> h x r')"
proof -
  have "reader (\<lambda>r'. case c of Inl e \<Rightarrow> g e r' | Inr x \<Rightarrow> h x r')" for c
    by (cases c) (simp_all add: assms)
  from reader_bind [OF assms(1) this] show ?thesis by (simp add: case_prod_beta)
qed

lemma reader_router:
  "reader (\<lambda>r. router_Supports r m)" "reader (\<lambda>r. router_GetProviderType r m)"
  "reader (\<lambda>r. router_GetProviderName r m)"
proof -
  show "reader (\<lambda>r. router_Supports r m)"
    unfolding router_Supports_def
    by (intro reader_bind_sum reader_ResolveModel reader_return)
      (auto simp: reader_return view_lookups)
  show "reader (\<lambda>r. router_GetProviderType r m)"
    unfolding router_GetProviderType_def
    by (intro reader_bind_sum reader_ResolveModel reader_return)
      (auto simp: reader_return view_lookups)
  have "reader (\<lambda>r. if \<not> Supports r (QualifiedModel sel) then ([], r)
      else if ms_Provider sel \<noteq> [] then (ms_Provider sel, r) else (GetProviderName r (QualifiedModel sel), r))" for sel
    by (intro reader_if reader_return) (simp_all add: view_def)
  then show "reader (\<lambda>r. router_GetProviderName r m)"
    unfolding router_GetProviderName_def
    by (intro reader_bind_sum reader_ResolveModel reader_return) auto
qed

lemma reachable_caches [simp]: "reg_reachable r \<Longrightarrow> caches_ok r"
  using reg_inv_reachable [of r] by (simp add: reg_inv_def)

text \<open>The reads of the router.\<close>

datatype router_query = ReadResolve requested_selector | ReadSupports string | ReadType string | ReadName string

datatype read_answer = Resolved "go_error + model_selector \<times> bool" | Supported bool | Named string

fun router_read :: "router_query \<Rightarrow> registry \<Rightarrow> read_answer \<times> registry" where
  "router_read (ReadResolve rq) r = map_prod Resolved id (ResolveModel r rq)"
| "router_read (ReadSupports m) r = map_prod Supported id (router_Supports r m)"
| "router_read (ReadType m) r = map_prod Named id (router_GetProviderType r m)"
| "router_read (ReadName m) r = map_prod Named id (router_GetProviderName r m)"

lemma reader_map:
  assumes "reader f"
  shows "reader (\<lambda>r. map_prod c id (f r))"
  unfolding reader_def
proof (intro allI impI)
  fix r assume "caches_ok r"
  from readerD [OF assms this]
  show "fst (map_prod c id (f r)) = fst (map_prod c id (f (bare r))) \<and> bare (snd (map_prod c id (f r))) = bare r
      \<and> caches_ok (snd (map_prod c id (f r)))"
    by (simp add: map_prod_def split_beta)
qed

lemma router_read_eq:
  "router_read (ReadResolve rq) = (\<lambda>r. map_prod Resolved id (ResolveModel r rq))"
  "router_read (ReadSupports m) = (\<lambda>r. map_prod Supported id (router_Supports r m))"
  "router_read (ReadType m) = (\<lambda>r. map_prod Named id (router_GetProviderType r m))"
  "router_read (ReadName m) = (\<lambda>r. map_prod Named id (router_GetProviderName r m))"
  by (simp_all add: fun_eq_iff)

lemma reader_read: "reader (router_read a)"
  by (cases a) (simp_all only: router_read_eq reader_map reader_router reader_ResolveModel)

lemma reads_bare:
  "caches_ok r \<Longrightarrow>
   bare (fold (\<lambda>a r. snd (router_read a r)) qs r) = bare r \<and>
   caches_ok (fold (\<lambda>a r. snd (router_read a r)) qs r)"
proof (induction qs arbitrary: r)
  case (Cons q qs)
  from readerD [OF reader_read Cons.prems, of q] Cons.IH show ?case by simp
qed simp

text \<open>
  A read of the router never changes what another read answers: resolving a selector, or asking
  whether a model is supported, of which type its provider is and what it is called, gives the same
  answer before and after any other of these, though each may build cached views of the catalog.
\<close>

lemma router_reads_undisturbed:
  assumes "reg_reachable r"
  shows "fst (router_read q (fold (\<lambda>a r. snd (router_read a r)) qs r)) = fst (router_read q r)"
proof -
  from assms have r: "caches_ok r" by simp
  then show ?thesis
    using readerD(1) [OF reader_read conjunct2 [OF reads_bare [OF r]], of q qs]
      readerD(1) [OF reader_read r, of q] reads_bare [OF r, of qs] by simp
qed

lemma router_reads_undisturbed_witness:
  "fst (router_read (ReadName ''openai/gpt'')
     (fold (\<lambda>a r. snd (router_read a r)) [ReadSupports ''gpt'', ReadType ''west/x''] demo_up)) = Named ''east''"
proof -
  have "fst (router_read (ReadName ''openai/gpt'') demo_up) = Named ''east''" by code_simp
  then show ?thesis by (simp only: router_reads_undisturbed [OF demo_reachable(2)])
qed

section \<open>A resolved selector\<close>

text \<open>A selector of a model its provider lists, unless the model ID repeats the provider's name,
  resolves to itself and finds that provider, however it is written down.\<close>

definition own_prefixed :: "model_selector \<Rightarrow> bool" where
  "own_prefixed sel \<longleftrightarrow> (\<exists>rest. splitQualifiedModel (ms_Model sel) = Some (ms_Provider sel, rest))"

lemma sound_target_served:
  assumes "wf_inventory (rg_modelsByProvider r)" "clean_catalog (rg_modelsByProvider r)" "sound_target r sel"
  obtains info where "serves (rg_modelsByProvider r) (ms_Provider sel) info"
    "cm_ID (mi_Model info) = ms_Model sel" "mi_ProviderName info = ms_Provider sel"
    "trimmed (ms_Provider sel)" "ms_Provider sel \<noteq> []" "CHR ''/'' \<notin> set (ms_Provider sel)"
    "trimmed (ms_Model sel)" "ms_Model sel \<noteq> []"
    "QualifiedModel sel = ms_Provider sel @ CHR ''/'' # ms_Model sel"
    "GetModel r (QualifiedModel sel) = Some info"
proof -
  obtain info where i: "serves (rg_modelsByProvider r) (ms_Provider sel) info" "cm_ID (mi_Model info) = ms_Model sel"
    using assms(3) by (auto simp: sound_target_def name_match_def)
  note c = clean_serves [OF assms(1,2) i(1), unfolded clean_entry_def, simplified]
  then have q: "QualifiedModel sel = ms_Provider sel @ CHR ''/'' # ms_Model sel"
    by (simp add: QualifiedModel_def)
  obtain ms where m: "map_of (rg_modelsByProvider r) (ms_Provider sel) = Some ms" "map_of ms (ms_Model sel) = Some info"
    using i by (auto simp: serves_def)
  have "GetModel r (QualifiedModel sel) = Some info"
    unfolding q using c i(2) by (intro GetModel_qualified [OF _ _ _ _ _ m]) simp_all
  with that i c q show thesis by simp
qed

lemma sound_target_resolves:
  assumes "reg_reachable r" "clean_catalog (rg_modelsByProvider r)" "sound_target r sel" "ModelCount r \<noteq> 0"
    and "rq = NewRequestedModelSelector m p" "Normalize rq = Inr sel"
  shows "fst (ResolveModel r rq) = Inr (sel, False)"
proof -
  have inv: "reg_inv r" by (rule reg_inv_reachable [OF assms(1)])
  then have w: "wf_inventory (rg_modelsByProvider r)" by (simp add: reg_inv_def)
  from w assms(2,3) obtain info where i: "serves (rg_modelsByProvider r) (ms_Provider sel) info"
    "trimmed (ms_Provider sel)" "ms_Provider sel \<noteq> []" "trimmed (ms_Model sel)" "ms_Model sel \<noteq> []"
    and q: "QualifiedModel sel = ms_Provider sel @ CHR ''/'' # ms_Model sel"
    by (rule sound_target_served)
  have rq: "NewRequestedModelSelector (rs_Model rq) (rs_ProviderHint rq) = rq"
    by (simp add: assms(5) NewRequestedModelSelector_def)
  have "map_of (fst (build_index (rg_modelsByProvider r))) (QualifiedModel sel) = Some sel"
    using assms(3) unfolding lookup_index_name [OF w assms(2)] by (simp add: sound_target_def)
  then have "fst (ResolveProviderSelector r (ms_Provider sel) (ms_Model sel)) = Some sel"
    using ResolveProviderSelector_index [OF inv i(2,4,3,5)] by (simp add: q lookupSelectorIndex_def)
  then obtain r1 where "ResolveProviderSelector r (ms_Provider sel) (ms_Model sel) = (Some sel, r1)"
    by (metis prod.collapse)
  with i have "resolveQualifiedSelector r rq sel = (Some sel, r1)"
    by (simp add: resolveQualifiedSelector_def Let_def)
  with i(3) assms(4,6) rq show ?thesis by (simp add: ResolveModel_def checkReady_def Let_def)
qed

lemma normalize_target:
  assumes "wf_inventory (rg_modelsByProvider r)" "clean_catalog (rg_modelsByProvider r)" "sound_target r sel"
  shows "\<not> own_prefixed sel \<Longrightarrow>
      Normalize (NewRequestedModelSelector (ms_Model sel) (ms_Provider sel)) = Inr sel"
    and "Normalize (NewRequestedModelSelector (QualifiedModel sel) []) = Inr sel"
proof -
  from assms obtain info where i: "trimmed (ms_Provider sel)" "ms_Provider sel \<noteq> []"
    "CHR ''/'' \<notin> set (ms_Provider sel)" "trimmed (ms_Model sel)" "ms_Model sel \<noteq> []"
    and q: "QualifiedModel sel = ms_Provider sel @ CHR ''/'' # ms_Model sel"
    by (rule sound_target_served)
  show "Normalize (NewRequestedModelSelector (ms_Model sel) (ms_Provider sel)) = Inr sel" if "\<not> own_prefixed sel"
    using i that by (auto simp: Normalize_def NewRequestedModelSelector_def parse_explicit own_prefixed_def
        split: option.split)
  have "trimmed (QualifiedModel sel)" unfolding q using i by (simp add: trimmed_slash)
  moreover have "wf_selector sel" using i by (simp add: wf_selector_def)
  ultimately show "Normalize (NewRequestedModelSelector (QualifiedModel sel) []) = Inr sel"
    using parse_qualified(1) [of sel] by (simp add: Normalize_def NewRequestedModelSelector_def)
qed

lemma sound_target_typed:
  assumes "reg_reachable r" "clean_catalog (rg_modelsByProvider r)" "sound_target r sel" "ModelCount r \<noteq> 0"
    and "GetModel r (QualifiedModel sel) = Some info"
  shows "fst (router_GetProviderType r (QualifiedModel sel)) = mi_ProviderType info"
proof -
  have w: "wf_inventory (rg_modelsByProvider r)" using reg_inv_reachable [OF assms(1)] by (simp add: reg_inv_def)
  obtain r1 where r1: "ResolveModel r (NewRequestedModelSelector (QualifiedModel sel) []) = (Inr (sel, False), r1)"
    using sound_target_resolves [OF assms(1-4) refl normalize_target(2) [OF w assms(2,3)]] by (metis prod.collapse)
  have "GetModel r1 = GetModel r"
    using readerD(2) [OF reader_ResolveModel reachable_caches [OF assms(1)]] r1 lookups_bare(1) by (metis snd_conv)
  with r1 assms(5) show ?thesis by (simp add: router_GetProviderType_def GetProviderType_def)
qed

lemma sound_target_routes:
  assumes "reg_reachable r" "clean_catalog (rg_modelsByProvider r)" "sound_target r sel"
    and "ModelCount r \<noteq> 0" "\<not> own_prefixed sel"
  shows "\<exists>info. serves (rg_modelsByProvider r) (ms_Provider sel) info \<and> cm_ID (mi_Model info) = ms_Model sel \<and>
    GetModel r (QualifiedModel sel) = Some info \<and>
    fst (resolveProvider env r (ms_Model sel) (ms_Provider sel)) = Inr (mi_Provider info, sel)"
proof -
  have w: "wf_inventory (rg_modelsByProvider r)" using reg_inv_reachable [OF assms(1)] by (simp add: reg_inv_def)
  from w assms(2,3) obtain info where i: "serves (rg_modelsByProvider r) (ms_Provider sel) info"
    "cm_ID (mi_Model info) = ms_Model sel" "GetModel r (QualifiedModel sel) = Some info"
    by (rule sound_target_served)
  obtain r1 where r1: "ResolveModel r (NewRequestedModelSelector (ms_Model sel) (ms_Provider sel)) = (Inr (sel, False), r1)"
    using sound_target_resolves [OF assms(1-4) refl normalize_target(1) [OF w assms(2,3,5)]] by (metis prod.collapse)
  have "GetModel r1 = GetModel r"
    using readerD(2) [OF reader_ResolveModel reachable_caches [OF assms(1)]] r1 lookups_bare(1) by (metis snd_conv)
  with i(3) have "GetProvider r1 (QualifiedModel sel) = Some (mi_Provider info)" by (simp add: GetProvider_def)
  with i r1 show ?thesis by (auto simp: resolveProvider_def find_provider_def Let_def)
qed

end
