(* ===== verification/Resolution.thy ===== *)
theory Resolution
  imports RouterReads Workflow VMAdmin
begin

text \<open>
  Resolving the model of a request: \<open>internal/gateway/request_model_resolution.go\<close>.

  A request's selector is resolved by the resolver of virtual models and by the provider, with at
  most one refresh of the provider's models in between, and checked against the provider and the
  authorizer. The routable provider and the resolver are interfaces of the code, whose optional
  parts the code tests for: records of operations over a state \<open>'s\<close>, with \<open>None\<close> for an interface
  that is not implemented. The locale \<open>model_provider\<close> states what a resolution relies on, and it is
  interpreted on the router.
\<close>

section \<open>Providers and resolvers\<close>

type_synonym 's model_resolver =
  "requested_selector \<Rightarrow> 's \<Rightarrow> (go_error + model_selector \<times> bool) \<times> 's"

record 's provider_ops =
  pv_Supports :: "string \<Rightarrow> 's \<Rightarrow> bool \<times> 's"
  pv_GetProviderType :: "string \<Rightarrow> 's \<Rightarrow> string \<times> 's"
  pv_GetProviderName :: "(string \<Rightarrow> 's \<Rightarrow> string \<times> 's) option"
  pv_GetProviderNameForType :: "(string \<Rightarrow> 's \<Rightarrow> string) option"
  pv_ModelCount :: "('s \<Rightarrow> nat) option"
  pv_ResolveModel :: "'s model_resolver option"
  pv_RefreshProviderModels :: "(string \<Rightarrow> 's \<Rightarrow> (go_error + nat) \<times> 's) option"

record 's resolver_ops =
  rv_ResolveModel :: "'s model_resolver"
  rv_ResolveModelForUserPath :: "(go_context \<Rightarrow> 's model_resolver) option"
  rv_ResolveRefreshTarget :: "(requested_selector \<Rightarrow> 's \<Rightarrow> go_error + model_selector option) option"

type_synonym 's authorizer = "go_context \<Rightarrow> model_selector \<Rightarrow> 's \<Rightarrow> go_error option"

definition provider_name_of ::
  "'s provider_ops \<Rightarrow> model_selector \<Rightarrow> string \<Rightarrow> 's \<Rightarrow> string \<times> 's" where
  \<comment> \<open>\<open>ResolvedProviderName\<close>, for a provider whose readers may build caches\<close>
  "provider_name_of P sel fallback s =
     (case pv_GetProviderName P of
        None \<Rightarrow> (go_trim fallback, s)
      | Some name \<Rightarrow>
          (case name (QualifiedModel sel) s of
             (n, s') \<Rightarrow> (if go_trim n \<noteq> [] then go_trim n else go_trim fallback, s')))"

definition WorkflowProviderNameForType :: "'s provider_ops \<Rightarrow> string \<Rightarrow> 's \<Rightarrow> string" where
  "WorkflowProviderNameForType P providerType0 s =
     (let providerType = go_trim providerType0
      in if providerType = [] then []
         else case pv_GetProviderNameForType P of
             None \<Rightarrow> [] | Some name \<Rightarrow> go_trim (name providerType s))"

section \<open>Resolving a requested selector\<close>

definition no_selector :: model_selector where
  "no_selector = \<lparr>ms_Model = [], ms_Provider = []\<rparr>"

definition resolveRequestedModel :: "go_context \<Rightarrow> 's resolver_ops \<Rightarrow> 's model_resolver" where
  "resolveRequestedModel ctx rv requested s =
     (case rv_ResolveModelForUserPath rv of
        Some scoped \<Rightarrow> scoped ctx requested s
      | None \<Rightarrow> rv_ResolveModel rv requested s)"

text \<open>The selector of an error is kept: it names the provider to refresh.\<close>

definition ResolveExecutionSelector ::
  "go_context \<Rightarrow> 's provider_ops \<Rightarrow> 's resolver_ops option \<Rightarrow> requested_selector \<Rightarrow> 's \<Rightarrow>
   (model_selector \<times> bool \<times> go_error option) \<times> 's" where
  "ResolveExecutionSelector ctx P R requested0 s =
     (let requested = NewRequestedModelSelector (rs_Model requested0) (rs_ProviderHint requested0);
          own = (\<lambda>requested resolved alias s.
            case pv_ResolveModel P of
              Some resolve \<Rightarrow>
                (case resolve requested s of
                   (Inl err, s) \<Rightarrow>
                     (if resolved \<noteq> no_selector then ((resolved, alias, Some err), s)
                      else ((no_selector, False, Some err), s))
                 | (Inr (sel, changed), s) \<Rightarrow> ((sel, alias \<or> changed, None), s))
            | None \<Rightarrow>
                if resolved \<noteq> no_selector then ((resolved, alias, None), s)
                else (case Normalize requested of
                        Inl err \<Rightarrow> ((no_selector, alias, Some err), s)
                      | Inr sel \<Rightarrow> ((sel, alias, None), s)))
      in case R of
           None \<Rightarrow> own requested no_selector False s
         | Some rv \<Rightarrow>
             (case resolveRequestedModel ctx rv requested s of
                (Inl err, s) \<Rightarrow> ((no_selector, False, Some err), s)
              | (Inr (resolved, alias), s) \<Rightarrow>
                  own (NewRequestedModelSelector (QualifiedModel resolved) []) resolved alias s))"

definition refresh_target ::
  "'s resolver_ops option \<Rightarrow> requested_selector \<Rightarrow> model_selector \<Rightarrow> 's \<Rightarrow> go_error + string" where
  "refresh_target R requested sel s =
     (let p0 = go_trim (ms_Provider sel);
          from_requested = (case Normalize requested of Inl _ \<Rightarrow> [] | Inr sel \<Rightarrow> go_trim (ms_Provider sel))
      in if p0 \<noteq> [] then Inr p0
         else case (case R of None \<Rightarrow> None | Some rv \<Rightarrow> rv_ResolveRefreshTarget rv) of
             None \<Rightarrow> Inr from_requested
           | Some target \<Rightarrow>
               (case target requested s of
                  Inl err \<Rightarrow> Inl err
                | Inr None \<Rightarrow> Inr from_requested
                | Inr (Some sel) \<Rightarrow>
                    Inr (if go_trim (ms_Provider sel) \<noteq> [] then go_trim (ms_Provider sel) else from_requested)))"

definition refreshProviderModelsForResolution ::
  "'s provider_ops \<Rightarrow> 's resolver_ops option \<Rightarrow> requested_selector \<Rightarrow> model_selector \<Rightarrow> 's \<Rightarrow>
   (go_error + bool) \<times> 's" where
  "refreshProviderModelsForResolution P R requested sel s =
     (case pv_RefreshProviderModels P of
        None \<Rightarrow> (Inr False, s)
      | Some refresh \<Rightarrow>
          (case refresh_target R requested sel s of
             Inl err \<Rightarrow> (Inl err, s)
           | Inr [] \<Rightarrow> (Inr False, s)
           | Inr target \<Rightarrow>
               (case refresh target s of
                  (Inl err, s) \<Rightarrow> (Inl err, s)
                | (Inr _, s) \<Rightarrow> (Inr True, s))))"

definition invalid_selector :: "go_error \<Rightarrow> go_error" where
  "invalid_selector err = NewInvalidRequestError (error_string err) (Some err)"

text \<open>A refresh, and if it ran, another resolution.\<close>

definition refresh_and_resolve ::
  "go_context \<Rightarrow> 's provider_ops \<Rightarrow> 's resolver_ops option \<Rightarrow> requested_selector \<Rightarrow> model_selector \<Rightarrow> 's \<Rightarrow>
   (go_error + (model_selector \<times> bool) option) \<times> 's" where
  "refresh_and_resolve ctx P R requested sel s =
     (case refreshProviderModelsForResolution P R requested sel s of
        (Inl err, s) \<Rightarrow> (Inl err, s)
      | (Inr False, s) \<Rightarrow> (Inr None, s)
      | (Inr True, s) \<Rightarrow>
          (case ResolveExecutionSelector ctx P R requested s of
             ((_, _, Some err), s) \<Rightarrow> (Inl (invalid_selector err), s)
           | ((sel, alias, None), s) \<Rightarrow> (Inr (Some (sel, alias)), s)))"

type_synonym resolving = "model_selector \<times> bool \<times> bool"   \<comment> \<open>selector, alias applied, refreshed\<close>

definition first_resolution ::
  "go_context \<Rightarrow> 's provider_ops \<Rightarrow> 's resolver_ops option \<Rightarrow> requested_selector \<Rightarrow> 's \<Rightarrow>
   (go_error + resolving) \<times> 's" where
  "first_resolution ctx P R requested s =
     (case ResolveExecutionSelector ctx P R requested s of
        ((sel, alias, None), s) \<Rightarrow> (Inr (sel, alias, False), s)
      | ((sel, _, Some err), s) \<Rightarrow>
          (case refresh_and_resolve ctx P R requested sel s of
             (Inl e, s) \<Rightarrow> (Inl e, s)
           | (Inr None, s) \<Rightarrow> (Inl (invalid_selector err), s)
           | (Inr (Some (sel, alias)), s) \<Rightarrow> (Inr (sel, alias, True), s)))"

definition refresh_once ::
  "go_context \<Rightarrow> 's provider_ops \<Rightarrow> 's resolver_ops option \<Rightarrow> requested_selector \<Rightarrow> resolving \<Rightarrow> 's \<Rightarrow>
   (go_error + resolving) \<times> 's" where
  "refresh_once ctx P R requested st s =
     (case st of (sel, alias, refreshed) \<Rightarrow>
        if refreshed then (Inr st, s)
        else case refresh_and_resolve ctx P R requested sel s of
            (Inl e, s) \<Rightarrow> (Inl e, s)
          | (Inr None, s) \<Rightarrow> (Inr (sel, alias, False), s)
          | (Inr (Some (sel, alias)), s) \<Rightarrow> (Inr (sel, alias, True), s))"

definition without_models :: "'s provider_ops \<Rightarrow> 's \<Rightarrow> bool" where
  "without_models P s = (case pv_ModelCount P of None \<Rightarrow> False | Some models \<Rightarrow> models s = 0)"

text \<open>The last part of \<open>ResolveRequestModelWithAuthorizer\<close>: support, after one refresh if none was
  made, the authorizer, and the record.\<close>

definition authorized_resolution ::
  "go_context \<Rightarrow> 's provider_ops \<Rightarrow> 's authorizer option \<Rightarrow> requested_selector \<Rightarrow>
   model_selector \<Rightarrow> bool \<Rightarrow> 's \<Rightarrow> (go_error + model_resolution) \<times> 's" where
  "authorized_resolution ctx P A requested sel alias s =
     (case pv_Supports P (QualifiedModel sel) s of
        (False, s) \<Rightarrow> (Inl (NewModelNotFoundError (QualifiedModel sel)), s)
      | (True, s) \<Rightarrow>
          (case (case A of None \<Rightarrow> None | Some validate \<Rightarrow> validate ctx sel s) of
             Some err \<Rightarrow> (Inl err, s)
           | None \<Rightarrow>
               (case pv_GetProviderType P (QualifiedModel sel) s of
                  (ptype, s) \<Rightarrow>
                    (case provider_name_of P sel [] s of
                       (pname, s) \<Rightarrow>
                         (Inr \<lparr>mr_Requested = requested, mr_ResolvedSelector = sel,
                               mr_ProviderType = go_trim ptype, mr_ProviderName = pname,
                               mr_AliasApplied = alias\<rparr>, s)))))"

definition ensure_supported ::
  "go_context \<Rightarrow> 's provider_ops \<Rightarrow> 's resolver_ops option \<Rightarrow> requested_selector \<Rightarrow> resolving \<Rightarrow> 's \<Rightarrow>
   (go_error + resolving) \<times> 's" where
  "ensure_supported ctx P R requested st s =
     (case pv_Supports P (QualifiedModel (fst st)) s of
        (True, s) \<Rightarrow> (Inr st, s)
      | (False, s) \<Rightarrow> refresh_once ctx P R requested st s)"

definition normalized_selector ::
  "requested_selector \<Rightarrow> resolving \<Rightarrow> go_error + resolving" where
  "normalized_selector requested st =
     (case st of (sel, alias, refreshed) \<Rightarrow>
        if sel \<noteq> no_selector then Inr st
        else case Normalize requested of
            Inl err \<Rightarrow> Inl (invalid_selector err)
          | Inr sel \<Rightarrow> Inr (sel, alias, refreshed))"

definition ResolveRequestModelWithAuthorizer ::
  "go_context \<Rightarrow> 's provider_ops \<Rightarrow> 's resolver_ops option \<Rightarrow> 's authorizer option \<Rightarrow>
   requested_selector \<Rightarrow> 's \<Rightarrow> (go_error + model_resolution) \<times> 's" where
  "ResolveRequestModelWithAuthorizer ctx P R A requested0 s =
     (let requested = NewRequestedModelSelector (rs_Model requested0) (rs_ProviderHint requested0)
      in case first_resolution ctx P R requested s of
           (Inl e, s) \<Rightarrow> (Inl e, s)
         | (Inr st, s) \<Rightarrow>
             (case normalized_selector requested st of
                Inl e \<Rightarrow> (Inl e, s)
              | Inr st \<Rightarrow>
                  (case (if without_models P s then refresh_once ctx P R requested st s else (Inr st, s)) of
                     (Inl e, s) \<Rightarrow> (Inl e, s)
                   | (Inr st, s) \<Rightarrow>
                       if without_models P s
                       then (Inl (NewProviderError [] 0 ''model registry not initialized'' None), s)
                       else (case ensure_supported ctx P R requested st s of
                               (Inl e, s) \<Rightarrow> (Inl e, s)
                             | (Inr (sel, alias, _), s) \<Rightarrow>
                                 authorized_resolution ctx P A requested sel alias s))))"

section \<open>What a resolution promises\<close>

definition keeps :: "('s \<Rightarrow> bool) \<Rightarrow> 's resolver_ops option \<Rightarrow> bool" where
  \<comment> \<open>the resolver keeps states good\<close>
  "keeps good R \<longleftrightarrow> (\<forall>rv ctx rq s. R = Some rv \<and> good s \<longrightarrow> good (snd (resolveRequestedModel ctx rv rq s)))"

text \<open>The interface to the provider: in a good state reading changes nothing that is read
  (\<open>core\<close>), and resolving and refreshing keep the state good.\<close>

locale model_provider =
  fixes P :: "'s provider_ops" and good :: "'s \<Rightarrow> bool" and core :: "'s \<Rightarrow> 'c"
  assumes supports_reads: "good s \<Longrightarrow> good (snd (pv_Supports P m s)) \<and> core (snd (pv_Supports P m s)) = core s"
    and supports_core: "good s \<Longrightarrow> good s' \<Longrightarrow> core s = core s' \<Longrightarrow>
      fst (pv_Supports P m s) = fst (pv_Supports P m s')"
    and type_reads: "good s \<Longrightarrow>
      good (snd (pv_GetProviderType P m s)) \<and> core (snd (pv_GetProviderType P m s)) = core s"
    and type_core: "good s \<Longrightarrow> good s' \<Longrightarrow> core s = core s' \<Longrightarrow>
      fst (pv_GetProviderType P m s) = fst (pv_GetProviderType P m s')"
    and name_reads: "pv_GetProviderName P = Some name \<Longrightarrow> good s \<Longrightarrow>
      good (snd (name m s)) \<and> core (snd (name m s)) = core s"
    and resolve_good: "pv_ResolveModel P = Some resolve \<Longrightarrow> good s \<Longrightarrow> good (snd (resolve rq s))"
    and refresh_good: "pv_RefreshProviderModels P = Some refresh \<Longrightarrow> good s \<Longrightarrow> good (snd (refresh target s))"
begin

lemma execution_selector_good:
  assumes "keeps good R" "good s" "ResolveExecutionSelector ctx P R rq s = (x, s')"
  shows "good s'"
proof -
  have own: "good s2" if "good s1" "pv_ResolveModel P = Some resolve" "resolve rq' s1 = (y, s2)" for s1 s2 rq' y resolve
    using resolve_good [OF that(2,1), of rq'] that(3) by simp
  have res: "good s2" if "R = Some rv" "good s1" "resolveRequestedModel ctx rv rq' s1 = (y, s2)" for s1 s2 rv rq' y
    using assms(1) that unfolding keeps_def by (metis snd_conv)
  from assms(2,3) show ?thesis
    unfolding ResolveExecutionSelector_def Let_def
    by (auto split: option.splits prod.splits sum.splits if_splits dest: own res)
qed

lemma refresh_models_good:
  assumes "good s" "refreshProviderModelsForResolution P R rq sel s = (x, s')"
  shows "good s'"
proof -
  have "good s2" if "pv_RefreshProviderModels P = Some refresh" "refresh t s = (y, s2)" for refresh t y s2
    using refresh_good [OF that(1) assms(1), of t] that(2) by simp
  with assms show ?thesis
    unfolding refreshProviderModelsForResolution_def
    by (auto split: option.splits sum.splits list.splits prod.splits)
qed

lemma refresh_and_resolve_good:
  assumes "keeps good R" "good s" "refresh_and_resolve ctx P R rq sel s = (x, s')"
  shows "good s'"
  using assms unfolding refresh_and_resolve_def
  by (auto split: prod.splits sum.splits bool.splits option.splits
      dest: refresh_models_good execution_selector_good [OF assms(1)])

lemma first_resolution_good:
  assumes "keeps good R" "good s" "first_resolution ctx P R rq s = (x, s')"
  shows "good s'"
  using assms unfolding first_resolution_def
  by (auto split: prod.splits sum.splits option.splits
      dest: refresh_and_resolve_good [OF assms(1)] execution_selector_good [OF assms(1)])

lemma refresh_once_good:
  assumes "keeps good R" "good s" "refresh_once ctx P R rq st s = (x, s')"
  shows "good s'"
  using assms unfolding refresh_once_def
  by (auto split: prod.splits sum.splits option.splits if_splits
      dest: refresh_and_resolve_good [OF assms(1)])

lemma ensure_supported_good:
  assumes "keeps good R" "good s" "ensure_supported ctx P R rq st s = (x, s')"
  shows "good s'"
  using assms supports_reads [OF assms(2), of "QualifiedModel (fst st)"] unfolding ensure_supported_def
  by (auto split: prod.splits bool.splits dest: refresh_once_good [OF assms(1)])

text \<open>The last part: what was checked holds in the final state.\<close>

lemma authorized_resolution_sound:
  assumes "good s" "authorized_resolution ctx P A rq sel alias s = (Inr res, s')"
  shows "good s' \<and> mr_Requested res = rq \<and> mr_ResolvedSelector res = sel \<and> mr_AliasApplied res = alias
    \<and> fst (pv_Supports P (QualifiedModel sel) s')
    \<and> mr_ProviderType res = go_trim (fst (pv_GetProviderType P (QualifiedModel sel) s'))
    \<and> (\<forall>validate. A = Some validate \<longrightarrow> (\<exists>s1. good s1 \<and> core s1 = core s' \<and> validate ctx sel s1 = None))"
proof -
  let ?q = "QualifiedModel sel"
  obtain ok s1 where s1: "pv_Supports P ?q s = (ok, s1)" by fastforce
  obtain t s2 where s2: "pv_GetProviderType P ?q s1 = (t, s2)" by fastforce
  obtain n s3 where s3: "provider_name_of P sel [] s2 = (n, s3)" by fastforce
  have g1: "good s1" "core s1 = core s" using supports_reads [OF assms(1), of ?q] s1 by simp_all
  have g2: "good s2" "core s2 = core s1" using type_reads [OF g1(1), of ?q] s2 by simp_all
  have g3: "good s3" "core s3 = core s2"
  proof -
    have "good s3 \<and> core s3 = core s2"
    proof (cases "pv_GetProviderName P")
      case (Some name)
      with s3 name_reads [OF Some g2(1), of ?q] show ?thesis
        by (cases "name ?q s2") (simp add: provider_name_of_def)
    qed (use s3 g2 in \<open>simp add: provider_name_of_def\<close>)
    then show "good s3" "core s3 = core s2" by simp_all
  qed
  from assms(2) s1 s2 s3 have r: "ok" "s' = s3" "mr_ProviderType res = go_trim t"
    "mr_Requested res = rq" "mr_ResolvedSelector res = sel" "mr_AliasApplied res = alias"
    "\<forall>validate. A = Some validate \<longrightarrow> validate ctx sel s1 = None"
    by (auto simp: authorized_resolution_def split: bool.splits option.splits)
  have "fst (pv_Supports P ?q s3)"
    using supports_core [OF assms(1) g3(1), of ?q] s1 r(1) g1 g2 g3 by simp
  moreover have "fst (pv_GetProviderType P ?q s3) = t"
    using type_core [OF g1(1) g3(1), of ?q] s2 g2 g3 by simp
  moreover have "core s1 = core s3" using g2 g3 by simp
  ultimately show ?thesis using r g1(1) g3(1) by blast
qed

lemma resolution_sound:
  assumes "keeps good R" "good s"
    and "ResolveRequestModelWithAuthorizer ctx P R A rq s = (Inr res, s')"
  shows "good s' \<and> mr_Requested res = NewRequestedModelSelector (rs_Model rq) (rs_ProviderHint rq)
    \<and> fst (pv_Supports P (QualifiedModel (mr_ResolvedSelector res)) s')
    \<and> mr_ProviderType res =
        go_trim (fst (pv_GetProviderType P (QualifiedModel (mr_ResolvedSelector res)) s'))
    \<and> (\<forall>validate. A = Some validate \<longrightarrow>
        (\<exists>s1. good s1 \<and> core s1 = core s' \<and> validate ctx (mr_ResolvedSelector res) s1 = None))"
proof -
  let ?rq = "NewRequestedModelSelector (rs_Model rq) (rs_ProviderHint rq)"
  obtain st0 s1 where 1: "first_resolution ctx P R ?rq s = (Inr st0, s1)"
    using assms(3) by (auto simp: ResolveRequestModelWithAuthorizer_def Let_def split: prod.splits sum.splits)
  obtain st1 where 2: "normalized_selector ?rq st0 = Inr st1"
    using assms(3) 1 by (auto simp: ResolveRequestModelWithAuthorizer_def Let_def split: prod.splits sum.splits)
  obtain st2 s2 where 3: "(if without_models P s1 then refresh_once ctx P R ?rq st1 s1 else (Inr st1, s1)) = (Inr st2, s2)"
    using assms(3) 1 2 by (auto simp: ResolveRequestModelWithAuthorizer_def Let_def split: prod.splits sum.splits)
  obtain sel al b s3 where 4: "ensure_supported ctx P R ?rq st2 s2 = (Inr (sel, al, b), s3)"
    and 5: "authorized_resolution ctx P A ?rq sel al s3 = (Inr res, s')"
    using assms(3) 1 2 3
    by (auto simp: ResolveRequestModelWithAuthorizer_def Let_def split: prod.splits sum.splits if_splits)
  have "good s1" using first_resolution_good [OF assms(1,2) 1] .
  with 3 have "good s2" by (auto dest: refresh_once_good [OF assms(1)] split: if_splits)
  with ensure_supported_good [OF assms(1) _ 4] have "good s3" .
  from authorized_resolution_sound [OF this 5] show ?thesis by auto
qed

end

section \<open>The router as provider\<close>

type_synonym gateway_state = "registry \<times> vm_service"

definition on_registry :: "(registry \<Rightarrow> 'a \<times> registry) \<Rightarrow> gateway_state \<Rightarrow> 'a \<times> gateway_state" where
  "on_registry f s = (case f (fst s) of (x, r) \<Rightarrow> (x, (r, snd s)))"

definition router_ops :: "refresh_env \<Rightarrow> gateway_state provider_ops" where
  "router_ops env =
     \<lparr>pv_Supports = (\<lambda>m. on_registry (\<lambda>r. router_Supports r m)),
      pv_GetProviderType = (\<lambda>m. on_registry (\<lambda>r. router_GetProviderType r m)),
      pv_GetProviderName = Some (\<lambda>m. on_registry (\<lambda>r. router_GetProviderName r m)),
      pv_GetProviderNameForType = Some (\<lambda>t s. GetProviderNameForType (fst s) t),
      pv_ModelCount = Some (\<lambda>s. ModelCount (fst s)),
      pv_ResolveModel = Some (\<lambda>rq. on_registry (\<lambda>r. ResolveModel r rq)),
      pv_RefreshProviderModels = Some (\<lambda>t. on_registry (\<lambda>r. router_RefreshProviderModels env r t))\<rparr>"

definition good_state :: "gateway_state \<Rightarrow> bool" where
  "good_state s \<longleftrightarrow> reg_reachable (fst s)"

definition core_state :: "gateway_state \<Rightarrow> registry \<times> vm_service" where
  "core_state s = (bare (fst s), snd s)"

lemma on_registry_simps [simp]:
  "fst (on_registry f s) = fst (f (fst s))" "snd (on_registry f s) = (snd (f (fst s)), snd s)"
  by (simp_all add: on_registry_def split_beta)

lemma router_reads_reachable:
  assumes "reg_reachable r"
  shows "reg_reachable (snd (ResolveModel r rq))" "reg_reachable (snd (router_Supports r m))"
    "reg_reachable (snd (router_GetProviderType r m))" "reg_reachable (snd (router_GetProviderName r m))"
proof -
  show *: "reg_reachable (snd (ResolveModel r rq))" for rq
    using same_catalog_resolve assms by (simp add: same_catalog_def)
  show "reg_reachable (snd (router_Supports r m))" "reg_reachable (snd (router_GetProviderType r m))"
    "reg_reachable (snd (router_GetProviderName r m))"
    using * [of "NewRequestedModelSelector m []"]
    by (auto simp: router_Supports_def router_GetProviderType_def router_GetProviderName_def
        split: prod.splits sum.splits)
qed

lemma router_refresh_reachable:
  assumes "reg_reachable r"
  shows "reg_reachable (snd (router_RefreshProviderModels env r t))"
proof -
  have "reg_reachable (snd (hasRegisteredProviderSelector r (go_trim t)))"
    using same_catalog_registered assms by (simp add: same_catalog_def)
  then show ?thesis
    by (auto simp: router_RefreshProviderModels_def do_refresh_def Let_def reg_reachable.refresh
        split: prod.split bool.split)
qed

interpretation rp: model_provider "router_ops env" good_state core_state for env
proof
  fix s m assume s: "good_state s"
  then have c: "caches_ok (fst s)" by (simp add: good_state_def)
  show "good_state (snd (pv_Supports (router_ops env) m s)) \<and>
      core_state (snd (pv_Supports (router_ops env) m s)) = core_state s"
    using s readerD(2) [OF reader_router(1) c]
    by (simp add: router_ops_def good_state_def core_state_def router_reads_reachable)
  show "good_state (snd (pv_GetProviderType (router_ops env) m s)) \<and>
      core_state (snd (pv_GetProviderType (router_ops env) m s)) = core_state s"
    using s readerD(2) [OF reader_router(2) c]
    by (simp add: router_ops_def good_state_def core_state_def router_reads_reachable)
  show "good_state (snd (name m s)) \<and> core_state (snd (name m s)) = core_state s"
    if "pv_GetProviderName (router_ops env) = Some name" for name
    using s that readerD(2) [OF reader_router(3) c]
    by (auto simp: router_ops_def good_state_def core_state_def router_reads_reachable)
  show "good_state (snd (resolve rq s))" if "pv_ResolveModel (router_ops env) = Some resolve" for resolve rq
    using s that by (auto simp: router_ops_def good_state_def router_reads_reachable)
  show "good_state (snd (refresh t s))" if "pv_RefreshProviderModels (router_ops env) = Some refresh" for refresh t
    using s that by (auto simp: router_ops_def good_state_def router_refresh_reachable)
next
  fix s s' m assume "good_state s" "good_state s'" and eq: "core_state s = core_state s'"
  then have c: "caches_ok (fst s)" "caches_ok (fst s')" by (simp_all add: good_state_def)
  have b: "bare (fst s) = bare (fst s')" using eq by (simp add: core_state_def)
  show "fst (pv_Supports (router_ops env) m s) = fst (pv_Supports (router_ops env) m s')"
    using readerD(1) [OF reader_router(1) c(1)] readerD(1) [OF reader_router(1) c(2)] b
    by (simp add: router_ops_def)
  show "fst (pv_GetProviderType (router_ops env) m s) = fst (pv_GetProviderType (router_ops env) m s')"
    using readerD(1) [OF reader_router(2) c(1)] readerD(1) [OF reader_router(2) c(2)] b
    by (simp add: router_ops_def)
qed

text \<open>Without a resolver, a request the router resolves and supports is accepted at once: the catalog
  is not refreshed, whatever the authorizer reads of it.\<close>

lemma accepted_resolution:
  assumes "reg_reachable r" "rq = NewRequestedModelSelector m p"
    and "fst (ResolveModel r rq) = Inr (sel, al)" "sel \<noteq> no_selector" "ModelCount r \<noteq> 0"
    and "fst (router_Supports r (QualifiedModel sel))"
    and "\<And>validate s. A = Some validate \<Longrightarrow> validate ctx sel s = None"
  obtains res s' where "ResolveRequestModelWithAuthorizer ctx (router_ops env) None A rq (r, v) = (Inr res, s')"
    and "mr_ResolvedSelector res = sel" "core_state s' = core_state (r, v)" "good_state s'"
proof -
  have rq: "NewRequestedModelSelector (rs_Model rq) (rs_ProviderHint rq) = rq"
    by (simp add: assms(2) NewRequestedModelSelector_def)
  note read = readerD [OF reader_ResolveModel] and sup = readerD [OF reader_router(1)]
    and typed = readerD [OF reader_router(2)] and named = readerD [OF reader_router(3)]
  obtain r1 where r1: "ResolveModel r rq = (Inr (sel, al), r1)" using assms(3) by (metis prod.collapse)
  have b1: "bare r1 = bare r" "caches_ok r1" "reg_reachable r1"
    using read [OF reachable_caches [OF assms(1)], of rq] router_reads_reachable(1) [OF assms(1), of rq] r1 by auto
  obtain r2 where r2: "router_Supports r1 (QualifiedModel sel) = (True, r2)"
    using assms(6) sup(1) [OF b1(2)] sup(1) [OF reachable_caches [OF assms(1)]] b1(1) by (metis prod.collapse)
  have b2: "bare r2 = bare r" "caches_ok r2" "reg_reachable r2"
    using sup [OF b1(2), of "QualifiedModel sel"] router_reads_reachable(2) [OF b1(3), of "QualifiedModel sel"] r2 b1
    by auto
  obtain r3 where r3: "router_Supports r2 (QualifiedModel sel) = (True, r3)"
    using r2 sup(1) [OF b1(2)] sup(1) [OF b2(2)] b1(1) b2(1) by (metis prod.collapse fst_conv)
  have b3: "bare r3 = bare r" "caches_ok r3" "reg_reachable r3"
    using sup [OF b2(2), of "QualifiedModel sel"] router_reads_reachable(2) [OF b2(3), of "QualifiedModel sel"] r3 b2
    by auto
  obtain t r4 where r4: "router_GetProviderType r3 (QualifiedModel sel) = (t, r4)" by force
  have b4: "bare r4 = bare r" "caches_ok r4" "reg_reachable r4"
    using typed [OF b3(2), of "QualifiedModel sel"] router_reads_reachable(3) [OF b3(3), of "QualifiedModel sel"] r4 b3
    by auto
  obtain n r5 where r5: "router_GetProviderName r4 (QualifiedModel sel) = (n, r5)" by force
  have b5: "bare r5 = bare r" "reg_reachable r5"
    using named [OF b4(2), of "QualifiedModel sel"] router_reads_reachable(4) [OF b4(3), of "QualifiedModel sel"] r5 b4
    by auto
  have count: "ModelCount r1 \<noteq> 0" using assms(5) b1(1) lookups_bare(6) by metis
  have "first_resolution ctx (router_ops env) None rq (r, v) = (Inr (sel, al, False), (r1, v))"
    using r1 rq
    by (simp add: first_resolution_def ResolveExecutionSelector_def router_ops_def on_registry_def Let_def)
  moreover have "ensure_supported ctx (router_ops env) None rq (sel, al, False) (r1, v) = (Inr (sel, al, False), (r2, v))"
    using r2 by (simp add: ensure_supported_def router_ops_def on_registry_def)
  moreover have "(case A of None \<Rightarrow> None | Some validate \<Rightarrow> validate ctx sel (r3, v)) = None"
    using assms(7) by (cases A) auto
  then have "authorized_resolution ctx (router_ops env) A rq sel al (r2, v) =
      (Inr \<lparr>mr_Requested = rq, mr_ResolvedSelector = sel, mr_ProviderType = go_trim t,
            mr_ProviderName = (if go_trim n \<noteq> [] then go_trim n else []), mr_AliasApplied = al\<rparr>, (r5, v))"
    using r3 r4 r5 by (simp add: authorized_resolution_def provider_name_of_def router_ops_def on_registry_def)
  moreover have "\<not> without_models (router_ops env) (r1, v)"
    using count by (simp add: without_models_def router_ops_def)
  ultimately show thesis
    using that [of "\<lparr>mr_Requested = rq, mr_ResolvedSelector = sel, mr_ProviderType = go_trim t,
            mr_ProviderName = (if go_trim n \<noteq> [] then go_trim n else []), mr_AliasApplied = al\<rparr>" "(r5, v)"] rq assms(4) b5
    by (simp add: ResolveRequestModelWithAuthorizer_def normalized_selector_def core_state_def good_state_def)
qed

end
