(* ===== verification/Inference.thy ===== *)
theory Inference
  imports Resolution Failover Usage
begin

text \<open>
  Translated inference: \<open>internal/gateway/inference_orchestrator.go\<close>, \<open>inference_prepare.go\<close>,
  \<open>inference_execute.go\<close> and \<open>usage.go\<close>.

  A request is prepared (its model resolved and authorized, its workflow chosen, its body patched)
  and executed (sent with failover, its usage recorded). What the handlers of chat, responses and
  embeddings share is written over a request type \<open>'q\<close> and an answer type \<open>'a\<close>; the functions that
  differ are in a \<open>request_spec\<close> and an \<open>answer_spec\<close>, as in the code. A written usage record is
  returned beside the answer. A request pointer is an option where the code tests it for nil.
\<close>

section \<open>Requests, answers and the orchestrator\<close>

record request_meta =
  rm_RequestID :: string
  rm_Endpoint :: endpoint
  rm_Workflow :: "workflow option"

record 'q prepared =
  pr_Context :: go_context
  pr_Request :: 'q
  pr_Workflow :: workflow

record usage_config =
  uc_Enabled :: bool
  uc_EnforceReturningUsageData :: bool

record 's orchestrator =
  io_provider :: "'s provider_ops option"
  io_resolver :: "'s resolver_ops option"
  io_authorizer :: "'s authorizer option"
  io_policies :: "policy_resolver option"
  io_failover :: "'s failover_env"
  io_logger :: "usage_config option"
  io_pricing :: "pricing_resolver option"
  io_guardrailsHash :: string
  io_patches :: bool       \<comment> \<open>whether there is a request patcher\<close>

text \<open>The fields of a chat request the orchestrator reads.\<close>

record 'b chat_request =
  cq_Model :: string
  cq_Provider :: string
  cq_Stream :: bool
  cq_IncludeUsage :: "bool option"   \<comment> \<open>the stream options\<close>
  cq_MaxTokens :: "int option"
  cq_Temperature :: "rat option"
  cq_rest :: 'b

record 'q request_spec =
  rq_required :: string
  rq_patched :: string
  rq_selector :: "'q \<Rightarrow> string \<times> string"
  rq_select :: "model_selector \<Rightarrow> 'q \<Rightarrow> 'q"
  rq_patch :: "(go_context \<Rightarrow> 'q \<Rightarrow> go_error + 'q option) option"

section \<open>Preparing a request\<close>

definition contextWithRequestID :: "string \<Rightarrow> go_context \<Rightarrow> go_context" where
  "contextWithRequestID requestID0 ctx =
     (let requestID = go_trim requestID0
      in if requestID = [] \<or> go_trim (ctx_request_id ctx) = requestID then ctx
         else ctx\<lparr>ctx_request_id := requestID\<rparr>)"

definition currentTranslatedWorkflow :: "workflow option \<Rightarrow> endpoint \<Rightarrow> workflow option" where
  "currentTranslatedWorkflow w ep =
     (case w of
        None \<Rightarrow> None
      | Some w \<Rightarrow>
          if wk_Mode w \<noteq> ExecutionModeTranslated \<or> ep_Operation (wk_Endpoint w) \<noteq> ep_Operation ep then None
          else Some w)"

definition new_workflow ::
  "'s orchestrator \<Rightarrow> 's provider_ops \<Rightarrow> go_context \<Rightarrow> string \<Rightarrow> endpoint \<Rightarrow> string \<Rightarrow> string \<Rightarrow> 's \<Rightarrow>
   (go_error + workflow \<times> model_resolution) \<times> 's" where
  "new_workflow orch P ctx requestID ep model provider s =
     (case ResolveRequestModelWithAuthorizer ctx P (io_resolver orch) (io_authorizer orch)
             (NewRequestedModelSelector model provider) s of
        (Inl err, s) \<Rightarrow> (Inl err, s)
      | (Inr res, s) \<Rightarrow>
          (case TranslatedWorkflow ctx (go_trim requestID) ep (Some res) (io_policies orch) of
             Inl err \<Rightarrow> (Inl err, s)
           | Inr w \<Rightarrow> (Inr (w, res), s)))"

text \<open>The workflow, and the selector that replaces the model and provider of the request.\<close>

definition ensureTranslatedRequestWorkflow ::
  "'s orchestrator \<Rightarrow> 's provider_ops \<Rightarrow> go_context \<Rightarrow> workflow option \<Rightarrow> string \<Rightarrow> endpoint \<Rightarrow>
   string \<Rightarrow> string \<Rightarrow> 's \<Rightarrow> (go_error + workflow \<times> model_selector) \<times> 's" where
  "ensureTranslatedRequestWorkflow orch P ctx current requestID ep model provider s =
     (let created = (case new_workflow orch P ctx requestID ep model provider s of
            (Inl err, s) \<Rightarrow> (Inl err, s)
          | (Inr (w, res), s) \<Rightarrow> (Inr (w, mr_ResolvedSelector res), s))
      in case currentTranslatedWorkflow current ep of
           None \<Rightarrow> created
         | Some w \<Rightarrow>
             (case wk_Resolution w of
                None \<Rightarrow> created
              | Some res \<Rightarrow>
                  (case (case io_authorizer orch of
                           None \<Rightarrow> None | Some validate \<Rightarrow> validate ctx (mr_ResolvedSelector res) s) of
                     Some err \<Rightarrow> (Inl err, s)
                   | None \<Rightarrow> (Inr (w, mr_ResolvedSelector res), s))))"


definition WithCacheRequestContext :: "'s orchestrator \<Rightarrow> workflow \<Rightarrow> go_context \<Rightarrow> go_context" where
  "WithCacheRequestContext orch w ctx0 =
     (let ctx = ctx0\<lparr>ctx_workflow := Some w\<rparr>
      in if wk_Policy w \<noteq> None then ctx\<lparr>ctx_guardrails_hash := GuardrailsHash (Some w)\<rparr>
         else if io_guardrailsHash orch \<noteq> [] then ctx\<lparr>ctx_guardrails_hash := io_guardrailsHash orch\<rparr>
         else ctx)"



text \<open>The embeddings request is prepared without a recorder and without a patch.\<close>

definition PrepareEmbeddingRequest ::
  "'s orchestrator \<Rightarrow> 's provider_ops \<Rightarrow> 'q request_spec \<Rightarrow> go_context \<Rightarrow> 'q option \<Rightarrow> request_meta \<Rightarrow>
   's \<Rightarrow> (go_error + 'q prepared) \<times> 's" where
  "PrepareEmbeddingRequest orch P spec ctx0 req meta s =
     (case req of
        None \<Rightarrow> (Inl (NewInvalidRequestError ''embeddings request is required'' None), s)
      | Some req \<Rightarrow>
          let ctx = contextWithRequestID (rm_RequestID meta) ctx0
          in case ensureTranslatedRequestWorkflow orch P ctx (rm_Workflow meta) (rm_RequestID meta)
                    (rm_Endpoint meta) (fst (rq_selector spec req)) (snd (rq_selector spec req)) s of
               (Inl err, s) \<Rightarrow> (Inl err, s)
             | (Inr (w, sel), s) \<Rightarrow>
                 (Inr \<lparr>pr_Context = WithCacheRequestContext orch w ctx, pr_Request = rq_select spec sel req,
                       pr_Workflow = w\<rparr>, s))"


section \<open>Recording usage\<close>

definition effectivePricingProvider :: "string \<Rightarrow> string \<Rightarrow> string" where
  "effectivePricingProvider providerType providerName =
     (if go_trim providerName \<noteq> [] then go_trim providerName else go_trim providerType)"

definition ShouldEnforceReturningUsageData :: "'s orchestrator \<Rightarrow> bool" where
  "ShouldEnforceReturningUsageData orch =
     (case io_logger orch of None \<Rightarrow> False | Some cfg \<Rightarrow> uc_Enabled cfg \<and> uc_EnforceReturningUsageData cfg)"

definition logUsage ::
  "parse_float \<Rightarrow> 's orchestrator \<Rightarrow> go_context \<Rightarrow> workflow option \<Rightarrow> string \<Rightarrow> string \<Rightarrow> string \<Rightarrow>
   (model_pricing option \<Rightarrow> usage_entry option) \<Rightarrow> usage_entry option" where
  "logUsage parse orch ctx w model providerType providerName extract =
     (case io_logger orch of
        None \<Rightarrow> None
      | Some cfg \<Rightarrow>
          if \<not> uc_Enabled cfg \<or> (w \<noteq> None \<and> \<not> UsageEnabled w) then None
          else
            let pricing = (case io_pricing orch of
                  None \<Rightarrow> None
                | Some resolve \<Rightarrow> resolve model (effectivePricingProvider providerType providerName))
            in map_option (\<lambda>e. ApplyRewriteSavings parse (RewriteTokensSavedFromContext ctx) pricing
                 (e\<lparr>ue_ProviderName := go_trim providerName, ue_UserPath := UserPathFromContext ctx,
                    ue_Labels := ctx_labels ctx\<rparr>)) (extract pricing))"

definition usagePricingModel :: "workflow option \<Rightarrow> string \<Rightarrow> string \<Rightarrow> string \<Rightarrow> string" where
  "usagePricingModel w requestedModel failoverModel responseModel =
     (if go_trim failoverModel \<noteq> [] then go_trim failoverModel
      else let model = ResolvedModelFromWorkflow w (go_trim requestedModel)
           in if model \<noteq> [] then model else go_trim responseModel)"

section \<open>Executing a request\<close>

record execution_meta =
  em_ProviderType :: string
  em_ProviderName :: string
  em_Model :: string
  em_FailoverModel :: string
  em_UsedFailover :: bool

record ('q, 'a, 's) answer_spec =
  as_required :: string
  as_call :: "go_context \<Rightarrow> 'q \<Rightarrow> 's \<Rightarrow> (go_error + 'a option) \<times> 's"   \<comment> \<open>the provider; a nil answer is \<open>None\<close>\<close>
  as_model :: "'a \<Rightarrow> string"
  as_provider :: "'a \<Rightarrow> string"
  as_usage :: "'a \<Rightarrow> string \<Rightarrow> string \<Rightarrow> string \<Rightarrow> model_pricing option \<Rightarrow> usage_entry option"

definition validateProviderAndRequest :: "'s orchestrator \<Rightarrow> bool \<Rightarrow> string \<Rightarrow> go_error option" where
  "validateProviderAndRequest orch present message =
     (if io_provider orch = None then Some (NewInvalidRequestError ''provider is not configured'' None)
      else if \<not> present then Some (NewInvalidRequestError message None)
      else None)"

definition emptyProviderResponseError :: "string \<Rightarrow> go_error" where
  "emptyProviderResponseError providerType =
     NewProviderError providerType 502 ''provider returned empty response'' None"

definition provider_call ::
  "('q, 'a, 's) answer_spec \<Rightarrow> go_context \<Rightarrow> 'q \<Rightarrow> 's \<Rightarrow> (go_error + 'a \<times> string) \<times> 's" where
  "provider_call spec ctx req s =
     (case as_call spec ctx req s of
        (Inl err, s) \<Rightarrow> (Inl err, s)
      | (Inr None, s) \<Rightarrow> (Inl (emptyProviderResponseError []), s)
      | (Inr (Some resp), s) \<Rightarrow> (Inr (resp, as_provider spec resp), s))"

text \<open>\<open>DispatchChatCompletion\<close> and \<open>DispatchResponses\<close>: the answer without a usage record.\<close>

definition dispatch ::
  "'s orchestrator \<Rightarrow> 'q request_spec \<Rightarrow> ('q, 'a, 's) answer_spec \<Rightarrow> go_context \<Rightarrow> workflow option \<Rightarrow>
   'q option \<Rightarrow> 's \<Rightarrow> attempt_recorder \<Rightarrow> (go_error + 'a routed) \<times> 's \<times> attempt_recorder" where
  "dispatch orch qspec spec ctx w req s r =
     (case (validateProviderAndRequest orch (req \<noteq> None) (as_required spec), req) of
        (Some err, _) \<Rightarrow> (Inl err, s, r)
      | (None, None) \<Rightarrow> (Inl (NewInvalidRequestError (as_required spec) None), s, r)
      | (None, Some req) \<Rightarrow>
          executeTranslatedWithFailover (io_failover orch) ctx w req
            (fst (rq_selector qspec req)) (snd (rq_selector qspec req)) (\<lambda>q sel. rq_select qspec sel q)
            (provider_call spec) s r)"

text \<open>\<open>executeTranslatedResult\<close> with \<open>executeWithUsage\<close>: the answer with its route, and the usage
  record written.\<close>

definition executeTranslatedResult ::
  "parse_float \<Rightarrow> 's orchestrator \<Rightarrow> 'q request_spec \<Rightarrow> ('q, 'a, 's) answer_spec \<Rightarrow> go_context \<Rightarrow>
   workflow option \<Rightarrow> 'q option \<Rightarrow> string \<Rightarrow> string \<Rightarrow> 's \<Rightarrow> attempt_recorder \<Rightarrow>
   (go_error + 'a \<times> execution_meta) \<times> usage_entry option \<times> 's \<times> attempt_recorder" where
  "executeTranslatedResult parse orch qspec spec ctx w req requestID ep s r =
     (case dispatch orch qspec spec ctx w req s r of
        (Inl err, s, r) \<Rightarrow> (Inl err, None, s, r)
      | (Inr v, s, r) \<Rightarrow>
          let requested = (case req of None \<Rightarrow> [] | Some q \<Rightarrow> go_trim (fst (rq_selector qspec q)));
              model = as_model spec (ro_response v);
              written = logUsage parse orch ctx w (usagePricingModel w requested (ro_failoverModel v) model)
                (ro_providerType v) (ro_providerName v)
                (as_usage spec (ro_response v) requestID (ro_providerType v) ep)
          in (Inr (ro_response v,
                   \<lparr>em_ProviderType = ro_providerType v, em_ProviderName = ro_providerName v,
                    em_Model = model, em_FailoverModel = ro_failoverModel v,
                    em_UsedFailover = ro_usedFailover v\<rparr>), written, s, r))"

definition executeEmbeddings ::
  "'s orchestrator \<Rightarrow> ('q, 'a, 's) answer_spec \<Rightarrow> go_context \<Rightarrow> workflow option \<Rightarrow> 'q option \<Rightarrow> 's \<Rightarrow>
   (go_error + 'a \<times> string \<times> string) \<times> 's" where
  "executeEmbeddings orch spec ctx w req s =
     (case (validateProviderAndRequest orch (req \<noteq> None) (as_required spec), req) of
        (None, Some q) \<Rightarrow>
          (case as_call spec ctx q s of
             (Inl err, s) \<Rightarrow> (Inl err, s)
           | (Inr None, s) \<Rightarrow> (Inl (emptyProviderResponseError (ProviderTypeFromWorkflow w)), s)
           | (Inr (Some resp), s) \<Rightarrow>
               (Inr (resp, ResponseProviderType (ProviderTypeFromWorkflow w) (as_provider spec resp),
                     ProviderNameFromWorkflow w), s))
      | (Some err, _) \<Rightarrow> (Inl err, s)
      | _ \<Rightarrow> (Inl (NewInvalidRequestError (as_required spec) None), s))"

definition ExecuteEmbeddings ::
  "parse_float \<Rightarrow> 's orchestrator \<Rightarrow> 'q request_spec \<Rightarrow> ('q, 'a, 's) answer_spec \<Rightarrow> go_context \<Rightarrow>
   workflow option \<Rightarrow> 'q option \<Rightarrow> string \<Rightarrow> string \<Rightarrow> 's \<Rightarrow>
   (go_error + 'a \<times> execution_meta) \<times> usage_entry option \<times> 's" where
  "ExecuteEmbeddings parse orch qspec spec ctx w req requestID ep s =
     (case executeEmbeddings orch spec ctx w req s of
        (Inl err, s) \<Rightarrow> (Inl err, None, s)
      | (Inr (resp, providerType, providerName), s) \<Rightarrow>
          let requested = (case req of None \<Rightarrow> [] | Some q \<Rightarrow> fst (rq_selector qspec q));
              model = as_model spec resp;
              written = logUsage parse orch ctx w (usagePricingModel w requested [] model)
                providerType providerName (as_usage spec resp requestID providerType ep)
          in (Inr (resp, \<lparr>em_ProviderType = providerType, em_ProviderName = providerName, em_Model = model,
                    em_FailoverModel = [], em_UsedFailover = False\<rparr>), written, s))"

section \<open>Streams\<close>

definition routeMetadata :: "workflow option \<Rightarrow> string \<Rightarrow> string \<times> string \<times> string" where
  "routeMetadata w failoverModel =
     (ProviderTypeFromWorkflow w, ProviderNameFromWorkflow w, ResolvedModelFromWorkflow w failoverModel)"

text \<open>The request to stream, the provider's type and name, and the model for usage.\<close>

definition ResolveChatRoute ::
  "'s orchestrator \<Rightarrow> workflow option \<Rightarrow> 'b chat_request option \<Rightarrow>
   'b chat_request option \<times> string \<times> string \<times> string" where
  "ResolveChatRoute orch w req =
     (case routeMetadata w [] of
        (ptype, pname, model) \<Rightarrow>
          let usageModel = (case req of None \<Rightarrow> model | Some q \<Rightarrow> ResolvedModelFromWorkflow w (cq_Model q));
              streamReq = (case req of
                  None \<Rightarrow> None
                | Some q \<Rightarrow>
                    if \<not> cq_Stream q \<or> (w \<noteq> None \<and> \<not> UsageEnabled w)
                       \<or> \<not> ShouldEnforceReturningUsageData orch then Some q
                    else Some (q\<lparr>cq_IncludeUsage := Some True\<rparr>))
          in (streamReq, ptype, pname, usageModel))"

definition stream_meta :: "('a \<times> string) routed \<Rightarrow> 'a \<times> execution_meta" where
  "stream_meta v =
     (fst (ro_response v),
      \<lparr>em_ProviderType = ro_providerType v, em_ProviderName = ro_providerName v,
       em_Model = snd (ro_response v), em_FailoverModel = ro_failoverModel v,
       em_UsedFailover = ro_usedFailover v\<rparr>)"

definition StreamChatCompletion ::
  "'s orchestrator \<Rightarrow> 'b chat_request request_spec \<Rightarrow>
   (go_context \<Rightarrow> 'b chat_request \<Rightarrow> 's \<Rightarrow> (go_error + 'a option) \<times> 's) \<Rightarrow> go_context \<Rightarrow> workflow option \<Rightarrow>
   'b chat_request option \<Rightarrow> 's \<Rightarrow> attempt_recorder \<Rightarrow>
   (go_error + 'a \<times> execution_meta) \<times> 's \<times> attempt_recorder" where
  "StreamChatCompletion orch qspec call ctx w req s r =
     (case validateProviderAndRequest orch (req \<noteq> None) ''chat request is required'' of
        Some err \<Rightarrow> (Inl err, s, r)
      | None \<Rightarrow>
          (case ResolveChatRoute orch w req of
             (Some q, ptype, pname, usageModel) \<Rightarrow>
               (case streamTranslatedProviderRequest (io_failover orch) ctx w q (cq_Model q) (cq_Provider q)
                       ptype pname usageModel (\<lambda>q sel. rq_select qspec sel q) call s r of
                  (Inl err, s, r) \<Rightarrow> (Inl err, s, r)
                | (Inr v, s, r) \<Rightarrow> (Inr (stream_meta v), s, r))
           | _ \<Rightarrow> (Inl (NewInvalidRequestError ''chat request is required'' None), s, r)))"

definition StreamResponses ::
  "'s orchestrator \<Rightarrow> 'q request_spec \<Rightarrow>
   (go_context \<Rightarrow> 'q \<Rightarrow> 's \<Rightarrow> (go_error + 'a option) \<times> 's) \<Rightarrow> go_context \<Rightarrow> workflow option \<Rightarrow>
   'q option \<Rightarrow> 's \<Rightarrow> attempt_recorder \<Rightarrow> (go_error + 'a \<times> execution_meta) \<times> 's \<times> attempt_recorder" where
  "StreamResponses orch qspec call ctx0 w req s r =
     (case (validateProviderAndRequest orch (req \<noteq> None) ''responses request is required'', req) of
        (None, Some q) \<Rightarrow>
          (case routeMetadata w (fst (rq_selector qspec q)) of
             (ptype, pname, usageModel) \<Rightarrow>
               let ctx = (if (w = None \<or> UsageEnabled w) \<and> ShouldEnforceReturningUsageData orch
                          then ctx0\<lparr>ctx_enforce_usage := True\<rparr> else ctx0)
               in (case streamTranslatedProviderRequest (io_failover orch) ctx w q
                          (fst (rq_selector qspec q)) (snd (rq_selector qspec q)) ptype pname usageModel
                          (\<lambda>q sel. rq_select qspec sel q) call s r of
                     (Inl err, s, r) \<Rightarrow> (Inl err, s, r)
                   | (Inr v, s, r) \<Rightarrow> (Inr (stream_meta v), s, r)))
      | (Some err, _) \<Rightarrow> (Inl err, s, r)
      | _ \<Rightarrow> (Inl (NewInvalidRequestError ''responses request is required'' None), s, r))"

section \<open>Streams sent without translation\<close>

definition translatedStreamingSelectorRewriteRequired :: "model_resolution option \<Rightarrow> bool" where
  "translatedStreamingSelectorRewriteRequired res =
     (case res of
        None \<Rightarrow> True
      | Some res \<Rightarrow>
          go_trim (rs_Model (mr_Requested res)) \<noteq> go_trim (ms_Model (mr_ResolvedSelector res)) \<or>
          go_trim (rs_ProviderHint (mr_Requested res)) \<noteq> go_trim (ms_Provider (mr_ResolvedSelector res)))"

definition translatedStreamingChatBodyRewriteRequired :: "'b chat_request option \<Rightarrow> bool" where
  "translatedStreamingChatBodyRewriteRequired req =
     (case req of
        None \<Rightarrow> True
      | Some q \<Rightarrow>
          if go_trim (cq_Provider q) \<noteq> [] then True
          else let model = go_to_lower (go_trim (cq_Model q));
                   oSeries = (length model \<ge> 2 \<and> model ! 0 = CHR ''o''
                              \<and> CHR ''0'' \<le> model ! 1 \<and> model ! 1 \<le> CHR ''9'')
               in oSeries \<and> (cq_MaxTokens q \<noteq> None \<or> cq_Temperature q \<noteq> None))"

definition CanFastPathStreamingChatPassthrough ::
  "'s orchestrator \<Rightarrow> workflow option \<Rightarrow> 'b chat_request option \<Rightarrow> bool" where
  "CanFastPathStreamingChatPassthrough orch w req =
     (case (req, w) of
        (Some q, Some flow) \<Rightarrow>
          cq_Stream q \<and> \<not> (io_patches orch \<or> ShouldEnforceReturningUsageData orch) \<and>
          wk_Resolution flow \<noteq> None \<and>
          go_to_lower (go_trim (wk_ProviderType flow)) \<in> {''openai'', ''azure'', ''openrouter''} \<and>
          \<not> translatedStreamingSelectorRewriteRequired (wk_Resolution flow) \<and>
          \<not> translatedStreamingChatBodyRewriteRequired req
      | _ \<Rightarrow> False)"

section \<open>From preparation to the provider\<close>














end
