(* ===== verification/ResponsesStream.thy ===== *)
theory ResponsesStream
  imports SSEStream "HOL-Library.AList"
begin

text \<open>
  Chat completion streams turned into Responses API streams:
  \<open>internal/providers/responses_converter.go\<close> and \<open>responses_output_state.go\<close>.

  The converter reads server-sent events of an OpenAI compatible upstream line by line and writes
  the events of the Responses API. An event is a value of \<open>resp_event\<close>; \<open>WriteEvent\<close> renders it with
  the JSON encoder, a parameter, and the buffer holds the rendered bytes. The decoders of a chunk, a
  typed and a tolerant one, are parameters too. The reference is a client of the Responses API that
  follows the events: it accepts them in order and rebuilds the message and the function calls.
\<close>

section \<open>Readers\<close>

text \<open>An answer of the upstream reader: bytes, and the end of the stream or an error. A list that is used
  up stands for a reader that is at its end.\<close>

datatype 'e read_end = More | Ended | Failed 'e

type_synonym 'e answer = "string \<times> 'e read_end"

definition ends :: "'e answer list \<Rightarrow> bool" where
  \<comment> \<open>the upstream delivers bytes until it reports its end\<close>
  "ends up \<longleftrightarrow> up = [] \<or> (\<forall>a \<in> set (butlast up). snd a = More) \<and> snd (last up) \<in> {More, Ended}"

text \<open>Reading with buffers of the given sizes, until they are used up or the stream ends.\<close>

fun read_all ::
  "(nat \<Rightarrow> 'e answer list \<Rightarrow> 's \<Rightarrow> 'e answer \<times> 'e answer list \<times> 's) \<Rightarrow> nat list \<Rightarrow> 'e answer list \<Rightarrow> 's \<Rightarrow>
   string \<times> 'e read_end \<times> 'e answer list \<times> 's" where
  "read_all rd [] up s = ([], More, up, s)"
| "read_all rd (k # ks) up s =
     (case rd k up s of
        ((p, More), up, s) \<Rightarrow> (case read_all rd ks up s of (q, r) \<Rightarrow> (p @ q, r))
      | ((p, e), r) \<Rightarrow> (p, e, r))"

text \<open>A reader over an upstream: each read delivers a part of what remains, and makes progress, until
  nothing remains and it reports the end.\<close>

locale byte_stream =
  fixes rd :: "nat \<Rightarrow> 'e answer list \<Rightarrow> 's \<Rightarrow> 'e answer \<times> 'e answer list \<times> 's"
    and valid :: "'e answer list \<Rightarrow> 's \<Rightarrow> bool"
    and rest :: "'e answer list \<Rightarrow> 's \<Rightarrow> string"
    and todo :: "'e answer list \<Rightarrow> 's \<Rightarrow> nat"
  assumes read: "valid up s \<Longrightarrow> 0 < k \<Longrightarrow> rd k up s = ((p, e), up', s') \<Longrightarrow>
    (e = More \<and> p @ rest up' s' = rest up s \<and> valid up' s' \<and> todo up' s' < todo up s)
    \<or> (e = Ended \<and> p = [] \<and> rest up s = [])"
begin

lemma read_all_delivers:
  assumes "valid up s" "\<forall>k \<in> set ks. 0 < k" "read_all rd ks up s = (out, e, up', s')"
  shows "(e = Ended \<and> out = rest up s)
    \<or> (e = More \<and> out @ rest up' s' = rest up s \<and> length ks + todo up' s' \<le> todo up s)"
  using assms
proof (induction ks arbitrary: up s out)
  case (Cons k ks)
  obtain p e1 up1 s1 where r: "rd k up s = ((p, e1), up1, s1)" by (metis prod.collapse)
  from read [OF Cons.prems(1) _ r] Cons.prems(2)
  consider (go) "e1 = More" "p @ rest up1 s1 = rest up s" "valid up1 s1" "todo up1 s1 < todo up s"
    | (stop) "e1 = Ended" "p = []" "rest up s = []" by auto
  then show ?case
  proof cases
    case go
    obtain q where q: "read_all rd ks up1 s1 = (q, e, up', s')" "out = p @ q"
      using Cons.prems(3) r go(1) by (auto split: prod.splits)
    from Cons.IH [OF go(3) _ q(1)] Cons.prems(2) go q(2) show ?thesis by auto
  next
    case stop
    then show ?thesis using Cons.prems(3) r by simp
  qed
qed simp

end

section \<open>Output items\<close>

record tool_state =
  ts_ItemID :: string
  ts_CallID :: string
  ts_Name :: string
  ts_OutputIndex :: int
  ts_Arguments :: string
  ts_Started :: bool
  ts_Completed :: bool
  ts_PlaceholderObject :: bool

record output_state =
  os_assistantReserved :: bool
  os_assistantStarted :: bool
  os_assistantDone :: bool
  os_assistantMessageID :: string
  os_assistantText :: string

datatype out_item =
    MessageItem string string "string option"        \<comment> \<open>id, status, and the text when content is included\<close>
  | CallItem string string string string string      \<comment> \<open>id, status, call id, name, arguments\<close>

record resp_head =
  rh_id :: string
  rh_model :: string
  rh_provider :: string
  rh_created_at :: int

datatype resp_event =
    ResponseCreated resp_head
  | ItemAdded out_item int
  | TextDelta string
  | ArgumentsDelta string int string
  | ArgumentsDone string int string
  | ItemDone out_item int
  | ResponseCompleted resp_head "string option"       \<comment> \<open>with the usage of the stream\<close>

definition NewResponsesOutputEventState :: output_state where
  "NewResponsesOutputEventState =
     \<lparr>os_assistantReserved = False, os_assistantStarted = False, os_assistantDone = False,
      os_assistantMessageID = [], os_assistantText = []\<rparr>"

definition event_name :: "resp_event \<Rightarrow> string" where
  "event_name ev =
     (case ev of
        ResponseCreated _ \<Rightarrow> ''response.created''
      | ItemAdded _ _ \<Rightarrow> ''response.output_item.added''
      | TextDelta _ \<Rightarrow> ''response.output_text.delta''
      | ArgumentsDelta _ _ _ \<Rightarrow> ''response.function_call_arguments.delta''
      | ArgumentsDone _ _ _ \<Rightarrow> ''response.function_call_arguments.done''
      | ItemDone _ _ \<Rightarrow> ''response.output_item.done''
      | ResponseCompleted _ _ \<Rightarrow> ''response.completed'')"

text \<open>An event that cannot be encoded is left out; the last one carries the marker of the end.\<close>

definition WriteEvent :: "(resp_event \<Rightarrow> string option) \<Rightarrow> resp_event \<Rightarrow> string" where
  "WriteEvent enc ev =
     (case enc ev of
        None \<Rightarrow> []
      | Some payload \<Rightarrow>
          ''event: '' @ event_name ev @ LF # ''data: '' @ payload @ [LF, LF]
          @ (case ev of ResponseCompleted _ _ \<Rightarrow> ''data: [DONE]'' @ [LF, LF] | _ \<Rightarrow> []))"

definition AssistantMessageItem :: "string \<Rightarrow> bool \<Rightarrow> output_state \<Rightarrow> out_item" where
  "AssistantMessageItem status includeContent os =
     MessageItem (os_assistantMessageID os) status (if includeContent then Some (os_assistantText os) else None)"

definition StartAssistantOutput :: "string \<Rightarrow> int \<Rightarrow> output_state \<Rightarrow> resp_event list \<times> output_state" where
  "StartAssistantOutput uuid outputIndex os =
     (if os_assistantStarted os then ([], os)
      else let os' = os\<lparr>os_assistantStarted := True,
                        os_assistantMessageID := (if os_assistantMessageID os = [] then ''msg_'' @ uuid
                                                  else os_assistantMessageID os)\<rparr>
           in ([ItemAdded (AssistantMessageItem ''in_progress'' False os') outputIndex], os'))"

definition CompleteAssistantOutput :: "string \<Rightarrow> int \<Rightarrow> output_state \<Rightarrow> resp_event list \<times> output_state" where
  "CompleteAssistantOutput uuid outputIndex os =
     (if \<not> os_assistantReserved os \<or> os_assistantDone os then ([], os)
      else case StartAssistantOutput uuid outputIndex (os\<lparr>os_assistantDone := True\<rparr>) of
          (evs, os') \<Rightarrow> (evs @ [ItemDone (AssistantMessageItem ''completed'' True os') outputIndex], os'))"

definition ToolCallArguments :: "tool_state \<Rightarrow> string" where
  "ToolCallArguments st =
     (if ts_PlaceholderObject st \<and> ts_Arguments st = [] then ''{}'' else ts_Arguments st)"

definition RenderToolCallItem :: "tool_state \<Rightarrow> string \<Rightarrow> bool \<Rightarrow> out_item" where
  "RenderToolCallItem st status includePlaceholder =
     CallItem (ts_ItemID st) status (ts_CallID st) (ts_Name st)
       (if includePlaceholder then ToolCallArguments st else ts_Arguments st)"

definition ResponsesFunctionCallCallID :: "string \<Rightarrow> string \<Rightarrow> string" where
  "ResponsesFunctionCallCallID uuid callID = (if go_trim callID \<noteq> [] then callID else ''call_'' @ uuid)"

definition ResponsesFunctionCallItemID :: "string \<Rightarrow> string \<Rightarrow> string" where
  "ResponsesFunctionCallItemID uuid callID =
     ''fc_'' @ (if go_trim callID = [] then ''call_'' @ uuid else go_trim callID)"

definition StartToolCall :: "string \<Rightarrow> bool \<Rightarrow> tool_state \<Rightarrow> resp_event list \<times> tool_state" where
  "StartToolCall uuid includePlaceholder st =
     (if ts_Started st \<or> go_trim (ts_CallID st) = [] \<or> go_trim (ts_Name st) = [] then ([], st)
      else let callID = ResponsesFunctionCallCallID uuid (ts_CallID st);
               st' = st\<lparr>ts_CallID := callID, ts_ItemID := ResponsesFunctionCallItemID uuid callID,
                        ts_Started := True\<rparr>
           in ([ItemAdded (RenderToolCallItem st' ''in_progress'' includePlaceholder) (ts_OutputIndex st')], st'))"

definition CompleteToolCall :: "bool \<Rightarrow> tool_state \<Rightarrow> resp_event list \<times> tool_state" where
  "CompleteToolCall includePlaceholder st =
     (if ts_Completed st then ([], st)
      else let st' = st\<lparr>ts_Completed := True\<rparr>
           in ([ArgumentsDone (ts_ItemID st') (ts_OutputIndex st') (ToolCallArguments st'),
                ItemDone (RenderToolCallItem st' ''completed'' includePlaceholder) (ts_OutputIndex st')], st'))"

section \<open>Chunks\<close>

record chunk_call =
  tc_Index :: "int option"
  tc_ID :: string
  tc_Name :: string
  tc_Arguments :: string

record chunk_choice =
  cc_Content :: string
  cc_ToolCalls :: "chunk_call list"
  cc_FinishReason :: string

record openAIStreamChunk =
  ck_Usage :: string                \<comment> \<open>the raw member, empty when it is missing\<close>
  ck_Choices :: "chunk_choice list"

text \<open>A generically decoded value; the keys of an object are distinct.\<close>

datatype json = JNull | JBool bool | JNumber rat | JString string | JArray "json list" | JObject "(string \<times> json) list"

definition member :: "string \<Rightarrow> json \<Rightarrow> json option" where
  "member k j = (case j of JObject kvs \<Rightarrow> map_of kvs k | _ \<Rightarrow> None)"

definition string_member :: "string \<Rightarrow> json \<Rightarrow> string" where
  "string_member k j = (case member k j of Some (JString s) \<Rightarrow> s | _ \<Rightarrow> [])"

definition array_member :: "string \<Rightarrow> json \<Rightarrow> json list" where
  "array_member k j = (case member k j of Some (JArray js) \<Rightarrow> js | _ \<Rightarrow> [])"

text \<open>What the converter takes from a chunk: new usage, and the delta of the first choice.\<close>

record chunk_step =
  sp_Usage :: "string option"
  sp_Content :: string
  sp_ToolCalls :: "chunk_call list"
  sp_FinishReason :: string

definition typed_step :: "openAIStreamChunk \<Rightarrow> chunk_step" where
  "typed_step chunk =
     (let usage = go_trim (ck_Usage chunk);
          new_usage = (if usage \<noteq> [] \<and> hd usage = CHR ''{'' then Some usage else None)
      in case ck_Choices chunk of
           [] \<Rightarrow> \<lparr>sp_Usage = new_usage, sp_Content = [], sp_ToolCalls = [], sp_FinishReason = []\<rparr>
         | choice # _ \<Rightarrow> \<lparr>sp_Usage = new_usage, sp_Content = cc_Content choice,
                           sp_ToolCalls = cc_ToolCalls choice, sp_FinishReason = cc_FinishReason choice\<rparr>)"

definition normalizeToolCallIndex :: "json option \<Rightarrow> int option" where
  "normalizeToolCallIndex v = (case v of Some (JNumber r) \<Rightarrow> Some (truncate_rat r) | _ \<Rightarrow> None)"

definition chunkToolCallsFromAny :: "json list \<Rightarrow> chunk_call list" where
  "chunkToolCallsFromAny items =
     List.map_filter (\<lambda>item.
       case item of
         JObject _ \<Rightarrow>
           (case normalizeToolCallIndex (member ''index'' item) of
              None \<Rightarrow> None
            | Some index \<Rightarrow>
                let function = (case member ''function'' item of Some (JObject kvs) \<Rightarrow> JObject kvs | _ \<Rightarrow> JNull)
                in Some \<lparr>tc_Index = Some index, tc_ID = string_member ''id'' item,
                         tc_Name = string_member ''name'' function,
                         tc_Arguments = string_member ''arguments'' function\<rparr>)
       | _ \<Rightarrow> None) items"

definition tolerant_step :: "(json \<Rightarrow> string option) \<Rightarrow> json \<Rightarrow> chunk_step" where
  "tolerant_step marshal chunk =
     (let new_usage = (case member ''usage'' chunk of Some (JObject kvs) \<Rightarrow> marshal (JObject kvs) | _ \<Rightarrow> None)
      in case array_member ''choices'' chunk of
           JObject kvs # _ \<Rightarrow>
             let choice = JObject kvs;
                 delta = (case member ''delta'' choice of Some (JObject kvs) \<Rightarrow> JObject kvs | _ \<Rightarrow> JNull)
             in \<lparr>sp_Usage = new_usage, sp_Content = string_member ''content'' delta,
                 sp_ToolCalls = chunkToolCallsFromAny (array_member ''tool_calls'' delta),
                 sp_FinishReason = string_member ''finish_reason'' choice\<rparr>
         | _ \<Rightarrow> \<lparr>sp_Usage = new_usage, sp_Content = [], sp_ToolCalls = [], sp_FinishReason = []\<rparr>)"

section \<open>The converter\<close>

text \<open>The fields that decide the events: \<open>output\<close>, \<open>toolCalls\<close>, \<open>cachedUsage\<close> and \<open>sentDone\<close>.\<close>

record conv_core =
  co_head :: resp_head
  co_output :: output_state
  co_calls :: "(int \<times> tool_state) list"
  co_usage :: "string option"
  co_sentDone :: bool

definition ensureToolCallState :: "int \<Rightarrow> conv_core \<Rightarrow> tool_state" where
  "ensureToolCallState index c =
     (case map_of (co_calls c) index of
        Some st \<Rightarrow> st
      | None \<Rightarrow>
          \<lparr>ts_ItemID = [], ts_CallID = [], ts_Name = [],
           ts_OutputIndex = (if os_assistantReserved (co_output c) then index + 1 else index),
           ts_Arguments = [], ts_Started = False, ts_Completed = False, ts_PlaceholderObject = False\<rparr>)"

definition set_call :: "int \<Rightarrow> tool_state \<Rightarrow> conv_core \<Rightarrow> conv_core" where
  "set_call index st c = c\<lparr>co_calls := AList.update index st (co_calls c)\<rparr>"

definition reserveAssistantOutput :: "conv_core \<Rightarrow> conv_core" where
  "reserveAssistantOutput c =
     (if os_assistantReserved (co_output c) then c
      else c\<lparr>co_output := (co_output c)\<lparr>os_assistantReserved := True\<rparr>,
             co_calls := map (\<lambda>(i, st).
               (i, if ts_Started st then st else st\<lparr>ts_OutputIndex := ts_OutputIndex st + 1\<rparr>)) (co_calls c)\<rparr>)"

definition forceStartToolCall :: "string \<Rightarrow> tool_state \<Rightarrow> resp_event list \<times> tool_state" where
  "forceStartToolCall uuid st =
     (if ts_Started st then ([], st)
      else StartToolCall uuid False (if go_trim (ts_Name st) = [] then st\<lparr>ts_Name := ''unknown''\<rparr> else st))"

definition completePendingCall :: "string \<Rightarrow> tool_state \<Rightarrow> resp_event list \<times> tool_state" where
  "completePendingCall uuid st =
     (if ts_Completed st then ([], st)
      else case forceStartToolCall uuid st of
          (evs, st) \<Rightarrow>
            if \<not> ts_Started st then (evs, st)
            else case CompleteToolCall False st of (evs', st) \<Rightarrow> (evs @ evs', st))"

fun complete_calls :: "string \<Rightarrow> int list \<Rightarrow> conv_core \<Rightarrow> resp_event list \<times> conv_core" where
  "complete_calls uuid [] c = ([], c)"
| "complete_calls uuid (index # indices) c =
     (case map_of (co_calls c) index of
        None \<Rightarrow> complete_calls uuid indices c
      | Some st \<Rightarrow>
          (case completePendingCall uuid st of
             (evs, st) \<Rightarrow>
               (case complete_calls uuid indices (set_call index st c) of
                  (evs', c) \<Rightarrow> (evs @ evs', c))))"

definition completePendingToolCalls :: "string \<Rightarrow> conv_core \<Rightarrow> resp_event list \<times> conv_core" where
  "completePendingToolCalls uuid c = complete_calls uuid (sort (map fst (co_calls c))) c"

definition complete_assistant :: "string \<Rightarrow> conv_core \<Rightarrow> resp_event list \<times> conv_core" where
  "complete_assistant uuid c =
     (case CompleteAssistantOutput uuid 0 (co_output c) of (evs, os) \<Rightarrow> (evs, c\<lparr>co_output := os\<rparr>))"

definition handle_delta :: "string \<Rightarrow> chunk_call \<Rightarrow> conv_core \<Rightarrow> resp_event list \<times> conv_core" where
  "handle_delta uuid tc c =
     (case tc_Index tc of
        None \<Rightarrow> ([], c)
      | Some index \<Rightarrow>
          let st0 = ensureToolCallState index c;
              st = st0\<lparr>ts_CallID := (if tc_ID tc \<noteq> [] then tc_ID tc else ts_CallID st0),
                       ts_Name := (if tc_Name tc \<noteq> [] then tc_Name tc else ts_Name st0),
                       ts_Arguments := ts_Arguments st0 @ tc_Arguments tc\<rparr>
          in case StartToolCall uuid False st of
               (evs, st) \<Rightarrow>
                 let delta = (if \<not> ts_Started st0 \<and> ts_Arguments st \<noteq> [] then ts_Arguments st else tc_Arguments tc)
                 in (evs @ (if ts_Started st \<and> delta \<noteq> []
                            then [ArgumentsDelta (ts_ItemID st) (ts_OutputIndex st) delta] else []),
                     set_call index st c))"

fun handle_deltas :: "string \<Rightarrow> chunk_call list \<Rightarrow> conv_core \<Rightarrow> resp_event list \<times> conv_core" where
  "handle_deltas uuid [] c = ([], c)"
| "handle_deltas uuid (tc # tcs) c =
     (case handle_delta uuid tc c of
        (evs, c) \<Rightarrow> (case handle_deltas uuid tcs c of (evs', c) \<Rightarrow> (evs @ evs', c)))"

definition handleToolCallDeltas ::
  "string \<Rightarrow> chunk_call list \<Rightarrow> conv_core \<Rightarrow> resp_event list \<times> conv_core" where
  "handleToolCallDeltas uuid tcs c =
     (case (if os_assistantStarted (co_output c) \<and> \<not> os_assistantDone (co_output c)
            then complete_assistant uuid c else ([], c)) of
        (evs, c) \<Rightarrow> (case handle_deltas uuid tcs c of (evs', c) \<Rightarrow> (evs @ evs', c)))"

definition appendTextDelta :: "string \<Rightarrow> string \<Rightarrow> conv_core \<Rightarrow> resp_event list \<times> conv_core" where
  "appendTextDelta uuid content c0 =
     (let c = reserveAssistantOutput c0
      in case StartAssistantOutput uuid 0 (co_output c) of
           (evs, os) \<Rightarrow>
             (evs @ [TextDelta content],
              c\<lparr>co_output := os\<lparr>os_assistantText := os_assistantText os @ content\<rparr>\<rparr>))"

text \<open>One chunk: usage, text, tool calls, and their completion when the upstream announces it.\<close>

definition apply_step :: "string \<Rightarrow> chunk_step \<Rightarrow> conv_core \<Rightarrow> resp_event list \<times> conv_core" where
  "apply_step uuid sp c0 =
     (let c1 = (case sp_Usage sp of None \<Rightarrow> c0 | Some u \<Rightarrow> c0\<lparr>co_usage := Some u\<rparr>)
      in case (if sp_Content sp \<noteq> [] then appendTextDelta uuid (sp_Content sp) c1 else ([], c1)) of
           (evs1, c2) \<Rightarrow>
             (case (if sp_ToolCalls sp \<noteq> [] then handleToolCallDeltas uuid (sp_ToolCalls sp) c2 else ([], c2)) of
                (evs2, c3) \<Rightarrow>
                  (case (if sp_FinishReason sp = ''tool_calls'' then completePendingToolCalls uuid c3 else ([], c3)) of
                     (evs3, c4) \<Rightarrow> (evs1 @ evs2 @ evs3, c4))))"

definition appendCompletedEvents :: "string \<Rightarrow> conv_core \<Rightarrow> resp_event list \<times> conv_core" where
  "appendCompletedEvents uuid c0 =
     (if co_sentDone c0 then ([], c0)
      else case complete_assistant uuid (c0\<lparr>co_sentDone := True\<rparr>) of
          (evs, c) \<Rightarrow>
            (case completePendingToolCalls uuid c of
               (evs', c) \<Rightarrow> (evs @ evs' @ [ResponseCompleted (co_head c) (co_usage c)], c)))"

section \<open>Reading\<close>

record conv_env =
  ce_uuid :: string
  ce_encode :: "resp_event \<Rightarrow> string option"
  ce_typed :: "string \<Rightarrow> openAIStreamChunk option"
  ce_any :: "string \<Rightarrow> json option"
  ce_marshal :: "json \<Rightarrow> string option"

definition chunk_of :: "conv_env \<Rightarrow> string \<Rightarrow> chunk_step option" where
  "chunk_of env data =
     (case ce_typed env data of
        Some chunk \<Rightarrow> Some (typed_step chunk)
      | None \<Rightarrow> map_option (tolerant_step (ce_marshal env)) (ce_any env data))"

definition line_events :: "conv_env \<Rightarrow> string \<Rightarrow> conv_core \<Rightarrow> resp_event list \<times> conv_core" where
  "line_events env line0 c =
     (let line = go_trim line0
      in if \<not> has_prefix line ''data: '' then ([], c)
         else let data = drop 6 line
              in if data = donePayload then appendCompletedEvents (ce_uuid env) c
                 else case chunk_of env data of
                     None \<Rightarrow> ([], c)
                   | Some sp \<Rightarrow> apply_step (ce_uuid env) sp c)"

record converter =
  cv_core :: conv_core
  cv_buffer :: stream_buffer
  cv_line :: stream_buffer
  cv_closed :: bool
  cv_sentCreate :: bool

definition NewOpenAIResponsesStreamConverter :: "resp_head \<Rightarrow> converter" where
  "NewOpenAIResponsesStreamConverter head =
     \<lparr>cv_core = \<lparr>co_head = head, co_output = NewResponsesOutputEventState, co_calls = [], co_usage = None,
                 co_sentDone = False\<rparr>,
      cv_buffer = NewStreamBuffer, cv_line = NewStreamBuffer, cv_closed = False, cv_sentCreate = False\<rparr>"

text \<open>Writes one after another are one write of their concatenation.\<close>

definition write_events :: "conv_env \<Rightarrow> resp_event list \<times> conv_core \<Rightarrow> converter \<Rightarrow> converter" where
  "write_events env r s =
     s\<lparr>cv_core := snd r, cv_buffer := AppendBytes (concat (map (WriteEvent (ce_encode env)) (fst r))) (cv_buffer s)\<rparr>"

lemma write_events_fields [simp]:
  "cv_line (write_events env r s) = cv_line s" "cv_core (write_events env r s) = snd r"
  "cv_closed (write_events env r s) = cv_closed s" "cv_sentCreate (write_events env r s) = cv_sentCreate s"
  "Unread (cv_buffer (write_events env r s)) =
     Unread (cv_buffer s) @ concat (map (WriteEvent (ce_encode env)) (fst r))"
  by (simp_all add: write_events_def Unread_AppendBytes)

function process_lines :: "conv_env \<Rightarrow> converter \<Rightarrow> converter" where
  "process_lines env s =
     (case cut LF (Unread (cv_line s)) of
        None \<Rightarrow> s
      | Some (line, _) \<Rightarrow>
          let s' = s\<lparr>cv_line := Consume (int (length line) + 1) (cv_line s)\<rparr>
          in process_lines env (write_events env (line_events env line (cv_core s')) s'))"
  by pat_completeness auto
termination
  by (relation "measure (\<lambda>(env, s). length (Unread (cv_line s)))")
    (auto simp: Unread_Consume cut_Some_iff nat_add_distrib)

declare process_lines.simps [simp del]

definition release_buffers :: "converter \<Rightarrow> converter" where
  "release_buffers s = s\<lparr>cv_buffer := sb_Release (cv_buffer s), cv_line := sb_Release (cv_line s)\<rparr>"

definition read_buffer :: "nat \<Rightarrow> converter \<Rightarrow> string \<times> converter" where
  "read_buffer k s = (case sb_Read k (cv_buffer s) of (p, b) \<Rightarrow> (p, s\<lparr>cv_buffer := b\<rparr>))"

definition cv_Read ::
  "conv_env \<Rightarrow> nat \<Rightarrow> 'e answer list \<Rightarrow> converter \<Rightarrow> 'e answer \<times> 'e answer list \<times> converter" where
  "cv_Read env k up s =
     (if cv_closed s then (([], Ended), up, s)
      else if sb_Len (cv_buffer s) > 0 then (case read_buffer k s of (p, s) \<Rightarrow> ((p, More), up, s))
      else if \<not> cv_sentCreate s then
        (case read_buffer k (write_events env ([ResponseCreated (co_head (cv_core s))], cv_core s)
               (s\<lparr>cv_sentCreate := True\<rparr>)) of
           (p, s) \<Rightarrow> ((p, More), up, s))
      else
        let (data, ending) = (case up of [] \<Rightarrow> ([], Ended) | a # _ \<Rightarrow> a);
            s1 = (if data \<noteq> [] then process_lines env (s\<lparr>cv_line := AppendBytes data (cv_line s)\<rparr>) else s)
        in case ending of
             Failed e \<Rightarrow> (([], Failed e), tl up, s1)
           | Ended \<Rightarrow>
               let s2 = write_events env (appendCompletedEvents (ce_uuid env) (cv_core s1)) s1
               in if sb_Len (cv_buffer s2) > 0
                  then (case read_buffer k s2 of (p, s3) \<Rightarrow> ((p, More), tl up, s3))
                  else (([], Ended), tl up, release_buffers (s2\<lparr>cv_closed := True\<rparr>))
           | More \<Rightarrow>
               if sb_Len (cv_buffer s1) > 0
               then (case read_buffer k s1 of (p, s2) \<Rightarrow> ((p, More), tl up, s2))
               else (([], More), tl up, s1))"

definition cv_Close :: "converter \<Rightarrow> converter" where
  "cv_Close s = release_buffers (s\<lparr>cv_closed := True\<rparr>)"

section \<open>The stream as a whole\<close>

fun line_run :: "conv_env \<Rightarrow> string list \<Rightarrow> conv_core \<Rightarrow> resp_event list \<times> conv_core" where
  "line_run env [] c = ([], c)"
| "line_run env (l # ls) c =
     (case line_events env l c of (evs, c) \<Rightarrow> (case line_run env ls c of (evs', c) \<Rightarrow> (evs @ evs', c)))"

definition complete_lines :: "string \<Rightarrow> string list" where
  "complete_lines bytes = butlast (split_on LF bytes)"

definition later_events :: "conv_env \<Rightarrow> conv_core \<Rightarrow> string \<Rightarrow> resp_event list" where
  "later_events env c bytes =
     (case line_run env (complete_lines bytes) c of (evs, c) \<Rightarrow> evs @ fst (appendCompletedEvents (ce_uuid env) c))"

definition rendered :: "conv_env \<Rightarrow> resp_event list \<Rightarrow> string" where
  "rendered env evs = concat (map (WriteEvent (ce_encode env)) evs)"

lemma rendered_append [simp]: "rendered env (a @ b) = rendered env a @ rendered env b" "rendered env [] = []"
  by (simp_all add: rendered_def)

lemma line_run_append:
  "line_run env (a @ b) c =
     (fst (line_run env a c) @ fst (line_run env b (snd (line_run env a c))),
      snd (line_run env b (snd (line_run env a c))))"
  by (induction a arbitrary: c) (simp_all add: case_prod_beta)

lemma split_on_extend: "split_on c (a @ b) = butlast (split_on c a) @ split_on c (last (split_on c a) @ b)"
  by (induction a) (auto split: list.splits)

lemma complete_lines_Cons: "complete_lines (line @ LF # rest) = line # complete_lines rest" if "LF \<notin> set line"
  using that by (simp add: complete_lines_def split_on_append)

lemma last_split_Cons: "last (split_on LF (line @ LF # rest)) = last (split_on LF rest)" if "LF \<notin> set line"
  using that by (simp add: split_on_append)

lemma process_lines_spec:
  "Unread (cv_line (process_lines env s)) = last (split_on LF (Unread (cv_line s)))
   \<and> cv_core (process_lines env s) = snd (line_run env (complete_lines (Unread (cv_line s))) (cv_core s))
   \<and> Unread (cv_buffer (process_lines env s)) =
       Unread (cv_buffer s) @ rendered env (fst (line_run env (complete_lines (Unread (cv_line s))) (cv_core s)))
   \<and> cv_closed (process_lines env s) = cv_closed s \<and> cv_sentCreate (process_lines env s) = cv_sentCreate s"
proof (induction env s rule: process_lines.induct)
  case (1 env s)
  show ?case
  proof (cases "cut LF (Unread (cv_line s))")
    case None
    then have "split_on LF (Unread (cv_line s)) = [Unread (cv_line s)]"
      by (simp add: cut_None_iff split_on_no_sep)
    with None show ?thesis by (simp add: process_lines.simps [of env s] complete_lines_def)
  next
    case (Some r)
    then obtain line rest where r: "cut LF (Unread (cv_line s)) = Some (line, rest)" by (cases r) auto
    then have u: "Unread (cv_line s) = line @ LF # rest" "LF \<notin> set line" by (simp_all add: cut_Some_iff)
    let ?s = "s\<lparr>cv_line := Consume (int (length line) + 1) (cv_line s)\<rparr>"
    let ?t = "write_events env (line_events env line (cv_core ?s)) ?s"
    have rest: "Unread (cv_line ?t) = rest" by (simp add: Unread_Consume u(1) nat_add_distrib)
    have step: "process_lines env s = process_lines env ?t"
      by (simp add: process_lines.simps [of env s] r)
    note IH = 1 [OF r refl refl, unfolded rest]
    show ?thesis
      unfolding step u(1) complete_lines_Cons [OF u(2)] last_split_Cons [OF u(2)]
      using IH by (simp add: case_prod_beta rendered_def)
  qed
qed

section \<open>What the reads deliver\<close>

definition remaining :: "conv_env \<Rightarrow> 'e answer list \<Rightarrow> converter \<Rightarrow> string" where
  "remaining env up s =
     Unread (cv_buffer s)
     @ rendered env (if cv_sentCreate s then [] else [ResponseCreated (co_head (cv_core s))])
     @ rendered env (later_events env (cv_core s) (Unread (cv_line s) @ concat (map fst up)))"

lemma later_events_split:
  "later_events env c (a @ b) =
     fst (line_run env (complete_lines a) c) @
     later_events env (snd (line_run env (complete_lines a) c)) (last (split_on LF a) @ b)"
  unfolding later_events_def complete_lines_def
  by (subst split_on_extend) (simp add: butlast_append line_run_append case_prod_beta)

lemma last_split_no_sep: "c \<notin> set (last (split_on c s))"
  using split_on_members last_in_set split_on_nonempty by metis

lemma complete_lines_fragment: "complete_lines (last (split_on LF s)) = []"
  by (simp add: complete_lines_def split_on_no_sep [OF last_split_no_sep])

lemma sentDone_completed: "co_sentDone (snd (appendCompletedEvents u c))"
proof -
  have [simp]: "co_sentDone (set_call i st c) = co_sentDone c" for i st c by (simp add: set_call_def)
  have "co_sentDone (snd (complete_calls u is c)) = co_sentDone c" for "is" c
    by (induction "is" arbitrary: c) (simp_all add: case_prod_beta split: option.split)
  then show ?thesis
    by (simp add: appendCompletedEvents_def complete_assistant_def completePendingToolCalls_def case_prod_beta)
qed

lemma later_events_done: "co_sentDone c \<Longrightarrow> complete_lines x = [] \<Longrightarrow> later_events env c x = []"
  by (simp add: later_events_def appendCompletedEvents_def)

lemma read_buffer_queue:
  "fst (read_buffer k s) = take k (Unread (cv_buffer s))"
  "Unread (cv_buffer (snd (read_buffer k s))) = drop k (Unread (cv_buffer s))"
  "cv_line (snd (read_buffer k s)) = cv_line s" "cv_core (snd (read_buffer k s)) = cv_core s"
  "cv_closed (snd (read_buffer k s)) = cv_closed s" "cv_sentCreate (snd (read_buffer k s)) = cv_sentCreate s"
  using sb_Read_queue [of k "cv_buffer s"] by (simp_all add: read_buffer_def case_prod_beta)

lemma remaining_read_buffer: "fst (read_buffer k s) @ remaining env up (snd (read_buffer k s)) = remaining env up s"
  by (simp add: remaining_def read_buffer_queue)

text \<open>The upstream's next answer is processed: what remains is the same.\<close>

definition fed :: "conv_env \<Rightarrow> string \<Rightarrow> converter \<Rightarrow> converter" where
  "fed env data s =
     (if data \<noteq> [] then process_lines env (s\<lparr>cv_line := AppendBytes data (cv_line s)\<rparr>) else s)"

lemma remaining_fed:
  assumes "cv_sentCreate s" "LF \<notin> set (Unread (cv_line s))"
  shows "remaining env up (fed env data s) = remaining env ((data, e) # up) s"
    and "cv_sentCreate (fed env data s)" "cv_closed (fed env data s) = cv_closed s"
    and "LF \<notin> set (Unread (cv_line (fed env data s)))"
proof -
  let ?s = "s\<lparr>cv_line := AppendBytes data (cv_line s)\<rparr>"
  have u: "Unread (cv_line ?s) = Unread (cv_line s) @ data" by (simp add: Unread_AppendBytes)
  note P = process_lines_spec [of env ?s, unfolded u]
  show "cv_sentCreate (fed env data s)" "cv_closed (fed env data s) = cv_closed s"
    using P assms(1) by (simp_all add: fed_def)
  show "LF \<notin> set (Unread (cv_line (fed env data s)))"
    using P assms(2) last_split_no_sep by (simp add: fed_def)
  show "remaining env up (fed env data s) = remaining env ((data, e) # up) s"
  proof (cases "data = []")
    case True
    then show ?thesis by (simp add: fed_def remaining_def)
  next
    case False
    then show ?thesis
      using P assms(1) later_events_split [of env "cv_core s" "Unread (cv_line s) @ data" "concat (map fst up)"]
      by (simp add: fed_def remaining_def)
  qed
qed

text \<open>How much is left to do.\<close>

definition work :: "conv_env \<Rightarrow> 'e answer list \<Rightarrow> converter \<Rightarrow> nat" where
  "work env up s = length (remaining env up s) + length up + of_bool (\<not> cv_sentCreate s)"

definition reading :: "'e answer list \<Rightarrow> converter \<Rightarrow> bool" where
  "reading up s \<longleftrightarrow> ends up \<and> \<not> cv_closed s \<and> LF \<notin> set (Unread (cv_line s))"

lemma read_buffer_step:
  assumes "reading up s" "0 < k" "sb_Len (cv_buffer s) > 0" "read_buffer k s = (p, s')"
  shows "p @ remaining env up s' = remaining env up s" "reading up s'" "work env up s' < work env up s"
proof -
  have r: "p = fst (read_buffer k s)" "s' = snd (read_buffer k s)" by (simp_all add: assms(4))
  show eq: "p @ remaining env up s' = remaining env up s" unfolding r by (rule remaining_read_buffer)
  show "reading up s'" using assms(1) by (simp add: reading_def r read_buffer_queue)
  have "p \<noteq> []" using assms(2,3) by (simp add: r read_buffer_queue sb_Len_Unread)
  moreover have "cv_sentCreate s' = cv_sentCreate s" by (simp add: r read_buffer_queue)
  ultimately show "work env up s' < work env up s"
    using arg_cong [OF eq, of length] by (cases p) (simp_all add: work_def)
qed

lemma ends_tl: "ends (a # up) \<Longrightarrow> snd a \<noteq> Failed e" "ends (a # up) \<Longrightarrow> snd a = More \<Longrightarrow> ends up"
  "ends (a # up) \<Longrightarrow> snd a = Ended \<Longrightarrow> up = []"
  by (auto simp: ends_def split: if_splits)

lemma remaining_complete:
  assumes "cv_sentCreate s" "LF \<notin> set (Unread (cv_line s))"
  shows "remaining env [] (write_events env (appendCompletedEvents (ce_uuid env) (cv_core s)) s) = remaining env [] s"
    and "remaining env [] (write_events env (appendCompletedEvents (ce_uuid env) (cv_core s)) s) =
      Unread (cv_buffer (write_events env (appendCompletedEvents (ce_uuid env) (cv_core s)) s))"
proof -
  have c: "complete_lines (Unread (cv_line s)) = []"
    by (simp add: complete_lines_def split_on_no_sep [OF assms(2)])
  note d = later_events_done [OF sentDone_completed c]
  show "remaining env [] (write_events env (appendCompletedEvents (ce_uuid env) (cv_core s)) s) = remaining env [] s"
    "remaining env [] (write_events env (appendCompletedEvents (ce_uuid env) (cv_core s)) s) =
      Unread (cv_buffer (write_events env (appendCompletedEvents (ce_uuid env) (cv_core s)) s))"
    using assms(1) d c by (simp_all add: remaining_def rendered_def later_events_def)
qed

lemma read_step:
  assumes "reading up s" "0 < k" "cv_Read env k up s = ((p, e), up', s')"
  shows "(e = More \<and> p @ remaining env up' s' = remaining env up s \<and> reading up' s' \<and> work env up' s' < work env up s)
    \<or> (e = Ended \<and> p = [] \<and> remaining env up s = [] \<and> cv_closed s')"
proof -
  have open_s: "\<not> cv_closed s" "LF \<notin> set (Unread (cv_line s))" using assms(1) by (simp_all add: reading_def)
  show ?thesis
  proof (cases "sb_Len (cv_buffer s) > 0")
    case True
    with open_s assms(3) have "read_buffer k s = (p, s')" "e = More" "up' = up"
      by (auto simp: cv_Read_def split: prod.splits)
    with read_buffer_step [OF assms(1,2) True] show ?thesis by blast
  next
    case empty: False
    then have b: "Unread (cv_buffer s) = []" by (simp add: sb_Len_Unread)
    show ?thesis
    proof (cases "cv_sentCreate s")
      case False
      let ?t = "write_events env ([ResponseCreated (co_head (cv_core s))], cv_core s) (s\<lparr>cv_sentCreate := True\<rparr>)"
      have t: "read_buffer k ?t = (p, s')" "e = More" "up' = up"
        using False open_s(1) empty assms(3) by (auto simp: cv_Read_def split: prod.splits)
      have "remaining env up ?t = remaining env up s" using False b by (simp add: remaining_def rendered_def)
      moreover have "reading up s'" "cv_sentCreate s'"
        using assms(1) arg_cong [OF t(1), of snd] by (auto simp: reading_def read_buffer_queue)
      moreover have eq: "p @ remaining env up s' = remaining env up ?t"
        using remaining_read_buffer [of k ?t env up] t(1) by simp
      moreover have "length (remaining env up s') \<le> length (remaining env up ?t)"
        using eq by (metis length_append le_add2)
      ultimately show ?thesis using False t(2,3) by (simp add: work_def)
    next
      case sent: True
      obtain data ending where a: "(case up of [] \<Rightarrow> ([], Ended) | a # _ \<Rightarrow> a) = (data, ending)" by force
      let ?t = "fed env data s"
      let ?u = "write_events env (appendCompletedEvents (ce_uuid env) (cv_core ?t)) ?t"
      have R: "remaining env (tl up) ?t = remaining env up s"
      proof (cases up)
        case Nil
        with a have "data = []" by simp
        with Nil show ?thesis by (simp add: fed_def)
      next
        case (Cons x xs)
        with a have "up = (data, ending) # tl up" by simp
        with remaining_fed(1) [OF sent open_s(2)] show ?thesis by metis
      qed
      note F = remaining_fed(2-4) [OF sent open_s(2), of env data]
      have tl: "reading (tl up) ?t" if "ending = More"
        using a that assms(1) F open_s(1) by (cases up) (auto simp: reading_def dest: ends_tl(2))
      have "up \<noteq> []" if "ending = More" using a that by (cases up) auto
      then have less: "work env (tl up) ?t < work env up s" if "ending = More"
        using R that sent F(1) by (cases up) (auto simp: work_def)
      have nil: "tl up = []" if "ending = Ended"
        using a that assms(1) by (cases up) (auto simp: reading_def dest: ends_tl(3))
      have "ending \<noteq> Failed x" for x
        using a assms(1) by (cases up) (auto simp: reading_def dest: ends_tl(1))
      then consider (go) "ending = More" | (stop) "ending = Ended" by (cases ending) auto
      then show ?thesis
      proof cases
        case go
        show ?thesis
        proof (cases "sb_Len (cv_buffer ?t) > 0")
          case True
          with go open_s(1) empty sent assms(3) a have "read_buffer k ?t = (p, s')" "e = More" "up' = tl up"
            by (auto simp: cv_Read_def fed_def split: prod.splits)
          with read_buffer_step [OF tl [OF go] assms(2) True] R less [OF go] show ?thesis by (metis order_less_trans)
        next
          case False
          with go open_s(1) empty sent assms(3) a have "p = []" "s' = ?t" "e = More" "up' = tl up"
            by (auto simp: cv_Read_def fed_def split: prod.splits)
          with R tl [OF go] less [OF go] show ?thesis by simp
        qed
      next
        case stop
        have C: "remaining env (tl up) ?u = remaining env (tl up) ?t"
          "remaining env (tl up) ?u = Unread (cv_buffer ?u)"
          unfolding nil [OF stop] by (rule remaining_complete [OF F(1,3)])+
        show ?thesis
        proof (cases "sb_Len (cv_buffer ?u) > 0")
          case True
          with stop open_s(1) empty sent assms(3) a have r: "read_buffer k ?u = (p, s')" "e = More" "up' = tl up"
            by (auto simp: cv_Read_def fed_def Let_def split: prod.splits)
          have "reading (tl up) ?u" using F open_s(1) nil [OF stop] by (simp add: reading_def ends_def)
          note step = read_buffer_step [OF this assms(2) True r(1)]
          have eq: "remaining env (tl up) ?u = remaining env up s" using C(1) R by simp
          then have "work env (tl up) ?u \<le> work env up s"
            using nil [OF stop] sent F(1) by (simp add: work_def)
          with step r eq show ?thesis by (metis order_less_le_trans)
        next
          case False
          with stop open_s(1) empty sent assms(3) a have "p = []" "e = Ended" "cv_closed s'"
            by (auto simp: cv_Read_def fed_def Let_def release_buffers_def split: prod.splits)
          moreover have "Unread (cv_buffer ?u) = []" using False by (simp only: sb_Len_Unread length_0_conv not_gr_zero)
          then have "remaining env up s = []" using C R by metis
          ultimately show ?thesis by simp
        qed
      qed
    qed
  qed
qed

section \<open>All reads\<close>

interpretation cv: byte_stream "cv_Read env" reading "remaining env" "work env" for env
  using read_step by unfold_locales blast

text \<open>The events of a whole upstream.\<close>

definition converted :: "conv_env \<Rightarrow> resp_head \<Rightarrow> string \<Rightarrow> resp_event list" where
  "converted env head bytes =
     ResponseCreated head # later_events env (cv_core (NewOpenAIResponsesStreamConverter head)) bytes"

text \<open>
  What a reader of the converter receives does not depend on how the upstream's bytes were cut into
  reads, nor on the sizes of the reader's own buffers: it is a prefix of the rendering of the events
  of the whole upstream, and after boundedly many reads it is all of it, followed by the end.
\<close>

lemma converted_stream_delivered:
  assumes "ends up" "\<forall>k \<in> set ks. 0 < k"
    and "read_all (cv_Read env) ks up (NewOpenAIResponsesStreamConverter head) = (out, e, up', s')"
    and "full = rendered env (converted env head (concat (map fst up)))"
  shows "(e = Ended \<and> out = full)
    \<or> (e = More \<and> length ks \<le> length full + length up + 1 \<and> (\<exists>rest. full = out @ rest))"
proof -
  let ?s = "NewOpenAIResponsesStreamConverter head"
  have u: "Unread NewStreamBuffer = []" by (simp add: Unread_def sb_Len_def NewStreamBuffer_def sb_bytes_def)
  have r: "reading up ?s" using assms(1) u by (simp add: reading_def NewOpenAIResponsesStreamConverter_def)
  have m: "remaining env up ?s = full"
    using u by (simp add: remaining_def assms(4) converted_def rendered_def NewOpenAIResponsesStreamConverter_def)
  have "work env up ?s = length full + length up + 1"
    unfolding work_def m by (simp add: NewOpenAIResponsesStreamConverter_def)
  with cv.read_all_delivers [OF r assms(2,3)] m show ?thesis by (metis add_leD1)
qed

text \<open>A stream of one text chunk, read in small pieces.\<close>

definition text_chunk :: "string \<Rightarrow> openAIStreamChunk" where
  "text_chunk t = \<lparr>ck_Usage = [], ck_Choices = [\<lparr>cc_Content = t, cc_ToolCalls = [], cc_FinishReason = []\<rparr>]\<rparr>"

definition demo_conv_env :: conv_env where
  "demo_conv_env =
     \<lparr>ce_uuid = ''u'', ce_encode = (\<lambda>ev. case ev of TextDelta t \<Rightarrow> Some t | _ \<Rightarrow> Some ''{}''),
      ce_typed = (\<lambda>data. Some (text_chunk data)), ce_any = Map.empty, ce_marshal = Map.empty\<rparr>"

definition demo_head :: resp_head where
  "demo_head = \<lparr>rh_id = ''r'', rh_model = ''m'', rh_provider = ''p'', rh_created_at = 0\<rparr>"

definition demo_upstream :: "unit answer list" where
  "demo_upstream = [(''data: h'', More), (''i'' @ [LF, LF], More), (''data: [DONE]'' @ [LF], More), ([], Ended)]"

lemma converted_stream_delivered_witness:
  "fst (read_all (cv_Read demo_conv_env) (replicate 500 7) demo_upstream (NewOpenAIResponsesStreamConverter demo_head)) =
     rendered demo_conv_env (converted demo_conv_env demo_head (''data: hi'' @ [LF, LF] @ ''data: [DONE]'' @ [LF]))
   \<and> TextDelta ''hi'' \<in> set (converted demo_conv_env demo_head (''data: hi'' @ [LF, LF] @ ''data: [DONE]'' @ [LF]))"
proof -
  let ?bytes = "''data: hi'' @ [LF, LF] @ ''data: [DONE]'' @ [LF]"
  let ?full = "rendered demo_conv_env (converted demo_conv_env demo_head ?bytes)"
  have bytes: "concat (map fst demo_upstream) = ?bytes" by (simp add: demo_upstream_def)
  have evs: "TextDelta ''hi'' \<in> set (converted demo_conv_env demo_head ?bytes)" by code_simp
  have len: "length ?full \<le> 490" by code_simp
  have "ends demo_upstream" by (simp add: ends_def demo_upstream_def)
  moreover obtain out e up s where
    "read_all (cv_Read demo_conv_env) (replicate 500 7) demo_upstream (NewOpenAIResponsesStreamConverter demo_head) = (out, e, up, s)"
    by (metis prod.exhaust)
  ultimately show ?thesis
    using converted_stream_delivered [of demo_upstream "replicate 500 7" demo_conv_env demo_head out e up s ?full] bytes len evs
    by (simp add: demo_upstream_def)
qed

text \<open>A last line that the upstream does not end with a line feed is never converted.\<close>

lemma unterminated_line_lost:
  "TextDelta ''hi'' \<notin> set (converted demo_conv_env demo_head ''data: hi'')"
  by code_simp

end
