(* ===== verification/ResponsesClient.thy ===== *)
theory ResponsesClient
  imports ResponsesStream
begin

text \<open>
  A client of the Responses API that follows the events of the converter (\<open>ResponsesStream\<close>), and what
  it rebuilds: the text and the function calls that the upstream's chunks spell.
\<close>

section \<open>A client\<close>

record message_view =
  mv_id :: string
  mv_index :: int
  mv_text :: string             \<comment> \<open>what the deltas spell\<close>
  mv_done :: bool

record call_view =
  vw_id :: string
  vw_args :: string             \<comment> \<open>what the deltas spell\<close>
  vw_final :: "string option"   \<comment> \<open>the arguments announced as complete\<close>
  vw_done :: "(string \<times> string \<times> string) option"  \<comment> \<open>call id, name and arguments of the finished item\<close>

record client =
  cl_created :: bool
  cl_completed :: bool
  cl_message :: "message_view option"
  cl_calls :: "(int \<times> call_view) list"

definition new_client :: client where
  "new_client = \<lparr>cl_created = False, cl_completed = False, cl_message = None, cl_calls = []\<rparr>"

text \<open>An event out of order is refused: before the response is created or after it is completed, an item
  added at an index that is taken, an event of an item that is not open, or a finished item that
  differs from what its deltas spelled.\<close>

definition free_index :: "client \<Rightarrow> int \<Rightarrow> bool" where
  "free_index cl i \<longleftrightarrow>
     map_of (cl_calls cl) i = None \<and> (case cl_message cl of None \<Rightarrow> True | Some m \<Rightarrow> mv_index m \<noteq> i)"

definition client_step :: "client \<Rightarrow> resp_event \<Rightarrow> client option" where
  "client_step cl ev =
     (case ev of
        ResponseCreated _ \<Rightarrow> if cl_created cl then None else Some (cl\<lparr>cl_created := True\<rparr>)
      | _ \<Rightarrow>
        if \<not> cl_created cl \<or> cl_completed cl then None
        else (case ev of
            ItemAdded (MessageItem iid _ _) i \<Rightarrow>
              if cl_message cl = None \<and> free_index cl i
              then Some (cl\<lparr>cl_message := Some \<lparr>mv_id = iid, mv_index = i, mv_text = [], mv_done = False\<rparr>\<rparr>)
              else None
          | ItemAdded (CallItem iid _ _ _ _) i \<Rightarrow>
              if free_index cl i
              then Some (cl\<lparr>cl_calls := AList.update i
                     \<lparr>vw_id = iid, vw_args = [], vw_final = None, vw_done = None\<rparr> (cl_calls cl)\<rparr>)
              else None
          | TextDelta d \<Rightarrow>
              (case cl_message cl of
                 None \<Rightarrow> None
               | Some m \<Rightarrow>
                   if mv_done m then None
                   else Some (cl\<lparr>cl_message := Some (m\<lparr>mv_text := mv_text m @ d\<rparr>)\<rparr>))
          | ItemDone (MessageItem iid _ text) i \<Rightarrow>
              (case cl_message cl of
                 None \<Rightarrow> None
               | Some m \<Rightarrow>
                   if \<not> mv_done m \<and> mv_id m = iid \<and> mv_index m = i \<and> text = Some (mv_text m)
                   then Some (cl\<lparr>cl_message := Some (m\<lparr>mv_done := True\<rparr>)\<rparr>) else None)
          | ArgumentsDelta iid i d \<Rightarrow>
              (case map_of (cl_calls cl) i of
                 None \<Rightarrow> None
               | Some v \<Rightarrow>
                   if vw_id v = iid \<and> vw_final v = None
                   then Some (cl\<lparr>cl_calls := AList.update i (v\<lparr>vw_args := vw_args v @ d\<rparr>) (cl_calls cl)\<rparr>)
                   else None)
          | ArgumentsDone iid i a \<Rightarrow>
              (case map_of (cl_calls cl) i of
                 None \<Rightarrow> None
               | Some v \<Rightarrow>
                   if vw_id v = iid \<and> vw_final v = None \<and> vw_args v \<in> {[], a}
                   then Some (cl\<lparr>cl_calls := AList.update i (v\<lparr>vw_final := Some a\<rparr>) (cl_calls cl)\<rparr>)
                   else None)
          | ItemDone (CallItem iid _ cid name a) i \<Rightarrow>
              (case map_of (cl_calls cl) i of
                 None \<Rightarrow> None
               | Some v \<Rightarrow>
                   if vw_id v = iid \<and> vw_final v = Some a \<and> vw_done v = None
                   then Some (cl\<lparr>cl_calls := AList.update i (v\<lparr>vw_done := Some (cid, name, a)\<rparr>) (cl_calls cl)\<rparr>)
                   else None)
          | ResponseCompleted _ _ \<Rightarrow> Some (cl\<lparr>cl_completed := True\<rparr>)
          | ResponseCreated _ \<Rightarrow> None))"

fun client_run :: "client \<Rightarrow> resp_event list \<Rightarrow> client option" where
  "client_run cl [] = Some cl"
| "client_run cl (ev # evs) = (case client_step cl ev of None \<Rightarrow> None | Some cl \<Rightarrow> client_run cl evs)"

lemma client_run_append:
  "client_run cl (a @ b) = (case client_run cl a of None \<Rightarrow> None | Some cl \<Rightarrow> client_run cl b)"
  by (induction a arbitrary: cl) (auto split: option.split)

section \<open>What the chunks spell\<close>

definition upstream_text :: "chunk_step list \<Rightarrow> string" where
  "upstream_text sps = concat (map sp_Content sps)"

type_synonym spelled = "int \<Rightarrow> (string \<times> string \<times> string) option"   \<comment> \<open>call id, name, arguments\<close>

definition spell_call :: "chunk_call \<Rightarrow> spelled \<Rightarrow> spelled" where
  "spell_call tc m =
     (case tc_Index tc of
        None \<Rightarrow> m
      | Some i \<Rightarrow>
          (case (case m i of None \<Rightarrow> ([], [], []) | Some c \<Rightarrow> c) of
             (cid, name, a) \<Rightarrow>
               m(i \<mapsto> (if tc_ID tc \<noteq> [] then tc_ID tc else cid,
                      if tc_Name tc \<noteq> [] then tc_Name tc else name, a @ tc_Arguments tc))))"

definition upstream_calls :: "chunk_step list \<Rightarrow> spelled" where
  "upstream_calls sps = fold spell_call (concat (map sp_ToolCalls sps)) Map.empty"

text \<open>An orderly upstream spells its text before its tool calls, and nothing of them after it has
  announced that they are complete. Identifiers and names are not blank, indices not negative.\<close>

definition orderly_call :: "chunk_call \<Rightarrow> bool" where
  "orderly_call tc \<longleftrightarrow>
     (case tc_Index tc of None \<Rightarrow> True | Some i \<Rightarrow> i \<ge> 0) \<and>
     (tc_ID tc = [] \<or> go_trim (tc_ID tc) \<noteq> []) \<and> (tc_Name tc = [] \<or> go_trim (tc_Name tc) \<noteq> [])"

fun orderly :: "bool \<Rightarrow> bool \<Rightarrow> chunk_step list \<Rightarrow> bool" where
  "orderly tools finished [] = True"
| "orderly tools finished (sp # sps) =
     ((sp_Content sp \<noteq> [] \<longrightarrow> \<not> tools \<and> \<not> finished) \<and>
      (sp_ToolCalls sp \<noteq> [] \<longrightarrow> \<not> finished) \<and> list_all orderly_call (sp_ToolCalls sp) \<and>
      orderly (tools \<or> sp_ToolCalls sp \<noteq> []) (finished \<or> sp_FinishReason sp = ''tool_calls'') sps)"

fun step_run :: "string \<Rightarrow> chunk_step list \<Rightarrow> conv_core \<Rightarrow> resp_event list \<times> conv_core" where
  "step_run uuid [] c = ([], c)"
| "step_run uuid (sp # sps) c =
     (case apply_step uuid sp c of (evs, c) \<Rightarrow> (case step_run uuid sps c of (evs', c) \<Rightarrow> (evs @ evs', c)))"

definition answer_events :: "string \<Rightarrow> resp_head \<Rightarrow> chunk_step list \<Rightarrow> resp_event list" where
  "answer_events uuid head sps =
     (case step_run uuid sps (cv_core (NewOpenAIResponsesStreamConverter head)) of
        (evs, c) \<Rightarrow> ResponseCreated head # evs @ fst (appendCompletedEvents uuid c))"

section \<open>The client follows the converter\<close>

text \<open>One function call as the converter and the client see it; \<open>fin\<close> says that it was completed.\<close>

definition call_tracked ::
  "bool \<Rightarrow> (string \<times> string \<times> string) option \<Rightarrow> tool_state option \<Rightarrow> call_view option \<Rightarrow> bool" where
  "call_tracked fin spelled st view \<longleftrightarrow>
     (case (spelled, st) of
        (None, None) \<Rightarrow> view = None
      | (Some (cid, name, a), Some st) \<Rightarrow>
          ts_CallID st = cid \<and> ts_Arguments st = a \<and> \<not> ts_PlaceholderObject st \<and>
          (cid = [] \<or> go_trim cid \<noteq> []) \<and> (name = [] \<or> go_trim name \<noteq> []) \<and>
          (if fin \<and> cid \<noteq> [] then
             ts_Started st \<and> ts_Completed st \<and>
             (\<exists>v. view = Some v \<and> vw_done v = Some (cid, if name = [] then ''unknown'' else name, a))
           else
             \<not> ts_Completed st \<and> (ts_Name st = name \<or> fin) \<and> (ts_Started st \<longleftrightarrow> cid \<noteq> [] \<and> name \<noteq> []) \<and>
             view = (if ts_Started st then Some \<lparr>vw_id = ts_ItemID st, vw_args = a, vw_final = None, vw_done = None\<rparr>
                     else None))
      | _ \<Rightarrow> False)"

lemma call_tracked_None [simp]:
  "call_tracked fin spelled None view \<longleftrightarrow> spelled = None \<and> view = None"
  "call_tracked fin None (Some st) view \<longleftrightarrow> False"
  by (auto simp: call_tracked_def split: option.split)

definition offset :: "string \<Rightarrow> int" where
  "offset text = (if text = [] then 0 else 1)"

definition tracked :: "string \<Rightarrow> spelled \<Rightarrow> bool \<Rightarrow> int set \<Rightarrow> conv_core \<Rightarrow> client \<Rightarrow> bool" where
  "tracked text m tools fin c cl \<longleftrightarrow>
     cl_created cl \<and> \<not> cl_completed cl \<and> \<not> co_sentDone c \<and>
     (os_assistantReserved (co_output c) \<longleftrightarrow> text \<noteq> []) \<and> (os_assistantStarted (co_output c) \<longleftrightarrow> text \<noteq> []) \<and>
     os_assistantText (co_output c) = text \<and> (os_assistantDone (co_output c) \<longleftrightarrow> text \<noteq> [] \<and> tools) \<and>
     cl_message cl = (if text = [] then None
                      else Some \<lparr>mv_id = os_assistantMessageID (co_output c), mv_index = 0, mv_text = text,
                                 mv_done = tools\<rparr>) \<and>
     (\<not> tools \<longrightarrow> co_calls c = []) \<and>
     (\<forall>i. call_tracked (i \<in> fin) (m i) (map_of (co_calls c) i) (map_of (cl_calls cl) (i + offset text))) \<and>
     (\<forall>i st. map_of (co_calls c) i = Some st \<longrightarrow> ts_OutputIndex st = i + offset text \<and> 0 \<le> i)"

lemma tracked_text:
  assumes "tracked text m False {} c cl" "content \<noteq> []"
  obtains cl' where "client_run cl (fst (appendTextDelta uuid content c)) = Some cl'"
    "tracked (text @ content) m False {} (snd (appendTextDelta uuid content c)) cl'"
proof -
  have calls: "co_calls c = []" using assms(1) by (simp add: tracked_def)
  have "call_tracked (i \<in> {}) (m i) (map_of (co_calls c) i) (map_of (cl_calls cl) (i + offset text))" for i
    using assms(1) unfolding tracked_def by blast
  then have views: "map_of (cl_calls cl) (i + offset text) = None" and m: "m i = None" for i
    using calls by simp_all
  have none: "map_of (cl_calls cl) j = None" for j using views [of "j - offset text"] by simp
  show thesis
  proof (cases "text = []")
    case True
    let ?id = "os_assistantMessageID (snd (StartAssistantOutput uuid 0 ((co_output c)\<lparr>os_assistantReserved := True\<rparr>)))"
    let ?cl = "cl\<lparr>cl_message := Some \<lparr>mv_id = ?id, mv_index = 0, mv_text = content, mv_done = False\<rparr>\<rparr>"
    show thesis
    proof (rule that [of ?cl])
      show "client_run cl (fst (appendTextDelta uuid content c)) = Some ?cl"
        using assms True none calls
        by (simp add: tracked_def appendTextDelta_def reserveAssistantOutput_def StartAssistantOutput_def Let_def
            client_step_def AssistantMessageItem_def free_index_def)
      show "tracked (text @ content) m False {} (snd (appendTextDelta uuid content c)) ?cl"
        using assms True none calls m
        by (simp add: tracked_def appendTextDelta_def reserveAssistantOutput_def StartAssistantOutput_def Let_def)
    qed
  next
    case False
    let ?cl = "cl\<lparr>cl_message := map_option (\<lambda>v. v\<lparr>mv_text := mv_text v @ content\<rparr>) (cl_message cl)\<rparr>"
    show thesis
    proof (rule that [of ?cl])
      show "client_run cl (fst (appendTextDelta uuid content c)) = Some ?cl"
        using assms False
        by (simp add: tracked_def appendTextDelta_def reserveAssistantOutput_def StartAssistantOutput_def Let_def
            client_step_def)
      show "tracked (text @ content) m False {} (snd (appendTextDelta uuid content c)) ?cl"
        using assms False none calls m
        by (simp add: tracked_def appendTextDelta_def reserveAssistantOutput_def StartAssistantOutput_def Let_def)
    qed
  qed
qed

text \<open>The message is finished before the first tool call, and at the end.\<close>

lemma tracked_close_message:
  assumes "tracked text m tools fin c cl"
  obtains cl' where "client_run cl (fst (complete_assistant uuid c)) = Some cl'"
    "tracked text m True fin (snd (complete_assistant uuid c)) cl'"
proof (cases "text \<noteq> [] \<and> \<not> tools")
  case True
  let ?cl = "cl\<lparr>cl_message := map_option (mv_done_update (\<lambda>_. True)) (cl_message cl)\<rparr>"
  show thesis
  proof (rule that [of ?cl])
    show "client_run cl (fst (complete_assistant uuid c)) = Some ?cl"
      using assms True
      by (simp add: tracked_def complete_assistant_def CompleteAssistantOutput_def StartAssistantOutput_def
          client_step_def AssistantMessageItem_def)
    show "tracked text m True fin (snd (complete_assistant uuid c)) ?cl"
      using assms True
      by (auto simp: tracked_def complete_assistant_def CompleteAssistantOutput_def StartAssistantOutput_def)
  qed
next
  case False
  then have "complete_assistant uuid c = ([], c)" and "tracked text m True fin c cl"
    using assms by (auto simp: tracked_def complete_assistant_def CompleteAssistantOutput_def)
  then show thesis by (intro that [of cl]) simp_all
qed

lemma tracked_set_call:
  assumes "tracked text m True fin c cl"
    and "cl_created cl' = cl_created cl" "cl_completed cl' = cl_completed cl" "cl_message cl' = cl_message cl"
    and "map_of (cl_calls cl') = (map_of (cl_calls cl))(i + offset text := view)"
    and "call_tracked (i \<in> fin') spelled (Some st) view" "ts_OutputIndex st = i + offset text" "0 \<le> i"
    and "\<And>j. j \<noteq> i \<Longrightarrow> (j \<in> fin') = (j \<in> fin)"
  shows "tracked text (m(i := spelled)) True fin' (set_call i st c) cl'"
proof -
  have "call_tracked (j \<in> fin') ((m(i := spelled)) j) (map_of (co_calls (set_call i st c)) j)
      (map_of (cl_calls cl') (j + offset text))" for j
    using assms(1,5,6,9) by (cases "j = i") (simp_all add: tracked_def set_call_def update_conv')
  moreover have "ts_OutputIndex s = j + offset text \<and> 0 \<le> j"
    if "map_of (co_calls (set_call i st c)) j = Some s" for j s
    using assms(1,7,8) that by (cases "j = i") (simp_all add: tracked_def set_call_def update_conv')
  ultimately show ?thesis
    using assms(1-4) unfolding tracked_def by (simp add: set_call_def)
qed

lemma tracked_call:
  "tracked text m tools fin c cl \<Longrightarrow>
   call_tracked (i \<in> fin) (m i) (map_of (co_calls c) i) (map_of (cl_calls cl) (i + offset text))"
  unfolding tracked_def by blast

lemma tracked_free:
  assumes "tracked text m tools fin c cl" "0 \<le> i" "map_of (cl_calls cl) (i + offset text) = None"
  shows "free_index cl (i + offset text)"
  using assms by (auto simp: tracked_def free_index_def offset_def)

lemma client_delta:
  assumes "cl_created cl" "\<not> cl_completed cl" "map_of (cl_calls cl) j = Some v" "vw_id v = iid" "vw_final v = None"
    and "v' = v\<lparr>vw_args := vw_args v @ d\<rparr>"
  shows "\<exists>cl'. client_step cl (ArgumentsDelta iid j d) = Some cl' \<and> cl_created cl' = cl_created cl \<and>
    cl_completed cl' = cl_completed cl \<and> cl_message cl' = cl_message cl \<and>
    map_of (cl_calls cl') = (map_of (cl_calls cl))(j \<mapsto> v')"
  using assms by (simp add: client_step_def update_conv')

lemma client_added:
  assumes "cl_created cl" "\<not> cl_completed cl" "free_index cl j"
  shows "\<exists>cl'. client_run cl (ItemAdded (CallItem iid s cid name a') j #
        (if a \<noteq> [] then [ArgumentsDelta iid j a] else [])) = Some cl' \<and> cl_created cl' = cl_created cl \<and>
    cl_completed cl' = cl_completed cl \<and> cl_message cl' = cl_message cl \<and>
    map_of (cl_calls cl') = (map_of (cl_calls cl))(j \<mapsto> \<lparr>vw_id = iid, vw_args = a, vw_final = None, vw_done = None\<rparr>)"
  using assms by (simp add: client_step_def update_conv')

text \<open>The state a delta starts from.\<close>

lemma ensured_call:
  assumes "tracked text m True {} c cl" "0 \<le> i" "(case m i of None \<Rightarrow> ([], [], []) | Some c \<Rightarrow> c) = (cid, name, a)"
  shows "ts_CallID (ensureToolCallState i c) = cid" "ts_Name (ensureToolCallState i c) = name"
    "ts_Arguments (ensureToolCallState i c) = a" "\<not> ts_PlaceholderObject (ensureToolCallState i c)"
    "\<not> ts_Completed (ensureToolCallState i c)" "cid = [] \<or> go_trim cid \<noteq> []" "name = [] \<or> go_trim name \<noteq> []"
    "ts_Started (ensureToolCallState i c) \<longleftrightarrow> cid \<noteq> [] \<and> name \<noteq> []"
    "map_of (cl_calls cl) (i + offset text) =
       (if cid \<noteq> [] \<and> name \<noteq> []
        then Some \<lparr>vw_id = ts_ItemID (ensureToolCallState i c), vw_args = a, vw_final = None, vw_done = None\<rparr> else None)"
    "ts_OutputIndex (ensureToolCallState i c) = i + offset text"
proof -
  have r: "os_assistantReserved (co_output c) \<longleftrightarrow> text \<noteq> []" using assms(1) by (simp add: tracked_def)
  have "ts_CallID (ensureToolCallState i c) = cid \<and> ts_Name (ensureToolCallState i c) = name \<and>
    ts_Arguments (ensureToolCallState i c) = a \<and> \<not> ts_PlaceholderObject (ensureToolCallState i c) \<and>
    \<not> ts_Completed (ensureToolCallState i c) \<and> (cid = [] \<or> go_trim cid \<noteq> []) \<and> (name = [] \<or> go_trim name \<noteq> []) \<and>
    (ts_Started (ensureToolCallState i c) \<longleftrightarrow> cid \<noteq> [] \<and> name \<noteq> []) \<and>
    map_of (cl_calls cl) (i + offset text) =
       (if cid \<noteq> [] \<and> name \<noteq> []
        then Some \<lparr>vw_id = ts_ItemID (ensureToolCallState i c), vw_args = a, vw_final = None, vw_done = None\<rparr> else None) \<and>
    ts_OutputIndex (ensureToolCallState i c) = i + offset text"
  proof (cases "map_of (co_calls c) i")
    case None
    then have "m i = None" "map_of (cl_calls cl) (i + offset text) = None"
      using tracked_call [OF assms(1), of i] by simp_all
    then show ?thesis using None assms(3) r by (auto simp: ensureToolCallState_def offset_def)
  next
    case (Some st)
    have o: "ts_OutputIndex st = i + offset text" using assms(1) Some by (simp add: tracked_def)
    have e: "ensureToolCallState i c = st" using Some by (simp add: ensureToolCallState_def)
    have T: "call_tracked False (m i) (Some st) (map_of (cl_calls cl) (i + offset text))"
      using tracked_call [OF assms(1), of i] Some by simp
    then have "m i = Some (cid, name, a)" using assms(3) by (cases "m i") simp_all
    with T o show ?thesis unfolding e by (simp add: call_tracked_def)
  qed
  then show "ts_CallID (ensureToolCallState i c) = cid" "ts_Name (ensureToolCallState i c) = name"
    "ts_Arguments (ensureToolCallState i c) = a" "\<not> ts_PlaceholderObject (ensureToolCallState i c)"
    "\<not> ts_Completed (ensureToolCallState i c)" "cid = [] \<or> go_trim cid \<noteq> []" "name = [] \<or> go_trim name \<noteq> []"
    "ts_Started (ensureToolCallState i c) \<longleftrightarrow> cid \<noteq> [] \<and> name \<noteq> []"
    "map_of (cl_calls cl) (i + offset text) =
       (if cid \<noteq> [] \<and> name \<noteq> []
        then Some \<lparr>vw_id = ts_ItemID (ensureToolCallState i c), vw_args = a, vw_final = None, vw_done = None\<rparr> else None)"
    "ts_OutputIndex (ensureToolCallState i c) = i + offset text"
    by blast+
qed

lemma handle_delta_eq:
  assumes "tc_Index tc = Some i" "st0 = ensureToolCallState i c"
    and "st1 = st0\<lparr>ts_CallID := (if tc_ID tc \<noteq> [] then tc_ID tc else ts_CallID st0),
                   ts_Name := (if tc_Name tc \<noteq> [] then tc_Name tc else ts_Name st0),
                   ts_Arguments := ts_Arguments st0 @ tc_Arguments tc\<rparr>"
    and "StartToolCall uuid False st1 = (evs, st)"
    and "delta = (if \<not> ts_Started st0 \<and> ts_Arguments st \<noteq> [] then ts_Arguments st else tc_Arguments tc)"
  shows "handle_delta uuid tc c =
    (evs @ (if ts_Started st \<and> delta \<noteq> [] then [ArgumentsDelta (ts_ItemID st) (ts_OutputIndex st) delta] else []),
     set_call i st c)"
  unfolding handle_delta_def assms(1) option.case Let_def assms(2) [symmetric] assms(3) [symmetric] assms(4)
    prod.case assms(5) [symmetric] ..

text \<open>Starting a call whose identifier and name are not blank, or not starting it.\<close>

lemma start_call:
  assumes "ts_CallID st1 = [] \<or> go_trim (ts_CallID st1) \<noteq> []" "ts_Name st1 = [] \<or> go_trim (ts_Name st1) \<noteq> []"
  shows "ts_Started st1 \<Longrightarrow> StartToolCall uuid False st1 = ([], st1)"
    and "\<not> (ts_CallID st1 \<noteq> [] \<and> ts_Name st1 \<noteq> []) \<Longrightarrow> StartToolCall uuid False st1 = ([], st1)"
    and "\<not> ts_Started st1 \<Longrightarrow> ts_CallID st1 \<noteq> [] \<Longrightarrow> ts_Name st1 \<noteq> [] \<Longrightarrow>
      \<exists>iid. StartToolCall uuid False st1 =
        ([ItemAdded (CallItem iid ''in_progress'' (ts_CallID st1) (ts_Name st1) (ts_Arguments st1)) (ts_OutputIndex st1)],
         st1\<lparr>ts_ItemID := iid, ts_Started := True\<rparr>)"
  using assms by (auto simp: StartToolCall_def Let_def ResponsesFunctionCallCallID_def RenderToolCallItem_def)

lemma tracked_delta:
  assumes "tracked text m True {} c cl" "orderly_call tc"
  obtains cl' where "client_run cl (fst (handle_delta uuid tc c)) = Some cl'"
    "tracked text (spell_call tc m) True {} (snd (handle_delta uuid tc c)) cl'"
proof (cases "tc_Index tc")
  case None
  with assms(1) show thesis by (intro that [of cl]) (simp_all add: handle_delta_def spell_call_def)
next
  case (Some i)
  then have i: "0 \<le> i" using assms(2) by (simp add: orderly_call_def)
  obtain cid0 name0 a0 where sp: "(case m i of None \<Rightarrow> ([], [], []) | Some c \<Rightarrow> c) = (cid0, name0, a0)" by (metis prod.exhaust)
  define st0 where "st0 = ensureToolCallState i c"
  note E = ensured_call [OF assms(1) i sp, folded st0_def]
  define cid where "cid = (if tc_ID tc \<noteq> [] then tc_ID tc else cid0)"
  define name where "name = (if tc_Name tc \<noteq> [] then tc_Name tc else name0)"
  define a where "a = a0 @ tc_Arguments tc"
  define st1 where "st1 = st0\<lparr>ts_CallID := cid, ts_Name := name, ts_Arguments := a\<rparr>"
  have blank: "cid = [] \<or> go_trim cid \<noteq> []" "name = [] \<or> go_trim name \<noteq> []"
    using assms(2) E(6,7) by (auto simp: orderly_call_def cid_def name_def)
  have up: "spell_call tc m = m(i := Some (cid, name, a))"
    using Some sp by (simp add: spell_call_def cid_def name_def a_def)
  have open_cl: "cl_created cl" "\<not> cl_completed cl" using assms(1) by (simp_all add: tracked_def)
  have st1: "ts_CallID st1 = cid" "ts_Name st1 = name" "ts_Arguments st1 = a" "ts_Started st1 = ts_Started st0"
    "ts_ItemID st1 = ts_ItemID st0" "ts_OutputIndex st1 = i + offset text" "\<not> ts_PlaceholderObject st1" "\<not> ts_Completed st1"
    using E by (simp_all add: st1_def)
  have trim1: "ts_CallID st1 = [] \<or> go_trim (ts_CallID st1) \<noteq> []" "ts_Name st1 = [] \<or> go_trim (ts_Name st1) \<noteq> []"
    using blank st1 by simp_all
  obtain evs st where start: "StartToolCall uuid False st1 = (evs, st)" by force
  have grow: "cid0 \<noteq> [] \<Longrightarrow> cid \<noteq> []" "name0 \<noteq> [] \<Longrightarrow> name \<noteq> []" by (simp_all add: cid_def name_def)
  define delta where "delta = (if \<not> ts_Started st0 \<and> a \<noteq> [] then a else tc_Arguments tc)"
  define view where "view = (if cid \<noteq> [] \<and> name \<noteq> []
    then Some \<lparr>vw_id = ts_ItemID st, vw_args = a, vw_final = None, vw_done = None\<rparr> else None)"
  have "ts_CallID st = cid \<and> ts_Name st = name \<and> ts_Arguments st = a \<and> \<not> ts_PlaceholderObject st \<and> \<not> ts_Completed st
      \<and> (ts_Started st \<longleftrightarrow> cid \<noteq> [] \<and> name \<noteq> []) \<and> ts_OutputIndex st = i + offset text \<and>
      (\<exists>cl'. client_run cl (evs @ (if ts_Started st \<and> delta \<noteq> [] then [ArgumentsDelta (ts_ItemID st) (i + offset text) delta]
          else [])) = Some cl' \<and> cl_created cl' = cl_created cl \<and> cl_completed cl' = cl_completed cl \<and>
         cl_message cl' = cl_message cl \<and> map_of (cl_calls cl') = (map_of (cl_calls cl))(i + offset text := view))"
  proof (cases "ts_Started st0")
    case True
    then have s: "cid \<noteq> []" "name \<noteq> []" "evs = []" "st = st1"
      "map_of (cl_calls cl) (i + offset text) =
         Some \<lparr>vw_id = ts_ItemID st1, vw_args = a0, vw_final = None, vw_done = None\<rparr>"
      using E(8,9) grow start_call(1) [OF trim1] st1(4,5) start by auto
    have v: "view = Some \<lparr>vw_id = ts_ItemID st1, vw_args = a0 @ tc_Arguments tc, vw_final = None, vw_done = None\<rparr>"
      using s by (simp add: view_def a_def)
    have d: "delta = tc_Arguments tc" using True by (simp add: delta_def)
    show ?thesis
      using s st1 True client_delta [OF open_cl s(5) _ _ refl, of "ts_ItemID st1" "tc_Arguments tc"] v d
      by (cases "tc_Arguments tc = []") (auto simp: fun_upd_idem_iff)
  next
    case False
    then have none: "map_of (cl_calls cl) (i + offset text) = None" using E(8,9) by simp
    note free = tracked_free [OF assms(1) i none]
    have d: "delta = a" using False by (simp add: delta_def a_def)
    show ?thesis
    proof (cases "cid \<noteq> [] \<and> name \<noteq> []")
      case True
      have "\<exists>iid. evs = [ItemAdded (CallItem iid ''in_progress'' cid name a) (i + offset text)]
          \<and> st = st1\<lparr>ts_ItemID := iid, ts_Started := True\<rparr>"
        using start_call(3) [OF trim1, of uuid] True st1 False start by simp
      then obtain iid where s: "evs = [ItemAdded (CallItem iid ''in_progress'' cid name a) (i + offset text)]"
        "st = st1\<lparr>ts_ItemID := iid, ts_Started := True\<rparr>" by blast
      have v: "view = Some \<lparr>vw_id = iid, vw_args = a, vw_final = None, vw_done = None\<rparr>"
        using True by (simp add: view_def s(2))
      have "ts_ItemID st = iid" "ts_Started st" by (simp_all add: s(2))
      then show ?thesis
        unfolding s(1) d v using True st1 client_added [OF open_cl free, of iid "''in_progress''" cid name a a]
        by (cases "a = []") (simp_all add: s(2))
    next
      case no: False
      then have "evs = []" "st = st1" using start_call(2) [OF trim1] st1 start by auto
      then show ?thesis using no st1 False none by (auto simp: view_def fun_upd_idem_iff)
    qed
  qed
  then obtain cl' where st: "ts_CallID st = cid" "ts_Name st = name" "ts_Arguments st = a" "\<not> ts_PlaceholderObject st"
      "\<not> ts_Completed st" "ts_Started st \<longleftrightarrow> cid \<noteq> [] \<and> name \<noteq> []" "ts_OutputIndex st = i + offset text"
    and run: "client_run cl (evs @ (if ts_Started st \<and> delta \<noteq> [] then [ArgumentsDelta (ts_ItemID st) (i + offset text) delta]
          else [])) = Some cl'"
    and cl': "cl_created cl' = cl_created cl" "cl_completed cl' = cl_completed cl" "cl_message cl' = cl_message cl"
      "map_of (cl_calls cl') = (map_of (cl_calls cl))(i + offset text := view)" by blast
  have "call_tracked (i \<in> {}) (Some (cid, name, a)) (Some st) view"
    using st blank by (simp add: call_tracked_def view_def)
  note T = tracked_set_call [OF assms(1) cl' this st(7) i]
  have "handle_delta uuid tc c =
      (evs @ (if ts_Started st \<and> delta \<noteq> [] then [ArgumentsDelta (ts_ItemID st) (i + offset text) delta] else []),
       set_call i st c)"
    using handle_delta_eq [OF Some st0_def _ start refl] E(1,2,3) st(3,7)
    by (simp add: st1_def cid_def name_def a_def delta_def)
  with T up run show thesis by (intro that [of cl']) simp_all
qed

lemma tracked_deltas:
  assumes "tracked text m True {} c cl" "list_all orderly_call tcs"
  shows "\<exists>cl'. client_run cl (fst (handle_deltas uuid tcs c)) = Some cl' \<and>
    tracked text (fold spell_call tcs m) True {} (snd (handle_deltas uuid tcs c)) cl'"
  using assms
proof (induction tcs arbitrary: m c cl)
  case (Cons tc tcs)
  obtain cl1 where 1: "client_run cl (fst (handle_delta uuid tc c)) = Some cl1"
    "tracked text (spell_call tc m) True {} (snd (handle_delta uuid tc c)) cl1"
    using Cons.prems by (auto intro: tracked_delta)
  from Cons.IH [OF 1(2)] Cons.prems(2) 1(1) show ?case
    by (auto simp: case_prod_beta client_run_append)
qed auto

section \<open>Completing calls\<close>

lemma go_trim_unknown: "go_trim ''unknown'' \<noteq> []"
  by code_simp

lemma client_finished:
  assumes "cl_created cl" "\<not> cl_completed cl" "map_of (cl_calls cl) j = Some v" "vw_id v = iid" "vw_final v = None"
    and "vw_done v = None" "vw_args v \<in> {[], a}"
  shows "\<exists>cl' v'. client_run cl [ArgumentsDone iid j a, ItemDone (CallItem iid s cid name a) j] = Some cl' \<and>
    cl_created cl' = cl_created cl \<and> cl_completed cl' = cl_completed cl \<and> cl_message cl' = cl_message cl \<and>
    map_of (cl_calls cl') = (map_of (cl_calls cl))(j \<mapsto> v') \<and> vw_done v' = Some (cid, name, a)"
  using assms by (auto simp: client_step_def update_conv')

lemma tracked_pending:
  assumes "tracked text m True fin c cl" "map_of (co_calls c) i = Some st"
  obtains cl' where "client_run cl (fst (completePendingCall uuid st)) = Some cl'"
    "tracked text m True (insert i fin) (set_call i (snd (completePendingCall uuid st)) c) cl'"
proof -
  have T: "call_tracked (i \<in> fin) (m i) (Some st) (map_of (cl_calls cl) (i + offset text))"
    using tracked_call [OF assms(1), of i] assms(2) by simp
  then obtain cid name a where m: "m i = Some (cid, name, a)" by (cases "m i") auto
  have idx: "ts_OutputIndex st = i + offset text" "0 \<le> i" using assms by (auto simp: tracked_def)
  have open_cl: "cl_created cl" "\<not> cl_completed cl" using assms(1) by (simp_all add: tracked_def)
  note T = T [unfolded m call_tracked_def, simplified]
  obtain evs st' where pend: "completePendingCall uuid st = (evs, st')" by force
  have "\<exists>cl' view. client_run cl evs = Some cl' \<and> cl_created cl' = cl_created cl \<and>
     cl_completed cl' = cl_completed cl \<and> cl_message cl' = cl_message cl \<and>
     map_of (cl_calls cl') = (map_of (cl_calls cl))(i + offset text := view) \<and>
     call_tracked True (Some (cid, name, a)) (Some st') view \<and> ts_OutputIndex st' = i + offset text"
  proof (cases "ts_Completed st")
    case True
    then have "evs = []" "st' = st" "i \<in> fin" using pend T by (auto simp: completePendingCall_def split: if_splits)
    then show ?thesis using T m idx
      by (intro exI [of _ cl] exI [of _ "map_of (cl_calls cl) (i + offset text)"]) (auto simp: call_tracked_def)
  next
    case open_st: False
    show ?thesis
    proof (cases "cid = []")
      case True
      then show ?thesis using T m idx open_st pend
        by (intro exI [of _ cl] exI [of _ None])
          (auto simp: call_tracked_def completePendingCall_def forceStartToolCall_def StartToolCall_def fun_upd_idem_iff
            split: if_splits)
    next
      case cid: False
      then have "i \<notin> fin" using T open_st by auto
      note T = T [unfolded simp_thms, simplified this cid]
      let ?name = "if name = [] then ''unknown'' else name"
      show ?thesis
      proof (cases "ts_Started st")
        case True
        then have v: "map_of (cl_calls cl) (i + offset text) =
            Some \<lparr>vw_id = ts_ItemID st, vw_args = a, vw_final = None, vw_done = None\<rparr>"
          using T \<open>i \<notin> fin\<close> cid by auto
        have "evs = [ArgumentsDone (ts_ItemID st) (i + offset text) a,
            ItemDone (CallItem (ts_ItemID st) ''completed'' cid name a) (i + offset text)]"
          "st' = st\<lparr>ts_Completed := True\<rparr>" "name \<noteq> []"
          using pend True open_st T idx \<open>i \<notin> fin\<close> cid
          by (auto simp: completePendingCall_def forceStartToolCall_def CompleteToolCall_def Let_def ToolCallArguments_def
              RenderToolCallItem_def)
        then show ?thesis
          using client_finished [OF open_cl v, of "ts_ItemID st" a "''completed''" cid name] T True idx cid \<open>i \<notin> fin\<close>
          by (auto simp: call_tracked_def)
      next
        case False
        then have none: "map_of (cl_calls cl) (i + offset text) = None" "name = []"
          using T \<open>i \<notin> fin\<close> cid by auto
        let ?iid = "ResponsesFunctionCallItemID uuid cid"
        have "evs = ItemAdded (CallItem ?iid ''in_progress'' cid ''unknown'' a) (i + offset text) #
            [ArgumentsDone ?iid (i + offset text) a,
             ItemDone (CallItem ?iid ''completed'' cid ''unknown'' a) (i + offset text)]"
          "st' = st\<lparr>ts_CallID := cid, ts_Name := ''unknown'', ts_ItemID := ?iid, ts_Started := True, ts_Completed := True\<rparr>"
          using pend False open_st T idx \<open>i \<notin> fin\<close> cid none(2) go_trim_unknown
          by (auto simp: completePendingCall_def forceStartToolCall_def CompleteToolCall_def Let_def ToolCallArguments_def
              RenderToolCallItem_def StartToolCall_def ResponsesFunctionCallCallID_def)
        moreover obtain cl1 where "client_step cl (ItemAdded (CallItem ?iid ''in_progress'' cid ''unknown'' a) (i + offset text)) = Some cl1"
          "cl_created cl1 = cl_created cl" "cl_completed cl1 = cl_completed cl" "cl_message cl1 = cl_message cl"
          "map_of (cl_calls cl1) = (map_of (cl_calls cl))(i + offset text \<mapsto> \<lparr>vw_id = ?iid, vw_args = [], vw_final = None, vw_done = None\<rparr>)"
          using client_added [OF open_cl tracked_free [OF assms(1) idx(2) none(1)], of ?iid "''in_progress''" cid "''unknown''" a "[]"]
          by (auto split: option.splits)
        ultimately show ?thesis
          using client_finished [of cl1 "i + offset text" _ ?iid a "''completed''" cid "''unknown''"] open_cl T idx cid none
          by (auto simp: call_tracked_def)
      qed
    qed
  qed
  then obtain cl' view where cl': "client_run cl evs = Some cl'" "cl_created cl' = cl_created cl"
    "cl_completed cl' = cl_completed cl" "cl_message cl' = cl_message cl"
    "map_of (cl_calls cl') = (map_of (cl_calls cl))(i + offset text := view)"
    "call_tracked True (Some (cid, name, a)) (Some st') view" "ts_OutputIndex st' = i + offset text" by blast
  from cl'(6) have "call_tracked (i \<in> insert i fin) (Some (cid, name, a)) (Some st') view" by simp
  note T = tracked_set_call [OF assms(1) cl'(2-5) this cl'(7) idx(2)]
  have "m(i := Some (cid, name, a)) = m" using m by (rule fun_upd_idem)
  with T cl'(1) pend show thesis by (intro that [of cl']) simp_all
qed

lemma tracked_complete_calls:
  assumes "tracked text m True fin c cl"
  shows "\<exists>cl'. client_run cl (fst (complete_calls uuid idxs c)) = Some cl' \<and>
    tracked text m True (fin \<union> {i \<in> set idxs. map_of (co_calls c) i \<noteq> None}) (snd (complete_calls uuid idxs c)) cl'"
  using assms
proof (induction idxs arbitrary: fin c cl)
  case (Cons i idxs)
  show ?case
  proof (cases "map_of (co_calls c) i")
    case None
    then have "{j \<in> set (i # idxs). map_of (co_calls c) j \<noteq> None} = {j \<in> set idxs. map_of (co_calls c) j \<noteq> None}" by auto
    with Cons.IH [OF Cons.prems] None show ?thesis by simp
  next
    case (Some st)
    obtain cl1 where 1: "client_run cl (fst (completePendingCall uuid st)) = Some cl1"
      "tracked text m True (insert i fin) (set_call i (snd (completePendingCall uuid st)) c) cl1"
      by (rule tracked_pending [OF Cons.prems Some])
    let ?c = "set_call i (snd (completePendingCall uuid st)) c"
    have "insert i fin \<union> {j \<in> set idxs. map_of (co_calls ?c) j \<noteq> None} = fin \<union> {j \<in> set (i # idxs). map_of (co_calls c) j \<noteq> None}"
      using Some by (auto simp: set_call_def update_conv' split: if_splits)
    with Cons.IH [OF 1(2)] 1(1) Some show ?thesis
      by (auto simp: case_prod_beta client_run_append)
  qed
qed auto

lemma tracked_completePending:
  assumes "tracked text m tools fin c cl"
  shows "\<exists>cl'. client_run cl (fst (completePendingToolCalls uuid c)) = Some cl' \<and>
    tracked text m tools UNIV (snd (completePendingToolCalls uuid c)) cl'"
proof -
  have all: "tracked text m tools UNIV c cl" if "tracked text m tools fin c cl" "\<And>i. map_of (co_calls c) i \<noteq> None \<Longrightarrow> i \<in> fin"
    for fin c cl
  proof -
    have "call_tracked True (m i) (map_of (co_calls c) i) (map_of (cl_calls cl) (i + offset text))" for i
      using tracked_call [OF that(1), of i] that(2) [of i] by (cases "map_of (co_calls c) i") simp_all
    then show ?thesis using that(1) by (simp add: tracked_def)
  qed
  show ?thesis
  proof (cases tools)
    case False
    then have "co_calls c = []" using assms by (simp add: tracked_def)
    then show ?thesis using all [OF assms] by (simp add: completePendingToolCalls_def)
  next
    case True
    let ?keys = "sort (map fst (co_calls c))"
    obtain cl' where cl': "client_run cl (fst (completePendingToolCalls uuid c)) = Some cl'"
      "tracked text m tools (fin \<union> {i \<in> set ?keys. map_of (co_calls c) i \<noteq> None}) (snd (completePendingToolCalls uuid c)) cl'"
      using tracked_complete_calls [of "text" m fin c cl uuid ?keys] assms True by (auto simp: completePendingToolCalls_def)
    have "i \<in> fin \<union> {i \<in> set ?keys. map_of (co_calls c) i \<noteq> None}"
      if "map_of (co_calls (snd (completePendingToolCalls uuid c))) i \<noteq> None" for i
    proof -
      have "m i \<noteq> None" using that tracked_call [OF cl'(2), of i] by (cases "m i") auto
      then have "map_of (co_calls c) i \<noteq> None" using tracked_call [OF assms, of i] by (cases "map_of (co_calls c) i") auto
      moreover from this have "i \<in> fst ` set (co_calls c)" by (simp add: map_of_eq_None_iff)
      ultimately show ?thesis by simp
    qed
    from all [OF cl'(2) this] cl'(1) show ?thesis by auto
  qed
qed

section \<open>The whole answer\<close>

lemma tracked_usage: "tracked text m tools fin (c\<lparr>co_usage := u\<rparr>) cl = tracked text m tools fin c cl"
  by (simp add: tracked_def)

lemma upstream_Cons:
  "upstream_text (sp # sps) = sp_Content sp @ upstream_text sps"
  by (simp add: upstream_text_def)

lemma tracked_step:
  assumes "tracked text m tools (if finished then UNIV else {}) c cl" "orderly tools finished [sp]"
  shows "\<exists>cl'. client_run cl (fst (apply_step uuid sp c)) = Some cl' \<and>
    tracked (text @ sp_Content sp) (fold spell_call (sp_ToolCalls sp) m) (tools \<or> sp_ToolCalls sp \<noteq> [])
      (if finished \<or> sp_FinishReason sp = ''tool_calls'' then UNIV else {}) (snd (apply_step uuid sp c)) cl'"
proof -
  let ?c1 = "case sp_Usage sp of None \<Rightarrow> c | Some u \<Rightarrow> c\<lparr>co_usage := Some u\<rparr>"
  let ?r2 = "if sp_Content sp \<noteq> [] then appendTextDelta uuid (sp_Content sp) ?c1 else ([], ?c1)"
  let ?r3 = "if sp_ToolCalls sp \<noteq> [] then handleToolCallDeltas uuid (sp_ToolCalls sp) (snd ?r2) else ([], snd ?r2)"
  let ?r4 = "if sp_FinishReason sp = ''tool_calls'' then completePendingToolCalls uuid (snd ?r3) else ([], snd ?r3)"
  let ?tools = "tools \<or> sp_ToolCalls sp \<noteq> []" and ?m = "fold spell_call (sp_ToolCalls sp) m"
  have r: "apply_step uuid sp c = (fst ?r2 @ fst ?r3 @ fst ?r4, snd ?r4)"
    by (simp add: apply_step_def Let_def case_prod_beta)
  have 1: "tracked text m tools (if finished then UNIV else {}) ?c1 cl"
    using assms(1) by (cases "sp_Usage sp") (simp_all add: tracked_usage)
  obtain cl2 where 2: "client_run cl (fst ?r2) = Some cl2"
    "tracked (text @ sp_Content sp) m tools (if finished then UNIV else {}) (snd ?r2) cl2"
  proof (cases "sp_Content sp = []")
    case True
    with 1 that [of cl] show thesis by simp
  next
    case False
    with assms(2) have f: "\<not> tools" "\<not> finished" by simp_all
    with 1 have "tracked text m False {} ?c1 cl" by simp
    then obtain cl' where "client_run cl (fst (appendTextDelta uuid (sp_Content sp) ?c1)) = Some cl'"
      "tracked (text @ sp_Content sp) m False {} (snd (appendTextDelta uuid (sp_Content sp) ?c1)) cl'"
      using False by (rule tracked_text)
    with False f that [of cl'] show thesis by simp
  qed
  obtain cl3 where 3: "client_run cl2 (fst ?r3) = Some cl3"
    "tracked (text @ sp_Content sp) ?m ?tools (if finished then UNIV else {}) (snd ?r3) cl3"
  proof (cases "sp_ToolCalls sp = []")
    case True
    with 2 that [of cl2] show thesis by simp
  next
    case False
    with assms(2) have f: "\<not> finished" "list_all orderly_call (sp_ToolCalls sp)" by simp_all
    let ?closed = "if os_assistantStarted (co_output (snd ?r2)) \<and> \<not> os_assistantDone (co_output (snd ?r2))
      then complete_assistant uuid (snd ?r2) else ([], snd ?r2)"
    have "?closed = complete_assistant uuid (snd ?r2)"
      using 2(2) by (auto simp: tracked_def complete_assistant_def CompleteAssistantOutput_def)
    then obtain cla where a: "client_run cl2 (fst ?closed) = Some cla" "tracked (text @ sp_Content sp) m True {} (snd ?closed) cla"
      using 2(2) f(1) by (auto elim: tracked_close_message [of _ _ _ _ _ _ uuid])
    from tracked_deltas [OF a(2) f(2), of uuid] obtain clb
      where "client_run cla (fst (handle_deltas uuid (sp_ToolCalls sp) (snd ?closed))) = Some clb"
        "tracked (text @ sp_Content sp) ?m True {} (snd (handle_deltas uuid (sp_ToolCalls sp) (snd ?closed))) clb" by blast
    with a(1) False f(1) that [of clb] show thesis
      by (simp add: handleToolCallDeltas_def case_prod_beta client_run_append)
  qed
  show ?thesis
    using 3 2(1) tracked_completePending [OF 3(2), of uuid]
    by (auto simp: r client_run_append)
qed

text \<open>Marking the stream as completed changes no event.\<close>

lemma complete_calls_done:
  "complete_calls uuid idxs (c\<lparr>co_sentDone := b\<rparr>) =
     map_prod id (co_sentDone_update (\<lambda>_. b)) (complete_calls uuid idxs c)"
proof -
  have "set_call i st (c\<lparr>co_sentDone := b\<rparr>) = (set_call i st c)\<lparr>co_sentDone := b\<rparr>" for i st c
    by (simp add: set_call_def)
  then show ?thesis
    by (induction idxs arbitrary: c) (simp_all add: case_prod_beta map_prod_def split: option.split)
qed

lemma completed_events:
  assumes "\<not> co_sentDone c"
  shows "fst (appendCompletedEvents uuid c) = fst (complete_assistant uuid c) @
    fst (completePendingToolCalls uuid (snd (complete_assistant uuid c))) @ [ResponseCompleted (co_head c) (co_usage c)]"
proof -
  have keep: "co_head (snd (complete_calls uuid idxs c)) = co_head c \<and> co_usage (snd (complete_calls uuid idxs c)) = co_usage c"
    for idxs c
    by (induction idxs arbitrary: c) (simp_all add: set_call_def case_prod_beta split: option.split)
  have "complete_assistant uuid (c\<lparr>co_sentDone := True\<rparr>) =
      map_prod id (co_sentDone_update (\<lambda>_. True)) (complete_assistant uuid c)"
    by (simp add: complete_assistant_def case_prod_beta)
  moreover have "co_head (snd (complete_assistant uuid c)) = co_head c" "co_usage (snd (complete_assistant uuid c)) = co_usage c"
    by (simp_all add: complete_assistant_def case_prod_beta)
  ultimately show ?thesis
    using assms keep
    by (simp add: appendCompletedEvents_def completePendingToolCalls_def case_prod_beta complete_calls_done)
qed

lemma tracked_steps:
  assumes "tracked text m tools (if finished then UNIV else {}) c cl" "orderly tools finished sps"
  shows "\<exists>cl' tools' fin. client_run cl (fst (step_run uuid sps c)) = Some cl' \<and>
    tracked (text @ upstream_text sps) (fold spell_call (concat (map sp_ToolCalls sps)) m) tools' fin
      (snd (step_run uuid sps c)) cl'"
  using assms
proof (induction sps arbitrary: "text" m tools finished c cl)
  case Nil
  then show ?case by (auto simp: upstream_text_def)
next
  case (Cons sp sps)
  have "orderly tools finished [sp]"
    and rest: "orderly (tools \<or> sp_ToolCalls sp \<noteq> []) (finished \<or> sp_FinishReason sp = ''tool_calls'') sps"
    using Cons.prems(2) by simp_all
  from tracked_step [OF Cons.prems(1) this(1), of uuid] obtain cl1
    where 1: "client_run cl (fst (apply_step uuid sp c)) = Some cl1"
      "tracked (text @ sp_Content sp) (fold spell_call (sp_ToolCalls sp) m) (tools \<or> sp_ToolCalls sp \<noteq> [])
        (if finished \<or> sp_FinishReason sp = ''tool_calls'' then UNIV else {}) (snd (apply_step uuid sp c)) cl1" by blast
  from Cons.IH [OF 1(2) rest] 1(1) show ?case
    by (auto simp: case_prod_beta client_run_append upstream_Cons)
qed

definition rebuilt_call :: "client \<Rightarrow> int \<Rightarrow> (string \<times> string \<times> string) option" where
  "rebuilt_call cl j = (case map_of (cl_calls cl) j of None \<Rightarrow> None | Some v \<Rightarrow> vw_done v)"

definition sent_call :: "(string \<times> string \<times> string) option \<Rightarrow> (string \<times> string \<times> string) option" where
  \<comment> \<open>a call without an identifier is not sent, one without a name is sent as unknown\<close>
  "sent_call spelled =
     (case spelled of
        None \<Rightarrow> None
      | Some (cid, name, a) \<Rightarrow> if cid = [] then None else Some (cid, if name = [] then ''unknown'' else name, a))"

lemma rebuilt_tracked:
  assumes "tracked text m tools UNIV c cl"
  shows "rebuilt_call cl (i + offset text) = sent_call (m i)"
  using tracked_call [OF assms, of i]
  by (cases "map_of (co_calls c) i"; cases "m i")
    (auto simp: rebuilt_call_def sent_call_def call_tracked_def split: if_splits)

lemma answer_rebuilt:
  assumes "orderly False False sps"
  shows "\<exists>cl. client_run new_client (answer_events uuid head sps) = Some cl \<and> cl_completed cl
    \<and> (case cl_message cl of
         None \<Rightarrow> upstream_text sps = []
       | Some v \<Rightarrow> mv_done v \<and> mv_index v = 0 \<and> mv_text v = upstream_text sps \<and> upstream_text sps \<noteq> [])
    \<and> (\<forall>i. rebuilt_call cl (i + offset (upstream_text sps)) = sent_call (upstream_calls sps i))"
proof -
  let ?c = "cv_core (NewOpenAIResponsesStreamConverter head)" and ?cl = "new_client\<lparr>cl_created := True\<rparr>"
  have "tracked [] Map.empty False (if False then UNIV else {}) ?c ?cl"
    by (simp add: tracked_def NewOpenAIResponsesStreamConverter_def NewResponsesOutputEventState_def new_client_def)
  from tracked_steps [OF this assms, of uuid] obtain cl1 tools fin
    where 1: "client_run ?cl (fst (step_run uuid sps ?c)) = Some cl1"
      "tracked (upstream_text sps) (upstream_calls sps) tools fin (snd (step_run uuid sps ?c)) cl1"
    by (auto simp: upstream_calls_def)
  let ?c1 = "(snd (step_run uuid sps ?c))\<lparr>co_sentDone := True\<rparr>"
  have open_c: "\<not> co_sentDone (snd (step_run uuid sps ?c))" using 1(2) by (simp add: tracked_def)
  obtain cl2 where 2: "client_run cl1 (fst (complete_assistant uuid (snd (step_run uuid sps ?c)))) = Some cl2"
    "tracked (upstream_text sps) (upstream_calls sps) True fin (snd (complete_assistant uuid (snd (step_run uuid sps ?c)))) cl2"
    by (rule tracked_close_message [OF 1(2)])
  from tracked_completePending [OF 2(2), of uuid] obtain cl3
    where 3: "client_run cl2 (fst (completePendingToolCalls uuid (snd (complete_assistant uuid (snd (step_run uuid sps ?c)))))) = Some cl3"
      "tracked (upstream_text sps) (upstream_calls sps) True UNIV
        (snd (completePendingToolCalls uuid (snd (complete_assistant uuid (snd (step_run uuid sps ?c)))))) cl3" by blast
  have flag: "fst (appendCompletedEvents uuid (snd (step_run uuid sps ?c))) =
      fst (complete_assistant uuid (snd (step_run uuid sps ?c))) @
      fst (completePendingToolCalls uuid (snd (complete_assistant uuid (snd (step_run uuid sps ?c))))) @
      [ResponseCompleted (co_head (snd (step_run uuid sps ?c))) (co_usage (snd (step_run uuid sps ?c)))]"
    using open_c by (rule completed_events)
  let ?cl' = "cl3\<lparr>cl_completed := True\<rparr>"
  have "client_run new_client (answer_events uuid head sps) = Some ?cl'"
    using 1(1) 2(1) 3 by (simp add: answer_events_def case_prod_beta client_run_append flag client_step_def new_client_def tracked_def)
  moreover have "rebuilt_call ?cl' (i + offset (upstream_text sps)) = sent_call (upstream_calls sps i)" for i
    using rebuilt_tracked [OF 3(2), of i] by (simp add: rebuilt_call_def)
  ultimately show ?thesis using 3(2) by (intro exI [of _ ?cl']) (simp add: tracked_def)
qed

text \<open>The chunk a line carries, and the marker of the end.\<close>

definition line_data :: "string \<Rightarrow> string option" where
  "line_data line = (if has_prefix (go_trim line) ''data: '' then Some (drop 6 (go_trim line)) else None)"

definition line_chunk :: "conv_env \<Rightarrow> string \<Rightarrow> chunk_step option" where
  "line_chunk env line =
     (case line_data line of
        None \<Rightarrow> None
      | Some data \<Rightarrow> if data = donePayload then None else chunk_of env data)"

definition line_chunks :: "conv_env \<Rightarrow> string list \<Rightarrow> chunk_step list" where
  "line_chunks env ls = List.map_filter (line_chunk env) ls"

lemma line_run_chunks:
  "\<forall>l \<in> set ls. line_data l \<noteq> Some donePayload \<Longrightarrow>
   line_run env ls c = step_run (ce_uuid env) (line_chunks env ls) c"
proof (induction ls arbitrary: c)
  case (Cons l ls)
  have "line_events env l c = (case line_chunk env l of None \<Rightarrow> ([], c) | Some sp \<Rightarrow> apply_step (ce_uuid env) sp c)"
    using Cons.prems by (auto simp: line_events_def line_chunk_def line_data_def Let_def split: option.split)
  with Cons show ?case
    by (cases "line_chunk env l") (simp_all add: line_chunks_def map_filter_simps case_prod_beta)
qed (simp add: line_chunks_def map_filter_simps)

lemma line_run_silent:
  assumes "\<forall>l \<in> set ls. line_chunk env l = None" "co_sentDone c"
  shows "line_run env ls c = ([], c)"
  using assms
proof (induction ls)
  case (Cons l ls)
  then have "line_events env l c = ([], c)"
    by (auto simp: line_events_def line_chunk_def line_data_def Let_def appendCompletedEvents_def
        split: if_splits option.splits)
  with Cons show ?case by simp
qed simp

lemma converted_answer:
  assumes "complete_lines bytes = ls @ rest" "\<forall>l \<in> set ls. line_data l \<noteq> Some donePayload"
    and "rest = [] \<or> (\<exists>l rest'. rest = l # rest' \<and> line_data l = Some donePayload \<and> (\<forall>l \<in> set rest'. line_chunk env l = None))"
  shows "converted env head bytes = answer_events (ce_uuid env) head (line_chunks env ls)"
proof -
  note run = line_run_chunks [OF assms(2), of env]
  from assms(3) show ?thesis
  proof (elim disjE exE conjE)
    fix l rest' assume r: "rest = l # rest'" "line_data l = Some donePayload" "\<forall>l \<in> set rest'. line_chunk env l = None"
    have "line_events env l c = appendCompletedEvents (ce_uuid env) c" for c
      using r(2) by (auto simp: line_events_def line_data_def split: if_splits)
    with line_run_silent [OF r(3) sentDone_completed] have
      "line_run env rest c = appendCompletedEvents (ce_uuid env) c" for c
      by (simp add: r(1) case_prod_beta)
    then show ?thesis
      using sentDone_completed
      by (simp add: converted_def later_events_def answer_events_def assms(1) line_run_append run case_prod_beta
          appendCompletedEvents_def [of _ "snd (appendCompletedEvents _ _)"])
  qed (simp add: converted_def later_events_def answer_events_def assms(1) run case_prod_beta)
qed

text \<open>
  C28. A client of the Responses API that follows the converted stream of an orderly upstream accepts every
  event and rebuilds the answer: its message is the concatenation of the text of the chunks, and its
  function calls are the calls of the chunks, each with its last identifier and name and all of its
  arguments, at an index of its own. A call that never got an identifier is left out; one that never
  got a name is called unknown. An upstream is orderly when it spells its text before its calls and
  announces the end of the calls after them.
\<close>

theorem responses_stream_rebuilds_answer:
  assumes "complete_lines bytes = ls @ rest" "\<forall>l \<in> set ls. line_data l \<noteq> Some donePayload"
    and "rest = [] \<or> (\<exists>l rest'. rest = l # rest' \<and> line_data l = Some donePayload \<and> (\<forall>l \<in> set rest'. line_chunk env l = None))"
    and "sps = line_chunks env ls" "orderly False False sps"
  shows "\<exists>cl. client_run new_client (converted env head bytes) = Some cl \<and> cl_completed cl
    \<and> (case cl_message cl of
         None \<Rightarrow> upstream_text sps = []
       | Some v \<Rightarrow> mv_done v \<and> mv_index v = 0 \<and> mv_text v = upstream_text sps \<and> upstream_text sps \<noteq> [])
    \<and> (\<forall>i. rebuilt_call cl (i + offset (upstream_text sps)) = sent_call (upstream_calls sps i))"
  using answer_rebuilt [OF assms(5), of "ce_uuid env" head] converted_answer [OF assms(1-3)] assms(4) by simp

section \<open>A stream of text and a call\<close>

definition call_chunk :: "string \<Rightarrow> string \<Rightarrow> string \<Rightarrow> openAIStreamChunk" where
  "call_chunk cid name a =
     \<lparr>ck_Usage = [],
      ck_Choices = [\<lparr>cc_Content = [],
        cc_ToolCalls = [\<lparr>tc_Index = Some 0, tc_ID = cid, tc_Name = name, tc_Arguments = a\<rparr>],
        cc_FinishReason = []\<rparr>]\<rparr>"

definition demo_typed :: "string \<Rightarrow> openAIStreamChunk option" where
  "demo_typed data =
     (if data = ''one'' then Some (text_chunk ''Hi '') else if data = ''two'' then Some (text_chunk ''there'')
      else if data = ''open'' then Some (call_chunk ''c1'' ''look'' ''{a'')
      else if data = ''next'' then Some (call_chunk [] [] ''b}'') else None)"

definition call_env :: conv_env where
  "call_env = demo_conv_env\<lparr>ce_typed := demo_typed\<rparr>"

definition data_lines :: "string list \<Rightarrow> string" where
  "data_lines ds = concat (map (\<lambda>d. ''data: '' @ d @ [LF, LF]) ds)"

lemma responses_stream_rebuilds_answer_witness:
  "\<exists>cl. client_run new_client (converted call_env demo_head
      (data_lines [''one'', ''two'', ''open'', ''next'', ''[DONE]''])) = Some cl \<and>
     map_option mv_text (cl_message cl) = Some ''Hi there'' \<and>
     rebuilt_call cl 1 = Some (''c1'', ''look'', ''{ab}'')"
proof -
  let ?bytes = "data_lines [''one'', ''two'', ''open'', ''next'', ''[DONE]'']"
  let ?ls = "[''data: one'', [], ''data: two'', [], ''data: open'', [], ''data: next'', []]"
  have l: "complete_lines ?bytes = ?ls @ [''data: [DONE]'', []]" by code_simp
  have n: "\<forall>l \<in> set ?ls. line_data l \<noteq> Some donePayload" by code_simp
  have r: "line_data ''data: [DONE]'' = Some donePayload" "line_chunk call_env [] = None" by code_simp+
  have o: "orderly False False (line_chunks call_env ?ls)" by code_simp
  have t: "upstream_text (line_chunks call_env ?ls) = ''Hi there''" by code_simp
  have c: "sent_call (upstream_calls (line_chunks call_env ?ls) 0) = Some (''c1'', ''look'', ''{ab}'')" by code_simp
  from responses_stream_rebuilds_answer [OF l n _ refl o, of demo_head] r
  obtain cl where cl: "client_run new_client (converted call_env demo_head ?bytes) = Some cl"
    "case cl_message cl of
         None \<Rightarrow> ''Hi there'' = []
       | Some v \<Rightarrow> mv_done v \<and> mv_index v = 0 \<and> mv_text v = ''Hi there'' \<and> ''Hi there'' \<noteq> []"
    "\<forall>i. rebuilt_call cl (i + offset ''Hi there'') = sent_call (upstream_calls (line_chunks call_env ?ls) i)"
    unfolding t by auto
  from cl(3) have "rebuilt_call cl (0 + offset ''Hi there'') = Some (''c1'', ''look'', ''{ab}'')" unfolding c [symmetric] ..
  with cl(1,2) show ?thesis by (auto simp: offset_def split: option.splits)
qed

text \<open>Text after a call: the message is finished with the first part, and the rest is sent as deltas of
  an item that is closed.\<close>

lemma text_after_call_lost:
  "filter (\<lambda>ev. case ev of TextDelta _ \<Rightarrow> True | ItemDone (MessageItem _ _ _) _ \<Rightarrow> True | _ \<Rightarrow> False)
     (converted call_env demo_head (data_lines [''one'', ''open'', ''two'', ''[DONE]''])) =
   [TextDelta ''Hi '', ItemDone (MessageItem ''msg_u'' ''completed'' (Some ''Hi '')) 0, TextDelta ''there'']"
  by code_simp

text \<open>A call before the text: both items get the index 0.\<close>

lemma call_before_text_shares_index:
  "List.map_filter (\<lambda>ev. case ev of ItemAdded item i \<Rightarrow> Some i | _ \<Rightarrow> None)
     (converted call_env demo_head (data_lines [''open'', ''one'', ''[DONE]''])) = [0, 0]"
  by code_simp

text \<open>The added item of a call carries the arguments known so far, and the first delta repeats them.\<close>

lemma first_arguments_repeated:
  "filter (\<lambda>ev. case ev of ItemAdded _ _ \<Rightarrow> True | ArgumentsDelta _ _ _ \<Rightarrow> True | _ \<Rightarrow> False)
     (converted call_env demo_head (data_lines [''open'', ''[DONE]''])) =
   [ItemAdded (CallItem ''fc_c1'' ''in_progress'' ''c1'' ''look'' ''{a'') 0, ArgumentsDelta ''fc_c1'' 0 ''{a'']"
  by code_simp

end
