(* ===== verification/ResponsesDone.thy ===== *)
theory ResponsesDone
  imports ResponsesStream
begin

text \<open>
  The end marker of a Responses API stream: \<open>internal/providers/responses_done_wrapper.go\<close>.

  The wrapper passes a stream on and follows its lines. At the end it adds what is missing of the
  marker, when the stream had reached its completion event. The upstream's answers are those of
  \<open>ResponsesStream\<close>; an answer is at most as long as the reader's buffer, as \<open>io.Reader\<close> demands.
\<close>

section \<open>The wrapper\<close>

definition responsesDoneLine :: string where "responsesDoneLine = ''data: [DONE]''"
definition responsesDoneMarker :: string where "responsesDoneMarker = ''data: [DONE]'' @ [LF, LF]"
definition responsesDataPrefix :: string where "responsesDataPrefix = ''data: ''"

definition quote_char :: char where "quote_char = CHR 0x22"

definition responsesCompletionPatterns :: "string list" where
  "responsesCompletionPatterns =
     map (\<lambda>t. quote_char # ''type'' @ quote_char # CHR '':'' # quote_char # t @ [quote_char])
       [''response.completed'', ''response.done'']"

record done_wrapper =
  dw_lineBuf :: string
  dw_pending :: string
  dw_sawDone :: bool
  dw_eventCompletedCandidate :: bool
  dw_completedEventReadyForDone :: bool
  dw_atEventBoundary :: bool
  dw_currentLineAtEventBoundary :: bool
  dw_emitted :: bool

definition EnsureResponsesDone :: done_wrapper where
  "EnsureResponsesDone =
     \<lparr>dw_lineBuf = [], dw_pending = [], dw_sawDone = False, dw_eventCompletedCandidate = False,
      dw_completedEventReadyForDone = False, dw_atEventBoundary = True, dw_currentLineAtEventBoundary = True,
      dw_emitted = False\<rparr>"

definition isDoneLinePrefix :: "string \<Rightarrow> bool" where
  "isDoneLinePrefix line \<longleftrightarrow>
     length line \<le> length responsesDoneLine \<and> line = take (length line) responsesDoneLine"

definition isCompletedDataLine :: "string \<Rightarrow> bool" where
  "isCompletedDataLine line0 =
     (let line = trim_suffix line0 [CR]
      in has_prefix line responsesDataPrefix \<and>
         (\<exists>pattern \<in> set responsesCompletionPatterns. go_contains (drop (length responsesDataPrefix) line) pattern))"

definition processLine :: "string \<Rightarrow> done_wrapper \<Rightarrow> done_wrapper" where
  "processLine line0 w =
     (let line = trim_suffix line0 [CR]
      in if line = []
         then w\<lparr>dw_completedEventReadyForDone := dw_completedEventReadyForDone w \<or> dw_eventCompletedCandidate w,
                dw_eventCompletedCandidate := False, dw_atEventBoundary := True\<rparr>
         else let marker = dw_currentLineAtEventBoundary w \<and> line = responsesDoneLine
              in w\<lparr>dw_completedEventReadyForDone := dw_completedEventReadyForDone w \<and> marker,
                   dw_sawDone := dw_sawDone w \<or> marker,
                   dw_eventCompletedCandidate := dw_eventCompletedCandidate w \<or> isCompletedDataLine line,
                   dw_atEventBoundary := False\<rparr>)"

function trackStream :: "string \<Rightarrow> done_wrapper \<Rightarrow> done_wrapper" where
  "trackStream data w =
     (case cut LF data of
        None \<Rightarrow> w\<lparr>dw_lineBuf := dw_lineBuf w @ data\<rparr>
      | Some (part, rest) \<Rightarrow>
          let w' = processLine (dw_lineBuf w @ part) w
          in trackStream rest (w'\<lparr>dw_lineBuf := [], dw_currentLineAtEventBoundary := dw_atEventBoundary w'\<rparr>))"
  by pat_completeness auto
termination
  by (relation "measure (\<lambda>(data, w). length data)") (auto simp: cut_Some_iff)

declare trackStream.simps [simp del]

definition synthesizeDoneSuffix :: "done_wrapper \<Rightarrow> string" where
  "synthesizeDoneSuffix w =
     (if dw_sawDone w then []
      else if dw_eventCompletedCandidate w \<and> dw_lineBuf w = [] then LF # responsesDoneMarker
      else if isCompletedDataLine (dw_lineBuf w) then [LF, LF] @ responsesDoneMarker
      else if \<not> dw_completedEventReadyForDone w then []
      else if dw_lineBuf w = [] then (if dw_atEventBoundary w then responsesDoneMarker else [])
      else if \<not> dw_currentLineAtEventBoundary w \<or> \<not> isDoneLinePrefix (dw_lineBuf w) then []
      else drop (length (dw_lineBuf w)) responsesDoneLine @ [LF, LF])"

definition dw_Read ::
  "nat \<Rightarrow> 'e answer list \<Rightarrow> done_wrapper \<Rightarrow> 'e answer \<times> 'e answer list \<times> done_wrapper" where
  "dw_Read k up w =
     (if dw_pending w \<noteq> [] then
        let rest = drop k (dw_pending w)
        in ((take k (dw_pending w), More), up,
            w\<lparr>dw_pending := rest, dw_emitted := (dw_emitted w \<or> rest = [])\<rparr>)
      else if dw_emitted w then (([], Ended), up, w)
      else
        let (data, ending) = (case up of [] \<Rightarrow> ([], Ended) | a # _ \<Rightarrow> a);
            w1 = (if data \<noteq> [] then trackStream data w else w)
        in case ending of
             More \<Rightarrow> ((data, More), tl up, w1)
           | Failed e \<Rightarrow> ((data, Failed e), tl up, w1)
           | Ended \<Rightarrow>
               let suffix = (if dw_sawDone w1 then [] else synthesizeDoneSuffix w1)
               in if suffix = [] then ((data, if data \<noteq> [] then More else Ended), tl up, w1)
                  else if data \<noteq> [] then ((data, More), tl up, w1\<lparr>dw_pending := suffix\<rparr>)
                  else if k < length suffix then ((take k suffix, More), tl up, w1\<lparr>dw_pending := drop k suffix\<rparr>)
                  else ((suffix, More), tl up, w1\<lparr>dw_emitted := True\<rparr>))"

section \<open>What the reads deliver\<close>

lemma trackStream_line:
  assumes "LF \<notin> set part"
  shows "trackStream (part @ LF # rest) w =
    (let w' = processLine (dw_lineBuf w @ part) w
     in trackStream rest (w'\<lparr>dw_lineBuf := [], dw_currentLineAtEventBoundary := dw_atEventBoundary w'\<rparr>))"
  using assms by (simp add: trackStream.simps [of "part @ LF # rest"] cut_append)

lemma trackStream_part: "LF \<notin> set part \<Longrightarrow> trackStream part w = w\<lparr>dw_lineBuf := dw_lineBuf w @ part\<rparr>"
proof -
  assume "LF \<notin> set part"
  then have "cut LF part = None" by (simp add: cut_None_iff)
  then show ?thesis by (simp add: trackStream.simps [of part])
qed

lemma processLine_lineBuf [simp]: "processLine line (w\<lparr>dw_lineBuf := b\<rparr>) = (processLine line w)\<lparr>dw_lineBuf := b\<rparr>"
  by (simp add: processLine_def Let_def)

lemma trackStream_append: "trackStream (a @ b) w = trackStream b (trackStream a w)"
proof (induction a w rule: trackStream.induct)
  case (1 a w)
  show ?case
  proof (cases "cut LF a")
    case None
    then have a: "LF \<notin> set a" by (simp add: cut_None_iff)
    show ?thesis
    proof (cases "cut LF b")
      case None
      with a show ?thesis by (simp add: trackStream_part cut_None_iff)
    next
      case (Some r)
      then obtain p q where "b = p @ LF # q" "LF \<notin> set p" by (cases r) (auto simp: cut_Some_iff)
      then show ?thesis
        using a trackStream_line [of "a @ p" q w] trackStream_line [of p q] by (simp add: trackStream_part Let_def)
    qed
  next
    case (Some r)
    then obtain p q where r: "cut LF a = Some (p, q)" by (cases r) auto
    then have a: "a = p @ LF # q" "LF \<notin> set p" by (simp_all add: cut_Some_iff)
    from 1 [OF r refl refl] show ?thesis
      using trackStream_line [OF a(2), of q w] trackStream_line [OF a(2), of "q @ b" w] by (simp add: a(1) Let_def)
  qed
qed

lemma trackStream_Nil [simp]: "trackStream [] w = w"
  by (simp add: trackStream.simps)

lemma processLine_fields [simp]:
  "dw_pending (processLine line w) = dw_pending w" "dw_emitted (processLine line w) = dw_emitted w"
  by (simp_all add: processLine_def Let_def)

lemma trackStream_fields [simp]:
  "dw_pending (trackStream data w) = dw_pending w" "dw_emitted (trackStream data w) = dw_emitted w"
proof -
  have "dw_pending (trackStream data w) = dw_pending w \<and> dw_emitted (trackStream data w) = dw_emitted w"
    by (induction data w rule: trackStream.induct) (simp add: trackStream.simps Let_def split: option.split)
  then show "dw_pending (trackStream data w) = dw_pending w" "dw_emitted (trackStream data w) = dw_emitted w"
    by auto
qed

definition dw_remaining :: "'e answer list \<Rightarrow> done_wrapper \<Rightarrow> string" where
  "dw_remaining up w =
     (if dw_pending w \<noteq> [] then dw_pending w else if dw_emitted w then []
      else let bytes = concat (map fst up) in bytes @ synthesizeDoneSuffix (trackStream bytes w))"

lemma dw_read:
  assumes "ends up" "0 < k" "dw_Read k up w = ((p, e), up', w')"
  shows "(e = More \<and> p @ dw_remaining up' w' = dw_remaining up w \<and> ends up' \<and>
      length (dw_remaining up' w') + length up' < length (dw_remaining up w) + length up)
    \<or> (e = Ended \<and> p = [] \<and> dw_remaining up w = [])"
proof -
  show ?thesis
  proof (cases "dw_pending w = []")
    case False
    then have "p = take k (dw_pending w)" "e = More" "up' = up"
      "dw_remaining up' w' = drop k (dw_pending w)" "dw_remaining up w = dw_pending w"
      using assms(3) by (auto simp: dw_Read_def dw_remaining_def Let_def)
    with False assms(1,2) show ?thesis by simp
  next
    case pend: True
    show ?thesis
    proof (cases "dw_emitted w")
      case True
      with pend assms(3) show ?thesis by (auto simp: dw_Read_def dw_remaining_def)
    next
      case em: False
      obtain data ending where a: "(case up of [] \<Rightarrow> ([], Ended) | a # _ \<Rightarrow> a) = (data, ending)" by force
      let ?w = "trackStream data w"
      have w1: "(if data \<noteq> [] then trackStream data w else w) = ?w" by simp
      let ?suffix = "synthesizeDoneSuffix ?w"
      have suffix: "(if dw_sawDone ?w then [] else ?suffix) = ?suffix" by (simp add: synthesizeDoneSuffix_def)
      have fw: "dw_pending ?w = []" "\<not> dw_emitted ?w" using pend em by simp_all
      have eq: "dw_Read k up w =
        (case ending of
           More \<Rightarrow> ((data, More), tl up, ?w)
         | Failed e \<Rightarrow> ((data, Failed e), tl up, ?w)
         | Ended \<Rightarrow>
             if ?suffix = [] then ((data, if data \<noteq> [] then More else Ended), tl up, ?w)
             else if data \<noteq> [] then ((data, More), tl up, ?w\<lparr>dw_pending := ?suffix\<rparr>)
             else if k < length ?suffix then ((take k ?suffix, More), tl up, ?w\<lparr>dw_pending := drop k ?suffix\<rparr>)
             else ((?suffix, More), tl up, ?w\<lparr>dw_emitted := True\<rparr>))"
        unfolding dw_Read_def Let_def a prod.case w1 suffix using pend em by simp
      note run = assms(3) [unfolded eq]
      show ?thesis
      proof (cases up)
        case Nil
        with a have d: "data = []" "ending = Ended" by simp_all
        have R: "dw_remaining up w = ?suffix" using Nil pend em d by (simp add: dw_remaining_def)
        show ?thesis
        proof (cases "?suffix = []")
          case True
          with R Nil d run show ?thesis by simp
        next
          case False
          then have "p = take k ?suffix" "e = More" "up' = []" "dw_remaining up' w' = drop k ?suffix"
            using Nil d assms(2) run fw by (auto simp: dw_remaining_def split: if_splits)
          with R Nil False assms(2) show ?thesis by (simp add: ends_def)
        qed
      next
        case (Cons x xs)
        with a have up: "up = (data, ending) # xs" by simp
        have R: "dw_remaining up w = data @ (let b = concat (map fst xs) in b @ synthesizeDoneSuffix (trackStream b ?w))"
          using pend em by (simp add: up dw_remaining_def Let_def trackStream_append)
        consider (go) "ending = More" "ends xs" | (stop) "ending = Ended" "xs = []"
          using assms(1) up ends_tl [of "(data, ending)" xs] by (cases ending) auto
        then show ?thesis
        proof cases
          case go
          then have "p = data" "e = More" "up' = xs" "w' = ?w"
            using up run by (auto simp: up)
          with R go fw up show ?thesis by (simp add: dw_remaining_def Let_def)
        next
          case stop
          then have R: "dw_remaining up w = data @ ?suffix" using R by simp
          show ?thesis
          proof (cases "?suffix = []")
            case True
            with stop up run have "p = data" "e = (if data \<noteq> [] then More else Ended)" "up' = []" "w' = ?w"
              by (auto simp: up)
            with R True up stop fw show ?thesis by (simp add: dw_remaining_def ends_def)
          next
            case False
            show ?thesis
            proof (cases "data = []")
              case True
              then have "p = take k ?suffix" "e = More" "up' = []" "dw_remaining up' w' = drop k ?suffix"
                using False stop up assms(2) run fw by (auto simp: dw_remaining_def split: if_splits)
              with R True False assms(2) up show ?thesis by (simp add: ends_def)
            next
              case dat: False
              with False stop up run have "p = data" "e = More" "up' = []" "w' = ?w\<lparr>dw_pending := ?suffix\<rparr>"
                by (auto simp: up)
              with R dat False up show ?thesis by (simp add: dw_remaining_def ends_def)
            qed
          qed
        qed
      qed
    qed
  qed
qed

interpretation dw: byte_stream dw_Read "\<lambda>up w. ends up" dw_remaining "\<lambda>up w. length (dw_remaining up w) + length up"
  by unfold_locales (rule dw_read)

section \<open>Streams cut after their completion\<close>

definition marker_line :: "string \<Rightarrow> bool" where
  "marker_line line \<longleftrightarrow> trim_suffix line [CR] = responsesDoneLine"

lemma trackStream_sawDone:
  "dw_sawDone (trackStream data w) \<Longrightarrow>
   dw_sawDone w \<or> (\<exists>l \<in> set (split_on LF (dw_lineBuf w @ data)). marker_line l)" if "LF \<notin> set (dw_lineBuf w)"
  using that
proof (induction data w rule: trackStream.induct)
  case (1 data w)
  show ?case
  proof (cases "cut LF data")
    case None
    with 1 show ?thesis by (simp add: trackStream.simps [of data])
  next
    case (Some r)
    then obtain p q where r: "cut LF data = Some (p, q)" by (cases r) auto
    then have d: "data = p @ LF # q" "LF \<notin> set p" by (simp_all add: cut_Some_iff)
    let ?w = "processLine (dw_lineBuf w @ p) w"
    let ?w' = "?w\<lparr>dw_lineBuf := [], dw_currentLineAtEventBoundary := dw_atEventBoundary ?w\<rparr>"
    have split: "split_on LF (dw_lineBuf w @ data) = (dw_lineBuf w @ p) # split_on LF q"
      using d 1(3) split_on_append [of LF "dw_lineBuf w @ p" q] by simp
    have "dw_sawDone ?w \<longrightarrow> dw_sawDone w \<or> marker_line (dw_lineBuf w @ p)"
      by (simp add: processLine_def Let_def marker_line_def)
    moreover have "dw_sawDone (trackStream q ?w')"
      using 1(2) trackStream_line [OF d(2), of q w] by (simp add: d(1) Let_def)
    ultimately show ?thesis using 1(1) [OF r refl refl] split by auto
  qed
qed

text \<open>At the start of a line, with no marker seen.\<close>

definition line_start :: "done_wrapper \<Rightarrow> bool" where
  "line_start w \<longleftrightarrow> dw_lineBuf w = [] \<and> \<not> dw_sawDone w"

lemma line_start_after:
  assumes "pre = [] \<or> (\<exists>q. pre = q @ [LF])" "\<forall>l \<in> set (split_on LF pre). \<not> marker_line l"
  shows "line_start (trackStream pre EnsureResponsesDone)"
proof -
  have "dw_lineBuf (trackStream pre EnsureResponsesDone) = []"
    using assms(1)
  proof
    assume "\<exists>q. pre = q @ [LF]"
    then obtain q where q: "pre = q @ [LF]" by blast
    show ?thesis
      unfolding q trackStream_append using trackStream_line [of "[]" "[]"] by (simp add: Let_def)
  qed (simp add: EnsureResponsesDone_def)
  moreover have "\<not> dw_sawDone (trackStream pre EnsureResponsesDone)"
    using trackStream_sawDone [of EnsureResponsesDone pre] assms(2) by (auto simp: EnsureResponsesDone_def)
  ultimately show ?thesis by (simp add: line_start_def)
qed

definition done_tail :: string where
  "done_tail = [LF, LF] @ responsesDoneLine @ [LF, LF]"

lemma no_completion_in_marker:
  assumes "j \<le> 12"
  shows "\<not> isCompletedDataLine (take j responsesDoneLine)" "isDoneLinePrefix (take j responsesDoneLine)"
    "LF \<notin> set (take j responsesDoneLine)"
proof -
  have "list_all (\<lambda>j. \<not> isCompletedDataLine (take j responsesDoneLine) \<and> isDoneLinePrefix (take j responsesDoneLine)
      \<and> LF \<notin> set (take j responsesDoneLine)) [0..<13]" by code_simp
  moreover have "j \<in> set [0..<13]" using assms by simp
  ultimately show "\<not> isCompletedDataLine (take j responsesDoneLine)" "isDoneLinePrefix (take j responsesDoneLine)"
    "LF \<notin> set (take j responsesDoneLine)" unfolding list_all_iff by blast+
qed

lemma repaired_tail:
  assumes "line_start w" "isCompletedDataLine line" "LF \<notin> set line" "CR \<notin> set line" "m \<le> 16" "m \<noteq> 15"
  shows "take m done_tail @ synthesizeDoneSuffix (trackStream (line @ take m done_tail) w) = done_tail"
proof -
  have trim: "trim_suffix line [CR] = line"
    using assms(4) in_set_dropD [of CR "length line - 1" line] by (auto simp: trim_suffix_def has_suffix_def)
  have ne: "line \<noteq> []" using assms(2) by (auto simp: isCompletedDataLine_def trim_suffix_def has_suffix_def responsesDataPrefix_def)
  have marker: "line \<noteq> responsesDoneLine" using assms(2) no_completion_in_marker(1) [of 12]
    by (auto simp: responsesDoneLine_def)
  let ?w1 = "w\<lparr>dw_lineBuf := [], dw_sawDone := False, dw_completedEventReadyForDone := False,
      dw_eventCompletedCandidate := True, dw_atEventBoundary := False,
      dw_currentLineAtEventBoundary := False\<rparr>"
  let ?w2 = "?w1\<lparr>dw_completedEventReadyForDone := True, dw_eventCompletedCandidate := False, dw_atEventBoundary := True,
      dw_currentLineAtEventBoundary := True\<rparr>"
  have w: "dw_lineBuf w = []" "\<not> dw_sawDone w" using assms(1) by (simp_all add: line_start_def)
  have 1: "trackStream (line @ LF # rest) w = trackStream rest ?w1" for rest
    using trackStream_line [OF assms(3), of rest w] w trim ne marker assms(2)
    by (cases w) (simp add: processLine_def Let_def)
  have 2: "trackStream (line @ LF # LF # rest) w = trackStream rest ?w2" for rest
    unfolding 1 using trackStream_line [of "[]" rest ?w1] w
    by (cases w) (simp add: processLine_def Let_def trim_suffix_def has_suffix_def)
  consider "m = 0" | "m = 1" | (part) "2 \<le> m" "m \<le> 14" | "m = 16" using assms(5,6) by linarith
  then show ?thesis
  proof cases
    case 1
    then show ?thesis
      using trackStream_part [OF assms(3), of w] w assms(2) ne
      by (simp add: synthesizeDoneSuffix_def done_tail_def responsesDoneMarker_def responsesDoneLine_def)
  next
    case 2
    then have "take m done_tail = [LF]" by (simp add: done_tail_def)
    then show ?thesis
      using 1 [of "[]"] w by (simp add: synthesizeDoneSuffix_def done_tail_def responsesDoneMarker_def responsesDoneLine_def)
  next
    case part
    define j where "j = m - 2"
    have j: "j \<le> 12" "m = Suc (Suc j)" using part by (simp_all add: j_def)
    have len: "length responsesDoneLine = 12" by (simp add: responsesDoneLine_def)
    have t: "take m done_tail = LF # LF # take j responsesDoneLine"
      using j len by (simp add: done_tail_def)
    note N = no_completion_in_marker [OF j(1)]
    show ?thesis
    proof (cases "j = 0")
      case True
      then show ?thesis
        unfolding t using 2 [of "[]"] w no_completion_in_marker(1) [of 0]
        by (simp add: synthesizeDoneSuffix_def done_tail_def responsesDoneMarker_def responsesDoneLine_def)
    next
      case False
      then have "take j responsesDoneLine \<noteq> []" by (simp add: responsesDoneLine_def)
      then have "synthesizeDoneSuffix (trackStream (line @ take m done_tail) w) = drop j responsesDoneLine @ [LF, LF]"
        unfolding t 2 using trackStream_part [OF N(3), of ?w2] N w j(1) len by (simp add: synthesizeDoneSuffix_def min_def)
      then show ?thesis unfolding t by (simp add: done_tail_def flip: append_assoc)
    qed
  next
    case 4
    then have t: "take m done_tail = LF # LF # responsesDoneLine @ LF # [LF]"
      by (simp add: done_tail_def responsesDoneLine_def)
    have "LF \<notin> set responsesDoneLine" "trim_suffix responsesDoneLine [CR] = responsesDoneLine" "responsesDoneLine \<noteq> []"
      by code_simp+
    then have "dw_sawDone (trackStream (line @ take m done_tail) w)"
      unfolding t 2 using trackStream_line [of responsesDoneLine "[LF]" ?w2] trackStream_line [of "[]" "[]"] w
      by (simp add: processLine_def Let_def trim_suffix_def has_suffix_def)
    then show ?thesis using t by (simp add: synthesizeDoneSuffix_def done_tail_def)
  qed
qed

text \<open>
  C30. A Responses stream whose completion event and end marker are framed by line feeds, without carriage
  returns, and that was cut anywhere after its completion line is repaired: whatever part of the end
  marker arrived, and however the reads were cut, the reader receives the whole stream with the
  marker exactly once, and then the end. A marker that lacks only its last line feed is left as it is.
  The lines before the completion are arbitrary, except that none is an end marker. With carriage
  returns the repair has a gap: see \<open>crlf_cut_unrepaired\<close>.
\<close>

theorem cut_stream_repaired:
  assumes "ends up" "\<forall>k \<in> set ks. 0 < k"
    and "read_all dw_Read ks up EnsureResponsesDone = (out, e, up', w')"
    and "concat (map fst up) = pre @ line @ take m done_tail" "m \<le> 16" "m \<noteq> 15"
    and "pre = [] \<or> (\<exists>q. pre = q @ [LF])" "\<forall>l \<in> set (split_on LF pre). \<not> marker_line l"
    and "isCompletedDataLine line" "LF \<notin> set line" "CR \<notin> set line"
    and "full = pre @ line @ done_tail"
  shows "(e = Ended \<and> out = full)
    \<or> (e = More \<and> length ks \<le> length full + length up \<and> (\<exists>rest. full = out @ rest))"
proof -
  have "dw_remaining up EnsureResponsesDone =
      pre @ line @ take m done_tail @ synthesizeDoneSuffix (trackStream (pre @ line @ take m done_tail) EnsureResponsesDone)"
    using assms(4) by (simp add: dw_remaining_def EnsureResponsesDone_def)
  also have "\<dots> = full"
    unfolding trackStream_append [of pre] assms(12)
    by (simp only: repaired_tail [OF line_start_after [OF assms(7,8)] assms(9,10,11,5,6)])
  finally show ?thesis
    using dw.read_all_delivers [OF assms(1-3)] by (metis add_leD1)
qed

definition demo_completion :: string where
  "demo_completion = responsesDataPrefix @ hd responsesCompletionPatterns"

lemma cut_stream_repaired_witness:
  "fst (read_all dw_Read (replicate 200 3)
      [(''event: x'' @ [LF], More), (demo_completion @ [LF, LF] @ ''data'', More), ('': [DO'', (Ended :: unit read_end))]
      EnsureResponsesDone) = ''event: x'' @ [LF] @ demo_completion @ [LF, LF] @ ''data: [DONE]'' @ [LF, LF]"
proof -
  let ?up = "[(''event: x'' @ [LF], More), (demo_completion @ [LF, LF] @ ''data'', More), ('': [DO'', (Ended :: unit read_end))]"
  let ?pre = "''event: x'' @ [LF]"
  obtain out e up w where r: "read_all dw_Read (replicate 200 3) ?up EnsureResponsesDone = (out, e, up, w)"
    by (metis prod.exhaust)
  have ends: "ends ?up" by (simp add: ends_def)
  have cut: "concat (map fst ?up) = ?pre @ demo_completion @ take 11 done_tail" by code_simp
  have line: "isCompletedDataLine demo_completion" "LF \<notin> set demo_completion" "CR \<notin> set demo_completion"
    "length demo_completion = 33" by code_simp+
  have pre: "\<forall>l \<in> set (split_on LF ?pre). \<not> marker_line l" by code_simp
  have "length (?pre @ demo_completion @ done_tail) + length ?up < 200"
    using line(4) by (simp add: done_tail_def responsesDoneLine_def)
  then show ?thesis
    using cut_stream_repaired [OF ends _ r cut _ _ _ pre line(1-3) refl] r
    by (auto simp: done_tail_def responsesDoneLine_def)
qed

text \<open>
  The code accepts lines that end with a carriage return and a line feed. A stream in that framing is
  repaired when it is cut after a whole line, but not when it is cut between the two bytes of the empty
  line: the lone carriage return is taken for the start of another line, and no marker is added.
\<close>

lemma crlf_cut_unrepaired:
  "fst (read_all dw_Read (replicate 20 60) [(demo_completion @ [CR, LF, CR], (Ended :: unit read_end))] EnsureResponsesDone) =
     demo_completion @ [CR, LF, CR]"
  "fst (read_all dw_Read (replicate 20 60) [(demo_completion @ [CR, LF], (Ended :: unit read_end))] EnsureResponsesDone) =
     demo_completion @ [CR, LF, LF] @ ''data: [DONE]'' @ [LF, LF]"
  "fst (read_all dw_Read (replicate 20 60) [(demo_completion @ [CR, LF, CR, LF] @ ''dat'', (Ended :: unit read_end))] EnsureResponsesDone) =
     demo_completion @ [CR, LF, CR, LF] @ ''data: [DONE]'' @ [LF, LF]"
  by code_simp+

end
