(* ===== verification/AnthropicStream.thy ===== *)
theory AnthropicStream
  imports ResponsesStream
begin

text \<open>
  Chat completion streams turned into Anthropic Messages streams:
  \<open>internal/anthropicapi/stream.go\<close>, and the stop reasons of \<open>response.go\<close>.

  As in \<open>ResponsesStream\<close>, events are values, \<open>emit_event\<close> renders one with the JSON encoder, and the
  decoder of a chunk is a parameter. \<open>read_bytes\<close> is \<open>ReadBytes\<close> of the standard library's buffered
  reader over the upstream's answers. The reference is a client of the Messages API that follows the
  events block by block.
\<close>

section \<open>Events\<close>

datatype content_block =
    ThinkingBlock
  | TextBlock
  | ToolUseBlock string string         \<comment> \<open>id and name\<close>

datatype block_delta =
    ThinkingPart string
  | TextPart string
  | InputPart string

record usage_payload =
  pl_output :: int
  pl_input :: "int option"
  pl_cache_read :: "int option"
  pl_cache_creation :: "int option"

datatype message_event =
    MessageStart string string           \<comment> \<open>id and model\<close>
  | BlockStart int content_block
  | BlockDelta int block_delta
  | BlockStop int
  | MessageDelta string usage_payload    \<comment> \<open>the stop reason\<close>
  | MessageStop

definition event_type :: "message_event \<Rightarrow> string" where
  "event_type ev =
     (case ev of
        MessageStart _ _ \<Rightarrow> ''message_start''
      | BlockStart _ _ \<Rightarrow> ''content_block_start''
      | BlockDelta _ _ \<Rightarrow> ''content_block_delta''
      | BlockStop _ \<Rightarrow> ''content_block_stop''
      | MessageDelta _ _ \<Rightarrow> ''message_delta''
      | MessageStop \<Rightarrow> ''message_stop'')"

definition emit_event :: "(message_event \<Rightarrow> string option) \<Rightarrow> message_event \<Rightarrow> string" where
  "emit_event enc ev =
     (case enc ev of
        None \<Rightarrow> []
      | Some payload \<Rightarrow> ''event: '' @ event_type ev @ LF # ''data: '' @ payload @ [LF, LF])"

section \<open>Chunks\<close>

record chat_usage =
  cu_PromptTokens :: int
  cu_CompletionTokens :: int
  cu_CacheCreationInputTokens :: int
  cu_CacheReadInputTokens :: int
  cu_CachedTokens :: "int option"        \<comment> \<open>of the prompt details, when they are present\<close>

definition no_usage :: chat_usage where
  "no_usage = \<lparr>cu_PromptTokens = 0, cu_CompletionTokens = 0, cu_CacheCreationInputTokens = 0,
               cu_CacheReadInputTokens = 0, cu_CachedTokens = None\<rparr>"

definition cacheRead :: "chat_usage \<Rightarrow> int" where
  "cacheRead u =
     (if cu_CacheReadInputTokens u > 0 then cu_CacheReadInputTokens u
      else case cu_CachedTokens u of Some n \<Rightarrow> n | None \<Rightarrow> 0)"

record chat_delta_call =
  dc_Index :: int
  dc_ID :: string
  dc_Name :: string
  dc_Arguments :: string

record chat_choice =
  ao_Content :: string
  ao_ReasoningContent :: string
  ao_ToolCalls :: "chat_delta_call list"
  ao_FinishReason :: string

record chat_chunk =
  ac_ID :: string
  ac_Model :: string
  ac_Choices :: "chat_choice list"
  ac_Usage :: "chat_usage option"

definition stopReasonFromFinish :: "string \<Rightarrow> bool \<Rightarrow> string" where
  "stopReasonFromFinish finish hasToolCalls =
     (if hasToolCalls then ''tool_use''
      else if finish = ''stop'' then ''end_turn''
      else if finish = ''length'' then ''max_tokens''
      else if finish = ''tool_calls'' then ''tool_use''
      else if finish = ''content_filter'' then ''end_turn''
      else finish)"

definition normalizeMessageID :: "string \<Rightarrow> string" where
  "normalizeMessageID id0 =
     (let i = go_trim id0
      in if i = [] then [] else if has_prefix i ''msg_'' then i else ''msg_'' @ i)"

section \<open>The converter\<close>

record message_core =
  mc_model :: string
  mc_started :: bool
  mc_blockOpen :: bool
  mc_blockType :: string
  mc_curIndex :: int
  mc_nextIndex :: int
  mc_toolBlock :: "(int \<times> int) list"
  mc_stopReason :: string
  mc_usage :: chat_usage
  mc_finalized :: bool

definition new_message_core :: "string \<Rightarrow> message_core" where
  "new_message_core model =
     \<lparr>mc_model = model, mc_started = False, mc_blockOpen = False, mc_blockType = [], mc_curIndex = 0, mc_nextIndex = 0,
      mc_toolBlock = [], mc_stopReason = [], mc_usage = no_usage, mc_finalized = False\<rparr>"

definition ensureStarted :: "string \<Rightarrow> string \<Rightarrow> message_core \<Rightarrow> message_event list \<times> message_core" where
  "ensureStarted i model c =
     (if mc_started c then ([], c)
      else let msgID = (if normalizeMessageID i = [] then ''msg_stream'' else normalizeMessageID i)
           in ([MessageStart msgID (if model = [] then mc_model c else model)], c\<lparr>mc_started := True\<rparr>))"

definition closeBlock :: "message_core \<Rightarrow> message_event list \<times> message_core" where
  "closeBlock c =
     (if \<not> mc_blockOpen c then ([], c)
      else ([BlockStop (mc_curIndex c)], c\<lparr>mc_blockOpen := False\<rparr>))"

definition openBlock :: "string \<Rightarrow> content_block \<Rightarrow> message_core \<Rightarrow> message_event list \<times> message_core" where
  "openBlock blockType block c =
     ([BlockStart (mc_nextIndex c) block],
      c\<lparr>mc_curIndex := mc_nextIndex c, mc_nextIndex := mc_nextIndex c + 1, mc_blockOpen := True,
        mc_blockType := blockType\<rparr>)"

definition ensureBlock :: "string \<Rightarrow> message_core \<Rightarrow> message_event list \<times> message_core" where
  "ensureBlock blockType c =
     (if mc_blockOpen c \<and> mc_blockType c = blockType then ([], c)
      else case closeBlock c of
          (evs, c) \<Rightarrow>
            (case openBlock blockType (if blockType = ''thinking'' then ThinkingBlock else TextBlock) c of
               (evs', c) \<Rightarrow> (evs @ evs', c)))"

definition handleToolCall :: "chat_delta_call \<Rightarrow> message_core \<Rightarrow> message_event list \<times> message_core" where
  "handleToolCall call c =
     (case (case map_of (mc_toolBlock c) (dc_Index call) of
              Some index \<Rightarrow> ([], index, c)
            | None \<Rightarrow>
                (case closeBlock c of
                   (evs, c) \<Rightarrow>
                     (case openBlock ''tool_use'' (ToolUseBlock (dc_ID call) (dc_Name call)) c of
                        (evs', c) \<Rightarrow>
                          (evs @ evs', mc_curIndex c,
                           c\<lparr>mc_toolBlock := AList.update (dc_Index call) (mc_curIndex c) (mc_toolBlock c)\<rparr>)))) of
        (evs, index, c) \<Rightarrow>
          (evs @ (if dc_Arguments call = [] then [] else [BlockDelta index (InputPart (dc_Arguments call))]), c))"

fun handle_calls :: "chat_delta_call list \<Rightarrow> message_core \<Rightarrow> message_event list \<times> message_core" where
  "handle_calls [] c = ([], c)"
| "handle_calls (call # calls) c =
     (case handleToolCall call c of
        (evs, c) \<Rightarrow> (case handle_calls calls c of (evs', c) \<Rightarrow> (evs @ evs', c)))"

definition handle_part :: "string \<Rightarrow> (string \<Rightarrow> block_delta) \<Rightarrow> string \<Rightarrow> message_core \<Rightarrow> message_event list \<times> message_core" where
  "handle_part blockType part s c =
     (if s = [] then ([], c)
      else case ensureBlock blockType c of (evs, c) \<Rightarrow> (evs @ [BlockDelta (mc_curIndex c) (part s)], c))"

definition handle_choice :: "chat_choice \<Rightarrow> message_core \<Rightarrow> message_event list \<times> message_core" where
  "handle_choice choice c0 =
     (case handle_part ''thinking'' ThinkingPart (ao_ReasoningContent choice) c0 of
        (evs1, c1) \<Rightarrow>
          (case handle_part ''text'' TextPart (ao_Content choice) c1 of
             (evs2, c2) \<Rightarrow>
               (case handle_calls (ao_ToolCalls choice) c2 of
                  (evs3, c3) \<Rightarrow>
                    (evs1 @ evs2 @ evs3,
                     if ao_FinishReason choice \<noteq> []
                     then c3\<lparr>mc_stopReason := stopReasonFromFinish (ao_FinishReason choice) (mc_toolBlock c3 \<noteq> [])\<rparr>
                     else c3))))"

fun handle_choices :: "chat_choice list \<Rightarrow> message_core \<Rightarrow> message_event list \<times> message_core" where
  "handle_choices [] c = ([], c)"
| "handle_choices (choice # choices) c =
     (case handle_choice choice c of
        (evs, c) \<Rightarrow> (case handle_choices choices c of (evs', c) \<Rightarrow> (evs @ evs', c)))"

definition handleChunk :: "chat_chunk \<Rightarrow> message_core \<Rightarrow> message_event list \<times> message_core" where
  "handleChunk chunk c0 =
     (case ensureStarted (ac_ID chunk) (ac_Model chunk) c0 of
        (evs, c) \<Rightarrow>
          (case handle_choices (ac_Choices chunk)
                  (case ac_Usage chunk of None \<Rightarrow> c | Some u \<Rightarrow> c\<lparr>mc_usage := u\<rparr>) of
             (evs', c) \<Rightarrow> (evs @ evs', c)))"

definition usagePayload :: "message_core \<Rightarrow> usage_payload" where
  "usagePayload c =
     (let u = mc_usage c; positive = (\<lambda>n. if n > 0 then Some n else None)
      in \<lparr>pl_output = cu_CompletionTokens u, pl_input = positive (cu_PromptTokens u),
          pl_cache_read = positive (cacheRead u), pl_cache_creation = positive (cu_CacheCreationInputTokens u)\<rparr>)"

definition finalize :: "message_core \<Rightarrow> message_event list \<times> message_core" where
  "finalize c0 =
     (if mc_finalized c0 then ([], c0)
      else case ensureStarted [] [] (c0\<lparr>mc_finalized := True\<rparr>) of
          (evs, c) \<Rightarrow>
            (case closeBlock c of
               (evs', c) \<Rightarrow>
                 (evs @ evs' @
                  [MessageDelta (if mc_stopReason c = [] then ''end_turn'' else mc_stopReason c) (usagePayload c),
                   MessageStop], c)))"

section \<open>Reading\<close>

record message_env =
  me_encode :: "message_event \<Rightarrow> string option"
  me_decode :: "string \<Rightarrow> chat_chunk option"

definition line_payload :: "string \<Rightarrow> string option" where
  "line_payload line0 =
     (let line = go_trim line0
      in if has_prefix line ''data:'' then Some (go_trim (drop 5 line)) else None)"

text \<open>The events of a line, and whether it is the end of the stream.\<close>

definition consumeLine :: "message_env \<Rightarrow> string \<Rightarrow> message_core \<Rightarrow> bool \<times> message_event list \<times> message_core" where
  "consumeLine env line c =
     (case line_payload line of
        None \<Rightarrow> (False, [], c)
      | Some payload \<Rightarrow>
          if payload = donePayload then (True, [], c)
          else case me_decode env payload of
              None \<Rightarrow> (False, [], c)
            | Some chunk \<Rightarrow> (False, handleChunk chunk c))"

definition line_step :: "message_env \<Rightarrow> string \<Rightarrow> message_core \<Rightarrow> message_event list \<times> message_core" where
  "line_step env line c =
     (if go_trim line = [] then ([], c)
      else case consumeLine env line c of
          (False, r) \<Rightarrow> r
        | (True, evs, c) \<Rightarrow> (case finalize c of (evs', c) \<Rightarrow> (evs @ evs', c)))"

record message_stream =
  as_core :: message_core
  as_pending :: string             \<comment> \<open>what the buffered reader holds\<close>
  as_buffer :: stream_buffer
  as_closed :: bool

definition NewStreamConverter :: "string \<Rightarrow> message_stream" where
  "NewStreamConverter model =
     \<lparr>as_core = new_message_core model, as_pending = [], as_buffer = NewStreamBuffer, as_closed = False\<rparr>"

text \<open>The buffered reader: a line with its line feed, or what is left with the end or the error.\<close>

function read_bytes :: "string \<Rightarrow> 'e answer list \<Rightarrow> 'e answer \<times> string \<times> 'e answer list" where
  "read_bytes pend up =
     (case cut LF pend of
        Some (line, rest) \<Rightarrow> ((line @ [LF], More), rest, up)
      | None \<Rightarrow>
          (case up of
             [] \<Rightarrow> ((pend, Ended), [], [])
           | (d, More) # up' \<Rightarrow> read_bytes (pend @ d) up'
           | (d, e) # up' \<Rightarrow>
               if d = [] then ((pend, e), [], up') else read_bytes (pend @ d) (([], e) # up')))"
  by pat_completeness auto
termination
  by (relation "measure (\<lambda>(pend, up). length up + length (concat (map fst up)))") auto

declare read_bytes.simps [simp del]

definition emit_all :: "message_env \<Rightarrow> message_event list \<times> message_core \<Rightarrow> message_stream \<Rightarrow> message_stream" where
  "emit_all env r s =
     s\<lparr>as_core := snd r,
       as_buffer := AppendBytes (concat (map (emit_event (me_encode env)) (fst r))) (as_buffer s)\<rparr>"

definition as_read_buffer :: "nat \<Rightarrow> message_stream \<Rightarrow> string \<times> message_stream" where
  "as_read_buffer k s = (case sb_Read k (as_buffer s) of (p, b) \<Rightarrow> (p, s\<lparr>as_buffer := b\<rparr>))"

lemma read_bytes_eqs:
  "cut LF pend = Some (line, rest) \<Longrightarrow> read_bytes pend up = ((line @ [LF], More), rest, up)"
  "cut LF pend = None \<Longrightarrow> read_bytes pend [] = ((pend, Ended), [], [])"
  "cut LF pend = None \<Longrightarrow> read_bytes pend ((d, More) # up) = read_bytes (pend @ d) up"
  "cut LF pend = None \<Longrightarrow> e \<noteq> More \<Longrightarrow> read_bytes pend ((d, e) # up) =
     (if d = [] then ((pend, e), [], up) else read_bytes (pend @ d) (([], e) # up))"
  by (simp_all add: read_bytes.simps [of pend] split: read_end.split)

definition bytes_of :: "'e answer list \<Rightarrow> string" where
  "bytes_of up = concat (map fst up)"

lemma bytes_of_simps [simp]: "bytes_of [] = []" "bytes_of (a # up) = fst a @ bytes_of up"
  by (simp_all add: bytes_of_def)

text \<open>A line is cut off what is pending; the end comes when no line is left.\<close>

lemma read_bytes_line:
  "read_bytes pend up = ((line, More), pend', up') \<Longrightarrow>
   \<exists>l. line = l @ [LF] \<and> LF \<notin> set l \<and> pend @ bytes_of up = l @ LF # pend' @ bytes_of up' \<and> (ends up \<longrightarrow> ends up')"
proof (induction pend up rule: read_bytes.induct)
  case (1 pend up)
  show ?case
  proof (cases "cut LF pend")
    case (Some r)
    then obtain l rest where r: "cut LF pend = Some (l, rest)" by (cases r) auto
    then have "pend = l @ LF # rest" "LF \<notin> set l" by (simp_all add: cut_Some_iff)
    moreover have "line = l @ [LF]" "pend' = rest" "up' = up"
      using 1(4) by (simp_all add: read_bytes_eqs(1) [OF r])
    ultimately show ?thesis by simp
  next
    case None
    note eqs = read_bytes_eqs(2-4) [OF None]
    show ?thesis
    proof (cases up)
      case Nil
      with 1(4) show ?thesis by (simp add: eqs)
    next
      case (Cons x xs)
      obtain d e where x: "x = (d, e)" by (cases x)
      show ?thesis
      proof (cases e)
        case More
        then have "read_bytes (pend @ d) xs = ((line, More), pend', up')" using 1(4) by (simp add: Cons x eqs)
        moreover have "ends up \<longrightarrow> ends xs" using ends_tl(2) [of x xs] More by (simp add: Cons x)
        ultimately show ?thesis using 1(1) [OF None Cons] More by (auto simp: Cons x)
      next
        case Ended
        then have "d \<noteq> []" "read_bytes (pend @ d) (([], Ended) # xs) = ((line, More), pend', up')"
          using 1(4) by (auto simp: Cons x eqs split: if_splits)
        moreover have "ends up \<longrightarrow> ends (([], Ended) # xs)" by (auto simp: Cons x Ended ends_def)
        ultimately show ?thesis using 1(2) [OF None Cons] Ended by (auto simp: Cons x)
      next
        case (Failed y)
        then have "d \<noteq> []" "read_bytes (pend @ d) (([], Failed y) # xs) = ((line, More), pend', up')"
          using 1(4) by (auto simp: Cons x eqs split: if_splits)
        moreover have "ends up \<longrightarrow> ends (([], Failed y) # xs)" by (auto simp: Cons x Failed ends_def)
        ultimately show ?thesis using 1(3) [OF None Cons] Failed by (auto simp: Cons x)
      qed
    qed
  qed
qed

lemma read_bytes_end:
  "read_bytes pend up = ((line, e), pend', up') \<Longrightarrow> e \<noteq> More \<Longrightarrow> ends up \<Longrightarrow>
   e = Ended \<and> line = pend @ bytes_of up \<and> LF \<notin> set line \<and> pend' = [] \<and> up' = []"
proof (induction pend up rule: read_bytes.induct)
  case (1 pend up)
  show ?case
  proof (cases "cut LF pend")
    case (Some r)
    then show ?thesis using 1(4,5) by (cases r) (simp add: read_bytes_eqs(1))
  next
    case None
    note eqs = read_bytes_eqs(2-4) [OF None]
    have pend: "LF \<notin> set pend" using None by (simp add: cut_None_iff)
    show ?thesis
    proof (cases up)
      case Nil
      with 1(4) pend show ?thesis by (simp add: eqs)
    next
      case (Cons x xs)
      obtain d w where x: "x = (d, w)" by (cases x)
      show ?thesis
      proof (cases w)
        case More
        then have "read_bytes (pend @ d) xs = ((line, e), pend', up')" "ends xs"
          using 1(4,6) ends_tl(2) [of x xs] by (simp_all add: Cons x eqs)
        with 1(1) [OF None Cons] 1(5) show ?thesis by (auto simp only: x More Cons bytes_of_simps append_assoc fst_conv)
      next
        case Ended
        then have nil: "xs = []" using ends_tl(3) [of x xs] 1(6) by (simp add: Cons x)
        then have "ends (([], Ended) # xs)" by (simp add: ends_def)
        moreover have "d \<noteq> [] \<Longrightarrow> read_bytes (pend @ d) (([], Ended) # xs) = ((line, e), pend', up')"
          using 1(4) Ended by (simp add: Cons x eqs)
        ultimately have "d \<noteq> [] \<Longrightarrow> ?thesis"
          using 1(2) [OF None Cons] 1(5) nil
          by (auto simp only: x Ended Cons bytes_of_simps append_assoc fst_conv append_Nil)
        moreover have "d = [] \<Longrightarrow> ?thesis" using 1(4) Ended nil pend by (simp add: Cons x eqs)
        ultimately show ?thesis by blast
      next
        case (Failed y)
        then show ?thesis using ends_tl(1) [of x xs y] 1(6) by (simp add: Cons x)
      qed
    qed
  qed
qed

lemma read_bytes_less:
  "read_bytes pend up = ((line, More), pend', up') \<Longrightarrow>
   length pend' + length (bytes_of up') < length pend + length (bytes_of up)"
  by (auto dest!: read_bytes_line arg_cong [of _ _ length])

definition consume :: "message_env \<Rightarrow> string \<Rightarrow> message_stream \<Rightarrow> message_stream" where
  "consume env line s = emit_all env (line_step env line (as_core s)) s"

definition an_finish :: "message_env \<Rightarrow> message_stream \<Rightarrow> message_stream" where
  "an_finish env s = emit_all env (finalize (as_core s)) s"

lemma emit_all_fields [simp]:
  "as_core (emit_all env r s) = snd r"
  "Unread (as_buffer (emit_all env r s)) = Unread (as_buffer s) @ concat (map (emit_event (me_encode env)) (fst r))"
  "as_pending (emit_all env r s) = as_pending s" "as_closed (emit_all env r s) = as_closed s"
  by (simp_all add: emit_all_def Unread_AppendBytes)

text \<open>The loop of \<open>Read\<close>: lines are read until one gives output or the stream is at its end.\<close>

function an_loop ::
  "message_env \<Rightarrow> nat \<Rightarrow> 'e answer list \<Rightarrow> message_stream \<Rightarrow> 'e answer \<times> 'e answer list \<times> message_stream" where
  "an_loop env k up s =
     (case read_bytes (as_pending s) up of
        ((line, ending), pend, up') \<Rightarrow>
          let s1 = consume env line (s\<lparr>as_pending := pend\<rparr>)
          in case ending of
               Failed e \<Rightarrow> (([], Failed e), up', s1)
             | Ended \<Rightarrow>
                 let s2 = an_finish env s1
                 in if sb_Len (as_buffer s2) > 0
                    then (case as_read_buffer k s2 of (p, s3) \<Rightarrow> ((p, More), up', s3))
                    else (([], Ended), up', s2)
             | More \<Rightarrow>
                 if sb_Len (as_buffer s1) > 0
                 then (case as_read_buffer k s1 of (p, s2) \<Rightarrow> ((p, More), up', s2))
                 else if mc_finalized (as_core s1) then (([], Ended), up', s1)
                 else an_loop env k up' s1)"
  by pat_completeness auto
termination
  by (relation "measure (\<lambda>(env, k, up, s). length (as_pending s) + length (bytes_of up))")
    (auto simp: consume_def dest!: read_bytes_less [OF sym])

declare an_loop.simps [simp del]

definition an_Read ::
  "message_env \<Rightarrow> nat \<Rightarrow> 'e answer list \<Rightarrow> message_stream \<Rightarrow> 'e answer \<times> 'e answer list \<times> message_stream" where
  "an_Read env k up s =
     (if sb_Len (as_buffer s) > 0 then (case as_read_buffer k s of (p, s') \<Rightarrow> ((p, More), up, s'))
      else if mc_finalized (as_core s) \<or> as_closed s then (([], Ended), up, s)
      else an_loop env k up s)"

definition an_Close :: "message_stream \<Rightarrow> message_stream" where
  "an_Close s = (if as_closed s then s else s\<lparr>as_closed := True, as_buffer := sb_Release (as_buffer s)\<rparr>)"

section \<open>The stream as a whole\<close>

text \<open>The lines as the reader hands them over, and the events of a run over them: the run stops at the
  marker, and the last line may lack its line feed.\<close>

definition sse_lines :: "string \<Rightarrow> string list" where
  "sse_lines bytes = map (\<lambda>l. l @ [LF]) (butlast (split_on LF bytes)) @ [last (split_on LF bytes)]"

fun stream_run :: "message_env \<Rightarrow> string list \<Rightarrow> message_core \<Rightarrow> message_event list \<times> message_core" where
  "stream_run env [] c = finalize c"
| "stream_run env (line # lines) c =
     (case line_step env line c of
        (evs, c) \<Rightarrow>
          if mc_finalized c then (evs, c)
          else (case stream_run env lines c of (evs', c) \<Rightarrow> (evs @ evs', c)))"

definition an_rendered :: "message_env \<Rightarrow> message_event list \<Rightarrow> string" where
  "an_rendered env evs = concat (map (emit_event (me_encode env)) evs)"

lemma an_rendered_append [simp]: "an_rendered env (a @ b) = an_rendered env a @ an_rendered env b" "an_rendered env [] = []"
  by (simp_all add: an_rendered_def)

definition an_remaining :: "message_env \<Rightarrow> 'e answer list \<Rightarrow> message_stream \<Rightarrow> string" where
  "an_remaining env up s =
     Unread (as_buffer s)
     @ (if mc_finalized (as_core s) then []
        else an_rendered env (fst (stream_run env (sse_lines (as_pending s @ bytes_of up)) (as_core s))))"

lemma sse_lines_Cons: "LF \<notin> set l \<Longrightarrow> sse_lines (l @ LF # rest) = (l @ [LF]) # sse_lines rest"
  by (simp add: sse_lines_def split_on_append)

lemma sse_lines_last: "LF \<notin> set l \<Longrightarrow> sse_lines l = [l]"
  by (simp add: sse_lines_def split_on_no_sep)

lemma finalize_finalized [simp]: "mc_finalized (snd (finalize c))"
  by (simp add: finalize_def ensureStarted_def closeBlock_def)

lemma finalize_twice: "mc_finalized c \<Longrightarrow> finalize c = ([], c)"
  by (simp add: finalize_def)

lemma as_read_buffer_queue:
  "fst (as_read_buffer k s) = take k (Unread (as_buffer s))"
  "Unread (as_buffer (snd (as_read_buffer k s))) = drop k (Unread (as_buffer s))"
  "as_pending (snd (as_read_buffer k s)) = as_pending s" "as_core (snd (as_read_buffer k s)) = as_core s"
  "as_closed (snd (as_read_buffer k s)) = as_closed s"
  using sb_Read_queue [of k "as_buffer s"] by (simp_all add: as_read_buffer_def case_prod_beta)

lemma consume_fields [simp]:
  "as_core (consume env line s) = snd (line_step env line (as_core s))"
  "Unread (as_buffer (consume env line s)) = Unread (as_buffer s) @ an_rendered env (fst (line_step env line (as_core s)))"
  "as_pending (consume env line s) = as_pending s" "as_closed (consume env line s) = as_closed s"
  by (simp_all add: consume_def an_rendered_def)

lemma an_finish_fields [simp]:
  "as_core (an_finish env s) = snd (finalize (as_core s))"
  "Unread (as_buffer (an_finish env s)) = Unread (as_buffer s) @ an_rendered env (fst (finalize (as_core s)))"
  "as_pending (an_finish env s) = as_pending s" "as_closed (an_finish env s) = as_closed s"
  by (simp_all add: an_finish_def an_rendered_def)

text \<open>A line consumed, and the end of the stream, leave what remains as it is.\<close>

lemma an_remaining_line:
  assumes "\<not> mc_finalized (as_core s)" "read_bytes (as_pending s) up = ((line, More), pend, up')"
  shows "an_remaining env up' (consume env line (s\<lparr>as_pending := pend\<rparr>)) = an_remaining env up s"
proof -
  obtain l where l: "line = l @ [LF]" "LF \<notin> set l" "as_pending s @ bytes_of up = l @ LF # pend @ bytes_of up'"
    using read_bytes_line [OF assms(2)] by blast
  then show ?thesis using assms(1) by (simp add: an_remaining_def sse_lines_Cons case_prod_beta)
qed

lemma an_remaining_end:
  assumes "\<not> mc_finalized (as_core s)" "read_bytes (as_pending s) up = ((line, Ended), pend, up')" "ends up"
  shows "an_remaining env up' (an_finish env (consume env line (s\<lparr>as_pending := pend\<rparr>))) = an_remaining env up s"
proof -
  have "line = as_pending s @ bytes_of up" "LF \<notin> set line"
    using read_bytes_end [OF assms(2) _ assms(3)] by blast+
  then have "sse_lines (as_pending s @ bytes_of up) = [line]" by (simp add: sse_lines_last)
  then show ?thesis using assms(1) by (simp add: an_remaining_def case_prod_beta finalize_twice)
qed

definition an_reading :: "'e answer list \<Rightarrow> message_stream \<Rightarrow> bool" where
  "an_reading up s \<longleftrightarrow> ends up \<and> \<not> as_closed s"

lemma an_buffer_step:
  assumes "an_reading up s" "0 < k" "sb_Len (as_buffer s) > 0" "as_read_buffer k s = (p, s')"
  shows "p @ an_remaining env up s' = an_remaining env up s \<and> an_reading up s'
    \<and> length (an_remaining env up s') < length (an_remaining env up s)"
proof -
  have r: "p = fst (as_read_buffer k s)" "s' = snd (as_read_buffer k s)" by (simp_all add: assms(4))
  have eq: "p @ an_remaining env up s' = an_remaining env up s"
    by (simp add: an_remaining_def r as_read_buffer_queue)
  moreover have "p \<noteq> []" using assms(2,3) by (simp add: r as_read_buffer_queue sb_Len_Unread)
  moreover have "an_reading up s'" using assms(1) by (simp add: an_reading_def r as_read_buffer_queue)
  ultimately show ?thesis by (metis length_append length_greater_0_conv less_add_same_cancel2)
qed

lemma an_loop_step:
  assumes "an_reading up s" "0 < k" "Unread (as_buffer s) = []" "\<not> mc_finalized (as_core s)"
    and "an_loop env k up s = ((p, e), up', s')"
  shows "(e = More \<and> p @ an_remaining env up' s' = an_remaining env up s \<and> an_reading up' s'
      \<and> length (an_remaining env up' s') < length (an_remaining env up s))
    \<or> (e = Ended \<and> p = [] \<and> an_remaining env up s = [])"
  using assms
proof (induction env k up s rule: an_loop.induct)
  case (1 env k up s)
  obtain line w pend up1 where r: "read_bytes (as_pending s) up = ((line, w), pend, up1)" by (metis prod.collapse)
  define s1 where s1: "s1 = consume env line (s\<lparr>as_pending := pend\<rparr>)"
  note loop = 1(6) [unfolded an_loop.simps [of env k up s] r prod.case Let_def, folded s1]
  show ?case
  proof (cases w)
    case More
    obtain "ends up1" using read_bytes_line [of "as_pending s" up line pend up1] r More 1(2) by (auto simp: an_reading_def)
    then have up1: "an_reading up1 s1" using 1(2) by (simp add: an_reading_def s1)
    have rem: "an_remaining env up1 s1 = an_remaining env up s"
      unfolding s1 using r More 1(5) by (intro an_remaining_line) simp_all
    show ?thesis
    proof (cases "sb_Len (as_buffer s1) > 0")
      case True
      then show ?thesis using an_buffer_step [OF up1 1(3) True, of _ _ env] loop More rem by (auto split: prod.splits)
    next
      case empty: False
      then have u: "Unread (as_buffer s1) = []" by (simp add: sb_Len_Unread)
      show ?thesis
      proof (cases "mc_finalized (as_core s1)")
        case True
        then have "an_remaining env up1 s1 = []" by (simp add: an_remaining_def u)
        then show ?thesis using loop More empty True rem by simp
      next
        case False
        then have "an_loop env k up1 s1 = ((p, e), up', s')" using loop More empty by simp
        from 1(1) [OF r [symmetric] refl refl s1 More empty False up1 1(3) u False this]
        show ?thesis unfolding rem .
      qed
    qed
  next
    case Ended
    let ?s2 = "an_finish env s1"
    have rem: "an_remaining env up1 ?s2 = an_remaining env up s"
      unfolding s1 using r Ended 1(2,5) by (intro an_remaining_end) (simp_all add: an_reading_def)
    have up1: "an_reading up1 ?s2"
      using read_bytes_end [of "as_pending s" up line w pend up1] r Ended 1(2) by (simp add: an_reading_def s1 ends_def)
    show ?thesis
    proof (cases "sb_Len (as_buffer ?s2) > 0")
      case True
      then show ?thesis using an_buffer_step [OF up1 1(3) True, of _ _ env] loop Ended rem by (auto split: prod.splits)
    next
      case False
      then have "an_remaining env up1 ?s2 = []" by (simp add: an_remaining_def sb_Len_Unread)
      then show ?thesis using loop Ended False rem by simp
    qed
  next
    case (Failed x)
    then show ?thesis using read_bytes_end [of "as_pending s" up line w pend up1] r 1(2) by (simp add: an_reading_def)
  qed
qed

lemma an_read_step:
  assumes "an_reading up s" "0 < k" "an_Read env k up s = ((p, e), up', s')"
  shows "(e = More \<and> p @ an_remaining env up' s' = an_remaining env up s \<and> an_reading up' s'
      \<and> length (an_remaining env up' s') < length (an_remaining env up s))
    \<or> (e = Ended \<and> p = [] \<and> an_remaining env up s = [])"
proof (cases "sb_Len (as_buffer s) > 0")
  case True
  then show ?thesis using an_buffer_step [OF assms(1,2) True, of _ _ env] assms(3)
    by (auto simp: an_Read_def split: prod.splits)
next
  case False
  then have u: "Unread (as_buffer s) = []" by (simp add: sb_Len_Unread)
  show ?thesis
  proof (cases "mc_finalized (as_core s)")
    case True
    then show ?thesis using assms(3) False u by (auto simp: an_Read_def an_remaining_def)
  next
    case open_: False
    then have "an_loop env k up s = ((p, e), up', s')"
      using assms(1,3) False by (auto simp: an_Read_def an_reading_def)
    then show ?thesis using an_loop_step [OF assms(1,2) u open_] by blast
  qed
qed

interpretation an: byte_stream "an_Read env" an_reading "an_remaining env" "\<lambda>up s. length (an_remaining env up s)" for env
  using an_read_step by unfold_locales blast

definition message_stream_events :: "message_env \<Rightarrow> string \<Rightarrow> string \<Rightarrow> message_event list" where
  "message_stream_events env model bytes = fst (stream_run env (sse_lines bytes) (new_message_core model))"

text \<open>What a client reads is the rendering of the events of the whole upstream, however its bytes were
  cut into reads and whatever the sizes of the client's buffers.\<close>

lemma message_stream_delivered:
  assumes "ends up" "\<forall>k \<in> set ks. 0 < k"
    and "read_all (an_Read env) ks up (NewStreamConverter model) = (out, e, up', s')"
    and "full = an_rendered env (message_stream_events env model (bytes_of up))"
  shows "(e = Ended \<and> out = full) \<or> (e = More \<and> length ks \<le> length full \<and> (\<exists>rest. full = out @ rest))"
proof -
  let ?s = "NewStreamConverter model"
  have u: "Unread NewStreamBuffer = []" by (simp add: Unread_def sb_Len_def NewStreamBuffer_def sb_bytes_def)
  have r: "an_reading up ?s" using assms(1) by (simp add: an_reading_def NewStreamConverter_def)
  have m: "an_remaining env up ?s = full"
    using u by (simp add: an_remaining_def assms(4) message_stream_events_def NewStreamConverter_def new_message_core_def)
  from an.read_all_delivers [OF r assms(2,3)] m show ?thesis by (metis add_leD1)
qed

end
