(* ===== verification/AnthropicClient.thy ===== *)
theory AnthropicClient
  imports AnthropicStream
begin

text \<open>
  A client of the Messages API, and what it rebuilds from a converted stream
  (\<open>internal/anthropicapi/stream.go\<close>). The client follows the protocol strictly: the message starts
  once, blocks are numbered in order, one block is open at a time, a delta belongs to the open block
  and is of its kind, and the message ends once.
\<close>

section \<open>The client\<close>

record message_client =
  ml_started :: bool
  ml_blocks :: "(content_block \<times> string) list"
  ml_open :: bool                                  \<comment> \<open>the last block is open\<close>
  ml_stop :: "(string \<times> usage_payload) option"
  ml_finished :: bool

definition new_client :: message_client where
  "new_client = \<lparr>ml_started = False, ml_blocks = [], ml_open = False, ml_stop = None, ml_finished = False\<rparr>"

fun delta_text :: "content_block \<Rightarrow> block_delta \<Rightarrow> string option" where
  "delta_text ThinkingBlock (ThinkingPart s) = Some s"
| "delta_text TextBlock (TextPart s) = Some s"
| "delta_text (ToolUseBlock _ _) (InputPart s) = Some s"
| "delta_text _ _ = None"

definition extend_last :: "string \<Rightarrow> (content_block \<times> string) list \<Rightarrow> (content_block \<times> string) list" where
  "extend_last s bs = butlast bs @ [(fst (last bs), snd (last bs) @ s)]"

fun client_event :: "message_event \<Rightarrow> message_client \<Rightarrow> message_client option" where
  "client_event (MessageStart _ _) m = (if ml_started m then None else Some (m\<lparr>ml_started := True\<rparr>))"
| "client_event (BlockStart i b) m =
     (if ml_started m \<and> ml_stop m = None \<and> \<not> ml_open m \<and> i = int (length (ml_blocks m))
      then Some (m\<lparr>ml_blocks := ml_blocks m @ [(b, [])], ml_open := True\<rparr>) else None)"
| "client_event (BlockDelta i d) m =
     (if ml_open m \<and> i + 1 = int (length (ml_blocks m))
      then (case delta_text (fst (last (ml_blocks m))) d of
              Some s \<Rightarrow> Some (m\<lparr>ml_blocks := extend_last s (ml_blocks m)\<rparr>)
            | None \<Rightarrow> None)
      else None)"
| "client_event (BlockStop i) m =
     (if ml_open m \<and> i + 1 = int (length (ml_blocks m)) then Some (m\<lparr>ml_open := False\<rparr>) else None)"
| "client_event (MessageDelta stop u) m =
     (if ml_started m \<and> \<not> ml_open m \<and> ml_stop m = None then Some (m\<lparr>ml_stop := Some (stop, u)\<rparr>) else None)"
| "client_event MessageStop m =
     (if ml_stop m \<noteq> None \<and> \<not> ml_finished m then Some (m\<lparr>ml_finished := True\<rparr>) else None)"

fun follow :: "message_event list \<Rightarrow> message_client \<Rightarrow> message_client option" where
  "follow [] m = Some m"
| "follow (ev # evs) m = (case client_event ev m of None \<Rightarrow> None | Some m \<Rightarrow> follow evs m)"

lemma follow_append: "follow (a @ b) m = (case follow a m of None \<Rightarrow> None | Some m \<Rightarrow> follow b m)"
  by (induction a arbitrary: m) (auto split: option.split)

section \<open>What the chunks say\<close>

datatype piece = Think string | Say string | Call chat_delta_call

definition choice_pieces :: "chat_choice \<Rightarrow> piece list" where
  "choice_pieces ch =
     (if ao_ReasoningContent ch = [] then [] else [Think (ao_ReasoningContent ch)])
     @ (if ao_Content ch = [] then [] else [Say (ao_Content ch)])
     @ map Call (ao_ToolCalls ch)"

definition chunk_pieces :: "chat_chunk list \<Rightarrow> piece list" where
  "chunk_pieces chunks = concat (map choice_pieces (concat (map ac_Choices chunks)))"

definition thoughts :: "piece list \<Rightarrow> string" where
  "thoughts ps = concat (map (\<lambda>p. case p of Think s \<Rightarrow> s | _ \<Rightarrow> []) ps)"

definition words :: "piece list \<Rightarrow> string" where
  "words ps = concat (map (\<lambda>p. case p of Say s \<Rightarrow> s | _ \<Rightarrow> []) ps)"

definition calls :: "piece list \<Rightarrow> chat_delta_call list" where
  "calls ps = concat (map (\<lambda>p. case p of Call d \<Rightarrow> [d] | _ \<Rightarrow> []) ps)"

text \<open>The calls in the order of their first parts, each with the id and the name of its first part and
  the arguments of all of them.\<close>

definition call_order :: "chat_delta_call list \<Rightarrow> int list" where
  "call_order ds = rev (remdups (rev (map dc_Index ds)))"

definition whole_call :: "chat_delta_call list \<Rightarrow> int \<Rightarrow> content_block \<times> string" where
  "whole_call ds i =
     (let parts = filter (\<lambda>d. dc_Index d = i) ds
      in (ToolUseBlock (dc_ID (hd parts)) (dc_Name (hd parts)), concat (map dc_Arguments parts)))"

definition whole_calls :: "chat_delta_call list \<Rightarrow> (content_block \<times> string) list" where
  "whole_calls ds = map (whole_call ds) (call_order ds)"

text \<open>Calls that come one after the other: arguments only for the call that was begun last, with nothing
  else in between.\<close>

fun in_turn :: "int option \<Rightarrow> int list \<Rightarrow> piece list \<Rightarrow> bool" where
  "in_turn cur seen [] = True"
| "in_turn cur seen (Call d # ps) =
     (if dc_Index d \<in> set seen
      then (dc_Arguments d = [] \<or> cur = Some (dc_Index d)) \<and> in_turn cur seen ps
      else in_turn (Some (dc_Index d)) (dc_Index d # seen) ps)"
| "in_turn cur seen (_ # ps) = in_turn None seen ps"

section \<open>What the blocks say\<close>

definition block_text :: "content_block \<Rightarrow> (content_block \<times> string) list \<Rightarrow> string" where
  "block_text b bs = concat (map snd (filter (\<lambda>x. fst x = b) bs))"

definition tool_blocks :: "(content_block \<times> string) list \<Rightarrow> (content_block \<times> string) list" where
  "tool_blocks bs = filter (\<lambda>x. fst x \<noteq> ThinkingBlock \<and> fst x \<noteq> TextBlock) bs"

lemmas says_defs = thoughts_def words_def calls_def

lemma says_snoc [simp]:
  "thoughts [] = []" "words [] = []" "calls [] = []"
  "thoughts (ps @ [Think s]) = thoughts ps @ s" "thoughts (ps @ [Say s]) = thoughts ps" "thoughts (ps @ [Call d]) = thoughts ps"
  "words (ps @ [Think s]) = words ps" "words (ps @ [Say s]) = words ps @ s" "words (ps @ [Call d]) = words ps"
  "calls (ps @ [Think s]) = calls ps" "calls (ps @ [Say s]) = calls ps" "calls (ps @ [Call d]) = calls ps @ [d]"
  by (simp_all add: says_defs)

lemma call_order_snoc:
  "call_order (ds @ [d]) =
     (if dc_Index d \<in> dc_Index ` set ds then call_order ds else call_order ds @ [dc_Index d])"
  by (auto simp: call_order_def)

lemma call_order_props: "set (call_order ds) = dc_Index ` set ds" "distinct (call_order ds)"
  by (simp_all add: call_order_def)

lemma whole_call_snoc_other: "dc_Index d \<noteq> i \<Longrightarrow> whole_call (ds @ [d]) i = whole_call ds i"
  by (simp add: whole_call_def)

lemma whole_call_snoc_same:
  assumes "dc_Index d \<in> dc_Index ` set ds"
  shows "whole_call (ds @ [d]) (dc_Index d) =
    (fst (whole_call ds (dc_Index d)), snd (whole_call ds (dc_Index d)) @ dc_Arguments d)"
proof -
  have "filter (\<lambda>e. dc_Index e = dc_Index d) ds \<noteq> []" using assms by (auto simp: filter_empty_conv)
  then show ?thesis by (simp add: whole_call_def Let_def hd_append)
qed

lemma whole_call_new:
  assumes "dc_Index d \<notin> dc_Index ` set ds"
  shows "whole_call (ds @ [d]) (dc_Index d) = (ToolUseBlock (dc_ID d) (dc_Name d), dc_Arguments d)"
proof -
  have "filter (\<lambda>e. dc_Index e = dc_Index d) ds = []"
    using assms by (metis (mono_tags, lifting) filter_False image_eqI)
  then show ?thesis by (simp add: whole_call_def)
qed

lemma whole_calls_new:
  assumes "dc_Index d \<notin> dc_Index ` set ds"
  shows "whole_calls (ds @ [d]) = whole_calls ds @ [(ToolUseBlock (dc_ID d) (dc_Name d), dc_Arguments d)]"
proof -
  have "whole_call (ds @ [d]) i = whole_call ds i" if "i \<in> set (call_order ds)" for i
    using that assms by (intro whole_call_snoc_other) (auto simp: call_order_props)
  then show ?thesis using assms by (simp add: whole_calls_def call_order_snoc whole_call_new)
qed

text \<open>More arguments of the last call extend its block.\<close>

lemma whole_calls_more:
  assumes "call_order ds \<noteq> []" "last (call_order ds) = dc_Index d"
  shows "whole_calls (ds @ [d]) = extend_last (dc_Arguments d) (whole_calls ds)"
proof -
  obtain js where o: "call_order ds = js @ [dc_Index d]" using assms by (metis append_butlast_last_id)
  then have seen: "dc_Index d \<in> dc_Index ` set ds" using call_order_props(1) [of ds] by auto
  have "i \<noteq> dc_Index d" if "i \<in> set js" for i using that call_order_props(2) [of ds] o by auto
  then have "map (whole_call (ds @ [d])) js = map (whole_call ds) js"
    by (intro map_cong) (auto intro: whole_call_snoc_other)
  then show ?thesis
    using seen by (simp add: whole_calls_def extend_last_def call_order_snoc o whole_call_snoc_same)
qed

lemma whole_calls_none:
  assumes "dc_Index d \<in> dc_Index ` set ds" "dc_Arguments d = []"
  shows "whole_calls (ds @ [d]) = whole_calls ds"
proof -
  have "whole_call (ds @ [d]) i = whole_call ds i" for i
  proof (cases "i = dc_Index d")
    case True
    then show ?thesis using whole_call_snoc_same [OF assms(1)] assms(2) by simp
  next
    case False
    then show ?thesis by (simp add: whole_call_snoc_other)
  qed
  then show ?thesis using assms(1) by (simp add: whole_calls_def call_order_snoc)
qed

lemma block_lists_snoc:
  "block_text b (bs @ [(b', s)]) = block_text b bs @ (if b' = b then s else [])"
  "tool_blocks (bs @ [(b', s)]) = tool_blocks bs @ (if b' = ThinkingBlock \<or> b' = TextBlock then [] else [(b', s)])"
  by (simp_all add: block_text_def tool_blocks_def)

lemma block_lists_extend:
  assumes "bs \<noteq> []"
  shows "block_text b (extend_last s bs) = block_text b bs @ (if fst (last bs) = b then s else [])"
    "length (extend_last s bs) = length bs" "fst (last (extend_last s bs)) = fst (last bs)"
    "fst (last bs) \<in> {ThinkingBlock, TextBlock} \<Longrightarrow> tool_blocks (extend_last s bs) = tool_blocks bs"
    "fst (last bs) = ToolUseBlock i n \<Longrightarrow> tool_blocks (extend_last s bs) = extend_last s (tool_blocks bs)"
proof -
  obtain cs b' t where "bs = cs @ [(b', t)]" using assms by (metis append_butlast_last_id prod.exhaust)
  then show "block_text b (extend_last s bs) = block_text b bs @ (if fst (last bs) = b then s else [])"
    "length (extend_last s bs) = length bs" "fst (last (extend_last s bs)) = fst (last bs)"
    "fst (last bs) \<in> {ThinkingBlock, TextBlock} \<Longrightarrow> tool_blocks (extend_last s bs) = tool_blocks bs"
    "fst (last bs) = ToolUseBlock i n \<Longrightarrow> tool_blocks (extend_last s bs) = extend_last s (tool_blocks bs)"
    by (auto simp: extend_last_def block_lists_snoc)
qed


section \<open>The client follows the converter\<close>

definition kind_of :: "content_block \<Rightarrow> string" where
  "kind_of b = (case b of ThinkingBlock \<Rightarrow> ''thinking'' | TextBlock \<Rightarrow> ''text'' | ToolUseBlock _ _ \<Rightarrow> ''tool_use'')"

text \<open>The client's view of the converter, and what it has been told. \<open>cur\<close> is the call whose block is
  the open one.\<close>

definition client_state :: "message_core \<Rightarrow> message_client \<Rightarrow> bool" where
  "client_state c m \<longleftrightarrow>
     mc_started c \<and> ml_started m \<and> ml_stop m = None \<and> \<not> ml_finished m
     \<and> mc_nextIndex c = int (length (ml_blocks m)) \<and> ml_open m = mc_blockOpen c
     \<and> (mc_blockOpen c \<longrightarrow> ml_blocks m \<noteq> [] \<and> mc_curIndex c + 1 = mc_nextIndex c
          \<and> mc_blockType c = kind_of (fst (last (ml_blocks m))))"

definition told :: "piece list \<Rightarrow> (content_block \<times> string) list \<Rightarrow> bool" where
  "told pre bs \<longleftrightarrow>
     block_text ThinkingBlock bs = thoughts pre \<and> block_text TextBlock bs = words pre
     \<and> tool_blocks bs = whole_calls (calls pre)"

definition call_state :: "int option \<Rightarrow> int list \<Rightarrow> piece list \<Rightarrow> message_core \<Rightarrow> message_client \<Rightarrow> bool" where
  "call_state cur seen pre c m \<longleftrightarrow>
     set seen = dc_Index ` set (calls pre) \<and> dom (map_of (mc_toolBlock c)) = set seen
     \<and> (\<forall>i. cur = Some i \<longrightarrow>
          mc_blockOpen c \<and> map_of (mc_toolBlock c) i = Some (mc_curIndex c) \<and> call_order (calls pre) \<noteq> []
          \<and> last (call_order (calls pre)) = i \<and> (\<exists>x n. fst (last (ml_blocks m)) = ToolUseBlock x n))"

definition piece_events :: "piece \<Rightarrow> message_core \<Rightarrow> message_event list \<times> message_core" where
  "piece_events p c =
     (case p of
        Think s \<Rightarrow> (case ensureBlock ''thinking'' c of (evs, c) \<Rightarrow> (evs @ [BlockDelta (mc_curIndex c) (ThinkingPart s)], c))
      | Say s \<Rightarrow> (case ensureBlock ''text'' c of (evs, c) \<Rightarrow> (evs @ [BlockDelta (mc_curIndex c) (TextPart s)], c))
      | Call d \<Rightarrow> handleToolCall d c)"

text \<open>A new block: what is open is closed first.\<close>

lemma open_block:
  assumes "client_state c m" "closeBlock c = (evs, c1)" "openBlock (kind_of b) b c1 = (evs', c2)"
  shows "\<exists>m'. follow (evs @ evs') m = Some m' \<and> client_state c2 m' \<and> ml_blocks m' = ml_blocks m @ [(b, [])]
    \<and> mc_blockOpen c2 \<and> mc_toolBlock c2 = mc_toolBlock c"
  using assms by (auto simp: client_state_def closeBlock_def openBlock_def split: if_splits)

lemma kind_of_inject:
  "kind_of b = ''thinking'' \<longleftrightarrow> b = ThinkingBlock" "kind_of b = ''text'' \<longleftrightarrow> b = TextBlock"
  by (cases b; simp add: kind_of_def)+

text \<open>The block of a text or of thoughts is there, opened now or before.\<close>

lemma ensure_block:
  assumes "client_state c m" "b = ThinkingBlock \<or> b = TextBlock" "ensureBlock (kind_of b) c = (evs, c')"
  shows "\<exists>m'. follow evs m = Some m' \<and> client_state c' m' \<and> mc_blockOpen c' \<and> fst (last (ml_blocks m')) = b
    \<and> (ml_blocks m' = ml_blocks m \<or> ml_blocks m' = ml_blocks m @ [(b, [])]) \<and> mc_toolBlock c' = mc_toolBlock c"
proof (cases "mc_blockOpen c \<and> mc_blockType c = kind_of b")
  case True
  then have "fst (last (ml_blocks m)) = b"
    using assms(1,2) by (auto simp: client_state_def kind_of_inject) (metis kind_of_inject)+
  then show ?thesis using True assms by (auto simp: ensureBlock_def)
next
  case False
  have b: "(if kind_of b = ''thinking'' then ThinkingBlock else TextBlock) = b"
    using assms(2) by (auto simp: kind_of_def)
  obtain e1 c1 where c1: "closeBlock c = (e1, c1)" by force
  obtain e2 c2 where c2: "openBlock (kind_of b) b c1 = (e2, c2)" by force
  have "ensureBlock (kind_of b) c = (e1 @ e2, c2)" by (simp only: ensureBlock_def if_not_P [OF False] c1 c2 b prod.case)
  with open_block [OF assms(1) c1 c2] assms(3) show ?thesis by auto
qed

lemma extend_last_nonempty [simp]: "extend_last s bs \<noteq> []"
  by (simp add: extend_last_def)

lemma delta_event:
  assumes "client_state c m" "mc_blockOpen c" "delta_text (fst (last (ml_blocks m))) d = Some s"
  shows "\<exists>m'. client_event (BlockDelta (mc_curIndex c) d) m = Some m' \<and> client_state c m'
    \<and> ml_blocks m' = extend_last s (ml_blocks m)"
  using assms by (auto simp: client_state_def block_lists_extend)

lemma told_new: "told pre (bs @ [(b, [])]) \<longleftrightarrow> told pre bs" if "b = ThinkingBlock \<or> b = TextBlock"
  using that by (auto simp: told_def block_lists_snoc)

lemma text_piece:
  assumes "client_state c m" "told pre (ml_blocks m)" "call_state cur seen pre c m"
    and "(p, b) = (Think s, ThinkingBlock) \<or> (p, b) = (Say s, TextBlock)"
    and "piece_events p c = (evs, c')"
  shows "\<exists>m'. follow evs m = Some m' \<and> client_state c' m' \<and> told (pre @ [p]) (ml_blocks m')
    \<and> call_state None seen (pre @ [p]) c' m'"
proof -
  have b: "b = ThinkingBlock \<or> b = TextBlock" using assms(4) by auto
  obtain e1 where e1: "ensureBlock (kind_of b) c = (e1, c')"
    and evs: "evs = e1 @ [BlockDelta (mc_curIndex c') (if b = ThinkingBlock then ThinkingPart s else TextPart s)]"
    using assms(4,5) by (auto simp: piece_events_def kind_of_def split: prod.splits)
  from ensure_block [OF assms(1) b e1] obtain m1 where m1: "follow e1 m = Some m1" "client_state c' m1"
    "mc_blockOpen c'" "fst (last (ml_blocks m1)) = b" "mc_toolBlock c' = mc_toolBlock c"
    "ml_blocks m1 = ml_blocks m \<or> ml_blocks m1 = ml_blocks m @ [(b, [])]" by blast
  have "delta_text (fst (last (ml_blocks m1))) (if b = ThinkingBlock then ThinkingPart s else TextPart s) = Some s"
    using m1(4) b by auto
  from delta_event [OF m1(2,3) this] obtain m2 where
    m2: "follow evs m = Some m2" "client_state c' m2" "ml_blocks m2 = extend_last s (ml_blocks m1)"
    using m1(1) by (auto simp: evs follow_append)
  have ne: "ml_blocks m1 \<noteq> []" using m1(2,3) by (simp add: client_state_def)
  have "told pre (ml_blocks m1)" using assms(2) m1(6) told_new [OF b] by metis
  then have "told (pre @ [p]) (ml_blocks m2)"
    using assms(4) m1(4) by (auto simp: told_def m2(3) block_lists_extend [OF ne])
  moreover have "call_state None seen (pre @ [p]) c' m2"
    using assms(3,4) m1(5) by (auto simp: call_state_def)
  ultimately show ?thesis using m2 by blast
qed


lemma told_call_new:
  assumes "told pre bs" "dc_Index d \<notin> dc_Index ` set (calls pre)"
  shows "told (pre @ [Call d]) (bs @ [(ToolUseBlock (dc_ID d) (dc_Name d), dc_Arguments d)])"
  using assms by (simp add: told_def block_lists_snoc whole_calls_new)

lemma call_state_mono:
  assumes "call_state cur seen pre c m" "dc_Index d \<in> set seen" "fst (last (ml_blocks m')) = fst (last (ml_blocks m))"
  shows "call_state cur seen (pre @ [Call d]) c m'"
  using assms by (auto simp: call_state_def call_order_snoc)

lemma call_piece_seen:
  assumes "client_state c m" "told pre (ml_blocks m)" "call_state cur seen pre c m"
    and "dc_Index d \<in> set seen" "dc_Arguments d = [] \<or> cur = Some (dc_Index d)"
    and "handleToolCall d c = (evs, c')"
  shows "\<exists>m'. follow evs m = Some m' \<and> client_state c' m' \<and> told (pre @ [Call d]) (ml_blocks m')
    \<and> call_state cur seen (pre @ [Call d]) c' m'"
proof -
  have "dc_Index d \<in> dom (map_of (mc_toolBlock c))" using assms(3,4) by (simp add: call_state_def)
  then obtain j where j: "map_of (mc_toolBlock c) (dc_Index d) = Some j" by blast
  have seen: "dc_Index d \<in> dc_Index ` set (calls pre)" using assms(3,4) by (simp add: call_state_def)
  have ev: "evs = (if dc_Arguments d = [] then [] else [BlockDelta j (InputPart (dc_Arguments d))])" "c' = c"
    using assms(6) by (auto simp: handleToolCall_def j)
  show ?thesis
  proof (cases "dc_Arguments d = []")
    case True
    then have "told (pre @ [Call d]) (ml_blocks m)"
      using assms(2) seen by (simp add: told_def whole_calls_none)
    with True show ?thesis using assms(1) call_state_mono [OF assms(3,4), of m] by (auto simp: ev)
  next
    case False
    then have cur: "cur = Some (dc_Index d)" using assms(5) by simp
    then obtain x n where o: "mc_blockOpen c" "j = mc_curIndex c" "fst (last (ml_blocks m)) = ToolUseBlock x n"
      "call_order (calls pre) \<noteq> []" "last (call_order (calls pre)) = dc_Index d"
      using assms(3) j by (auto simp: call_state_def)
    obtain m' where m': "client_event (BlockDelta j (InputPart (dc_Arguments d))) m = Some m'" "client_state c m'"
      "ml_blocks m' = extend_last (dc_Arguments d) (ml_blocks m)"
      using delta_event [OF assms(1) o(1), of "InputPart (dc_Arguments d)"] o(2,3) by auto
    have ne: "ml_blocks m \<noteq> []" using assms(1) o(1) by (simp add: client_state_def)
    have "told (pre @ [Call d]) (ml_blocks m')"
      using assms(2) o(3) whole_calls_more [OF o(4,5)]
      by (auto simp: told_def m'(3) block_lists_extend [OF ne])
    moreover have "call_state cur seen (pre @ [Call d]) c m'"
      using call_state_mono [OF assms(3,4)] by (simp add: m'(3) block_lists_extend [OF ne])
    ultimately show ?thesis using m' False by (auto simp: ev)
  qed
qed

lemma call_piece_new:
  assumes "client_state c m" "told pre (ml_blocks m)" "call_state cur seen pre c m"
    and "dc_Index d \<notin> set seen" "handleToolCall d c = (evs, c')"
  shows "\<exists>m'. follow evs m = Some m' \<and> client_state c' m' \<and> told (pre @ [Call d]) (ml_blocks m')
    \<and> call_state (Some (dc_Index d)) (dc_Index d # seen) (pre @ [Call d]) c' m'"
proof -
  let ?b = "ToolUseBlock (dc_ID d) (dc_Name d)" and ?args = "dc_Arguments d"
  have none: "map_of (mc_toolBlock c) (dc_Index d) = None" and new: "dc_Index d \<notin> dc_Index ` set (calls pre)"
    using assms(3,4) by (auto simp: call_state_def)
  obtain e1 c1 where c1: "closeBlock c = (e1, c1)" by force
  obtain e2 c2 where c2: "openBlock (kind_of ?b) ?b c1 = (e2, c2)" by force
  let ?c = "c2\<lparr>mc_toolBlock := AList.update (dc_Index d) (mc_curIndex c2) (mc_toolBlock c2)\<rparr>"
  have ev: "evs = (e1 @ e2) @ (if ?args = [] then [] else [BlockDelta (mc_curIndex c2) (InputPart ?args)])" "c' = ?c"
    using assms(5) c1 c2 by (auto simp: handleToolCall_def none kind_of_def)
  from open_block [OF assms(1) c1 c2] obtain m1 where
    m1: "follow (e1 @ e2) m = Some m1" "client_state c2 m1" "ml_blocks m1 = ml_blocks m @ [(?b, [])]"
      "mc_blockOpen c2" "mc_toolBlock c2 = mc_toolBlock c" by blast
  obtain m2 where m2: "follow evs m = Some m2" "client_state c2 m2" "ml_blocks m2 = ml_blocks m @ [(?b, ?args)]"
  proof (cases "?args = []")
    case True
    then show ?thesis using that [of m1] m1 by (simp add: ev)
  next
    case False
    have "delta_text (fst (last (ml_blocks m1))) (InputPart ?args) = Some ?args" by (simp add: m1(3))
    from delta_event [OF m1(2,4) this] obtain m2 where
      m2: "client_event (BlockDelta (mc_curIndex c2) (InputPart ?args)) m1 = Some m2" "client_state c2 m2"
        "ml_blocks m2 = extend_last ?args (ml_blocks m1)" by blast
    have "follow evs m = Some m2"
      using m1(1) m2(1) False by (simp add: ev follow_append [of "e1 @ e2"] del: append_assoc client_event.simps)
    with that m2(2,3) m1(3) show ?thesis by (simp add: extend_last_def)
  qed
  have "client_state c' m2" using m2(2) by (simp add: ev client_state_def)
  moreover have "told (pre @ [Call d]) (ml_blocks m2)" using told_call_new [OF assms(2) new] by (simp add: m2(3))
  moreover have "call_state (Some (dc_Index d)) (dc_Index d # seen) (pre @ [Call d]) c' m2"
    using assms(3) new m1(4,5) by (auto simp: call_state_def ev m2(3) call_order_snoc update_conv')
  ultimately show ?thesis using m2(1) by blast
qed

section \<open>A whole stream\<close>

fun run_pieces :: "piece list \<Rightarrow> message_core \<Rightarrow> message_event list \<times> message_core" where
  "run_pieces [] c = ([], c)"
| "run_pieces (p # ps) c =
     (case piece_events p c of (evs, c) \<Rightarrow> (case run_pieces ps c of (evs', c) \<Rightarrow> (evs @ evs', c)))"

lemma run_pieces_append:
  "run_pieces (a @ b) c =
     (fst (run_pieces a c) @ fst (run_pieces b (snd (run_pieces a c))), snd (run_pieces b (snd (run_pieces a c))))"
  by (induction a arbitrary: c) (simp_all add: case_prod_beta)

lemma pieces_followed:
  assumes "client_state c m" "told pre (ml_blocks m)" "call_state cur seen pre c m" "in_turn cur seen ps"
  shows "\<exists>m'. follow (fst (run_pieces ps c)) m = Some m' \<and> client_state (snd (run_pieces ps c)) m'
    \<and> told (pre @ ps) (ml_blocks m')"
  using assms
proof (induction ps arbitrary: c m pre cur seen)
  case (Cons p ps)
  obtain evs c1 where e: "piece_events p c = (evs, c1)" by force
  have "\<exists>m1 cur' seen'. follow evs m = Some m1 \<and> client_state c1 m1 \<and> told (pre @ [p]) (ml_blocks m1)
    \<and> call_state cur' seen' (pre @ [p]) c1 m1 \<and> in_turn cur' seen' ps"
  proof (cases p)
    case (Think s)
    then show ?thesis using text_piece [OF Cons.prems(1-3) _ e, of ThinkingBlock s] Cons.prems(4) by auto
  next
    case (Say s)
    then show ?thesis using text_piece [OF Cons.prems(1-3) _ e, of TextBlock s] Cons.prems(4) by auto
  next
    case (Call d)
    then have h: "handleToolCall d c = (evs, c1)" using e by (simp add: piece_events_def)
    show ?thesis
    proof (cases "dc_Index d \<in> set seen")
      case True
      then show ?thesis using call_piece_seen [OF Cons.prems(1-3) True _ h] Cons.prems(4) Call by auto
    next
      case False
      then show ?thesis using call_piece_new [OF Cons.prems(1-3) False h] Cons.prems(4) Call by auto
    qed
  qed
  then obtain m1 cur' seen' where m1: "follow evs m = Some m1" "client_state c1 m1" "told (pre @ [p]) (ml_blocks m1)"
    "call_state cur' seen' (pre @ [p]) c1 m1" "in_turn cur' seen' ps" by blast
  from Cons.IH [OF m1(2-5)] show ?case using m1(1) by (auto simp: e follow_append case_prod_beta)
qed simp


text \<open>The chunk of each line up to the marker, and the events of a list of chunks.\<close>

fun stream_chunks :: "message_env \<Rightarrow> string list \<Rightarrow> chat_chunk list" where
  "stream_chunks env [] = []"
| "stream_chunks env (line # lines) =
     (case line_payload line of
        None \<Rightarrow> stream_chunks env lines
      | Some payload \<Rightarrow>
          if payload = donePayload then []
          else (case me_decode env payload of
                  None \<Rightarrow> stream_chunks env lines
                | Some chunk \<Rightarrow> chunk # stream_chunks env lines))"

fun chunk_run :: "chat_chunk list \<Rightarrow> message_core \<Rightarrow> message_event list \<times> message_core" where
  "chunk_run [] c = ([], c)"
| "chunk_run (chunk # chunks) c =
     (case handleChunk chunk c of (evs, c) \<Rightarrow> (case chunk_run chunks c of (evs', c) \<Rightarrow> (evs @ evs', c)))"

definition same_blocks :: "message_core \<Rightarrow> message_core \<Rightarrow> bool" where
  "same_blocks c d \<longleftrightarrow> d = c\<lparr>mc_stopReason := mc_stopReason d, mc_usage := mc_usage d\<rparr>"

lemma same_blocks_refl [simp]: "same_blocks c c" "same_blocks c (c\<lparr>mc_usage := u\<rparr>)" "same_blocks c (c\<lparr>mc_stopReason := s\<rparr>)"
  by (simp_all add: same_blocks_def)

lemma same_blocks_trans: "same_blocks c d \<Longrightarrow> same_blocks d e \<Longrightarrow> same_blocks c e"
  unfolding same_blocks_def by (cases c; cases d; cases e) simp

lemma client_state_same: "same_blocks c d \<Longrightarrow> client_state d m = client_state c m"
  unfolding same_blocks_def client_state_def by (cases c; cases d) simp

lemma piece_events_same:
  assumes "same_blocks c d"
  shows "fst (piece_events p d) = fst (piece_events p c)" "same_blocks (snd (piece_events p c)) (snd (piece_events p d))"
  using assms unfolding same_blocks_def
  by (cases c; cases d; cases p;
      simp add: piece_events_def ensureBlock_def closeBlock_def openBlock_def handleToolCall_def split: option.split)+

lemma run_pieces_same:
  assumes "same_blocks c d"
  shows "fst (run_pieces ps d) = fst (run_pieces ps c) \<and> same_blocks (snd (run_pieces ps c)) (snd (run_pieces ps d))"
  using assms by (induction ps arbitrary: c d) (auto simp: case_prod_beta piece_events_same)

lemma handle_calls_pieces: "handle_calls ds c = run_pieces (map Call ds) c"
  by (induction ds arbitrary: c) (simp_all add: piece_events_def)

lemma handle_part_pieces:
  "handle_part ''thinking'' ThinkingPart s c = run_pieces (if s = [] then [] else [Think s]) c"
  "handle_part ''text'' TextPart s c = run_pieces (if s = [] then [] else [Say s]) c"
  by (simp_all add: handle_part_def piece_events_def case_prod_beta)

lemma handle_choice_pieces:
  "fst (handle_choice ch c) = fst (run_pieces (choice_pieces ch) c)
   \<and> same_blocks (snd (run_pieces (choice_pieces ch) c)) (snd (handle_choice ch c))"
  by (simp add: handle_choice_def choice_pieces_def handle_part_pieces handle_calls_pieces run_pieces_append case_prod_beta)

lemma handle_choices_pieces:
  "same_blocks c d \<Longrightarrow>
   fst (handle_choices chs d) = fst (run_pieces (concat (map choice_pieces chs)) c)
   \<and> same_blocks (snd (run_pieces (concat (map choice_pieces chs)) c)) (snd (handle_choices chs d))"
proof (induction chs arbitrary: c d)
  case (Cons ch chs)
  note h = handle_choice_pieces [of ch d] run_pieces_same [OF Cons.prems, of "choice_pieces ch"]
  then have "same_blocks (snd (run_pieces (choice_pieces ch) c)) (snd (handle_choice ch d))"
    using same_blocks_trans by blast
  from Cons.IH [OF this] h show ?case by (simp add: case_prod_beta run_pieces_append)
qed simp

text \<open>What no piece and no chunk changes.\<close>

lemma piece_flags:
  "mc_started (snd (piece_events p c)) = mc_started c \<and> mc_finalized (snd (piece_events p c)) = mc_finalized c"
  by (cases p; simp add: piece_events_def ensureBlock_def closeBlock_def openBlock_def handleToolCall_def split: option.split)

lemma pieces_flags:
  "mc_started (snd (run_pieces ps c)) = mc_started c \<and> mc_finalized (snd (run_pieces ps c)) = mc_finalized c"
  by (induction ps arbitrary: c) (simp_all add: case_prod_beta piece_flags)

lemma same_blocks_flags: "same_blocks c d \<Longrightarrow> mc_started d = mc_started c \<and> mc_finalized d = mc_finalized c"
  unfolding same_blocks_def by (cases c; cases d) simp

lemma started_chunk:
  assumes "same_blocks c d" "mc_started c"
  shows "fst (handleChunk ch d) = fst (run_pieces (chunk_pieces [ch]) c)
    \<and> same_blocks (snd (run_pieces (chunk_pieces [ch]) c)) (snd (handleChunk ch d))"
proof -
  let ?d = "case ac_Usage ch of None \<Rightarrow> d | Some u \<Rightarrow> d\<lparr>mc_usage := u\<rparr>"
  have "same_blocks c ?d" using assms(1) same_blocks_trans by (auto split: option.split)
  moreover have "ensureStarted (ac_ID ch) (ac_Model ch) d = ([], d)"
    using assms same_blocks_flags by (simp add: ensureStarted_def)
  then have "handleChunk ch d = handle_choices (ac_Choices ch) ?d"
    by (simp add: handleChunk_def case_prod_beta)
  ultimately show ?thesis using handle_choices_pieces [of c ?d "ac_Choices ch"] by (simp add: chunk_pieces_def)
qed

lemma chunk_pieces_Cons: "chunk_pieces (ch # chunks) = chunk_pieces [ch] @ chunk_pieces chunks"
  by (simp add: chunk_pieces_def)

lemma started_chunks:
  "same_blocks c d \<Longrightarrow> mc_started c \<Longrightarrow>
   fst (chunk_run chunks d) = fst (run_pieces (chunk_pieces chunks) c)
   \<and> same_blocks (snd (run_pieces (chunk_pieces chunks) c)) (snd (chunk_run chunks d))"
proof (induction chunks arbitrary: c d)
  case Nil
  then show ?case by (simp add: chunk_pieces_def)
next
  case (Cons ch chunks)
  note h = started_chunk [OF Cons.prems, of ch]
  have "mc_started (snd (run_pieces (chunk_pieces [ch]) c))" using Cons.prems(2) by (simp add: pieces_flags)
  from Cons.IH [OF _ this] h show ?case
    by (simp add: case_prod_beta chunk_pieces_Cons [of ch chunks] run_pieces_append)
qed

lemma handleChunk_finalized: "mc_finalized (snd (handleChunk ch c)) = mc_finalized c"
proof -
  have "mc_finalized (snd (handle_choices chs d)) = mc_finalized d" for chs d
    using handle_choices_pieces [of d d chs] same_blocks_flags pieces_flags by (metis same_blocks_refl(1))
  then show ?thesis
    by (simp add: handleChunk_def ensureStarted_def case_prod_beta Let_def split: option.split)
qed

lemma stream_run_chunks:
  "\<not> mc_finalized c \<Longrightarrow> fst (stream_run env lines c) =
     fst (chunk_run (stream_chunks env lines) c) @ fst (finalize (snd (chunk_run (stream_chunks env lines) c)))"
proof (induction lines arbitrary: c)
  case (Cons line lines)
  have blank: "line_payload line = None" if "go_trim line = []" using that by (simp add: line_payload_def)
  show ?case
  proof (cases "line_payload line")
    case None
    then show ?thesis using Cons by (simp add: line_step_def consumeLine_def)
  next
    case (Some payload)
    then have t: "go_trim line \<noteq> []" using blank by auto
    show ?thesis
    proof (cases "payload = donePayload")
      case True
      then show ?thesis using Some t Cons.prems by (simp add: line_step_def consumeLine_def case_prod_beta)
    next
      case False
      then show ?thesis
        using Some t Cons.prems Cons.IH
        by (cases "me_decode env payload")
          (simp_all add: line_step_def consumeLine_def case_prod_beta handleChunk_finalized)
    qed
  qed
qed simp

text \<open>The message starts once, before everything else.\<close>

lemma chunk_run_start:
  "\<not> mc_started c \<Longrightarrow> \<exists>i model.
     fst (chunk_run chunks c) @ fst (finalize (snd (chunk_run chunks c))) =
     MessageStart i model # fst (chunk_run chunks (c\<lparr>mc_started := True\<rparr>))
       @ fst (finalize (snd (chunk_run chunks (c\<lparr>mc_started := True\<rparr>))))" if "\<not> mc_finalized c"
  using that
  by (cases chunks)
    (simp_all add: finalize_def ensureStarted_def handleChunk_def case_prod_beta Let_def closeBlock_def usagePayload_def)

lemma finalize_followed:
  assumes "client_state c m" "same_blocks c d" "\<not> mc_finalized d"
  shows "\<exists>m'. follow (fst (finalize d)) m = Some m' \<and> ml_finished m' \<and> ml_blocks m' = ml_blocks m"
proof -
  have "client_state d m" using assms(1,2) client_state_same by blast
  then show ?thesis using assms(3)
    by (auto simp: client_state_def finalize_def ensureStarted_def closeBlock_def)
qed

text \<open>
  C29. A converted stream is a well-formed message of the Messages API: when the upstream's tool calls come
  one after the other, a strict client accepts every event to the end, and rebuilds the thoughts, the
  text, and each call with its id, its name and all of its arguments, in the order of their first parts.
\<close>

theorem message_stream_rebuilds_answer:
  assumes "chunks = stream_chunks env (sse_lines bytes)" "in_turn None [] (chunk_pieces chunks)"
  shows "\<exists>m. follow (message_stream_events env model bytes) new_client = Some m \<and> ml_finished m
    \<and> block_text ThinkingBlock (ml_blocks m) = thoughts (chunk_pieces chunks)
    \<and> block_text TextBlock (ml_blocks m) = words (chunk_pieces chunks)
    \<and> tool_blocks (ml_blocks m) = whole_calls (calls (chunk_pieces chunks))"
proof -
  let ?c = "new_message_core model" let ?s = "?c\<lparr>mc_started := True\<rparr>" let ?m = "new_client\<lparr>ml_started := True\<rparr>"
  have new: "\<not> mc_started ?c" "\<not> mc_finalized ?c" by (simp_all add: new_message_core_def)
  obtain i mo where evs: "message_stream_events env model bytes =
    MessageStart i mo # fst (chunk_run chunks ?s) @ fst (finalize (snd (chunk_run chunks ?s)))"
    using stream_run_chunks [OF new(2), of env "sse_lines bytes"] chunk_run_start [OF new(2,1), of chunks]
    by (auto simp: message_stream_events_def assms(1))
  have same: "fst (chunk_run chunks ?s) = fst (run_pieces (chunk_pieces chunks) ?s)
    \<and> same_blocks (snd (run_pieces (chunk_pieces chunks) ?s)) (snd (chunk_run chunks ?s))"
    by (rule started_chunks) simp_all
  have st: "client_state ?s ?m" by (simp add: client_state_def new_message_core_def new_client_def)
  have to: "told [] (ml_blocks ?m)"
    by (simp add: told_def new_client_def block_text_def tool_blocks_def whole_calls_def call_order_def)
  have ca: "call_state None [] [] ?s ?m" by (simp add: call_state_def new_message_core_def)
  from pieces_followed [OF st to ca assms(2)] obtain m where m: "follow (fst (run_pieces (chunk_pieces chunks) ?s)) ?m = Some m"
    "client_state (snd (run_pieces (chunk_pieces chunks) ?s)) m" "told (chunk_pieces chunks) (ml_blocks m)"
    unfolding append_Nil by blast
  have "\<not> mc_finalized (snd (chunk_run chunks ?s))"
    using same_blocks_flags [OF conjunct2 [OF same]] pieces_flags [of "chunk_pieces chunks" ?s] new(2) by simp
  from finalize_followed [OF m(2) conjunct2 [OF same] this] obtain m' where
    m': "follow (fst (finalize (snd (chunk_run chunks ?s)))) m = Some m'" "ml_finished m'" "ml_blocks m' = ml_blocks m"
    by blast
  have "client_event (MessageStart i mo) new_client = Some ?m" by (simp add: new_client_def)
  then have "follow (message_stream_events env model bytes) new_client = Some m'"
    by (simp only: evs follow.simps option.case follow_append conjunct1 [OF same] m(1) m'(1))
  then show ?thesis using m(3) m'(2,3) by (intro exI [of _ m']) (simp only: told_def simp_thms)
qed


section \<open>Concrete streams\<close>

definition call_part :: "int \<Rightarrow> string \<Rightarrow> string \<Rightarrow> chat_chunk" where
  "call_part i name args =
     \<lparr>ac_ID = ''c'', ac_Model = ''m'', ac_Choices =
        [\<lparr>ao_Content = [], ao_ReasoningContent = [], ao_ToolCalls = [\<lparr>dc_Index = i, dc_ID = name, dc_Name = name, dc_Arguments = args\<rparr>],
          ao_FinishReason = []\<rparr>], ac_Usage = None\<rparr>"

definition said_part :: "string \<Rightarrow> string \<Rightarrow> chat_chunk" where
  "said_part s finish =
     \<lparr>ac_ID = ''c'', ac_Model = ''m'', ac_Choices =
        [\<lparr>ao_Content = s, ao_ReasoningContent = [], ao_ToolCalls = [], ao_FinishReason = finish\<rparr>], ac_Usage = None\<rparr>"

text \<open>A decoder of one-letter payloads: two calls, their arguments, a text.\<close>

definition demo_message_env :: message_env where
  "demo_message_env =
     \<lparr>me_encode = (\<lambda>_. None),
      me_decode = map_of [(''a'', call_part 0 ''f'' ''1''), (''b'', call_part 1 ''g'' ''2''), (''c'', call_part 0 [] ''3''),
        (''d'', call_part 1 [] ''4''), (''t'', said_part ''hi'' [])]\<rparr>"

definition demo_lines :: "string list \<Rightarrow> string" where
  "demo_lines ps = concat (map (\<lambda>p. ''data: '' @ p @ [LF, LF]) ps)"

lemma message_stream_rebuilds_answer_witness:
  "\<exists>m. follow (message_stream_events demo_message_env ''m'' (demo_lines [''t'', ''a'', ''c'', ''b'', ''d'', ''[DONE]''])) new_client = Some m
     \<and> ml_finished m \<and> block_text TextBlock (ml_blocks m) = ''hi''
     \<and> tool_blocks (ml_blocks m) = [(ToolUseBlock ''f'' ''f'', ''13''), (ToolUseBlock ''g'' ''g'', ''24'')]"
proof -
  let ?chunks = "stream_chunks demo_message_env (sse_lines (demo_lines [''t'', ''a'', ''c'', ''b'', ''d'', ''[DONE]'']))"
  have turn: "in_turn None [] (chunk_pieces ?chunks)" by code_simp
  have vals: "words (chunk_pieces ?chunks) = ''hi''"
    "whole_calls (calls (chunk_pieces ?chunks)) = [(ToolUseBlock ''f'' ''f'', ''13''), (ToolUseBlock ''g'' ''g'', ''24'')]"
    by code_simp+
  from message_stream_rebuilds_answer [OF refl turn, of "''m''"] show ?thesis unfolding vals by blast
qed

text \<open>Calls whose arguments alternate: a delta is written to a block that was stopped, and the strict
  client rejects the stream.\<close>

lemma interleaved_calls_rejected:
  "follow (message_stream_events demo_message_env ''m'' (demo_lines [''a'', ''b'', ''c'', ''[DONE]''])) new_client = None
   \<and> (\<exists>before after. message_stream_events demo_message_env ''m'' (demo_lines [''a'', ''b'', ''c'', ''[DONE]'']) =
        before @ BlockDelta 0 (InputPart ''3'') # after \<and> BlockStop 0 \<in> set before)"
proof -
  let ?evs = "message_stream_events demo_message_env ''m'' (demo_lines [''a'', ''b'', ''c'', ''[DONE]''])"
  have "take 6 ?evs @ BlockDelta 0 (InputPart ''3'') # drop 7 ?evs = ?evs" "BlockStop 0 \<in> set (take 6 ?evs)"
    by code_simp+
  moreover have "follow ?evs new_client = None" by code_simp
  ultimately show ?thesis by metis
qed

text \<open>A stream with a tool call but without a finish reason ends with \<open>end_turn\<close>.\<close>

lemma calls_without_finish_end_turn:
  "\<exists>u. MessageDelta ''end_turn'' u \<in> set (message_stream_events demo_message_env ''m'' (demo_lines [''a'', ''[DONE]'']))"
proof -
  have "MessageDelta ''end_turn'' (usagePayload (new_message_core ''m''))
    \<in> set (message_stream_events demo_message_env ''m'' (demo_lines [''a'', ''[DONE]'']))" by code_simp
  then show ?thesis by blast
qed

end
