(* ===== verification/BatchStore.thy ===== *)
theory BatchStore
  imports Usage "HOL-Library.Product_Lexorder"
begin

text \<open>
  Batches and their store: \<open>internal/core/batch.go\<close>, \<open>internal/batch/store.go\<close> and \<open>store_memory.go\<close>.

  A stored batch is the public batch and what only the gateway may see. The store copies a batch by
  writing it as JSON and reading it back; the JSON package and the parser of RFC 3339 times are
  parameters. Metadata maps are association lists, \<open>None\<close> for a nil map. The locale \<open>batch_store\<close> is
  what the orchestrator relies on, and the memory store provides it.
\<close>

section \<open>Batches\<close>

type_synonym string_map = "(string \<times> string) list"

record batch_counts =
  bc_Total :: int
  bc_Completed :: int
  bc_Failed :: int

record batch_usage =
  bu_InputTokens :: int
  bu_OutputTokens :: int
  bu_TotalTokens :: int
  bu_InputCost :: "go_float option"
  bu_OutputCost :: "go_float option"
  bu_TotalCost :: "go_float option"

text \<open>The response of an item: a decoded value, or JSON text.\<close>

datatype any_value = AnyValue raw_value | AnyJSON string

record batch_item =
  bi_Index :: int
  bi_CustomID :: string
  bi_URL :: string
  bi_StatusCode :: int
  bi_Model :: string
  bi_Provider :: string
  bi_Response :: any_value
  bi_Error :: "(string \<times> string) option"      \<comment> \<open>type and message\<close>

record batch_response =
  br_ID :: string
  br_Object :: string
  br_Provider :: string
  br_ProviderBatchID :: string
  br_Endpoint :: string
  br_InputFileID :: string
  br_CompletionWindow :: string
  br_Status :: string
  br_CreatedAt :: int
  br_InProgressAt :: "int option"
  br_CompletedAt :: "int option"
  br_FailedAt :: "int option"
  br_CancellingAt :: "int option"
  br_CancelledAt :: "int option"
  br_RequestCounts :: batch_counts
  br_Metadata :: "string_map option"
  br_Usage :: batch_usage
  br_Results :: "batch_item list"

record stored_batch =
  sb_Batch :: "batch_response option"
  sb_RequestEndpointByCustomID :: "string_map option"
  sb_OriginalInputFileID :: string
  sb_RewrittenInputFileID :: string
  sb_RequestID :: string
  sb_UserPath :: string
  sb_WorkflowVersionID :: string
  sb_UsageEnabled :: "bool option"
  sb_UsageLoggedAt :: "go_time option"

definition EffectiveUsageEnabled :: "stored_batch option \<Rightarrow> bool" where
  "EffectiveUsageEnabled s = (case s of None \<Rightarrow> True | Some b \<Rightarrow> sb_UsageEnabled b \<noteq> Some False)"

section \<open>Keeping the gateway's metadata apart\<close>

definition RequestIDMetadataKey :: string where "RequestIDMetadataKey = ''request_id''"
definition UsageLoggedAtMetadataKey :: string where "UsageLoggedAtMetadataKey = ''usage_logged_at''"

lemmas metadata_key_defs = RequestIDMetadataKey_def UsageLoggedAtMetadataKey_def

definition gateway_key :: "string \<Rightarrow> bool" where
  "gateway_key k \<longleftrightarrow> k = RequestIDMetadataKey \<or> k = UsageLoggedAtMetadataKey"

text \<open>\<open>strconv.ParseInt\<close> in base ten, for 64 bits.\<close>

definition digit_value :: "char \<Rightarrow> int option" where
  "digit_value c =
     (let n = of_char c in if 48 \<le> n \<and> n \<le> (57 :: int) then Some (n - 48) else None)"

fun digits_value :: "int \<Rightarrow> string \<Rightarrow> int option" where
  "digits_value acc [] = Some acc"
| "digits_value acc (c # s) =
     (case digit_value c of None \<Rightarrow> None | Some d \<Rightarrow> digits_value (10 * acc + d) s)"

definition parse_int64 :: "string \<Rightarrow> int option" where
  "parse_int64 s =
     (let neg = has_prefix s ''-'';
          ds = (if neg \<or> has_prefix s ''+'' then tl s else s)
      in case (if ds = [] then None else digits_value 0 ds) of
           None \<Rightarrow> None
         | Some n \<Rightarrow>
             let v = (if neg then - n else n)
             in if - (2 ^ 63) \<le> v \<and> v < 2 ^ 63 then Some v else None)"

record batch_codec =
  bx_json :: "stored_batch \<Rightarrow> go_error + stored_batch"   \<comment> \<open>written as JSON and read back\<close>
  bx_time :: "string \<Rightarrow> go_time option"                  \<comment> \<open>\<open>time.Parse(time.RFC3339Nano, _)\<close>\<close>

definition parseUsageLoggedAt :: "batch_codec \<Rightarrow> string \<Rightarrow> go_time option" where
  "parseUsageLoggedAt cx raw0 =
     (let raw = go_trim raw0
      in if raw = [] then None
         else case parse_int64 raw of
             Some n \<Rightarrow> Some (n * second)
           | None \<Rightarrow> bx_time cx raw)"

definition map_or_nil :: "string_map \<Rightarrow> string_map option" where
  "map_or_nil m = (if m = [] then None else Some m)"

definition public_entries :: "string_map \<Rightarrow> string_map" where
  "public_entries m = filter (\<lambda>(k, v). \<not> gateway_key k) m"

definition splitGatewayBatchMetadata ::
  "batch_codec \<Rightarrow> string_map option \<Rightarrow> string \<Rightarrow> go_time option \<Rightarrow>
   string_map option \<times> string \<times> go_time option" where
  "splitGatewayBatchMetadata cx metadata requestID usageLoggedAt =
     (case metadata of
        None \<Rightarrow> (None, go_trim requestID, usageLoggedAt)
      | Some m \<Rightarrow>
          (map_or_nil (public_entries m),
           if go_trim requestID \<noteq> [] then go_trim requestID
           else (case map_of m RequestIDMetadataKey of None \<Rightarrow> [] | Some v \<Rightarrow> go_trim v),
           case usageLoggedAt of
             Some t \<Rightarrow> Some t
           | None \<Rightarrow>
               (case map_of m UsageLoggedAtMetadataKey of None \<Rightarrow> None | Some v \<Rightarrow> parseUsageLoggedAt cx v)))"

definition normalizeStoredBatch :: "batch_codec \<Rightarrow> stored_batch \<Rightarrow> stored_batch" where
  "normalizeStoredBatch cx src =
     (case sb_Batch src of
        None \<Rightarrow> src
      | Some b \<Rightarrow>
          (case splitGatewayBatchMetadata cx (br_Metadata b) (sb_RequestID src) (sb_UsageLoggedAt src) of
             (metadata, requestID, loggedAt) \<Rightarrow>
               src\<lparr>sb_Batch := Some (b\<lparr>br_Metadata := metadata\<rparr>),
                   sb_RequestID := requestID, sb_UsageLoggedAt := loggedAt\<rparr>))"

definition cloneBatch :: "batch_codec \<Rightarrow> stored_batch \<Rightarrow> go_error + stored_batch" where
  "cloneBatch cx src = bx_json cx (normalizeStoredBatch cx src)"

definition public_metadata :: "string_map option \<Rightarrow> bool" where
  "public_metadata m \<longleftrightarrow> (\<forall>x \<in> set (case m of None \<Rightarrow> [] | Some m \<Rightarrow> m). \<not> gateway_key (fst x))"

definition public_batch :: "batch_response \<Rightarrow> bool" where
  "public_batch b \<longleftrightarrow> public_metadata (br_Metadata b)"

definition normal_batch :: "batch_codec \<Rightarrow> stored_batch \<Rightarrow> bool" where
  "normal_batch cx b \<longleftrightarrow> normalizeStoredBatch cx b = b"

lemma public_entries_public: "public_metadata (map_or_nil (public_entries m))"
  by (auto simp: public_metadata_def map_or_nil_def public_entries_def)

lemma public_entries_idem: "public_entries (public_entries m) = public_entries m"
  by (simp add: public_entries_def)

lemma map_of_public_entries: "gateway_key k \<Longrightarrow> map_of (public_entries m) k = None"
  by (auto simp: public_entries_def map_of_eq_None_iff)

lemma gateway_keys [simp]: "gateway_key RequestIDMetadataKey" "gateway_key UsageLoggedAtMetadataKey"
  by (simp_all add: gateway_key_def)

text \<open>Splitting once is enough.\<close>

lemma split_split:
  assumes "splitGatewayBatchMetadata cx m r t = (m', r', t')"
  shows "splitGatewayBatchMetadata cx m' r' t' = (m', r', t')"
proof (cases m)
  case None
  then show ?thesis using assms by (auto simp: splitGatewayBatchMetadata_def)
next
  case (Some l)
  then have m': "m' = map_or_nil (public_entries l)" and r': "go_trim r' = r'"
    using assms by (auto simp: splitGatewayBatchMetadata_def split: option.splits if_splits)
  show ?thesis
  proof (cases "public_entries l = []")
    case True
    then show ?thesis using r' by (simp add: m' map_or_nil_def splitGatewayBatchMetadata_def)
  next
    case False
    then show ?thesis
      using r' public_entries_idem [of l]
      by (simp add: m' map_or_nil_def splitGatewayBatchMetadata_def map_of_public_entries split: option.split)
  qed
qed

lemma normalize_normal [simp]: "normal_batch cx (normalizeStoredBatch cx b)"
proof (cases "sb_Batch b")
  case None
  then show ?thesis by (simp add: normal_batch_def normalizeStoredBatch_def)
next
  case (Some r)
  obtain m' r' t' where s: "splitGatewayBatchMetadata cx (br_Metadata r) (sb_RequestID b) (sb_UsageLoggedAt b) = (m', r', t')"
    by (metis prod.exhaust)
  show ?thesis using split_split [OF s] by (simp add: normal_batch_def normalizeStoredBatch_def Some s)
qed

lemma normalize_fields:
  "sb_Batch (normalizeStoredBatch cx b) = None \<longleftrightarrow> sb_Batch b = None"
  "sb_Batch b = Some r \<Longrightarrow> \<exists>m. sb_Batch (normalizeStoredBatch cx b) = Some (r\<lparr>br_Metadata := m\<rparr>) \<and> public_metadata m"
  "sb_UsageLoggedAt b \<noteq> None \<Longrightarrow> sb_UsageLoggedAt (normalizeStoredBatch cx b) = sb_UsageLoggedAt b"
proof -
  show "sb_Batch (normalizeStoredBatch cx b) = None \<longleftrightarrow> sb_Batch b = None"
    by (simp add: normalizeStoredBatch_def split: option.split prod.split)
  show "\<exists>m. sb_Batch (normalizeStoredBatch cx b) = Some (r\<lparr>br_Metadata := m\<rparr>) \<and> public_metadata m"
    if "sb_Batch b = Some r"
  proof (cases "br_Metadata r")
    case None
    then show ?thesis
      using that by (auto simp: normalizeStoredBatch_def splitGatewayBatchMetadata_def public_metadata_def)
  next
    case (Some l)
    then show ?thesis
      using that public_entries_public [of l] by (auto simp: normalizeStoredBatch_def splitGatewayBatchMetadata_def)
  qed
  show "sb_UsageLoggedAt (normalizeStoredBatch cx b) = sb_UsageLoggedAt b" if "sb_UsageLoggedAt b \<noteq> None"
    using that by (auto simp: normalizeStoredBatch_def splitGatewayBatchMetadata_def split: option.split)
qed

lemma normal_public: "normal_batch cx b \<Longrightarrow> sb_Batch b = Some r \<Longrightarrow> public_batch r"
proof -
  assume n: "normal_batch cx b" and r: "sb_Batch b = Some r"
  obtain m where m: "sb_Batch (normalizeStoredBatch cx b) = Some (r\<lparr>br_Metadata := m\<rparr>)" "public_metadata m"
    using normalize_fields(2) [OF r] by blast
  then have "r = r\<lparr>br_Metadata := m\<rparr>" using n r by (simp only: normal_batch_def option.inject)
  then have "br_Metadata r = m" by (metis batch_response.select_convs(16) batch_response.surjective batch_response.update_convs(16))
  with m(2) show ?thesis by (simp add: public_batch_def)
qed


section \<open>The interface of the store\<close>

definition batch_id :: "stored_batch \<Rightarrow> string" where
  "batch_id b = (case sb_Batch b of None \<Rightarrow> [] | Some r \<Rightarrow> br_ID r)"

definition batch_created :: "stored_batch \<Rightarrow> int" where
  "batch_created b = (case sb_Batch b of None \<Rightarrow> 0 | Some r \<Rightarrow> br_CreatedAt r)"

definition ErrBatchNotFound :: go_error where
  "ErrBatchNotFound = PlainError ''batch not found''"

definition is_not_found :: "go_error \<Rightarrow> bool" where
  "is_not_found err \<longleftrightarrow> ErrBatchNotFound \<in> set (error_chain err)"

record 's batch_store_ops =
  bs_Create :: "stored_batch \<Rightarrow> 's \<Rightarrow> go_error option \<times> 's"
  bs_Get :: "string \<Rightarrow> 's \<Rightarrow> go_error + stored_batch"
  bs_List :: "int \<Rightarrow> string \<Rightarrow> 's \<Rightarrow> go_error + stored_batch list"
  bs_Update :: "stored_batch \<Rightarrow> 's \<Rightarrow> go_error option \<times> 's"

definition normalizeLimit :: "int \<Rightarrow> int" where
  "normalizeLimit limit = (if limit \<le> 0 then 20 else if limit > 101 then 101 else limit)"

text \<open>The order of a listing, newest first, and a page of it after a cursor.\<close>

definition newest_first :: "stored_batch list \<Rightarrow> stored_batch list" where
  "newest_first bs = rev (sort_key (\<lambda>b. (batch_created b, batch_id b)) bs)"

fun after_batch :: "string \<Rightarrow> stored_batch list \<Rightarrow> stored_batch list option" where
  "after_batch i [] = None"
| "after_batch i (b # bs) = (if batch_id b = i then Some bs else after_batch i bs)"

definition page_after :: "int \<Rightarrow> string \<Rightarrow> stored_batch list \<Rightarrow> go_error + stored_batch list" where
  "page_after limit after bs =
     (case (if after = [] then Some bs else after_batch after bs) of
        None \<Rightarrow> Inl ErrBatchNotFound
      | Some rest \<Rightarrow> Inr (take (nat (normalizeLimit limit)) rest))"

text \<open>What the orchestrator relies on: the store is a map of normal batches by their ids, and a listing
  is a page of all of them, newest first. The state \<open>ok\<close> is one in which copies are exact.\<close>

locale batch_store =
  fixes S :: "'s batch_store_ops" and cx :: batch_codec
    and ok :: "'s \<Rightarrow> bool" and look :: "'s \<Rightarrow> string \<Rightarrow> stored_batch option" and listing :: "'s \<Rightarrow> stored_batch list"
  assumes create: "ok s \<Longrightarrow> batch_id b \<noteq> [] \<Longrightarrow> look s (batch_id b) = None \<Longrightarrow>
      \<exists>s'. bs_Create S b s = (None, s') \<and> ok s' \<and> look s' = (look s)(batch_id b \<mapsto> normalizeStoredBatch cx b)"
    and create_refused: "ok s \<Longrightarrow> batch_id b = [] \<or> look s (batch_id b) \<noteq> None \<Longrightarrow> \<exists>e. bs_Create S b s = (Some e, s)"
    and get: "ok s \<Longrightarrow> bs_Get S i s = (case look s i of Some b \<Rightarrow> Inr b | None \<Rightarrow> Inl ErrBatchNotFound)"
    and update: "ok s \<Longrightarrow> batch_id b \<noteq> [] \<Longrightarrow> look s (batch_id b) \<noteq> None \<Longrightarrow>
      \<exists>s'. bs_Update S b s = (None, s') \<and> ok s' \<and> look s' = (look s)(batch_id b \<mapsto> normalizeStoredBatch cx b)"
    and update_refused: "ok s \<Longrightarrow> batch_id b = [] \<or> look s (batch_id b) = None \<Longrightarrow> \<exists>e. bs_Update S b s = (Some e, s)"
    and kept: "ok s \<Longrightarrow> look s i = Some b \<Longrightarrow> batch_id b = i \<and> i \<noteq> [] \<and> normal_batch cx b"
    and lists: "ok s \<Longrightarrow> bs_List S limit after s = page_after limit after (listing s)"
    and listed: "ok s \<Longrightarrow> b \<in> set (listing s) \<longleftrightarrow> look s (batch_id b) = Some b"
    and listed_once: "ok s \<Longrightarrow> distinct (map batch_id (listing s))"

section \<open>The memory store\<close>

type_synonym batch_memory = "(string \<times> stored_batch) list"

definition NewBatchMemoryStore :: batch_memory where
  "NewBatchMemoryStore = []"

definition bm_Create :: "batch_codec \<Rightarrow> stored_batch \<Rightarrow> batch_memory \<Rightarrow> go_error option \<times> batch_memory" where
  "bm_Create cx b s =
     (if batch_id b = [] then (Some (PlainError ''batch id is required''), s)
      else case cloneBatch cx b of
          Inl e \<Rightarrow> (Some e, s)
        | Inr c \<Rightarrow>
            if map_of s (batch_id c) \<noteq> None then (Some (PlainError (''batch already exists: '' @ batch_id c)), s)
            else (None, AList.update (batch_id c) c s))"

definition bm_Get :: "batch_codec \<Rightarrow> string \<Rightarrow> batch_memory \<Rightarrow> go_error + stored_batch" where
  "bm_Get cx i s = (case map_of s i of None \<Rightarrow> Inl ErrBatchNotFound | Some b \<Rightarrow> cloneBatch cx b)"

fun clone_all :: "batch_codec \<Rightarrow> stored_batch list \<Rightarrow> go_error + stored_batch list" where
  "clone_all cx [] = Inr []"
| "clone_all cx (b # bs) =
     (case cloneBatch cx b of
        Inl e \<Rightarrow> Inl e
      | Inr c \<Rightarrow> (case clone_all cx bs of Inl e \<Rightarrow> Inl e | Inr cs \<Rightarrow> Inr (c # cs)))"

definition bm_List :: "batch_codec \<Rightarrow> int \<Rightarrow> string \<Rightarrow> batch_memory \<Rightarrow> go_error + stored_batch list" where
  "bm_List cx limit after s =
     (case clone_all cx (map snd s) of
        Inl e \<Rightarrow> Inl e
      | Inr bs \<Rightarrow> page_after limit after (newest_first bs))"

definition bm_Update :: "batch_codec \<Rightarrow> stored_batch \<Rightarrow> batch_memory \<Rightarrow> go_error option \<times> batch_memory" where
  "bm_Update cx b s =
     (if batch_id b = [] then (Some (PlainError ''batch id is required''), s)
      else case cloneBatch cx b of
          Inl e \<Rightarrow> (Some e, s)
        | Inr c \<Rightarrow>
            if map_of s (batch_id c) = None then (Some ErrBatchNotFound, s)
            else (None, AList.update (batch_id c) c s))"

definition memory_ops :: "batch_codec \<Rightarrow> batch_memory batch_store_ops" where
  "memory_ops cx =
     \<lparr>bs_Create = bm_Create cx, bs_Get = bm_Get cx, bs_List = bm_List cx, bs_Update = bm_Update cx\<rparr>"

text \<open>JSON that copies exactly, and the stores it leads to.\<close>

definition exact_json :: "batch_codec \<Rightarrow> bool" where
  "exact_json cx \<longleftrightarrow> (\<forall>b. bx_json cx b = Inr b)"

definition bm_ok :: "batch_codec \<Rightarrow> batch_memory \<Rightarrow> bool" where
  "bm_ok cx s \<longleftrightarrow>
     exact_json cx \<and> distinct (map fst s) \<and> (\<forall>(i, b) \<in> set s. batch_id b = i \<and> i \<noteq> [] \<and> normal_batch cx b)"

lemma batch_id_normalize [simp]: "batch_id (normalizeStoredBatch cx b) = batch_id b"
  by (simp add: batch_id_def normalizeStoredBatch_def split: option.split prod.split)

lemma clone_exact: "exact_json cx \<Longrightarrow> cloneBatch cx b = Inr (normalizeStoredBatch cx b)"
  by (simp add: cloneBatch_def exact_json_def)

lemma clone_normal: "exact_json cx \<Longrightarrow> normal_batch cx b \<Longrightarrow> cloneBatch cx b = Inr b"
  by (simp add: clone_exact normal_batch_def)

lemma clone_all_normal: "exact_json cx \<Longrightarrow> \<forall>b \<in> set bs. normal_batch cx b \<Longrightarrow> clone_all cx bs = Inr bs"
  by (induction bs) (simp_all add: clone_normal)

lemma bm_ok_init: "exact_json cx \<Longrightarrow> bm_ok cx NewBatchMemoryStore"
  by (simp add: bm_ok_def NewBatchMemoryStore_def)

lemma bm_ok_member: "bm_ok cx s \<Longrightarrow> map_of s i = Some b \<Longrightarrow> batch_id b = i \<and> i \<noteq> [] \<and> normal_batch cx b"
  by (auto simp: bm_ok_def dest!: map_of_SomeD)

lemma bm_ok_store:
  assumes "bm_ok cx s" "batch_id b \<noteq> []"
  shows "bm_ok cx (AList.update (batch_id b) (normalizeStoredBatch cx b) s)"
proof -
  let ?s = "AList.update (batch_id b) (normalizeStoredBatch cx b) s"
  have d: "distinct (map fst ?s)" using assms(1) by (simp add: bm_ok_def distinct_update)
  moreover have "batch_id c = i \<and> i \<noteq> [] \<and> normal_batch cx c" if "(i, c) \<in> set ?s" for i c
  proof -
    have "map_of ?s i = Some c" using d that by simp
    then show ?thesis using assms bm_ok_member [OF assms(1)] by (auto simp: update_conv' split: if_splits)
  qed
  ultimately show ?thesis using assms(1) by (auto simp: bm_ok_def)
qed

lemma newest_first_set [simp]: "set (newest_first bs) = set bs"
  by (simp add: newest_first_def)

lemma newest_first_distinct: "distinct (map batch_id (newest_first bs)) = distinct (map batch_id bs)"
proof -
  have "mset (map batch_id (newest_first bs)) = mset (map batch_id bs)"
    by (simp only: mset_map newest_first_def mset_rev mset_sort)
  then show ?thesis by (metis mset_eq_imp_distinct_iff)
qed

interpretation bm: batch_store "memory_ops cx" cx "bm_ok cx" map_of "\<lambda>s. newest_first (map snd s)" for cx
proof (unfold_locales, goal_cases)
  case (1 s b)
  then show ?case
    by (auto simp: memory_ops_def bm_Create_def clone_exact bm_ok_store update_conv' bm_ok_def [of cx s])
next
  case (2 s b)
  then show ?case by (auto simp: memory_ops_def bm_Create_def clone_exact bm_ok_def)
next
  case (3 s i)
  then show ?case
    using bm_ok_member [OF 3] by (auto simp: memory_ops_def bm_Get_def clone_normal bm_ok_def [of cx s] split: option.split)
next
  case (4 s b)
  then show ?case
    by (auto simp: memory_ops_def bm_Update_def clone_exact bm_ok_store update_conv' bm_ok_def [of cx s])
next
  case (5 s b)
  then show ?case by (auto simp: memory_ops_def bm_Update_def clone_exact bm_ok_def)
next
  case (6 s i b)
  then show ?case by (rule bm_ok_member)
next
  case (7 s limit after)
  then have "clone_all cx (map snd s) = Inr (map snd s)"
    by (intro clone_all_normal) (auto simp: bm_ok_def)
  then show ?case by (simp add: memory_ops_def bm_List_def)
next
  case (8 s b)
  then have "map_of s (batch_id b) = Some b \<longleftrightarrow> (batch_id b, b) \<in> set s" by (simp add: bm_ok_def)
  then show ?case using 8 by (force simp: bm_ok_def)
next
  case (9 s)
  then have "map batch_id (map snd s) = map fst s" by (auto simp: bm_ok_def)
  with 9 have "distinct (map batch_id (map snd s))" by (metis bm_ok_def)
  then show ?case by (simp only: newest_first_distinct)
qed

end
