(* ===== verification/BatchRewrite.thy ===== *)
theory BatchRewrite
  imports Resolution BatchStore
begin

text \<open>
  Batch requests and their rewriting before submission: \<open>internal/core/batch_semantic.go\<close>,
  \<open>batch_preparation.go\<close>, \<open>internal/batchrewrite/helpers.go\<close>, \<open>internal/server/batch_request_preparer.go\<close>,
  \<open>native_batch_support.go\<close> and \<open>internal/virtualmodels/batch_preparer.go\<close>.

  Items come inline or in a file of JSON lines. JSON and the URL parser are parameters (\<open>batch_json\<close>),
  the provider's file operations and the callback that rewrites an item run over a state \<open>'s\<close>.
\<close>

section \<open>Requests\<close>

record batch_request_item =
  ri_CustomID :: string
  ri_Method :: string
  ri_URL :: string
  ri_Body :: string
  ri_ExtraFields :: string

record batch_request =
  bq_InputFileID :: string
  bq_Endpoint :: string
  bq_CompletionWindow :: string
  bq_Metadata :: "string_map option"
  bq_Requests :: "batch_request_item list"
  bq_ExtraFields :: string

text \<open>A decoded request: model, provider, and everything else.\<close>

datatype canonical_request =
    CanonicalChat string string string
  | CanonicalResponses string string string
  | CanonicalEmbedding string string string
  | CanonicalBatch string

record decoded_item =
  di_Endpoint :: string
  di_Method :: string
  di_Operation :: operation
  di_Request :: canonical_request

record batch_json =
  bj_path :: "string \<Rightarrow> string option"                   \<comment> \<open>the path of a URL that parses\<close>
  bj_decode :: "operation \<Rightarrow> string \<Rightarrow> go_error + canonical_request"
  bj_encode :: "canonical_request \<Rightarrow> go_error + string"
  bj_item :: "string \<Rightarrow> go_error + batch_request_item"
  bj_marshal_item :: "batch_request_item \<Rightarrow> go_error + string"
  bj_value :: "string \<Rightarrow> raw_value option"
  bj_text :: "raw_value \<Rightarrow> string option"

fun semanticSelectorFromCanonicalRequest :: "canonical_request \<Rightarrow> (string \<times> string) option" where
  "semanticSelectorFromCanonicalRequest (CanonicalChat m p r) = Some (m, p)"
| "semanticSelectorFromCanonicalRequest (CanonicalResponses m p r) = Some (m, p)"
| "semanticSelectorFromCanonicalRequest (CanonicalEmbedding m p r) = Some (m, p)"
| "semanticSelectorFromCanonicalRequest (CanonicalBatch r) = None"

definition trim_right :: "char \<Rightarrow> string \<Rightarrow> string" where
  "trim_right c s = rev (dropWhile (\<lambda>x. x = c) (rev s))"

definition NormalizeOperationPath :: "batch_json \<Rightarrow> string \<Rightarrow> string" where
  "NormalizeOperationPath J raw =
     (let trimmed = go_trim raw
      in if trimmed = [] then []
         else let path = go_trim (case bj_path J trimmed of Some p \<Rightarrow> if p \<noteq> [] then p else trimmed | None \<Rightarrow> trimmed)
              in if path = [] then []
                 else if trim_right (CHR ''/'') path = [] then ''/'' else trim_right (CHR ''/'') path)"

definition ResolveBatchItemEndpoint :: "string \<Rightarrow> string \<Rightarrow> string" where
  "ResolveBatchItemEndpoint defaultEndpoint itemURL =
     (if go_trim itemURL \<noteq> [] then itemURL else defaultEndpoint)"

definition item_method :: "batch_request_item \<Rightarrow> string" where
  "item_method item =
     (let method = go_to_upper (go_trim (ri_Method item)) in if method = [] then ''POST'' else method)"

definition item_endpoint :: "batch_json \<Rightarrow> string \<Rightarrow> batch_request_item \<Rightarrow> string" where
  "item_endpoint J defaultEndpoint item =
     NormalizeOperationPath J (ResolveBatchItemEndpoint defaultEndpoint (ri_URL item))"

definition canonicalOperation :: "operation \<Rightarrow> string option" where
  \<comment> \<open>the operations that have a codec, with their names\<close>
  "canonicalOperation op =
     (case op of
        OperationChatCompletions \<Rightarrow> Some ''chat completions''
      | OperationResponses \<Rightarrow> Some ''responses''
      | OperationEmbeddings \<Rightarrow> Some ''embeddings''
      | OperationBatches \<Rightarrow> Some ''batches''
      | _ \<Rightarrow> None)"

definition DecodeKnownBatchItemRequest ::
  "batch_json \<Rightarrow> string \<Rightarrow> batch_request_item \<Rightarrow> go_error + decoded_item" where
  "DecodeKnownBatchItemRequest J defaultEndpoint item =
     (let ep = item_endpoint J defaultEndpoint item;
          op = ep_Operation (DescribeEndpointPath ep)
      in if ep = [] then Inl (PlainError ''url is required'')
         else if item_method item \<noteq> ''POST'' then Inl (PlainError ''only POST is supported'')
         else if ri_Body item = [] then Inl (PlainError ''body is required'')
         else case canonicalOperation op of
             None \<Rightarrow> Inl (PlainError (''unsupported batch item url: '' @ ep))
           | Some name \<Rightarrow>
               (case bj_decode J op (ri_Body item) of
                  Inl err \<Rightarrow> Inl (WrappedError (''invalid '' @ name @ '' request body: '' @ error_string err) err)
                | Inr req \<Rightarrow>
                    Inr \<lparr>di_Endpoint = ep, di_Method = item_method item, di_Operation = op, di_Request = req\<rparr>))"

text \<open>\<open>None\<close> when the item is not one of the wanted operations.\<close>

definition MaybeDecodeKnownBatchItemRequest ::
  "batch_json \<Rightarrow> string \<Rightarrow> batch_request_item \<Rightarrow> operation list \<Rightarrow> go_error + decoded_item option" where
  "MaybeDecodeKnownBatchItemRequest J defaultEndpoint item operations =
     (let ep = item_endpoint J defaultEndpoint item
      in if ri_Body item = [] \<or> item_method item \<noteq> ''POST'' \<or> ep = [] then Inr None
         else if operations \<noteq> [] \<and> ep_Operation (DescribeEndpointPath ep) \<notin> set operations then Inr None
         else case DecodeKnownBatchItemRequest J defaultEndpoint item of
             Inl err \<Rightarrow> Inl err
           | Inr decoded \<Rightarrow> Inr (Some decoded))"

definition decoded_RequestedModelSelector :: "decoded_item \<Rightarrow> go_error + requested_selector" where
  "decoded_RequestedModelSelector decoded =
     (case semanticSelectorFromCanonicalRequest (di_Request decoded) of
        None \<Rightarrow> Inl (PlainError (''unsupported batch item url: '' @ di_Endpoint decoded))
      | Some (model, provider) \<Rightarrow> Inr (NewRequestedModelSelector model provider))"

definition BatchItemRequestedModelSelector ::
  "batch_json \<Rightarrow> string \<Rightarrow> batch_request_item \<Rightarrow> go_error + requested_selector" where
  "BatchItemRequestedModelSelector J defaultEndpoint item =
     (case DecodeKnownBatchItemRequest J defaultEndpoint item of
        Inl err \<Rightarrow> Inl err
      | Inr decoded \<Rightarrow> decoded_RequestedModelSelector decoded)"

section \<open>Rewriting\<close>

record rewrite_result =
  rr_Request :: "batch_request option"
  rr_RequestEndpointHints :: "string_map option"
  rr_OriginalInputFileID :: string
  rr_RewrittenInputFileID :: string

record 's file_ops =
  fo_GetFileContent :: "string \<Rightarrow> string \<Rightarrow> 's \<Rightarrow> (go_error + (string \<times> string) option) \<times> 's" \<comment> \<open>name and data\<close>
  fo_CreateFile :: "string \<Rightarrow> string \<Rightarrow> string \<Rightarrow> 's \<Rightarrow> (go_error + string option) \<times> 's"  \<comment> \<open>the id\<close>
  fo_DeleteFile :: "string \<Rightarrow> string \<Rightarrow> 's \<Rightarrow> go_error option \<times> 's"

type_synonym 's item_rewrite = "batch_request_item \<Rightarrow> decoded_item \<Rightarrow> 's \<Rightarrow> (go_error + string) \<times> 's"

definition recordBatchEndpointHint ::
  "batch_json \<Rightarrow> string \<Rightarrow> batch_request_item \<Rightarrow> string_map \<Rightarrow> string_map" where
  "recordBatchEndpointHint J defaultEndpoint item hints =
     (if go_trim (ri_CustomID item) = [] \<or> item_endpoint J defaultEndpoint item = [] then hints
      else AList.update (ri_CustomID item) (item_endpoint J defaultEndpoint item) hints)"

definition item_error :: "string \<Rightarrow> nat \<Rightarrow> go_error \<Rightarrow> go_error" where
  "item_error what i err = NewInvalidRequestError (what @ decimal i @ '': '' @ error_string err) (Some err)"

fun rewriteInlineBatchItems ::
  "batch_json \<Rightarrow> string \<Rightarrow> operation list \<Rightarrow> 's item_rewrite \<Rightarrow> nat \<Rightarrow> batch_request_item list \<Rightarrow> string_map \<Rightarrow> 's \<Rightarrow>
   (go_error + batch_request_item list \<times> string_map) \<times> 's" where
  "rewriteInlineBatchItems J ep operations rewrite i [] hints s = (Inr ([], hints), s)"
| "rewriteInlineBatchItems J ep operations rewrite i (item # items) hints s =
     (let hints = recordBatchEndpointHint J ep item hints;
          next_items = (\<lambda>item s.
            case rewriteInlineBatchItems J ep operations rewrite (Suc i) items hints s of
              (Inl err, s) \<Rightarrow> (Inl err, s)
            | (Inr (items, hints), s) \<Rightarrow> (Inr (item # items, hints), s))
      in case MaybeDecodeKnownBatchItemRequest J ep item operations of
           Inl err \<Rightarrow> (Inl (item_error ''batch item '' i err), s)
         | Inr None \<Rightarrow> next_items item s
         | Inr (Some decoded) \<Rightarrow>
             (case rewrite item decoded s of
                (Inl err, s) \<Rightarrow> (Inl err, s)
              | (Inr body, s) \<Rightarrow> next_items (item\<lparr>ri_Body := body\<rparr>) s))"

definition jsonSemanticallyEqual :: "batch_json \<Rightarrow> string \<Rightarrow> string \<Rightarrow> bool" where
  "jsonSemanticallyEqual J left right =
     (case (bj_value J left, bj_value J right) of
        (Some l, Some r) \<Rightarrow>
          (case (bj_text J l, bj_text J r) of (Some a, Some b) \<Rightarrow> a = b | _ \<Rightarrow> False)
      | _ \<Rightarrow> go_trim left = go_trim right)"

definition wrapBatchInputFileLineError :: "nat \<Rightarrow> go_error \<Rightarrow> go_error" where
  "wrapBatchInputFileLineError lineNo err =
     (let wrapped = (\<lambda>m. NewInvalidRequestError (''batch input file line '' @ decimal lineNo @ '': '' @ m) (Some err))
      in case as_gateway err of
           Some g \<Rightarrow> if ge_type g = ErrorTypeInvalidRequest then wrapped (ge_message g) else err
         | None \<Rightarrow> wrapped (error_string err))"

text \<open>\<open>bytes.SplitAfter\<close> by line feeds, without the empty end.\<close>

definition lines_after :: "string \<Rightarrow> string list" where
  "lines_after data =
     (let ls = split_on LF data
      in map (\<lambda>l. l @ [LF]) (butlast ls) @ (if last ls = [] then [] else [last ls]))"

definition line_text :: "string \<Rightarrow> string" where
  "line_text raw = trim_suffix (trim_suffix raw [LF]) [CHR 0x0D]"

text \<open>One line: what is written for it, its hint, and whether it was changed.\<close>

definition rewrite_line ::
  "batch_json \<Rightarrow> string \<Rightarrow> operation list \<Rightarrow> 's item_rewrite \<Rightarrow> nat \<Rightarrow> string \<Rightarrow> string_map \<Rightarrow> 's \<Rightarrow>
   (go_error + string \<times> string_map \<times> bool) \<times> 's" where
  "rewrite_line J ep operations rewrite lineNo raw hints s =
     (if go_trim (line_text raw) = [] then (Inr (raw, hints, False), s)
      else case bj_item J (line_text raw) of
          Inl err \<Rightarrow> (Inl (item_error ''invalid batch input file line '' lineNo err), s)
        | Inr item \<Rightarrow>
            let hints = recordBatchEndpointHint J ep item hints
            in case MaybeDecodeKnownBatchItemRequest J ep item operations of
                 Inl err \<Rightarrow> (Inl (wrapBatchInputFileLineError lineNo err), s)
               | Inr None \<Rightarrow> (Inr (raw, hints, False), s)
               | Inr (Some decoded) \<Rightarrow>
                   (case rewrite item decoded s of
                      (Inl err, s) \<Rightarrow> (Inl (wrapBatchInputFileLineError lineNo err), s)
                    | (Inr body, s) \<Rightarrow>
                        if jsonSemanticallyEqual J (ri_Body item) body then (Inr (raw, hints, False), s)
                        else case bj_marshal_item J (item\<lparr>ri_Body := body\<rparr>) of
                            Inl err \<Rightarrow>
                              (Inl (NewInvalidRequestError (''failed to encode batch input file line '' @ decimal lineNo) (Some err)), s)
                          | Inr encoded \<Rightarrow>
                              (Inr (encoded @ (if has_suffix raw [LF] then [LF] else []), hints, True), s)))"

fun rewrite_lines ::
  "batch_json \<Rightarrow> string \<Rightarrow> operation list \<Rightarrow> 's item_rewrite \<Rightarrow> nat \<Rightarrow> string list \<Rightarrow> string_map \<Rightarrow> 's \<Rightarrow>
   (go_error + string \<times> string_map \<times> bool) \<times> 's" where
  "rewrite_lines J ep operations rewrite lineNo [] hints s = (Inr ([], hints, False), s)"
| "rewrite_lines J ep operations rewrite lineNo (raw # raws) hints s =
     (case rewrite_line J ep operations rewrite lineNo raw hints s of
        (Inl err, s) \<Rightarrow> (Inl err, s)
      | (Inr (out, hints, changed), s) \<Rightarrow>
          (case rewrite_lines J ep operations rewrite (Suc lineNo) raws hints s of
             (Inl err, s) \<Rightarrow> (Inl err, s)
           | (Inr (out', hints, changed'), s) \<Rightarrow> (Inr (out @ out', hints, changed \<or> changed'), s)))"

definition rewriteBatchJSONLContent ::
  "batch_json \<Rightarrow> string \<Rightarrow> operation list \<Rightarrow> 's item_rewrite \<Rightarrow> string \<Rightarrow> 's \<Rightarrow>
   (go_error + string \<times> string_map \<times> bool) \<times> 's" where
  "rewriteBatchJSONLContent J ep operations rewrite data s =
     rewrite_lines J ep operations rewrite 1 (lines_after data) [] s"

definition rewriteInputFileBatch ::
  "batch_json \<Rightarrow> string \<Rightarrow> batch_request \<Rightarrow> 's file_ops \<Rightarrow> operation list \<Rightarrow> 's item_rewrite \<Rightarrow> 's \<Rightarrow>
   (go_error + batch_request \<times> string_map \<times> string \<times> string) \<times> 's" where
  \<comment> \<open>the request, the hints, the original and the rewritten file\<close>
  "rewriteInputFileBatch J providerType req F operations rewrite s =
     (case fo_GetFileContent F providerType (bq_InputFileID req) s of
        (Inl err, s) \<Rightarrow> (Inl err, s)
      | (Inr None, s) \<Rightarrow>
          (Inl (NewProviderError providerType 502 ''provider returned empty file content response'' None), s)
      | (Inr (Some (fname, data)), s) \<Rightarrow>
          (case rewriteBatchJSONLContent J (bq_Endpoint req) operations rewrite data s of
             (Inl err, s) \<Rightarrow> (Inl err, s)
           | (Inr (content, hints, False), s) \<Rightarrow> (Inr (req, hints, bq_InputFileID req, []), s)
           | (Inr (content, hints, True), s) \<Rightarrow>
               (case fo_CreateFile F providerType
                       (if go_trim fname = [] then ''batch-input.jsonl'' else go_trim fname) content s of
                  (Inl err, s) \<Rightarrow> (Inl err, s)
                | (Inr created, s) \<Rightarrow>
                    if created = None \<or> go_trim (the created) = []
                    then (Inl (NewProviderError providerType 502
                                 ''provider returned empty file object for rewritten batch input'' None), s)
                    else (Inr (req\<lparr>bq_InputFileID := the created\<rparr>, hints, bq_InputFileID req, the created), s))))"

definition merge_maps :: "string_map \<Rightarrow> string_map \<Rightarrow> string_map" where
  "merge_maps dst src = foldl (\<lambda>m (k, v). AList.update k v m) dst src"

definition RewriteBatchSource ::
  "batch_json \<Rightarrow> string \<Rightarrow> batch_request option \<Rightarrow> 's file_ops option \<Rightarrow> operation list \<Rightarrow> 's item_rewrite option \<Rightarrow> 's \<Rightarrow>
   (go_error + rewrite_result) \<times> 's" where
  "RewriteBatchSource J providerType req0 F operations rewrite0 s =
     (case (req0, rewrite0) of
        (None, _) \<Rightarrow> (Inl (NewInvalidRequestError ''batch request is required'' None), s)
      | (_, None) \<Rightarrow> (Inl (NewInvalidRequestError ''batch rewrite function is required'' None), s)
      | (Some req, Some rewrite) \<Rightarrow>
          (case rewriteInlineBatchItems J (bq_Endpoint req) operations rewrite 0 (bq_Requests req) [] s of
             (Inl err, s) \<Rightarrow> (Inl err, s)
           | (Inr (items, hints), s) \<Rightarrow>
               let forward = req\<lparr>bq_Requests := items\<rparr>
               in if go_trim (bq_InputFileID forward) = []
                  then (Inr \<lparr>rr_Request = Some forward, rr_RequestEndpointHints = map_or_nil hints,
                             rr_OriginalInputFileID = [], rr_RewrittenInputFileID = []\<rparr>, s)
                  else case F of
                      None \<Rightarrow>
                        (Inl (NewInvalidRequestError ''file routing is not supported by the current provider router'' None), s)
                    | Some F \<Rightarrow>
                        (case rewriteInputFileBatch J providerType forward F operations rewrite s of
                           (Inl err, s) \<Rightarrow> (Inl err, s)
                         | (Inr (forward, fileHints, original, rewritten), s) \<Rightarrow>
                             (Inr \<lparr>rr_Request = Some forward,
                                   rr_RequestEndpointHints = map_or_nil (merge_maps hints fileHints),
                                   rr_OriginalInputFileID = original, rr_RewrittenInputFileID = rewritten\<rparr>, s))))"


section \<open>Virtual models in batches\<close>

fun with_model :: "string \<Rightarrow> canonical_request \<Rightarrow> canonical_request option" where
  "with_model m (CanonicalChat _ _ r) = Some (CanonicalChat m [] r)"
| "with_model m (CanonicalResponses _ _ r) = Some (CanonicalResponses m [] r)"
| "with_model m (CanonicalEmbedding _ _ r) = Some (CanonicalEmbedding m [] r)"
| "with_model m (CanonicalBatch _) = None"

definition rewriteDecodedBatchItem :: "batch_json \<Rightarrow> canonical_request \<Rightarrow> model_selector \<Rightarrow> go_error + string" where
  "rewriteDecodedBatchItem J request resolved =
     (case with_model (ms_Model resolved) request of
        None \<Rightarrow> Inl (NewInvalidRequestError ''unsupported batch item request'' None)
      | Some forward \<Rightarrow>
          (case bj_encode J forward of
             Inl err \<Rightarrow> Inl (NewInvalidRequestError ''failed to encode batch item'' (Some err))
           | Inr body \<Rightarrow> Inr body))"

text \<open>\<open>route\<close> is \<open>resolveRedirectRoutableSelector\<close> with the batch's provider type.\<close>

definition rewriteBatchItem ::
  "batch_json \<Rightarrow> (requested_selector \<Rightarrow> 's \<Rightarrow> (go_error + model_selector) \<times> 's) \<Rightarrow>
   (model_selector \<Rightarrow> 's \<Rightarrow> go_error option) option \<Rightarrow> 's item_rewrite" where
  "rewriteBatchItem J route validate item decoded s =
     (case decoded_RequestedModelSelector decoded of
        Inl err \<Rightarrow> (Inl (NewInvalidRequestError (error_string err) (Some err)), s)
      | Inr requested \<Rightarrow>
          (case route requested s of
             (Inl err, s) \<Rightarrow> (Inl err, s)
           | (Inr resolved, s) \<Rightarrow>
               (case (case validate of None \<Rightarrow> None | Some v \<Rightarrow> v resolved s) of
                  Some err \<Rightarrow> (Inl err, s)
                | None \<Rightarrow> (rewriteDecodedBatchItem J (di_Request decoded) resolved, s))))"

definition batch_operations :: "operation list" where
  "batch_operations = [OperationChatCompletions, OperationResponses, OperationEmbeddings]"

type_synonym 's preparer = "string \<Rightarrow> batch_request \<Rightarrow> 's \<Rightarrow> (go_error + rewrite_result option) \<times> 's"

definition vm_PrepareBatchRequest ::
  "batch_json \<Rightarrow> (string \<Rightarrow> requested_selector \<Rightarrow> 's \<Rightarrow> (go_error + model_selector) \<times> 's) \<Rightarrow>
   (model_selector \<Rightarrow> 's \<Rightarrow> go_error option) option \<Rightarrow> 's file_ops option \<Rightarrow> 's preparer" where
  "vm_PrepareBatchRequest J route validate F providerType req s =
     (case RewriteBatchSource J providerType (Some req) F batch_operations
             (Some (rewriteBatchItem J (route providerType) validate)) s of
        (Inl err, s) \<Rightarrow> (Inl err, s)
      | (Inr r, s) \<Rightarrow> (Inr (Some r), s))"

section \<open>A chain of preparers\<close>

definition MergeEndpointHints :: "string_map option \<Rightarrow> string_map option \<Rightarrow> string_map option" where
  "MergeEndpointHints left right =
     (let l = (case left of None \<Rightarrow> [] | Some m \<Rightarrow> m); r = (case right of None \<Rightarrow> [] | Some m \<Rightarrow> m)
      in if l = [] then map_or_nil r else Some (merge_maps l r))"

text \<open>Whether the file was deleted.\<close>

definition CleanupFile :: "'s file_ops option \<Rightarrow> string \<Rightarrow> string \<Rightarrow> 's \<Rightarrow> bool \<times> 's" where
  "CleanupFile F providerType fileID0 s =
     (let fileID = go_trim fileID0
      in case F of
           None \<Rightarrow> (False, s)
         | Some F \<Rightarrow>
             if fileID = [] then (False, s)
             else case fo_DeleteFile F providerType fileID s of (err, s) \<Rightarrow> (err = None, s))"

record chain_state =
  ch_current :: batch_request
  ch_original :: string
  ch_rewritten :: string
  ch_hints :: "string_map option"

definition chain_result :: "'s file_ops option \<Rightarrow> string \<Rightarrow> rewrite_result \<Rightarrow> chain_state \<Rightarrow> 's \<Rightarrow> chain_state \<times> 's" where
  "chain_result F providerType r ch s =
     (let rewritten = go_trim (rr_RewrittenInputFileID r);
          s = (if rewritten \<noteq> [] \<and> ch_rewritten ch \<noteq> [] \<and> ch_rewritten ch \<noteq> rewritten
               then snd (CleanupFile F providerType (ch_rewritten ch) s) else s)
      in (\<lparr>ch_current = (case rr_Request r of None \<Rightarrow> ch_current ch | Some q \<Rightarrow> q),
           ch_original = (if ch_original ch = [] then go_trim (rr_OriginalInputFileID r) else ch_original ch),
           ch_rewritten = (if rewritten \<noteq> [] then rewritten else ch_rewritten ch),
           ch_hints = MergeEndpointHints (ch_hints ch) (rr_RequestEndpointHints r)\<rparr>, s))"

fun chain_run ::
  "'s file_ops option \<Rightarrow> string \<Rightarrow> 's preparer list \<Rightarrow> chain_state \<Rightarrow> 's \<Rightarrow> (go_error + chain_state) \<times> 's" where
  "chain_run F providerType [] ch s = (Inr ch, s)"
| "chain_run F providerType (prepare # preparers) ch s =
     (case prepare providerType (ch_current ch) s of
        (Inl err, s) \<Rightarrow> (Inl err, snd (CleanupFile F providerType (ch_rewritten ch) s))
      | (Inr None, s) \<Rightarrow> chain_run F providerType preparers ch s
      | (Inr (Some r), s) \<Rightarrow>
          (case chain_result F providerType r ch s of (ch, s) \<Rightarrow> chain_run F providerType preparers ch s))"

definition chain_PrepareBatchRequest :: "'s file_ops option \<Rightarrow> 's preparer list \<Rightarrow> 's preparer" where
  "chain_PrepareBatchRequest F preparers providerType req s =
     (case chain_run F providerType preparers
             \<lparr>ch_current = req, ch_original = [], ch_rewritten = [], ch_hints = None\<rparr> s of
        (Inl err, s) \<Rightarrow> (Inl err, s)
      | (Inr ch, s) \<Rightarrow>
          (Inr (Some \<lparr>rr_Request = Some (ch_current ch), rr_RequestEndpointHints = ch_hints ch,
                      rr_OriginalInputFileID = ch_original ch, rr_RewrittenInputFileID = ch_rewritten ch\<rparr>), s))"

text \<open>\<open>None\<close> are the preparers that are nil.\<close>

definition ComposeBatchRequestPreparers :: "'s file_ops option \<Rightarrow> 's preparer option list \<Rightarrow> 's preparer option" where
  "ComposeBatchRequestPreparers F preparers =
     (let filtered = List.map_filter (\<lambda>p. p) preparers
      in if filtered = [] then None else Some (chain_PrepareBatchRequest F filtered))"

record preparation =
  bp_OriginalInputFileID :: string
  bp_RewrittenInputFileID :: string

definition no_preparation :: preparation where
  "no_preparation = \<lparr>bp_OriginalInputFileID = [], bp_RewrittenInputFileID = []\<rparr>"

definition RecordInputFileRewrite :: "string \<Rightarrow> string \<Rightarrow> preparation \<Rightarrow> preparation" where
  "RecordInputFileRewrite original0 rewritten0 m =
     (let original = go_trim original0; rewritten = go_trim rewritten0
      in if original = [] \<or> rewritten = [] \<or> original = rewritten then m
         else \<lparr>bp_OriginalInputFileID =
                 (if bp_OriginalInputFileID m = [] then original else bp_OriginalInputFileID m),
               bp_RewrittenInputFileID = rewritten\<rparr>)"

definition RecordResult :: "rewrite_result \<Rightarrow> preparation \<Rightarrow> preparation" where
  "RecordResult r m = RecordInputFileRewrite (rr_OriginalInputFileID r) (rr_RewrittenInputFileID r) m"

section \<open>Cleaning up\<close>

definition cleanupPreparedBatchInputFile :: "'s file_ops option \<Rightarrow> string \<Rightarrow> string \<Rightarrow> 's \<Rightarrow> 's" where
  "cleanupPreparedBatchInputFile F providerType fileID s = snd (CleanupFile F providerType fileID s)"

definition cleanupStoredBatchRewrittenInputFile ::
  "'s file_ops option \<Rightarrow> stored_batch \<Rightarrow> 's \<Rightarrow> (bool \<times> stored_batch) \<times> 's" where
  "cleanupStoredBatchRewrittenInputFile F stored s =
     (case sb_Batch stored of
        None \<Rightarrow> ((False, stored), s)
      | Some b \<Rightarrow>
          (case CleanupFile F (br_Provider b) (sb_RewrittenInputFileID stored) s of
             (False, s) \<Rightarrow> ((False, stored), s)
           | (True, s) \<Rightarrow> ((True, stored\<lparr>sb_RewrittenInputFileID := []\<rparr>), s)))"

section \<open>What the rewriting of a file keeps\<close>

text \<open>The lines make up the file, and each is kept as it is or is an item with a new body.\<close>

lemma lines_after_concat: "concat (lines_after data) = data"
proof -
  have join: "concat (map (\<lambda>l. l @ [LF]) (butlast (split_on LF s))) @ last (split_on LF s) = s" for s
    by (induction s) (auto split: list.splits)
  show ?thesis
  proof (cases "last (split_on LF data) = []")
    case True
    then show ?thesis using join [of data] by (simp add: lines_after_def)
  next
    case False
    then show ?thesis using join [of data] by (simp add: lines_after_def Let_def)
  qed
qed

definition rewritten_line ::
  "batch_json \<Rightarrow> string \<Rightarrow> operation list \<Rightarrow> string \<Rightarrow> string \<Rightarrow> bool" where
  \<comment> \<open>\<open>out\<close> is the line with another body for its item, which is one of the wanted operations\<close>
  "rewritten_line J ep operations raw out \<longleftrightarrow>
     (\<exists>item decoded body encoded.
        bj_item J (line_text raw) = Inr item \<and> MaybeDecodeKnownBatchItemRequest J ep item operations = Inr (Some decoded)
        \<and> \<not> jsonSemanticallyEqual J (ri_Body item) body
        \<and> bj_marshal_item J (item\<lparr>ri_Body := body\<rparr>) = Inr encoded
        \<and> out = encoded @ (if has_suffix raw [LF] then [LF] else []))"

lemma rewrite_line_kept:
  assumes "rewrite_line J ep operations rewrite i raw hints s = (Inr (out, hints', changed), s')"
  shows "(\<not> changed \<and> out = raw) \<or> (changed \<and> rewritten_line J ep operations raw out)"
  using assms
  by (auto simp: rewrite_line_def rewritten_line_def Let_def split: if_splits sum.splits option.splits prod.splits)

lemma rewrite_lines_kept:
  "rewrite_lines J ep operations rewrite i raws hints s = (Inr (out, hints', changed), s') \<Longrightarrow>
   \<exists>outs. out = concat outs \<and> list_all2 (\<lambda>raw l. l = raw \<or> rewritten_line J ep operations raw l) raws outs
     \<and> (\<not> changed \<longrightarrow> outs = raws)"
proof (induction J ep operations rewrite i raws hints s arbitrary: out hints' changed s' rule: rewrite_lines.induct)
  case (1 J ep operations rewrite i hints s)
  then show ?case by simp
next
  case (2 J ep operations rewrite i raw raws hints s)
  from 2(2) obtain o1 h1 c1 s1 o2 h2 c2 where
    l: "rewrite_line J ep operations rewrite i raw hints s = (Inr (o1, h1, c1), s1)"
      "rewrite_lines J ep operations rewrite (Suc i) raws h1 s1 = (Inr (o2, h2, c2), s')"
      "out = o1 @ o2" "changed = (c1 \<or> c2)"
    by (auto split: prod.splits sum.splits)
  from 2(1) [OF l(1) [symmetric] refl refl refl l(2)] obtain outs where
    outs: "o2 = concat outs" "list_all2 (\<lambda>raw l. l = raw \<or> rewritten_line J ep operations raw l) raws outs"
      "\<not> c2 \<longrightarrow> outs = raws" by blast
  show ?case using rewrite_line_kept [OF l(1)] outs l(3,4) by (intro exI [of _ "o1 # outs"]) auto
qed


text \<open>
  A batch file keeps its lines: each line of the rewritten file is the line it was, byte for byte, or
  the same item with another body, and a file of which nothing was rewritten is unchanged.
\<close>

lemma batch_file_keeps_lines:
  assumes "rewriteBatchJSONLContent J ep operations rewrite data s = (Inr (out, hints, changed), s')"
  shows "(\<exists>outs. out = concat outs
      \<and> list_all2 (\<lambda>raw l. l = raw \<or> rewritten_line J ep operations raw l) (lines_after data) outs)
    \<and> (\<not> changed \<longrightarrow> out = data)"
  using rewrite_lines_kept [OF assms [unfolded rewriteBatchJSONLContent_def]] lines_after_concat by blast

section \<open>Files\<close>

text \<open>What is relied on of a provider's files: only a file that is there can be read, a new file has a new
  id without spaces, and what is deleted is gone. \<open>files\<close> are the ids of the files at the provider.\<close>

definition file_laws :: "'s file_ops \<Rightarrow> ('s \<Rightarrow> string set) \<Rightarrow> bool" where
  "file_laws F files \<longleftrightarrow>
     (\<forall>pt i s r s'. fo_GetFileContent F pt i s = (r, s') \<longrightarrow>
          files s' = files s \<and> (case r of Inr (Some _) \<Rightarrow> go_trim i \<in> files s | _ \<Rightarrow> True))
     \<and> (\<forall>pt n c s r s'. fo_CreateFile F pt n c s = (r, s') \<longrightarrow>
          (case r of
             Inr (Some i) \<Rightarrow> i \<noteq> [] \<and> go_trim i = i \<and> i \<notin> files s \<and> files s' = insert i (files s)
           | _ \<Rightarrow> files s' = files s))
     \<and> (\<forall>pt i s. fst (fo_DeleteFile F pt i s) = None \<and> files (snd (fo_DeleteFile F pt i s)) = files s - {i})"

definition one_file :: "string \<Rightarrow> string set" where
  "one_file i = (if i = [] then {} else {i})"

text \<open>A preparer that leaves nothing behind: at most the file it says it made.\<close>

definition tidy_result :: "('s \<Rightarrow> string set) \<Rightarrow> 's \<Rightarrow> rewrite_result \<Rightarrow> 's \<Rightarrow> bool" where
  "tidy_result files s x s' \<longleftrightarrow>
     (let new = rr_RewrittenInputFileID x; original = go_trim (rr_OriginalInputFileID x)
      in go_trim new = new \<and> new \<notin> files s \<and> files s' = files s \<union> one_file new
         \<and> (original \<noteq> [] \<longrightarrow> original \<in> files s) \<and> (new \<noteq> [] \<longrightarrow> original \<noteq> []))"

definition tidy :: "('s \<Rightarrow> string set) \<Rightarrow> 's preparer \<Rightarrow> bool" where
  "tidy files prepare \<longleftrightarrow>
     (\<forall>pt q s r s'. prepare pt q s = (r, s') \<longrightarrow>
        (case r of Inr (Some x) \<Rightarrow> tidy_result files s x s' | _ \<Rightarrow> files s' = files s))"

definition no_files :: "('s \<Rightarrow> string set) \<Rightarrow> 's item_rewrite \<Rightarrow> bool" where
  "no_files files rewrite \<longleftrightarrow> (\<forall>item decoded s. files (snd (rewrite item decoded s)) = files s)"

lemma no_filesD: "no_files files rewrite \<Longrightarrow> rewrite item decoded s = (r, s') \<Longrightarrow> files s' = files s"
  unfolding no_files_def by (metis snd_conv)

lemma rewriteInline_files:
  "no_files files rewrite \<Longrightarrow> rewriteInlineBatchItems J ep operations rewrite i items hints s = (r, s') \<Longrightarrow> files s' = files s"
proof (induction items arbitrary: i hints s r s')
  case (Cons item items)
  from Cons.prems(2) show ?case
    by (auto simp: Let_def split: sum.splits option.splits prod.splits
        dest!: Cons.IH [OF Cons.prems(1)] dest: no_filesD [OF Cons.prems(1)])
qed simp

lemma rewrite_line_files:
  "no_files files rewrite \<Longrightarrow> rewrite_line J ep operations rewrite i raw hints s = (r, s') \<Longrightarrow> files s' = files s"
  by (auto simp: rewrite_line_def Let_def split: if_splits sum.splits option.splits prod.splits dest: no_filesD)

lemma rewrite_lines_files:
  "no_files files rewrite \<Longrightarrow> rewrite_lines J ep operations rewrite i raws hints s = (r, s') \<Longrightarrow> files s' = files s"
proof (induction raws arbitrary: i hints s r s')
  case (Cons raw raws)
  from Cons.prems(2) show ?case
    by (auto split: sum.splits prod.splits
        dest!: Cons.IH [OF Cons.prems(1)] rewrite_line_files [OF Cons.prems(1)])
qed simp

lemma rewriteInputFile_files:
  assumes "file_laws F files" "no_files files rewrite"
    and "rewriteInputFileBatch J pt req F operations rewrite s = (r, s')"
  shows "case r of
      Inl _ \<Rightarrow> files s' = files s
    | Inr (_, _, original, new) \<Rightarrow> original = bq_InputFileID req \<and> go_trim original \<in> files s
        \<and> (go_trim new = new \<and> new \<notin> files s \<and> files s' = files s \<union> one_file new \<or> new = [] \<and> files s' = files s)"
proof -
  obtain g s1 where g: "fo_GetFileContent F pt (bq_InputFileID req) s = (g, s1)" by force
  then have f1: "files s1 = files s" and read: "case g of Inr (Some _) \<Rightarrow> go_trim (bq_InputFileID req) \<in> files s | _ \<Rightarrow> True"
    using assms(1) unfolding file_laws_def by blast+
  show ?thesis
  proof (cases g)
    case (Inl err)
    then show ?thesis using assms(3) f1 by (auto simp: rewriteInputFileBatch_def g)
  next
    case got: (Inr x)
    show ?thesis
    proof (cases x)
      case None
      then show ?thesis using assms(3) f1 got by (auto simp: rewriteInputFileBatch_def g)
    next
      case (Some fl)
      obtain fname data where fl: "fl = (fname, data)" by (cases fl)
      obtain c s2 where c: "rewriteBatchJSONLContent J (bq_Endpoint req) operations rewrite data s1 = (c, s2)" by force
      then have f2: "files s2 = files s"
        using rewrite_lines_files [OF assms(2)] f1 by (simp add: rewriteBatchJSONLContent_def)
      show ?thesis
      proof (cases c)
        case (Inl err)
        then show ?thesis using assms(3) f2 got Some c fl by (auto simp: rewriteInputFileBatch_def g)
      next
        case (Inr y)
        obtain content hints changed where y: "y = (content, hints, changed)" by (cases y)
        show ?thesis
        proof (cases changed)
          case False
          then show ?thesis using assms(3) f2 got Some c fl Inr y read by (auto simp: rewriteInputFileBatch_def g)
        next
          case True
          let ?n = "if go_trim fname = [] then ''batch-input.jsonl'' else go_trim fname"
          obtain m s3 where m: "fo_CreateFile F pt ?n content s2 = (m, s3)" by force
          then have laws: "case m of
              Inr (Some i) \<Rightarrow> i \<noteq> [] \<and> go_trim i = i \<and> i \<notin> files s2 \<and> files s3 = insert i (files s2)
            | _ \<Rightarrow> files s3 = files s2"
            using assms(1) unfolding file_laws_def by blast
          have "(r, s') = (case m of
              Inl err \<Rightarrow> (Inl err, s3)
            | Inr created \<Rightarrow>
                if created = None \<or> go_trim (the created) = []
                then (Inl (NewProviderError pt 502 ''provider returned empty file object for rewritten batch input'' None), s3)
                else (Inr (req\<lparr>bq_InputFileID := the created\<rparr>, hints, bq_InputFileID req, the created), s3))"
            using assms(3) got Some c fl Inr y True m by (simp add: rewriteInputFileBatch_def g)
          then show ?thesis
            using laws f2 read got Some by (auto simp: one_file_def split: sum.splits option.splits if_splits)
        qed
      qed
    qed
  qed
qed

lemma vm_preparer_tidy:
  assumes "\<And>G. F = Some G \<Longrightarrow> file_laws G files" "\<And>s. [] \<notin> files s"
    and "\<And>pt rq s. files (snd (route pt rq s)) = files s"
  shows "tidy files (vm_PrepareBatchRequest J route validate F)"
proof -
  have none: "no_files files (rewriteBatchItem J (route pt) validate)" for pt
    using assms(3) by (auto simp: no_files_def rewriteBatchItem_def split: sum.split option.split prod.split) (metis snd_conv)+
  show ?thesis
    unfolding tidy_def
  proof (intro allI impI)
    fix pt q s r s' assume p: "vm_PrepareBatchRequest J route validate F pt q s = (r, s')"
    obtain x s1 where x: "rewriteInlineBatchItems J (bq_Endpoint q) batch_operations (rewriteBatchItem J (route pt) validate) 0
        (bq_Requests q) [] s = (x, s1)" by force
    then have f1: "files s1 = files s" by (rule rewriteInline_files [OF none])
    show "case r of Inr (Some x) \<Rightarrow> tidy_result files s x s' | _ \<Rightarrow> files s' = files s"
    proof (cases x)
      case (Inl err)
      then show ?thesis using p f1 by (auto simp: vm_PrepareBatchRequest_def RewriteBatchSource_def x)
    next
      case (Inr y)
      obtain items hints where y: "y = (items, hints)" by (cases y)
      show ?thesis
      proof (cases "go_trim (bq_InputFileID q) = []")
        case True
        then show ?thesis using p f1 Inr y assms(2)
          by (auto simp: vm_PrepareBatchRequest_def RewriteBatchSource_def x one_file_def tidy_result_def)
      next
        case False
        show ?thesis
        proof (cases F)
          case None
          then show ?thesis using p f1 Inr y False by (auto simp: vm_PrepareBatchRequest_def RewriteBatchSource_def x)
        next
          case (Some G)
          obtain z s2 where z: "rewriteInputFileBatch J pt (q\<lparr>bq_Requests := items\<rparr>) G batch_operations
              (rewriteBatchItem J (route pt) validate) s1 = (z, s2)" by force
          note rf = rewriteInputFile_files [OF assms(1) [OF Some] none z, unfolded f1]
          show ?thesis
            using p Inr y False Some z rf assms(2) [of s]
            by (auto simp: vm_PrepareBatchRequest_def RewriteBatchSource_def x one_file_def tidy_result_def Let_def split: sum.splits prod.splits)
        qed
      qed
    qed
  qed
qed

text \<open>A chain of tidy preparers is tidy: a file that a later preparer replaced, and the file of a chain
  that fails, are deleted.\<close>

lemma cleanup_files:
  assumes "file_laws G files" "go_trim i = i"
  shows "files (snd (CleanupFile (Some G) pt i s)) = files s - one_file i"
proof -
  have "files (snd (fo_DeleteFile G pt i s)) = files s - {i}" using assms(1) by (simp only: file_laws_def)
  then show ?thesis using assms(2) by (simp add: CleanupFile_def one_file_def case_prod_beta)
qed

definition chain_inv :: "('s \<Rightarrow> string set) \<Rightarrow> string set \<Rightarrow> chain_state \<Rightarrow> 's \<Rightarrow> bool" where
  "chain_inv files base ch s \<longleftrightarrow>
     files s = base \<union> one_file (ch_rewritten ch) \<and> ch_rewritten ch \<notin> base \<and> go_trim (ch_rewritten ch) = ch_rewritten ch
     \<and> (ch_original ch \<noteq> [] \<longrightarrow> ch_original ch \<in> base) \<and> (ch_rewritten ch \<noteq> [] \<longrightarrow> ch_original ch \<noteq> [])
     \<and> go_trim (ch_original ch) = ch_original ch"

lemma chain_result_parts:
  assumes "chain_result F pt y ch s1 = (ch2, s2)" "go_trim (rr_RewrittenInputFileID y) = i"
  shows "ch_rewritten ch2 = (if i \<noteq> [] then i else ch_rewritten ch)"
    "s2 = (if i \<noteq> [] \<and> ch_rewritten ch \<noteq> [] \<and> ch_rewritten ch \<noteq> i then snd (CleanupFile F pt (ch_rewritten ch) s1) else s1)"
    "ch_original ch2 = (if ch_original ch = [] then go_trim (rr_OriginalInputFileID y) else ch_original ch)"
  using assms(1) unfolding chain_result_def Let_def assms(2) by auto

lemma chain_result_inv:
  assumes "file_laws G files" "chain_inv files base ch s" "chain_result (Some G) pt y ch s1 = (ch2, s2)"
    and "tidy_result files s y s1"
  shows "chain_inv files base ch2 s2"
proof -
  define i old new_orig where io: "i = rr_RewrittenInputFileID y" "old = ch_rewritten ch"
    "new_orig = go_trim (rr_OriginalInputFileID y)"
  have inv: "files s = base \<union> one_file old" "old \<notin> base" "go_trim old = old" "ch_original ch \<noteq> [] \<longrightarrow> ch_original ch \<in> base"
    "old \<noteq> [] \<longrightarrow> ch_original ch \<noteq> []" "go_trim (ch_original ch) = ch_original ch"
    using assms(2) by (simp_all add: chain_inv_def io)
  have drop: "files (snd (CleanupFile (Some G) pt old s1)) = files s1 - one_file old"
    by (rule cleanup_files [OF assms(1) inv(3)])
  have y: "go_trim i = i" "i \<notin> files s" "files s1 = files s \<union> one_file i" "new_orig \<noteq> [] \<longrightarrow> new_orig \<in> files s"
    "i \<noteq> [] \<longrightarrow> new_orig \<noteq> []" "go_trim new_orig = new_orig"
    using assms(4) by (simp_all add: tidy_result_def Let_def io)
  note parts = chain_result_parts [OF assms(3), of i, unfolded io(1), OF y(1) [unfolded io(1)], folded io]
  have orig: "(ch_original ch2 \<noteq> [] \<longrightarrow> ch_original ch2 \<in> base) \<and> (ch_rewritten ch2 \<noteq> [] \<longrightarrow> ch_original ch2 \<noteq> [])
    \<and> go_trim (ch_original ch2) = ch_original ch2"
    using inv(1,4,5,6) y(4,5,6) by (auto simp: parts one_file_def)
  show ?thesis
  proof (cases "i = [] \<or> old = []")
    case True
    then show ?thesis unfolding chain_inv_def using orig y(1-3) inv(1-3) by (auto simp: parts one_file_def)
  next
    case False
    then have "old \<noteq> i" using y(2) inv(1) by (auto simp: one_file_def)
    with False have "files s2 = files s1 - one_file old" "ch_rewritten ch2 = i" by (simp_all add: parts drop)
    then show ?thesis unfolding chain_inv_def using orig y(1-3) inv(1-3) False by (auto simp: one_file_def)
  qed
qed

lemma chain_run_files:
  assumes "file_laws G files" "\<And>p. p \<in> set ps \<Longrightarrow> tidy files p" "chain_inv files base ch s"
    and "chain_run (Some G) pt ps ch s = (r, s')"
  shows "case r of Inl _ \<Rightarrow> files s' = base | Inr ch' \<Rightarrow> chain_inv files base ch' s'"
  using assms(2-4)
proof (induction ps arbitrary: ch s)
  case Nil
  then show ?case by auto
next
  case (Cons p ps)
  obtain x s1 where x: "p pt (ch_current ch) s = (x, s1)" by force
  have "tidy files p" using Cons.prems(1) by simp
  from this [unfolded tidy_def, rule_format, OF x]
  have t: "case x of Inr (Some y) \<Rightarrow> tidy_result files s y s1 | _ \<Rightarrow> files s1 = files s" .
  have rest: "\<And>q. q \<in> set ps \<Longrightarrow> tidy files q" using Cons.prems(1) by simp
  have inv: "files s = base \<union> one_file (ch_rewritten ch)" "ch_rewritten ch \<notin> base"
    "go_trim (ch_rewritten ch) = ch_rewritten ch" using Cons.prems(2) by (simp_all add: chain_inv_def)
  show ?case
  proof (cases x)
    case (Inl err)
    then have "r = Inl err" "s' = snd (CleanupFile (Some G) pt (ch_rewritten ch) s1)"
      using Cons.prems(3) by (simp_all add: x)
    moreover have "files s1 - one_file (ch_rewritten ch) = base"
      using t Inl inv by (auto simp: one_file_def)
    ultimately show ?thesis using cleanup_files [OF assms(1) inv(3), of pt s1] by simp
  next
    case got: (Inr o1)
    show ?thesis
    proof (cases o1)
      case None
      then have "chain_inv files base ch s1" using t got Cons.prems(2) by (simp add: chain_inv_def)
      from Cons.IH [OF rest this] show ?thesis using Cons.prems(3) got None by (simp add: x)
    next
      case (Some y)
      obtain ch2 s2 where c: "chain_result (Some G) pt y ch s1 = (ch2, s2)" by force
      have "chain_inv files base ch2 s2"
        using chain_result_inv [OF assms(1) Cons.prems(2) c] t got Some by simp
      from Cons.IH [OF rest this] show ?thesis using Cons.prems(3) got Some c by (simp add: x)
    qed
  qed
qed

lemma chain_tidy:
  assumes "file_laws G files" "\<And>p. p \<in> set ps \<Longrightarrow> tidy files p" "\<And>s. [] \<notin> files s"
  shows "tidy files (chain_PrepareBatchRequest (Some G) ps)"
  unfolding tidy_def
proof (intro allI impI)
  fix pt q s r s' assume r: "chain_PrepareBatchRequest (Some G) ps pt q s = (r, s')"
  let ?ch = "\<lparr>ch_current = q, ch_original = [], ch_rewritten = [], ch_hints = None\<rparr>"
  obtain x s1 where x: "chain_run (Some G) pt ps ?ch s = (x, s1)" by force
  have "chain_inv files (files s) ?ch s" using assms(3) by (simp add: chain_inv_def one_file_def)
  note c = chain_run_files [OF assms(1,2) this x]
  show "case r of Inr (Some x) \<Rightarrow> tidy_result files s x s' | _ \<Rightarrow> files s' = files s"
    using c r by (cases x) (auto simp: chain_PrepareBatchRequest_def x chain_inv_def tidy_result_def Let_def)
qed

end
