(* ===== verification/BatchUsage.thy ===== *)
theory BatchUsage
  imports BatchRewrite Inference
begin

text \<open>
  What the gateway makes of a provider's answers about a batch: \<open>internal/gateway/batch_helpers.go\<close>
  and \<open>batch_usage.go\<close>. A stored batch is refreshed, and the usage of its results is written once.
\<close>

section \<open>Refreshing a stored batch\<close>

definition SanitizePublicBatchMetadata :: "string_map option \<Rightarrow> string_map option" where
  "SanitizePublicBatchMetadata metadata =
     (case metadata of None \<Rightarrow> None | Some m \<Rightarrow> map_or_nil (public_entries m))"

fun FirstNonEmpty :: "string list \<Rightarrow> string" where
  "FirstNonEmpty [] = []"
| "FirstNonEmpty (v # vs) = (if go_trim v \<noteq> [] then go_trim v else FirstNonEmpty vs)"

definition hasBatchRequestCounts :: "batch_counts \<Rightarrow> bool" where
  "hasBatchRequestCounts c \<longleftrightarrow> bc_Total c \<noteq> 0 \<or> bc_Completed c \<noteq> 0 \<or> bc_Failed c \<noteq> 0"

definition hasBatchUsageSummary :: "batch_usage \<Rightarrow> bool" where
  "hasBatchUsageSummary u \<longleftrightarrow>
     bu_InputTokens u \<noteq> 0 \<or> bu_OutputTokens u \<noteq> 0 \<or> bu_TotalTokens u \<noteq> 0 \<or> bu_InputCost u \<noteq> None
     \<or> bu_OutputCost u \<noteq> None \<or> bu_TotalCost u \<noteq> None"

definition newer :: "'a option \<Rightarrow> 'a option \<Rightarrow> 'a option" where
  "newer up old = (case up of Some x \<Rightarrow> Some x | None \<Rightarrow> old)"

definition merged_metadata :: "string_map option \<Rightarrow> string_map option \<Rightarrow> string_map option" where
  "merged_metadata stored upstream =
     (case upstream of
        None \<Rightarrow> stored
      | Some m \<Rightarrow>
          SanitizePublicBatchMetadata
            (Some (merge_maps (case stored of None \<Rightarrow> [] | Some old \<Rightarrow> old)
               (filter (\<lambda>(k, v). k \<noteq> ''provider'' \<and> k \<noteq> ''provider_batch_id'') m))))"

definition merged_response :: "string \<Rightarrow> batch_response \<Rightarrow> batch_response \<Rightarrow> batch_response" where
  "merged_response original up b =
     b\<lparr>br_Status := FirstNonEmpty [br_Status up, br_Status b],
       br_Endpoint := FirstNonEmpty [br_Endpoint up, br_Endpoint b],
       br_InputFileID := (if go_trim (br_InputFileID b) = [] then FirstNonEmpty [original, br_InputFileID up] else br_InputFileID b),
       br_CompletionWindow := FirstNonEmpty [br_CompletionWindow up, br_CompletionWindow b],
       br_RequestCounts := (if hasBatchRequestCounts (br_RequestCounts up) then br_RequestCounts up else br_RequestCounts b),
       br_Usage := (if hasBatchUsageSummary (br_Usage up) then br_Usage up else br_Usage b),
       br_Results := (if br_Results up \<noteq> [] then br_Results up else br_Results b),
       br_InProgressAt := newer (br_InProgressAt up) (br_InProgressAt b),
       br_CompletedAt := newer (br_CompletedAt up) (br_CompletedAt b),
       br_FailedAt := newer (br_FailedAt up) (br_FailedAt b),
       br_CancellingAt := newer (br_CancellingAt up) (br_CancellingAt b),
       br_CancelledAt := newer (br_CancelledAt up) (br_CancelledAt b),
       br_Metadata := merged_metadata (br_Metadata b) (br_Metadata up)\<rparr>"

definition MergeStoredBatchFromUpstream :: "batch_response option \<Rightarrow> stored_batch \<Rightarrow> stored_batch" where
  "MergeStoredBatchFromUpstream upstream stored =
     (case (sb_Batch stored, upstream) of
        (Some b, Some up) \<Rightarrow> stored\<lparr>sb_Batch := Some (merged_response (sb_OriginalInputFileID stored) up b)\<rparr>
      | _ \<Rightarrow> stored)"

definition IsTerminalBatchStatus :: "string \<Rightarrow> bool" where
  "IsTerminalBatchStatus status \<longleftrightarrow>
     go_to_lower (go_trim status) \<in> {''completed'', ''failed'', ''cancelled'', ''canceled'', ''expired''}"

section \<open>Reading usage\<close>

record usage_codec =
  ux_decode :: "string \<Rightarrow> raw_data option"           \<comment> \<open>a JSON object\<close>
  ux_marshal :: "raw_value \<Rightarrow> string option"
  ux_number :: "string \<Rightarrow> go_float option"           \<comment> \<open>\<open>json.Number.Float64\<close>\<close>
  ux_parse :: parse_float
  ux_sha1 :: "string \<Rightarrow> string"                      \<comment> \<open>the UUID of a seed\<close>

definition decodeJSONMap :: "usage_codec \<Rightarrow> string \<Rightarrow> raw_data option" where
  "decodeJSONMap U raw = (if raw = [] then None else ux_decode U raw)"

definition asJSONMap :: "usage_codec \<Rightarrow> any_value \<Rightarrow> raw_data option" where
  "asJSONMap U v =
     (case v of
        AnyJSON raw \<Rightarrow> decodeJSONMap U raw
      | AnyValue (RawMap m) \<Rightarrow> Some m
      | AnyValue (RawString s) \<Rightarrow> if go_trim s = [] then None else decodeJSONMap U s
      | AnyValue w \<Rightarrow> (case ux_marshal U w of None \<Rightarrow> None | Some raw \<Rightarrow> decodeJSONMap U raw))"

text \<open>A key that is missing reads as the nil value.\<close>

definition field_value :: "raw_data \<Rightarrow> string \<Rightarrow> any_value" where
  "field_value m k = AnyValue (case map_of m k of Some v \<Rightarrow> v | None \<Rightarrow> RawOther)"

definition stringFromAny :: "any_value \<Rightarrow> string" where
  "stringFromAny v = (case v of AnyValue (RawString s) \<Rightarrow> go_trim s | _ \<Rightarrow> [])"

text \<open>A 64-bit machine.\<close>

definition intFromInt64 :: "int \<Rightarrow> int option" where
  "intFromInt64 v = (if - (2 ^ 63) \<le> v \<and> v < 2 ^ 63 then Some v else None)"

definition intFromFloat64 :: "go_float \<Rightarrow> int option" where
  "intFromFloat64 x =
     (case x of
        Fin v \<Rightarrow>
          if v < - (2 ^ 63) \<or> v \<ge> 2 ^ 63 then None
          else if of_int (truncate_rat v) \<noteq> v then None
          else Some (truncate_rat v)
      | _ \<Rightarrow> None)"

definition intFromAny :: "usage_codec \<Rightarrow> raw_value \<Rightarrow> int option" where
  "intFromAny U v =
     (case v of
        RawFloat x \<Rightarrow> intFromFloat64 x
      | RawFloat32 x \<Rightarrow> intFromFloat64 x
      | RawInt n \<Rightarrow> intFromInt64 n
      | RawOtherInt n \<Rightarrow> intFromInt64 n
      | RawNumber s \<Rightarrow>
          (case parse_int64 s of
             Some n \<Rightarrow> intFromInt64 n
           | None \<Rightarrow> (case ux_number U s of Some x \<Rightarrow> intFromFloat64 x | None \<Rightarrow> None))
      | RawString s \<Rightarrow> if go_trim s = [] then None else parse_int64 (go_trim s)
      | RawBool _ \<Rightarrow> None
      | RawMap _ \<Rightarrow> None
      | RawOther \<Rightarrow> None)"

fun readFirstInt :: "usage_codec \<Rightarrow> raw_data \<Rightarrow> string list \<Rightarrow> int option" where
  "readFirstInt U m [] = None"
| "readFirstInt U m (k # ks) =
     (case map_of m k of
        None \<Rightarrow> readFirstInt U m ks
      | Some v \<Rightarrow>
          (case intFromAny U v of
             Some n \<Rightarrow> if n < 0 then readFirstInt U m ks else Some n
           | None \<Rightarrow> readFirstInt U m ks))"

definition or_zero :: "int option \<Rightarrow> int" where
  "or_zero x = (case x of None \<Rightarrow> 0 | Some n \<Rightarrow> n)"

text \<open>Input, output and total tokens; the total is \<open>None\<close> when there is none, and without any usage the
  whole is. Sums of counts are taken to fit in 64 bits.\<close>

definition extractTokenTotals :: "usage_codec \<Rightarrow> raw_data \<Rightarrow> (int \<times> int \<times> int option) option" where
  "extractTokenTotals U m =
     (let i = readFirstInt U m [''input_tokens'', ''prompt_tokens''];
          n = readFirstInt U m [''output_tokens'', ''completion_tokens''];
          t0 = readFirstInt U m [''total_tokens''];
          t = (if t0 = None \<and> i \<noteq> None \<and> n \<noteq> None then Some (or_zero i + or_zero n) else t0)
      in if i = None \<and> n = None \<and> t = None then None else Some (or_zero i, or_zero n, t))"

definition prefixed :: "string \<Rightarrow> raw_data option \<Rightarrow> raw_data \<Rightarrow> raw_data" where
  "prefixed p details raw =
     (case details of None \<Rightarrow> raw | Some m \<Rightarrow> foldl (\<lambda>raw (k, v). AList.update (p @ k) v raw) raw m)"

definition buildBatchUsageRawData :: "usage_codec \<Rightarrow> raw_data \<Rightarrow> batch_response \<Rightarrow> batch_item \<Rightarrow> raw_data" where
  "buildBatchUsageRawData U m b item =
     (let raw = filter (\<lambda>(k, v). k \<notin> {''input_tokens'', ''output_tokens'', ''prompt_tokens'', ''completion_tokens'',
                                      ''total_tokens''}) m;
          raw = prefixed ''prompt_'' (asJSONMap U (field_value m ''prompt_tokens_details'')) raw;
          raw = prefixed ''completion_'' (asJSONMap U (field_value m ''completion_tokens_details'')) raw;
          raw = AList.update ''batch_id'' (RawString (br_ID b)) raw;
          raw = AList.update ''provider_batch_id'' (RawString (br_ProviderBatchID b)) raw;
          raw = AList.update ''batch_result_index'' (RawInt (bi_Index item)) raw;
          raw = (if bi_CustomID item \<noteq> [] then AList.update ''batch_custom_id'' (RawString (bi_CustomID item)) raw else raw)
      in if go_trim (br_Endpoint b) \<noteq> [] then AList.update ''batch_endpoint'' (RawString (go_trim (br_Endpoint b))) raw
         else raw)"

definition deterministicBatchUsageID :: "usage_codec \<Rightarrow> batch_response \<Rightarrow> batch_item \<Rightarrow> string \<Rightarrow> string" where
  "deterministicBatchUsageID U b item providerID =
     ux_sha1 U (FirstNonEmpty [br_ID b, br_ProviderBatchID b] @ ''|'' @ FirstNonEmpty [br_ProviderBatchID b, br_ID b] @ ''|''
       @ decimal_int (bi_Index item) @ ''|'' @ bi_CustomID item @ ''|'' @ providerID)"

section \<open>Writing the usage of results\<close>

text \<open>The record of an item, with its token counts; failed items and items without usage have none.\<close>

definition item_usage ::
  "usage_codec \<Rightarrow> (batch_item \<Rightarrow> stamp) \<Rightarrow> pricing_resolver option \<Rightarrow> string \<Rightarrow> stored_batch \<Rightarrow> batch_response \<Rightarrow> batch_item \<Rightarrow>
   (usage_entry \<times> int \<times> int \<times> int option) option" where
  "item_usage U stamp pricing requestID stored b item =
     (if bi_StatusCode item < 200 \<or> bi_StatusCode item \<ge> 300 then None
      else case asJSONMap U (bi_Response item) of
          None \<Rightarrow> None
        | Some payload \<Rightarrow>
            (case asJSONMap U (field_value payload ''usage'') of
               None \<Rightarrow> None
             | Some usage \<Rightarrow>
                 (case extractTokenTotals U usage of
                    None \<Rightarrow> None
                  | Some (i, n, t) \<Rightarrow>
                      let provider = FirstNonEmpty [bi_Provider item, br_Provider b];
                          model = FirstNonEmpty [bi_Model item, stringFromAny (field_value payload ''model'')];
                          providerID = FirstNonEmpty [stringFromAny (field_value payload ''id''), bi_CustomID item,
                            FirstNonEmpty [br_ProviderBatchID b, br_ID b] @ '':'' @ decimal_int (bi_Index item)];
                          price = (case pricing of
                            None \<Rightarrow> None | Some resolve \<Rightarrow> if model = [] then None else resolve model provider);
                          entry = ExtractFromSSEUsage (ux_parse U) (stamp item) providerID i n (or_zero t)
                            (buildBatchUsageRawData U usage b item) requestID model provider ''/v1/batches'' price
                      in Some (entry\<lparr>ue_ID := deterministicBatchUsageID U b item providerID, ue_UserPath := sb_UserPath stored\<rparr>,
                               i, n, t))))"

definition add_costs :: "go_float option list \<Rightarrow> go_float option" where
  "add_costs costs =
     (if \<forall>c \<in> set costs. c = None then None
      else Some (foldl (\<lambda>acc c. case c of None \<Rightarrow> acc | Some x \<Rightarrow> acc + x) (Fin 0) costs))"

definition counted_usage :: "(usage_entry \<times> int \<times> int \<times> int option) list \<Rightarrow> batch_usage \<Rightarrow> batch_usage" where
  "counted_usage logged u =
     u\<lparr>bu_InputTokens := sum_list (map (\<lambda>(e, i, n, t). i) logged),
       bu_OutputTokens := sum_list (map (\<lambda>(e, i, n, t). n) logged),
       bu_TotalTokens := sum_list (map (\<lambda>(e, i, n, t). or_zero t) logged),
       bu_InputCost := newer (add_costs (map (\<lambda>(e, _). ue_InputCost e) logged)) (bu_InputCost u),
       bu_OutputCost := newer (add_costs (map (\<lambda>(e, _). ue_OutputCost e) logged)) (bu_OutputCost u),
       bu_TotalCost := newer (add_costs (map (\<lambda>(e, _). ue_TotalCost e) logged)) (bu_TotalCost u)\<rparr>"

definition batch_request_id :: "stored_batch \<Rightarrow> batch_response \<Rightarrow> string \<Rightarrow> string" where
  "batch_request_id stored b fallback =
     (if go_trim (sb_RequestID stored) \<noteq> [] then go_trim (sb_RequestID stored)
      else if go_trim fallback \<noteq> [] then go_trim fallback else ''batch:'' @ br_ID b)"

record usage_writer =
  uw_config :: "usage_config option"          \<comment> \<open>of the logger, when there is one\<close>
  uw_pricing :: "pricing_resolver option"

text \<open>Whether usage was logged, the batch, and the records written. \<open>now\<close> is when.\<close>

definition LogBatchUsageFromBatchResults ::
  "usage_codec \<Rightarrow> usage_writer \<Rightarrow> (batch_item \<Rightarrow> stamp) \<Rightarrow> go_time \<Rightarrow> stored_batch \<Rightarrow> batch_item list \<Rightarrow> string \<Rightarrow>
   bool \<times> stored_batch \<times> usage_entry list" where
  "LogBatchUsageFromBatchResults U W stamp now stored items fallback =
     (case (uw_config W, sb_Batch stored) of
        (Some config, Some b) \<Rightarrow>
          if \<not> uc_Enabled config \<or> items = [] \<or> \<not> EffectiveUsageEnabled (Some stored) \<or> sb_UsageLoggedAt stored \<noteq> None
          then (False, stored, [])
          else let requestID = batch_request_id stored b fallback;
                   logged = List.map_filter (item_usage U stamp (uw_pricing W) requestID stored b) items
               in if logged = [] then (False, stored, [])
                  else (True,
                        stored\<lparr>sb_RequestID := requestID, sb_UsageLoggedAt := Some now,
                               sb_Batch := Some (b\<lparr>br_Usage := counted_usage logged (br_Usage b)\<rparr>)\<rparr>,
                        map fst logged)
      | _ \<Rightarrow> (False, stored, []))"

section \<open>Facts\<close>

lemma Sanitize_public: "public_metadata (SanitizePublicBatchMetadata m)"
  by (cases m) (simp_all add: SanitizePublicBatchMetadata_def public_entries_public, simp add: public_metadata_def)

lemma merged_public: "public_batch b \<Longrightarrow> public_batch (merged_response original up b)"
  by (auto simp: merged_response_def public_batch_def merged_metadata_def Sanitize_public split: option.split)

lemma merge_keeps:
  "batch_id (MergeStoredBatchFromUpstream up stored) = batch_id stored"
  "sb_UsageLoggedAt (MergeStoredBatchFromUpstream up stored) = sb_UsageLoggedAt stored"
  "sb_Batch (MergeStoredBatchFromUpstream up stored) = None \<longleftrightarrow> sb_Batch stored = None"
  by (simp_all add: MergeStoredBatchFromUpstream_def merged_response_def batch_id_def split: option.split)

text \<open>Usage that was logged is not logged again, and logging marks the batch.\<close>

lemma logged_once:
  assumes "LogBatchUsageFromBatchResults U W stamp now stored items fallback = (did, stored', entries)"
  shows "sb_UsageLoggedAt stored \<noteq> None \<Longrightarrow> entries = [] \<and> stored' = stored \<and> \<not> did"
    and "entries \<noteq> [] \<longleftrightarrow> did" "did \<Longrightarrow> sb_UsageLoggedAt stored' \<noteq> None" "\<not> did \<Longrightarrow> stored' = stored"
    and "batch_id stored' = batch_id stored"
  using assms
  by (auto simp: LogBatchUsageFromBatchResults_def Let_def batch_id_def split: option.splits if_splits)

lemma logged_public:
  assumes "LogBatchUsageFromBatchResults U W stamp now stored items fallback = (did, stored', entries)"
    and "sb_Batch stored' = Some b'"
  shows "\<exists>b. sb_Batch stored = Some b \<and> br_Metadata b' = br_Metadata b"
  using assms by (auto simp: LogBatchUsageFromBatchResults_def Let_def split: option.splits if_splits)

text \<open>The records of the same results have the same ids, whenever they are written.\<close>

lemma usage_ids_deterministic:
  "map_option (\<lambda>(e, r). ue_ID e) (item_usage U stamp W rid stored b item) =
   map_option (\<lambda>(e, r). ue_ID e) (item_usage U stamp' W' rid' stored' b item)"
  by (simp add: item_usage_def Let_def split: option.split prod.split)

end
