(* ===== verification/BatchOrchestrator.thy ===== *)
theory BatchOrchestrator
  imports BatchUsage
begin

text \<open>
  The life of a batch: \<open>internal/gateway/batch_selection.go\<close> and \<open>batch_orchestrator.go\<close>.

  The provider's state \<open>'s\<close> holds everything upstream, its files included; the batch store is \<open>'d\<close>.
  Optional collaborators are \<open>None\<close> when they are nil or do not implement the interface. Each handler
  gives its answer and the next states; \<open>Results\<close> also the usage records it wrote.
\<close>

section \<open>Selecting the provider\<close>

record batch_selection =
  sl_ProviderType :: string
  sl_Selector :: workflow_selector

record selecting =
  se_type :: string
  se_name :: string
  se_model :: string
  se_common :: bool

type_synonym 's file_owner = "string \<Rightarrow> 's \<Rightarrow> (go_error + string option) \<times> 's"

definition join_provider :: "string \<Rightarrow> string \<Rightarrow> string \<Rightarrow> selecting \<Rightarrow> go_error + selecting" where
  "join_provider itemProvider itemName model st =
     (if se_type st \<noteq> [] \<and> se_type st \<noteq> itemProvider
      then Inl (NewInvalidRequestError ''native batch supports a single provider per batch; split mixed-provider requests'' None)
      else if se_name st \<noteq> [] \<and> itemName \<noteq> [] \<and> se_name st \<noteq> itemName
      then Inl (NewInvalidRequestError
             ''native batch supports a single configured provider per batch; split mixed-provider requests'' None)
      else Inr (let st = st\<lparr>se_type := (if se_type st = [] then itemProvider else se_type st),
                            se_name := (if se_name st = [] then itemName else se_name st)\<rparr>
                in if \<not> se_common st then st
                   else if model = [] then st\<lparr>se_common := False\<rparr>
                   else if se_model st = [] then st\<lparr>se_model := model\<rparr>
                   else if se_model st \<noteq> model then st\<lparr>se_common := False\<rparr> else st))"

definition select_item ::
  "go_context \<Rightarrow> 's provider_ops \<Rightarrow> 's resolver_ops option \<Rightarrow> 's authorizer option \<Rightarrow> batch_json \<Rightarrow> string \<Rightarrow> nat \<Rightarrow>
   batch_request_item \<Rightarrow> selecting \<Rightarrow> 's \<Rightarrow> (go_error + selecting) \<times> 's" where
  "select_item ctx P R A J ep i item st s =
     (case BatchItemRequestedModelSelector J ep item of
        Inl err \<Rightarrow> (Inl (item_error ''batch item '' i err), s)
      | Inr requested \<Rightarrow>
          (case ResolveExecutionSelector ctx P R requested s of
             ((_, _, Some err), s) \<Rightarrow> (Inl (item_error ''batch item '' i err), s)
           | ((sel, _, None), s) \<Rightarrow>
               if QualifiedModel sel = []
               then (Inl (NewInvalidRequestError (''batch item '' @ decimal i @ '': model is required'') None), s)
               else (case pv_Supports P (QualifiedModel sel) s of
                       (False, s) \<Rightarrow> (Inl (NewModelNotFoundError (QualifiedModel sel)), s)
                     | (True, s) \<Rightarrow>
                         (case (case A of None \<Rightarrow> None | Some validate \<Rightarrow> validate ctx sel s) of
                            Some err \<Rightarrow> (Inl err, s)
                          | None \<Rightarrow>
                              (case pv_GetProviderType P (QualifiedModel sel) s of
                                 (itemProvider, s) \<Rightarrow>
                                   (case provider_name_of P sel (ms_Provider sel) s of
                                      (name, s) \<Rightarrow> (join_provider itemProvider name (go_trim (ms_Model sel)) st, s)))))))"

fun select_items ::
  "go_context \<Rightarrow> 's provider_ops \<Rightarrow> 's resolver_ops option \<Rightarrow> 's authorizer option \<Rightarrow> batch_json \<Rightarrow> string \<Rightarrow> nat \<Rightarrow>
   batch_request_item list \<Rightarrow> selecting \<Rightarrow> 's \<Rightarrow> (go_error + selecting) \<times> 's" where
  "select_items ctx P R A J ep i [] st s = (Inr st, s)"
| "select_items ctx P R A J ep i (item # items) st s =
     (case select_item ctx P R A J ep i item st s of
        (Inl err, s) \<Rightarrow> (Inl err, s)
      | (Inr st, s) \<Rightarrow> select_items ctx P R A J ep (Suc i) items st s)"

text \<open>The provider of a batch whose items are in a file: given, or the owner of the file.\<close>

definition file_provider :: "'s file_owner option \<Rightarrow> batch_request \<Rightarrow> 's \<Rightarrow> (go_error + string) \<times> 's" where
  "file_provider OW req s =
     (let given = go_trim (case bq_Metadata req of
            None \<Rightarrow> [] | Some m \<Rightarrow> (case map_of m ''provider'' of None \<Rightarrow> [] | Some v \<Rightarrow> v))
      in if given \<noteq> [] then (Inr given, s)
         else case OW of
             None \<Rightarrow> (Inr [], s)
           | Some owner \<Rightarrow>
               (case owner (bq_InputFileID req) s of
                  (Inl err, s) \<Rightarrow> (Inl err, s)
                | (Inr None, s) \<Rightarrow> (Inr [], s)
                | (Inr (Some p), s) \<Rightarrow> (Inr (go_trim p), s)))"

definition DetermineBatchExecutionSelection ::
  "go_context \<Rightarrow> 's provider_ops option \<Rightarrow> 's resolver_ops option \<Rightarrow> 's authorizer option \<Rightarrow> 's file_owner option \<Rightarrow>
   batch_json \<Rightarrow> batch_request option \<Rightarrow> 's \<Rightarrow> (go_error + batch_selection) \<times> 's" where
  "DetermineBatchExecutionSelection ctx P0 R A OW J req0 s =
     (case (req0, P0) of
        (None, _) \<Rightarrow> (Inl (NewInvalidRequestError ''batch request is required'' None), s)
      | (_, None) \<Rightarrow> (Inl (NewInvalidRequestError ''provider is not configured'' None), s)
      | (Some req, Some P) \<Rightarrow>
          if go_trim (bq_InputFileID req) \<noteq> []
          then (case file_provider OW req s of
                  (Inl err, s) \<Rightarrow> (Inl err, s)
                | (Inr p, s) \<Rightarrow>
                    (if p = [] then Inl (NewInvalidRequestError ''unable to resolve provider for input_file_id batch'' None)
                     else Inr \<lparr>sl_ProviderType = p,
                               sl_Selector = NewWorkflowSelector (WorkflowProviderNameForType P p s) [] []\<rparr>, s))
          else if bq_Requests req = []
          then (Inl (NewInvalidRequestError ''requests is required and must not be empty'' None), s)
          else (case select_items ctx P R A J (bq_Endpoint req) 0 (bq_Requests req)
                        \<lparr>se_type = [], se_name = [], se_model = [], se_common = True\<rparr> s of
                  (Inl err, s) \<Rightarrow> (Inl err, s)
                | (Inr st, s) \<Rightarrow>
                    (if se_type st = [] then Inl (NewInvalidRequestError ''unable to resolve provider for batch'' None)
                     else Inr \<lparr>sl_ProviderType = se_type st,
                               sl_Selector = NewWorkflowSelector
                                 (if se_name st = [] then WorkflowProviderNameForType P (se_type st) s else se_name st)
                                 (if se_common st then se_model st else []) []\<rparr>, s)))"

section \<open>The orchestrator\<close>

type_synonym batch_answer = "go_error + batch_response option"

record 's native_batches =
  nb_CreateBatch :: "string \<Rightarrow> batch_request \<Rightarrow> 's \<Rightarrow> batch_answer \<times> 's"
  nb_GetBatch :: "string \<Rightarrow> string \<Rightarrow> 's \<Rightarrow> batch_answer \<times> 's"
  nb_CancelBatch :: "string \<Rightarrow> string \<Rightarrow> 's \<Rightarrow> batch_answer \<times> 's"
  nb_GetBatchResults :: "string \<Rightarrow> string \<Rightarrow> 's \<Rightarrow> (go_error + batch_item list option) \<times> 's"

record 's hinted_batches =
  hb_CreateBatchWithHints :: "string \<Rightarrow> batch_request \<Rightarrow> 's \<Rightarrow> (go_error + batch_response option \<times> string_map option) \<times> 's"
  hb_GetBatchResultsWithHints :: "string \<Rightarrow> string \<Rightarrow> string_map \<Rightarrow> 's \<Rightarrow> (go_error + batch_item list option) \<times> 's"
  hb_ClearBatchResultHints :: "string \<Rightarrow> string \<Rightarrow> 's \<Rightarrow> 's"

record ('s, 'd) batch_orchestrator =
  bo_provider :: "'s provider_ops option"
  bo_native :: "'s native_batches option"
  bo_hinted :: "'s hinted_batches option"
  bo_resolver :: "'s resolver_ops option"
  bo_authorizer :: "'s authorizer option"
  bo_owner :: "'s file_owner option"
  bo_policies :: "policy_resolver option"
  bo_preparer :: "(go_context \<Rightarrow> 's preparer) option"
  bo_store :: "'d batch_store_ops option"
  bo_cleanupPrepared :: "(string \<Rightarrow> string \<Rightarrow> 's \<Rightarrow> 's) option"
  bo_cleanupStored :: "(stored_batch \<Rightarrow> 's \<Rightarrow> (bool \<times> stored_batch) \<times> 's) option"
  bo_usage :: usage_writer
  bo_budget :: "(go_context \<Rightarrow> go_error option) option"
  bo_json :: batch_json
  bo_codec :: usage_codec

record batch_create_result =
  cr_Batch :: batch_response
  cr_Workflow :: workflow
  cr_ProviderType :: string

definition store_error :: "string \<Rightarrow> go_error option \<Rightarrow> go_error" where
  "store_error msg err = NewProviderError ''batch_store'' 500 msg err"

definition workflowForBatch ::
  "policy_resolver option \<Rightarrow> go_context \<Rightarrow> request_meta \<Rightarrow> batch_selection \<Rightarrow> go_error + workflow" where
  "workflowForBatch resolver ctx meta sel =
     (let w0 = (case rm_Workflow meta of
                  Some w \<Rightarrow> w
                | None \<Rightarrow> \<lparr>wk_RequestID = go_trim (rm_RequestID meta), wk_Endpoint = rm_Endpoint meta,
                           wk_Mode = ExecutionModeNativeBatch, wk_Capabilities = CapabilitiesForEndpoint (rm_Endpoint meta),
                           wk_ProviderType = [], wk_Resolution = None, wk_Policy = None\<rparr>);
          w = w0\<lparr>wk_Mode := ExecutionModeNativeBatch, wk_ProviderType := go_trim (sl_ProviderType sel)\<rparr>
      in ApplyWorkflowPolicy ctx w resolver
           (NewWorkflowSelector (wsel_Provider (sl_Selector sel)) (wsel_Model (sl_Selector sel)) [UserPathFromContext ctx]))"

definition clearUpstreamBatchResultHints :: "('s, 'd) batch_orchestrator \<Rightarrow> string \<Rightarrow> string \<Rightarrow> 's \<Rightarrow> 's" where
  "clearUpstreamBatchResultHints o1 pt batchID s =
     (if go_trim batchID = [] then s
      else case bo_hinted o1 of None \<Rightarrow> s | Some H \<Rightarrow> hb_ClearBatchResultHints H pt (go_trim batchID) s)"

definition cancelUpstreamBatch :: "('s, 'd) batch_orchestrator \<Rightarrow> string \<Rightarrow> string \<Rightarrow> 's \<Rightarrow> 's" where
  "cancelUpstreamBatch o1 pt batchID s =
     (if go_trim batchID = [] then s
      else case bo_native o1 of None \<Rightarrow> s | Some N \<Rightarrow> snd (nb_CancelBatch N pt (go_trim batchID) s))"

definition rollbackPreparedBatch ::
  "('s, 'd) batch_orchestrator \<Rightarrow> string \<Rightarrow> preparation \<Rightarrow> string \<Rightarrow> 's \<Rightarrow> 's" where
  "rollbackPreparedBatch o1 pt prep batchID s =
     cancelUpstreamBatch o1 pt batchID
       (clearUpstreamBatchResultHints o1 pt batchID
         (case bo_cleanupPrepared o1 of None \<Rightarrow> s | Some cleanup \<Rightarrow> cleanup pt (bp_RewrittenInputFileID prep) s))"

text \<open>The request as it is forwarded, what its preparation made, and its hints.\<close>

definition prepare_batch ::
  "('s, 'd) batch_orchestrator \<Rightarrow> go_context \<Rightarrow> string \<Rightarrow> batch_request \<Rightarrow> 's \<Rightarrow>
   (go_error + batch_request \<times> preparation \<times> string_map option) \<times> 's" where
  "prepare_batch o1 ctx pt req s =
     (case bo_preparer o1 of
        None \<Rightarrow> (Inr (req, no_preparation, None), s)
      | Some prepare \<Rightarrow>
          (case prepare ctx pt req s of
             (Inl err, s) \<Rightarrow> (Inl err, s)
           | (Inr None, s) \<Rightarrow> (Inr (req, no_preparation, None), s)
           | (Inr (Some r), s) \<Rightarrow>
               (Inr (case rr_Request r of Some q \<Rightarrow> q | None \<Rightarrow> req, RecordResult r no_preparation, rr_RequestEndpointHints r), s)))"

definition submit_batch ::
  "('s, 'd) batch_orchestrator \<Rightarrow> 's native_batches \<Rightarrow> string \<Rightarrow> batch_request \<Rightarrow> 's \<Rightarrow>
   (go_error + batch_response option \<times> string_map option) \<times> 's" where
  "submit_batch o1 N pt forward s =
     (case bo_hinted o1 of
        Some H \<Rightarrow> hb_CreateBatchWithHints H pt forward s
      | None \<Rightarrow>
          (case nb_CreateBatch N pt forward s of
             (Inl err, s) \<Rightarrow> (Inl err, s)
           | (Inr up, s) \<Rightarrow> (Inr (up, None), s)))"

definition upstream_id :: "batch_response \<Rightarrow> string" where
  "upstream_id up = (if br_ProviderBatchID up = [] then br_ID up else br_ProviderBatchID up)"

definition created_response ::
  "batch_json \<Rightarrow> string \<Rightarrow> batch_request \<Rightarrow> string \<Rightarrow> preparation \<Rightarrow> batch_response \<Rightarrow> batch_response" where
  "created_response J uuid req pt prep up =
     up\<lparr>br_Provider := pt, br_ProviderBatchID := upstream_id up, br_ID := ''batch_'' @ uuid, br_Object := ''batch'',
        br_InputFileID := FirstNonEmpty [bq_InputFileID req, bp_OriginalInputFileID prep, br_InputFileID up],
        br_Endpoint := (if br_Endpoint up = [] then NormalizeOperationPath J (bq_Endpoint req) else br_Endpoint up),
        br_CompletionWindow :=
          (if br_CompletionWindow up \<noteq> [] then br_CompletionWindow up
           else if bq_CompletionWindow req \<noteq> [] then bq_CompletionWindow req else ''24h''),
        br_Metadata := SanitizePublicBatchMetadata
          (Some (AList.update ''provider_batch_id'' (upstream_id up)
                   (AList.update ''provider'' pt (case br_Metadata up of None \<Rightarrow> [] | Some m \<Rightarrow> m))))\<rparr>"

definition created_stored ::
  "go_context \<Rightarrow> request_meta \<Rightarrow> workflow \<Rightarrow> preparation \<Rightarrow> string_map option \<Rightarrow> batch_response \<Rightarrow> stored_batch" where
  "created_stored ctx meta w prep hints resp =
     \<lparr>sb_Batch = Some resp, sb_RequestEndpointByCustomID = hints,
      sb_OriginalInputFileID = bp_OriginalInputFileID prep, sb_RewrittenInputFileID = bp_RewrittenInputFileID prep,
      sb_RequestID = go_trim (rm_RequestID meta), sb_UserPath = UserPathFromContext ctx,
      sb_WorkflowVersionID = WorkflowVersionID (Some w), sb_UsageEnabled = Some (UsageEnabled (Some w)),
      sb_UsageLoggedAt = None\<rparr>"

text \<open>The batch is persisted; if it cannot be, what was made upstream is undone.\<close>

definition persist_batch ::
  "('s, 'd) batch_orchestrator \<Rightarrow> string \<Rightarrow> preparation \<Rightarrow> stored_batch \<Rightarrow> string \<Rightarrow> 's \<Rightarrow> 'd \<Rightarrow>
   go_error option \<times> 's \<times> 'd" where
  "persist_batch o1 pt prep stored batchID s d =
     (case bo_store o1 of
        None \<Rightarrow> (None, s, d)
      | Some S \<Rightarrow>
          (case bs_Create S stored d of
             (Some err, d) \<Rightarrow>
               (Some (store_error ''failed to persist batch'' (Some err)), rollbackPreparedBatch o1 pt prep batchID s, d)
           | (None, d) \<Rightarrow>
               (None,
                case (bo_hinted o1, sb_RequestEndpointByCustomID stored) of
                  (Some H, Some (x # hints)) \<Rightarrow> hb_ClearBatchResultHints H pt batchID s
                | _ \<Rightarrow> s, d)))"

text \<open>From the submission on: an answer that cannot be used is rolled back.\<close>

definition submit_and_persist ::
  "('s, 'd) batch_orchestrator \<Rightarrow> 's native_batches \<Rightarrow> string \<Rightarrow> go_context \<Rightarrow> batch_request \<Rightarrow> request_meta \<Rightarrow> workflow \<Rightarrow>
   string \<Rightarrow> batch_request \<times> preparation \<times> string_map option \<Rightarrow> 's \<Rightarrow> 'd \<Rightarrow> (go_error + batch_create_result) \<times> 's \<times> 'd" where
  "submit_and_persist o1 N uuid ctx req meta w pt prepared s d =
     (case prepared of (forward, prep, preparedHints) \<Rightarrow>
        (case submit_batch o1 N pt forward s of
           (Inl err, s) \<Rightarrow> (Inl err, rollbackPreparedBatch o1 pt prep [] s, d)
         | (Inr (None, _), s) \<Rightarrow>
             (Inl (NewProviderError pt 502 ''provider returned empty batch response'' None),
              rollbackPreparedBatch o1 pt prep [] s, d)
         | (Inr (Some up, hints), s) \<Rightarrow>
             if upstream_id up = []
             then (Inl (NewProviderError pt 502 ''provider response missing batch id'' None),
                   rollbackPreparedBatch o1 pt prep [] s, d)
             else (let resp = created_response (bo_json o1) uuid req pt prep up;
                       stored = created_stored ctx meta w prep (MergeEndpointHints preparedHints hints) resp
                   in case persist_batch o1 pt prep stored (upstream_id up) s d of
                        (Some err, s, d) \<Rightarrow> (Inl err, s, d)
                      | (None, s, d) \<Rightarrow> (Inr \<lparr>cr_Batch = resp, cr_Workflow = w, cr_ProviderType = pt\<rparr>, s, d))))"

definition bo_Create ::
  "('s, 'd) batch_orchestrator \<Rightarrow> string \<Rightarrow> go_context \<Rightarrow> batch_request option \<Rightarrow> request_meta \<Rightarrow> 's \<Rightarrow> 'd \<Rightarrow>
   (go_error + batch_create_result) \<times> 's \<times> 'd" where
  "bo_Create o1 uuid ctx0 req0 meta s d =
     (case req0 of
        None \<Rightarrow> (Inl (NewInvalidRequestError ''batch request is required'' None), s, d)
      | Some req \<Rightarrow>
          (let ctx = contextWithRequestID (rm_RequestID meta) ctx0
           in case bo_native o1 of
                None \<Rightarrow> (Inl (NewInvalidRequestError ''batch routing is not supported by the current provider router'' None), s, d)
              | Some N \<Rightarrow>
                  (case DetermineBatchExecutionSelection ctx (bo_provider o1) (bo_resolver o1) (bo_authorizer o1)
                          (bo_owner o1) (bo_json o1) (Some req) s of
                     (Inl err, s) \<Rightarrow> (Inl err, s, d)
                   | (Inr sel, s) \<Rightarrow>
                       (case workflowForBatch (bo_policies o1) ctx meta sel of
                          Inl err \<Rightarrow> (Inl err, s, d)
                        | Inr w \<Rightarrow>
                            (let ctx = ctx\<lparr>ctx_workflow := Some w\<rparr>; pt = sl_ProviderType sel
                             in case (case bo_budget o1 of None \<Rightarrow> None | Some enforce \<Rightarrow> enforce ctx) of
                                  Some err \<Rightarrow> (Inl err, s, d)
                                | None \<Rightarrow>
                                    (case prepare_batch o1 ctx pt req s of
                                       (Inl err, s) \<Rightarrow> (Inl err, s, d)
                                     | (Inr prepared, s) \<Rightarrow>
                                         submit_and_persist o1 N uuid ctx req meta w pt prepared s d))))))"

section \<open>Reading and cancelling\<close>

definition requireStoredBatch :: "('s, 'd) batch_orchestrator \<Rightarrow> string \<Rightarrow> 'd \<Rightarrow> go_error + stored_batch \<times> batch_response" where
  "requireStoredBatch o1 i d =
     (case bo_store o1 of
        None \<Rightarrow> Inl (store_error ''batch store is unavailable'' None)
      | Some S \<Rightarrow>
          (case bs_Get S i d of
             Inl err \<Rightarrow>
               Inl (if is_not_found err then NewNotFoundError (''batch not found: '' @ i)
                    else store_error ''failed to load batch'' (Some err))
           | Inr stored \<Rightarrow>
               (case sb_Batch stored of
                  None \<Rightarrow> Inl (store_error ''stored batch payload missing'' None)
                | Some b \<Rightarrow> Inr (stored, b))))"

text \<open>The provider's operations, when the batch is known there.\<close>

definition native_for :: "('s, 'd) batch_orchestrator \<Rightarrow> batch_response \<Rightarrow> 's native_batches option" where
  "native_for o1 b = (if br_Provider b = [] \<or> br_ProviderBatchID b = [] then None else bo_native o1)"

definition update_store :: "('s, 'd) batch_orchestrator \<Rightarrow> stored_batch \<Rightarrow> 'd \<Rightarrow> go_error option \<times> 'd" where
  "update_store o1 stored d = (case bo_store o1 of None \<Rightarrow> (None, d) | Some S \<Rightarrow> bs_Update S stored d)"

text \<open>Once a batch is at its end, its rewritten file is deleted.\<close>

definition cleanup_at_end ::
  "('s, 'd) batch_orchestrator \<Rightarrow> stored_batch \<Rightarrow> 's \<Rightarrow> (bool \<times> stored_batch) \<times> 's" where
  "cleanup_at_end o1 stored s =
     (case (sb_Batch stored, bo_cleanupStored o1) of
        (Some b, Some cleanup) \<Rightarrow> if IsTerminalBatchStatus (br_Status b) then cleanup stored s else ((False, stored), s)
      | _ \<Rightarrow> ((False, stored), s))"

definition batch_of :: "stored_batch \<Rightarrow> batch_response \<Rightarrow> batch_response" where
  "batch_of stored b = (case sb_Batch stored of Some b' \<Rightarrow> b' | None \<Rightarrow> b)"

definition bo_Get ::
  "('s, 'd) batch_orchestrator \<Rightarrow> string \<Rightarrow> 's \<Rightarrow> 'd \<Rightarrow> (go_error + batch_response) \<times> 's \<times> 'd" where
  "bo_Get o1 i s d =
     (case requireStoredBatch o1 i d of
        Inl err \<Rightarrow> (Inl err, s, d)
      | Inr (stored, b) \<Rightarrow>
          (case native_for o1 b of
             None \<Rightarrow> (Inr b, s, d)
           | Some N \<Rightarrow>
               (case nb_GetBatch N (br_Provider b) (br_ProviderBatchID b) s of
                  (Inl err, s) \<Rightarrow> (Inl err, s, d)
                | (Inr latest, s) \<Rightarrow>
                    (case cleanup_at_end o1 (MergeStoredBatchFromUpstream latest stored) s of
                       ((cleaned, stored), s) \<Rightarrow>
                         if latest = None \<and> \<not> cleaned then (Inr (batch_of stored b), s, d)
                         else (case update_store o1 stored d of
                                 (err, d) \<Rightarrow>
                                   if err \<noteq> None \<and> \<not> is_not_found (the err)
                                   then (Inl (store_error ''failed to persist refreshed batch'' err), s, d)
                                   else (Inr (batch_of stored b), s, d))))))"

record batch_list =
  bl_Data :: "batch_response list"
  bl_HasMore :: bool
  bl_FirstID :: string
  bl_LastID :: string

definition list_limit :: "int \<Rightarrow> int" where
  "list_limit limit = (if limit \<le> 0 then 20 else if limit > 100 then 100 else limit)"

definition bo_List :: "('s, 'd) batch_orchestrator \<Rightarrow> int \<Rightarrow> string \<Rightarrow> 'd \<Rightarrow> go_error + batch_list" where
  "bo_List o1 limit0 after0 d =
     (case bo_store o1 of
        None \<Rightarrow> Inl (store_error ''batch store is unavailable'' None)
      | Some S \<Rightarrow>
          (let limit = list_limit limit0; after = go_trim after0
           in case bs_List S (limit + 1) after d of
                Inl err \<Rightarrow>
                  Inl (if is_not_found err then NewNotFoundError (''after cursor batch not found: '' @ after)
                       else store_error ''failed to list batches'' (Some err))
              | Inr items \<Rightarrow>
                  (let hasMore = int (length items) > limit;
                       shown = List.map_filter sb_Batch (if hasMore then take (nat limit) items else items)
                   in Inr \<lparr>bl_Data = shown, bl_HasMore = hasMore,
                           bl_FirstID = (if shown = [] then [] else br_ID (hd shown)),
                           bl_LastID = (if shown = [] then [] else br_ID (last shown))\<rparr>)))"

definition bo_Cancel ::
  "('s, 'd) batch_orchestrator \<Rightarrow> string \<Rightarrow> 's \<Rightarrow> 'd \<Rightarrow> (go_error + batch_response) \<times> 's \<times> 'd" where
  "bo_Cancel o1 i s d =
     (case requireStoredBatch o1 i d of
        Inl err \<Rightarrow> (Inl err, s, d)
      | Inr (stored, b) \<Rightarrow>
          (case native_for o1 b of
             None \<Rightarrow> (Inl (NewInvalidRequestError ''native batch cancellation is not available'' None), s, d)
           | Some N \<Rightarrow>
               (case nb_CancelBatch N (br_Provider b) (br_ProviderBatchID b) s of
                  (Inl err, s) \<Rightarrow> (Inl err, s, d)
                | (Inr latest, s) \<Rightarrow>
                    (case cleanup_at_end o1 (MergeStoredBatchFromUpstream latest stored) s of
                       ((_, stored), s) \<Rightarrow>
                         (case update_store o1 stored d of
                            (None, d) \<Rightarrow> (Inr (batch_of stored b), s, d)
                          | (Some err, d) \<Rightarrow>
                              (Inl (if is_not_found err then NewNotFoundError (''batch not found: '' @ i)
                                    else store_error ''failed to cancel batch'' (Some err)), s, d))))))"

section \<open>Results\<close>

definition pending_provider :: "string \<Rightarrow> bool" where
  "pending_provider p \<longleftrightarrow> go_to_lower (go_trim p) = ''anthropic''"

definition IsNativeBatchResultsPending ::
  "'s native_batches \<Rightarrow> string \<Rightarrow> string \<Rightarrow> go_error \<Rightarrow> 's \<Rightarrow> (bool \<times> batch_response option) \<times> 's" where
  "IsNativeBatchResultsPending N pt batchID err s =
     (case as_gateway err of
        None \<Rightarrow> ((False, None), s)
      | Some g \<Rightarrow>
          if HTTPStatusCode g \<noteq> 404 \<or> \<not> pending_provider (ge_provider g) \<or> go_trim pt = [] \<or> go_trim batchID = []
          then ((False, None), s)
          else (case nb_GetBatch N pt batchID s of
                  (Inl _, s) \<Rightarrow> ((False, None), s)
                | (Inr None, s) \<Rightarrow> ((False, None), s)
                | (Inr (Some latest), s) \<Rightarrow> ((\<not> IsTerminalBatchStatus (br_Status latest), Some latest), s)))"

definition fetch_results ::
  "('s, 'd) batch_orchestrator \<Rightarrow> 's native_batches \<Rightarrow> stored_batch \<Rightarrow> batch_response \<Rightarrow> 's \<Rightarrow>
   (go_error + batch_item list option) \<times> 's" where
  "fetch_results o1 N stored b s =
     (case (bo_hinted o1, sb_RequestEndpointByCustomID stored) of
        (Some H, Some (x # hints)) \<Rightarrow> hb_GetBatchResultsWithHints H (br_Provider b) (br_ProviderBatchID b) (x # hints) s
      | _ \<Rightarrow> nb_GetBatchResults N (br_Provider b) (br_ProviderBatchID b) s)"

text \<open>The error while results are pending; the refreshed batch is kept.\<close>

definition pending_results ::
  "('s, 'd) batch_orchestrator \<Rightarrow> 's native_batches \<Rightarrow> stored_batch \<Rightarrow> batch_response \<Rightarrow> go_error \<Rightarrow> 's \<Rightarrow> 'd \<Rightarrow>
   go_error \<times> 's \<times> 'd" where
  "pending_results o1 N stored b err s d =
     (case IsNativeBatchResultsPending N (br_Provider b) (br_ProviderBatchID b) err s of
        ((True, Some latest), s) \<Rightarrow>
          (let stored = MergeStoredBatchFromUpstream (Some latest) stored;
               status = go_trim (br_Status (batch_of stored b))
           in (NewInvalidRequestErrorWithStatus 409
                 (''batch results are not ready yet (status: '' @ (if status = [] then ''in_progress'' else status) @ '')'')
                 (Some err), s, snd (update_store o1 stored d)))
      | (_, s) \<Rightarrow> (err, s, d))"

text \<open>The items, and the usage records written; an update that fails is only logged.\<close>

definition bo_Results ::
  "('s, 'd) batch_orchestrator \<Rightarrow> (batch_item \<Rightarrow> stamp) \<Rightarrow> go_time \<Rightarrow> string \<Rightarrow> string \<Rightarrow> 's \<Rightarrow> 'd \<Rightarrow>
   (go_error + batch_item list) \<times> usage_entry list \<times> 's \<times> 'd" where
  "bo_Results o1 stamp now i fallback s d =
     (case requireStoredBatch o1 i d of
        Inl err \<Rightarrow> (Inl err, [], s, d)
      | Inr (stored, b) \<Rightarrow>
          (case native_for o1 b of
             None \<Rightarrow> (Inr (br_Results b), [], s, d)
           | Some N \<Rightarrow>
               (case fetch_results o1 N stored b s of
                  (Inl err, s) \<Rightarrow> (case pending_results o1 N stored b err s d of (err, s, d) \<Rightarrow> (Inl err, [], s, d))
                | (Inr None, s) \<Rightarrow>
                    (Inl (NewProviderError (br_Provider b) 502 ''provider returned empty batch results response'' None), [], s, d)
                | (Inr (Some items), s) \<Rightarrow>
                    (case LogBatchUsageFromBatchResults (bo_codec o1) (bo_usage o1) stamp now stored items fallback of
                       (usageLogged, stored, entries) \<Rightarrow>
                         (let stored = (if items = [] then stored
                                        else stored\<lparr>sb_Batch := map_option (br_Results_update (\<lambda>_. items)) (sb_Batch stored)\<rparr>)
                          in case cleanup_at_end o1 stored s of
                               ((cleaned, stored), s) \<Rightarrow>
                                 (Inr items, entries, s,
                                  if items \<noteq> [] \<or> usageLogged \<or> cleaned then snd (update_store o1 stored d) else d))))))"

end
