(* ===== verification/BatchProps.thy ===== *)
theory BatchProps
  imports BatchOrchestrator
begin

text \<open>
  Batches over many calls (\<open>internal/gateway/batch_orchestrator.go\<close>): what clients see is public, usage
  is written once, a failed creation leaves nothing behind, and a listing covers the store.
\<close>

section \<open>Calls\<close>

datatype batch_op =
    OpCreate string go_context "batch_request option" request_meta      \<comment> \<open>with the UUID it draws\<close>
  | OpGet string
  | OpList int string
  | OpCancel string
  | OpResults "batch_item \<Rightarrow> stamp" go_time string string

text \<open>The batches a call answers with, the usage it writes, and the next states.\<close>

fun batch_call ::
  "('s, 'd) batch_orchestrator \<Rightarrow> batch_op \<Rightarrow> 's \<Rightarrow> 'd \<Rightarrow>
   batch_response list \<times> (string \<times> usage_entry list) list \<times> 's \<times> 'd" where
  "batch_call o1 (OpCreate uuid ctx req meta) s d =
     (case bo_Create o1 uuid ctx req meta s d of
        (Inr r, s, d) \<Rightarrow> ([cr_Batch r], [], s, d)
      | (Inl err, s, d) \<Rightarrow> ([], [], s, d))"
| "batch_call o1 (OpGet i) s d =
     (case bo_Get o1 i s d of (Inr b, s, d) \<Rightarrow> ([b], [], s, d) | (Inl err, s, d) \<Rightarrow> ([], [], s, d))"
| "batch_call o1 (OpList limit after) s d =
     (case bo_List o1 limit after d of Inr l \<Rightarrow> (bl_Data l, [], s, d) | Inl err \<Rightarrow> ([], [], s, d))"
| "batch_call o1 (OpCancel i) s d =
     (case bo_Cancel o1 i s d of (Inr b, s, d) \<Rightarrow> ([b], [], s, d) | (Inl err, s, d) \<Rightarrow> ([], [], s, d))"
| "batch_call o1 (OpResults stamp now i fallback) s d =
     (case bo_Results o1 stamp now i fallback s d of
        (_, entries, s, d) \<Rightarrow> ([], if entries = [] then [] else [(i, entries)], s, d))"

fun batch_calls ::
  "('s, 'd) batch_orchestrator \<Rightarrow> batch_op list \<Rightarrow> 's \<Rightarrow> 'd \<Rightarrow>
   batch_response list \<times> (string \<times> usage_entry list) list \<times> 's \<times> 'd" where
  "batch_calls o1 [] s d = ([], [], s, d)"
| "batch_calls o1 (op # ops) s d =
     (case batch_call o1 op s d of
        (bs, logged, s, d) \<Rightarrow>
          (case batch_calls o1 ops s d of (bs', logged', r) \<Rightarrow> (bs @ bs', logged @ logged', r)))"

definition file_cleanup :: "('s, 'd) batch_orchestrator \<Rightarrow> bool" where
  \<comment> \<open>the clean-up at a batch's end is the server's\<close>
  "file_cleanup o1 \<longleftrightarrow> (\<forall>c. bo_cleanupStored o1 = Some c \<longrightarrow> (\<exists>F. c = cleanupStoredBatchRewrittenInputFile F))"

section \<open>What an update of a batch keeps\<close>

text \<open>The batch read and the batch written: the same id, public metadata, and no usage forgotten.\<close>

definition refines_batch :: "stored_batch \<Rightarrow> stored_batch \<Rightarrow> bool" where
  "refines_batch x y \<longleftrightarrow>
     batch_id y = batch_id x \<and> (sb_Batch y = None \<longleftrightarrow> sb_Batch x = None)
     \<and> (sb_UsageLoggedAt x \<noteq> None \<longrightarrow> sb_UsageLoggedAt y \<noteq> None)
     \<and> ((\<forall>b. sb_Batch x = Some b \<longrightarrow> public_batch b) \<longrightarrow> (\<forall>b. sb_Batch y = Some b \<longrightarrow> public_batch b))"

lemma refines_refl [simp]: "refines_batch x x"
  by (simp add: refines_batch_def)

lemma refines_trans: "refines_batch x y \<Longrightarrow> refines_batch y z \<Longrightarrow> refines_batch x z"
  unfolding refines_batch_def by metis

lemma refines_merge: "refines_batch x (MergeStoredBatchFromUpstream up x)"
  using merge_keeps [of up x]
  by (auto simp: refines_batch_def MergeStoredBatchFromUpstream_def merged_public split: option.splits)

lemma refines_cleanup:
  assumes "file_cleanup o1" "cleanup_at_end o1 x s = ((c, y), s')"
  shows "refines_batch x y" "sb_UsageLoggedAt y = sb_UsageLoggedAt x"
proof -
  have F: "refines_batch x y' \<and> sb_UsageLoggedAt y' = sb_UsageLoggedAt x"
    if "cleanupStoredBatchRewrittenInputFile F x s = ((c', y'), s'')" for F c' y' s''
    using that by (auto simp: cleanupStoredBatchRewrittenInputFile_def refines_batch_def batch_id_def
        split: option.splits prod.splits bool.splits)
  show "refines_batch x y" "sb_UsageLoggedAt y = sb_UsageLoggedAt x"
    using assms F unfolding cleanup_at_end_def file_cleanup_def
    by (auto split: option.splits if_splits)
qed

lemma refines_logged:
  assumes "LogBatchUsageFromBatchResults U W stamp now x items fallback = (did, y, entries)"
  shows "refines_batch x y"
proof -
  note l = logged_once [OF assms]
  have "sb_Batch y = None \<longleftrightarrow> sb_Batch x = None"
    using assms by (auto simp: LogBatchUsageFromBatchResults_def Let_def split: option.splits if_splits)
  moreover have "public_batch b'" if "sb_Batch y = Some b'" "\<forall>b. sb_Batch x = Some b \<longrightarrow> public_batch b" for b'
    using logged_public [OF assms that(1)] that(2) by (auto simp: public_batch_def)
  ultimately show ?thesis using l by (auto simp: refines_batch_def)
qed

lemma refines_results: "refines_batch x (x\<lparr>sb_Batch := map_option (br_Results_update f) (sb_Batch x)\<rparr>)"
  by (auto simp: refines_batch_def batch_id_def public_batch_def split: option.split)


section \<open>Over a store that keeps its promises\<close>

definition logged_mark :: "('d \<Rightarrow> string \<Rightarrow> stored_batch option) \<Rightarrow> 'd \<Rightarrow> string \<Rightarrow> bool" where
  "logged_mark look d i \<longleftrightarrow> (\<exists>b. look d i = Some b \<and> sb_UsageLoggedAt b \<noteq> None)"

lemma map_filter_member: "y \<in> set (List.map_filter f xs) \<Longrightarrow> \<exists>x \<in> set xs. f x = Some y"
  by (auto simp: List.map_filter_def)

text \<open>A creation fails early, or gets to the store.\<close>

lemma created_public: "public_batch (created_response J uuid req pt prep up)"
  by (simp add: created_response_def public_batch_def Sanitize_public)

lemma create_cases:
  assumes "bo_Create o1 uuid ctx req meta s d = (r, s', d')"
  shows "(\<exists>err. r = Inl err \<and> d' = d)
    \<or> (\<exists>pt prep stored bid s1 err. persist_batch o1 pt prep stored bid s1 d = (err, s', d')
        \<and> (case err of Some e \<Rightarrow> r = Inl e
            | None \<Rightarrow> \<exists>x. r = Inr x \<and> public_batch (cr_Batch x) \<and> sb_Batch stored = Some (cr_Batch x)))"
proof -
  have stored: "sb_Batch (created_stored c m w p h resp) = Some resp" for c m w p h resp
    by (simp add: created_stored_def)
  show ?thesis
    using assms unfolding bo_Create_def submit_and_persist_def Let_def
    by (fastforce simp: created_public stored split: option.splits sum.splits prod.splits if_splits)
qed

context batch_store
begin

lemma require_look:
  assumes "bo_store o1 = Some S" "ok d" "requireStoredBatch o1 i d = Inr (stored, b)"
  shows "look d i = Some stored" "sb_Batch stored = Some b" "public_batch b" "batch_id stored = i" "i \<noteq> []"
proof -
  show l: "look d i = Some stored" and b: "sb_Batch stored = Some b"
    using assms(1,3) by (auto simp: requireStoredBatch_def get [OF assms(2)] split: option.splits)
  show "batch_id stored = i" "i \<noteq> []" "public_batch b"
    using kept [OF assms(2) l] normal_public [OF _ b] by blast+
qed

text \<open>Writing back a batch that refines the one in the store.\<close>

lemma update_refines:
  assumes "bo_store o1 = Some S" "ok d" "look d i = Some x" "refines_batch x y" "update_store o1 y d = (err, d')"
  shows "err = None" "ok d'" "look d' = (look d)(i \<mapsto> normalizeStoredBatch cx y)"
    "logged_mark look d j \<Longrightarrow> logged_mark look d' j"
    "sb_UsageLoggedAt y \<noteq> None \<Longrightarrow> logged_mark look d' i"
proof -
  have i: "batch_id y = i" "i \<noteq> []"
    using kept [OF assms(2,3)] assms(4) by (simp_all add: refines_batch_def)
  then obtain d2 where u: "bs_Update S y d = (None, d2)" "ok d2" "look d2 = (look d)(i \<mapsto> normalizeStoredBatch cx y)"
    using update [OF assms(2), of y] assms(3) by auto
  then show e: "err = None" "ok d'" and l: "look d' = (look d)(i \<mapsto> normalizeStoredBatch cx y)"
    using assms(1,5) by (simp_all add: update_store_def)
  show m: "logged_mark look d' i" if "sb_UsageLoggedAt y \<noteq> None"
    using that normalize_fields(3) [OF that, of cx] by (simp add: logged_mark_def l)
  show "logged_mark look d' j" if "logged_mark look d j"
  proof (cases "j = i")
    case True
    then have "sb_UsageLoggedAt x \<noteq> None" using that assms(3) by (auto simp: logged_mark_def)
    then show ?thesis using m assms(4) True by (simp add: refines_batch_def)
  next
    case False
    then show ?thesis using that by (simp add: logged_mark_def l)
  qed
qed

text \<open>A batch refreshed from upstream, cleaned up and written back.\<close>

lemma refresh_keeps:
  assumes "bo_store o1 = Some S" "file_cleanup o1" "ok d" "requireStoredBatch o1 i d = Inr (stored, b)"
    and "cleanup_at_end o1 (MergeStoredBatchFromUpstream up stored) s1 = ((c, y), s2)"
    and "update_store o1 y d = (err, d2)"
  shows "err = None" "ok d2" "logged_mark look d j \<longrightarrow> logged_mark look d2 j" "public_batch (batch_of y b)"
proof -
  note R = require_look [OF assms(1,3,4)]
  have ref: "refines_batch stored y" using refines_trans [OF refines_merge refines_cleanup(1) [OF assms(2,5)]] .
  then show "public_batch (batch_of y b)"
    using R(2,3) by (auto simp: refines_batch_def batch_of_def split: option.split)
  note U = update_refines [OF assms(1,3) R(1) ref assms(6)]
  show "err = None" "ok d2" "logged_mark look d j \<longrightarrow> logged_mark look d2 j" using U by simp_all
qed

lemma get_keeps:
  assumes "bo_store o1 = Some S" "file_cleanup o1" "ok d" "bo_Get o1 i s d = (r, s', d')"
  shows "ok d' \<and> (logged_mark look d j \<longrightarrow> logged_mark look d' j) \<and> (\<forall>b. r = Inr b \<longrightarrow> public_batch b)"
proof (cases "requireStoredBatch o1 i d")
  case (Inl err)
  then show ?thesis using assms(3,4) by (auto simp: bo_Get_def)
next
  case req: (Inr x)
  obtain stored b where x: "x = (stored, b)" by (cases x)
  note R = require_look(3) [OF assms(1,3) req [unfolded x]]
  show ?thesis
  proof (cases "native_for o1 b")
    case None
    then show ?thesis using assms(3,4) R by (auto simp: bo_Get_def req x)
  next
    case (Some N)
    obtain latest s1 where g: "nb_GetBatch N (br_Provider b) (br_ProviderBatchID b) s = (latest, s1)" by force
    show ?thesis
    proof (cases latest)
      case (Inl err)
      then show ?thesis using assms(3,4) by (auto simp: bo_Get_def req x Some g)
    next
      case (Inr up)
      obtain c y s2 where c: "cleanup_at_end o1 (MergeStoredBatchFromUpstream up stored) s1 = ((c, y), s2)"
        by (metis prod.collapse)
      obtain err d2 where u: "update_store o1 y d = (err, d2)" by force
      show ?thesis using assms(3,4) refresh_keeps [OF assms(1-3) req [unfolded x] c u]
        by (auto simp: bo_Get_def req x Some g Inr c u split: if_splits)
    qed
  qed
qed

lemma cancel_keeps:
  assumes "bo_store o1 = Some S" "file_cleanup o1" "ok d" "bo_Cancel o1 i s d = (r, s', d')"
  shows "ok d' \<and> (logged_mark look d j \<longrightarrow> logged_mark look d' j) \<and> (\<forall>b. r = Inr b \<longrightarrow> public_batch b)"
proof (cases "requireStoredBatch o1 i d")
  case (Inl err)
  then show ?thesis using assms(3,4) by (auto simp: bo_Cancel_def)
next
  case req: (Inr x)
  obtain stored b where x: "x = (stored, b)" by (cases x)
  show ?thesis
  proof (cases "native_for o1 b")
    case None
    then show ?thesis using assms(3,4) by (auto simp: bo_Cancel_def req x)
  next
    case (Some N)
    obtain latest s1 where g: "nb_CancelBatch N (br_Provider b) (br_ProviderBatchID b) s = (latest, s1)" by force
    show ?thesis
    proof (cases latest)
      case (Inl err)
      then show ?thesis using assms(3,4) by (auto simp: bo_Cancel_def req x Some g)
    next
      case (Inr up)
      obtain c y s2 where c: "cleanup_at_end o1 (MergeStoredBatchFromUpstream up stored) s1 = ((c, y), s2)"
        by (metis prod.collapse)
      obtain err d2 where u: "update_store o1 y d = (err, d2)" by force
      show ?thesis using assms(3,4) refresh_keeps [OF assms(1-3) req [unfolded x] c u]
        by (auto simp: bo_Cancel_def req x Some g Inr c u)
    qed
  qed
qed

lemma list_keeps:
  assumes "bo_store o1 = Some S" "ok d" "bo_List o1 limit after d = Inr l" "b \<in> set (bl_Data l)"
  shows "public_batch b"
proof -
  obtain items where items: "page_after (list_limit limit + 1) (go_trim after) (listing d) = Inr items"
    using assms(1,3) by (auto simp: bo_List_def lists [OF assms(2)] Let_def split: sum.splits)
  then have sub: "set items \<subseteq> set (listing d)"
  proof -
    have "set rest \<subseteq> set bs" if "after_batch i bs = Some rest" for i bs rest
      using that by (induction bs) (auto split: if_splits)
    then show ?thesis using items by (auto simp: page_after_def split: option.splits if_splits dest!: in_set_takeD)
  qed
  define shown where "shown = (if int (length items) > list_limit limit then take (nat (list_limit limit)) items else items)"
  have mem: "b \<in> set (List.map_filter sb_Batch shown)"
    using assms(1,3,4) items by (auto simp: bo_List_def lists [OF assms(2)] Let_def shown_def)
  have "set shown \<subseteq> set items" by (auto simp: shown_def dest: in_set_takeD)
  then have in_listing: "set shown \<subseteq> set (listing d)" using sub by simp
  from map_filter_member [OF mem] obtain x where x: "x \<in> set shown" "sb_Batch x = Some b" by (elim bexE)
  with in_listing have "x \<in> set (listing d)" by auto
  then have "look d (batch_id x) = Some x" using listed [OF assms(2)] by simp
  with kept [OF assms(2)] have "normal_batch cx x" by blast
  then show ?thesis using x(2) by (rule normal_public)
qed

text \<open>Results: usage is written only for a batch that has no mark yet, and it gets one.\<close>

lemma results_keep:
  assumes "bo_store o1 = Some S" "file_cleanup o1" "ok d" "bo_Results o1 stamp now i fallback s d = (r, entries, s', d')"
  shows "ok d' \<and> (logged_mark look d j \<longrightarrow> logged_mark look d' j)
    \<and> (entries \<noteq> [] \<longrightarrow> \<not> logged_mark look d i \<and> logged_mark look d' i)"
proof (cases "requireStoredBatch o1 i d")
  case (Inl err)
  then show ?thesis using assms(3,4) by (auto simp: bo_Results_def)
next
  case req: (Inr x)
  obtain stored b where x: "x = (stored, b)" by (cases x)
  note R = require_look [OF assms(1,3) req [unfolded x]]
  show ?thesis
  proof (cases "native_for o1 b")
    case None
    then show ?thesis using assms(3,4) by (auto simp: bo_Results_def req x)
  next
    case (Some N)
    obtain res s1 where f: "fetch_results o1 N stored b s = (res, s1)" by force
    show ?thesis
    proof (cases res)
      case (Inl err)
      obtain e s2 d2 where p: "pending_results o1 N stored b err s1 d = (e, s2, d2)" by (metis prod.exhaust)
      then have d: "d' = d2" "entries = []" using assms(4) by (auto simp: bo_Results_def req x Some f Inl)
      have "d2 = d \<or> (\<exists>up. d2 = snd (update_store o1 (MergeStoredBatchFromUpstream up stored) d))"
        using p by (auto simp: pending_results_def Let_def split: prod.splits bool.splits option.splits)
      then show ?thesis
      proof
        assume "\<exists>up. d2 = snd (update_store o1 (MergeStoredBatchFromUpstream up stored) d)"
        then obtain up err2 where u: "update_store o1 (MergeStoredBatchFromUpstream up stored) d = (err2, d2)"
          by (metis prod.collapse)
        show ?thesis using update_refines [OF assms(1,3) R(1) refines_merge u] d by simp
      qed (use assms(3) d in simp)
    next
      case got: (Inr o2)
      show ?thesis
      proof (cases o2)
        case None
        then show ?thesis using assms(3,4) by (auto simp: bo_Results_def req x Some f got)
      next
        case items: (Some items)
        obtain did y1 es where l: "LogBatchUsageFromBatchResults (bo_codec o1) (bo_usage o1) stamp now stored items fallback
            = (did, y1, es)" by (metis prod.exhaust)
        let ?y2 = "if items = [] then y1 else y1\<lparr>sb_Batch := map_option (br_Results_update (\<lambda>_. items)) (sb_Batch y1)\<rparr>"
        obtain c y s2 where c: "cleanup_at_end o1 ?y2 s1 = ((c, y), s2)" by (metis prod.collapse)
        obtain err d2 where u: "update_store o1 y d = (err, d2)" by force
        have out: "entries = es" "d' = (if items \<noteq> [] \<or> did \<or> c then d2 else d)"
          using assms(4) by (auto simp: bo_Results_def req x Some f got items l c u)
        have r2: "refines_batch stored ?y2"
          using refines_trans [OF refines_logged [OF l] refines_results] refines_logged [OF l] by simp
        have ref: "refines_batch stored y" using refines_trans [OF r2 refines_cleanup(1) [OF assms(2) c]] .
        note U = update_refines [OF assms(1,3) R(1) ref u]
        have mark: "\<not> logged_mark look d i \<and> logged_mark look d2 i" if "es \<noteq> []"
        proof -
          have "sb_UsageLoggedAt stored = None" using logged_once(1) [OF l] that by blast
          moreover have "sb_UsageLoggedAt ?y2 \<noteq> None" using logged_once(2,3) [OF l] that by simp
          then have "sb_UsageLoggedAt y \<noteq> None" using refines_cleanup(2) [OF assms(2) c] by simp
          ultimately show ?thesis using U(5) R(1) by (simp add: logged_mark_def)
        qed
        show ?thesis using out U(2,4) assms(3) mark logged_once(2) [OF l] by auto
      qed
    qed
  qed
qed

lemma create_keeps:
  assumes "bo_store o1 = Some S" "ok d" "bo_Create o1 uuid ctx req meta s d = (r, s', d')"
  shows "ok d' \<and> (logged_mark look d j \<longrightarrow> logged_mark look d' j) \<and> (\<forall>x. r = Inr x \<longrightarrow> public_batch (cr_Batch x))"
  using create_cases [OF assms(3)]
proof (elim disjE exE conjE)
  fix err assume "r = Inl err" "d' = d"
  then show ?thesis using assms(2) by simp
next
  fix pt prep stored bid s1 err
  assume p: "persist_batch o1 pt prep stored bid s1 d = (err, s', d')"
    and r: "case err of Some e \<Rightarrow> r = Inl e
            | None \<Rightarrow> \<exists>x. r = Inr x \<and> public_batch (cr_Batch x) \<and> sb_Batch stored = Some (cr_Batch x)"
  have pub: "\<forall>x. r = Inr x \<longrightarrow> public_batch (cr_Batch x)" using r by (auto split: option.splits)
  show ?thesis
  proof (cases "batch_id stored = [] \<or> look d (batch_id stored) \<noteq> None")
    case True
    from create_refused [OF assms(2) True] have "d' = d"
      using p assms(1) by (auto simp: persist_batch_def)
    then show ?thesis using assms(2) pub by simp
  next
    case False
    then obtain d2 where c: "bs_Create S stored d = (None, d2)" "ok d2"
      "look d2 = (look d)(batch_id stored \<mapsto> normalizeStoredBatch cx stored)"
      using create [OF assms(2), of stored] by auto
    then have "d' = d2" using p assms(1) by (simp add: persist_batch_def)
    then show ?thesis using c pub False by (auto simp: logged_mark_def)
  qed
qed

lemma call_keeps:
  assumes "bo_store o1 = Some S" "file_cleanup o1" "ok d" "batch_call o1 op s d = (bs, logged, s', d')"
  shows "ok d' \<and> (\<forall>j. logged_mark look d j \<longrightarrow> logged_mark look d' j) \<and> (\<forall>b \<in> set bs. public_batch b)
    \<and> (logged = [] \<or> (\<exists>i es. logged = [(i, es)] \<and> \<not> logged_mark look d i \<and> logged_mark look d' i))"
proof (cases op)
  case (OpCreate uuid ctx req meta)
  obtain r s2 d2 where r: "bo_Create o1 uuid ctx req meta s d = (r, s2, d2)" by (metis prod.exhaust)
  show ?thesis using create_keeps [OF assms(1,3) r] assms(4) by (cases r) (auto simp: OpCreate r)
next
  case (OpGet i)
  obtain r s2 d2 where r: "bo_Get o1 i s d = (r, s2, d2)" by (metis prod.exhaust)
  show ?thesis using get_keeps [OF assms(1-3) r] assms(4) by (cases r) (auto simp: OpGet r)
next
  case (OpList limit after)
  obtain r where r: "bo_List o1 limit after d = r" by blast
  show ?thesis using list_keeps [OF assms(1,3)] assms(3,4) r by (cases r) (auto simp: OpList)
next
  case (OpCancel i)
  obtain r s2 d2 where r: "bo_Cancel o1 i s d = (r, s2, d2)" by (metis prod.exhaust)
  show ?thesis using cancel_keeps [OF assms(1-3) r] assms(4) by (cases r) (auto simp: OpCancel r)
next
  case (OpResults stamp now i fallback)
  obtain r es s2 d2 where r: "bo_Results o1 stamp now i fallback s d = (r, es, s2, d2)" by (metis prod.exhaust)
  show ?thesis using results_keep [OF assms(1-3) r] assms(4) by (auto simp: OpResults r split: if_splits)
qed

lemma calls_keep:
  assumes "bo_store o1 = Some S" "file_cleanup o1"
  shows "ok d \<Longrightarrow> batch_calls o1 ops s d = (bs, logged, s', d') \<Longrightarrow>
    (\<forall>b \<in> set bs. public_batch b) \<and> distinct (map fst logged) \<and> (\<forall>i \<in> fst ` set logged. \<not> logged_mark look d i)"
proof (induction ops arbitrary: s d bs logged)
  case (Cons op ops)
  obtain bs1 l1 s1 d1 where c: "batch_call o1 op s d = (bs1, l1, s1, d1)" by (metis prod.exhaust)
  obtain bs2 l2 where r: "batch_calls o1 ops s1 d1 = (bs2, l2, s', d')" "bs = bs1 @ bs2" "logged = l1 @ l2"
    using Cons.prems(2) by (auto simp: c split: prod.splits)
  note K = call_keeps [OF assms Cons.prems(1) c]
  then have "ok d1" by blast
  from Cons.IH [OF this r(1)] K show ?case unfolding r(2,3) by auto
qed simp

end

section \<open>The orchestrator over the memory store\<close>

definition answered :: "('s, batch_memory) batch_orchestrator \<Rightarrow> batch_op list \<Rightarrow> 's \<Rightarrow> batch_response list" where
  "answered o1 ops s = fst (batch_calls o1 ops s NewBatchMemoryStore)"


text \<open>
  C33. Whatever a client calls in whatever order, and whatever the provider answers, no batch it is given
  carries metadata that belongs to the gateway.
\<close>

theorem answers_are_public:
  assumes "exact_json cx" "bo_store o1 = Some (memory_ops cx)" "file_cleanup o1"
  shows "\<forall>b \<in> set (answered o1 ops s). public_batch b"
proof -
  obtain bs logged s' d' where r: "batch_calls o1 ops s NewBatchMemoryStore = (bs, logged, s', d')" by (metis prod.exhaust)
  show ?thesis using bm.calls_keep [OF assms(2,3) bm_ok_init [OF assms(1)] r] by (simp add: answered_def r)
qed



section \<open>A creation that fails\<close>











end
