(* ===== verification/BatchPages.thy ===== *)
theory BatchPages
  imports BatchProps
begin

text \<open>
  Listing batches page by page (\<open>List\<close> of \<open>internal/gateway/batch_orchestrator.go\<close> over
  \<open>internal/batch/store_memory.go\<close>), and concrete runs of the orchestrator.
\<close>

section \<open>Following the cursor\<close>

text \<open>A client asks for the page after the last batch of the previous one while there are more.\<close>

fun list_pages :: "nat \<Rightarrow> ('s, 'd) batch_orchestrator \<Rightarrow> int \<Rightarrow> string \<Rightarrow> 'd \<Rightarrow> batch_response list" where
  "list_pages 0 o1 limit after d = []"
| "list_pages (Suc n) o1 limit after d =
     (case bo_List o1 limit after d of
        Inl err \<Rightarrow> []
      | Inr l \<Rightarrow> bl_Data l @ (if bl_HasMore l then list_pages n o1 limit (bl_LastID l) d else []))"

definition the_batch :: "stored_batch \<Rightarrow> batch_response" where
  "the_batch b = the (sb_Batch b)"

lemma list_limit_bounds: "1 \<le> list_limit limit" "list_limit limit \<le> 100"
  by (simp_all add: list_limit_def)

lemma after_batch_split:
  "distinct (map batch_id (pre @ x # suf)) \<Longrightarrow> after_batch (batch_id x) (pre @ x # suf) = Some suf"
  by (induction pre) auto

lemma map_filter_batches:
  "(\<And>b. b \<in> set bs \<Longrightarrow> sb_Batch b \<noteq> None) \<Longrightarrow> List.map_filter sb_Batch bs = map the_batch bs"
proof (induction bs)
  case (Cons a bs)
  then obtain y where "sb_Batch a = Some y" by fastforce
  then show ?case using Cons by (simp add: the_batch_def)
qed simp

lemma batch_id_Some: "batch_id b \<noteq> [] \<Longrightarrow> sb_Batch b \<noteq> None \<and> br_ID (the_batch b) = batch_id b"
  by (auto simp: batch_id_def the_batch_def split: option.splits)

context batch_store
begin

lemma one_page:
  assumes "bo_store o1 = Some S" "ok d" "listing d = pre @ suf" "\<forall>b \<in> set (listing d). go_trim (batch_id b) = batch_id b"
    and "after = (if pre = [] then [] else batch_id (last pre))" "k = nat (list_limit limit)"
  shows "bo_List o1 limit after d =
    Inr \<lparr>bl_Data = map the_batch (take k suf), bl_HasMore = length suf > k,
         bl_FirstID = (if suf = [] then [] else batch_id (hd suf)),
         bl_LastID = (if suf = [] then [] else batch_id (last (take k suf)))\<rparr>"
proof -
  have ids: "batch_id b \<noteq> []" if "b \<in> set (listing d)" for b
    using that listed [OF assms(2)] kept [OF assms(2)] by blast
  have k: "0 < k" "nat (list_limit limit + 1) = Suc k" "int k = list_limit limit"
    using list_limit_bounds [of limit] assms(6) by simp_all
  have n: "nat (normalizeLimit (list_limit limit + 1)) = Suc k"
    using list_limit_bounds [of limit] k by (simp add: normalizeLimit_def)
  have trim: "go_trim after = after" using assms(3-5) by (cases "pre = []") (auto simp: last_in_set)
  have cursor: "(if after = [] then Some (listing d) else after_batch after (listing d)) = Some suf"
  proof (cases "pre = []")
    case True
    then show ?thesis using assms(3,5) by simp
  next
    case False
    then have split: "listing d = butlast pre @ last pre # suf" using assms(3) by simp
    have "after_batch (batch_id (last pre)) (listing d) = Some suf"
      using listed_once [OF assms(2)] unfolding split by (rule after_batch_split)
    moreover have "after \<noteq> []" using False ids [of "last pre"] assms(3,5) by simp
    ultimately show ?thesis using False assms(5) by simp
  qed
  have page: "bs_List S (list_limit limit + 1) (go_trim after) d = Inr (take (Suc k) suf)"
    unfolding lists [OF assms(2)] page_after_def trim cursor n by simp
  have more: "int (length (take (Suc k) suf)) > list_limit limit \<longleftrightarrow> length suf > k" using k(3) by auto
  have shown: "(if length suf > k then take (nat (list_limit limit)) (take (Suc k) suf)
      else take (Suc k) suf) = take k suf"
    using assms(6) by (simp add: min_absorb1)
  have batches: "List.map_filter sb_Batch (take k suf) = map the_batch (take k suf)"
    using ids batch_id_Some assms(3) by (intro map_filter_batches) (auto dest!: in_set_takeD)
  have bid: "br_ID (the_batch b) = batch_id b" if "b \<in> set suf" for b
    using ids batch_id_Some that assms(3) by auto
  have ends: "suf \<noteq> [] \<Longrightarrow> br_ID (the_batch (hd suf)) = batch_id (hd suf) \<and>
      br_ID (the_batch (last (take k suf))) = batch_id (last (take k suf))"
    using k(1) bid by (metis in_set_takeD last_in_set list.set_sel(1) not_gr_zero take_eq_Nil)
  have "bo_List o1 limit after d = Inr \<lparr>bl_Data = map the_batch (take k suf), bl_HasMore = length suf > k,
      bl_FirstID = (if map the_batch (take k suf) = [] then [] else br_ID (hd (map the_batch (take k suf)))),
      bl_LastID = (if map the_batch (take k suf) = [] then [] else br_ID (last (map the_batch (take k suf))))\<rparr>"
    by (simp only: bo_List_def assms(1) option.case page sum.case Let_def shown more batches)
  then show ?thesis using k(1) ends by (simp add: hd_map last_map)
qed

lemma pages_cover:
  assumes "bo_store o1 = Some S" "ok d" "\<forall>b \<in> set (listing d). go_trim (batch_id b) = batch_id b"
  shows "listing d = pre @ suf \<Longrightarrow> length suf < n \<Longrightarrow>
    list_pages n o1 limit (if pre = [] then [] else batch_id (last pre)) d = map the_batch suf"
proof (induction n arbitrary: pre suf)
  case (Suc n)
  let ?k = "nat (list_limit limit)"
  have k: "0 < ?k" using list_limit_bounds [of limit] by simp
  note page = one_page [OF assms(1,2) Suc.prems(1) assms(3) refl refl, of limit]
  show ?case
  proof (cases "length suf > ?k")
    case False
    then show ?thesis by (simp add: page)
  next
    case True
    have ne: "suf \<noteq> []" "take ?k suf \<noteq> []" using True k by auto
    have "listing d = (pre @ take ?k suf) @ drop ?k suf" using Suc.prems(1) by simp
    moreover have "length (drop ?k suf) < n" using Suc.prems(2) True k by simp
    ultimately have "list_pages n o1 limit (batch_id (last (take ?k suf))) d = map the_batch (drop ?k suf)"
      using Suc.IH [of "pre @ take ?k suf" "drop ?k suf"] ne by simp
    then show ?thesis using True ne by (simp add: page) (metis append_take_drop_id map_append)
  qed
qed simp

end

definition newer_batch :: "batch_response \<Rightarrow> batch_response \<Rightarrow> bool" where
  "newer_batch a b \<longleftrightarrow> br_CreatedAt a > br_CreatedAt b \<or> (br_CreatedAt a = br_CreatedAt b \<and> br_ID a \<ge> br_ID b)"

text \<open>
  C34. Following the cursor from page to page, with any limit, a client is given every stored batch exactly
  once, newest first, and the pages come to an end.
\<close>

theorem pages_cover_store:
  assumes "bm_ok cx d" "bo_store o1 = Some (memory_ops cx)" "\<forall>(i, b) \<in> set d. go_trim i = i" "length d < n"
  shows "mset (list_pages n o1 limit [] d) = mset (map (\<lambda>(i, b). the_batch b) d)
    \<and> sorted_wrt newer_batch (list_pages n o1 limit [] d)"
proof -
  let ?bs = "newest_first (map snd d)"
  have ids: "batch_id b = i \<and> i \<noteq> []" if "(i, b) \<in> set d" for i b
    using assms(1) that by (auto simp: bm_ok_def)
  have len: "length ?bs = length d" by (simp add: newest_first_def)
  have "list_pages n o1 limit [] d = map the_batch ?bs"
    using bm.pages_cover [OF assms(2,1) _ append_Nil [symmetric], of n limit] assms(3,4) ids len
    by (fastforce simp del: append_Nil)
  moreover have "mset (map the_batch ?bs) = mset (map (\<lambda>(i, b). the_batch b) d)"
  proof -
    have "mset (map the_batch ?bs) = mset (map the_batch (map snd d))"
      by (simp only: newest_first_def mset_map mset_rev mset_sort)
    moreover have "map the_batch (map snd d) = map (\<lambda>(i, b). the_batch b) d" by (induction d) auto
    ultimately show ?thesis by (simp only:)
  qed
  moreover have "sorted_wrt newer_batch (map the_batch ?bs)"
  proof -
    have key: "batch_created b = br_CreatedAt (the_batch b) \<and> batch_id b = br_ID (the_batch b)" if "b \<in> set (map snd d)" for b
      using that ids batch_id_Some [of b] by (force simp: batch_created_def the_batch_def)
    have "sorted (map (\<lambda>b. (batch_created b, batch_id b)) (sort_key (\<lambda>b. (batch_created b, batch_id b)) (map snd d)))"
      by (rule sorted_sort_key)
    then have "sorted_wrt (\<lambda>a b. (batch_created b, batch_id b) \<le> (batch_created a, batch_id a)) ?bs"
      by (simp add: newest_first_def sorted_wrt_map sorted_wrt_rev)
    then have "sorted_wrt (\<lambda>a b. newer_batch (the_batch a) (the_batch b)) ?bs"
      by (rule sorted_wrt_mono_rel [rotated])
        (auto simp: newer_batch_def less_eq_prod_def key)
    then show ?thesis by (simp add: sorted_wrt_map)
  qed
  ultimately show ?thesis by simp
qed


section \<open>Concrete runs\<close>

text \<open>An upstream that keeps its files and its batches in lists, and a preparer that makes one file.\<close>

type_synonym demo_upstream_state = "string list \<times> (string \<times> string) list"

definition demo_cx :: batch_codec where
  "demo_cx = \<lparr>bx_json = Inr, bx_time = (\<lambda>_. None)\<rparr>"

definition demo_batch_json :: batch_json where
  "demo_batch_json =
     \<lparr>bj_path = Some, bj_decode = (\<lambda>op body. Inr (CanonicalChat ''m'' [] body)), bj_encode = (\<lambda>_. Inr []),
      bj_item = (\<lambda>_. Inl (PlainError ''item'')), bj_marshal_item = (\<lambda>_. Inr []), bj_value = (\<lambda>_. None), bj_text = (\<lambda>_. None)\<rparr>"

definition demo_response :: "string \<Rightarrow> batch_response" where
  "demo_response i =
     \<lparr>br_ID = i, br_Object = ''batch'', br_Provider = [], br_ProviderBatchID = [], br_Endpoint = ''/v1/chat/completions'',
      br_InputFileID = [], br_CompletionWindow = [], br_Status = ''completed'', br_CreatedAt = 1, br_InProgressAt = None,
      br_CompletedAt = None, br_FailedAt = None, br_CancellingAt = None, br_CancelledAt = None,
      br_RequestCounts = \<lparr>bc_Total = 1, bc_Completed = 1, bc_Failed = 0\<rparr>,
      br_Metadata = Some [(''request_id'', ''secret''), (''team'', ''a'')],
      br_Usage = \<lparr>bu_InputTokens = 0, bu_OutputTokens = 0, bu_TotalTokens = 0, bu_InputCost = None, bu_OutputCost = None,
                   bu_TotalCost = None\<rparr>,
      br_Results = []\<rparr>"

definition demo_item :: batch_item where
  "demo_item =
     \<lparr>bi_Index = 0, bi_CustomID = ''c'', bi_URL = [], bi_StatusCode = 200, bi_Model = ''m'', bi_Provider = ''p'',
      bi_Response = AnyValue (RawMap [(''usage'', RawMap [(''prompt_tokens'', RawInt 2), (''completion_tokens'', RawInt 3)])]),
      bi_Error = None\<rparr>"

definition demo_native :: "demo_upstream_state native_batches" where
  "demo_native =
     \<lparr>nb_CreateBatch = (\<lambda>pt q s. if (pt, ''u'') \<in> set (snd s) then (Inl (PlainError ''busy''), s)
        else (Inr (Some (demo_response ''u'')), (fst s, (pt, ''u'') # snd s))),
      nb_GetBatch = (\<lambda>pt i s. (Inr (Some (demo_response i)), s)),
      nb_CancelBatch = (\<lambda>pt i s. (Inr None, (fst s, removeAll (pt, i) (snd s)))),
      nb_GetBatchResults = (\<lambda>pt i s. (Inr (Some [demo_item]), s))\<rparr>"

definition demo_files :: "demo_upstream_state file_ops" where
  "demo_files =
     \<lparr>fo_GetFileContent = (\<lambda>pt i s. (if go_trim i \<in> set (fst s) \<and> go_trim i \<noteq> [] then Inr (Some ([], [])) else Inr None, s)),
      fo_CreateFile = (\<lambda>pt n c s. (Inl (PlainError ''full''), s)),
      fo_DeleteFile = (\<lambda>pt i s. (None, (removeAll i (fst s), snd s)))\<rparr>"

definition demo_preparer :: "demo_upstream_state preparer" where
  "demo_preparer pt q s =
     (if ''o'' \<in> set (fst s) \<and> ''f'' \<notin> set (fst s)
      then (Inr (Some \<lparr>rr_Request = None, rr_RequestEndpointHints = None, rr_OriginalInputFileID = ''o'',
                       rr_RewrittenInputFileID = ''f''\<rparr>), (''f'' # fst s, snd s))
      else (Inr None, s))"

definition demo_provider :: "demo_upstream_state provider_ops" where
  "demo_provider =
     \<lparr>pv_Supports = (\<lambda>m s. (True, s)), pv_GetProviderType = (\<lambda>m s. (''p'', s)), pv_GetProviderName = None,
      pv_GetProviderNameForType = None, pv_ModelCount = None, pv_ResolveModel = None, pv_RefreshProviderModels = None\<rparr>"

definition demo_batches :: "(demo_upstream_state, batch_memory) batch_orchestrator" where
  "demo_batches =
     \<lparr>bo_provider = Some demo_provider, bo_native = Some demo_native, bo_hinted = None, bo_resolver = None,
      bo_authorizer = None, bo_owner = None, bo_policies = None, bo_preparer = Some (\<lambda>ctx. demo_preparer),
      bo_store = Some (memory_ops demo_cx),
      bo_cleanupPrepared = Some (cleanupPreparedBatchInputFile (Some demo_files)),
      bo_cleanupStored = Some (cleanupStoredBatchRewrittenInputFile (Some demo_files)),
      bo_usage = \<lparr>uw_config = Some \<lparr>uc_Enabled = True, uc_EnforceReturningUsageData = False\<rparr>, uw_pricing = None\<rparr>,
      bo_budget = None, bo_json = demo_batch_json,
      bo_codec = \<lparr>ux_decode = (\<lambda>_. None), ux_marshal = (\<lambda>_. None), ux_number = (\<lambda>_. None), ux_parse = (\<lambda>_. None),
                  ux_sha1 = (\<lambda>s. s)\<rparr>\<rparr>"

definition demo_batch_request :: batch_request where
  "demo_batch_request =
     \<lparr>bq_InputFileID = ''o'', bq_Endpoint = ''/v1/chat/completions'', bq_CompletionWindow = [],
      bq_Metadata = Some [(''provider'', ''p'')], bq_Requests = [], bq_ExtraFields = []\<rparr>"

definition demo_batch_meta :: request_meta where
  "demo_batch_meta = \<lparr>rm_RequestID = ''r'', rm_Endpoint = no_endpoint, rm_Workflow = None\<rparr>"

abbreviation "demo_create uuid \<equiv> OpCreate uuid Background (Some demo_batch_request) demo_batch_meta"
abbreviation "demo_results i \<equiv> OpResults (\<lambda>_. (''e'', 0)) 7 i []"

lemma demo_batches_ok: "exact_json demo_cx" "bo_store demo_batches = Some (memory_ops demo_cx)" "file_cleanup demo_batches"
  by (auto simp: exact_json_def demo_cx_def demo_batches_def file_cleanup_def)

lemma answers_are_public_witness:
  "map br_Metadata (answered demo_batches [demo_create ''x'', OpGet ''batch_x'', OpList 0 []] ([''o''], [])) =
     replicate 3 (Some [(''team'', ''a''), (''provider'', ''p''), (''provider_batch_id'', ''u'')])
   \<and> list_all public_batch (answered demo_batches [demo_create ''x'', OpGet ''batch_x'', OpList 0 []] ([''o''], []))"
proof
  show "map br_Metadata (answered demo_batches [demo_create ''x'', OpGet ''batch_x'', OpList 0 []] ([''o''], [])) =
     replicate 3 (Some [(''team'', ''a''), (''provider'', ''p''), (''provider_batch_id'', ''u'')])"
    by code_simp
qed (unfold list_all_iff, rule answers_are_public [OF demo_batches_ok])








definition taken_store :: batch_memory where
  "taken_store = snd (snd (snd (batch_calls demo_batches [demo_create ''x''] ([''o''], []) NewBatchMemoryStore)))"


text \<open>Two batches made in the same second, in pages of one.\<close>

definition demo_store :: batch_memory where
  "demo_store =
     snd (snd (snd (batch_calls demo_batches [demo_create ''y''] ([''o''], []) taken_store)))"

lemma demo_store_ok: "bm_ok demo_cx demo_store" "\<forall>(i, b) \<in> set demo_store. go_trim i = i" "length demo_store < 3"
proof -
  have "exact_json demo_cx" by (simp add: demo_batches_ok)
  moreover have "distinct (map fst demo_store)" by code_simp
  moreover have "list_all (\<lambda>(i, b). batch_id b = i \<and> i \<noteq> []) demo_store" by code_simp
  moreover have "list_all (\<lambda>(i, b). normal_batch demo_cx b) demo_store" by code_simp
  ultimately show "bm_ok demo_cx demo_store" by (auto simp: bm_ok_def list_all_iff)
  have "list_all (\<lambda>(i, b). go_trim i = i) demo_store" by code_simp
  then show "\<forall>(i, b) \<in> set demo_store. go_trim i = i" by (simp add: list_all_iff)
  show "length demo_store < 3" by code_simp
qed

lemma pages_cover_store_witness:
  "map br_ID (list_pages 3 demo_batches 1 [] demo_store) = [''batch_y'', ''batch_x'']
   \<and> mset (list_pages 3 demo_batches 1 [] demo_store) = mset (map (\<lambda>(i, b). the_batch b) demo_store)"
proof
  show "map br_ID (list_pages 3 demo_batches 1 [] demo_store) = [''batch_y'', ''batch_x'']" by code_simp
qed (rule pages_cover_store [OF demo_store_ok(1) demo_batches_ok(2) demo_store_ok(2,3), THEN conjunct1])

end
