(* ===== verification/ProviderConfig.thy ===== *)
theory ProviderConfig
  imports Cost Keyring RegistryRefresh LLMClient BatchStore
begin

text \<open>
  How the providers of a configuration file and the environment become the providers the gateway
  runs: \<open>internal/providers/config.go\<close> with the types of \<open>config/providers.go\<close>,
  \<open>config/provider_models.go\<close> and \<open>config/resilience.go\<close>.

  A Go map keyed by names is an association list. The maps that the code walks in sorted order
  (the groups of environment variables by suffix, the API keys by index) are association lists
  sorted by key. The environment is the list of \<open>NAME=value\<close> entries that \<open>os.Environ\<close> gives, in
  the order it gives them. Names of variables are ASCII: a byte above 127 counts as no letter.
\<close>

section \<open>Sorted association lists\<close>

fun sorted_update :: "'k::linorder \<Rightarrow> 'v \<Rightarrow> ('k \<times> 'v) list \<Rightarrow> ('k \<times> 'v) list" where
  "sorted_update k v [] = [(k, v)]"
| "sorted_update k v ((k', v') # m) =
     (if k < k' then (k, v) # (k', v') # m
      else if k = k' then (k, v) # m
      else (k', v') # sorted_update k v m)"

lemma sorted_update_commute:
  "k \<noteq> l \<Longrightarrow> sorted_update k v (sorted_update l w m) = sorted_update l w (sorted_update k v m)"
  by (induction m) auto

lemma sorted_update_twice: "sorted_update k v (sorted_update k w m) = sorted_update k v m"
  by (induction m) auto

lemma map_of_sorted_update: "map_of (sorted_update k v m) = (map_of m)(k \<mapsto> v)"
  by (induction m) auto

lemma keys_sorted_update: "fst ` set (sorted_update k v m) = insert k (fst ` set m)"
  using map_of_sorted_update [of k v m] by (metis dom_fun_upd dom_map_of_conv_image_fst option.distinct(1))

lemma entries_sorted_update: "set (sorted_update k v m) \<subseteq> insert (k, v) (set m)"
  by (induction m) (auto split: if_splits)

section \<open>Configurations\<close>

record breaker_config =
  bk_FailureThreshold :: int
  bk_SuccessThreshold :: int
  bk_Timeout :: go_duration

record resilience_config =
  rs_Retry :: retry_config
  rs_CircuitBreaker :: breaker_config

record raw_retry =
  rt_MaxRetries :: "int option"
  rt_InitialBackoff :: "go_duration option"
  rt_MaxBackoff :: "go_duration option"
  rt_BackoffFactor :: "rat option"
  rt_JitterFactor :: "rat option"

record raw_breaker =
  rb_FailureThreshold :: "int option"
  rb_SuccessThreshold :: "int option"
  rb_Timeout :: "go_duration option"

record raw_resilience =
  rr_Retry :: "raw_retry option"
  rr_CircuitBreaker :: "raw_breaker option"

record raw_model =
  pm_ID :: string
  pm_Metadata :: "model_metadata option"

record raw_provider =
  rp_Type :: string
  rp_APIKey :: string
  rp_APIKeys :: "string list"
  rp_BaseURL :: string
  rp_APIVersion :: string
  rp_Backend :: string
  rp_AuthType :: string
  rp_APIMode :: string
  rp_VertexProject :: string
  rp_VertexLocation :: string
  rp_ServiceAccountFile :: string
  rp_ServiceAccountJSON :: string
  rp_ServiceAccountJSONBase64 :: string
  rp_GCPScope :: string
  rp_Models :: "raw_model list"
  rp_Resilience :: "raw_resilience option"

record provider_config =
  pc_Name :: string
  pc_Type :: string
  pc_APIKey :: string
  pc_APIKeys :: "string list"
  pc_BaseURL :: string
  pc_APIVersion :: string
  pc_Backend :: string
  pc_AuthType :: string
  pc_APIMode :: string
  pc_VertexProject :: string
  pc_VertexLocation :: string
  pc_ServiceAccountFile :: string
  pc_ServiceAccountJSON :: string
  pc_ServiceAccountJSONBase64 :: string
  pc_GCPScope :: string
  pc_Models :: "string list"
  pc_ModelMetadataOverrides :: "(string \<times> model_metadata) list"
  pc_Resilience :: resilience_config

record discovery_config =
  dc_DefaultBaseURL :: string
  dc_RequireBaseURL :: bool
  dc_AllowAPIKeyless :: bool
  dc_SupportsAPIVersion :: bool
  dc_NameSeparator :: string

type_synonym raw_providers = "(string \<times> raw_provider) list"
type_synonym discovery = "(string \<times> discovery_config) list"

definition ProviderModelIDs :: "raw_model list \<Rightarrow> string list" where
  "ProviderModelIDs models = filter (\<lambda>i. i \<noteq> []) (map pm_ID models)"

fun ProviderModelMetadataOverrides :: "raw_model list \<Rightarrow> (string \<times> model_metadata) list \<Rightarrow> (string \<times> model_metadata) list" where
  "ProviderModelMetadataOverrides [] m = m"
| "ProviderModelMetadataOverrides (x # xs) m =
     ProviderModelMetadataOverrides xs
       (case pm_Metadata x of
          None \<Rightarrow> m
        | Some d \<Rightarrow> if pm_ID x = [] then m else AList.update (pm_ID x) d m)"

definition rawProviderModelsFromIDs :: "string list \<Rightarrow> raw_model list" where
  "rawProviderModelsFromIDs ids = map (\<lambda>i. \<lparr>pm_ID = i, pm_Metadata = None\<rparr>) (filter (\<lambda>i. i \<noteq> []) ids)"

section \<open>Values and keys\<close>

definition HasResolvedProviderValue :: "string \<Rightarrow> bool" where
  "HasResolvedProviderValue value0 \<longleftrightarrow>
     (let value = go_trim value0 in value \<noteq> [] \<and> \<not> go_contains value ''${'')"

definition resolvedAPIKeys :: "string list \<Rightarrow> string list" where
  "resolvedAPIKeys keys = keep_first [] (filter HasResolvedProviderValue (map go_trim keys))"

definition normalize_keys :: "raw_provider \<Rightarrow> raw_provider" where
  "normalize_keys p =
     (let keys = resolvedAPIKeys (rp_APIKey p # rp_APIKeys p)
      in p\<lparr>rp_APIKeys := keys, rp_APIKey := (case keys of [] \<Rightarrow> [] | k # _ \<Rightarrow> k)\<rparr>)"

fun normalize_entry :: "string \<times> raw_provider \<Rightarrow> string \<times> raw_provider" where
  "normalize_entry (name, p) = (name, normalize_keys p)"

definition normalizeProviderAPIKeys :: "raw_providers \<Rightarrow> raw_providers" where
  "normalizeProviderAPIKeys raw = map normalize_entry raw"

definition isUnresolvedEnvPlaceholder :: "string \<Rightarrow> bool" where
  "isUnresolvedEnvPlaceholder value \<longleftrightarrow>
     has_prefix value ''${'' \<and> has_suffix value ''}'' \<and> 3 < length value
     \<and> (let inner = take (length value - 3) (drop 2 value)
        in inner \<noteq> [] \<and> (\<forall>c \<in> set inner. c \<noteq> CHR ''{'' \<and> c \<noteq> CHR ''}''))"

definition normalizeResolvedBaseURL :: "string \<Rightarrow> string" where
  "normalizeResolvedBaseURL value =
     (let trimmed = go_trim value in if isUnresolvedEnvPlaceholder trimmed then [] else trimmed)"

definition parseCSVEnvList :: "string \<Rightarrow> string list" where
  "parseCSVEnvList value =
     (if go_trim value = [] then [] else filter (\<lambda>i. i \<noteq> []) (map go_trim (split_on (CHR '','') value)))"

section \<open>The names of environment variables\<close>

definition is_digit :: "char \<Rightarrow> bool" where
  "is_digit c \<longleftrightarrow> (let n = of_char c :: nat in 48 \<le> n \<and> n \<le> 57)"

definition is_letter :: "char \<Rightarrow> bool" where
  "is_letter c \<longleftrightarrow> (let n = of_char c :: nat in 65 \<le> n \<and> n \<le> 90 \<or> 97 \<le> n \<and> n \<le> 122)"

definition upper_byte :: "char \<Rightarrow> char" where
  "upper_byte c = (let n = of_char c :: nat in if 97 \<le> n \<and> n \<le> 122 then char_of (n - 32) else c)"

text \<open>\<open>strings.Trim\<close> with a set of one character, or with the characters of a separator.\<close>

definition trim_set :: "string \<Rightarrow> string \<Rightarrow> string" where
  "trim_set cutset s = rev (dropWhile (\<lambda>c. c \<in> set cutset) (rev (dropWhile (\<lambda>c. c \<in> set cutset) s)))"

fun prefix_runes :: "bool \<Rightarrow> string \<Rightarrow> string" where
  "prefix_runes lastUnderscore [] = []"
| "prefix_runes lastUnderscore (c # s) =
     (if is_letter c \<or> is_digit c then upper_byte c # prefix_runes False s
      else if \<not> lastUnderscore then CHR ''_'' # prefix_runes True s
      else prefix_runes lastUnderscore s)"

definition envPrefix :: "string \<Rightarrow> string" where
  "envPrefix providerType = trim_set ''_'' (prefix_runes False providerType)"

fun suffix_runes :: "bool \<Rightarrow> bool \<Rightarrow> string \<Rightarrow> bool" where
  "suffix_runes lastUnderscore hasAlnum [] = hasAlnum"
| "suffix_runes lastUnderscore hasAlnum (c # s) =
     (if is_letter c \<or> is_digit c then suffix_runes False True s
      else if c = CHR ''_'' \<and> \<not> lastUnderscore then suffix_runes True hasAlnum s
      else False)"

definition validProviderEnvSuffix :: "string \<Rightarrow> bool" where
  "validProviderEnvSuffix suffix0 \<longleftrightarrow>
     (let suffix = go_trim suffix0
      in \<not> (suffix = [] \<or> has_prefix suffix ''_'' \<or> has_suffix suffix ''_'') \<and> suffix_runes False False suffix)"

fun separator_runes :: "string \<Rightarrow> bool \<Rightarrow> string \<Rightarrow> string" where
  "separator_runes separator lastHyphen [] = []"
| "separator_runes separator lastHyphen (c # s) =
     (if is_letter c \<or> is_digit c then lower_byte c # separator_runes separator False s
      else if c = CHR ''_'' \<and> \<not> lastHyphen then separator @ separator_runes separator True s
      else separator_runes separator lastHyphen s)"

definition normalizeEnvSuffixForProviderName :: "string \<Rightarrow> string \<Rightarrow> string" where
  "normalizeEnvSuffixForProviderName suffix separator0 =
     (let separator = (if separator0 = [] then ''-'' else separator0)
      in trim_set separator (separator_runes separator False (go_trim suffix)))"

datatype env_field =
    FieldAPIKey | FieldBaseURL | FieldAPIVersion | FieldModels | FieldBackend | FieldAuthType | FieldAPIMode
  | FieldVertexProject | FieldVertexLocation | FieldServiceAccountFile | FieldServiceAccountJSON
  | FieldServiceAccountJSONBase64 | FieldGCPScope

definition lastCut :: "string \<Rightarrow> char \<Rightarrow> (string \<times> string) option" where
  "lastCut s sep = (case cut sep (rev s) of None \<Rightarrow> None | Some (b, a) \<Rightarrow> Some (rev a, rev b))"

definition cutAPIKeyIndex :: "string \<Rightarrow> (string \<times> nat) option" where
  "cutAPIKeyIndex rest =
     (case lastCut rest (CHR ''_'') of
        None \<Rightarrow> None
      | Some (base, digits) \<Rightarrow>
          if \<not> has_suffix base ''API_KEY'' then None
          else (case parse_int64 digits of
                  None \<Rightarrow> None
                | Some index \<Rightarrow> if index < 1 then None else Some (base, nat index)))"

definition common_fields :: "(string \<times> env_field) list" where
  "common_fields =
     [(''API_VERSION'', FieldAPIVersion), (''BASE_URL'', FieldBaseURL), (''AUTH_TYPE'', FieldAuthType),
      (''API_MODE'', FieldAPIMode), (''BACKEND'', FieldBackend), (''API_KEY'', FieldAPIKey), (''MODELS'', FieldModels)]"

definition vertex_fields :: "(string \<times> env_field) list" where
  "vertex_fields =
     [(''SERVICE_ACCOUNT_JSON_BASE64'', FieldServiceAccountJSONBase64), (''SERVICE_ACCOUNT_JSON'', FieldServiceAccountJSON),
      (''SERVICE_ACCOUNT_FILE'', FieldServiceAccountFile), (''VERTEX_PROJECT'', FieldVertexProject),
      (''VERTEX_LOCATION'', FieldVertexLocation), (''PROJECT'', FieldVertexProject), (''LOCATION'', FieldVertexLocation),
      (''GCP_SCOPE'', FieldGCPScope)]"

text \<open>\<open>strings.CutSuffix\<close>.\<close>

definition cut_suffix :: "string \<Rightarrow> string \<Rightarrow> string option" where
  "cut_suffix s suf = (if has_suffix s suf then Some (take (length s - length suf) s) else None)"

definition candidate_field :: "discovery_config \<Rightarrow> string \<Rightarrow> string \<times> env_field \<Rightarrow> (string \<times> env_field) option" where
  "candidate_field spec rest = (\<lambda>(name, f).
     if f = FieldAPIVersion \<and> \<not> dc_SupportsAPIVersion spec then None
     else if rest = name then Some ([], f)
     else case cut_suffix rest (CHR ''_'' # name) of
            Some suffix \<Rightarrow> if validProviderEnvSuffix suffix then Some (suffix, f) else None
          | None \<Rightarrow> None)"

primrec match_field :: "discovery_config \<Rightarrow> string \<Rightarrow> (string \<times> env_field) list \<Rightarrow> (string \<times> env_field) option" where
  "match_field spec rest [] = None"
| "match_field spec rest (c # cs) =
     (case candidate_field spec rest c of None \<Rightarrow> match_field spec rest cs | Some r \<Rightarrow> Some r)"

definition parseProviderEnvKey :: "string \<Rightarrow> string \<Rightarrow> discovery_config \<Rightarrow> (string \<times> env_field \<times> nat) option" where
  "parseProviderEnvKey prefix key spec =
     (if \<not> has_prefix key (prefix @ ''_'') then None
      else let rest = drop (length prefix + 1) key
           in case cutAPIKeyIndex rest of
                Some (base, index) \<Rightarrow>
                  if base = ''API_KEY'' then Some ([], FieldAPIKey, index)
                  else (case cut_suffix base ''_API_KEY'' of
                          Some suffix \<Rightarrow> if validProviderEnvSuffix suffix then Some (suffix, FieldAPIKey, index) else None
                        | None \<Rightarrow> None)
              | None \<Rightarrow>
                  (case match_field spec rest
                          (if equal_fold_lower prefix ''vertex'' then vertex_fields @ common_fields else common_fields) of
                     None \<Rightarrow> None | Some (suffix, f) \<Rightarrow> Some (suffix, f, 0)))"

section \<open>The groups of variables\<close>

text \<open>What the variables of one suffix set; \<open>API_KEY\<close> itself is apart from the numbered keys.\<close>

record env_values =
  ev_APIKey :: string
  ev_APIKeysByIndex :: "(nat \<times> string) list"
  ev_BaseURL :: string
  ev_APIVersion :: string
  ev_Backend :: string
  ev_AuthType :: string
  ev_APIMode :: string
  ev_VertexProject :: string
  ev_VertexLocation :: string
  ev_ServiceAccountFile :: string
  ev_ServiceAccountJSON :: string
  ev_ServiceAccountJSONBase64 :: string
  ev_GCPScope :: string
  ev_Models :: "string list"

definition no_values :: env_values where
  "no_values =
     \<lparr>ev_APIKey = [], ev_APIKeysByIndex = [], ev_BaseURL = [], ev_APIVersion = [], ev_Backend = [], ev_AuthType = [],
      ev_APIMode = [], ev_VertexProject = [], ev_VertexLocation = [], ev_ServiceAccountFile = [],
      ev_ServiceAccountJSON = [], ev_ServiceAccountJSONBase64 = [], ev_GCPScope = [], ev_Models = []\<rparr>"

definition apiKeys :: "env_values \<Rightarrow> string list" where
  "apiKeys v =
     (if go_trim (ev_APIKey v) = [] \<and> ev_APIKeysByIndex v = [] then []
      else resolvedAPIKeys
        (map snd (if go_trim (ev_APIKey v) \<noteq> [] then sorted_update 0 (ev_APIKey v) (ev_APIKeysByIndex v)
                  else ev_APIKeysByIndex v)))"

definition hasAPIKey :: "env_values \<Rightarrow> bool" where
  "hasAPIKey v \<longleftrightarrow>
     HasResolvedProviderValue (ev_APIKey v) \<or> list_ex (\<lambda>(i, key). HasResolvedProviderValue key) (ev_APIKeysByIndex v)"

definition empty_values :: "env_values \<Rightarrow> bool" where
  "empty_values v \<longleftrightarrow>
     \<not> hasAPIKey v \<and> go_trim (ev_BaseURL v) = [] \<and> go_trim (ev_APIVersion v) = [] \<and> go_trim (ev_Backend v) = []
     \<and> go_trim (ev_AuthType v) = [] \<and> go_trim (ev_APIMode v) = [] \<and> go_trim (ev_VertexProject v) = []
     \<and> go_trim (ev_VertexLocation v) = [] \<and> go_trim (ev_ServiceAccountFile v) = []
     \<and> go_trim (ev_ServiceAccountJSON v) = [] \<and> go_trim (ev_ServiceAccountJSONBase64 v) = []
     \<and> go_trim (ev_GCPScope v) = [] \<and> ev_Models v = []"

fun set_field :: "env_field \<Rightarrow> nat \<Rightarrow> string \<Rightarrow> env_values \<Rightarrow> env_values" where
  "set_field FieldAPIKey index value v =
     (if index = 0 then v\<lparr>ev_APIKey := value\<rparr>
      else v\<lparr>ev_APIKeysByIndex := sorted_update index value (ev_APIKeysByIndex v)\<rparr>)"
| "set_field FieldBaseURL index value v = v\<lparr>ev_BaseURL := normalizeResolvedBaseURL value\<rparr>"
| "set_field FieldAPIVersion index value v = v\<lparr>ev_APIVersion := value\<rparr>"
| "set_field FieldModels index value v = v\<lparr>ev_Models := parseCSVEnvList value\<rparr>"
| "set_field FieldBackend index value v = v\<lparr>ev_Backend := value\<rparr>"
| "set_field FieldAuthType index value v = v\<lparr>ev_AuthType := value\<rparr>"
| "set_field FieldAPIMode index value v = v\<lparr>ev_APIMode := value\<rparr>"
| "set_field FieldVertexProject index value v = v\<lparr>ev_VertexProject := value\<rparr>"
| "set_field FieldVertexLocation index value v = v\<lparr>ev_VertexLocation := value\<rparr>"
| "set_field FieldServiceAccountFile index value v = v\<lparr>ev_ServiceAccountFile := value\<rparr>"
| "set_field FieldServiceAccountJSON index value v = v\<lparr>ev_ServiceAccountJSON := value\<rparr>"
| "set_field FieldServiceAccountJSONBase64 index value v = v\<lparr>ev_ServiceAccountJSONBase64 := value\<rparr>"
| "set_field FieldGCPScope index value v = v\<lparr>ev_GCPScope := value\<rparr>"

type_synonym env_groups = "(string \<times> env_values) list"

text \<open>The variable an entry of the environment sets for a prefix, when it sets one.\<close>

definition entry_target :: "string \<Rightarrow> discovery_config \<Rightarrow> string \<Rightarrow> ((string \<times> env_field \<times> nat) \<times> string) option" where
  "entry_target prefix spec entry =
     (case cut (CHR ''='') entry of
        None \<Rightarrow> None
      | Some (key, value) \<Rightarrow>
          if value = [] \<or> \<not> has_prefix key (prefix @ ''_'') then None
          else (case parseProviderEnvKey prefix key spec of None \<Rightarrow> None | Some t \<Rightarrow> Some (t, value)))"

definition collect_entry :: "string \<Rightarrow> discovery_config \<Rightarrow> string \<Rightarrow> env_groups \<Rightarrow> env_groups" where
  "collect_entry prefix spec entry groups =
     (case entry_target prefix spec entry of
        None \<Rightarrow> groups
      | Some ((suffix, f, index), value) \<Rightarrow>
          sorted_update suffix (set_field f index value (get_or no_values groups suffix)) groups)"

definition collectProviderEnvValues :: "string \<Rightarrow> discovery_config \<Rightarrow> string list \<Rightarrow> env_groups" where
  "collectProviderEnvValues prefix spec environ =
     filter (\<lambda>(suffix, v). \<not> empty_values v) (fold (collect_entry prefix spec) environ [])"

section \<open>The overlay of the environment on the file\<close>

record env_source =
  es_Prefix :: string
  es_DefaultName :: string
  es_NameSeparator :: string
  es_OverlayByType :: bool

definition providerEnvSources :: "string \<Rightarrow> discovery_config \<Rightarrow> env_source list" where
  "providerEnvSources providerType spec =
     [\<lparr>es_Prefix = envPrefix providerType, es_DefaultName = providerType,
       es_NameSeparator = (if dc_NameSeparator spec = [] then ''-'' else dc_NameSeparator spec),
       es_OverlayByType = True\<rparr>]"

definition isVertexProviderConfig :: "raw_provider \<Rightarrow> bool" where
  "isVertexProviderConfig p \<longleftrightarrow>
     equal_fold_lower (go_trim (rp_Type p)) ''vertex''
     \<or> (equal_fold_lower (go_trim (rp_Type p)) ''gemini'' \<and> equal_fold_lower (go_trim (rp_Backend p)) ''vertex'')"

definition rawProviderMatchesType :: "raw_provider \<Rightarrow> string \<Rightarrow> bool" where
  "rawProviderMatchesType cfg providerType \<longleftrightarrow>
     (if equal_fold_lower (go_trim providerType) ''vertex'' then isVertexProviderConfig cfg
      else go_trim (rp_Type cfg) = go_trim providerType)"

definition resolvedBaseURL :: "env_values \<Rightarrow> discovery_config \<Rightarrow> string" where
  "resolvedBaseURL v spec =
     (let baseURL = go_trim (ev_BaseURL v)
      in if baseURL = [] \<and> hasAPIKey v \<and> dc_DefaultBaseURL spec \<noteq> [] then dc_DefaultBaseURL spec else baseURL)"

definition rawConfig :: "env_values \<Rightarrow> string \<Rightarrow> discovery_config \<Rightarrow> raw_provider" where
  "rawConfig v providerType spec =
     (let keys = apiKeys v
      in \<lparr>rp_Type = providerType, rp_APIKey = (case keys of [] \<Rightarrow> [] | k # _ \<Rightarrow> k), rp_APIKeys = keys,
          rp_BaseURL = resolvedBaseURL v spec, rp_APIVersion = ev_APIVersion v, rp_Backend = ev_Backend v,
          rp_AuthType = ev_AuthType v, rp_APIMode = ev_APIMode v, rp_VertexProject = ev_VertexProject v,
          rp_VertexLocation = ev_VertexLocation v, rp_ServiceAccountFile = ev_ServiceAccountFile v,
          rp_ServiceAccountJSON = ev_ServiceAccountJSON v, rp_ServiceAccountJSONBase64 = ev_ServiceAccountJSONBase64 v,
          rp_GCPScope = ev_GCPScope v, rp_Models = rawProviderModelsFromIDs (ev_Models v), rp_Resilience = None\<rparr>)"

definition or_else :: "'a list \<Rightarrow> 'a list \<Rightarrow> 'a list" where
  "or_else new old = (if new \<noteq> [] then new else old)"

definition overlayProviderEnvValues :: "raw_provider \<Rightarrow> env_values \<Rightarrow> discovery_config \<Rightarrow> raw_provider" where
  "overlayProviderEnvValues p v spec =
     (let keys = apiKeys v
      in p\<lparr>rp_APIKey := (case keys of [] \<Rightarrow> rp_APIKey p | k # _ \<Rightarrow> k),
           rp_APIKeys := or_else keys (rp_APIKeys p),
           rp_BaseURL :=
             (if ev_BaseURL v \<noteq> [] then ev_BaseURL v
              else if normalizeResolvedBaseURL (rp_BaseURL p) = [] \<and> hasAPIKey v \<and> dc_DefaultBaseURL spec \<noteq> []
              then dc_DefaultBaseURL spec else rp_BaseURL p),
           rp_APIVersion := or_else (ev_APIVersion v) (rp_APIVersion p),
           rp_Backend := or_else (ev_Backend v) (rp_Backend p),
           rp_AuthType := or_else (ev_AuthType v) (rp_AuthType p),
           rp_APIMode := or_else (ev_APIMode v) (rp_APIMode p),
           rp_VertexProject := or_else (ev_VertexProject v) (rp_VertexProject p),
           rp_VertexLocation := or_else (ev_VertexLocation v) (rp_VertexLocation p),
           rp_ServiceAccountFile := or_else (ev_ServiceAccountFile v) (rp_ServiceAccountFile p),
           rp_ServiceAccountJSON := or_else (ev_ServiceAccountJSON v) (rp_ServiceAccountJSON p),
           rp_ServiceAccountJSONBase64 := or_else (ev_ServiceAccountJSONBase64 v) (rp_ServiceAccountJSONBase64 p),
           rp_GCPScope := or_else (ev_GCPScope v) (rp_GCPScope p),
           rp_Models := (if ev_Models v \<noteq> [] then rawProviderModelsFromIDs (ev_Models v) else rp_Models p)\<rparr>)"

definition providerNameForEnvSuffix :: "env_source \<Rightarrow> string \<Rightarrow> string" where
  "providerNameForEnvSuffix source suffix =
     (let baseName = go_trim (es_DefaultName source);
          suffixName = normalizeEnvSuffixForProviderName suffix (es_NameSeparator source)
      in if suffixName = [] then baseName
         else if baseName = [] then suffixName
         else baseName @ es_NameSeparator source @ suffixName)"

text \<open>The key, whether it was found, and whether there were several.\<close>

definition findEnvOverlayTarget :: "raw_providers \<Rightarrow> string \<Rightarrow> env_source \<Rightarrow> string \<times> bool \<times> bool" where
  "findEnvOverlayTarget raw providerType source =
     (if (case map_of raw (es_DefaultName source) of None \<Rightarrow> False | Some p \<Rightarrow> rawProviderMatchesType p providerType)
      then (es_DefaultName source, True, False)
      else if \<not> es_OverlayByType source then ([], False, False)
      else case filter (\<lambda>(name, p). rawProviderMatchesType p providerType) raw of
             [] \<Rightarrow> ([], False, False)
           | [(name, p)] \<Rightarrow> (name, True, False)
           | _ \<Rightarrow> ([], False, True))"

definition applyUnsuffixedProviderEnvVars ::
  "string \<Rightarrow> discovery_config \<Rightarrow> env_source \<Rightarrow> env_values \<Rightarrow> raw_providers \<Rightarrow> raw_providers" where
  "applyUnsuffixedProviderEnvVars providerType spec source v result =
     (if empty_values v then result
      else case findEnvOverlayTarget result providerType source of
             (target, matched, ambiguous) \<Rightarrow>
               if matched
               then (case map_of result target of
                       None \<Rightarrow> result
                     | Some p \<Rightarrow> AList.update target (overlayProviderEnvValues p v spec) result)
               else if ambiguous then result
               else if dc_RequireBaseURL spec \<and> ev_BaseURL v = [] then result
               else AList.update (es_DefaultName source) (rawConfig v providerType spec) result)"

definition applySuffixedProviderEnvVars ::
  "string \<Rightarrow> discovery_config \<Rightarrow> env_source \<Rightarrow> string \<Rightarrow> env_values \<Rightarrow> raw_providers \<Rightarrow> raw_providers" where
  "applySuffixedProviderEnvVars providerType spec source suffix v result =
     (let target = providerNameForEnvSuffix source suffix
      in if empty_values v \<or> target = [] then result
         else case map_of result target of
                Some p \<Rightarrow>
                  if \<not> rawProviderMatchesType p providerType then result
                  else AList.update target (overlayProviderEnvValues p v spec) result
              | None \<Rightarrow>
                  if dc_RequireBaseURL spec \<and> ev_BaseURL v = [] then result
                  else AList.update target (rawConfig v providerType spec) result)"

definition apply_groups :: "string \<Rightarrow> discovery_config \<Rightarrow> env_source \<Rightarrow> env_groups \<Rightarrow> raw_providers \<Rightarrow> raw_providers" where
  "apply_groups providerType spec source groups result =
     fold (\<lambda>suffix. if suffix = [] then (\<lambda>r. r)
                    else applySuffixedProviderEnvVars providerType spec source suffix (get_or no_values groups suffix))
       (sort (map fst groups))
       (case map_of groups [] of
          None \<Rightarrow> result | Some v \<Rightarrow> applyUnsuffixedProviderEnvVars providerType spec source v result)"

definition apply_source :: "string \<Rightarrow> discovery_config \<Rightarrow> string list \<Rightarrow> env_source \<Rightarrow> raw_providers \<Rightarrow> raw_providers" where
  "apply_source providerType spec environ source result =
     apply_groups providerType spec source (collectProviderEnvValues (es_Prefix source) spec environ) result"

definition no_discovery :: discovery_config where
  "no_discovery =
     \<lparr>dc_DefaultBaseURL = [], dc_RequireBaseURL = False, dc_AllowAPIKeyless = False, dc_SupportsAPIVersion = False,
      dc_NameSeparator = []\<rparr>"

definition apply_type :: "discovery \<Rightarrow> string list \<Rightarrow> string \<Rightarrow> raw_providers \<Rightarrow> raw_providers" where
  "apply_type discovery environ providerType result =
     (let spec = get_or no_discovery discovery providerType
      in fold (apply_source providerType spec environ) (providerEnvSources providerType spec) result)"

definition applyProviderEnvVars :: "raw_providers \<Rightarrow> discovery \<Rightarrow> string list \<Rightarrow> raw_providers" where
  "applyProviderEnvVars raw discovery environ = fold (apply_type discovery environ) (sort (map fst discovery)) raw"

section \<open>Resolution\<close>

definition keepOnlyDeclaredKeys :: "raw_providers \<Rightarrow> raw_providers \<Rightarrow> raw_providers" where
  "keepOnlyDeclaredKeys merged declared = filter (\<lambda>(name, p). map_of declared name \<noteq> None) merged"

definition normalizeProviderType :: "raw_provider \<Rightarrow> string" where
  "normalizeProviderType p =
     (let providerType = go_trim (rp_Type p)
      in if equal_fold_lower providerType ''gemini'' \<and> equal_fold_lower (go_trim (rp_Backend p)) ''vertex''
         then ''vertex'' else providerType)"

definition validVertexProviderConfig :: "raw_provider \<Rightarrow> bool" where
  "validVertexProviderConfig p \<longleftrightarrow>
     (HasResolvedProviderValue (rp_BaseURL p)
      \<or> (HasResolvedProviderValue (rp_VertexProject p) \<and> HasResolvedProviderValue (rp_VertexLocation p)))
     \<and> (let authType = go_to_lower (go_trim (rp_AuthType p))
        in if authType \<in> {[], ''gcp_adc'', ''adc'', ''google_adc''} then True
           else if authType \<in> {''gcp_service_account'', ''service_account''}
           then HasResolvedProviderValue (rp_ServiceAccountFile p) \<or> HasResolvedProviderValue (rp_ServiceAccountJSON p)
             \<or> HasResolvedProviderValue (rp_ServiceAccountJSONBase64 p)
           else False)"

definition filter_provider :: "discovery \<Rightarrow> raw_provider \<Rightarrow> raw_provider option" where
  "filter_provider discovery p =
     (let providerType = normalizeProviderType p; spec = map_of discovery providerType
      in if (case spec of None \<Rightarrow> False | Some c \<Rightarrow> dc_RequireBaseURL c) \<and> go_trim (rp_BaseURL p) = [] then None
         else if isVertexProviderConfig p
         then (if validVertexProviderConfig (p\<lparr>rp_Type := providerType\<rparr>) then Some (p\<lparr>rp_Type := providerType\<rparr>) else None)
         else if (case spec of None \<Rightarrow> False | Some c \<Rightarrow> dc_AllowAPIKeyless c) then Some p
         else if rp_APIKey p \<noteq> [] \<and> \<not> go_contains (rp_APIKey p) ''${'' then Some p
         else None)"

fun filter_entry :: "discovery \<Rightarrow> string \<times> raw_provider \<Rightarrow> (string \<times> raw_provider) option" where
  "filter_entry discovery (name, p) = map_option (Pair name) (filter_provider discovery p)"

definition filterEmptyProviders :: "raw_providers \<Rightarrow> discovery \<Rightarrow> raw_providers" where
  "filterEmptyProviders raw discovery = List.map_filter (filter_entry discovery) raw"

definition overriding :: "'a option \<Rightarrow> 'a \<Rightarrow> 'a" where
  "overriding new old = (case new of None \<Rightarrow> old | Some x \<Rightarrow> x)"

definition override_retry :: "raw_retry option \<Rightarrow> retry_config \<Rightarrow> retry_config" where
  "override_retry r0 c =
     (case r0 of
        None \<Rightarrow> c
      | Some r \<Rightarrow>
          c\<lparr>MaxRetries := overriding (rt_MaxRetries r) (MaxRetries c),
            InitialBackoff := overriding (rt_InitialBackoff r) (InitialBackoff c),
            MaxBackoff := overriding (rt_MaxBackoff r) (MaxBackoff c),
            BackoffFactor := overriding (rt_BackoffFactor r) (BackoffFactor c),
            JitterFactor := overriding (rt_JitterFactor r) (JitterFactor c)\<rparr>)"

definition override_breaker :: "raw_breaker option \<Rightarrow> breaker_config \<Rightarrow> breaker_config" where
  "override_breaker r0 c =
     (case r0 of
        None \<Rightarrow> c
      | Some r \<Rightarrow>
          c\<lparr>bk_FailureThreshold := overriding (rb_FailureThreshold r) (bk_FailureThreshold c),
            bk_SuccessThreshold := overriding (rb_SuccessThreshold r) (bk_SuccessThreshold c),
            bk_Timeout := overriding (rb_Timeout r) (bk_Timeout c)\<rparr>)"

definition buildProviderConfig :: "raw_provider \<Rightarrow> resilience_config \<Rightarrow> provider_config" where
  "buildProviderConfig raw global =
     \<lparr>pc_Name = [], pc_Type = normalizeProviderType raw, pc_APIKey = rp_APIKey raw, pc_APIKeys = rp_APIKeys raw,
      pc_BaseURL = rp_BaseURL raw, pc_APIVersion = rp_APIVersion raw, pc_Backend = rp_Backend raw,
      pc_AuthType = rp_AuthType raw, pc_APIMode = rp_APIMode raw, pc_VertexProject = rp_VertexProject raw,
      pc_VertexLocation = rp_VertexLocation raw, pc_ServiceAccountFile = rp_ServiceAccountFile raw,
      pc_ServiceAccountJSON = rp_ServiceAccountJSON raw,
      pc_ServiceAccountJSONBase64 = rp_ServiceAccountJSONBase64 raw, pc_GCPScope = rp_GCPScope raw,
      pc_Models = ProviderModelIDs (rp_Models raw),
      pc_ModelMetadataOverrides = ProviderModelMetadataOverrides (rp_Models raw) [],
      pc_Resilience =
        (case rp_Resilience raw of
           None \<Rightarrow> global
         | Some r \<Rightarrow>
             global\<lparr>rs_Retry := override_retry (rr_Retry r) (rs_Retry global),
                    rs_CircuitBreaker := override_breaker (rr_CircuitBreaker r) (rs_CircuitBreaker global)\<rparr>)\<rparr>"

definition buildProviderConfigs :: "raw_providers \<Rightarrow> resilience_config \<Rightarrow> (string \<times> provider_config) list" where
  "buildProviderConfigs raw global = map (\<lambda>(name, r). (name, (buildProviderConfig r global)\<lparr>pc_Name := name\<rparr>)) raw"

definition resolveProviders ::
  "raw_providers \<Rightarrow> resilience_config \<Rightarrow> discovery \<Rightarrow> string list \<Rightarrow> (string \<times> provider_config) list \<times> raw_providers" where
  "resolveProviders raw global discovery environ =
     (let merged = normalizeProviderAPIKeys (applyProviderEnvVars raw discovery environ);
          declared = keepOnlyDeclaredKeys merged raw;
          filtered = filterEmptyProviders declared discovery
      in (buildProviderConfigs filtered global, filtered))"

definition providerOrigins :: "raw_providers \<Rightarrow> (string \<times> provider_config) list \<Rightarrow> string list \<times> string list" where
  "providerOrigins declared resolved =
     (sort (filter (\<lambda>n. map_of declared n \<noteq> None) (map fst resolved)),
      sort (filter (\<lambda>n. map_of declared n = None) (map fst resolved)))"

definition skippedProviderNames :: "raw_providers \<Rightarrow> raw_providers \<Rightarrow> string list" where
  "skippedProviderNames declared resolved = sort (filter (\<lambda>n. map_of resolved n = None) (map fst declared))"

end
