(* ===== verification/ProviderResolve.thy ===== *)
theory ProviderResolve
  imports ProviderConfig
begin

text \<open>
  What holds of the providers that \<open>resolveProviders\<close> (\<open>internal/providers/config.go\<close>) gives: they
  are usable, the order of the environment does not matter, and a provider keeps its declaration.
\<close>

section \<open>Keys\<close>

lemma resolvedAPIKeys_usable:
  "distinct (resolvedAPIKeys ks)"
  "k \<in> set (resolvedAPIKeys ks) \<Longrightarrow> go_trim k = k \<and> HasResolvedProviderValue k"
  by (auto simp: resolvedAPIKeys_def distinct_keep_first set_keep_first)

lemma keep_first_again: "distinct ks \<Longrightarrow> k \<in> set ks \<Longrightarrow> ks = k # ks' \<Longrightarrow> keep_first [] (k # ks) = ks"
  by (simp add: keep_first_id)

lemma resolvedAPIKeys_id:
  assumes "distinct ks" "\<forall>k \<in> set ks. go_trim k = k \<and> HasResolvedProviderValue k"
  shows "resolvedAPIKeys ks = ks"
proof -
  have "map go_trim ks = ks" using assms(2) by (simp add: map_idI)
  moreover have "filter HasResolvedProviderValue ks = ks" using assms(2) by (simp add: filter_True)
  ultimately show ?thesis using assms(1) by (simp add: resolvedAPIKeys_def keep_first_id)
qed

lemma resolvedAPIKeys_idem: "resolvedAPIKeys (resolvedAPIKeys ks) = resolvedAPIKeys ks"
  by (simp add: resolvedAPIKeys_id resolvedAPIKeys_usable)

lemma resolvedAPIKeys_first:
  assumes "ks = resolvedAPIKeys xs"
  shows "resolvedAPIKeys ((case ks of [] \<Rightarrow> [] | k # _ \<Rightarrow> k) # ks) = ks"
proof (cases ks)
  case Nil
  then show ?thesis by (simp add: resolvedAPIKeys_def HasResolvedProviderValue_def)
next
  case (Cons k ks')
  have "go_trim k = k" "HasResolvedProviderValue k"
    using resolvedAPIKeys_usable(2) [of k xs] by (simp_all add: assms [symmetric] Cons)
  then have "resolvedAPIKeys (k # ks) = resolvedAPIKeys ks" by (simp add: resolvedAPIKeys_def Cons)
  then show ?thesis by (simp add: assms resolvedAPIKeys_idem) (simp add: assms [symmetric] Cons)
qed

lemma apiKeys_resolved: "apiKeys v = resolvedAPIKeys (apiKeys v)"
  by (simp add: apiKeys_def resolvedAPIKeys_idem) (simp add: resolvedAPIKeys_def)

lemma normalize_keys_fields:
  "rp_APIKeys (normalize_keys p) = resolvedAPIKeys (rp_APIKey p # rp_APIKeys p)"
  "rp_APIKey (normalize_keys p) = (case rp_APIKeys (normalize_keys p) of [] \<Rightarrow> [] | k # _ \<Rightarrow> k)"
  "rp_Type (normalize_keys p) = rp_Type p" "rp_Backend (normalize_keys p) = rp_Backend p"
  "rp_Resilience (normalize_keys p) = rp_Resilience p"
  by (simp_all add: normalize_keys_def Let_def)

text \<open>The quick test for a key agrees with the list of keys.\<close>

lemma resolvedAPIKeys_empty_iff: "resolvedAPIKeys ks = [] \<longleftrightarrow> (\<forall>k \<in> set ks. \<not> HasResolvedProviderValue k)"
proof -
  have "resolvedAPIKeys ks = [] \<longleftrightarrow> set (resolvedAPIKeys ks) = {}" by simp
  also have "\<dots> \<longleftrightarrow> (\<forall>k \<in> set ks. \<not> HasResolvedProviderValue k)"
    by (auto simp: resolvedAPIKeys_def set_keep_first HasResolvedProviderValue_def Let_def)
  finally show ?thesis .
qed

lemma hasAPIKey_iff:
  assumes "0 \<notin> fst ` set (ev_APIKeysByIndex v)"
  shows "hasAPIKey v \<longleftrightarrow> apiKeys v \<noteq> []"
proof -
  have blank: "go_trim k = [] \<Longrightarrow> \<not> HasResolvedProviderValue k" for k
    by (simp add: HasResolvedProviderValue_def)
  have "set (sorted_update 0 k m) = insert (0, k) (set m)" if "0 \<notin> fst ` set m" for k and m :: "(nat \<times> string) list"
    using that by (induction m) auto
  then have all_keys: "snd ` set (sorted_update 0 (ev_APIKey v) (ev_APIKeysByIndex v)) =
    insert (ev_APIKey v) (snd ` set (ev_APIKeysByIndex v))" using assms by simp
  define bad where "bad = {k. \<not> HasResolvedProviderValue k}"
  define L where "L = map snd (if go_trim (ev_APIKey v) \<noteq> [] then sorted_update 0 (ev_APIKey v) (ev_APIKeysByIndex v)
      else ev_APIKeysByIndex v)"
  have "resolvedAPIKeys [] = []" by (simp add: resolvedAPIKeys_def)
  then have "apiKeys v = resolvedAPIKeys L" by (simp add: apiKeys_def L_def)
  then have "apiKeys v = [] \<longleftrightarrow> set L - bad = {}" by (auto simp: resolvedAPIKeys_empty_iff bad_def)
  moreover have "set L - bad = insert (ev_APIKey v) (snd ` set (ev_APIKeysByIndex v)) - bad"
    using all_keys blank [of "ev_APIKey v"] by (auto simp: L_def bad_def)
  moreover have "hasAPIKey v \<longleftrightarrow> insert (ev_APIKey v) (snd ` set (ev_APIKeysByIndex v)) - bad \<noteq> {}"
    by (auto simp: hasAPIKey_def list_ex_iff bad_def)
  ultimately show ?thesis by simp
qed

section \<open>The order of the environment\<close>

text \<open>One entry sets one field; entries that set different fields commute.\<close>

definition put_target :: "(string \<times> env_field \<times> nat) \<times> string \<Rightarrow> env_groups \<Rightarrow> env_groups" where
  "put_target = (\<lambda>((suffix, f, index), value) groups.
     sorted_update suffix (set_field f index value (get_or no_values groups suffix)) groups)"

definition entry_targets :: "string \<Rightarrow> discovery_config \<Rightarrow> string list \<Rightarrow> ((string \<times> env_field \<times> nat) \<times> string) list" where
  "entry_targets prefix spec environ = List.map_filter (entry_target prefix spec) environ"

lemma collect_targets:
  "fold (collect_entry prefix spec) environ groups = fold put_target (entry_targets prefix spec environ) groups"
  by (induction environ arbitrary: groups)
    (auto simp: entry_targets_def collect_entry_def put_target_def split: option.split)

lemma parse_index:
  assumes "parseProviderEnvKey prefix key spec = Some (suffix, f, i)"
  shows "f = FieldAPIKey \<or> i = 0"
proof (cases "cutAPIKeyIndex (drop (length prefix + 1) key)")
  case None
  then show ?thesis using assms by (auto simp: parseProviderEnvKey_def Let_def split: option.splits if_split_asm)
next
  case (Some bi)
  obtain b j where "bi = (b, j)" by (cases bi)
  then show ?thesis using assms Some by (simp add: parseProviderEnvKey_def Let_def split: option.splits if_split_asm)
qed

lemma entry_target_index:
  assumes "entry_target prefix spec entry = Some ((suffix, f, i), value)"
  shows "f = FieldAPIKey \<or> i = 0"
proof -
  obtain key where "parseProviderEnvKey prefix key spec = Some (suffix, f, i)"
    using assms by (auto simp: entry_target_def split: option.splits if_split_asm)
  then show ?thesis by (rule parse_index)
qed

lemma set_other_field: "f \<noteq> g \<Longrightarrow> set_field f i x (set_field g j y v) = set_field g j y (set_field f i x v)"
  by (cases f) (cases g; simp)+

lemma set_field_commute:
  assumes "(f, i) \<noteq> (g, j)" "f = FieldAPIKey \<or> i = 0" "g = FieldAPIKey \<or> j = 0"
  shows "set_field f i x (set_field g j y v) = set_field g j y (set_field f i x v)"
proof (cases "f = g")
  case True
  then have "g = FieldAPIKey" "i \<noteq> j" using assms by auto
  then show ?thesis using True by (simp add: sorted_update_commute [of i j])
qed (rule set_other_field)

lemma get_or_sorted_update: "get_or z (sorted_update k v m) l = (if l = k then v else get_or z m l)"
  by (simp add: get_or_def map_of_sorted_update)

lemma put_target_commute:
  assumes "fst x \<noteq> fst y" "fst (snd (fst x)) = FieldAPIKey \<or> snd (snd (fst x)) = 0"
    "fst (snd (fst y)) = FieldAPIKey \<or> snd (snd (fst y)) = 0"
  shows "put_target x (put_target y m) = put_target y (put_target x m)"
proof -
  obtain s f i a t g j b where xy: "x = ((s, f, i), a)" "y = ((t, g, j), b)" by (metis prod.exhaust)
  show ?thesis
  proof (cases "s = t")
    case True
    then have "(f, i) \<noteq> (g, j)" using assms(1) xy by simp
    then show ?thesis using assms(2,3) set_field_commute [of f i g j]
      by (simp add: xy True put_target_def get_or_sorted_update sorted_update_twice)
  next
    case False
    then show ?thesis by (simp add: xy put_target_def get_or_sorted_update sorted_update_commute)
  qed
qed

lemma mset_map_filter: "mset xs = mset ys \<Longrightarrow> mset (List.map_filter f xs) = mset (List.map_filter f ys)"
  by (simp add: map_filter_def)

text \<open>No two variables of the environment set the same field of the same provider.\<close>

definition plain_environ :: "discovery \<Rightarrow> string list \<Rightarrow> bool" where
  "plain_environ discovery environ \<longleftrightarrow>
     (\<forall>T \<in> fst ` set discovery.
        distinct (map fst (entry_targets (envPrefix T) (get_or no_discovery discovery T) environ)))"

lemma collect_order:
  assumes "mset environ = mset environ'" "distinct (map fst (entry_targets prefix spec environ))"
  shows "collectProviderEnvValues prefix spec environ = collectProviderEnvValues prefix spec environ'"
proof -
  let ?xs = "entry_targets prefix spec environ" and ?ys = "entry_targets prefix spec environ'"
  have m: "mset ?xs = mset ?ys" unfolding entry_targets_def by (rule mset_map_filter [OF assms(1)])
  have i: "fst (snd (fst x)) = FieldAPIKey \<or> snd (snd (fst x)) = 0" if x: "x \<in> set ?xs" for x
  proof -
    obtain s f i v where c: "x = ((s, f, i), v)" by (metis prod.exhaust)
    have "\<exists>entry. entry_target prefix spec entry = Some x" using x by (auto simp: entry_targets_def map_filter_def)
    then show ?thesis using entry_target_index c by fastforce
  qed
  have "fold put_target ?xs = fold put_target ?ys"
  proof (rule fold_multiset_equiv [OF _ m])
    fix x y assume xy: "x \<in> set ?xs" "y \<in> set ?xs"
    show "put_target x \<circ> put_target y = put_target y \<circ> put_target x"
    proof (cases "fst x = fst y")
      case True
      then have "x = y" using assms(2) xy by (meson distinct_map inj_onD)
      then show ?thesis by simp
    next
      case False
      then show ?thesis using put_target_commute [OF False i i] xy by (auto simp: fun_eq_iff)
    qed
  qed
  then show ?thesis by (simp add: collectProviderEnvValues_def collect_targets)
qed

text \<open>
  C15. As long as no two variables set the same field of the same provider, the providers do not depend
  on the order in which the operating system lists the environment. Two variables can set the same
  field, with a type's own name in the variable once or twice, and then the order decides: see
  \<open>vertex_project_by_order\<close>.
\<close>

theorem environment_order_irrelevant:
  assumes "mset environ = mset environ'" "plain_environ discovery environ"
  shows "resolveProviders raw global discovery environ = resolveProviders raw global discovery environ'"
proof -
  have "apply_type discovery environ T r = apply_type discovery environ' T r" if "T \<in> set (sort (map fst discovery))" for T r
  proof -
    have "T \<in> fst ` set discovery" using that by simp
    then have "collectProviderEnvValues (envPrefix T) (get_or no_discovery discovery T) environ =
        collectProviderEnvValues (envPrefix T) (get_or no_discovery discovery T) environ'"
      using assms(2) unfolding plain_environ_def by (intro collect_order [OF assms(1)]) blast
    then show ?thesis by (simp add: apply_type_def providerEnvSources_def apply_source_def Let_def)
  qed
  then have "applyProviderEnvVars raw discovery environ = applyProviderEnvVars raw discovery environ'"
    unfolding applyProviderEnvVars_def by (intro fold_cong refl) (simp add: fun_eq_iff)
  then show ?thesis by (simp add: resolveProviders_def)
qed

section \<open>Usable providers\<close>

definition keyless_type :: "discovery \<Rightarrow> string \<Rightarrow> bool" where
  "keyless_type discovery T \<longleftrightarrow> (case map_of discovery T of None \<Rightarrow> False | Some d \<Rightarrow> dc_AllowAPIKeyless d)"

definition base_url_type :: "discovery \<Rightarrow> string \<Rightarrow> bool" where
  "base_url_type discovery T \<longleftrightarrow> (case map_of discovery T of None \<Rightarrow> False | Some d \<Rightarrow> dc_RequireBaseURL d)"

definition located :: "provider_config \<Rightarrow> bool" where
  "located c \<longleftrightarrow> HasResolvedProviderValue (pc_BaseURL c)
     \<or> (HasResolvedProviderValue (pc_VertexProject c) \<and> HasResolvedProviderValue (pc_VertexLocation c))"

definition usable_provider :: "discovery \<Rightarrow> provider_config \<Rightarrow> bool" where
  "usable_provider discovery c \<longleftrightarrow>
     distinct (pc_APIKeys c)
     \<and> list_all (\<lambda>k. go_trim k = k \<and> HasResolvedProviderValue k) (pc_APIKeys c)
     \<and> pc_APIKey c = (case pc_APIKeys c of [] \<Rightarrow> [] | k # _ \<Rightarrow> k)
     \<and> (pc_APIKeys c \<noteq> [] \<or> keyless_type discovery (pc_Type c) \<or> located c)
     \<and> (\<not> base_url_type discovery (pc_Type c) \<or> go_trim (pc_BaseURL c) \<noteq> [])"

lemma normalized_type_again: "normalizeProviderType (p\<lparr>rp_Type := normalizeProviderType p\<rparr>) = normalizeProviderType p"
proof -
  have "go_trim ''vertex'' = ''vertex''" "\<not> equal_fold_lower ''vertex'' ''gemini''" by code_simp+
  then show ?thesis by (auto simp: normalizeProviderType_def Let_def)
qed

lemma filter_provider_keeps:
  assumes "filter_provider discovery p = Some q"
  shows "q = p \<or> q = p\<lparr>rp_Type := normalizeProviderType p\<rparr>" "normalizeProviderType q = normalizeProviderType p"
    "\<not> base_url_type discovery (normalizeProviderType p) \<or> go_trim (rp_BaseURL p) \<noteq> []"
    "rp_APIKey p \<noteq> [] \<or> keyless_type discovery (normalizeProviderType p)
      \<or> validVertexProviderConfig (p\<lparr>rp_Type := normalizeProviderType p\<rparr>)"
  using assms normalized_type_again [of p]
  by (auto simp: filter_provider_def Let_def base_url_type_def keyless_type_def split: if_split_asm)

text \<open>
  C14. Every provider that is resolved is declared in the configuration file and can be used: its keys are
  trimmed, resolved and distinct, the first is the primary key, and it has a key unless its type needs
  none or it is located by a base URL or a project; a type that needs a base URL has one.
\<close>

theorem resolved_providers_usable:
  "list_all (\<lambda>(name, c). pc_Name c = name \<and> map_of raw name \<noteq> None \<and> usable_provider discovery c)
     (fst (resolveProviders raw global discovery environ))"
proof -
  have "pc_Name c = name \<and> map_of raw name \<noteq> None \<and> usable_provider discovery c"
    if c: "(name, c) \<in> set (fst (resolveProviders raw global discovery environ))" for name c
  proof -
    obtain p0 q where q: "filter_provider discovery (normalize_keys p0) = Some q" "map_of raw name \<noteq> None"
      "c = (buildProviderConfig q global)\<lparr>pc_Name := name\<rparr>"
      using c by (auto simp: resolveProviders_def Let_def buildProviderConfigs_def filterEmptyProviders_def map_filter_def
          keepOnlyDeclaredKeys_def normalizeProviderAPIKeys_def)
    define p where "p = normalize_keys p0"
    note K = filter_provider_keeps [OF q(1) [folded p_def]]
    have f: "pc_APIKeys c = rp_APIKeys p" "pc_APIKey c = rp_APIKey p" "pc_BaseURL c = rp_BaseURL p"
      "pc_VertexProject c = rp_VertexProject p" "pc_VertexLocation c = rp_VertexLocation p" "pc_Type c = normalizeProviderType p"
      using K(1,2) by (auto simp: q(3) buildProviderConfig_def)
    have k: "rp_APIKey p = (case rp_APIKeys p of [] \<Rightarrow> [] | k # _ \<Rightarrow> k)"
      "rp_APIKeys p = resolvedAPIKeys (rp_APIKey p0 # rp_APIKeys p0)"
      using normalize_keys_fields [of p0] by (simp_all add: p_def)
    have "rp_APIKeys p \<noteq> [] \<or> keyless_type discovery (pc_Type c) \<or> located c"
      using K(4) k(1) by (auto simp: f located_def validVertexProviderConfig_def split: list.splits)
    then show ?thesis
      using K(3) q(2) k resolvedAPIKeys_usable [where ks = "rp_APIKey p0 # rp_APIKeys p0"]
      by (simp add: usable_provider_def f list_all_iff) (simp add: q(3))
  qed
  then show ?thesis by (auto simp: list_all_iff)
qed

section \<open>A provider keeps its declaration\<close>

definition env_key_sets :: "discovery \<Rightarrow> string list \<Rightarrow> string list set" where
  "env_key_sets discovery environ =
     (\<Union>T \<in> fst ` set discovery.
        apiKeys ` snd ` set (collectProviderEnvValues (envPrefix T) (get_or no_discovery discovery T) environ))"

text \<open>A provider that is named like a type is of that type.\<close>

definition own_name :: "discovery \<Rightarrow> string \<Rightarrow> raw_provider \<Rightarrow> bool" where
  "own_name discovery name p \<longleftrightarrow>
     name \<notin> fst ` set discovery
     \<or> (if equal_fold_lower (go_trim name) ''vertex'' then equal_fold_lower (go_trim (rp_Type p)) ''vertex''
        else go_trim (rp_Type p) = go_trim name)"

definition kept_provider :: "string list set \<Rightarrow> raw_provider \<Rightarrow> raw_provider \<Rightarrow> bool" where
  "kept_provider K p q \<longleftrightarrow>
     rp_Type q = rp_Type p \<and> rp_Resilience q = rp_Resilience p
     \<and> (rp_APIKey q = rp_APIKey p \<and> rp_APIKeys q = rp_APIKeys p
        \<or> (\<exists>ks \<in> K. ks \<noteq> [] \<and> rp_APIKeys q = ks \<and> rp_APIKey q = hd ks))"

definition holds_kept :: "string list set \<Rightarrow> string \<Rightarrow> raw_provider \<Rightarrow> raw_providers \<Rightarrow> bool" where
  "holds_kept K name p r \<longleftrightarrow> distinct (map fst r) \<and> (\<exists>q. map_of r name = Some q \<and> kept_provider K p q)"

lemma kept_overlay: "kept_provider K p q \<Longrightarrow> apiKeys v \<in> K \<Longrightarrow> kept_provider K p (overlayProviderEnvValues q v spec)"
  by (auto simp: kept_provider_def overlayProviderEnvValues_def Let_def or_else_def split: list.split)

lemma holds_kept_update:
  "holds_kept K name p r \<Longrightarrow> (k = name \<Longrightarrow> kept_provider K p q) \<Longrightarrow> holds_kept K name p (AList.update k q r)"
  by (auto simp: holds_kept_def distinct_update update_conv')

lemma own_name_matches:
  "own_name discovery name p \<Longrightarrow> name \<in> fst ` set discovery \<Longrightarrow> kept_provider K p q \<Longrightarrow> rawProviderMatchesType q name"
  by (auto simp: own_name_def rawProviderMatchesType_def isVertexProviderConfig_def kept_provider_def split: if_split_asm)

lemma kept_unsuffixed:
  assumes "holds_kept K name p r" "apiKeys v \<in> K" "own_name discovery name p" "T \<in> fst ` set discovery"
    and "source \<in> set (providerEnvSources T spec)"
  shows "holds_kept K name p (applyUnsuffixedProviderEnvVars T spec source v r)"
proof -
  obtain q where q: "map_of r name = Some q" "kept_provider K p q" using assms(1) by (auto simp: holds_kept_def)
  have src: "es_DefaultName source = T" using assms(5) by (simp add: providerEnvSources_def)
  obtain target matched amb where t: "findEnvOverlayTarget r T source = (target, matched, amb)" by (metis prod.exhaust)
  have new: "T \<noteq> name" if "\<not> matched"
  proof
    assume n: "T = name"
    then have "rawProviderMatchesType q T" using own_name_matches [OF assms(3) _ q(2)] assms(4) by simp
    then show False using that t q n by (simp add: findEnvOverlayTarget_def src)
  qed
  have over: "kept_provider K p (overlayProviderEnvValues x v spec)" if "map_of r target = Some x" "target = name" for x
    using that q assms(2) kept_overlay by simp
  show ?thesis
    using new over assms(1)
    by (auto simp: applyUnsuffixedProviderEnvVars_def t src split: option.split intro!: holds_kept_update)
qed

lemma kept_suffixed:
  assumes "holds_kept K name p r" "apiKeys v \<in> K"
  shows "holds_kept K name p (applySuffixedProviderEnvVars T spec source suffix v r)"
proof -
  obtain q where q: "map_of r name = Some q" "kept_provider K p q" using assms(1) by (auto simp: holds_kept_def)
  then show ?thesis
    using assms kept_overlay
    by (auto simp: applySuffixedProviderEnvVars_def Let_def split: option.split intro!: holds_kept_update)
qed

lemma fold_keeps: "(\<And>x r. x \<in> set xs \<Longrightarrow> P r \<Longrightarrow> P (f x r)) \<Longrightarrow> P r \<Longrightarrow> P (fold f xs r)"
  by (induction xs arbitrary: r) auto

lemma kept_type:
  assumes "holds_kept K name p r" "K = env_key_sets discovery environ" "own_name discovery name p" "T \<in> fst ` set discovery"
  shows "holds_kept K name p (apply_type discovery environ T r)"
proof -
  define spec where "spec = get_or no_discovery discovery T"
  define source where "source = hd (providerEnvSources T spec)"
  define groups where "groups = collectProviderEnvValues (envPrefix T) spec environ"
  have src: "providerEnvSources T spec = [source]" "es_Prefix source = envPrefix T"
    by (simp_all add: source_def providerEnvSources_def)
  have keys: "apiKeys (the (map_of groups s)) \<in> K" "map_of groups s \<noteq> None" if "s \<in> fst ` set groups" for s
  proof -
    show "map_of groups s \<noteq> None" using that by (simp add: map_of_eq_None_iff)
    then have "(s, the (map_of groups s)) \<in> set groups" by (auto intro: map_of_SomeD)
    then show "apiKeys (the (map_of groups s)) \<in> K"
      using assms(4) unfolding assms(2) env_key_sets_def groups_def spec_def by force
  qed
  have "holds_kept K name p (apply_groups T spec source groups r)"
    unfolding apply_groups_def
  proof (rule fold_keeps)
    show "holds_kept K name p (case map_of groups [] of
          None \<Rightarrow> r | Some v \<Rightarrow> applyUnsuffixedProviderEnvVars T spec source v r)"
    proof (cases "map_of groups []")
      case (Some v)
      then have "[] \<in> fst ` set groups" by (force dest: map_of_SomeD)
      then show ?thesis using Some kept_unsuffixed [OF assms(1) _ assms(3,4)] keys [of "[]"] src(1) by simp
    qed (simp add: assms(1))
  next
    fix suffix r assume s: "suffix \<in> set (sort (map fst groups))" "holds_kept K name p r"
    then have "get_or no_values groups suffix = the (map_of groups suffix)" using keys [of suffix] by (auto simp: get_or_def)
    then show "holds_kept K name p ((if suffix = [] then \<lambda>r. r
        else applySuffixedProviderEnvVars T spec source suffix (get_or no_values groups suffix)) r)"
      using s keys [of suffix] kept_suffixed by simp
  qed
  then show ?thesis by (simp add: apply_type_def spec_def [symmetric] Let_def src apply_source_def groups_def)
qed

text \<open>
  C13. Unless it is named like a provider type that it is not of, a provider that is declared in the file
  keeps its type (Gemini with the Vertex backend is of the type vertex) and its resilience settings,
  and its keys are either those of the file or those of one group of environment variables, never a
  mixture. The exception is real: see \<open>declared_provider_replaced\<close>.
\<close>

theorem declared_provider_kept:
  assumes "distinct (map fst raw)" "map_of raw name = Some p" "own_name discovery name p"
    and "(name, c) \<in> set (fst (resolveProviders raw global discovery environ))"
  shows "(pc_Type c = go_trim (rp_Type p) \<or> (equal_fold_lower (go_trim (rp_Type p)) ''gemini'' \<and> pc_Type c = ''vertex''))
    \<and> pc_Resilience c = pc_Resilience (buildProviderConfig p global)
    \<and> (pc_APIKeys c = resolvedAPIKeys (rp_APIKey p # rp_APIKeys p) \<or> pc_APIKeys c \<in> env_key_sets discovery environ)"
proof -
  define K where "K = env_key_sets discovery environ"
  have "holds_kept K name p (applyProviderEnvVars raw discovery environ)"
    unfolding applyProviderEnvVars_def
  proof (rule fold_keeps)
    show "holds_kept K name p raw" using assms(1,2) by (simp add: holds_kept_def kept_provider_def)
  qed (use kept_type [OF _ K_def assms(3)] in simp)
  then obtain p1 where p1: "distinct (map fst (applyProviderEnvVars raw discovery environ))"
    "map_of (applyProviderEnvVars raw discovery environ) name = Some p1" "kept_provider K p p1"
    by (auto simp: holds_kept_def)
  obtain p0 q where p0: "(name, p0) \<in> set (applyProviderEnvVars raw discovery environ)"
    and q: "filter_provider discovery (normalize_keys p0) = Some q" "c = (buildProviderConfig q global)\<lparr>pc_Name := name\<rparr>"
    using assms(4) by (auto simp: resolveProviders_def Let_def buildProviderConfigs_def filterEmptyProviders_def map_filter_def
        keepOnlyDeclaredKeys_def normalizeProviderAPIKeys_def)
  have "p0 = p1" using p0 p1(1,2) by simp
  note N = normalize_keys_fields [of p1]
  note F = filter_provider_keeps [OF q(1) [unfolded \<open>p0 = p1\<close>]]
  have c: "pc_Type c = normalizeProviderType (normalize_keys p1)" "pc_APIKeys c = rp_APIKeys (normalize_keys p1)"
    "pc_Resilience c = pc_Resilience (buildProviderConfig p1 global)"
    using F(1,2) N(5) by (auto simp: q(2) buildProviderConfig_def)
  have "pc_APIKeys c = resolvedAPIKeys (rp_APIKey p # rp_APIKeys p) \<or> pc_APIKeys c \<in> K"
  proof (cases "rp_APIKey p1 = rp_APIKey p \<and> rp_APIKeys p1 = rp_APIKeys p")
    case False
    then obtain ks where ks: "ks \<in> K" "ks \<noteq> []" "rp_APIKeys p1 = ks" "rp_APIKey p1 = hd ks"
      using p1(3) by (auto simp: kept_provider_def)
    obtain v where "ks = apiKeys v" using ks(1) by (auto simp: K_def env_key_sets_def)
    then have "resolvedAPIKeys (hd ks # ks) = ks"
      using resolvedAPIKeys_first [OF apiKeys_resolved, of v] ks(2) by (cases "apiKeys v") simp_all
    then show ?thesis using ks c(2) N(1) by simp
  qed (simp add: c(2) N(1))
  moreover have "pc_Type c = go_trim (rp_Type p) \<or> (equal_fold_lower (go_trim (rp_Type p)) ''gemini'' \<and> pc_Type c = ''vertex'')"
    using p1(3) N(3) by (auto simp: c(1) normalizeProviderType_def Let_def kept_provider_def)
  moreover have "pc_Resilience c = pc_Resilience (buildProviderConfig p global)"
    using p1(3) by (simp add: c(3) buildProviderConfig_def kept_provider_def)
  ultimately show ?thesis by (simp add: K_def)
qed

section \<open>A file and an environment\<close>

definition demo_raw :: raw_provider where
  "demo_raw =
     \<lparr>rp_Type = ''openai'', rp_APIKey = ''file'', rp_APIKeys = [''file2''], rp_BaseURL = ''https://own'', rp_APIVersion = [],
      rp_Backend = [], rp_AuthType = [], rp_APIMode = [], rp_VertexProject = [], rp_VertexLocation = [],
      rp_ServiceAccountFile = [], rp_ServiceAccountJSON = [], rp_ServiceAccountJSONBase64 = [], rp_GCPScope = [],
      rp_Models = [], rp_Resilience = None\<rparr>"

definition demo_global :: resilience_config where
  "demo_global =
     \<lparr>rs_Retry = DefaultRetryConfig,
      rs_CircuitBreaker = \<lparr>bk_FailureThreshold = 5, bk_SuccessThreshold = 2, bk_Timeout = 30 * second\<rparr>\<rparr>"

definition demo_discovery :: discovery where
  "demo_discovery =
     [(''openai'', no_discovery\<lparr>dc_DefaultBaseURL := ''https://api.openai.com/v1''\<rparr>),
      (''compatible'', no_discovery\<lparr>dc_RequireBaseURL := True\<rparr>),
      (''vertex'', no_discovery)]"

definition demo_environ :: "string list" where
  "demo_environ = [''OPENAI_API_KEY_2=b'', ''HOME=/'', ''OPENAI_API_KEY=a'', ''VERTEX_PROJECT=p'']"

definition resolved_keys :: "(string \<times> provider_config) list \<times> raw_providers \<Rightarrow> (string \<times> string \<times> string list \<times> string) list" where
  "resolved_keys r = map (\<lambda>(n, c). (n, pc_Type c, pc_APIKeys c, pc_BaseURL c)) (fst r)"

lemma demo_plain: "plain_environ demo_discovery demo_environ"
proof -
  have "list_all (\<lambda>T. distinct (map fst (entry_targets (envPrefix T) (get_or no_discovery demo_discovery T) demo_environ)))
      (map fst demo_discovery)" by code_simp
  then show ?thesis by (simp add: plain_environ_def list_all_iff)
qed

lemma environment_order_irrelevant_witness:
  "resolved_keys (resolveProviders [(''mine'', demo_raw)] demo_global demo_discovery demo_environ) =
     [(''mine'', ''openai'', [''a'', ''b''], ''https://own'')]
   \<and> resolveProviders [(''mine'', demo_raw)] demo_global demo_discovery demo_environ =
     resolveProviders [(''mine'', demo_raw)] demo_global demo_discovery (rev demo_environ)"
proof
  show "resolved_keys (resolveProviders [(''mine'', demo_raw)] demo_global demo_discovery demo_environ) =
     [(''mine'', ''openai'', [''a'', ''b''], ''https://own'')]" by code_simp
qed (rule environment_order_irrelevant [OF mset_rev [symmetric] demo_plain])

lemma declared_provider_kept_witness:
  "pc_APIKeys (snd (hd (fst (resolveProviders [(''mine'', demo_raw)] demo_global demo_discovery demo_environ)))) = [''a'', ''b'']
   \<and> [''a'', ''b''] \<in> env_key_sets demo_discovery demo_environ"
proof -
  obtain c where c: "fst (resolveProviders [(''mine'', demo_raw)] demo_global demo_discovery demo_environ) = [(''mine'', c)]"
    "pc_APIKeys c = [''a'', ''b'']"
  proof -
    let ?r = "fst (resolveProviders [(''mine'', demo_raw)] demo_global demo_discovery demo_environ)"
    have "map fst ?r = [''mine'']" "map (pc_APIKeys \<circ> snd) ?r = [[''a'', ''b'']]" by code_simp+
    then show ?thesis by (intro that [of "snd (hd ?r)"]) auto
  qed
  have "resolvedAPIKeys (rp_APIKey demo_raw # rp_APIKeys demo_raw) \<noteq> [''a'', ''b'']" by code_simp
  moreover have "own_name demo_discovery ''mine'' demo_raw"
    by (simp add: own_name_def demo_discovery_def)
  ultimately have "[''a'', ''b''] \<in> env_key_sets demo_discovery demo_environ"
    using declared_provider_kept [of "[(''mine'', demo_raw)]" "''mine''" demo_raw demo_discovery c demo_global demo_environ] c
    by auto
  then show ?thesis using c by simp
qed

section \<open>Where the code does otherwise\<close>

text \<open>A provider that is named like a type it is not of is replaced, type, URL and all, when the
  environment has a key for that type.\<close>

lemma declared_provider_replaced:
  "resolved_keys (resolveProviders [(''openai'', demo_raw\<lparr>rp_Type := ''compatible''\<rparr>)] demo_global demo_discovery []) =
     [(''openai'', ''compatible'', [''file'', ''file2''], ''https://own'')]"
  "resolved_keys (resolveProviders [(''openai'', demo_raw\<lparr>rp_Type := ''compatible''\<rparr>)] demo_global demo_discovery
       [''OPENAI_API_KEY=a'']) =
     [(''openai'', ''openai'', [''a''], ''https://api.openai.com/v1'')]"
  by code_simp+

text \<open>A base URL that is required and did not resolve does not keep a provider out.\<close>

lemma unresolved_base_url_kept:
  "resolved_keys (resolveProviders
       [(''mine'', demo_raw\<lparr>rp_Type := ''compatible'', rp_BaseURL := ''${OWN_URL}''\<rparr>)] demo_global demo_discovery []) =
     [(''mine'', ''compatible'', [''file'', ''file2''], ''${OWN_URL}'')]"
  by code_simp

text \<open>Two names for one field of a Vertex provider: the later in the environment is used.\<close>

lemma vertex_project_by_order:
  "map (ev_VertexProject \<circ> snd) (collectProviderEnvValues ''VERTEX'' no_discovery
     [''VERTEX_PROJECT=p'', ''VERTEX_VERTEX_PROJECT=q'']) = [''q'']"
  "map (ev_VertexProject \<circ> snd) (collectProviderEnvValues ''VERTEX'' no_discovery
     [''VERTEX_VERTEX_PROJECT=q'', ''VERTEX_PROJECT=p'']) = [''p'']"
  by code_simp+

end
