(* ===== verification/Spec2Isabelle.thy ===== *)
theory Spec2Isabelle
  imports Network UserPath Keyring RouterProps StoreProps VMProps VMAdmin SSEStream Failover ResponseCache
    CostProps Usage UsageLogger Inference ResponsesClient ResponsesDone AnthropicStream AnthropicClient BatchPages ProviderResolve
begin

text \<open>
  A verification library for thinroute, a gateway that accepts OpenAI-style requests and sends each
  to one of several model providers.

  \<^bold>\<open>The program.\<close> A request enters the HTTP server (\<open>internal/server\<close>), which turns it into a
  translated request. The gateway (\<open>internal/gateway\<close>) resolves the model it names: virtual models
  (\<open>internal/virtualmodels\<close>) redirect it and balance it over targets, the router
  (\<open>internal/providers/router.go\<close>) looks the target up in the model registry
  (\<open>internal/providers/registry*.go\<close>). The answer may come from the response cache
  (\<open>internal/responsecache\<close>). Otherwise the provider's client (\<open>internal/llmclient\<close>) sends the
  request, with retries, behind a circuit breaker and the router's cooldowns; if that fails, the
  gateway tries the failover targets. Streams pass through observers (\<open>internal/streaming\<close>); usage
  is priced (\<open>internal/usage\<close>); responses and conversations are kept in bounded memory stores.

  \<^bold>\<open>The theories, and the code they model.\<close> Definitions keep the names of the Go functions, with a
  prefix or suffix where the name clashes; records have the fields of the structs with a prefix.

  \<^item> \<open>Prelude\<close>: Go strings, times and slices, and the library functions the code calls.
  \<^item> \<open>GatewayErrors\<close>: \<open>core/errors.go\<close>. An upstream status is relayed unchanged, the kept
    body is bounded.
  \<^item> \<open>CircuitBreaker\<close>, \<open>LLMClient\<close>, \<open>Network\<close>: \<open>llmclient/circuit_breaker.go\<close> and \<open>client.go\<close>; the
    breaker's thresholds and recovery, the bounds on attempts and back-off, and the interleaving of
    any number of requests over one breaker as a step relation.
  \<^item> \<open>Selectors\<close>, \<open>UserPath\<close>, \<open>Keyring\<close>: \<open>core/model_selector.go\<close>, \<open>modelselectors/\<close>,
    \<open>core/user_path.go\<close>, \<open>core/labels.go\<close>, \<open>providers/keyring.go\<close>; normal forms and round trips, and
    the fairness of key rotation on 64-bit counters.
  \<^item> \<open>ProviderConfig\<close>, \<open>ProviderResolve\<close>: \<open>providers/config.go\<close> with the types of \<open>config/\<close>; the
    overlay of environment variables on the declared providers, which of them are usable, and that
    the order of the environment does not matter.
  \<^item> \<open>Registry\<close>, \<open>RegistryRefresh\<close>, \<open>RegistryProps\<close>: \<open>providers/registry.go\<close>, \<open>registry_init.go\<close>,
    \<open>registry_provider_refresh.go\<close>, \<open>configured_models.go\<close>; the invariant of the inventory and of
    its cached views over all operations, and what a sweep keeps of a provider that fails.
  \<^item> \<open>Cooldown\<close>, \<open>Router\<close>, \<open>RouterProps\<close>: \<open>providers/cooldown.go\<close>, \<open>router.go\<close>; exact back-off
    times, the precedence of a selector's resolutions, and the provider a request reaches.
  \<^item> \<open>MemoryStore\<close>, \<open>Stores\<close>, \<open>StoreProps\<close>: \<open>responsestore/store_memory.go\<close>,
    \<open>conversationstore/store_memory.go\<close>; accounting, bounds, eviction order, and the refinement of a
    finite map.
  \<^item> \<open>Balancer\<close>, \<open>VirtualModels\<close>, \<open>VMService\<close>, \<open>VMProps\<close>, \<open>VMAdmin\<close>: \<open>virtualmodels/\<close>; the
    strategies, resolution of redirects, access policies, and administrative writes that are undone
    when they fail.
  \<^item> \<open>Workflow\<close>, \<open>Failover\<close>: \<open>core/endpoints.go\<close>, \<open>core/workflow.go\<close>, \<open>core/context.go\<close>,
    \<open>gateway/failover.go\<close>, \<open>attempts.go\<close>, \<open>workflow_policy.go\<close>; which calls a failing request makes
    and which answer it gets.
  \<^item> \<open>RouterReads\<close>, \<open>Resolution\<close>, \<open>Inference\<close>: \<open>gateway/request_model_resolution.go\<close>,
    \<open>inference_prepare.go\<close>, \<open>inference_execute.go\<close>, \<open>inference_orchestrator.go\<close>, \<open>usage.go\<close>; a
    prepared request reaches the provider its model was resolved to, with the authorizer's consent.
  \<^item> \<open>SSEStream\<close>: \<open>streaming/observed_sse_stream.go\<close>, \<open>stream_buffer.go\<close>,
    \<open>responsecache/sse_validation.go\<close>; the events seen by an observer do not depend on how reads cut
    the stream.
  \<^item> \<open>ResponsesStream\<close>, \<open>ResponsesClient\<close>, \<open>ResponsesDone\<close>: \<open>providers/responses_converter.go\<close>,
    \<open>responses_output_state.go\<close>, \<open>responses_done_wrapper.go\<close>; a client of the converted stream rebuilds
    what the upstream's chunks spell, however the bytes are cut, and a cut stream gets its end marker.
  \<^item> \<open>AnthropicStream\<close>, \<open>AnthropicClient\<close>: \<open>anthropicapi/stream.go\<close>; the converter to the Messages
    dialect, its reader, and what a strict client of that dialect rebuilds.
  \<^item> \<open>BatchStore\<close>, \<open>BatchRewrite\<close>, \<open>BatchUsage\<close>, \<open>BatchOrchestrator\<close>, \<open>BatchProps\<close>,
    \<open>BatchPages\<close>: \<open>batch/store.go\<close>, \<open>store_memory.go\<close>, \<open>core/batch*.go\<close>, \<open>batchrewrite/\<close>,
    \<open>virtualmodels/batch_preparer.go\<close>, \<open>server/batch_request_preparer.go\<close>,
    \<open>gateway/batch_*.go\<close>; what a client may see of a batch, usage that is written once, a failed
    creation that leaves nothing upstream, and the pages of the list.
  \<^item> \<open>ResponseCache\<close>: \<open>responsecache/\<close>, \<open>cache/store.go\<close>; a cached answer is an earlier answer to a
    request with the same key.
  \<^item> \<open>Cost\<close>, \<open>CostProps\<close>: \<open>usage/cost.go\<close>, \<open>savings.go\<close>; every token is priced once.
  \<^item> \<open>AudioDuration\<close>, \<open>Usage\<close>: \<open>usage/audio_duration.go\<close>, \<open>extractor.go\<close>, \<open>audio.go\<close>, \<open>realtime.go\<close>,
    \<open>stream_observer.go\<close>, \<open>cache_type.go\<close>; the records made of answers, whole or streamed; the
    duration of speech.
  \<^item> \<open>UsageLogger\<close>: \<open>usage/logger.go\<close>, its goroutines as interleaved atomic actions; no accepted record
    is lost, and closing returns.

  \<^bold>\<open>Interfaces.\<close> Where the code has an interface between components there is a locale, interpreted
  on the model's own definitions: the snapshot stores (\<open>MemoryStore\<close>, \<open>Stores\<close>), the catalog of the
  virtual models (kept by the registry, \<open>VMProps\<close>), the row store of the administrative API
  (\<open>VMAdmin\<close>), the batch store (\<open>BatchStore\<close>), the cache store (\<open>ResponseCache\<close>), the provider of models a resolution asks, which the
  router is (\<open>Resolution\<close>), and the reader over an upstream, which the two stream
  converters and the wrapper of the end marker are (\<open>ResponsesStream\<close>, \<open>AnthropicStream\<close>,
  \<open>ResponsesDone\<close>).

  \<^bold>\<open>Parameters.\<close> What the code does not define is an argument: HTTP transports and provider answers,
  JSON encoding and decoding, hash functions, random draws, clocks, metadata lists. A step that reads
  the clock takes the time it read. Go maps are association lists or functions; where their iteration
  order could matter the list stands for it. A method that holds its lock throughout is one step.

  \<^bold>\<open>Bounds and fuel.\<close> Loops are structural recursions, or functions with a measure (the binary search,
  trimming, the validation of events). The retry loops recurse on the attempts left, at most
  \<open>MaxRetries + 1\<close>, which \<open>doRaw_bounded\<close> proves to be enough. Counters that wrap are 64-bit words;
  durations and times are integers in nanoseconds with Go's saturation where the code relies on it;
  floats are exact rationals, so rounding is not modelled.

  \<^bold>\<open>Not modelled.\<close> The provider adapters and the translation of request and response bodies, the HTTP
  handlers, SQL storage and its queries, configuration parsing, realtime relays, and the
  wiring of the application: mostly input, output and JSON. Data races are not visible in a model whose
  steps are whole critical sections.
\<close>

end
